(* ===== verification/Prelude.thy ===== *)
theory Prelude
  imports Complex_Main
begin

text \<open>
  Shared vocabulary of the development: Python floats with their three non-finite values,
  the few string operations the source uses, dictionaries with insertion order, and the
  collections of rules the component theories extend.

  Python floats are modelled by \<open>pyfloat\<close>: a finite rational or one of the IEEE specials.
  Comparisons follow IEEE 754 (every comparison with NaN is false) and are exact; the only
  arithmetic the modelled code performs on floats (sums and differences of ages, absolute
  values) is exact here, so rounding is the one thing left out. Clock readings, which are
  always finite, are plain rationals. Strings are character lists over the ASCII range.
\<close>

named_theorems gate_defs \<open>definitions of guard functions, unfolded together\<close>
named_theorems state_defs \<open>definitions of the operations of a state machine\<close>

subsection \<open>Floats\<close>

datatype pyfloat = Fin rat | PosInf | NegInf | NaN

definition is_finite :: "pyfloat \<Rightarrow> bool" where
  "is_finite x = (case x of Fin _ \<Rightarrow> True | _ \<Rightarrow> False)"

fun pf_le :: "pyfloat \<Rightarrow> pyfloat \<Rightarrow> bool" where
  "pf_le (Fin a) y = (case y of Fin b \<Rightarrow> a \<le> b | PosInf \<Rightarrow> True | NegInf \<Rightarrow> False | NaN \<Rightarrow> False)"
| "pf_le PosInf y = (y = PosInf)"
| "pf_le NegInf y = (y \<noteq> NaN)"
| "pf_le NaN y = False"

fun pf_lt :: "pyfloat \<Rightarrow> pyfloat \<Rightarrow> bool" where
  "pf_lt (Fin a) y = (case y of Fin b \<Rightarrow> a < b | PosInf \<Rightarrow> True | NegInf \<Rightarrow> False | NaN \<Rightarrow> False)"
| "pf_lt PosInf y = False"
| "pf_lt NegInf y = (y \<noteq> NaN \<and> y \<noteq> NegInf)"
| "pf_lt NaN y = False"

fun pf_add :: "pyfloat \<Rightarrow> pyfloat \<Rightarrow> pyfloat" where
  "pf_add (Fin a) y = (case y of Fin b \<Rightarrow> Fin (a + b) | _ \<Rightarrow> y)"
| "pf_add PosInf y = (case y of NegInf \<Rightarrow> NaN | NaN \<Rightarrow> NaN | _ \<Rightarrow> PosInf)"
| "pf_add NegInf y = (case y of PosInf \<Rightarrow> NaN | NaN \<Rightarrow> NaN | _ \<Rightarrow> NegInf)"
| "pf_add NaN y = NaN"

fun pf_abs :: "pyfloat \<Rightarrow> pyfloat" where
  "pf_abs (Fin a) = Fin \<bar>a\<bar>"
| "pf_abs PosInf = PosInf"
| "pf_abs NegInf = PosInf"
| "pf_abs NaN = NaN"

text \<open>The float a rational stands for, and the rational of a finite float.\<close>

definition rat_of :: "pyfloat \<Rightarrow> rat option" where
  "rat_of x = (case x of Fin a \<Rightarrow> Some a | _ \<Rightarrow> None)"

lemma is_finite_simps [simp]:
  "is_finite (Fin a)" "\<not> is_finite PosInf" "\<not> is_finite NegInf" "\<not> is_finite NaN"
  by (simp_all add: is_finite_def)

lemma is_finiteE: "is_finite x \<Longrightarrow> (\<And>a. x = Fin a \<Longrightarrow> P) \<Longrightarrow> P"
  by (cases x) auto

lemma rat_of_simps [simp]: "rat_of (Fin a) = Some a" "rat_of PosInf = None"
  "rat_of NegInf = None" "rat_of NaN = None"
  by (simp_all add: rat_of_def)

lemma pf_le_finite_upper: "pf_le (Fin a) x \<Longrightarrow> pf_le x (Fin b) \<Longrightarrow> is_finite x"
  by (cases x) auto

lemma pf_le_NaN [simp]: "\<not> pf_le x NaN"
  by (cases x) auto

lemma pf_lt_NaN [simp]: "\<not> pf_lt x NaN"
  by (cases x) auto

lemma pf_lt_irrefl [simp]: "\<not> pf_lt x x"
  by (cases x) auto

lemma pf_not_lt: "x \<noteq> NaN \<Longrightarrow> y \<noteq> NaN \<Longrightarrow> (\<not> pf_lt x y) = pf_le y x"
  by (cases x; cases y) auto

lemma pf_le_trans: "pf_le x y \<Longrightarrow> pf_le y z \<Longrightarrow> pf_le x z"
  by (cases x; cases y; cases z) auto

lemma pf_abs_nonneg: "pf_lt (pf_abs x) (Fin 0) = False"
  by (cases x) auto

subsection \<open>Python strings\<close>

text \<open>\<open>str.upper\<close>, \<open>str.lower\<close> and \<open>str.strip\<close> on ASCII text.\<close>

definition char_upper :: "char \<Rightarrow> char" where
  "char_upper c = (let n = of_char c :: nat in if 97 \<le> n \<and> n \<le> 122 then char_of (n - 32) else c)"

definition char_lower :: "char \<Rightarrow> char" where
  "char_lower c = (let n = of_char c :: nat in if 65 \<le> n \<and> n \<le> 90 then char_of (n + 32) else c)"

definition char_space :: "char \<Rightarrow> bool" where
  "char_space c = (let n = of_char c :: nat in (9 \<le> n \<and> n \<le> 13) \<or> (28 \<le> n \<and> n \<le> 32))"

definition py_upper :: "string \<Rightarrow> string" where
  "py_upper s = map char_upper s"

definition py_lower :: "string \<Rightarrow> string" where
  "py_lower s = map char_lower s"

definition py_strip :: "string \<Rightarrow> string" where
  "py_strip s = rev (dropWhile char_space (rev (dropWhile char_space s)))"

text \<open>\<open>x or ""\<close> on an optional string.\<close>

definition or_empty :: "string option \<Rightarrow> string" where
  "or_empty x = (case x of None \<Rightarrow> [] | Some s \<Rightarrow> s)"

lemma or_empty_simps [simp]: "or_empty None = []" "or_empty (Some s) = s"
  by (simp_all add: or_empty_def)

lemmas py_string_defs = py_upper_def py_lower_def py_strip_def char_upper_def char_lower_def
  char_space_def Let_def

subsection \<open>Optional values\<close>

text \<open>Truth of an optional boolean, Python's \<open>if x:\<close> for \<open>bool | None\<close>.\<close>

definition truthy :: "bool option \<Rightarrow> bool" where
  "truthy x = (x = Some True)"

lemma truthy_simps [simp]: "\<not> truthy None" "truthy (Some b) = b"
  by (simp_all add: truthy_def)

text \<open>\<open>getattr(x, name, d)\<close>.\<close>

definition default :: "'a \<Rightarrow> 'a option \<Rightarrow> 'a" where
  "default d x = (case x of None \<Rightarrow> d | Some v \<Rightarrow> v)"

lemma default_simps [simp]: "default d None = d" "default d (Some v) = v"
  by (simp_all add: default_def)

subsection \<open>Dictionaries with insertion order\<close>

text \<open>
  A Python dictionary as an association list with distinct keys, oldest key first: assigning
  to a present key keeps its place, a new key goes to the end.
\<close>

definition dget :: "('k \<times> 'v) list \<Rightarrow> 'k \<Rightarrow> 'v option" where
  "dget d k = map_of d k"

fun dset :: "('k \<times> 'v) list \<Rightarrow> 'k \<Rightarrow> 'v \<Rightarrow> ('k \<times> 'v) list" where
  "dset [] k v = [(k, v)]"
| "dset ((a, b) # d) k v = (if a = k then (k, v) # d else (a, b) # dset d k v)"

definition ddel :: "('k \<times> 'v) list \<Rightarrow> 'k \<Rightarrow> ('k \<times> 'v) list" where
  "ddel d k = filter (\<lambda>p. fst p \<noteq> k) d"

definition dkeys :: "('k \<times> 'v) list \<Rightarrow> 'k list" where
  "dkeys d = map fst d"

lemma dget_Nil [simp]: "dget [] k = None"
  by (simp add: dget_def)

lemma dget_Cons [simp]: "dget ((a, b) # d) k = (if k = a then Some b else dget d k)"
  by (simp add: dget_def)

lemma dget_dset [simp]: "dget (dset d k v) j = (if j = k then Some v else dget d j)"
  by (induction d k v rule: dset.induct) auto

lemma dget_ddel [simp]: "dget (ddel d k) j = (if j = k then None else dget d j)"
  by (induction d) (auto simp: ddel_def)

lemma dkeys_ddel [simp]: "dkeys (ddel d k) = filter (\<lambda>j. j \<noteq> k) (dkeys d)"
  by (induction d) (auto simp: ddel_def dkeys_def)

lemma set_dkeys_dset [simp]: "set (dkeys (dset d k v)) = insert k (set (dkeys d))"
  by (induction d k v rule: dset.induct) (auto simp: dkeys_def)

lemma distinct_dset: "distinct (dkeys d) \<Longrightarrow> distinct (dkeys (dset d k v))"
proof (induction d k v rule: dset.induct)
  case (2 a b d k v)
  then show ?case using set_dkeys_dset [of d k v] by (auto simp: dkeys_def)
qed (simp add: dkeys_def)

lemma distinct_ddel: "distinct (dkeys d) \<Longrightarrow> distinct (dkeys (ddel d k))"
  by simp

lemma dget_None_iff: "dget d k = None \<longleftrightarrow> k \<notin> set (dkeys d)"
  by (auto simp: dget_def dkeys_def map_of_eq_None_iff)

lemma dget_SomeD: "dget d k = Some v \<Longrightarrow> (k, v) \<in> set d"
  by (simp add: dget_def map_of_SomeD)

lemma dget_in_set: "distinct (dkeys d) \<Longrightarrow> (k, v) \<in> set d \<Longrightarrow> dget d k = Some v"
  by (simp add: dget_def dkeys_def)

lemma ddel_absent: "k \<notin> set (dkeys d) \<Longrightarrow> ddel d k = d"
  by (induction d) (auto simp: ddel_def dkeys_def)

lemma length_dset: "length (dset d k v) = (if k \<in> set (dkeys d) then length d else Suc (length d))"
  by (induction d k v rule: dset.induct) (auto simp: dkeys_def)

lemma dset_absent: "k \<notin> set (dkeys d) \<Longrightarrow> dset d k v = d @ [(k, v)]"
  by (induction d k v rule: dset.induct) (auto simp: dkeys_def)

subsection \<open>Dynamically typed values\<close>

text \<open>
  A Python value whose type the code inspects: JSON values, and \<open>VObj\<close> for an object of any
  other type. Dictionary keys are strings, in insertion order.
\<close>

datatype pyval = VNone | VBool bool | VInt int | VFloat pyfloat | VStr string
  | VList "pyval list" | VDict "(string \<times> pyval) list" | VObj nat

text \<open>Truth of a value, Python's \<open>if v:\<close>.\<close>

fun py_truth :: "pyval \<Rightarrow> bool" where
  "py_truth VNone = False"
| "py_truth (VBool b) = b"
| "py_truth (VInt i) = (i \<noteq> 0)"
| "py_truth (VFloat x) = (x \<noteq> Fin 0)"
| "py_truth (VStr s) = (s \<noteq> [])"
| "py_truth (VList vs) = (vs \<noteq> [])"
| "py_truth (VDict d) = (d \<noteq> [])"
| "py_truth (VObj n) = True"

text \<open>\<open>float(i)\<close>: an integer of magnitude 2^1024 - 2^970 or more raises \<open>OverflowError\<close>.\<close>

definition float_of_int :: "int \<Rightarrow> pyfloat option" where
  "float_of_int i = (if 2 ^ 1024 - 2 ^ 970 \<le> \<bar>i\<bar> then None else Some (Fin (of_int i)))"

lemma float_of_int_SomeD: "float_of_int i = Some x \<Longrightarrow> x = Fin (of_int i)"
  by (simp add: float_of_int_def split: if_splits)

text \<open>\<open>sub in s\<close> for strings.\<close>

fun substring :: "string \<Rightarrow> string \<Rightarrow> bool" where
  "substring sub [] = (sub = [])"
| "substring sub (c # s) = (take (length sub) (c # s) = sub \<or> substring sub s)"

text \<open>
  The canonical text of a UUID, what \<open>str(UUID(s))\<close> returns: lower-case hexadecimal digits in
  groups of 8, 4, 4, 4 and 12.
\<close>

definition lower_hex :: "char \<Rightarrow> bool" where
  "lower_hex c = (c \<in> set ''0123456789abcdef'')"

definition uuid_canonical :: "string \<Rightarrow> bool" where
  "uuid_canonical s =
     (length s = 36
      \<and> list_all (\<lambda>(i, c). if i \<in> {8, 13, 18, 23} then c = CHR ''-'' else lower_hex c)
          (zip [0..<36] s))"

subsection \<open>Rounding, slicing and decimal text\<close>

text \<open>
  \<open>round(x, n)\<close>: the nearest multiple of \<open>10 ^ -n\<close>, halves to the even neighbour. A non-finite
  float is returned as it is.
\<close>

definition round_half_even :: "rat \<Rightarrow> int" where
  "round_half_even r =
     (let f = floor r; d = r - of_int f
      in if d < 1 / 2 then f else if 1 / 2 < d then f + 1 else if even f then f else f + 1)"

definition round_rat :: "nat \<Rightarrow> rat \<Rightarrow> rat" where
  "round_rat n a = of_int (round_half_even (a * 10 ^ n)) / 10 ^ n"

definition py_round :: "nat \<Rightarrow> pyfloat \<Rightarrow> pyfloat" where
  "py_round n x = (case x of Fin a \<Rightarrow> Fin (round_rat n a) | _ \<Rightarrow> x)"

lemma py_round_simps [simp]: "py_round n (Fin a) = Fin (round_rat n a)"
  "py_round n PosInf = PosInf" "py_round n NegInf = NegInf" "py_round n NaN = NaN"
  by (simp_all add: py_round_def)

lemma round_half_even_le: "r \<le> of_int k \<Longrightarrow> round_half_even r \<le> k"
  unfolding round_half_even_def Let_def by (auto split: if_splits) linarith+

lemma round_half_even_ge: "of_int k \<le> r \<Longrightarrow> k \<le> round_half_even r"
  unfolding round_half_even_def Let_def by (auto split: if_splits) linarith+

lemma round_rat_le: "a \<le> of_int k \<Longrightarrow> round_rat n a \<le> of_int k"
proof -
  assume "a \<le> of_int k"
  then have "a * 10 ^ n \<le> of_int (k * 10 ^ n)" by simp
  then have "round_half_even (a * 10 ^ n) \<le> k * 10 ^ n" by (rule round_half_even_le)
  then have "(of_int (round_half_even (a * 10 ^ n)) :: rat) \<le> of_int (k * 10 ^ n)"
    by (simp only: of_int_le_iff)
  then show ?thesis by (simp add: round_rat_def divide_le_eq)
qed

lemma round_rat_ge: "of_int k \<le> a \<Longrightarrow> of_int k \<le> round_rat n a"
proof -
  assume "of_int k \<le> a"
  then have "of_int (k * 10 ^ n) \<le> a * 10 ^ n" by simp
  then have "k * 10 ^ n \<le> round_half_even (a * 10 ^ n)" by (rule round_half_even_ge)
  then have "(of_int (k * 10 ^ n) :: rat) \<le> of_int (round_half_even (a * 10 ^ n))"
    by (simp only: of_int_le_iff)
  then show ?thesis by (simp add: round_rat_def le_divide_eq)
qed

text \<open>\<open>xs[::k]\<close> for a positive \<open>k\<close>: every \<open>k\<close>-th element from the first.\<close>

fun every_aux :: "nat \<Rightarrow> nat \<Rightarrow> 'a list \<Rightarrow> 'a list" where
  "every_aux k j [] = []"
| "every_aux k 0 (x # xs) = x # every_aux k (k - 1) xs"
| "every_aux k (Suc j) (x # xs) = every_aux k j xs"

definition every :: "nat \<Rightarrow> 'a list \<Rightarrow> 'a list" where
  "every k xs = every_aux k 0 xs"

lemma length_every_aux:
  "0 < k \<Longrightarrow> j < k \<Longrightarrow> length (every_aux k j xs) = (length xs + (k - 1 - j)) div k"
proof (induction k j xs rule: every_aux.induct)
  case (2 k x xs)
  then have "length (every_aux k 0 (x # xs)) = Suc (length xs div k)" by simp
  also have "\<dots> = (length xs + k) div k" using 2 by simp
  finally show ?case using 2 by simp
next
  case (3 k j x xs)
  then have "length (x # xs) + (k - 1 - Suc j) = length xs + (k - 1 - j)" by simp
  with 3 show ?case by (simp only: every_aux.simps)
qed simp

lemma length_every: "0 < k \<Longrightarrow> length (every k xs) = (length xs + (k - 1)) div k"
  by (simp add: every_def length_every_aux)

lemma set_every: "set (every k xs) \<subseteq> set xs"
proof -
  have "set (every_aux k j xs) \<subseteq> set xs" for j
    by (induction k j xs rule: every_aux.induct) auto
  then show ?thesis by (simp add: every_def)
qed

lemma hd_every: "xs \<noteq> [] \<Longrightarrow> every k xs = hd xs # every_aux k (k - 1) (tl xs)"
  by (cases xs) (auto simp: every_def)

lemma last_every_aux:
  "0 < k \<Longrightarrow> j < length xs \<Longrightarrow> k dvd (length xs - 1 - j) \<Longrightarrow>
   every_aux k j xs \<noteq> [] \<and> last (every_aux k j xs) = last xs"
proof (induction k j xs rule: every_aux.induct)
  case (2 k x xs)
  show ?case
  proof (cases "xs = []")
    case False
    from 2 False have "k dvd length xs" "0 < length xs" by simp_all
    then have "k \<le> length xs" by (simp add: dvd_imp_le)
    with 2 False \<open>k dvd length xs\<close> have "k - 1 < length xs" "k dvd (length xs - 1 - (k - 1))"
      by (auto simp: dvd_diff_nat)
    with 2 False show ?thesis by simp
  qed simp
qed auto

lemma last_every:
  "0 < k \<Longrightarrow> xs \<noteq> [] \<Longrightarrow> k dvd (length xs - 1) \<Longrightarrow> last (every k xs) = last xs"
  using last_every_aux [of k 0 xs] by (simp add: every_def)

text \<open>\<open>str(i)\<close> for an integer.\<close>

fun digits_of :: "nat \<Rightarrow> string" where
  "digits_of n = (if n < 10 then [char_of (48 + n)] else digits_of (n div 10) @ [char_of (48 + n mod 10)])"

declare digits_of.simps [simp del]

definition string_of_int :: "int \<Rightarrow> string" where
  "string_of_int i = (if i < 0 then CHR ''-'' # digits_of (nat (- i)) else digits_of (nat i))"

lemma digits_length: "n < 10 ^ Suc k \<Longrightarrow> length (digits_of n) \<le> Suc k"
proof (induction k arbitrary: n)
  case 0
  then show ?case by (simp add: digits_of.simps [of n])
next
  case (Suc k)
  then have "n div 10 < 10 ^ Suc k" by (simp add: less_mult_imp_div_less)
  with Suc.IH show ?case by (simp add: digits_of.simps [of n])
qed

lemma digits_digits: "set (digits_of n) \<subseteq> set ''0123456789''"
proof -
  define D where "D = set ''0123456789''"
  have "char_of (48 + m) \<in> D" if "m < 10" for m :: nat
  proof -
    have "m \<in> {0, 1, 2, 3, 4, 5, 6, 7, 8, 9}" using that by auto
    then show ?thesis unfolding D_def by (elim insertE emptyE; hypsubst; code_simp)
  qed
  then have "set (digits_of n) \<subseteq> D"
    by (induction n rule: digits_of.induct)
      (subst digits_of.simps, simp)
  then show ?thesis by (simp add: D_def)
qed

lemma digits_nonempty [simp]: "digits_of n \<noteq> []"
  by (simp add: digits_of.simps [of n])

text \<open>What every branch satisfies, the conditional satisfies.\<close>

lemma branches:
  "Q a \<Longrightarrow> Q b \<Longrightarrow> Q (if c then a else b)"
  "Q n \<Longrightarrow> (\<And>x. Q (f x)) \<Longrightarrow> Q (case opt of None \<Rightarrow> n | Some x \<Rightarrow> f x)"
  "(\<And>x. Q (g x)) \<Longrightarrow> (\<And>y. Q (h y)) \<Longrightarrow> Q (case s of Inl x \<Rightarrow> g x | Inr y \<Rightarrow> h y)"
  by (auto split: option.split sum.split)

end
