(* ===== verification/Messages.thy ===== *)
theory Messages
  imports Prelude
begin

text \<open>
  The wire data of the dashboard (\<open>server/app/protocol/messages.py\<close>): the payload classes as
  records, their closed string sets as datatypes, the field constraints and model validators
  pydantic enforces as predicates, and the run-length coding of occupancy grids.
  \<open>UUID(...)\<close> of the standard library is modelled by the lengths and digits it accepts for the
  plain hexadecimal form.
\<close>

subsection \<open>Closed string sets\<close>

datatype connection_state = Online | Stale | Offline

datatype lidar_state = Lidar_UNKNOWN | Lidar_OFF | Lidar_STARTING | Lidar_READY | Lidar_FAULT

datatype command =
    Navigate_to_pose | Set_initial_pose | Stop
  | Teleop_start | Teleop_stop
  | Charge_release | Motor_enable | Motor_disable | Undock | Software_reset
  | Set_lidar_power | Dock_reset

datatype command_outcome = Succeeded | Failed | Rejected | Canceled | Timeout

datatype diag_level = OK | WARN | ERROR | STALE

datatype health_level = Healthy | Warning | Fault | Offline_level

datatype severity = Info | Warning_event | Critical

datatype robot_status =
  Ready | Navigating | Recording | Docked | Charging | Paused | Stuck | Needs_attention | Status_offline

subsection \<open>Telemetry payloads\<close>

text \<open>\<open>MapContext\<close> is the base class of the payloads that name a map; they extend its record.\<close>

record map_context =
  map_id :: "string option"
  map_revision :: "string option"

record pose_data = map_context +
  ps_frame_id :: string
  ps_x :: pyfloat
  ps_y :: pyfloat
  ps_yaw :: pyfloat
  ps_linear_velocity :: pyfloat
  ps_angular_velocity :: pyfloat
  ps_covariance_trace :: "pyfloat option"
  ps_planar_covariance :: "(pyfloat option \<times> pyfloat option \<times> pyfloat option) option"
  ps_covariance_limit :: "pyfloat option"
  ps_localization_age_s :: "pyfloat option"
  ps_localization_max_age_s :: "pyfloat option"
  ps_localized :: bool

record lidar_data = map_context +
  ld_angle_min :: pyfloat
  ld_angle_increment :: pyfloat
  ld_ranges :: "pyfloat option list"

record goal_data = map_context +
  gl_x :: pyfloat
  gl_y :: pyfloat
  gl_yaw :: "pyfloat option"

record path_data = map_context +
  pt_frame_id :: string
  pt_points :: "(pyfloat \<times> pyfloat) list"
  pt_goal :: "goal_data option"

record battery_estimate =
  be_state :: string
  be_minutes_remaining :: "int option"
  be_confidence :: string

record battery_data =
  bt_voltage :: pyfloat
  bt_current :: "pyfloat option"
  bt_percentage :: "pyfloat option"
  bt_charging :: bool
  bt_estimate :: "battery_estimate option"

record base_state_data = map_context +
  bs_operation_fault_reason :: string
  bs_operation_fault_request_id :: string
  bs_operation_outcome_unknown :: bool
  bs_lidar_state :: lidar_state
  bs_lidar_power_supported :: bool
  bs_lidar_scan_age :: pyfloat
  bs_map_activated_stamp_ns :: int
  bs_session_generation :: int
  bs_link_connected :: bool
  bs_telemetry_age :: pyfloat
  bs_hardware_state_valid :: bool
  bs_charge_state :: string
  bs_motors_enabled :: bool
  bs_estop_pressed :: bool
  bs_fault_flags :: int
  bs_stall_value :: int
  bs_bumpers_front :: bool
  bs_bumpers_rear :: bool
  bs_bumpers_valid :: "bool option"
  bs_dock_state :: "string option"
  bs_dock_state_valid :: "bool option"
  bs_dock_phase :: "int option"
  bs_dock_phase_name :: "string option"
  bs_undock_active :: bool
  bs_undock_release_attempts :: "int option"
  bs_minimum_rear_range :: "pyfloat option"
  bs_rear_sonar_usable :: "bool option"
  bs_redock_inhibited :: "bool option"
  bs_redock_inhibit_remaining :: "pyfloat option"
  bs_undock_profile_commissioned :: "bool option"
  bs_odom_epoch_valid :: bool
  bs_raw_odom_age_s :: "pyfloat option"
  bs_localization_recovery_required :: bool
  bs_localization_recovery_stage :: string
  bs_localization_seed_stamp_ns :: int

record motion_data =
  mo_linear_velocity :: pyfloat
  mo_angular_velocity :: pyfloat
  mo_sample_age_s :: pyfloat
  mo_receipt_age_s :: pyfloat
  mo_session_generation :: int
  mo_odom_epoch :: string
  mo_odom_epoch_generation :: int

record diagnostic_item =
  di_name :: string
  di_level :: diag_level
  di_message :: string
  di_values :: "(string \<times> string) list option"

record resources_data =
  rs_cpu_percent :: pyfloat
  rs_memory_percent :: pyfloat
  rs_cpu_temp_c :: "pyfloat option"
  rs_disk_percent :: pyfloat
  rs_wifi_signal_dbm :: "int option"

record map_origin =
  og_x :: pyfloat
  og_y :: pyfloat
  og_yaw :: pyfloat

record map_data = map_context +
  mp_map_version :: int
  mp_name :: string
  mp_resolution :: pyfloat
  mp_width :: int
  mp_height :: int
  mp_origin :: map_origin
  mp_rle :: "(int \<times> int) list"

subsection \<open>Commands\<close>

record command_request =
  cr_command_id :: string
  cr_command :: command
  cr_seed_profile :: "string option"
  cr_enabled :: "bool option"
  cr_goal :: "goal_data option"
  cr_takeover :: bool
  cr_allow_unlocalized :: bool
  cr_operator_authorized :: bool

record teleop_velocity =
  tv_command_id :: string
  tv_seq :: int
  tv_linear :: pyfloat
  tv_angular :: pyfloat
  tv_deadman :: bool

record command_ack =
  ak_command_id :: string
  ak_accepted :: bool
  ak_reason :: "string option"

record command_progress =
  pr_command_id :: string
  pr_stage :: string
  pr_detail :: "string option"
  pr_distance_remaining :: "pyfloat option"

record command_result =
  re_command_id :: string
  re_outcome :: command_outcome
  re_detail :: "string option"

definition hex_digit :: "char \<Rightarrow> bool" where
  "hex_digit c = (let n = of_char c :: nat in
     (48 \<le> n \<and> n \<le> 57) \<or> (65 \<le> n \<and> n \<le> 70) \<or> (97 \<le> n \<and> n \<le> 102))"

text \<open>
  \<open>uuid.UUID(hex)\<close> accepts a string that is 32 hexadecimal digits once the hyphens are removed.
  (It also strips a \<open>urn:uuid:\<close> prefix and braces, which no caller sends.)
\<close>

definition uuid_ok :: "string \<Rightarrow> bool" where
  "uuid_ok s = (let h = filter (\<lambda>c. c \<noteq> CHR ''-'') s in length h = 32 \<and> list_all hex_digit h)"

text \<open>\<open>CommandRequestData.require_lidar_target\<close>; True is "the model accepts the frame".\<close>

definition valid_command_request :: "command_request \<Rightarrow> bool" where
  "valid_command_request r \<longleftrightarrow>
     (if cr_command r \<in> {Teleop_start, Teleop_stop}
      then uuid_ok (cr_command_id r)
           \<and> \<not> (cr_goal r \<noteq> None \<or> cr_enabled r \<noteq> None \<or> cr_allow_unlocalized r)
      else True)
     \<and> (cr_seed_profile r \<noteq> None \<longrightarrow> cr_seed_profile r = Some ''measured'')
     \<and> \<not> (cr_seed_profile r \<noteq> None \<and> cr_command r \<noteq> Set_initial_pose)
     \<and> \<not> (cr_command r = Set_lidar_power \<and> cr_enabled r = None)"

text \<open>The field bounds of \<open>TeleopVelocityData\<close> and \<open>release_must_be_a_zero_command\<close>.\<close>

definition valid_teleop_velocity :: "teleop_velocity \<Rightarrow> bool" where
  "valid_teleop_velocity v \<longleftrightarrow>
     0 \<le> tv_seq v
     \<and> pf_le (Fin (-3/10)) (tv_linear v) \<and> pf_le (tv_linear v) (Fin (3/10))
     \<and> pf_le (Fin (-7/10)) (tv_angular v) \<and> pf_le (tv_angular v) (Fin (7/10))
     \<and> uuid_ok (tv_command_id v)
     \<and> \<not> (\<not> tv_deadman v \<and> (tv_linear v \<noteq> Fin 0 \<or> tv_angular v \<noteq> Fin 0))"

text \<open>The field bounds of \<open>MotionData\<close>.\<close>

definition valid_motion :: "motion_data \<Rightarrow> bool" where
  "valid_motion m \<longleftrightarrow>
     pf_le (Fin (-5)) (mo_linear_velocity m) \<and> pf_le (mo_linear_velocity m) (Fin 5)
     \<and> pf_le (Fin (-10)) (mo_angular_velocity m) \<and> pf_le (mo_angular_velocity m) (Fin 10)
     \<and> pf_le (Fin 0) (mo_sample_age_s m) \<and> pf_le (mo_sample_age_s m) (Fin 86400)
     \<and> pf_le (Fin 0) (mo_receipt_age_s m) \<and> pf_le (mo_receipt_age_s m) (Fin 86400)
     \<and> 0 \<le> mo_session_generation m \<and> mo_session_generation m \<le> 2 ^ 31 - 1
     \<and> length (mo_odom_epoch m) \<le> 128
     \<and> 0 \<le> mo_odom_epoch_generation m \<and> mo_odom_epoch_generation m \<le> 2 ^ 31 - 1"

lemma valid_teleop_velocity_bounds:
  assumes "valid_teleop_velocity v"
  shows "\<exists>l a. tv_linear v = Fin l \<and> \<bar>l\<bar> \<le> 3/10 \<and> tv_angular v = Fin a \<and> \<bar>a\<bar> \<le> 7/10"
  using assms unfolding valid_teleop_velocity_def
  by (cases "tv_linear v"; cases "tv_angular v") (auto simp: abs_le_iff)

subsection \<open>Occupancy-grid run lengths\<close>

text \<open>
  \<open>encode_rle\<close> appends to the list of runs, extending the last run when the value repeats;
  the model is the loop with the runs so far as accumulator. \<open>decode_rle\<close> repeats each value
  \<open>count\<close> times, and \<open>[value] * count\<close> is empty for a count below one.
\<close>

definition extend_runs :: "(int \<times> int) list \<Rightarrow> int \<Rightarrow> (int \<times> int) list" where
  "extend_runs runs v =
     (if runs \<noteq> [] \<and> fst (last runs) = v
      then butlast runs @ [(v, snd (last runs) + 1)]
      else runs @ [(v, 1)])"

definition encode_rle :: "int list \<Rightarrow> (int \<times> int) list" where
  "encode_rle cells = foldl extend_runs [] cells"

definition decode_rle :: "(int \<times> int) list \<Rightarrow> int list" where
  "decode_rle runs = concat (map (\<lambda>(v, n). replicate (nat n) v) runs)"

text \<open>A run list is canonical: positive counts and no two neighbouring runs of one value.\<close>

fun canonical_runs :: "(int \<times> int) list \<Rightarrow> bool" where
  "canonical_runs [] = True"
| "canonical_runs [(v, n)] = (0 < n)"
| "canonical_runs ((v, n) # (w, m) # rs) = (0 < n \<and> v \<noteq> w \<and> canonical_runs ((w, m) # rs))"

lemma decode_rle_append [simp]: "decode_rle (rs @ ss) = decode_rle rs @ decode_rle ss"
  by (simp add: decode_rle_def)

lemma decode_rle_single [simp]: "decode_rle [(v, n)] = replicate (nat n) v"
  by (simp add: decode_rle_def)

lemma decode_rle_Nil [simp]: "decode_rle [] = []"
  by (simp add: decode_rle_def)

lemma canonical_runs_snoc:
  "canonical_runs (rs @ [(v, n)]) \<longleftrightarrow>
     canonical_runs rs \<and> 0 < n \<and> (rs \<noteq> [] \<longrightarrow> fst (last rs) \<noteq> v)"
  by (induction rs rule: canonical_runs.induct) auto

lemma decode_rle_Cons: "decode_rle ((v, n) # rs) = replicate (nat n) v @ decode_rle rs"
  by (simp add: decode_rle_def)

lemma extend_runs_new: "rs = [] \<or> fst (last rs) \<noteq> v \<Longrightarrow> extend_runs rs v = rs @ [(v, 1)]"
  by (auto simp: extend_runs_def)

lemma extend_runs_same: "extend_runs (rs @ [(v, n)]) v = rs @ [(v, n + 1)]"
  by (simp add: extend_runs_def)

lemma extend_runs_canonical: "canonical_runs rs \<Longrightarrow> canonical_runs (extend_runs rs v)"
proof (cases "rs = [] \<or> fst (last rs) \<noteq> v")
  case False
  assume rs: "canonical_runs rs"
  from False obtain qs n where "rs = qs @ [(v, n)]" by (cases rs rule: rev_cases) auto
  with rs show ?thesis by (simp add: extend_runs_same canonical_runs_snoc)
qed (auto simp: extend_runs_new canonical_runs_snoc)

lemma extend_runs_decode:
  assumes "canonical_runs rs"
  shows "decode_rle (extend_runs rs v) = decode_rle rs @ [v]"
proof (cases "rs = [] \<or> fst (last rs) \<noteq> v")
  case False
  then obtain qs n where qs: "rs = qs @ [(v, n)]" by (cases rs rule: rev_cases) auto
  with assms have "0 < n" by (simp add: canonical_runs_snoc)
  then have "replicate (nat (n + 1)) v = replicate (nat n) v @ [v]"
    by (simp add: nat_add_distrib replicate_append_same)
  with qs show ?thesis by (simp add: extend_runs_same)
qed (simp add: extend_runs_new)

lemma foldl_extend_runs:
  "canonical_runs rs \<Longrightarrow>
     canonical_runs (foldl extend_runs rs cells)
     \<and> decode_rle (foldl extend_runs rs cells) = decode_rle rs @ cells"
  by (induction cells arbitrary: rs) (auto simp: extend_runs_canonical extend_runs_decode)

lemma foldl_extend_run:
  "0 < k \<Longrightarrow> foldl extend_runs (rs @ [(v, k)]) (replicate n v) = rs @ [(v, k + int n)]"
  by (induction n arbitrary: k) (simp_all add: extend_runs_same algebra_simps)

lemma foldl_extend_runs_decode:
  "canonical_runs rs \<Longrightarrow> acc = [] \<or> rs = [] \<or> fst (last acc) \<noteq> fst (hd rs) \<Longrightarrow>
     foldl extend_runs acc (decode_rle rs) = acc @ rs"
proof (induction rs arbitrary: acc)
  case (Cons r rs)
  obtain v n where r: "r = (v, n)" by (cases r)
  have n: "0 < n" and rs: "canonical_runs rs"
    and hd: "rs = [] \<or> v \<noteq> fst (hd rs)"
    using Cons.prems(1) r by (cases rs; auto)+
  obtain m where m: "nat n = Suc m" "n = 1 + int m"
    using n by (metis Suc_pred' int_nat_eq less_imp_le nat_int of_nat_Suc zero_less_nat_eq)
  have "foldl extend_runs acc (replicate (nat n) v) = acc @ [(v, n)]"
    using Cons.prems(2) r m by (simp add: extend_runs_new foldl_extend_run)
  with Cons.IH [OF rs, of "acc @ [(v, n)]"] hd r show ?case
    by (auto simp: decode_rle_Cons)
qed simp

text \<open>
  Run-length coding loses nothing and is canonical: decoding what \<open>encode_rle\<close> produces
  gives back the cells, the runs it produces have positive counts with no two equal neighbours,
  and any such run list is what encoding its cells produces.
\<close>

theorem rle_roundtrip:
  "decode_rle (encode_rle cells) = cells \<and> canonical_runs (encode_rle cells)
     \<and> (canonical_runs runs = (encode_rle (decode_rle runs) = runs))"
proof -
  have enc: "decode_rle (encode_rle cells) = cells \<and> canonical_runs (encode_rle cells)" for cells
    using foldl_extend_runs [of "[]" cells] by (simp add: encode_rle_def)
  have "canonical_runs runs \<Longrightarrow> encode_rle (decode_rle runs) = runs"
    using foldl_extend_runs_decode [of runs "[]"] by (simp add: encode_rle_def)
  with enc [of cells] enc [of "decode_rle runs"] show ?thesis by metis
qed

end
