(* ===== verification/Gates.thy ===== *)
theory Gates
  imports Messages
begin

text \<open>
  The preconditions of the robot commands (\<open>server/app/commands/gates.py\<close>). \<open>state_facts\<close> is
  the dataclass \<open>StateFacts\<close>; each \<open>*_reason\<close> function returns the first refusal of the source's
  sequence of early returns, and None when the command may proceed. A refusal sentence is a
  constructor of \<open>gate_reason\<close>; one sentence used by several gates is one constructor.
\<close>

unbundle bit_operations_syntax

subsection \<open>Constants and facts\<close>

definition MAX_TELEMETRY_AGE_S :: rat where "MAX_TELEMETRY_AGE_S = 2"
definition MAX_RECEIPT_AGE_S :: rat where "MAX_RECEIPT_AGE_S = 3"
definition STATIONARY_LINEAR_MS :: rat where "STATIONARY_LINEAR_MS = 2/100"
definition STATIONARY_ANGULAR_RPS :: rat where "STATIONARY_ANGULAR_RPS = 5/100"

definition CHARGING_STATES :: "string list" where
  "CHARGING_STATES = [''charging'', ''charge'', ''bulk'', ''float'', ''overcharge'']"

definition ON_DOCK_STATES :: "string list" where
  "ON_DOCK_STATES = CHARGING_STATES @ [''docked'', ''dock'', ''on_dock'']"

definition DOCK_OBSERVER_DOCKED :: "string list" where
  "DOCK_OBSERVER_DOCKED = [''DOCKED_CONFIRMED'']"

lemmas gate_constants = MAX_TELEMETRY_AGE_S_def MAX_RECEIPT_AGE_S_def STATIONARY_LINEAR_MS_def
  STATIONARY_ANGULAR_RPS_def

record state_facts =
  lidar_state :: lidar_state
  lidar_power_supported :: bool
  lidar_scan_age :: pyfloat
  online :: bool
  link_connected :: bool
  telemetry_age :: pyfloat
  base_state_age :: "pyfloat option"
  pose_age :: "pyfloat option"
  hardware_state_valid :: bool
  charge_state :: string
  motors_enabled :: bool
  estop_pressed :: bool
  fault_flags :: int
  stall_value :: int
  bumpers_front :: bool
  bumpers_rear :: bool
  bumpers_valid :: "bool option"
  dock_state :: "string option"
  dock_state_valid :: "bool option"
  undock_active :: bool
  operation_outcome_unknown :: bool
  undock_profile_commissioned :: "bool option"
  localized :: bool
  allow_unlocalized :: bool
  stationary :: bool
  capabilities :: "string list"
  navigating :: bool
  odom_epoch_valid :: bool
  localization_recovery_required :: bool
  localization_recovery_stage :: string
  localization_seed_stamp_ns :: int

text \<open>The dataclass defaults, each the value that refuses.\<close>

definition default_facts :: state_facts where
  "default_facts = \<lparr>
     lidar_state = Lidar_UNKNOWN, lidar_power_supported = False, lidar_scan_age = Fin (-1),
     online = False, link_connected = False, telemetry_age = Fin 999,
     base_state_age = None, pose_age = None, hardware_state_valid = False,
     charge_state = ''unknown'', motors_enabled = False, estop_pressed = False,
     fault_flags = 0, stall_value = 0, bumpers_front = False, bumpers_rear = False,
     bumpers_valid = None, dock_state = None, dock_state_valid = None, undock_active = False,
     operation_outcome_unknown = False, undock_profile_commissioned = None, localized = False,
     allow_unlocalized = False, stationary = False, capabilities = [], navigating = False,
     odom_epoch_valid = False, localization_recovery_required = True,
     localization_recovery_stage = '''', localization_seed_stamp_ns = 0 \<rparr>"

text \<open>The derived properties of \<open>StateFacts\<close>.\<close>

definition dock_word :: "state_facts \<Rightarrow> string" where
  "dock_word f = py_upper (py_strip (or_empty (dock_state f)))"

definition charge_word :: "state_facts \<Rightarrow> string" where
  "charge_word f = py_lower (py_strip (charge_state f))"

definition charging :: "state_facts \<Rightarrow> bool" where
  "charging f =
     (if truthy (dock_state_valid f) \<and> dock_word f \<in> {''CLEAR_CONFIRMED'', ''DEPARTING''}
      then False
      else charge_word f \<in> set CHARGING_STATES)"

definition on_dock :: "state_facts \<Rightarrow> bool" where
  "on_dock f =
     (if truthy (dock_state_valid f) then dock_word f \<in> set DOCK_OBSERVER_DOCKED
      else charge_word f \<in> set ON_DOCK_STATES)"

definition telemetry_fresh :: "state_facts \<Rightarrow> bool" where
  "telemetry_fresh f \<longleftrightarrow> link_connected f \<and> pf_le (telemetry_age f) (Fin MAX_TELEMETRY_AGE_S)"

definition age_within :: "pyfloat option \<Rightarrow> rat \<Rightarrow> bool" where
  "age_within a limit = (case a of None \<Rightarrow> False | Some x \<Rightarrow> pf_le x (Fin limit))"

definition base_state_fresh :: "state_facts \<Rightarrow> bool" where
  "base_state_fresh f = age_within (base_state_age f) MAX_RECEIPT_AGE_S"

definition pose_fresh :: "state_facts \<Rightarrow> bool" where
  "pose_fresh f = age_within (pose_age f) MAX_RECEIPT_AGE_S"

lemmas fact_defs = telemetry_fresh_def base_state_fresh_def pose_fresh_def age_within_def

text \<open>
  \<open>facts_from_state\<close>: the two \<open>if ... is not None\<close> blocks fill the facts from the drive-base
  and the pose payload, and leave the defaults where a payload is missing. The payload classes
  carry every field the source reads with \<open>getattr\<close>, and \<open>localization_seed_stamp_ns\<close> is an
  int there, so the conversion the source guards with \<open>try\<close> cannot fail.
\<close>

definition facts_from_base :: "base_state_data \<Rightarrow> state_facts \<Rightarrow> state_facts" where
  "facts_from_base b f = f \<lparr>
     lidar_state := bs_lidar_state b,
     lidar_power_supported := bs_lidar_power_supported b,
     lidar_scan_age := bs_lidar_scan_age b,
     link_connected := bs_link_connected b,
     telemetry_age := bs_telemetry_age b,
     hardware_state_valid := bs_hardware_state_valid b,
     charge_state := bs_charge_state b,
     motors_enabled := bs_motors_enabled b,
     estop_pressed := bs_estop_pressed b,
     fault_flags := bs_fault_flags b,
     stall_value := bs_stall_value b,
     bumpers_front := bs_bumpers_front b,
     bumpers_rear := bs_bumpers_rear b,
     bumpers_valid := bs_bumpers_valid b,
     dock_state := bs_dock_state b,
     dock_state_valid := bs_dock_state_valid b,
     undock_active := bs_undock_active b,
     operation_outcome_unknown := bs_operation_outcome_unknown b,
     undock_profile_commissioned := bs_undock_profile_commissioned b,
     odom_epoch_valid := bs_odom_epoch_valid b,
     localization_recovery_required := bs_localization_recovery_required b,
     localization_recovery_stage := bs_localization_recovery_stage b,
     localization_seed_stamp_ns := bs_localization_seed_stamp_ns b \<rparr>"

definition facts_from_pose :: "pose_data \<Rightarrow> state_facts \<Rightarrow> state_facts" where
  "facts_from_pose p f = f \<lparr>
     localized := ps_localized p,
     stationary := (pf_le (pf_abs (ps_linear_velocity p)) (Fin STATIONARY_LINEAR_MS)
        \<and> pf_le (pf_abs (ps_angular_velocity p)) (Fin STATIONARY_ANGULAR_RPS)) \<rparr>"

definition facts_from_state ::
  "connection_state \<Rightarrow> base_state_data option \<Rightarrow> pose_data option \<Rightarrow> string list \<Rightarrow> bool
     \<Rightarrow> pyfloat option \<Rightarrow> pyfloat option \<Rightarrow> bool \<Rightarrow> state_facts" where
  "facts_from_state conn base pose caps nav bage page allow =
     (let f0 = default_facts \<lparr> online := (conn = Online), capabilities := caps, navigating := nav,
                 base_state_age := bage, pose_age := page, allow_unlocalized := allow \<rparr>;
          f1 = (case base of None \<Rightarrow> f0 | Some b \<Rightarrow> facts_from_base b f0)
      in (case pose of None \<Rightarrow> f1 | Some p \<Rightarrow> facts_from_pose p f1))"

subsection \<open>Refusals\<close>

datatype gate_reason =
    Not_connected
  | Hardware_stale
  | Hardware_invalid
  | Fault_code int
  | Pose_stale_for_motion
  | Still_moving
  | Lidar_unavailable
  | Lidar_power_uncommissioned
  | Lidar_power_state_unknown
  | Lidar_power_state_stale
  | Lidar_power_operation_active
  | Estop_pressed
  | On_charger
  | Motors_off
  | Localization_recovering
  | Pose_stale_for_goal
  | Not_localized
  | Nothing_to_release
  | Motor_enable_unavailable
  | Reset_needs_fresh_readings
  | Reset_unsupported
  | Reset_estop
  | Reset_outcome_unknown
  | Reset_wheel_stall
  | Reset_lidar_fault
  | Reset_operation_active
  | Reset_dock_unconfirmed
  | Motor_disable_unavailable
  | Undock_uncommissioned
  | Undock_observer_invalid
  | Undock_profile_uncommissioned
  | Undock_already_active
  | Undock_not_on_dock
  | Undock_bumpers_unknown
  | Undock_rear_bumper
  | Undock_navigating
  | Software_reset_unavailable
  | Teleop_unavailable
  | Teleop_hardware_stale
  | Teleop_base_invalid
  | Teleop_readings_stale
  | Teleop_origin_invalid
  | Teleop_lidar_not_ready
  | Teleop_estop_or_fault
  | Teleop_bumpers
  | Teleop_motors_off
  | Teleop_undocking
  | Teleop_dock_not_clear

subsection \<open>Shared clauses\<close>

definition hardware_reason :: "state_facts \<Rightarrow> gate_reason option" where [gate_defs]:
  "hardware_reason f =
     (if \<not> online f then Some Not_connected
      else if \<not> base_state_fresh f \<or> \<not> telemetry_fresh f then Some Hardware_stale
      else if \<not> hardware_state_valid f then Some Hardware_invalid
      else if fault_flags f \<noteq> 0 then Some (Fault_code (fault_flags f))
      else None)"

definition stationary_reason :: "state_facts \<Rightarrow> gate_reason option" where [gate_defs]:
  "stationary_reason f =
     (if \<not> pose_fresh f then Some Pose_stale_for_motion
      else if \<not> stationary f then Some Still_moving
      else None)"

text \<open>\<open>a or b\<close> on reasons, as \<open>reason = first(); if reason: return reason; return second()\<close>.\<close>

definition or_else :: "'r option \<Rightarrow> 'r option \<Rightarrow> 'r option" where
  "or_else a b = (case a of None \<Rightarrow> b | Some r \<Rightarrow> Some r)"

lemma or_else_None [simp]: "or_else a b = None \<longleftrightarrow> a = None \<and> b = None"
  by (cases a) (simp_all add: or_else_def)

lemma or_else_simps [simp]: "or_else None b = b" "or_else (Some r) b = Some r"
  by (simp_all add: or_else_def)

definition lidar_reason :: "state_facts \<Rightarrow> gate_reason option" where [gate_defs]:
  "lidar_reason f =
     (if \<not> online f \<or> \<not> link_connected f \<or> \<not> hardware_state_valid f
         \<or> \<not> is_finite (telemetry_age f) \<or> pf_lt (telemetry_age f) (Fin 0)
         \<or> (case base_state_age f of
              None \<Rightarrow> True
            | Some receipt \<Rightarrow>
                pf_lt (Fin (1/2)) (pf_add (telemetry_age f) receipt)
                \<or> lidar_state f \<noteq> Lidar_READY
                \<or> \<not> is_finite (lidar_scan_age f) \<or> \<not> is_finite receipt
                \<or> pf_lt (lidar_scan_age f) (Fin 0) \<or> pf_lt receipt (Fin 0)
                \<or> pf_lt (Fin (1/2)) (pf_add (lidar_scan_age f) receipt))
      then Some Lidar_unavailable else None)"

definition lidar_power_reason :: "state_facts \<Rightarrow> gate_reason option" where [gate_defs]:
  "lidar_power_reason f = or_else (hardware_reason f)
     (if \<not> lidar_power_supported f \<or> ''set_lidar_power'' \<notin> set (capabilities f)
      then Some Lidar_power_uncommissioned
      else if lidar_state f \<notin> {Lidar_OFF, Lidar_READY, Lidar_FAULT}
      then Some Lidar_power_state_unknown
      else if (case base_state_age f of
                 None \<Rightarrow> True
               | Some a \<Rightarrow> \<not> (pf_le (Fin 0) a \<and> pf_le a (Fin (1/2)))
                   \<or> \<not> is_finite (telemetry_age f) \<or> pf_lt (telemetry_age f) (Fin 0)
                   \<or> pf_lt (Fin (1/2)) (pf_add (telemetry_age f) a))
      then Some Lidar_power_state_stale
      else if navigating f \<or> undock_active f then Some Lidar_power_operation_active
      else None)"

subsection \<open>Per-command gates\<close>

definition navigate_reason :: "state_facts \<Rightarrow> gate_reason option" where [gate_defs]:
  "navigate_reason f = or_else (hardware_reason f)
     (if estop_pressed f then Some Estop_pressed
      else if on_dock f then Some On_charger
      else if \<not> motors_enabled f then Some Motors_off
      else if \<not> odom_epoch_valid f \<or> localization_recovery_required f
              \<or> localization_seed_stamp_ns f \<le> 0
      then Some Localization_recovering
      else if \<not> pose_fresh f then Some Pose_stale_for_goal
      else if \<not> localized f \<and> \<not> allow_unlocalized f then Some Not_localized
      else None)"

definition charge_release_reason :: "state_facts \<Rightarrow> gate_reason option" where [gate_defs]:
  "charge_release_reason f = or_else (hardware_reason f)
     (if \<not> charging f then Some Nothing_to_release else stationary_reason f)"

definition motor_enable_reason :: "state_facts \<Rightarrow> gate_reason option" where [gate_defs]:
  "motor_enable_reason f =
     (if \<not> online f then Some Not_connected
      else if ''motor_enable'' \<notin> set (capabilities f) then Some Motor_enable_unavailable
      else None)"

definition bad_age :: "pyfloat option \<Rightarrow> bool" where
  "bad_age a = (case a of None \<Rightarrow> True | Some x \<Rightarrow> \<not> is_finite x \<or> pf_lt x (Fin 0))"

definition dock_reset_reason :: "state_facts \<Rightarrow> gate_reason option" where [gate_defs]:
  "dock_reset_reason f =
     (if list_ex bad_age [Some (telemetry_age f), base_state_age f, pose_age f]
      then Some Reset_needs_fresh_readings
      else or_else (hardware_reason f)
       (if ''dock_reset'' \<notin> set (capabilities f) then Some Reset_unsupported
        else if estop_pressed f then Some Reset_estop
        else if operation_outcome_unknown f then Some Reset_outcome_unknown
        else if stall_value f AND 0x0101 \<noteq> 0 then Some Reset_wheel_stall
        else if lidar_state f = Lidar_FAULT then Some Reset_lidar_fault
        else if undock_active f \<or> navigating f then Some Reset_operation_active
        else if \<not> truthy (dock_state_valid f)
                \<or> dock_state f \<notin> {Some ''FAULT_STOPPED'', Some ''CLEAR_CONFIRMED'', Some ''DOCKED_CONFIRMED''}
        then Some Reset_dock_unconfirmed
        else stationary_reason f))"

definition motor_disable_reason :: "state_facts \<Rightarrow> gate_reason option" where [gate_defs]:
  "motor_disable_reason f =
     (if \<not> online f then Some Not_connected
      else if ''motor_disable'' \<notin> set (capabilities f) then Some Motor_disable_unavailable
      else None)"

definition undock_reason :: "state_facts \<Rightarrow> gate_reason option" where [gate_defs]:
  "undock_reason f = or_else (hardware_reason f)
     (if ''undock'' \<notin> set (capabilities f) then Some Undock_uncommissioned
      else if dock_state_valid f = Some False then Some Undock_observer_invalid
      else if undock_profile_commissioned f = Some False then Some Undock_profile_uncommissioned
      else if undock_active f then Some Undock_already_active
      else if \<not> on_dock f then Some Undock_not_on_dock
      else if estop_pressed f then Some Estop_pressed
      else if bumpers_valid f \<noteq> Some True then Some Undock_bumpers_unknown
      else if bumpers_rear f then Some Undock_rear_bumper
      else if navigating f then Some Undock_navigating
      else stationary_reason f)"

definition software_reset_reason :: "state_facts \<Rightarrow> gate_reason option" where [gate_defs]:
  "software_reset_reason f =
     (if \<not> online f then Some Not_connected
      else if ''software_reset'' \<notin> set (capabilities f) then Some Software_reset_unavailable
      else None)"

text \<open>
  \<open>teleop_reason\<close> reads four things off the robot state: the connection, the capabilities, the
  drive-base payload and its receipt age. \<open>stale_reading age v\<close> is the test of the loop over the
  three bridge-reported ages.
\<close>

definition stale_reading :: "pyfloat \<Rightarrow> pyfloat option \<Rightarrow> bool" where
  "stale_reading age v = (case v of
     None \<Rightarrow> True
   | Some x \<Rightarrow> \<not> is_finite x \<or> pf_lt x (Fin 0) \<or> pf_lt (Fin (1/2)) (pf_add x age))"

definition teleop_base_reason :: "base_state_data \<Rightarrow> pyfloat \<Rightarrow> gate_reason option" where [gate_defs]:
  "teleop_base_reason b age =
     (if \<not> bs_link_connected b \<or> \<not> bs_hardware_state_valid b then Some Teleop_base_invalid
      else if list_ex (stale_reading age)
                [Some (bs_telemetry_age b), Some (bs_lidar_scan_age b), bs_raw_odom_age_s b]
      then Some Teleop_readings_stale
      else if \<not> bs_odom_epoch_valid b then Some Teleop_origin_invalid
      else if bs_lidar_state b \<noteq> Lidar_READY then Some Teleop_lidar_not_ready
      else if bs_estop_pressed b \<or> bs_fault_flags b \<noteq> 0 then Some Teleop_estop_or_fault
      else if bs_bumpers_valid b \<noteq> Some True \<or> bs_bumpers_front b \<or> bs_bumpers_rear b
      then Some Teleop_bumpers
      else if \<not> bs_motors_enabled b then Some Teleop_motors_off
      else if bs_undock_active b then Some Teleop_undocking
      else if bs_dock_state_valid b \<noteq> Some True \<or> bs_dock_state b \<noteq> Some ''CLEAR_CONFIRMED''
      then Some Teleop_dock_not_clear
      else None)"

definition teleop_reason ::
  "connection_state \<Rightarrow> string list \<Rightarrow> base_state_data option \<Rightarrow> pyfloat option \<Rightarrow> gate_reason option"
  where [gate_defs]:
  "teleop_reason conn caps base age =
     (if conn \<noteq> Online then Some Not_connected
      else if ''web_teleop_v1'' \<notin> set caps then Some Teleop_unavailable
      else (case (base, age) of
          (Some b, Some a) \<Rightarrow>
            if \<not> is_finite a \<or> \<not> (pf_le (Fin 0) a \<and> pf_le a (Fin (1/2)))
            then Some Teleop_hardware_stale
            else teleop_base_reason b a
        | _ \<Rightarrow> Some Teleop_hardware_stale))"

subsection \<open>The gate table\<close>

definition gate_of :: "command \<Rightarrow> (state_facts \<Rightarrow> gate_reason option) option" where
  "gate_of c = (case c of
     Set_initial_pose \<Rightarrow> Some lidar_reason
   | Set_lidar_power \<Rightarrow> Some lidar_power_reason
   | Navigate_to_pose \<Rightarrow> Some navigate_reason
   | Charge_release \<Rightarrow> Some charge_release_reason
   | Motor_enable \<Rightarrow> Some motor_enable_reason
   | Motor_disable \<Rightarrow> Some motor_disable_reason
   | Dock_reset \<Rightarrow> Some dock_reset_reason
   | Undock \<Rightarrow> Some undock_reason
   | Software_reset \<Rightarrow> Some software_reset_reason
   | _ \<Rightarrow> None)"

definition rejection_reason :: "command \<Rightarrow> state_facts \<Rightarrow> gate_reason option" where [gate_defs]:
  "rejection_reason c f =
     or_else (if c \<in> {Navigate_to_pose, Set_initial_pose, Undock, Charge_release}
              then lidar_reason f else None)
             (case gate_of c of None \<Rightarrow> None | Some gate \<Rightarrow> gate f)"

subsection \<open>What every gate promises\<close>

text \<open>
  The broker relies on three contracts. A \<open>command_gate\<close> never admits a command for a robot that
  is not connected; a \<open>hardware_gate\<close> admits only on fresh, valid, fault-free drive-base
  readings; a \<open>stopped_gate\<close> moreover admits only a robot a fresh pose shows to be stopped.
\<close>

locale command_gate =
  fixes gate :: "state_facts \<Rightarrow> gate_reason option"
  assumes link: "gate f = None \<Longrightarrow> online f"
begin

lemma offline_refused: "\<not> online f \<Longrightarrow> \<exists>r. gate f = Some r"
  using link [of f] by (cases "gate f") auto

end

locale hardware_gate =
  fixes gate :: "state_facts \<Rightarrow> gate_reason option"
  assumes hw: "gate f = None \<Longrightarrow> hardware_reason f = None"
begin

lemma readings:
  assumes "gate f = None"
  shows "online f" "link_connected f" "hardware_state_valid f" "fault_flags f = 0"
    "age_within (base_state_age f) 3" "pf_le (telemetry_age f) (Fin 2)"
  using hw [OF assms]
  by (auto simp: hardware_reason_def fact_defs gate_constants split: if_splits option.splits)

lemma silent_base_refused: "base_state_age f = None \<Longrightarrow> gate f \<noteq> None"
  using readings(5) [of f] by (auto simp: age_within_def)

end

sublocale hardware_gate \<subseteq> command_gate gate
  by unfold_locales (rule readings(1))

locale stopped_gate = hardware_gate +
  assumes stop: "gate f = None \<Longrightarrow> stationary_reason f = None"
begin

lemma stopped:
  assumes "gate f = None"
  shows "stationary f" "age_within (pose_age f) 3"
  using stop [OF assms]
  by (auto simp: stationary_reason_def fact_defs gate_constants split: if_splits option.splits)

end

interpretation navigate: hardware_gate navigate_reason
  by unfold_locales (simp add: navigate_reason_def)

interpretation lidar_power: hardware_gate lidar_power_reason
  by unfold_locales (simp add: lidar_power_reason_def)

interpretation undock: stopped_gate undock_reason
  by unfold_locales (auto simp: undock_reason_def split: if_splits)

interpretation charge_release: stopped_gate charge_release_reason
  by unfold_locales (auto simp: charge_release_reason_def split: if_splits)

interpretation dock_reset: stopped_gate dock_reset_reason
  by unfold_locales (auto simp: dock_reset_reason_def split: if_splits)

interpretation lidar: command_gate lidar_reason
  by unfold_locales (auto simp: lidar_reason_def split: if_splits)

interpretation motor_enable: command_gate motor_enable_reason
  by unfold_locales (auto simp: motor_enable_reason_def split: if_splits)

interpretation motor_disable: command_gate motor_disable_reason
  by unfold_locales (auto simp: motor_disable_reason_def split: if_splits)

interpretation software_reset: command_gate software_reset_reason
  by unfold_locales (auto simp: software_reset_reason_def split: if_splits)

subsection \<open>Lemmas shared by the properties\<close>

definition combined_age_ok :: "pyfloat \<Rightarrow> pyfloat option \<Rightarrow> bool" where
  "combined_age_ok x receipt \<longleftrightarrow>
     (\<exists>a r. x = Fin a \<and> receipt = Some (Fin r) \<and> 0 \<le> a \<and> 0 \<le> r \<and> a + r \<le> 1/2)"

lemma lidar_reason_None:
  assumes "lidar_reason f = None"
  shows "lidar_state f = Lidar_READY" "combined_age_ok (telemetry_age f) (base_state_age f)"
    "combined_age_ok (lidar_scan_age f) (base_state_age f)"
  using assms
  by (auto simp: lidar_reason_def combined_age_ok_def split: if_splits option.splits
      elim!: is_finiteE)

lemma gated_reason_None:
  "rejection_reason c f = None \<Longrightarrow> gate_of c = Some g \<Longrightarrow> g f = None"
  by (simp add: rejection_reason_def)

lemma lidar_gated_None:
  "rejection_reason c f = None \<Longrightarrow> c \<in> {Navigate_to_pose, Set_initial_pose, Undock, Charge_release}
     \<Longrightarrow> lidar_reason f = None"
  by (auto simp: rejection_reason_def)

lemma navigate_reason_None:
  assumes "navigate_reason f = None"
  shows "\<not> estop_pressed f" "\<not> on_dock f" "motors_enabled f" "odom_epoch_valid f"
    "\<not> localization_recovery_required f" "0 < localization_seed_stamp_ns f"
    "age_within (pose_age f) 3" "localized f \<or> allow_unlocalized f"
  using assms by (auto simp: navigate_reason_def pose_fresh_def gate_constants split: if_splits)

lemma undock_reason_None:
  assumes "undock_reason f = None"
  shows "''undock'' \<in> set (capabilities f)" "on_dock f" "\<not> estop_pressed f"
    "bumpers_valid f = Some True" "\<not> bumpers_rear f" "\<not> navigating f" "\<not> undock_active f"
    "dock_state_valid f \<noteq> Some False"
  using assms by (auto simp: undock_reason_def split: if_splits)

lemma admitted_link:
  assumes "rejection_reason c f = None" "gate_of c \<noteq> None"
    "c \<notin> {Motor_enable, Motor_disable, Software_reset}"
  shows "link_connected f"
proof -
  have lidar: "lidar_reason f = None \<Longrightarrow> link_connected f"
    by (simp add: lidar_reason_def split: if_splits)
  show ?thesis
    using assms
    by (cases c) (auto simp: rejection_reason_def gate_of_def dest: lidar
        lidar_power.readings(2) dock_reset.readings(2))
qed

subsection \<open>Properties\<close>

text \<open>
  C1. A navigation request that passes the gates is for a robot that is connected, with a valid
  fault-free drive base, the emergency stop released, off its charger, with its motors on, its
  odometry epoch valid and no localization recovery pending, a position update at most 3 s old,
  and a location the robot knows or the operator explicitly waived; the LiDAR is ready and both
  the drive-base reading and the scan are, together with the server's receipt age, at most half
  a second old, which is tighter than the 2 s and 3 s limits of the hardware clause.
\<close>

theorem navigate_admission_safe:
  assumes "rejection_reason Navigate_to_pose f = None"
  shows "online f \<and> link_connected f \<and> hardware_state_valid f \<and> fault_flags f = 0
    \<and> \<not> estop_pressed f \<and> \<not> on_dock f \<and> motors_enabled f
    \<and> odom_epoch_valid f \<and> \<not> localization_recovery_required f \<and> 0 < localization_seed_stamp_ns f
    \<and> age_within (pose_age f) 3 \<and> (localized f \<or> allow_unlocalized f)
    \<and> lidar_state f = Lidar_READY
    \<and> combined_age_ok (telemetry_age f) (base_state_age f)
    \<and> combined_age_ok (lidar_scan_age f) (base_state_age f)"
proof -
  have gate: "navigate_reason f = None"
    using gated_reason_None [OF assms] by (simp add: gate_of_def)
  have lidar: "lidar_reason f = None"
    using lidar_gated_None [OF assms] by simp
  from navigate.readings [OF gate] navigate_reason_None [OF gate] lidar_reason_None [OF lidar]
  show ?thesis by simp
qed

text \<open>A parked, healthy robot off its dock, for the witnesses.\<close>

definition ready_facts :: state_facts where
  "ready_facts = default_facts \<lparr>
     lidar_state := Lidar_READY, lidar_scan_age := Fin (1/10), online := True,
     link_connected := True, telemetry_age := Fin (1/20), base_state_age := Some (Fin (1/10)),
     pose_age := Some (Fin (1/10)), hardware_state_valid := True, charge_state := ''idle'',
     motors_enabled := True, localized := True, stationary := True, odom_epoch_valid := True,
     localization_recovery_required := False, localization_seed_stamp_ns := 17,
     bumpers_valid := Some True, capabilities := [''undock''] \<rparr>"

definition docked_facts :: state_facts where
  "docked_facts = ready_facts \<lparr> dock_state := Some ''DOCKED_CONFIRMED'',
     dock_state_valid := Some True, motors_enabled := False \<rparr>"

lemmas example_facts = ready_facts_def docked_facts_def default_facts_def

lemma ready_facts_admitted: "rejection_reason Navigate_to_pose ready_facts = None"
  by (simp add: rejection_reason_def gate_of_def lidar_reason_def navigate_reason_def
      hardware_reason_def fact_defs gate_constants example_facts on_dock_def charge_word_def
      py_string_defs ON_DOCK_STATES_def CHARGING_STATES_def)

lemma docked_facts_admitted: "rejection_reason Undock docked_facts = None"
  by (simp add: rejection_reason_def gate_of_def lidar_reason_def undock_reason_def
      hardware_reason_def stationary_reason_def fact_defs gate_constants example_facts on_dock_def
      dock_word_def py_string_defs DOCK_OBSERVER_DOCKED_def)

theorem navigate_admission_safe_witness:
  "rejection_reason Navigate_to_pose ready_facts = None \<and> motors_enabled ready_facts
    \<and> \<not> on_dock ready_facts"
  using navigate_admission_safe [OF ready_facts_admitted] ready_facts_admitted by blast



text \<open>
  The gates fail closed on silence: with no drive-base payload, every gated command except the
  three that only need the connection (motor power on and off, software reset) is refused,
  whatever the pose, the capabilities, the receipt ages and the operator's override say.
\<close>

theorem missing_base_state_refused:
  assumes "gate_of c \<noteq> None" "c \<notin> {Motor_enable, Motor_disable, Software_reset}"
  shows "\<exists>r. rejection_reason c (facts_from_state conn None pose caps nav bage page allow) = Some r"
proof -
  let ?f = "facts_from_state conn None pose caps nav bage page allow"
  have "\<not> link_connected ?f"
    by (simp add: facts_from_state_def facts_from_pose_def default_facts_def Let_def split: option.split)
  then have "rejection_reason c ?f \<noteq> None"
    using admitted_link assms by blast
  then show ?thesis by blast
qed

theorem missing_base_state_refused_witness:
  "\<exists>r. rejection_reason Undock
     (facts_from_state Online None None [''undock''] False (Some (Fin 0)) (Some (Fin 0)) True) = Some r"
  by (rule missing_base_state_refused) (simp_all add: gate_of_def)

lemma override_frame:
  "hardware_reason (f\<lparr>allow_unlocalized := a\<rparr>) = hardware_reason f"
  "lidar_reason (f\<lparr>allow_unlocalized := a\<rparr>) = lidar_reason f"
  "stationary_reason (f\<lparr>allow_unlocalized := a\<rparr>) = stationary_reason f"
  "on_dock (f\<lparr>allow_unlocalized := a\<rparr>) = on_dock f"
  "charging (f\<lparr>allow_unlocalized := a\<rparr>) = charging f"
  "pose_fresh (f\<lparr>allow_unlocalized := a\<rparr>) = pose_fresh f"
  by (auto simp: hardware_reason_def lidar_reason_def stationary_reason_def fact_defs
      on_dock_def charging_def dock_word_def charge_word_def cong: option.case_cong)

lemma override_other_commands:
  "c \<noteq> Navigate_to_pose \<Longrightarrow>
     rejection_reason c (f\<lparr>allow_unlocalized := a\<rparr>) = rejection_reason c f"
  by (cases c) (simp_all add: rejection_reason_def gate_of_def override_frame
      lidar_power_reason_def charge_release_reason_def motor_enable_reason_def
      motor_disable_reason_def dock_reset_reason_def undock_reason_def software_reset_reason_def
      cong: option.case_cong)

text \<open>
  The operator's override waives exactly one question. Switching \<open>allow_unlocalized\<close> on
  changes the verdict of no command but navigation, and there only from "does not know where it
  is" to admitted.
\<close>

theorem override_waives_only_localization:
  assumes "rejection_reason c (f\<lparr>allow_unlocalized := True\<rparr>)
      \<noteq> rejection_reason c (f\<lparr>allow_unlocalized := False\<rparr>)"
  shows "c = Navigate_to_pose
    \<and> rejection_reason c (f\<lparr>allow_unlocalized := True\<rparr>) = None
    \<and> rejection_reason c (f\<lparr>allow_unlocalized := False\<rparr>) = Some Not_localized"
proof -
  have "c = Navigate_to_pose" using assms override_other_commands by metis
  with assms show ?thesis
    by (auto simp: rejection_reason_def gate_of_def navigate_reason_def override_frame or_else_def
        split: option.splits if_splits)
qed

theorem override_waives_only_localization_witness:
  "rejection_reason Navigate_to_pose (ready_facts\<lparr>localized := False, allow_unlocalized := False\<rparr>)
     = Some Not_localized"
proof -
  let ?g = "ready_facts\<lparr>localized := False\<rparr>"
  have "rejection_reason Navigate_to_pose (?g\<lparr>allow_unlocalized := True\<rparr>)
      \<noteq> rejection_reason Navigate_to_pose (?g\<lparr>allow_unlocalized := False\<rparr>)"
    by (simp add: rejection_reason_def gate_of_def lidar_reason_def navigate_reason_def
      hardware_reason_def fact_defs gate_constants example_facts on_dock_def charge_word_def
      py_string_defs ON_DOCK_STATES_def CHARGING_STATES_def)
  from override_waives_only_localization [OF this] show ?thesis by simp
qed

text \<open>
  The three commands that must stay available in an emergency (software reset, motor power
  on and off) are judged by the connection and the advertised capability alone: no sensor
  reading, fault, age, dock or localization state can make their gate refuse.
\<close>

theorem emergency_gates_ignore_sensors:
  assumes "c \<in> {Software_reset, Motor_disable, Motor_enable}"
    and "online f = online g" and "capabilities f = capabilities g"
  shows "rejection_reason c f = rejection_reason c g"
  using assms
  by (auto simp: rejection_reason_def gate_of_def software_reset_reason_def
      motor_disable_reason_def motor_enable_reason_def)

theorem emergency_gates_ignore_sensors_witness:
  "rejection_reason Motor_disable
      (default_facts\<lparr>online := True, capabilities := [''motor_disable''], fault_flags := 9\<rparr>) = None"
proof -
  have "rejection_reason Motor_disable
      (default_facts\<lparr>online := True, capabilities := [''motor_disable''], fault_flags := 9\<rparr>)
    = rejection_reason Motor_disable
      (default_facts\<lparr>online := True, capabilities := [''motor_disable'']\<rparr>)"
    by (rule emergency_gates_ignore_sensors) simp_all
  then show ?thesis
    by (simp add: rejection_reason_def gate_of_def motor_disable_reason_def default_facts_def)
qed

text \<open>
  \<open>refreshed t r p s f\<close> is \<open>f\<close> with finite, non-negative ages; \<open>fresher\<close> says that each of them
  is no larger than the one it replaces.
\<close>

definition refreshed :: "rat \<Rightarrow> rat \<Rightarrow> rat \<Rightarrow> rat \<Rightarrow> state_facts \<Rightarrow> state_facts" where
  "refreshed t r p s f = f\<lparr>telemetry_age := Fin t, base_state_age := Some (Fin r),
     pose_age := Some (Fin p), lidar_scan_age := Fin s\<rparr>"

definition younger :: "rat \<Rightarrow> pyfloat option \<Rightarrow> bool" where
  "younger a old = (0 \<le> a \<and> (case old of None \<Rightarrow> True | Some x \<Rightarrow> pf_le (Fin a) x))"

definition fresher :: "rat \<Rightarrow> rat \<Rightarrow> rat \<Rightarrow> rat \<Rightarrow> state_facts \<Rightarrow> bool" where
  "fresher t r p s f \<longleftrightarrow> younger t (Some (telemetry_age f)) \<and> younger r (base_state_age f)
     \<and> younger p (pose_age f) \<and> younger s (Some (lidar_scan_age f))"

lemma younger_le: "younger x (Some y) \<Longrightarrow> pf_le y (Fin l) \<Longrightarrow> x \<le> l"
  by (cases y) (auto simp: younger_def)

lemma age_within_younger: "age_within a l \<Longrightarrow> younger x a \<Longrightarrow> x \<le> l"
  by (auto simp: age_within_def split: option.splits intro: younger_le)

lemma refreshed_frame:
  "on_dock (refreshed t r p s f) = on_dock f" "charging (refreshed t r p s f) = charging f"
  by (auto simp: refreshed_def on_dock_def charging_def dock_word_def charge_word_def)

lemma refreshed_fields:
  "online (refreshed t r p s f) = online f"
  "estop_pressed (refreshed t r p s f) = estop_pressed f"
  "motors_enabled (refreshed t r p s f) = motors_enabled f"
  "odom_epoch_valid (refreshed t r p s f) = odom_epoch_valid f"
  "localization_recovery_required (refreshed t r p s f) = localization_recovery_required f"
  "localization_seed_stamp_ns (refreshed t r p s f) = localization_seed_stamp_ns f"
  "localized (refreshed t r p s f) = localized f"
  "allow_unlocalized (refreshed t r p s f) = allow_unlocalized f"
  "capabilities (refreshed t r p s f) = capabilities f"
  "dock_state_valid (refreshed t r p s f) = dock_state_valid f"
  "undock_profile_commissioned (refreshed t r p s f) = undock_profile_commissioned f"
  "undock_active (refreshed t r p s f) = undock_active f"
  "bumpers_valid (refreshed t r p s f) = bumpers_valid f"
  "bumpers_rear (refreshed t r p s f) = bumpers_rear f"
  "navigating (refreshed t r p s f) = navigating f"
  by (simp_all add: refreshed_def)

lemma refreshed_hardware:
  assumes "fresher t r p s f" "hardware_reason f = None"
  shows "hardware_reason (refreshed t r p s f) = None"
proof -
  have "t \<le> 2"
    using assms by (auto simp: hardware_reason_def fact_defs gate_constants fresher_def
        split: if_splits option.splits intro: younger_le)
  moreover have "r \<le> 3"
    using assms age_within_younger [of "base_state_age f" 3 r]
    by (auto simp: hardware_reason_def base_state_fresh_def gate_constants fresher_def
        split: if_splits)
  ultimately show ?thesis
    using assms(2) by (auto simp: hardware_reason_def fact_defs gate_constants refreshed_def
        split: if_splits option.splits)
qed

lemma refreshed_pose: "fresher t r p s f \<Longrightarrow> pose_fresh f \<Longrightarrow> pose_fresh (refreshed t r p s f)"
  using age_within_younger [of "pose_age f" 3 p]
  by (auto simp: pose_fresh_def refreshed_def fresher_def gate_constants age_within_def)

lemma refreshed_stationary:
  "fresher t r p s f \<Longrightarrow> stationary_reason f = None
     \<Longrightarrow> stationary_reason (refreshed t r p s f) = None"
  using refreshed_pose [of t r p s f]
  by (auto simp: stationary_reason_def refreshed_def split: if_splits)

lemma combined_age_younger:
  assumes "combined_age_ok x a" "younger u (Some x)" "younger v a"
  shows "u + v \<le> 1/2"
  using assms by (auto simp: combined_age_ok_def younger_def)

lemma refreshed_lidar:
  assumes "fresher t r p s f" "lidar_reason f = None"
  shows "lidar_reason (refreshed t r p s f) = None"
proof -
  note l = lidar_reason_None [OF assms(2)]
  have "t + r \<le> 1/2" "s + r \<le> 1/2" "0 \<le> t" "0 \<le> r" "0 \<le> s"
    using assms(1) combined_age_younger [OF l(2)] combined_age_younger [OF l(3)]
    by (auto simp: fresher_def younger_def)
  with assms(2) show ?thesis
    by (auto simp: lidar_reason_def refreshed_def split: if_splits option.splits)
qed

lemma refreshed_lidar_power:
  assumes "fresher t r p s f" "lidar_power_reason f = None"
  shows "lidar_power_reason (refreshed t r p s f) = None"
proof -
  have "combined_age_ok (telemetry_age f) (base_state_age f)"
    using assms(2) by (auto simp: lidar_power_reason_def combined_age_ok_def
        split: if_splits option.splits elim!: is_finiteE pf_le.elims)
  then have "t + r \<le> 1/2" "0 \<le> t" "0 \<le> r"
    using assms(1) combined_age_younger by (auto simp: fresher_def younger_def)
  moreover have "hardware_reason (refreshed t r p s f) = None"
    using assms by (simp add: refreshed_hardware lidar_power_reason_def)
  ultimately show ?thesis
    using assms(2) by (auto simp: lidar_power_reason_def refreshed_def split: if_splits option.splits)
qed

lemma refreshed_dock_reset:
  assumes "fresher t r p s f" "dock_reset_reason f = None"
  shows "dock_reset_reason (refreshed t r p s f) = None"
  using assms refreshed_hardware [OF assms(1)] refreshed_stationary [OF assms(1)]
  by (auto simp: dock_reset_reason_def bad_age_def refreshed_def fresher_def younger_def
      split: if_splits)

text \<open>
  The gates are monotone in freshness: a command admitted for some readings is admitted for
  the same readings with every age (robot-reported, receipt, pose, scan) made smaller, so a
  command is never refused because the data got newer.
\<close>

theorem fresher_readings_never_refused:
  assumes "rejection_reason c f = None" and "fresher t r p s f"
  shows "rejection_reason c (refreshed t r p s f) = None"
  using assms(1)
  by (cases c)
    (auto simp: rejection_reason_def gate_of_def navigate_reason_def charge_release_reason_def
      motor_enable_reason_def motor_disable_reason_def undock_reason_def software_reset_reason_def
      refreshed_frame refreshed_fields refreshed_hardware [OF assms(2)] refreshed_lidar [OF assms(2)]
      refreshed_lidar_power [OF assms(2)] refreshed_dock_reset [OF assms(2)]
      refreshed_pose [OF assms(2)] refreshed_stationary [OF assms(2)]
      split: if_splits)

theorem fresher_readings_never_refused_witness:
  "rejection_reason Navigate_to_pose (refreshed 0 0 0 0 ready_facts) = None"
  by (rule fresher_readings_never_refused [OF ready_facts_admitted])
    (simp add: fresher_def younger_def example_facts)

lemma fresh_reading:
  "\<not> stale_reading (Fin a) v \<Longrightarrow> \<exists>x. v = Some (Fin x) \<and> 0 \<le> x \<and> x + a \<le> 1/2"
  by (auto simp: stale_reading_def split: option.splits elim!: is_finiteE)

text \<open>
  C3. Manual drive passes its gate only on current evidence: the server heard from the drive base
  at most half a second ago, and each of the three ages the bridge reports (drive base, LiDAR
  scan, raw odometry) is finite, non-negative and at most half a second once that receipt age is
  added, so a frozen report cannot stay fresh; the robot is online with a valid drive base, no
  emergency stop or fault, an odometry origin and LiDAR that are valid, both bumpers vouched for
  and clear, motors on, no undock running, and confirmed clear of its dock. For the same payload the undock gate then refuses: the two motions exclude each other.
\<close>

theorem teleop_admission_safe:
  assumes "teleop_reason conn caps base age = None"
  shows "\<exists>b a. conn = Online \<and> base = Some b \<and> age = Some (Fin a) \<and> 0 \<le> a \<and> a \<le> 1/2
    \<and> (\<exists>x. bs_telemetry_age b = Fin x \<and> 0 \<le> x \<and> x + a \<le> 1/2)
    \<and> (\<exists>x. bs_lidar_scan_age b = Fin x \<and> 0 \<le> x \<and> x + a \<le> 1/2)
    \<and> (\<exists>x. bs_raw_odom_age_s b = Some (Fin x) \<and> 0 \<le> x \<and> x + a \<le> 1/2)
    \<and> bs_link_connected b \<and> bs_hardware_state_valid b \<and> bs_fault_flags b = 0
    \<and> \<not> bs_estop_pressed b \<and> bs_bumpers_valid b = Some True
    \<and> \<not> bs_bumpers_front b \<and> \<not> bs_bumpers_rear b \<and> bs_motors_enabled b
    \<and> bs_odom_epoch_valid b \<and> bs_lidar_state b = Lidar_READY
    \<and> \<not> bs_undock_active b \<and> bs_dock_state b = Some ''CLEAR_CONFIRMED''
    \<and> ''web_teleop_v1'' \<in> set caps
    \<and> rejection_reason Undock (facts_from_state conn' base pose caps' nav bage page allow) \<noteq> None"
proof -
  from assms obtain b a where ba: "base = Some b" "age = Some (Fin a)" "0 \<le> a" "a \<le> 1/2"
      "conn = Online" "''web_teleop_v1'' \<in> set caps" and b: "teleop_base_reason b (Fin a) = None"
    by (auto simp: teleop_reason_def split: if_splits option.splits elim!: is_finiteE)
  from b have dock: "bs_dock_state b = Some ''CLEAR_CONFIRMED''" "bs_dock_state_valid b = Some True"
    by (auto simp: teleop_base_reason_def split: if_splits)
  then have "\<not> on_dock (facts_from_state conn' (Some b) pose caps' nav bage page allow)"
    by (simp add: on_dock_def facts_from_state_def facts_from_base_def facts_from_pose_def
        dock_word_def py_string_defs DOCK_OBSERVER_DOCKED_def split: option.split)
  then have "rejection_reason Undock (facts_from_state conn' base pose caps' nav bage page allow) \<noteq> None"
    using undock_reason_None(2) gated_reason_None ba(1) by (fastforce simp: gate_of_def)
  with b dock ba show ?thesis
    by (auto simp: teleop_base_reason_def split: if_splits dest!: fresh_reading)
qed

definition ready_base :: base_state_data where
  "ready_base = \<lparr> map_id = Some ''floor1'', map_revision = Some ''r1'',
     bs_operation_fault_reason = '''', bs_operation_fault_request_id = '''',
     bs_operation_outcome_unknown = False, bs_lidar_state = Lidar_READY,
     bs_lidar_power_supported = True, bs_lidar_scan_age = Fin (1/10),
     bs_map_activated_stamp_ns = 0, bs_session_generation = 4,
     bs_link_connected = True, bs_telemetry_age = Fin (1/20), bs_hardware_state_valid = True,
     bs_charge_state = ''idle'', bs_motors_enabled = True, bs_estop_pressed = False,
     bs_fault_flags = 0, bs_stall_value = 0, bs_bumpers_front = False, bs_bumpers_rear = False,
     bs_bumpers_valid = Some True, bs_dock_state = Some ''CLEAR_CONFIRMED'',
     bs_dock_state_valid = Some True, bs_dock_phase = None, bs_dock_phase_name = None,
     bs_undock_active = False, bs_undock_release_attempts = None, bs_minimum_rear_range = None,
     bs_rear_sonar_usable = None, bs_redock_inhibited = None, bs_redock_inhibit_remaining = None,
     bs_undock_profile_commissioned = Some True, bs_odom_epoch_valid = True,
     bs_raw_odom_age_s = Some (Fin (1/50)), bs_localization_recovery_required = False,
     bs_localization_recovery_stage = '''', bs_localization_seed_stamp_ns = 17 \<rparr>"

lemma ready_base_teleop: "teleop_reason Online [''web_teleop_v1''] (Some ready_base) (Some (Fin (1/5))) = None"
  by (simp add: teleop_reason_def teleop_base_reason_def stale_reading_def ready_base_def)

theorem teleop_admission_safe_witness:
  "teleop_reason Online [''web_teleop_v1''] (Some ready_base) (Some (Fin (1/5))) = None
    \<and> rejection_reason Undock (facts_from_state Online (Some ready_base) None [''undock''] False
        (Some (Fin (1/5))) (Some (Fin (1/5))) False) \<noteq> None"
  using teleop_admission_safe [OF ready_base_teleop, of Online None "[''undock'']" False
      "Some (Fin (1/5))" "Some (Fin (1/5))" False] ready_base_teleop by blast

end
