(* ===== verification/Lease.thy ===== *)
theory Lease
  imports Prelude
begin

text \<open>
  The single-operator lease and the per-operator rate limiter
  (\<open>server/app/commands/lease.py\<close>). Clients are compared by identity, so a client is its
  identity, a natural number. The clock is the argument \<open>now\<close>.
\<close>

subsection \<open>Operator lease\<close>

record lease_holder =
  lh_user_id :: int
  lh_username :: string
  lh_client :: nat
  lh_acquired_at :: rat

text \<open>The dictionary \<open>_holders\<close>, robot id to holder.\<close>

type_synonym lease = "(string \<times> lease_holder) list"

definition lease_holder_of :: "lease \<Rightarrow> string \<Rightarrow> lease_holder option" where
  "lease_holder_of l robot = dget l robot"

definition lease_can_command :: "lease \<Rightarrow> string \<Rightarrow> int \<Rightarrow> bool" where
  "lease_can_command l robot user =
     (case lease_holder_of l robot of None \<Rightarrow> True | Some h \<Rightarrow> lh_user_id h = user)"

definition lease_acquire :: "lease \<Rightarrow> string \<Rightarrow> int \<Rightarrow> string \<Rightarrow> nat \<Rightarrow> rat \<Rightarrow> lease" where
  "lease_acquire l robot user name client now =
     dset l robot \<lparr>lh_user_id = user, lh_username = name, lh_client = client, lh_acquired_at = now\<rparr>"

text \<open>\<open>release_client\<close>: the loop over a copy of the items, deleting those the client holds.\<close>

definition lease_release_client :: "lease \<Rightarrow> nat \<Rightarrow> lease" where
  "lease_release_client l client =
     foldl (\<lambda>acc (robot, h). if lh_client h = client then ddel acc robot else acc) l l"

lemma release_fold:
  "distinct (dkeys l) \<Longrightarrow>
   dget (foldl (\<lambda>acc (robot, h). if lh_client h = client then ddel acc robot else acc) a l) robot
     = (case dget l robot of
          None \<Rightarrow> dget a robot
        | Some h \<Rightarrow> if lh_client h = client then None else dget a robot)"
proof (induction l arbitrary: a)
  case (Cons p l)
  obtain r h where p: "p = (r, h)" by (cases p)
  with Cons.prems have "dget l r = None" "distinct (dkeys l)"
    by (auto simp: dkeys_def dget_None_iff)
  with Cons.IH p show ?case by (auto split: option.splits)
qed simp

lemma release_client_holder:
  "distinct (dkeys l) \<Longrightarrow>
   lease_holder_of (lease_release_client l client) robot
     = (case lease_holder_of l robot of
          None \<Rightarrow> None
        | Some h \<Rightarrow> if lh_client h = client then None else Some h)"
  by (simp add: lease_holder_of_def lease_release_client_def release_fold split: option.splits)

lemma distinct_release_fold:
  "distinct (dkeys a) \<Longrightarrow>
   distinct (dkeys (foldl (\<lambda>acc (robot, h). if lh_client h = client then ddel acc robot else acc) a l))"
  by (induction l arbitrary: a) (auto simp: distinct_ddel)

lemma distinct_acquire: "distinct (dkeys l) \<Longrightarrow> distinct (dkeys (lease_acquire l robot u n c t))"
  by (simp add: lease_acquire_def distinct_dset)

lemma distinct_release: "distinct (dkeys l) \<Longrightarrow> distinct (dkeys (lease_release_client l client))"
  by (simp add: lease_release_client_def distinct_release_fold)

text \<open>
  What the command broker and the manual-drive controller rely on: an exclusive right per robot,
  held by one client of one user, taken over only by acquiring it and freed by its client.
\<close>

locale operator_lease =
  fixes holder :: "'l \<Rightarrow> string \<Rightarrow> lease_holder option"
    and can_command :: "'l \<Rightarrow> string \<Rightarrow> int \<Rightarrow> bool"
    and acquire :: "'l \<Rightarrow> string \<Rightarrow> int \<Rightarrow> string \<Rightarrow> nat \<Rightarrow> rat \<Rightarrow> 'l"
    and release_client :: "'l \<Rightarrow> nat \<Rightarrow> 'l"
    and inv :: "'l \<Rightarrow> bool"
  assumes can: "can_command l r u \<longleftrightarrow> (\<forall>h. holder l r = Some h \<longrightarrow> lh_user_id h = u)"
    and acquire_holder: "inv l \<Longrightarrow> holder (acquire l r u n c t) r' =
      (if r' = r then Some \<lparr>lh_user_id = u, lh_username = n, lh_client = c, lh_acquired_at = t\<rparr>
       else holder l r')"
    and release_holder: "inv l \<Longrightarrow> holder (release_client l c) r =
      (case holder l r of None \<Rightarrow> None | Some h \<Rightarrow> if lh_client h = c then None else Some h)"
    and inv_acquire: "inv l \<Longrightarrow> inv (acquire l r u n c t)"
    and inv_release: "inv l \<Longrightarrow> inv (release_client l c)"
begin

lemma acquired_owner:
  "inv l \<Longrightarrow> can_command (acquire l r u n c t) r u'  \<longleftrightarrow> u' = u"
  by (auto simp: can acquire_holder)

lemma acquire_other_robot:
  "inv l \<Longrightarrow> r' \<noteq> r \<Longrightarrow> can_command (acquire l r u n c t) r' u' = can_command l r' u'"
  by (simp add: can acquire_holder)

lemma release_frees:
  "inv l \<Longrightarrow> holder l r = Some h \<Longrightarrow> can_command (release_client l (lh_client h)) r u"
  by (simp add: can release_holder)

lemma release_keeps_others:
  "inv l \<Longrightarrow> holder l r = Some h \<Longrightarrow> lh_client h \<noteq> c \<Longrightarrow> holder (release_client l c) r = Some h"
  by (simp add: release_holder)

end

interpretation lease: operator_lease lease_holder_of lease_can_command lease_acquire
    lease_release_client "\<lambda>l. distinct (dkeys l)"
  by unfold_locales
    (auto simp: lease_can_command_def lease_acquire_def lease_holder_of_def distinct_dset
      release_client_holder [unfolded lease_holder_of_def] distinct_release split: option.splits)

text \<open>
  The lease is an exclusive right. After an operator acquires a robot, that operator and
  nobody else may command it; who may command any other robot is unchanged; when the holder's
  client disconnects everybody may command it again, while another client's disconnection
  leaves the holder in place.
\<close>

theorem lease_exclusive:
  assumes "distinct (dkeys l)"
  shows "(lease_can_command (lease_acquire l robot user name client now) robot user' \<longleftrightarrow> user' = user)
    \<and> (robot' = robot \<or> lease_can_command (lease_acquire l robot user name client now) robot' user'
          = lease_can_command l robot' user')
    \<and> lease_can_command (lease_release_client (lease_acquire l robot user name client now) client)
          robot user'
    \<and> (client' = client \<or>
        lease_can_command (lease_release_client (lease_acquire l robot user name client now) client')
          robot user' = (user' = user))"
proof -
  let ?l = "lease_acquire l robot user name client now"
  let ?h = "\<lparr>lh_user_id = user, lh_username = name, lh_client = client, lh_acquired_at = now\<rparr>"
  have inv: "distinct (dkeys ?l)" by (rule lease.inv_acquire [OF assms])
  have h: "lease_holder_of ?l robot = Some ?h" by (simp add: lease.acquire_holder [OF assms])
  have keep: "client' \<noteq> client \<Longrightarrow>
      lease_can_command (lease_release_client ?l client') robot user' = (user' = user)"
    using lease.release_keeps_others [OF inv h, of client'] by (auto simp: lease.can)
  have free: "lease_can_command (lease_release_client ?l client) robot user'"
    using lease.release_frees [OF inv h] by simp
  show ?thesis
    using lease.acquired_owner [OF assms] lease.acquire_other_robot [OF assms] keep free by blast
qed

theorem lease_exclusive_witness:
  "distinct (dkeys ([] :: lease)) \<and>
   \<not> lease_can_command (lease_acquire [] ''patrolbot-01'' 7 ''ada'' 3 10) ''patrolbot-01'' 8"
  using lease_exclusive [of "[]" "''patrolbot-01''" 7 "''ada''" 3 10 8] by (simp add: dkeys_def)

subsection \<open>Token bucket\<close>

record bucket =
  bk_tokens :: rat
  bk_updated :: rat

record 'k rate_limiter =
  rl_capacity :: rat
  rl_buckets :: "('k \<times> bucket) list"

text \<open>\<open>float(max(1, per_minute))\<close>; the refill rate is the capacity over a minute.\<close>

definition rate_limiter_new :: "int \<Rightarrow> 'k rate_limiter" where
  "rate_limiter_new per_minute = \<lparr>rl_capacity = of_int (max 1 per_minute), rl_buckets = []\<rparr>"

definition refill_per_s :: "'k rate_limiter \<Rightarrow> rat" where
  "refill_per_s r = rl_capacity r / 60"

definition rate_allow :: "'k rate_limiter \<Rightarrow> 'k \<Rightarrow> rat \<Rightarrow> 'k rate_limiter \<times> bool" where
  "rate_allow r key now =
     (case dget (rl_buckets r) key of
        None \<Rightarrow> (r\<lparr>rl_buckets := dset (rl_buckets r) key
                    \<lparr>bk_tokens = rl_capacity r - 1, bk_updated = now\<rparr>\<rparr>, True)
      | Some b \<Rightarrow>
          let tokens = min (rl_capacity r) (bk_tokens b + (now - bk_updated b) * refill_per_s r)
          in if 1 \<le> tokens
             then (r\<lparr>rl_buckets := dset (rl_buckets r) key
                     \<lparr>bk_tokens = tokens - 1, bk_updated = now\<rparr>\<rparr>, True)
             else (r\<lparr>rl_buckets := dset (rl_buckets r) key
                     \<lparr>bk_tokens = tokens, bk_updated = now\<rparr>\<rparr>, False))"

text \<open>A run of requests of one key at the given times; the answers, oldest first.\<close>

fun rate_run :: "'k rate_limiter \<Rightarrow> 'k \<Rightarrow> rat list \<Rightarrow> 'k rate_limiter \<times> bool list" where
  "rate_run r key [] = (r, [])"
| "rate_run r key (t # ts) =
     (let (r1, a) = rate_allow r key t; (r2, as) = rate_run r1 key ts in (r2, a # as))"

definition grants :: "bool list \<Rightarrow> nat" where
  "grants as = length (filter id as)"

lemma grants_simps [simp]: "grants [] = 0" "grants (a # as) = (if a then Suc (grants as) else grants as)"
  by (simp_all add: grants_def)

lemma rate_allow_capacity [simp]: "rl_capacity (fst (rate_allow r key t)) = rl_capacity r"
  by (simp add: rate_allow_def Let_def split: option.splits)

text \<open>
  From a bucket with \<open>b\<close> tokens, the tokens granted are at most what the bucket held plus what
  the elapsed time refilled.
\<close>

lemma rate_run_bucket:
  assumes "dget (rl_buckets r) key = Some b" "0 < rl_capacity r" "0 \<le> bk_tokens b"
    "sorted (bk_updated b # ts)"
  shows "of_nat (grants (snd (rate_run r key ts)))
    \<le> bk_tokens b + (last (bk_updated b # ts) - bk_updated b) * refill_per_s r"
  using assms
proof (induction ts arbitrary: r b)
  case (Cons t ts)
  define tokens where
    "tokens = min (rl_capacity r) (bk_tokens b + (t - bk_updated b) * refill_per_s r)"
  define c where "c = \<lparr>bk_tokens = (if 1 \<le> tokens then tokens - 1 else tokens), bk_updated = t\<rparr>"
  define r1 where "r1 = fst (rate_allow r key t)"
  have step: "rate_allow r key t = (r1, 1 \<le> tokens)" "dget (rl_buckets r1) key = Some c"
    "rl_capacity r1 = rl_capacity r"
    using Cons.prems(1)
    by (auto simp: r1_def c_def rate_allow_def tokens_def Let_def)
  have refill: "0 < refill_per_s r" "refill_per_s r1 = refill_per_s r"
    using Cons.prems(2) step(3) by (simp_all add: refill_per_s_def)
  have tok: "0 \<le> tokens" "tokens \<le> bk_tokens b + (t - bk_updated b) * refill_per_s r"
    using Cons.prems(2-4) refill(1) by (auto simp: tokens_def)
  have "of_nat (grants (snd (rate_run r1 key ts)))
      \<le> bk_tokens c + (last (t # ts) - t) * refill_per_s r"
    using Cons.IH [OF step(2)] Cons.prems(2,4) step(3) tok(1) refill(2) by (auto simp: c_def)
  then have "of_nat (grants (snd (rate_run r key (t # ts))))
      \<le> tokens + (last (t # ts) - t) * refill_per_s r"
    by (auto simp: step(1) c_def split: prod.splits)
  also have "\<dots> \<le> bk_tokens b + (t - bk_updated b) * refill_per_s r
      + (last (t # ts) - t) * refill_per_s r"
    using tok(2) by simp
  finally show ?case by (simp add: algebra_simps)
qed simp

text \<open>
  C37. The rate limiter bounds a flood: an operator who starts with no bucket is granted, over any
  run of requests at non-decreasing times, at most the capacity plus one sixtieth of the capacity
  per second that passed between the first and the last request.
\<close>

theorem rate_limit_bound:
  assumes "dget (rl_buckets r) key = None" "1 \<le> rl_capacity r" "sorted (t # ts)"
  shows "of_nat (grants (snd (rate_run r key (t # ts))))
    \<le> rl_capacity r + (last (t # ts) - t) * (rl_capacity r / 60)"
proof -
  define r1 where "r1 = fst (rate_allow r key t)"
  let ?b = "\<lparr>bk_tokens = rl_capacity r - 1, bk_updated = t\<rparr>"
  have step: "rate_allow r key t = (r1, True)" "dget (rl_buckets r1) key = Some ?b"
    "rl_capacity r1 = rl_capacity r"
    using assms(1) by (auto simp: r1_def rate_allow_def)
  have "of_nat (grants (snd (rate_run r1 key ts)))
      \<le> rl_capacity r - 1 + (last (t # ts) - t) * (rl_capacity r / 60)"
    using rate_run_bucket [OF step(2)] assms(2,3) step(3) by (simp add: refill_per_s_def)
  with assms(2) show ?thesis
    by (auto simp: step(1) split: prod.splits)
qed

theorem rate_limit_bound_witness:
  "snd (rate_run (rate_limiter_new 2) (7 :: nat) [0, 0, 0, 10, 60]) = [True, True, False, False, True]
    \<and> of_nat (grants [True, True, False, False, True]) \<le> (2 + 60 * (2 / 60) :: rat)"
proof -
  have run: "snd (rate_run (rate_limiter_new 2) (7 :: nat) [0, 0, 0, 10, 60])
      = [True, True, False, False, True]"
    by (simp add: rate_limiter_new_def rate_allow_def refill_per_s_def Let_def)
  have "of_nat (grants (snd (rate_run (rate_limiter_new 2) (7 :: nat) [0, 0, 0, 10, 60])))
      \<le> rl_capacity (rate_limiter_new 2 :: nat rate_limiter)
        + (last [0, 0, 0, 10, 60] - 0) * (rl_capacity (rate_limiter_new 2 :: nat rate_limiter) / 60)"
    by (rule rate_limit_bound) (simp_all add: rate_limiter_new_def)
  with run show ?thesis by (simp add: rate_limiter_new_def)
qed

text \<open>A first request is always admitted: an unknown key gets a full bucket.\<close>

lemma rate_first_allowed: "dget (rl_buckets r) key = None \<Longrightarrow> snd (rate_allow r key t)"
  by (simp add: rate_allow_def)

end
