(* ===== verification/Tuning_Policy.thy ===== *)
theory Tuning_Policy
  imports Prelude
begin

text \<open>
  The manual-drive speed policy of the server
  (\<open>server/app/commands/tuning_policy.py\<close>): a fixed hard envelope that a trusted runtime policy
  may only shrink. The provider of the runtime value is a parameter; it may raise, which is the
  value \<open>None\<close>. Refusal sentences are constructors of \<open>policy_reason\<close>.
\<close>

subsection \<open>Constants\<close>

definition TUNING_CAPABILITY :: string where "TUNING_CAPABILITY = ''robot_tuning_v1''"
definition TUNING_POLICY_CAPABILITY :: string where
  "TUNING_POLICY_CAPABILITY = ''robot_tuning_policy_v1''"
definition TUNING_READ_CAPABILITY :: string where
  "TUNING_READ_CAPABILITY = ''robot_tuning_read_v1''"
definition WEB_TELEOP_CAPABILITY :: string where "WEB_TELEOP_CAPABILITY = ''web_teleop_v1''"

definition POLICY_CAPABILITIES :: "string list" where
  "POLICY_CAPABILITIES = [TUNING_CAPABILITY, TUNING_POLICY_CAPABILITY]"

definition HARD_MAX_LINEAR_M_S :: rat where "HARD_MAX_LINEAR_M_S = 30 / 100"
definition HARD_MAX_ANGULAR_RAD_S :: rat where "HARD_MAX_ANGULAR_RAD_S = 70 / 100"
definition POLICY_MAX_AGE_S :: rat where "POLICY_MAX_AGE_S = 5"
definition POLICY_FUTURE_TOLERANCE_S :: rat where "POLICY_FUTURE_TOLERANCE_S = 1 / 2"
definition MAX_GENERATION_LENGTH :: nat where "MAX_GENERATION_LENGTH = 128"

definition GENERATION_ALNUM :: "char list" where
  "GENERATION_ALNUM =
     ''abcdefghijklmnopqrstuvwxyzABCDEFGHIJKLMNOPQRSTUVWXYZ0123456789''"
definition GENERATION_EXTRA :: "char list" where "GENERATION_EXTRA = ''-_.:''"
definition GENERATION_ALLOWED :: "char list" where
  "GENERATION_ALLOWED = GENERATION_ALNUM @ GENERATION_EXTRA"

lemmas capability_defs = TUNING_CAPABILITY_def TUNING_POLICY_CAPABILITY_def
  TUNING_READ_CAPABILITY_def WEB_TELEOP_CAPABILITY_def POLICY_CAPABILITIES_def
lemmas envelope_defs = HARD_MAX_LINEAR_M_S_def HARD_MAX_ANGULAR_RAD_S_def
  POLICY_MAX_AGE_S_def POLICY_FUTURE_TOLERANCE_S_def
lemmas generation_defs = MAX_GENERATION_LENGTH_def GENERATION_ALLOWED_def GENERATION_ALNUM_def
  GENERATION_EXTRA_def

subsection \<open>Policies\<close>

datatype policy_mode = Legacy_mode | Dynamic_mode

record teleop_policy =
  tp_mode :: policy_mode
  tp_max_linear_m_s :: rat
  tp_max_angular_rad_s :: rat
  tp_generation :: "string option"
  tp_received_mono :: "rat option"
  tp_robot_generation :: "int option"

definition policy_dynamic :: "teleop_policy \<Rightarrow> bool" where
  "policy_dynamic p = (tp_mode p = Dynamic_mode)"

definition policy_limits :: "teleop_policy \<Rightarrow> rat \<times> rat" where
  "policy_limits p = (tp_max_linear_m_s p, tp_max_angular_rad_s p)"

definition policy_signature :: "teleop_policy \<Rightarrow> policy_mode \<times> rat \<times> rat \<times> string option" where
  "policy_signature p =
     (tp_mode p, tp_max_linear_m_s p, tp_max_angular_rad_s p, tp_generation p)"

definition policy_age :: "teleop_policy \<Rightarrow> rat \<Rightarrow> rat option" where
  "policy_age p now =
     (case tp_received_mono p of None \<Rightarrow> None | Some t \<Rightarrow> Some (max 0 (now - t)))"

definition over_policy :: "teleop_policy \<Rightarrow> pyfloat \<Rightarrow> pyfloat \<Rightarrow> bool" where
  "over_policy p lin ang =
     (pf_lt (Fin (tp_max_linear_m_s p + 1 / 10 ^ 9)) (pf_abs lin)
      \<or> pf_lt (Fin (tp_max_angular_rad_s p + 1 / 10 ^ 9)) (pf_abs ang))"

definition LEGACY_POLICY :: teleop_policy where
  "LEGACY_POLICY = \<lparr>tp_mode = Legacy_mode, tp_max_linear_m_s = HARD_MAX_LINEAR_M_S,
     tp_max_angular_rad_s = HARD_MAX_ANGULAR_RAD_S, tp_generation = None,
     tp_received_mono = None, tp_robot_generation = None\<rparr>"

subsection \<open>Advertised capabilities\<close>

text \<open>
  The argument is untyped: nothing, one string, an iterable, or a value that cannot be iterated
  (whose \<open>TypeError\<close> is caught). An element that cannot be hashed raises the same error while
  the iterable is scanned, unless an earlier element decided.
\<close>

datatype capability_arg = Cap_none | Cap_str string | Cap_items "pyval list" | Cap_uniterable

definition hashable :: "pyval \<Rightarrow> bool" where
  "hashable v = (case v of VList _ \<Rightarrow> False | VDict _ \<Rightarrow> False | _ \<Rightarrow> True)"

fun any_policy_capability :: "pyval list \<Rightarrow> bool" where
  "any_policy_capability [] = False"
| "any_policy_capability (v # vs) =
     (if \<not> hashable v then False
      else if (case v of VStr s \<Rightarrow> s \<in> set POLICY_CAPABILITIES | _ \<Rightarrow> False) then True
      else any_policy_capability vs)"

definition capability_requires_policy :: "capability_arg \<Rightarrow> bool" where
  "capability_requires_policy c =
     (case c of Cap_none \<Rightarrow> False | Cap_str s \<Rightarrow> any_policy_capability [VStr s]
      | Cap_items vs \<Rightarrow> any_policy_capability vs | Cap_uniterable \<Rightarrow> False)"

lemma any_policy_strings:
  "any_policy_capability (map VStr cs) = (\<exists>c\<in>set cs. c \<in> set POLICY_CAPABILITIES)"
  by (induction cs) (auto simp: hashable_def)

subsection \<open>Reading a runtime policy\<close>

datatype policy_reason = Unknown_fields | Missing_fields | Malformed_policy
  | Linear_not_finite | Linear_outside_envelope | Angular_not_finite | Angular_outside_envelope
  | Generation_not_canonical | Receipt_invalid | Receipt_in_future | Policy_stale
  | Session_binding_invalid | Policy_required_unavailable | Policy_unreadable
  | Policy_session_mismatch | Policy_missing

definition finite_number :: "pyval \<Rightarrow> rat option" where
  "finite_number v =
     (case v of
        VInt i \<Rightarrow> (case float_of_int i of None \<Rightarrow> None | Some x \<Rightarrow> rat_of x)
      | VFloat x \<Rightarrow> (if is_finite x then rat_of x else None)
      | _ \<Rightarrow> None)"

definition valid_generation :: "pyval \<Rightarrow> bool" where
  "valid_generation v =
     (case v of
        VStr s \<Rightarrow>
          if \<not> (1 \<le> length s \<and> length s \<le> MAX_GENERATION_LENGTH) then False
          else if substring ''/'' s \<or> substring [CHR 0x5C] s \<or> substring ''..'' s then False
          else if \<not> list_ex (\<lambda>c. c \<in> set GENERATION_ALNUM) s then False
          else list_all (\<lambda>c. c \<in> set GENERATION_ALLOWED) s
      | _ \<Rightarrow> False)"

text \<open>
  The raw value a provider hands over. The keys of a mapping may be any object; the code compares
  their \<open>str()\<close> with the expected names and looks fields up by string, so a key is a string or
  the text of some other object.
\<close>

datatype mapping_key = Key_str string | Key_other string

datatype raw_value = Raw_none
  | Raw_policy pyval pyval pyval pyval pyval
  | Raw_mapping "(mapping_key \<times> pyval) list"
  | Raw_object "(string \<times> pyval) list"

definition key_text :: "mapping_key \<Rightarrow> string" where
  "key_text k = (case k of Key_str s \<Rightarrow> s | Key_other s \<Rightarrow> s)"

definition REQUIRED_FIELDS :: "string list" where
  "REQUIRED_FIELDS = [''max_linear_m_s'', ''max_angular_rad_s'', ''generation'',
     ''received_mono'', ''robot_generation'']"

definition field_of :: "raw_value \<Rightarrow> string \<Rightarrow> pyval" where
  "field_of raw name =
     (case raw of
        Raw_mapping d \<Rightarrow> (case dget d (Key_str name) of None \<Rightarrow> VNone | Some v \<Rightarrow> v)
      | Raw_object d \<Rightarrow> (case dget d name of None \<Rightarrow> VNone | Some v \<Rightarrow> v)
      | Raw_policy l a g t r \<Rightarrow>
          if name = ''max_linear_m_s'' then l else if name = ''max_angular_rad_s'' then a
          else if name = ''generation'' then g else if name = ''received_mono'' then t
          else if name = ''robot_generation'' then r else VNone
      | Raw_none \<Rightarrow> VNone)"

definition session_binding :: "pyval \<Rightarrow> int option" where
  "session_binding v = (case v of VInt i \<Rightarrow> if i < 0 then None else Some i | _ \<Rightarrow> None)"

definition gen_text :: "pyval \<Rightarrow> string option" where
  "gen_text v = (case v of VStr s \<Rightarrow> Some s | _ \<Rightarrow> None)"

definition validate_policy_fields ::
  "pyval \<Rightarrow> pyval \<Rightarrow> pyval \<Rightarrow> pyval \<Rightarrow> pyval \<Rightarrow> rat \<Rightarrow> policy_reason + teleop_policy" where
  "validate_policy_fields linear_raw angular_raw generation received_mono robot_generation now =
     (case finite_number linear_raw of None \<Rightarrow> Inl Linear_not_finite | Some lin \<Rightarrow>
      if lin < 0 \<or> HARD_MAX_LINEAR_M_S < lin then Inl Linear_outside_envelope else
      case finite_number angular_raw of None \<Rightarrow> Inl Angular_not_finite | Some ang \<Rightarrow>
      if ang < 0 \<or> HARD_MAX_ANGULAR_RAD_S < ang then Inl Angular_outside_envelope else
      if \<not> valid_generation generation then Inl Generation_not_canonical else
      case finite_number received_mono of None \<Rightarrow> Inl Receipt_invalid | Some received \<Rightarrow>
      if now + POLICY_FUTURE_TOLERANCE_S < received then Inl Receipt_in_future else
      if POLICY_MAX_AGE_S < now - received then Inl Policy_stale else
      case session_binding robot_generation of None \<Rightarrow> Inl Session_binding_invalid | Some g \<Rightarrow>
      Inr \<lparr>tp_mode = Dynamic_mode, tp_max_linear_m_s = lin, tp_max_angular_rad_s = ang,
           tp_generation = gen_text generation, tp_received_mono = Some received,
           tp_robot_generation = Some g\<rparr>)"

definition validate_fields_of :: "raw_value \<Rightarrow> rat \<Rightarrow> policy_reason + teleop_policy" where
  "validate_fields_of raw now =
     validate_policy_fields (field_of raw ''max_linear_m_s'') (field_of raw ''max_angular_rad_s'')
       (field_of raw ''generation'') (field_of raw ''received_mono'')
       (field_of raw ''robot_generation'') now"

definition parse_policy :: "raw_value \<Rightarrow> rat \<Rightarrow> policy_reason + teleop_policy" where
  "parse_policy raw now =
     (case raw of
        Raw_none \<Rightarrow> Inl Malformed_policy
      | Raw_mapping d \<Rightarrow>
          let keys = map (key_text \<circ> fst) d in
          if \<not> list_all (\<lambda>k. k \<in> set REQUIRED_FIELDS) keys then Inl Unknown_fields
          else if \<not> list_all (\<lambda>k. k \<in> set keys) REQUIRED_FIELDS then Inl Missing_fields
          else validate_fields_of raw now
      | _ \<Rightarrow> validate_fields_of raw now)"

subsection \<open>Resolving the effective policy\<close>

text \<open>
  The provider, when one is wired, maps a robot id to its raw value or raises (\<open>None\<close>); the
  fallback is the attribute of the session state.
\<close>

type_synonym provider = "string option \<Rightarrow> raw_value option"

definition raw_policy ::
  "raw_value \<Rightarrow> string option \<Rightarrow> provider option \<Rightarrow> raw_value option" where
  "raw_policy state_policy robot_id provider =
     (case provider of Some f \<Rightarrow> f robot_id | None \<Rightarrow> Some state_policy)"

definition resolve_policy ::
  "capability_arg \<Rightarrow> raw_value \<Rightarrow> string option \<Rightarrow> provider option \<Rightarrow> rat \<Rightarrow> int option
   \<Rightarrow> policy_reason + teleop_policy" where
  "resolve_policy capabilities state_policy robot_id provider now robot_generation =
     (if \<not> capability_requires_policy capabilities then Inr LEGACY_POLICY
      else case raw_policy state_policy robot_id provider of
        None \<Rightarrow> Inl Policy_unreadable
      | Some raw \<Rightarrow>
          if raw = Raw_none then Inl Policy_required_unavailable
          else case parse_policy raw now of
            Inl reason \<Rightarrow> Inl reason
          | Inr policy \<Rightarrow>
              if tp_robot_generation policy \<noteq> robot_generation then Inl Policy_session_mismatch
              else Inr policy)"

subsection \<open>What a reader of runtime policies promises\<close>

text \<open>
  The contract shared by the server's parser and by the bridge's own: an accepted value has both
  caps inside a hard envelope, a canonical generation and a receipt time in a bounded window, and
  the result carries exactly the caps and the generation of the raw value.
\<close>

definition policy_evidence :: "rat \<Rightarrow> rat \<Rightarrow> raw_value \<Rightarrow> rat \<Rightarrow> rat \<times> rat \<Rightarrow> string option \<Rightarrow> bool" where
  "policy_evidence max_lin max_ang raw now caps gen =
     (case (finite_number (field_of raw ''max_linear_m_s''),
            finite_number (field_of raw ''max_angular_rad_s''),
            finite_number (field_of raw ''received_mono'')) of
        (Some l, Some a, Some t) \<Rightarrow>
          caps = (l, a) \<and> 0 \<le> l \<and> l \<le> max_lin \<and> 0 \<le> a \<and> a \<le> max_ang
          \<and> valid_generation (field_of raw ''generation'')
          \<and> gen = gen_text (field_of raw ''generation'')
          \<and> t \<le> now + 1 / 2 \<and> now - t \<le> 5
      | _ \<Rightarrow> False)"

locale policy_reader =
  fixes parse :: "raw_value \<Rightarrow> rat \<Rightarrow> policy_reason + 'p"
    and caps :: "'p \<Rightarrow> rat \<times> rat"
    and gen :: "'p \<Rightarrow> string option"
    and max_lin max_ang :: rat
  assumes evidence: "parse raw now = Inr p \<Longrightarrow> policy_evidence max_lin max_ang raw now (caps p) (gen p)"
begin

lemma caps_in_envelope:
  assumes "parse raw now = Inr p"
  shows "0 \<le> fst (caps p) \<and> fst (caps p) \<le> max_lin \<and> 0 \<le> snd (caps p) \<and> snd (caps p) \<le> max_ang"
  using evidence [OF assms] by (auto simp: policy_evidence_def split: option.splits)

lemma generation_present: "parse raw now = Inr p \<Longrightarrow> gen p \<noteq> None"
  using evidence [of raw now p]
  by (auto simp: policy_evidence_def valid_generation_def gen_text_def split: option.splits pyval.splits)

lemma same_value_same_policy:
  assumes "parse raw now = Inr p" "parse raw now' = Inr p'"
  shows "caps p = caps p' \<and> gen p = gen p'"
  using evidence [OF assms(1)] evidence [OF assms(2)]
  by (auto simp: policy_evidence_def split: option.splits)

lemma bounded_life:
  assumes "parse raw now = Inr p" "parse raw now' = Inr p'"
  shows "now' - now \<le> 11 / 2"
  using evidence [OF assms(1)] evidence [OF assms(2)]
  by (auto simp: policy_evidence_def split: option.splits)

end

lemma validate_evidence:
  "validate_fields_of raw now = Inr p \<Longrightarrow>
   policy_evidence HARD_MAX_LINEAR_M_S HARD_MAX_ANGULAR_RAD_S raw now (policy_limits p) (tp_generation p)
   \<and> tp_mode p = Dynamic_mode
   \<and> tp_received_mono p = finite_number (field_of raw ''received_mono'')
   \<and> tp_robot_generation p = session_binding (field_of raw ''robot_generation'')
   \<and> session_binding (field_of raw ''robot_generation'') \<noteq> None"
  by (auto simp: validate_fields_of_def validate_policy_fields_def policy_evidence_def
      policy_limits_def POLICY_MAX_AGE_S_def POLICY_FUTURE_TOLERANCE_S_def
      split: option.splits if_splits)

lemma parse_policy_validate: "parse_policy raw now = Inr p \<Longrightarrow> validate_fields_of raw now = Inr p"
  by (cases raw) (auto simp: parse_policy_def Let_def split: if_splits)

lemmas parse_evidence = validate_evidence [OF parse_policy_validate]

interpretation server_policy: policy_reader parse_policy policy_limits tp_generation
    HARD_MAX_LINEAR_M_S HARD_MAX_ANGULAR_RAD_S
  by unfold_locales (simp add: parse_evidence)


subsection \<open>Properties\<close>

definition example_policy :: raw_value where
  "example_policy = Raw_mapping
     [(Key_str ''max_linear_m_s'', VFloat (Fin (1 / 5))), (Key_str ''max_angular_rad_s'', VInt 0),
      (Key_str ''generation'', VStr ''boot-7.rev:12''), (Key_str ''received_mono'', VFloat (Fin 99)),
      (Key_str ''robot_generation'', VInt 4)]"

lemma example_policy_present: "example_policy \<noteq> Raw_none"
  by (simp add: example_policy_def)

lemma example_policy_accepted:
  "parse_policy example_policy 100 = Inr \<lparr>tp_mode = Dynamic_mode, tp_max_linear_m_s = 1 / 5,
     tp_max_angular_rad_s = 0, tp_generation = Some ''boot-7.rev:12'', tp_received_mono = Some 99,
     tp_robot_generation = Some 4\<rparr>"
  by (simp add: example_policy_def parse_policy_def validate_fields_of_def field_of_def
      validate_policy_fields_def finite_number_def float_of_int_def valid_generation_def
      session_binding_def gen_text_def REQUIRED_FIELDS_def key_text_def envelope_defs generation_defs)

text \<open>
  A resolved speed policy never enlarges the commissioned envelope. Whatever the provider or
  the session state hands over, an accepted policy has both caps between zero and the hard bounds
  of 0.30 m/s and 0.70 rad/s. When the robot promised a dynamic policy the result is never the
  legacy one: it is dynamic, bound to the current hardware session, carries a generation, and its
  receipt time lies at most five seconds back and half a second ahead.
\<close>

theorem resolved_policy_within_envelope:
  assumes "resolve_policy caps st robot provider now robot_generation = Inr p"
  shows "0 \<le> tp_max_linear_m_s p \<and> tp_max_linear_m_s p \<le> HARD_MAX_LINEAR_M_S
    \<and> 0 \<le> tp_max_angular_rad_s p \<and> tp_max_angular_rad_s p \<le> HARD_MAX_ANGULAR_RAD_S
    \<and> (if capability_requires_policy caps
       then policy_dynamic p \<and> tp_robot_generation p = robot_generation \<and> robot_generation \<noteq> None
         \<and> tp_generation p \<noteq> None
         \<and> (\<exists>t. tp_received_mono p = Some t \<and> t \<le> now + 1 / 2 \<and> now - t \<le> 5)
       else p = LEGACY_POLICY)"
proof (cases "capability_requires_policy caps")
  case True
  with assms obtain raw where raw: "parse_policy raw now = Inr p" "tp_robot_generation p = robot_generation"
    by (auto simp: resolve_policy_def split: option.splits if_splits sum.splits)
  show ?thesis
    using True raw parse_evidence [OF raw(1)] server_policy.caps_in_envelope [OF raw(1)]
      server_policy.generation_present [OF raw(1)]
    by (auto simp: policy_dynamic_def policy_limits_def policy_evidence_def split: option.splits)
next
  case False
  with assms show ?thesis by (auto simp: resolve_policy_def LEGACY_POLICY_def envelope_defs)
qed

theorem resolved_policy_within_envelope_witness:
  "\<exists>p. resolve_policy (Cap_items [VStr ''robot_tuning_v1'']) Raw_none (Some ''r1'')
     (Some (\<lambda>_. Some example_policy)) 100 (Some 4) = Inr p
   \<and> policy_dynamic p \<and> tp_max_linear_m_s p \<le> HARD_MAX_LINEAR_M_S"
proof -
  obtain p where p: "resolve_policy (Cap_items [VStr ''robot_tuning_v1'']) Raw_none (Some ''r1'')
     (Some (\<lambda>_. Some example_policy)) 100 (Some 4) = Inr p"
    by (simp add: resolve_policy_def capability_requires_policy_def hashable_def capability_defs
        raw_policy_def example_policy_accepted example_policy_present)
  then show ?thesis
    using resolved_policy_within_envelope [OF p]
    by (simp add: capability_requires_policy_def hashable_def capability_defs)
qed



end
