(* ===== verification/Bridge_Normalizers.thy ===== *)
theory Bridge_Normalizers
  imports Messages
begin

text \<open>
  The bridge's normalizers from ROS messages to dashboard payloads
  (\<open>patrolbot_web_bridge/normalizers.py\<close>). A message is a record of its attributes; an attribute
  read with \<open>getattr(..., default)\<close> is an option, \<open>None\<close> where the message type lacks it. The yaw
  angles (trigonometric) are not modelled.
\<close>

subsection \<open>Drive-base state\<close>

text \<open>\<open>_finite\<close>: the rounded value, or nothing for a missing or non-finite one.\<close>

definition finite_round :: "pyfloat option \<Rightarrow> nat option \<Rightarrow> pyfloat option" where
  "finite_round v digits =
     (case v of None \<Rightarrow> None
      | Some x \<Rightarrow> if \<not> is_finite x then None
          else Some (case digits of None \<Rightarrow> x | Some n \<Rightarrow> py_round n x))"

record base_msg =
  bm_charge_state :: int
  bm_charge_state_valid :: "bool option"
  bm_bumpers_valid :: "bool option"
  bm_front_bumper_pressed :: bool
  bm_rear_bumper_pressed :: bool
  bm_dock_state_valid :: "bool option"
  bm_dock_state :: "string option"
  bm_lidar_state :: "string option"
  bm_lidar_power_supported :: "bool option"
  bm_lidar_scan_age :: "pyfloat option"
  bm_session_generation :: int
  bm_link_connected :: bool
  bm_telemetry_age :: pyfloat
  bm_hardware_state_valid :: bool
  bm_motors_enabled :: bool
  bm_estop_pressed :: bool
  bm_fault_flags :: int
  bm_stall_value :: int
  bm_operation_fault_reason :: "string option"
  bm_operation_fault_request_id :: "string option"
  bm_operation_outcome_unknown :: "bool option"
  bm_dock_phase :: "int option"
  bm_dock_phase_name :: "string option"
  bm_undock_active :: "bool option"
  bm_undock_release_attempts :: "int option"
  bm_minimum_rear_range :: "pyfloat option"
  bm_rear_sonar_usable :: "bool option"
  bm_redock_inhibited :: "bool option"
  bm_redock_inhibit_remaining :: "pyfloat option"
  bm_undock_profile_commissioned :: "bool option"
  bm_odom_epoch_valid :: "bool option"
  bm_localization_recovery_required :: "bool option"
  bm_localization_recovery_stage :: "string option"
  bm_localization_seed_stamp_ns :: "int option"

text \<open>The dictionary \<open>normalize_base_state\<close> returns, one field per key.\<close>

record bridge_base =
  bb_lidar_state :: string
  bb_lidar_power_supported :: bool
  bb_lidar_scan_age :: pyfloat
  bb_session_generation :: int
  bb_link_connected :: bool
  bb_telemetry_age :: pyfloat
  bb_hardware_state_valid :: bool
  bb_charge_state :: string
  bb_motors_enabled :: bool
  bb_estop_pressed :: bool
  bb_fault_flags :: int
  bb_stall_value :: int
  bb_bumpers_valid :: "bool option"
  bb_bumpers_front :: bool
  bb_bumpers_rear :: bool
  bb_dock_state :: string
  bb_dock_state_valid :: bool
  bb_operation_fault_reason :: string
  bb_operation_fault_request_id :: string
  bb_operation_outcome_unknown :: bool
  bb_dock_phase :: int
  bb_dock_phase_name :: string
  bb_undock_active :: bool
  bb_undock_release_attempts :: int
  bb_minimum_rear_range :: "pyfloat option"
  bb_rear_sonar_usable :: bool
  bb_redock_inhibited :: bool
  bb_redock_inhibit_remaining :: pyfloat
  bb_undock_profile_commissioned :: bool
  bb_odom_epoch_valid :: bool
  bb_localization_recovery_required :: bool
  bb_localization_recovery_stage :: string
  bb_localization_seed_stamp_ns :: int

definition CHARGE_STATE_NAMES :: "(int \<times> string) list" where
  "CHARGE_STATE_NAMES = [(-1, ''unknown''), (0, ''not_charging''), (1, ''bulk''),
     (2, ''overcharge''), (3, ''float'')]"

definition charge_name :: "int \<Rightarrow> bool option \<Rightarrow> string" where
  "charge_name n valid =
     (if default True valid
      then default (''state_'' @ string_of_int n) (dget CHARGE_STATE_NAMES n)
      else ''unknown'')"

definition dock_name :: "bool option \<Rightarrow> string option \<Rightarrow> string" where
  "dock_name valid s =
     (if default False valid then py_upper (py_strip (default ''UNKNOWN'' s)) else ''UNKNOWN'')"

definition normalize_base_state :: "base_msg \<Rightarrow> bridge_base" where
  "normalize_base_state m =
     \<lparr>bb_lidar_state = default ''UNKNOWN'' (bm_lidar_state m),
      bb_lidar_power_supported = default False (bm_lidar_power_supported m),
      bb_lidar_scan_age =
        default (Fin (-1)) (finite_round (Some (default (Fin (-1)) (bm_lidar_scan_age m))) (Some 3)),
      bb_session_generation = bm_session_generation m,
      bb_link_connected = bm_link_connected m,
      bb_telemetry_age = py_round 3 (bm_telemetry_age m),
      bb_hardware_state_valid = bm_hardware_state_valid m,
      bb_charge_state = charge_name (bm_charge_state m) (bm_charge_state_valid m),
      bb_motors_enabled = bm_motors_enabled m,
      bb_estop_pressed = bm_estop_pressed m,
      bb_fault_flags = bm_fault_flags m,
      bb_stall_value = bm_stall_value m,
      bb_bumpers_valid = bm_bumpers_valid m,
      bb_bumpers_front = (if bm_bumpers_valid m \<noteq> Some False then bm_front_bumper_pressed m else False),
      bb_bumpers_rear = (if bm_bumpers_valid m \<noteq> Some False then bm_rear_bumper_pressed m else False),
      bb_dock_state = dock_name (bm_dock_state_valid m) (bm_dock_state m),
      bb_dock_state_valid = default False (bm_dock_state_valid m),
      bb_operation_fault_reason = default [] (bm_operation_fault_reason m),
      bb_operation_fault_request_id = default [] (bm_operation_fault_request_id m),
      bb_operation_outcome_unknown = default False (bm_operation_outcome_unknown m),
      bb_dock_phase = default 0 (bm_dock_phase m),
      bb_dock_phase_name = default ''IDLE'' (bm_dock_phase_name m),
      bb_undock_active = default False (bm_undock_active m),
      bb_undock_release_attempts = default 0 (bm_undock_release_attempts m),
      bb_minimum_rear_range = finite_round (bm_minimum_rear_range m) (Some 3),
      bb_rear_sonar_usable = default False (bm_rear_sonar_usable m),
      bb_redock_inhibited = default False (bm_redock_inhibited m),
      bb_redock_inhibit_remaining = py_round 1 (default (Fin 0) (bm_redock_inhibit_remaining m)),
      bb_undock_profile_commissioned = default False (bm_undock_profile_commissioned m),
      bb_odom_epoch_valid = default False (bm_odom_epoch_valid m),
      bb_localization_recovery_required = default True (bm_localization_recovery_required m),
      bb_localization_recovery_stage = default [] (bm_localization_recovery_stage m),
      bb_localization_seed_stamp_ns = default 0 (bm_localization_seed_stamp_ns m)\<rparr>"

subsection \<open>Localization quality\<close>

text \<open>
  The three planar covariance entries and the seven geometry values \<open>amcl_localization_usable\<close>
  reads; \<open>None\<close> when reading or converting one raises.
\<close>

definition amcl_localization_usable :: "(pyfloat list \<times> pyfloat list) option \<Rightarrow> pyfloat \<Rightarrow> bool" where
  "amcl_localization_usable pose position_limit =
     (if \<not> is_finite position_limit \<or> pf_le position_limit (Fin 0) then False
      else case pose of
        None \<Rightarrow> False
      | Some (geometry, covariance) \<Rightarrow>
          list_all is_finite (geometry @ covariance)
          \<and> list_all (\<lambda>v. pf_lt (Fin 0) v \<and> pf_le v position_limit) covariance)"

subsection \<open>Measured motion\<close>

definition MOTION_MAX_ABS_LINEAR_M_S :: rat where "MOTION_MAX_ABS_LINEAR_M_S = 5"
definition MOTION_MAX_ABS_ANGULAR_RAD_S :: rat where "MOTION_MAX_ABS_ANGULAR_RAD_S = 10"
definition MOTION_MAX_AGE_S :: rat where "MOTION_MAX_AGE_S = 86400"
definition MOTION_MAX_GENERATION :: int where "MOTION_MAX_GENERATION = 2 ^ 31 - 1"
definition MOTION_MAX_EPOCH_LENGTH :: nat where "MOTION_MAX_EPOCH_LENGTH = 128"

lemmas motion_bounds = MOTION_MAX_ABS_LINEAR_M_S_def MOTION_MAX_ABS_ANGULAR_RAD_S_def
  MOTION_MAX_AGE_S_def MOTION_MAX_GENERATION_def MOTION_MAX_EPOCH_LENGTH_def

text \<open>The arguments after \<open>float(...)\<close> and \<open>int(...)\<close>; \<open>None\<close> where the conversion raises.\<close>

definition normalize_motion ::
  "pyfloat option \<Rightarrow> pyfloat option \<Rightarrow> int option \<Rightarrow> string option \<Rightarrow> int option
   \<Rightarrow> pyfloat option \<Rightarrow> pyfloat option \<Rightarrow> motion_data option" where
  "normalize_motion twist_x twist_z session_generation odom_epoch odom_epoch_generation
     sample_age_s receipt_age_s =
     (case (twist_x, twist_z, sample_age_s, receipt_age_s, session_generation, odom_epoch_generation) of
        (Some lin, Some ang, Some sample_age, Some receipt_age, Some generation, Some epoch_generation) \<Rightarrow>
          let epoch = default [] odom_epoch in
          if MOTION_MAX_EPOCH_LENGTH < length epoch then None
          else if \<not> list_all is_finite [lin, ang, sample_age, receipt_age] then None
          else if pf_lt (Fin MOTION_MAX_ABS_LINEAR_M_S) (pf_abs lin)
            \<or> pf_lt (Fin MOTION_MAX_ABS_ANGULAR_RAD_S) (pf_abs ang) then None
          else if pf_lt sample_age (Fin 0) \<or> pf_lt receipt_age (Fin 0) then None
          else if pf_lt (Fin MOTION_MAX_AGE_S) sample_age \<or> pf_lt (Fin MOTION_MAX_AGE_S) receipt_age then None
          else if \<not> (0 \<le> generation \<and> generation \<le> MOTION_MAX_GENERATION) then None
          else if \<not> (0 \<le> epoch_generation \<and> epoch_generation \<le> MOTION_MAX_GENERATION) then None
          else Some \<lparr>mo_linear_velocity = py_round 3 lin, mo_angular_velocity = py_round 3 ang,
             mo_sample_age_s = py_round 3 sample_age, mo_receipt_age_s = py_round 3 receipt_age,
             mo_session_generation = generation, mo_odom_epoch = epoch,
             mo_odom_epoch_generation = epoch_generation\<rparr>
      | _ \<Rightarrow> None)"

subsection \<open>Scan, path, battery, diagnostics, map\<close>

text \<open>\<open>max(1, math.ceil(n / max_points))\<close>.\<close>

definition stride_of :: "nat \<Rightarrow> nat \<Rightarrow> nat" where
  "stride_of n max_points = max 1 ((n + (max_points - 1)) div max_points)"

record scan_msg =
  sc_ranges :: "pyfloat list"
  sc_range_min :: pyfloat
  sc_range_max :: pyfloat
  sc_angle_min :: rat
  sc_angle_increment :: rat

text \<open>The payload: angle_min, angle_increment, ranges. A zero \<open>max_points\<close> divides by zero.\<close>

definition normalize_scan ::
  "scan_msg \<Rightarrow> nat \<Rightarrow> rat \<Rightarrow> bool \<Rightarrow> (rat \<times> rat \<times> pyfloat option list) option" where
  "normalize_scan scan max_points angle_offset mirror =
     (if max_points = 0 then None else
      let stride = stride_of (length (sc_ranges scan)) max_points;
          decimated = map (\<lambda>r. finite_round (Some r) (Some 2)) (every stride (sc_ranges scan));
          banded = map (\<lambda>r. case r of None \<Rightarrow> None
            | Some v \<Rightarrow> if pf_le (sc_range_min scan) v \<and> pf_le v (sc_range_max scan) then Some v else None)
            decimated;
          amin = (if mirror then - sc_angle_min scan else sc_angle_min scan);
          inc = (if mirror then - (sc_angle_increment scan * of_nat stride)
                 else sc_angle_increment scan * of_nat stride)
      in Some (round_rat 6 (amin + angle_offset), round_rat 6 inc, banded))"

text \<open>
  \<open>normalize_path\<close>, its points. Poses are compared by identity with the last one: the sampled list
  ends with it exactly when its index is a multiple of the stride.
\<close>

definition sample_path :: "'a list \<Rightarrow> nat \<Rightarrow> 'a list" where
  "sample_path poses stride =
     (let sampled = every stride poses
      in if poses \<noteq> [] \<and> \<not> stride dvd (length poses - 1) then sampled @ [last poses] else sampled)"

definition normalize_path_points :: "(pyfloat \<times> pyfloat) list \<Rightarrow> nat \<Rightarrow> (pyfloat \<times> pyfloat) list option" where
  "normalize_path_points poses max_points =
     (if max_points = 0 then None
      else Some (map (\<lambda>(x, y). (py_round 3 x, py_round 3 y))
                  (sample_path poses (stride_of (length poses) max_points))))"

record battery_msg =
  ba_voltage :: "pyfloat option"
  ba_percentage :: "pyfloat option"
  ba_current :: "pyfloat option"
  ba_power_supply_status :: "int option"

record battery_payload =
  bp_voltage :: pyfloat
  bp_current :: "pyfloat option"
  bp_percentage :: "pyfloat option"
  bp_charging :: bool

definition percent_of :: "pyfloat option \<Rightarrow> pyfloat option" where
  "percent_of p =
     (case p of
        Some (Fin a) \<Rightarrow> Some (Fin (if a \<le> 1 then round_rat 1 (a * 100) else round_rat 1 a))
      | _ \<Rightarrow> None)"

definition normalize_battery :: "battery_msg \<Rightarrow> pyfloat option \<Rightarrow> battery_payload option" where
  "normalize_battery b charge_voltage_min =
     (case ba_voltage b of
        None \<Rightarrow> None
      | Some voltage \<Rightarrow>
          if \<not> is_finite voltage then None else
          let claimed = (default 0 (ba_power_supply_status b) = 1);
              charging = (if claimed \<and> (case charge_voltage_min of None \<Rightarrow> False
                                        | Some v \<Rightarrow> pf_lt voltage v) then False else claimed)
          in Some \<lparr>bp_voltage = py_round 2 voltage, bp_current = finite_round (ba_current b) (Some 2),
                   bp_percentage = percent_of (ba_percentage b), bp_charging = charging\<rparr>)"

text \<open>A diagnostic status: its name, its level (raw bytes or a number) and its message.\<close>

datatype raw_level = Level_bytes "nat list" | Level_int int

definition DIAG_LEVEL_NAMES :: "(int \<times> diag_level) list" where
  "DIAG_LEVEL_NAMES = [(0, OK), (1, WARN), (2, ERROR), (3, STALE)]"

definition level_name :: "raw_level \<Rightarrow> diag_level" where
  "level_name l =
     (let n = (case l of Level_bytes [] \<Rightarrow> 3 | Level_bytes (b # _) \<Rightarrow> int b | Level_int i \<Rightarrow> i)
      in default STALE (dget DIAG_LEVEL_NAMES n))"

fun normalize_diag_items :: "string list \<Rightarrow> (string \<times> raw_level \<times> string) list \<Rightarrow> diagnostic_item list" where
  "normalize_diag_items seen [] = []"
| "normalize_diag_items seen ((name, lvl, msg) # rest) =
     (if name \<in> set seen then normalize_diag_items seen rest
      else \<lparr>di_name = name, di_level = level_name lvl, di_message = msg, di_values = None\<rparr>
           # normalize_diag_items (name # seen) rest)"

definition normalize_diagnostics :: "(string \<times> raw_level \<times> string) list \<Rightarrow> diagnostic_item list" where
  "normalize_diagnostics statuses = normalize_diag_items [] statuses"

text \<open>The bridge's own run-length coder; a run is kept as value and count.\<close>

definition bridge_encode_rle :: "int list \<Rightarrow> (int \<times> int) list" where
  "bridge_encode_rle cells =
     foldl (\<lambda>runs value. if runs \<noteq> [] \<and> fst (last runs) = value
              then butlast runs @ [(fst (last runs), snd (last runs) + 1)]
              else runs @ [(value, 1)]) [] cells"

text \<open>\<open>map_signature\<close>: width, height, number of cells and the sum of every \<open>k\<close>-th cell.\<close>

definition map_signature :: "int \<Rightarrow> int \<Rightarrow> int list \<Rightarrow> int \<times> int \<times> nat \<times> int" where
  "map_signature w h cells =
     (w, h, length cells,
      if cells \<noteq> [] then sum_list (every (max 1 (length cells div 512)) cells) else 0)"

subsection \<open>Properties\<close>

text \<open>
  The bridge never sends a motion sample the server would reject: whatever twist, ages,
  generation and epoch it is given, a produced sample passes the server's field bounds, rounding
  included, and its values are finite.
\<close>

theorem motion_sample_accepted_by_server:
  assumes "normalize_motion tx tz gen epoch egen sage rage = Some m"
  shows "valid_motion m \<and> is_finite (mo_linear_velocity m) \<and> is_finite (mo_angular_velocity m)"
proof -
  from assms obtain lin ang s r g eg where
    args: "tx = Some lin" "tz = Some ang" "sage = Some s" "rage = Some r" "gen = Some g" "egen = Some eg"
    by (auto simp: normalize_motion_def split: option.splits prod.splits)
  from assms obtain l a s' r' where
    fin: "lin = Fin l" "ang = Fin a" "s = Fin s'" "r = Fin r'"
    by (auto simp: normalize_motion_def args Let_def split: if_splits elim!: is_finiteE)
  have b: "l \<le> 5" "- 5 \<le> l" "a \<le> 10" "- 10 \<le> a" "0 \<le> s'" "s' \<le> 86400" "0 \<le> r'" "r' \<le> 86400"
    "0 \<le> g" "g \<le> 2 ^ 31 - 1" "0 \<le> eg" "eg \<le> 2 ^ 31 - 1" "length (default [] epoch) \<le> 128"
    using assms by (auto simp: normalize_motion_def args fin Let_def motion_bounds split: if_splits)
  have m: "m = \<lparr>mo_linear_velocity = Fin (round_rat 3 l), mo_angular_velocity = Fin (round_rat 3 a),
      mo_sample_age_s = Fin (round_rat 3 s'), mo_receipt_age_s = Fin (round_rat 3 r'),
      mo_session_generation = g, mo_odom_epoch = default [] epoch, mo_odom_epoch_generation = eg\<rparr>"
    using assms by (simp add: normalize_motion_def args fin Let_def split: if_splits)
  show ?thesis
    unfolding m valid_motion_def
    using b round_rat_le [of l 5 3] round_rat_ge [of "-5" l 3] round_rat_le [of a 10 3]
      round_rat_ge [of "-10" a 3] round_rat_ge [of 0 s' 3] round_rat_le [of s' 86400 3]
      round_rat_ge [of 0 r' 3] round_rat_le [of r' 86400 3]
    by simp
qed

theorem motion_sample_accepted_by_server_witness:
  "\<exists>m. normalize_motion (Some (Fin (49999 / 10000))) (Some (Fin 0)) (Some 3) None (Some 1)
      (Some (Fin (1 / 20))) (Some (Fin 0)) = Some m \<and> valid_motion m"
proof -
  obtain m where m: "normalize_motion (Some (Fin (49999 / 10000))) (Some (Fin 0)) (Some 3) None (Some 1)
      (Some (Fin (1 / 20))) (Some (Fin 0)) = Some m"
    by (simp add: normalize_motion_def motion_bounds)
  then show ?thesis using motion_sample_accepted_by_server [OF m] by blast
qed

text \<open>The bridge's coder is the server's, and the server's decoder undoes it.\<close>

lemma bridge_encode_rle_eq: "bridge_encode_rle cells = encode_rle cells"
proof -
  have "(\<lambda>runs value. if runs \<noteq> [] \<and> fst (last runs) = value
      then butlast runs @ [(fst (last runs), snd (last runs) + 1)] else runs @ [(value, 1)]) = extend_runs"
    by (auto simp: fun_eq_iff extend_runs_def)
  then show ?thesis unfolding bridge_encode_rle_def encode_rle_def by simp
qed

lemma stride_pos: "0 < stride_of n m"
  by (simp add: stride_of_def)

lemma stride_covers:
  assumes "0 < m"
  shows "(n + (stride_of n m - 1)) div stride_of n m \<le> m"
proof -
  have "n \<le> stride_of n m * m"
  proof (cases "n = 0")
    case False
    have "n \<le> (n + (m - 1)) div m * m"
      using assms div_mult_mod_eq [of "n + (m - 1)" m] mod_less_divisor [OF assms, of "n + (m - 1)"]
      by linarith
    also have "\<dots> \<le> stride_of n m * m" by (simp add: stride_of_def)
    finally show ?thesis .
  qed simp
  then have "n + (stride_of n m - 1) < Suc m * stride_of n m"
    using stride_pos [of n m] by (simp add: mult.commute)
  then show ?thesis
    using less_mult_imp_div_less [of "n + (stride_of n m - 1)" "Suc m" "stride_of n m"] by simp
qed

lemma length_every_stride: "0 < m \<Longrightarrow> length (every (stride_of (length xs) m) xs) \<le> m"
  using length_every [OF stride_pos, of "length xs" m xs] stride_covers [of m "length xs"] by simp

text \<open>
  Decimation keeps a scan within the requested number of points and a path within one more,
  keeps every surviving scan reading inside the sensor's band, and keeps the path's first and last
  pose, so the drawn route ends at the goal.
\<close>

theorem decimation_bounds:
  assumes "0 < max_points"
  shows "(\<exists>a i rs. normalize_scan scan max_points off mir = Some (a, i, rs) \<and> length rs \<le> max_points
      \<and> list_all (\<lambda>r. case r of None \<Rightarrow> True
          | Some v \<Rightarrow> is_finite v \<and> pf_le (sc_range_min scan) v \<and> pf_le v (sc_range_max scan)) rs)
    \<and> (\<exists>ps. normalize_path_points poses max_points = Some ps \<and> length ps \<le> Suc max_points
        \<and> (poses = [] \<or> ps \<noteq> []
            \<and> hd ps = (py_round 3 (fst (hd poses)), py_round 3 (snd (hd poses)))
            \<and> last ps = (py_round 3 (fst (last poses)), py_round 3 (snd (last poses)))))"
proof (intro conjI)
  have fin: "finite_round (Some r) (Some 2) = Some v \<Longrightarrow> is_finite v" for r v
    by (cases r) (auto simp: finite_round_def split: if_splits)
  show "\<exists>a i rs. normalize_scan scan max_points off mir = Some (a, i, rs) \<and> length rs \<le> max_points
      \<and> list_all (\<lambda>r. case r of None \<Rightarrow> True
          | Some v \<Rightarrow> is_finite v \<and> pf_le (sc_range_min scan) v \<and> pf_le v (sc_range_max scan)) rs"
    using assms length_every_stride [OF assms, of "sc_ranges scan"]
    by (auto simp: normalize_scan_def Let_def list_all_iff fin split: option.splits)
next
  let ?k = "stride_of (length poses) max_points"
  let ?f = "\<lambda>(x, y). (py_round 3 x, py_round 3 y)"
  let ?s = "sample_path poses ?k"
  have len: "length ?s \<le> Suc max_points"
    using length_every_stride [OF assms, of poses] by (simp add: sample_path_def Let_def)
  have ends: "?s \<noteq> [] \<and> hd ?s = hd poses \<and> last ?s = last poses" if "poses \<noteq> []"
    using that last_every [of ?k poses] stride_pos
    by (auto simp: sample_path_def Let_def hd_every)
  have res: "normalize_path_points poses max_points = Some (map ?f ?s)"
    using assms by (simp add: normalize_path_points_def)
  have "poses \<noteq> [] \<Longrightarrow> hd (map ?f ?s) = ?f (hd poses) \<and> last (map ?f ?s) = ?f (last poses)"
    using ends by (simp add: hd_map last_map)
  then show "\<exists>ps. normalize_path_points poses max_points = Some ps \<and> length ps \<le> Suc max_points
        \<and> (poses = [] \<or> ps \<noteq> []
            \<and> hd ps = (py_round 3 (fst (hd poses)), py_round 3 (snd (hd poses)))
            \<and> last ps = (py_round 3 (fst (last poses)), py_round 3 (snd (last poses))))"
    using res len ends by (auto simp: case_prod_unfold)
qed

theorem decimation_bounds_witness:
  "\<exists>ps. normalize_path_points [(Fin 0, Fin 0), (Fin 1, Fin 1), (Fin 2, Fin 5)] 2 = Some ps
     \<and> last ps = (py_round 3 (Fin 2), py_round 3 (Fin 5))"
  using decimation_bounds [of 2 "\<lparr>sc_ranges = [], sc_range_min = Fin 0, sc_range_max = Fin 9,
      sc_angle_min = 0, sc_angle_increment = 1\<rparr>" 0 False "[(Fin 0, Fin 0), (Fin 1, Fin 1), (Fin 2, Fin 5)]"]
  by auto

end
