(* ===== verification/Bridge_Teleop.thy ===== *)
theory Bridge_Teleop
  imports Tuning_Policy Bridge_Normalizers
begin

text \<open>
  Manual drive on the robot (\<open>patrolbot_web_bridge/teleop.py\<close>): the bridge's own reading of the
  runtime speed policy, the authorized session with its watchdog (\<open>TeleopSession\<close>), and the
  safety gate of the ROS glue (\<open>RosTeleop.safety\<close>).

  What the session calls is a parameter: \<open>session_env\<close> holds the clock (the \<open>k\<close>-th reading inside
  one operation), the verdict of \<open>safety()\<close>, what the policy callable returns, and whether the
  \<open>n\<close>-th publication of the session's life succeeds. Outputs are appended to a log, oldest first.
\<close>

subsection \<open>The bridge's policy reader\<close>

definition bridge_POLICY_MAX_AGE_S :: rat where "bridge_POLICY_MAX_AGE_S = 5"
definition bridge_POLICY_FUTURE_TOLERANCE_S :: rat where "bridge_POLICY_FUTURE_TOLERANCE_S = 1 / 2"
definition MAX_POLICY_GENERATION_LENGTH :: nat where "MAX_POLICY_GENERATION_LENGTH = 128"

definition bridge_GENERATION_ALNUM :: "char list" where
  "bridge_GENERATION_ALNUM =
     ''abcdefghijklmnopqrstuvwxyzABCDEFGHIJKLMNOPQRSTUVWXYZ0123456789''"
definition bridge_GENERATION_ALLOWED :: "char list" where
  "bridge_GENERATION_ALLOWED = bridge_GENERATION_ALNUM @ ''-_.:''"

record runtime_policy =
  rp_max_linear :: rat
  rp_max_angular :: rat
  rp_generation :: "string option"
  rp_dynamic :: bool

type_synonym signature = "bool \<times> rat \<times> rat \<times> string option"

definition rp_signature :: "runtime_policy \<Rightarrow> signature" where
  "rp_signature p = (rp_dynamic p, rp_max_linear p, rp_max_angular p, rp_generation p)"

definition rp_over :: "runtime_policy \<Rightarrow> rat \<Rightarrow> rat \<Rightarrow> bool" where
  "rp_over p lin ang =
     (rp_max_linear p + 1 / 10 ^ 9 < \<bar>lin\<bar> \<or> rp_max_angular p + 1 / 10 ^ 9 < \<bar>ang\<bar>)"

definition rp_limits :: "runtime_policy \<Rightarrow> rat \<times> rat" where
  "rp_limits p = (rp_max_linear p, rp_max_angular p)"

definition bridge_finite_number :: "pyval \<Rightarrow> rat option" where
  "bridge_finite_number v =
     (case v of
        VInt i \<Rightarrow> (case float_of_int i of None \<Rightarrow> None | Some x \<Rightarrow> rat_of x)
      | VFloat x \<Rightarrow> (if is_finite x then rat_of x else None)
      | _ \<Rightarrow> None)"

definition bridge_valid_generation :: "pyval \<Rightarrow> bool" where
  "bridge_valid_generation v =
     (case v of
        VStr s \<Rightarrow>
          if \<not> (1 \<le> length s \<and> length s \<le> MAX_POLICY_GENERATION_LENGTH) then False
          else if substring ''/'' s \<or> substring [CHR 0x5C] s \<or> substring ''..'' s then False
          else if \<not> list_ex (\<lambda>c. c \<in> set bridge_GENERATION_ALNUM) s then False
          else list_all (\<lambda>c. c \<in> set bridge_GENERATION_ALLOWED) s
      | _ \<Rightarrow> False)"

text \<open>The optional binding of a policy to a hardware session, \<open>bound\<close>.\<close>

definition binding_invalid :: "pyval \<Rightarrow> bool" where
  "binding_invalid v = (case v of VNone \<Rightarrow> False | VInt i \<Rightarrow> i < 0 | _ \<Rightarrow> True)"

definition parse_runtime_policy ::
  "rat \<Rightarrow> rat \<Rightarrow> raw_value \<Rightarrow> rat \<Rightarrow> policy_reason + runtime_policy" where
  "parse_runtime_policy hard_linear hard_angular raw now =
     (if raw = Raw_none then Inl Policy_missing else
      case bridge_finite_number (field_of raw ''max_linear_m_s'') of
        None \<Rightarrow> Inl Linear_not_finite | Some lin \<Rightarrow>
      if lin < 0 \<or> hard_linear < lin then Inl Linear_outside_envelope else
      case bridge_finite_number (field_of raw ''max_angular_rad_s'') of
        None \<Rightarrow> Inl Angular_not_finite | Some ang \<Rightarrow>
      if ang < 0 \<or> hard_angular < ang then Inl Angular_outside_envelope else
      if \<not> bridge_valid_generation (field_of raw ''generation'') then Inl Generation_not_canonical else
      case bridge_finite_number (field_of raw ''received_mono'') of
        None \<Rightarrow> Inl Receipt_invalid | Some received \<Rightarrow>
      if now + bridge_POLICY_FUTURE_TOLERANCE_S < received then Inl Receipt_in_future else
      if bridge_POLICY_MAX_AGE_S < now - received then Inl Policy_stale else
      if binding_invalid (field_of raw ''robot_generation'') then Inl Session_binding_invalid else
      Inr \<lparr>rp_max_linear = lin, rp_max_angular = ang,
           rp_generation = gen_text (field_of raw ''generation''), rp_dynamic = True\<rparr>)"

lemma bridge_finite_number_eq: "bridge_finite_number = finite_number"
  by (simp add: bridge_finite_number_def finite_number_def fun_eq_iff)

lemma bridge_valid_generation_eq: "bridge_valid_generation = valid_generation"
proof -
  have "bridge_GENERATION_ALNUM = GENERATION_ALNUM" "bridge_GENERATION_ALLOWED = GENERATION_ALLOWED"
    "MAX_POLICY_GENERATION_LENGTH = MAX_GENERATION_LENGTH"
    by (simp_all add: bridge_GENERATION_ALNUM_def bridge_GENERATION_ALLOWED_def GENERATION_ALNUM_def
        GENERATION_ALLOWED_def GENERATION_EXTRA_def MAX_POLICY_GENERATION_LENGTH_def MAX_GENERATION_LENGTH_def)
  then show ?thesis
    unfolding bridge_valid_generation_def [abs_def] valid_generation_def [abs_def] by (simp only:)
qed

lemma bridge_parse_evidence:
  "parse_runtime_policy hl ha raw now = Inr p \<Longrightarrow>
   policy_evidence hl ha raw now (rp_limits p) (rp_generation p) \<and> rp_dynamic p"
  by (auto simp: parse_runtime_policy_def policy_evidence_def rp_limits_def
      bridge_finite_number_eq bridge_valid_generation_eq
      bridge_POLICY_MAX_AGE_S_def bridge_POLICY_FUTURE_TOLERANCE_S_def
      split: option.splits if_splits)

interpretation bridge_policy: policy_reader "parse_runtime_policy hl ha" rp_limits rp_generation hl ha
  for hl ha
  by unfold_locales (simp add: bridge_parse_evidence)

text \<open>
  The two ends of the link agree on a speed policy. Every runtime value the server accepts is
  accepted by the bridge at the same moment under the same hard bounds, with the same caps and the
  same generation, and then the two ends refuse exactly the same velocity requests; a value the
  bridge refuses for being outside the envelope, stale or not canonical never passes the server.
\<close>

theorem server_policy_accepted_by_bridge:
  assumes "parse_policy raw now = Inr p"
  shows "\<exists>q. parse_runtime_policy HARD_MAX_LINEAR_M_S HARD_MAX_ANGULAR_RAD_S raw now = Inr q
    \<and> rp_limits q = policy_limits p \<and> rp_generation q = tp_generation p \<and> rp_dynamic q
    \<and> (\<forall>lin ang. rp_over q lin ang = over_policy p (Fin lin) (Fin ang))"
proof -
  let ?q = "\<lparr>rp_max_linear = tp_max_linear_m_s p, rp_max_angular = tp_max_angular_rad_s p,
    rp_generation = tp_generation p, rp_dynamic = True\<rparr>"
  note ev = parse_evidence [OF assms]
  have "raw \<noteq> Raw_none" using assms by (auto simp: parse_policy_def)
  moreover have "\<not> binding_invalid (field_of raw ''robot_generation'')"
    using ev by (auto simp: session_binding_def binding_invalid_def split: pyval.splits if_splits)
  ultimately have "parse_runtime_policy HARD_MAX_LINEAR_M_S HARD_MAX_ANGULAR_RAD_S raw now = Inr ?q"
    using ev
    by (auto simp: parse_runtime_policy_def policy_evidence_def policy_limits_def
        bridge_finite_number_eq bridge_valid_generation_eq bridge_POLICY_MAX_AGE_S_def
        bridge_POLICY_FUTURE_TOLERANCE_S_def split: option.splits)
  then show ?thesis
    by (simp add: rp_limits_def policy_limits_def rp_over_def over_policy_def)
qed

theorem server_policy_accepted_by_bridge_witness:
  "\<exists>q. parse_runtime_policy HARD_MAX_LINEAR_M_S HARD_MAX_ANGULAR_RAD_S example_policy 100 = Inr q
     \<and> rp_limits q = (1 / 5, 0)"
  using server_policy_accepted_by_bridge [OF example_policy_accepted]
  by (auto simp: policy_limits_def)

subsection \<open>The safety gate\<close>

definition HARDWARE_TIMEOUT_S :: rat where "HARDWARE_TIMEOUT_S = 1 / 2"

datatype safety_reason = Maintenance_hold | No_connection | No_fresh_hardware | Hardware_invalid
  | Lidar_stale | Odom_origin_invalid | Odom_missing | Odom_invalid | Odom_unreadable | Motors_off
  | Fault_or_estop | Not_clear_of_dock | Bumper_blocked | Other_action_active | Other_command_active
  | Reset_pending | Joystick_priority | Awaiting_idle | Topology_changed

text \<open>
  The odometry message: the eight values read from it (\<open>None\<close> where reading one raises) and its
  stamp in nanoseconds. A publisher path is the endpoint identities of the three topics.
\<close>

record odom_msg =
  om_values :: "pyfloat list option"
  om_stamp_ns :: int

type_synonym path_identity = "nat list list option"

record ros_state =
  sf_tuning_hold :: bool
  sf_now :: rat
  sf_ros_now_ns :: int
  sf_connected :: bool
  sf_base :: "bridge_base option"
  sf_base_at :: "rat option"
  sf_odom :: "odom_msg option"
  sf_odom_at :: "rat option"
  sf_action_active :: "bool list"
  sf_command_slots :: "bool list"
  sf_reset_blocked :: bool
  sf_manual_at :: "rat option"
  sf_idle_at :: "rat option"
  sf_session_active :: bool
  sf_path :: path_identity
  sf_writers :: path_identity

definition recent :: "rat \<Rightarrow> rat option \<Rightarrow> bool" where
  "recent now stamp = (case stamp of None \<Rightarrow> False | Some t \<Rightarrow> 0 \<le> now - t \<and> now - t \<le> HARDWARE_TIMEOUT_S)"

text \<open>\<open>0 <= age + (now - base_at) <= limit\<close> for a finite age.\<close>

definition aged_within :: "pyfloat \<Rightarrow> rat \<Rightarrow> bool" where
  "aged_within age extra =
     (case age of Fin a \<Rightarrow> 0 \<le> a + extra \<and> a + extra \<le> HARDWARE_TIMEOUT_S | _ \<Rightarrow> False)"

definition base_reason :: "bridge_base \<Rightarrow> rat \<Rightarrow> safety_reason option" where
  "base_reason b elapsed =
     (if \<not> bb_link_connected b \<or> \<not> bb_hardware_state_valid b
         \<or> \<not> aged_within (bb_telemetry_age b) elapsed then Some Hardware_invalid
      else if bb_lidar_state b \<noteq> ''READY'' \<or> \<not> is_finite (bb_lidar_scan_age b)
         \<or> pf_lt (bb_lidar_scan_age b) (Fin 0)
         \<or> pf_lt (Fin HARDWARE_TIMEOUT_S) (pf_add (bb_lidar_scan_age b) (Fin elapsed)) then Some Lidar_stale
      else if \<not> bb_odom_epoch_valid b then Some Odom_origin_invalid
      else None)"

definition odom_reason :: "odom_msg \<Rightarrow> int \<Rightarrow> safety_reason option" where
  "odom_reason m ros_now =
     (case om_values m of None \<Rightarrow> Some Odom_unreadable
      | Some vs \<Rightarrow>
          let age = of_int (ros_now - om_stamp_ns m) / 10 ^ 9 :: rat
          in if \<not> list_all is_finite vs \<or> \<not> (0 \<le> age \<and> age \<le> HARDWARE_TIMEOUT_S)
             then Some Odom_invalid else None)"

definition robot_reason :: "bridge_base \<Rightarrow> safety_reason option" where
  "robot_reason b =
     (if \<not> bb_motors_enabled b then Some Motors_off
      else if bb_estop_pressed b \<or> bb_fault_flags b \<noteq> 0 then Some Fault_or_estop
      else if \<not> bb_dock_state_valid b \<or> bb_dock_state b \<noteq> ''CLEAR_CONFIRMED'' then Some Not_clear_of_dock
      else if bb_bumpers_valid b \<noteq> Some True \<or> bb_bumpers_front b \<or> bb_bumpers_rear b then Some Bumper_blocked
      else None)"

definition owner_reason :: "ros_state \<Rightarrow> bridge_base \<Rightarrow> safety_reason option" where
  "owner_reason s b =
     (if bb_undock_active b \<or> list_ex id (sf_action_active s) then Some Other_action_active
      else if list_ex id (sf_command_slots s) then Some Other_command_active
      else if sf_reset_blocked s then Some Reset_pending
      else if recent (sf_now s) (sf_manual_at s) then Some Joystick_priority
      else if \<not> recent (sf_now s) (sf_idle_at s) then Some Awaiting_idle
      else if sf_session_active s \<and> sf_path s \<noteq> sf_writers s then Some Topology_changed
      else None)"

definition safety :: "ros_state \<Rightarrow> safety_reason option" where
  "safety s =
     (if sf_tuning_hold s then Some Maintenance_hold
      else if \<not> sf_connected s then Some No_connection
      else case sf_base s of None \<Rightarrow> Some No_fresh_hardware | Some b \<Rightarrow>
      if \<not> recent (sf_now s) (sf_base_at s) then Some No_fresh_hardware else
      (case base_reason b (sf_now s - the (sf_base_at s)) of Some r \<Rightarrow> Some r | None \<Rightarrow>
       case sf_odom s of None \<Rightarrow> Some Odom_missing | Some m \<Rightarrow>
       if \<not> recent (sf_now s) (sf_odom_at s) then Some Odom_missing else
       case odom_reason m (sf_ros_now_ns s) of Some r \<Rightarrow> Some r | None \<Rightarrow>
       case robot_reason b of Some r \<Rightarrow> Some r | None \<Rightarrow> owner_reason s b))"

lemmas safety_defs = safety_def base_reason_def odom_reason_def robot_reason_def owner_reason_def
  recent_def aged_within_def HARDWARE_TIMEOUT_S_def

subsection \<open>Session state and environment\<close>

text \<open>The packaged contract (\<open>config/web_teleop.json\<close>): watchdog and velocity limits.\<close>

record teleop_contract =
  tc_watchdog_ms :: rat
  tc_linear_min :: rat
  tc_linear_max :: rat
  tc_angular_min :: rat
  tc_angular_max :: rat

definition web_teleop_contract :: teleop_contract where
  "web_teleop_contract = \<lparr>tc_watchdog_ms = 300, tc_linear_min = - 3 / 10, tc_linear_max = 3 / 10,
     tc_angular_min = - 7 / 10, tc_angular_max = 7 / 10\<rparr>"

definition timeout_s :: "teleop_contract \<Rightarrow> rat" where
  "timeout_s c = tc_watchdog_ms c / 1000"

datatype end_reason = Unsafe safety_reason | Bad_policy policy_reason
  | Start_not_authorized | Already_owned | Session_already_ended | Start_stale | History_full
  | Zero_publication_failed | Changed_before_acceptance | Policy_changed_before_acceptance
  | Malformed_input | Connection_changed | Invalid_input | Arrived_too_late | Input_timed_out
  | Input_released | Policy_changed | Over_policy | Publication_failed | Buffers_not_clear
  | Watchdog_expired | Input_ended | Joystick_took_control | Maintenance_took_motion
  | Other_action_took_motion | Producer_changed | Bridge_closing | Transport_changed
  | Ended_by_command | Stop_not_authorized | No_sole_path | Then_zero_failed end_reason

datatype outcome = Ok_succeeded | Ok_failed | Ok_canceled | Ok_timeout

datatype teleop_out = Publish rat rat bool
  | Ack_out pyval bool "end_reason option"
  | Ready_out string
  | Result_out string outcome end_reason

record 'c teleop_session =
  ss_policy_signature :: "signature option"
  ss_command_id :: "string option"
  ss_context :: "'c option"
  ss_sequence :: int
  ss_last_received :: "rat option"
  ss_acknowledged :: bool
  ss_preparing_at :: "rat option"
  ss_seen :: "string list"
  ss_attempts :: nat
  ss_out :: "teleop_out list"

record session_env =
  en_clock :: "nat \<Rightarrow> rat"
  en_safety :: "safety_reason option"
  en_policy :: "raw_value option option"
  en_policy_required :: bool
  en_publish_ok :: "nat \<Rightarrow> bool"

definition session_new :: "'c teleop_session" where
  "session_new = \<lparr>ss_policy_signature = None, ss_command_id = None, ss_context = None,
     ss_sequence = -1, ss_last_received = None, ss_acknowledged = False, ss_preparing_at = None,
     ss_seen = [], ss_attempts = 0, ss_out = []\<rparr>"

definition session_active :: "'c teleop_session \<Rightarrow> bool" where
  "session_active s = (ss_command_id s \<noteq> None)"

definition emit :: "teleop_out list \<Rightarrow> 'c teleop_session \<Rightarrow> 'c teleop_session" where
  "emit os s = s\<lparr>ss_out := ss_out s @ os\<rparr>"

text \<open>One call of \<open>publish\<close>: it appends the command or raises (False).\<close>

definition do_publish :: "session_env \<Rightarrow> rat \<Rightarrow> rat \<Rightarrow> bool \<Rightarrow> 'c teleop_session \<Rightarrow> 'c teleop_session \<times> bool" where
  "do_publish e lin ang act s =
     (let s1 = s\<lparr>ss_attempts := Suc (ss_attempts s)\<rparr>
      in if en_publish_ok e (ss_attempts s) then (emit [Publish lin ang act] s1, True) else (s1, False))"

subsection \<open>Session operations\<close>

text \<open>\<open>_resolve_policy\<close>; clock reading \<open>k\<close> dates the check.\<close>

definition session_policy :: "teleop_contract \<Rightarrow> session_env \<Rightarrow> nat \<Rightarrow> policy_reason + runtime_policy" where
  "session_policy c e k =
     (let legacy = (if en_policy_required e then Inl Policy_required_unavailable
            else Inr \<lparr>rp_max_linear = tc_linear_max c, rp_max_angular = tc_angular_max c,
                      rp_generation = None, rp_dynamic = False\<rparr>)
      in case en_policy e of
           None \<Rightarrow> legacy
         | Some None \<Rightarrow> Inl Policy_unreadable
         | Some (Some raw) \<Rightarrow>
             if raw = Raw_none then legacy
             else parse_runtime_policy (tc_linear_max c) (tc_angular_max c) raw (en_clock e k))"

definition session_end ::
  "session_env \<Rightarrow> end_reason \<Rightarrow> outcome \<Rightarrow> 'c teleop_session \<Rightarrow> 'c teleop_session" where
  "session_end e reason outcome s =
     (let cleared = s\<lparr>ss_command_id := None, ss_context := None, ss_last_received := None,
            ss_acknowledged := False, ss_preparing_at := None, ss_policy_signature := None\<rparr>;
          (s1, ok) = do_publish e 0 0 False cleared;
          reason1 = (if ok then reason else Then_zero_failed reason);
          outcome1 = (if ok then outcome else Ok_failed)
      in case ss_command_id s of
           None \<Rightarrow> s1
         | Some cid \<Rightarrow>
             if ss_acknowledged s
             then emit [Result_out cid (if outcome1 = Ok_timeout then Ok_canceled else outcome1) reason1] s1
             else emit [Ack_out (VStr cid) False (Some reason1)] s1)"

definition valid_id :: "pyval \<Rightarrow> bool" where
  "valid_id v = (case v of VStr s \<Rightarrow> length s \<le> 128 \<and> uuid_canonical (py_lower s) | _ \<Rightarrow> False)"

definition confirm_start ::
  "teleop_contract \<Rightarrow> session_env \<Rightarrow> 'c \<Rightarrow> 'c teleop_session \<Rightarrow> 'c teleop_session \<times> bool" where
  "confirm_start c e context s =
     (case ss_command_id s of None \<Rightarrow> (s, False) | Some cid \<Rightarrow>
      if ss_acknowledged s then (s, False) else
      case en_safety e of Some r \<Rightarrow> (session_end e (Unsafe r) Ok_failed s, False) | None \<Rightarrow>
      if ss_context s \<noteq> Some context then (session_end e Changed_before_acceptance Ok_failed s, False) else
      case session_policy c e 0 of Inl r \<Rightarrow> (session_end e (Bad_policy r) Ok_failed s, False)
      | Inr p \<Rightarrow>
      if ss_policy_signature s \<noteq> Some (rp_signature p)
      then (session_end e Policy_changed_before_acceptance Ok_failed s, False)
      else (emit [Ack_out (VStr cid) True None, Ready_out cid]
              (s\<lparr>ss_acknowledged := True, ss_last_received := Some (en_clock e 1)\<rparr>), True))"


definition start_reason ::
  "teleop_contract \<Rightarrow> session_env \<Rightarrow> (string \<times> pyval) list \<Rightarrow> rat option
   \<Rightarrow> 'c teleop_session \<Rightarrow> end_reason + runtime_policy" where
  "start_reason c e data received_at s =
     (let v = default (VStr []) (dget data ''command_id'')
      in if dget data ''operator_authorized'' \<noteq> Some (VBool True) \<or> \<not> valid_id v
         then Inl Start_not_authorized
         else if session_active s then Inl Already_owned
         else if (case v of VStr cid \<Rightarrow> cid \<in> set (ss_seen s) | _ \<Rightarrow> False) then Inl Session_already_ended
         else if (case received_at of None \<Rightarrow> True
                  | Some t \<Rightarrow> \<not> (0 \<le> en_clock e 0 - t \<and> en_clock e 0 - t \<le> timeout_s c)) then Inl Start_stale
         else case en_safety e of Some r \<Rightarrow> Inl (Unsafe r)
         | None \<Rightarrow> (case session_policy c e 1 of Inl r \<Rightarrow> Inl (Bad_policy r) | Inr p \<Rightarrow> Inr p))"

definition SEEN_LIMIT :: nat where "SEEN_LIMIT = 4096"

text \<open>The environment \<open>e2\<close> serves the confirmation that follows at once unless it is deferred.\<close>

definition session_start ::
  "teleop_contract \<Rightarrow> session_env \<Rightarrow> session_env \<Rightarrow> (string \<times> pyval) list \<Rightarrow> 'c \<Rightarrow> rat option \<Rightarrow> bool
   \<Rightarrow> 'c teleop_session \<Rightarrow> 'c teleop_session \<times> bool" where
  "session_start c e e2 data context received_at defer_ack s =
     (let v = default (VStr []) (dget data ''command_id'');
          cid = (case v of VStr t \<Rightarrow> t | _ \<Rightarrow> [])
      in case start_reason c e data received_at s of
           Inl r \<Rightarrow> (emit [Ack_out v False (Some r)] s, False)
         | Inr p \<Rightarrow>
             let s0 = s\<lparr>ss_policy_signature := Some (rp_signature p)\<rparr>
             in if SEEN_LIMIT \<le> length (ss_seen s) then (emit [Ack_out v False (Some History_full)] s0, False)
                else
                  let s1 = s0\<lparr>ss_seen := ss_seen s @ [cid], ss_command_id := Some cid,
                         ss_context := Some context, ss_sequence := -1,
                         ss_last_received := Some (en_clock e 2),
                         ss_preparing_at := Some (en_clock e 3), ss_acknowledged := False\<rparr>;
                      (s2, ok) = do_publish e 0 0 False s1
                  in if \<not> ok then (session_end e Zero_publication_failed Ok_failed s2, False)
                     else if defer_ack then (s2, True)
                     else (fst (confirm_start c e2 context s2), True))"

text \<open>
  A JSON number of a velocity frame. \<open>math.isfinite\<close> raises \<open>OverflowError\<close> for an integer that
  exceeds the float range, and nothing in \<open>frame\<close> catches it.
\<close>

datatype number_class = Not_number | Not_finite | Too_large | Number rat

definition number_class_of :: "pyval \<Rightarrow> number_class" where
  "number_class_of v =
     (case v of
        VInt i \<Rightarrow> (case float_of_int i of None \<Rightarrow> Too_large | Some _ \<Rightarrow> Number (of_int i))
      | VFloat x \<Rightarrow> (case x of Fin a \<Rightarrow> Number a | _ \<Rightarrow> Not_finite)
      | _ \<Rightarrow> Not_number)"

datatype input_verdict = Input_bad | Input_raises | Input_ok int rat rat bool

definition check_numbers ::
  "teleop_contract \<Rightarrow> int \<Rightarrow> number_class \<Rightarrow> number_class \<Rightarrow> bool \<Rightarrow> input_verdict" where
  "check_numbers c seq lin ang deadman =
     (case (lin, ang) of
        (Not_number, _) \<Rightarrow> Input_bad
      | (_, Not_number) \<Rightarrow> Input_bad
      | (Too_large, _) \<Rightarrow> Input_raises
      | (Not_finite, _) \<Rightarrow> Input_bad
      | (_, Too_large) \<Rightarrow> Input_raises
      | (_, Not_finite) \<Rightarrow> Input_bad
      | (Number l, Number a) \<Rightarrow>
          if \<not> (tc_linear_min c \<le> l \<and> l \<le> tc_linear_max c)
             \<or> \<not> (tc_angular_min c \<le> a \<and> a \<le> tc_angular_max c)
             \<or> (\<not> deadman \<and> (l \<noteq> 0 \<or> a \<noteq> 0))
          then Input_bad else Input_ok seq l a deadman)"

definition check_input :: "teleop_contract \<Rightarrow> (string \<times> pyval) list \<Rightarrow> input_verdict" where
  "check_input c d =
     (case (dget d ''seq'', dget d ''linear'', dget d ''angular'', dget d ''deadman'') of
        (Some (VInt seq), Some lin, Some ang, Some (VBool deadman)) \<Rightarrow>
          if seq < 0 then Input_bad
          else check_numbers c seq (number_class_of lin) (number_class_of ang) deadman
      | _ \<Rightarrow> Input_bad)"

definition FRAME_KEYS :: "string list" where
  "FRAME_KEYS = [''command_id'', ''seq'', ''linear'', ''angular'', ''deadman'']"

definition frame_keys_ok :: "(string \<times> pyval) list \<Rightarrow> bool" where
  "frame_keys_ok d =
     (list_all (\<lambda>k. k \<in> set FRAME_KEYS) (dkeys d) \<and> list_all (\<lambda>k. k \<in> set (dkeys d)) FRAME_KEYS)"

datatype frame_result = Handled bool | Overflow_raised

text \<open>The part of \<open>frame\<close> after the input checks: freshness, release, policy, safety, publication.\<close>

definition accept_input ::
  "teleop_contract \<Rightarrow> session_env \<Rightarrow> rat \<Rightarrow> int \<Rightarrow> rat \<Rightarrow> rat \<Rightarrow> bool
   \<Rightarrow> 'c teleop_session \<Rightarrow> 'c teleop_session \<times> frame_result" where
  "accept_input c e received_at seq lin ang deadman s =
     (let now = en_clock e 0
      in if seq \<le> ss_sequence s then (s, Handled False)
         else if \<not> (0 \<le> now - received_at \<and> now - received_at \<le> timeout_s c)
         then (session_end e Arrived_too_late Ok_timeout s, Handled False)
         else if (case ss_last_received s of None \<Rightarrow> True
                  | Some t \<Rightarrow> \<not> (0 \<le> now - t \<and> now - t < timeout_s c))
         then (session_end e Input_timed_out Ok_timeout s, Handled False)
         else let s1 = s\<lparr>ss_sequence := seq\<rparr>
         in if \<not> deadman then (session_end e Input_released Ok_succeeded s1, Handled True)
            else case session_policy c e 1 of
              Inl r \<Rightarrow> (session_end e (Bad_policy r) Ok_failed s1, Handled False)
            | Inr p \<Rightarrow>
            if ss_policy_signature s1 \<noteq> Some (rp_signature p)
            then (session_end e Policy_changed Ok_failed s1, Handled False)
            else if rp_over p lin ang then (session_end e Over_policy Ok_failed s1, Handled False)
            else case en_safety e of
              Some r \<Rightarrow> (session_end e (Unsafe r) Ok_failed s1, Handled False)
            | None \<Rightarrow>
                (let (s2, ok) = do_publish e lin ang True (s1\<lparr>ss_last_received := Some now\<rparr>)
                 in if ok then (s2, Handled True)
                    else (session_end e Publication_failed Ok_failed s2, Handled False)))"

definition frame ::
  "teleop_contract \<Rightarrow> session_env \<Rightarrow> pyval \<Rightarrow> 'c \<Rightarrow> rat \<Rightarrow> 'c teleop_session
   \<Rightarrow> 'c teleop_session \<times> frame_result" where
  "frame c e data context received_at s =
     (case data of
        VDict d \<Rightarrow>
          if \<not> session_active s \<or> dget d ''command_id'' \<noteq> map_option VStr (ss_command_id s)
          then (s, Handled False)
          else if \<not> ss_acknowledged s then (s, Handled False)
          else if ss_context s \<noteq> Some context
          then (session_end e Connection_changed Ok_failed s, Handled False)
          else if \<not> frame_keys_ok d then (session_end e Malformed_input Ok_failed s, Handled False)
          else (case check_input c d of
             Input_raises \<Rightarrow> (s, Overflow_raised)
           | Input_bad \<Rightarrow> (session_end e Invalid_input Ok_failed s, Handled False)
           | Input_ok seq lin ang deadman \<Rightarrow> accept_input c e received_at seq lin ang deadman s)
      | _ \<Rightarrow> (session_end e Malformed_input Ok_failed s, Handled False))"

text \<open>\<open>tick\<close>; the two dates it reads are present in every active session (\<open>session_inv\<close>).\<close>

definition session_tick ::
  "teleop_contract \<Rightarrow> session_env \<Rightarrow> 'c \<Rightarrow> 'c teleop_session \<Rightarrow> 'c teleop_session" where
  "session_tick c e context s =
     (if \<not> session_active s then s
      else if ss_context s \<noteq> Some context then session_end e Connection_changed Ok_failed s
      else case en_safety e of Some r \<Rightarrow> session_end e (Unsafe r) Ok_failed s | None \<Rightarrow>
      case session_policy c e 0 of Inl r \<Rightarrow> session_end e (Bad_policy r) Ok_failed s | Inr p \<Rightarrow>
      if ss_policy_signature s \<noteq> Some (rp_signature p) then session_end e Policy_changed Ok_failed s
      else if \<not> ss_acknowledged s
      then (if 5 \<le> en_clock e 1 - default 0 (ss_preparing_at s)
            then session_end e Buffers_not_clear Ok_timeout s else s)
      else let elapsed = en_clock e 1 - default 0 (ss_last_received s)
      in if \<not> (0 \<le> elapsed \<and> elapsed < timeout_s c) then session_end e Watchdog_expired Ok_timeout s
         else s)"


subsection \<open>Lemmas on the primitives\<close>

text \<open>The motion commands among the outputs, and how often an id was accepted.\<close>

definition motions :: "teleop_out list \<Rightarrow> (rat \<times> rat) list" where
  "motions os = List.map_filter (\<lambda>out. case out of Publish l a True \<Rightarrow> Some (l, a) | _ \<Rightarrow> None) os"

definition accepts :: "string \<Rightarrow> teleop_out list \<Rightarrow> nat" where
  "accepts cid os = length (filter (\<lambda>out. out = Ack_out (VStr cid) True None) os)"

lemma motions_append [simp]: "motions (os @ ps) = motions os @ motions ps"
  by (simp add: motions_def map_filter_def)

lemma motions_simps [simp]:
  "motions [] = []" "motions (Publish l a b # os) = (if b then [(l, a)] else []) @ motions os"
  "motions (Ack_out v ok r # os) = motions os" "motions (Ready_out cid # os) = motions os"
  "motions (Result_out cid oc why # os) = motions os"
  by (auto simp: motions_def map_filter_def split: bool.splits)

lemma accepts_append [simp]: "accepts cid (os @ ps) = accepts cid os + accepts cid ps"
  by (simp add: accepts_def)

lemma accepts_simps [simp]:
  "accepts cid [] = 0" "accepts cid (Publish l a b # os) = accepts cid os"
  "accepts cid (Ack_out v ok r # os) = (if v = VStr cid \<and> ok \<and> r = None then 1 else 0) + accepts cid os"
  "accepts cid (Ready_out c # os) = accepts cid os"
  "accepts cid (Result_out c oc why # os) = accepts cid os"
  by (auto simp: accepts_def)

lemma emit_fields [simp]:
  "ss_command_id (emit os s) = ss_command_id s" "ss_context (emit os s) = ss_context s"
  "ss_sequence (emit os s) = ss_sequence s" "ss_last_received (emit os s) = ss_last_received s"
  "ss_acknowledged (emit os s) = ss_acknowledged s" "ss_preparing_at (emit os s) = ss_preparing_at s"
  "ss_policy_signature (emit os s) = ss_policy_signature s" "ss_seen (emit os s) = ss_seen s"
  "ss_attempts (emit os s) = ss_attempts s" "ss_out (emit os s) = ss_out s @ os"
  by (simp_all add: emit_def)

lemma publish_fields [simp]:
  "ss_command_id (fst (do_publish e l a b s)) = ss_command_id s"
  "ss_context (fst (do_publish e l a b s)) = ss_context s"
  "ss_sequence (fst (do_publish e l a b s)) = ss_sequence s"
  "ss_last_received (fst (do_publish e l a b s)) = ss_last_received s"
  "ss_acknowledged (fst (do_publish e l a b s)) = ss_acknowledged s"
  "ss_preparing_at (fst (do_publish e l a b s)) = ss_preparing_at s"
  "ss_policy_signature (fst (do_publish e l a b s)) = ss_policy_signature s"
  "ss_seen (fst (do_publish e l a b s)) = ss_seen s"
  "ss_attempts (fst (do_publish e l a b s)) = Suc (ss_attempts s)"
  "snd (do_publish e l a b s) = en_publish_ok e (ss_attempts s)"
  "ss_out (fst (do_publish e l a b s))
     = ss_out s @ (if en_publish_ok e (ss_attempts s) then [Publish l a b] else [])"
  by (simp_all add: do_publish_def Let_def)

text \<open>What closing a session appends: the zero, if its publication succeeds, and one terminal.\<close>

definition closing_outputs ::
  "session_env \<Rightarrow> end_reason \<Rightarrow> outcome \<Rightarrow> 'c teleop_session \<Rightarrow> teleop_out list" where
  "closing_outputs e reason oc s =
     (let ok = en_publish_ok e (ss_attempts s);
          reason1 = (if ok then reason else Then_zero_failed reason);
          oc1 = (if ok then oc else Ok_failed)
      in (if ok then [Publish 0 0 False] else [])
         @ (case ss_command_id s of None \<Rightarrow> []
            | Some cid \<Rightarrow> if ss_acknowledged s
                then [Result_out cid (if oc1 = Ok_timeout then Ok_canceled else oc1) reason1]
                else [Ack_out (VStr cid) False (Some reason1)]))"

lemma end_fields [simp]:
  "ss_command_id (session_end e r oc s) = None" "ss_context (session_end e r oc s) = None"
  "ss_sequence (session_end e r oc s) = ss_sequence s" "ss_last_received (session_end e r oc s) = None"
  "ss_acknowledged (session_end e r oc s) = False" "ss_preparing_at (session_end e r oc s) = None"
  "ss_policy_signature (session_end e r oc s) = None" "ss_seen (session_end e r oc s) = ss_seen s"
  "ss_attempts (session_end e r oc s) = Suc (ss_attempts s)"
  "ss_out (session_end e r oc s) = ss_out s @ closing_outputs e r oc s"
  by (simp_all add: session_end_def closing_outputs_def Let_def case_prod_beta split: option.splits)

lemma closing_simps [simp]:
  "motions (closing_outputs e r oc s) = []" "accepts cid (closing_outputs e r oc s) = 0"
  by (auto simp: closing_outputs_def Let_def split: option.splits)

lemma end_inactive [simp]: "\<not> session_active (session_end e r oc s)"
  by (simp add: session_active_def)

subsection \<open>The session invariant\<close>

text \<open>
  Every accepted or open id is in the history; an open session has a context, its dates and a
  policy signature; an id is accepted at most once, and not before its session is acknowledged.
\<close>

definition session_inv :: "'c teleop_session \<Rightarrow> bool" where
  "session_inv s \<longleftrightarrow>
     distinct (ss_seen s) \<and> length (ss_seen s) \<le> SEEN_LIMIT
     \<and> (\<forall>cid. accepts cid (ss_out s) \<le> (if cid \<in> set (ss_seen s) then 1 else 0))
     \<and> (case ss_command_id s of
          None \<Rightarrow> ss_context s = None \<and> ss_last_received s = None \<and> \<not> ss_acknowledged s
                  \<and> ss_preparing_at s = None
        | Some cid \<Rightarrow> cid \<in> set (ss_seen s) \<and> ss_context s \<noteq> None \<and> ss_last_received s \<noteq> None
                  \<and> ss_preparing_at s \<noteq> None \<and> ss_policy_signature s \<noteq> None
                  \<and> (\<not> ss_acknowledged s \<longrightarrow> accepts cid (ss_out s) = 0))"

lemma inv_new: "session_inv session_new"
  by (simp add: session_inv_def session_new_def)

lemma inv_end: "session_inv s \<Longrightarrow> session_inv (session_end e r oc s)"
  by (simp add: session_inv_def)

lemma inv_sequence [simp]: "session_inv (s\<lparr>ss_sequence := x\<rparr>) = session_inv s"
  by (cases "ss_command_id s") (simp_all add: session_inv_def)

lemma inv_publish [simp]: "session_inv (fst (do_publish e l a b s)) = session_inv s"
  by (cases "ss_command_id s") (simp_all add: session_inv_def)

lemma inv_received:
  "session_inv s \<Longrightarrow> ss_command_id s \<noteq> None \<Longrightarrow> session_inv (s\<lparr>ss_last_received := Some t\<rparr>)"
  by (auto simp: session_inv_def)

lemma inv_emit_refusal: "session_inv s \<Longrightarrow> session_inv (emit [Ack_out v False r] s)"
  by (cases "ss_command_id s") (simp_all add: session_inv_def)

lemma inv_confirm:
  assumes "session_inv s"
  shows "session_inv (fst (confirm_start c e ctx s))"
proof (cases "ss_command_id s")
  case (Some cid)
  then show ?thesis
    using assms
    by (auto simp: confirm_start_def inv_end split: option.splits sum.splits)
      (auto simp: session_inv_def split: if_splits)
qed (simp add: confirm_start_def assms)

lemma inv_accept_input:
  assumes "session_inv s" "session_active s"
  shows "session_inv (fst (accept_input c e rec seq lin ang dm s))"
proof -
  have pub: "session_inv (fst (do_publish e lin ang True (s\<lparr>ss_sequence := seq, ss_last_received := Some t\<rparr>)))" for t
    using inv_received [of "s\<lparr>ss_sequence := seq\<rparr>"] assms by (simp add: session_active_def)
  show ?thesis
    using assms pub
    by (simp add: accept_input_def Let_def case_prod_beta inv_end split: option.splits sum.splits)
qed

lemma inv_frame: "session_inv s \<Longrightarrow> session_inv (fst (frame c e data ctx rec s))"
  by (auto simp: frame_def inv_end inv_accept_input split: pyval.splits input_verdict.splits)

lemma inv_tick: "session_inv s \<Longrightarrow> session_inv (session_tick c e ctx s)"
  by (auto simp: session_tick_def Let_def inv_end split: option.splits sum.splits)

lemma start_reason_Inr:
  "start_reason c e data rec s = Inr p \<Longrightarrow>
   \<not> session_active s \<and> (\<exists>cid. dget data ''command_id'' = Some (VStr cid) \<and> cid \<notin> set (ss_seen s))
   \<and> dget data ''operator_authorized'' = Some (VBool True) \<and> en_safety e = None
   \<and> session_policy c e 1 = Inr p
   \<and> (\<exists>t. rec = Some t \<and> 0 \<le> en_clock e 0 - t \<and> en_clock e 0 - t \<le> timeout_s c)"
  by (auto simp: start_reason_def Let_def valid_id_def default_def uuid_canonical_def py_lower_def
      split: if_splits option.splits sum.splits pyval.splits)

lemma inv_start:
  assumes "session_inv s"
  shows "session_inv (fst (session_start c e e2 data ctx rec df s))"
proof (cases "start_reason c e data rec s")
  case (Inl r)
  then show ?thesis by (simp add: session_start_def Let_def inv_emit_refusal assms)
next
  case (Inr p)
  obtain cid where cid: "dget data ''command_id'' = Some (VStr cid)" "cid \<notin> set (ss_seen s)"
    "ss_command_id s = None"
    using start_reason_Inr [OF Inr] by (auto simp: session_active_def)
  let ?s0 = "s\<lparr>ss_policy_signature := Some (rp_signature p)\<rparr>"
  let ?s1 = "?s0\<lparr>ss_seen := ss_seen s @ [cid], ss_command_id := Some cid, ss_context := Some ctx,
    ss_sequence := -1, ss_last_received := Some (en_clock e 2), ss_preparing_at := Some (en_clock e 3),
    ss_acknowledged := False\<rparr>"
  have full: "session_inv (emit [Ack_out (VStr cid) False (Some History_full)] ?s0)"
    using assms cid(3) by (intro inv_emit_refusal) (simp add: session_inv_def)
  have fresh: "accepts cid (ss_out s) = 0"
    using assms cid(2) by (auto simp: session_inv_def dest: spec [of _ cid])
  have bound: "\<forall>x. accepts x (ss_out s) \<le> (if x \<in> set (ss_seen s @ [cid]) then 1 else 0)"
  proof
    fix x
    have "accepts x (ss_out s) \<le> (if x \<in> set (ss_seen s) then 1 else 0)"
      using assms by (simp add: session_inv_def)
    then show "accepts x (ss_out s) \<le> (if x \<in> set (ss_seen s @ [cid]) then 1 else 0)"
      using fresh by (cases "x = cid") auto
  qed
  have open_inv: "session_inv ?s1" if "length (ss_seen s) < SEEN_LIMIT"
    using assms cid(2) fresh that bound by (simp add: session_inv_def)
  have published: "session_inv (fst (do_publish e 0 0 False ?s1))" if "length (ss_seen s) < SEEN_LIMIT"
    using open_inv [OF that] by simp
  show ?thesis
    using full published
    by (auto simp: session_start_def Let_def Inr cid(1) case_prod_beta intro!: inv_end inv_confirm)
qed

subsection \<open>Runs of a session\<close>

inductive session_step :: "teleop_contract \<Rightarrow> 'c teleop_session \<Rightarrow> 'c teleop_session \<Rightarrow> bool"
  for c :: teleop_contract where
  step_start: "session_step c s (fst (session_start c e e2 data ctx rec df s))"
| step_confirm: "session_step c s (fst (confirm_start c e ctx s))"
| step_frame: "session_step c s (fst (frame c e data ctx rec s))"
| step_tick: "session_step c s (session_tick c e ctx s)"
| step_end: "session_step c s (session_end e reason oc s)"

inductive session_reachable :: "teleop_contract \<Rightarrow> 'c teleop_session \<Rightarrow> bool"
  for c :: teleop_contract where
  reach_new: "session_reachable c session_new"
| reach_step: "session_reachable c s \<Longrightarrow> session_step c s s' \<Longrightarrow> session_reachable c s'"

inductive_cases session_stepE: "session_step c s s'"

lemma inv_step: "session_step c s s' \<Longrightarrow> session_inv s \<Longrightarrow> session_inv s'"
  by (erule session_stepE) (auto intro: inv_start inv_confirm inv_frame inv_tick inv_end)

lemma inv_reachable: "session_reachable c s \<Longrightarrow> session_inv s"
  by (induction rule: session_reachable.induct) (auto intro: inv_new inv_step)

text \<open>Outside \<open>frame\<close> no operation asks for motion.\<close>

lemma end_motions: "motions (ss_out (session_end e r oc s)) = motions (ss_out s)"
  by simp

lemma confirm_motions: "motions (ss_out (fst (confirm_start c e ctx s))) = motions (ss_out s)"
  by (simp add: confirm_start_def split: option.splits sum.splits)

lemma start_motions:
  "motions (ss_out (fst (session_start c e e2 data ctx rec df s))) = motions (ss_out s)"
  by (simp add: session_start_def Let_def case_prod_beta confirm_motions split: sum.splits)

lemma tick_motions: "motions (ss_out (session_tick c e ctx s)) = motions (ss_out s)"
  by (simp add: session_tick_def Let_def split: option.splits sum.splits)

text \<open>
  What a published motion command implies: the frame's environment, its speeds and the session
  before it.
\<close>

definition motion_guard ::
  "teleop_contract \<Rightarrow> session_env \<Rightarrow> 'c \<Rightarrow> rat \<Rightarrow> rat \<Rightarrow> rat \<Rightarrow> 'c teleop_session \<Rightarrow> 'c teleop_session \<Rightarrow> bool" where
  "motion_guard c e ctx rec l a s s' \<longleftrightarrow>
     session_active s \<and> ss_acknowledged s \<and> ss_context s = Some ctx
     \<and> ss_sequence s < ss_sequence s'
     \<and> 0 \<le> en_clock e 0 - rec \<and> en_clock e 0 - rec \<le> timeout_s c
     \<and> (\<exists>t. ss_last_received s = Some t \<and> 0 \<le> en_clock e 0 - t \<and> en_clock e 0 - t < timeout_s c)
     \<and> en_safety e = None
     \<and> (\<exists>p. session_policy c e 1 = Inr p \<and> ss_policy_signature s = Some (rp_signature p)
          \<and> \<not> rp_over p l a)
     \<and> tc_linear_min c \<le> l \<and> l \<le> tc_linear_max c \<and> tc_angular_min c \<le> a \<and> a \<le> tc_angular_max c"

lemma check_input_ok:
  "check_input c d = Input_ok seq l a dm \<Longrightarrow>
   0 \<le> seq \<and> tc_linear_min c \<le> l \<and> l \<le> tc_linear_max c \<and> tc_angular_min c \<le> a \<and> a \<le> tc_angular_max c
   \<and> (\<not> dm \<longrightarrow> l = 0 \<and> a = 0)"
  by (auto simp: check_input_def check_numbers_def
      split: option.splits pyval.splits if_splits number_class.splits)

lemma accept_motions:
  assumes "session_active s" "ss_acknowledged s" "ss_context s = Some ctx"
    "tc_linear_min c \<le> l" "l \<le> tc_linear_max c" "tc_angular_min c \<le> a" "a \<le> tc_angular_max c"
    "s' = fst (accept_input c e rec seq l a dm s)"
  shows "motions (ss_out s') = motions (ss_out s)
    \<or> motions (ss_out s') = motions (ss_out s) @ [(l, a)] \<and> motion_guard c e ctx rec l a s s'"
  using assms(1-7) unfolding assms(8)
  by (auto simp: accept_input_def motion_guard_def Let_def case_prod_beta
      split: option.splits sum.splits if_splits)

lemma frame_motions:
  "motions (ss_out (fst (frame c e data ctx rec s))) = motions (ss_out s)
   \<or> (\<exists>l a. motions (ss_out (fst (frame c e data ctx rec s))) = motions (ss_out s) @ [(l, a)]
        \<and> motion_guard c e ctx rec l a s (fst (frame c e data ctx rec s)))"
proof (cases "\<exists>d seq l a dm. data = VDict d \<and> session_active s \<and> ss_acknowledged s
    \<and> ss_context s = Some ctx \<and> check_input c d = Input_ok seq l a dm
    \<and> frame c e data ctx rec s = accept_input c e rec seq l a dm s")
  case True
  then obtain d seq l a dm where f: "session_active s" "ss_acknowledged s" "ss_context s = Some ctx"
    "check_input c d = Input_ok seq l a dm" "frame c e data ctx rec s = accept_input c e rec seq l a dm s"
    by blast
  show ?thesis
    using accept_motions [OF f(1-3) _ _ _ _ refl, of c l a e rec seq dm] check_input_ok [OF f(4)]
    unfolding f(5) by blast
next
  case False
  then have "motions (ss_out (fst (frame c e data ctx rec s))) = motions (ss_out s)"
    by (auto simp: frame_def split: pyval.splits input_verdict.splits if_splits)
  then show ?thesis ..
qed

text \<open>
  The robot moves only on a guarded frame. In any step of a session, whatever the clock,
  the safety verdict, the policy source and the publisher do, at most one motion command is
  published, and only by a velocity frame that arrives for the open, acknowledged session on its
  own connection with a newer sequence number, received and following the previous one within
  the watchdog time, while the safety gate passes and the speed policy is readable, unchanged
  since the session started and not exceeded, with both speeds inside the contract's limits.
\<close>

theorem motion_only_from_guarded_frame:
  assumes "session_step c s s'"
  shows "motions (ss_out s') = motions (ss_out s)
    \<or> (\<exists>l a e ctx rec. motions (ss_out s') = motions (ss_out s) @ [(l, a)]
         \<and> motion_guard c e ctx rec l a s s')"
  using assms
proof cases
  case (step_frame e data ctx rec)
  then show ?thesis using frame_motions [of c e data ctx rec s] by blast
qed (simp_all add: start_motions confirm_motions tick_motions end_motions)

definition calm :: "(nat \<Rightarrow> rat) \<Rightarrow> session_env" where
  "calm clock = \<lparr>en_clock = clock, en_safety = None, en_policy = None, en_policy_required = False,
     en_publish_ok = \<lambda>_. True\<rparr>"

definition example_id :: string where
  "example_id = ''123e4567-e89b-12d3-a456-426614174000''"

definition example_session :: "nat teleop_session" where
  "example_session = fst (session_start web_teleop_contract (calm (\<lambda>_. 10)) (calm (\<lambda>_. 10))
     [(''command_id'', VStr example_id), (''operator_authorized'', VBool True)] 1 (Some 10) False
     session_new)"

definition example_frame :: "bool \<Rightarrow> pyval" where
  "example_frame dm = VDict [(''command_id'', VStr example_id), (''seq'', VInt 4),
     (''linear'', VFloat (Fin (if dm then 1 / 5 else 0))), (''angular'', VInt 0), (''deadman'', VBool dm)]"


lemmas session_eval = session_start_def start_reason_def confirm_start_def session_policy_def
  do_publish_def emit_def frame_def accept_input_def check_input_def check_numbers_def
  number_class_of_def float_of_int_def frame_keys_ok_def FRAME_KEYS_def dkeys_def session_active_def
  timeout_s_def web_teleop_contract_def calm_def session_new_def valid_id_def uuid_canonical_def
  lower_hex_def py_string_defs example_id_def SEEN_LIMIT_def rp_signature_def rp_over_def

lemma example_session_eval:
  "example_session = \<lparr>ss_policy_signature = Some (False, 3 / 10, 7 / 10, None),
     ss_command_id = Some example_id, ss_context = Some 1, ss_sequence = -1, ss_last_received = Some 10,
     ss_acknowledged = True, ss_preparing_at = Some 10, ss_seen = [example_id], ss_attempts = 1,
     ss_out = [Publish 0 0 False, Ack_out (VStr example_id) True None, Ready_out example_id]\<rparr>"
  unfolding example_session_def by (simp add: session_eval upt_rec)

lemma example_reachable: "session_reachable web_teleop_contract example_session"
  unfolding example_session_def by (intro reach_step [OF reach_new] step_start)

lemma example_frame_motion:
  "motions (ss_out (fst (frame web_teleop_contract (calm (\<lambda>_. 10)) (example_frame True) 1 10 example_session)))
     = [(1 / 5, 0)]"
  by (simp add: example_session_eval example_frame_def session_eval)

theorem motion_only_from_guarded_frame_witness:
  "\<exists>s' l a e ctx rec. session_step web_teleop_contract example_session s'
     \<and> motions (ss_out s') = [(l, a)]
     \<and> motion_guard web_teleop_contract e ctx rec l a example_session s'"
proof -
  let ?s' = "fst (frame web_teleop_contract (calm (\<lambda>_. 10)) (example_frame True) 1 10 example_session)"
  have step: "session_step web_teleop_contract example_session ?s'" by (rule step_frame)
  have none: "motions (ss_out example_session) = []" by (simp add: example_session_eval)
  show ?thesis
    using motion_only_from_guarded_frame [OF step] step example_frame_motion none by fastforce
qed

text \<open>
  A manual session survives a watchdog tick only while everything holds. If the session is
  still open after a tick, the tick changed nothing, the connection context is the one it started
  on, the safety gate passes, the speed policy is readable and is the one it started with, and
  less than the watchdog time has passed since the last input (or, before acknowledgement, less
  than five seconds of preparation). Otherwise it is closed and, unless its publication fails, a
  zero velocity is sent before the terminal message.
\<close>

theorem tick_closes_unhealthy_session:
  assumes "session_active s" "session_inv s"
  shows "(session_active (session_tick c e ctx s) \<longrightarrow>
       session_tick c e ctx s = s \<and> ss_context s = Some ctx \<and> en_safety e = None
       \<and> (\<exists>p. session_policy c e 0 = Inr p \<and> ss_policy_signature s = Some (rp_signature p))
       \<and> (if ss_acknowledged s
          then \<exists>t. ss_last_received s = Some t \<and> 0 \<le> en_clock e 1 - t \<and> en_clock e 1 - t < timeout_s c
          else \<exists>t. ss_preparing_at s = Some t \<and> en_clock e 1 - t < 5))
    \<and> (session_active (session_tick c e ctx s) \<or>
       (\<exists>reason oc. session_tick c e ctx s = session_end e reason oc s
          \<and> ss_out (session_tick c e ctx s) = ss_out s @ closing_outputs e reason oc s
          \<and> (en_publish_ok e (ss_attempts s) \<longrightarrow> hd (closing_outputs e reason oc s) = Publish 0 0 False)))"
proof -
  have "\<exists>t. ss_last_received s = Some t" "\<exists>u. ss_preparing_at s = Some u"
    using assms by (auto simp: session_inv_def session_active_def)
  then obtain t u where dates: "ss_last_received s = Some t" "ss_preparing_at s = Some u" by blast
  have cases: "session_tick c e ctx s = s \<or> (\<exists>reason oc. session_tick c e ctx s = session_end e reason oc s)"
    by (auto simp: session_tick_def Let_def split: option.splits sum.splits)
  have zero: "hd (closing_outputs e reason oc s) = Publish 0 0 False"
    if "en_publish_ok e (ss_attempts s)" for reason oc
    using that by (simp add: closing_outputs_def)
  have live: "session_active (session_tick c e ctx s) \<longrightarrow>
       session_tick c e ctx s = s \<and> ss_context s = Some ctx \<and> en_safety e = None
       \<and> (\<exists>p. session_policy c e 0 = Inr p \<and> ss_policy_signature s = Some (rp_signature p))
       \<and> (if ss_acknowledged s
          then \<exists>t. ss_last_received s = Some t \<and> 0 \<le> en_clock e 1 - t \<and> en_clock e 1 - t < timeout_s c
          else \<exists>t. ss_preparing_at s = Some t \<and> en_clock e 1 - t < 5)"
    using assms(1)
    by (auto simp: session_tick_def dates Let_def split: option.splits sum.splits if_splits)
  show ?thesis
  proof (cases "session_active (session_tick c e ctx s)")
    case True
    then show ?thesis using live by blast
  next
    case False
    then obtain reason oc where "session_tick c e ctx s = session_end e reason oc s"
      using cases assms(1) by metis
    then have "session_tick c e ctx s = session_end e reason oc s
        \<and> ss_out (session_tick c e ctx s) = ss_out s @ closing_outputs e reason oc s
        \<and> (en_publish_ok e (ss_attempts s) \<longrightarrow> hd (closing_outputs e reason oc s) = Publish 0 0 False)"
      using zero by simp
    then show ?thesis using False by blast
  qed
qed

theorem tick_closes_unhealthy_session_witness:
  "session_active example_session
   \<and> \<not> session_active (session_tick web_teleop_contract (calm (\<lambda>_. 11)) 1 example_session)"
proof -
  have act: "session_active example_session" by (simp add: example_session_eval session_active_def)
  show ?thesis
    using tick_closes_unhealthy_session [OF act inv_reachable [OF example_reachable],
        of web_teleop_contract "calm (\<lambda>_. 11)" 1] act
    by (auto simp: example_session_eval timeout_s_def web_teleop_contract_def calm_def)
qed

text \<open>
  Closed manual sessions never re-open. In every state a run of session operations reaches,
  each session id has been acknowledged as accepted at most once, a start for an id already in the
  history is refused and leaves the session as it was, and the history holds at most 4096 ids, at
  which point starts are refused instead of an id being forgotten.
\<close>

theorem closed_sessions_never_reopen:
  assumes "session_reachable c s"
  shows "accepts cid (ss_out s) \<le> 1 \<and> length (ss_seen s) \<le> 4096
    \<and> (cid \<in> set (ss_seen s) \<and> dget data ''command_id'' = Some (VStr cid)
        \<or> SEEN_LIMIT \<le> length (ss_seen s)
       \<longrightarrow> (\<not> snd (session_start c e e2 data ctx rec df s)
          \<and> ss_command_id (fst (session_start c e e2 data ctx rec df s)) = ss_command_id s
          \<and> ss_acknowledged (fst (session_start c e e2 data ctx rec df s)) = ss_acknowledged s
          \<and> (\<exists>v r. ss_out (fst (session_start c e e2 data ctx rec df s))
                = ss_out s @ [Ack_out v False (Some r)])))"
proof -
  note inv = inv_reachable [OF assms]
  have "accepts cid (ss_out s) \<le> (if cid \<in> set (ss_seen s) then 1 else 0)"
    using inv by (simp add: session_inv_def)
  then have once: "accepts cid (ss_out s) \<le> 1" by (simp split: if_splits)
  show ?thesis
  proof (cases "start_reason c e data rec s")
    case (Inl r)
    then show ?thesis using once inv
      by (simp add: session_start_def Let_def session_inv_def SEEN_LIMIT_def)
  next
    case (Inr p)
    then show ?thesis using once inv start_reason_Inr [OF Inr]
      by (auto simp: session_start_def Let_def session_inv_def SEEN_LIMIT_def)
  qed
qed

theorem closed_sessions_never_reopen_witness:
  "accepts example_id (ss_out (session_end (calm (\<lambda>_. 10)) Input_ended Ok_canceled example_session)) \<le> 1
   \<and> \<not> snd (session_start web_teleop_contract (calm (\<lambda>_. 10)) (calm (\<lambda>_. 10))
       [(''command_id'', VStr example_id), (''operator_authorized'', VBool True)] 1 (Some 10) False
       (session_end (calm (\<lambda>_. 10)) Input_ended Ok_canceled example_session))"
  using closed_sessions_never_reopen [OF reach_step [OF example_reachable step_end],
      of example_id "calm (\<lambda>_. 10)" Input_ended Ok_canceled
         "[(''command_id'', VStr example_id), (''operator_authorized'', VBool True)]"]
  by (simp add: example_session_eval)

text \<open>
  Releasing the joystick always reaches the robot. A zero frame without deadman for the open,
  acknowledged session, newer than the last one and inside the watchdog time, closes the session
  and sends the zero command whatever the safety verdict and the policy source say.
\<close>

theorem release_always_honoured:
  assumes "session_inv s" "ss_command_id s = Some cid" "ss_acknowledged s" "ss_context s = Some ctx"
    "ss_last_received s = Some t" "0 \<le> en_clock e 0 - t" "en_clock e 0 - t < timeout_s c"
    "0 \<le> en_clock e 0 - rec" "en_clock e 0 - rec \<le> timeout_s c"
    "dget d ''command_id'' = Some (VStr cid)" "frame_keys_ok d"
    "check_input c d = Input_ok seq 0 0 False" "ss_sequence s < seq"
  shows "frame c e (VDict d) ctx rec s
      = (session_end e Input_released Ok_succeeded (s\<lparr>ss_sequence := seq\<rparr>), Handled True)
    \<and> \<not> session_active (fst (frame c e (VDict d) ctx rec s))
    \<and> (en_publish_ok e (ss_attempts s) \<longrightarrow>
        ss_out (fst (frame c e (VDict d) ctx rec s))
          = ss_out s @ [Publish 0 0 False, Result_out cid Ok_succeeded Input_released])"
proof -
  have "frame c e (VDict d) ctx rec s
      = (session_end e Input_released Ok_succeeded (s\<lparr>ss_sequence := seq\<rparr>), Handled True)"
    using assms by (simp add: frame_def session_active_def accept_input_def Let_def)
  then show ?thesis using assms(2,3) by (simp add: closing_outputs_def)
qed

theorem release_always_honoured_witness:
  "\<not> session_active (fst (frame web_teleop_contract
      ((calm (\<lambda>_. 10))\<lparr>en_safety := Some Motors_off, en_policy := Some None\<rparr>)
      (example_frame False) 1 10 example_session))"
  using release_always_honoured [OF inv_reachable [OF example_reachable], of example_id 1 10
      "(calm (\<lambda>_. 10))\<lparr>en_safety := Some Motors_off, en_policy := Some None\<rparr>" web_teleop_contract 10
      "[(''command_id'', VStr example_id), (''seq'', VInt 4), (''linear'', VFloat (Fin 0)),
        (''angular'', VInt 0), (''deadman'', VBool False)]" 4]
  by (simp add: example_session_eval session_eval example_frame_def)

text \<open>
  The bridge's safety gate is the last check before motion. When it passes, no maintenance
  holds the robot, the dashboard link is up, drive-base and odometry readings are at most half a
  second old, the drive base vouches for itself and its clock, the LiDAR is ready, motors are on,
  no fault or emergency stop is active, the robot is confirmed clear of its dock, both bumpers are
  vouched for and free, and neither a command, an action, a software reset nor the physical
  joystick owns the robot.
\<close>

theorem bridge_safety_sound:
  assumes "safety s = None"
  shows "\<not> sf_tuning_hold s \<and> sf_connected s \<and> \<not> sf_reset_blocked s
    \<and> list_all (\<lambda>x. \<not> x) (sf_action_active s) \<and> list_all (\<lambda>x. \<not> x) (sf_command_slots s)
    \<and> recent (sf_now s) (sf_base_at s) \<and> recent (sf_now s) (sf_odom_at s) \<and> recent (sf_now s) (sf_idle_at s)
    \<and> \<not> recent (sf_now s) (sf_manual_at s) \<and> (sf_session_active s \<longrightarrow> sf_path s = sf_writers s)
    \<and> (\<exists>b. sf_base s = Some b \<and> bb_link_connected b \<and> bb_hardware_state_valid b
        \<and> bb_lidar_state b = ''READY'' \<and> bb_odom_epoch_valid b \<and> bb_motors_enabled b
        \<and> \<not> bb_estop_pressed b \<and> bb_fault_flags b = 0 \<and> bb_dock_state_valid b
        \<and> bb_dock_state b = ''CLEAR_CONFIRMED'' \<and> bb_bumpers_valid b = Some True
        \<and> \<not> bb_bumpers_front b \<and> \<not> bb_bumpers_rear b \<and> \<not> bb_undock_active b)"
proof -
  from assms obtain b where b: "\<not> sf_tuning_hold s" "sf_connected s" "sf_base s = Some b"
    "recent (sf_now s) (sf_base_at s)" "base_reason b (sf_now s - the (sf_base_at s)) = None"
    "recent (sf_now s) (sf_odom_at s)" "robot_reason b = None" "owner_reason s b = None"
    by (auto simp: safety_def split: if_splits option.splits)
  have "bb_link_connected b \<and> bb_hardware_state_valid b \<and> bb_lidar_state b = ''READY'' \<and> bb_odom_epoch_valid b"
    using b(5) by (simp add: base_reason_def split: if_splits)
  moreover have "bb_motors_enabled b \<and> \<not> bb_estop_pressed b \<and> bb_fault_flags b = 0 \<and> bb_dock_state_valid b
      \<and> bb_dock_state b = ''CLEAR_CONFIRMED'' \<and> bb_bumpers_valid b = Some True
      \<and> \<not> bb_bumpers_front b \<and> \<not> bb_bumpers_rear b"
    using b(7) by (simp add: robot_reason_def split: if_splits)
  moreover have "\<not> bb_undock_active b \<and> list_all (\<lambda>x. \<not> x) (sf_action_active s)
      \<and> list_all (\<lambda>x. \<not> x) (sf_command_slots s) \<and> \<not> sf_reset_blocked s
      \<and> \<not> recent (sf_now s) (sf_manual_at s) \<and> recent (sf_now s) (sf_idle_at s)
      \<and> (sf_session_active s \<longrightarrow> sf_path s = sf_writers s)"
    using b(8) by (auto simp: owner_reason_def list_ex_iff list_all_iff split: if_splits)
  ultimately show ?thesis using b(1-4,6) by simp
qed

definition example_base_msg :: base_msg where
  "example_base_msg = \<lparr>bm_charge_state = 0, bm_charge_state_valid = Some True, bm_bumpers_valid = Some True,
     bm_front_bumper_pressed = False, bm_rear_bumper_pressed = False, bm_dock_state_valid = Some True,
     bm_dock_state = Some '' CLEAR_CONFIRMED '', bm_lidar_state = Some ''READY'',
     bm_lidar_power_supported = Some True, bm_lidar_scan_age = Some (Fin (1 / 10)), bm_session_generation = 4,
     bm_link_connected = True, bm_telemetry_age = Fin (1 / 20), bm_hardware_state_valid = True,
     bm_motors_enabled = True, bm_estop_pressed = False, bm_fault_flags = 0, bm_stall_value = 0,
     bm_operation_fault_reason = None, bm_operation_fault_request_id = None,
     bm_operation_outcome_unknown = None, bm_dock_phase = None, bm_dock_phase_name = None,
     bm_undock_active = Some False, bm_undock_release_attempts = None, bm_minimum_rear_range = None,
     bm_rear_sonar_usable = None, bm_redock_inhibited = None, bm_redock_inhibit_remaining = None,
     bm_undock_profile_commissioned = None, bm_odom_epoch_valid = Some True,
     bm_localization_recovery_required = None, bm_localization_recovery_stage = None,
     bm_localization_seed_stamp_ns = None\<rparr>"

definition example_ros_state :: ros_state where
  "example_ros_state = \<lparr>sf_tuning_hold = False, sf_now = 100, sf_ros_now_ns = 7000000000, sf_connected = True,
     sf_base = Some (normalize_base_state example_base_msg), sf_base_at = Some 100,
     sf_odom = Some \<lparr>om_values = Some [Fin 0, Fin 0], om_stamp_ns = 6900000000\<rparr>, sf_odom_at = Some 100,
     sf_action_active = [False], sf_command_slots = [False], sf_reset_blocked = False, sf_manual_at = Some 90,
     sf_idle_at = Some 100, sf_session_active = False, sf_path = None, sf_writers = None\<rparr>"

lemma example_ros_state_safe: "safety example_ros_state = None"
  by (simp add: example_ros_state_def example_base_msg_def normalize_base_state_def safety_defs
      dock_name_def py_string_defs finite_round_def round_rat_def round_half_even_def)

theorem bridge_safety_sound_witness:
  "safety example_ros_state = None \<and> \<not> sf_reset_blocked example_ros_state"
  using bridge_safety_sound [OF example_ros_state_safe] example_ros_state_safe by blast

end
