(* ===== verification/Status.thy ===== *)
theory Status
  imports Messages
begin

text \<open>
  The one-line robot status and the per-subsystem health card
  (\<open>server/app/telemetry/status.py\<close>). Sentences are constructors: one of \<open>status_detail\<close> per
  status sentence, one of \<open>health_message\<close> per \<open>add(...)\<close> call, standing for its message and its
  suggested action together. The time stamp of a subsystem is left out.
\<close>

subsection \<open>Freshness\<close>

definition MAX_BASE_STATE_AGE_S :: rat where "MAX_BASE_STATE_AGE_S = 15"
definition MAX_BATTERY_AGE_S :: rat where "MAX_BATTERY_AGE_S = 30"
definition MAX_DIAGNOSTICS_AGE_S :: rat where "MAX_DIAGNOSTICS_AGE_S = 30"
definition MAX_POSE_AGE_S :: rat where "MAX_POSE_AGE_S = 15"
definition MAX_RESOURCES_AGE_S :: rat where "MAX_RESOURCES_AGE_S = 60"
definition MAX_ROBOT_TELEMETRY_AGE_S :: rat where "MAX_ROBOT_TELEMETRY_AGE_S = 15"

lemmas age_limits = MAX_BASE_STATE_AGE_S_def MAX_BATTERY_AGE_S_def MAX_DIAGNOSTICS_AGE_S_def
  MAX_POSE_AGE_S_def MAX_RESOURCES_AGE_S_def MAX_ROBOT_TELEMETRY_AGE_S_def

definition stale_age :: "pyfloat option \<Rightarrow> rat \<Rightarrow> bool" where
  "stale_age age limit =
     (case age of None \<Rightarrow> True
      | Some a \<Rightarrow> \<not> is_finite a \<or> \<not> (pf_le (Fin 0) a \<and> pf_le a (Fin limit)))"

lemma not_stale: "\<not> stale_age age limit \<longleftrightarrow> (\<exists>a. age = Some (Fin a) \<and> 0 \<le> a \<and> a \<le> limit)"
  by (cases age) (auto simp: stale_age_def elim: is_finiteE)

subsection \<open>Status line\<close>

definition status_CHARGING_STATES :: "string list" where
  "status_CHARGING_STATES = [''charging'', ''bulk'', ''overcharge'', ''float'']"
definition DOCKED_STATES :: "string list" where
  "DOCKED_STATES = [''docked'', ''float'', ''charging'', ''bulk'', ''overcharge'']"

datatype status_detail = Standard_detail robot_status | Estop_detail | Controller_silent_detail
  | Hardware_fault_detail | Readings_old_detail | Last_known_detail status_detail
  | Stopped_reporting_detail | Diagnostic_detail string | Leaving_dock_detail | Recovering_detail

definition status_on_dock :: "base_state_data \<Rightarrow> bool" where
  "status_on_dock b =
     (case bs_dock_state_valid b of
        Some valid \<Rightarrow> valid \<and> py_upper (py_strip (or_empty (bs_dock_state b))) = ''DOCKED_CONFIRMED''
      | None \<Rightarrow> py_lower (bs_charge_state b) \<in> set DOCKED_STATES)"

text \<open>The condition under which the robot's last report is a hazard.\<close>

definition base_hazard :: "base_state_data \<Rightarrow> bool" where
  "base_hazard b =
     (bs_estop_pressed b \<or> bs_fault_flags b \<noteq> 0 \<or> \<not> bs_hardware_state_valid b
      \<or> \<not> bs_link_connected b \<or> pf_lt (Fin MAX_ROBOT_TELEMETRY_AGE_S) (bs_telemetry_age b))"

definition hazard_detail :: "base_state_data \<Rightarrow> status_detail" where
  "hazard_detail b =
     (if bs_estop_pressed b then Estop_detail
      else if \<not> bs_hardware_state_valid b \<or> \<not> bs_link_connected b then Controller_silent_detail
      else if bs_fault_flags b \<noteq> 0 then Hardware_fault_detail
      else Readings_old_detail)"

definition location_unready :: "base_state_data \<Rightarrow> bool" where
  "location_unready b =
     (\<not> bs_odom_epoch_valid b \<or> bs_localization_recovery_required b \<or> bs_localization_seed_stamp_ns b \<le> 0)"

definition driving :: "path_data option \<Rightarrow> pose_data option \<Rightarrow> pyfloat option \<Rightarrow> bool" where
  "driving path pose pose_age =
     (case (path, pose) of
        (Some pt, Some ps) \<Rightarrow> pt_goal pt \<noteq> None \<and> \<not> stale_age pose_age MAX_POSE_AGE_S
          \<and> pf_lt (Fin (2 / 100)) (pf_abs (ps_linear_velocity ps))
      | _ \<Rightarrow> False)"

text \<open>The branches that follow once the drive base is current and without a hazard.\<close>

definition current_status ::
  "base_state_data \<Rightarrow> diagnostic_item list option \<Rightarrow> pose_data option \<Rightarrow> path_data option \<Rightarrow> bool \<Rightarrow> bool
   \<Rightarrow> pyfloat option \<Rightarrow> pyfloat option \<Rightarrow> robot_status \<times> status_detail" where
  "current_status b diagnostics pose path recording stalled diag_age pose_age =
     (let errors = (case diagnostics of None \<Rightarrow> []
            | Some items \<Rightarrow> if stale_age diag_age MAX_DIAGNOSTICS_AGE_S then []
                else filter (\<lambda>i. di_level i = ERROR) items)
      in if errors \<noteq> [] then (Needs_attention, Diagnostic_detail (di_message (hd errors)))
         else if bs_undock_active b then (Navigating, Leaving_dock_detail)
         else if status_on_dock b \<and> py_lower (bs_charge_state b) \<in> set status_CHARGING_STATES
         then (Charging, Standard_detail Charging)
         else if status_on_dock b then (Docked, Standard_detail Docked)
         else if location_unready b then (Needs_attention, Recovering_detail)
         else if \<not> bs_motors_enabled b then (Paused, Standard_detail Paused)
         else if stalled then (Stuck, Standard_detail Stuck)
         else if recording then (Recording, Standard_detail Recording)
         else if driving path pose pose_age then (Navigating, Standard_detail Navigating)
         else (Ready, Standard_detail Ready))"

definition derive_status ::
  "connection_state \<Rightarrow> base_state_data option \<Rightarrow> diagnostic_item list option \<Rightarrow> pose_data option
   \<Rightarrow> path_data option \<Rightarrow> bool \<Rightarrow> bool \<Rightarrow> pyfloat option \<Rightarrow> pyfloat option \<Rightarrow> pyfloat option
   \<Rightarrow> robot_status \<times> status_detail" where
  "derive_status conn base diagnostics pose path recording stalled base_age diag_age pose_age =
     (if conn = Offline then (Status_offline, Standard_detail Status_offline)
      else case base of
        None \<Rightarrow> (Needs_attention, Stopped_reporting_detail)
      | Some b \<Rightarrow>
          if base_hazard b
          then (Needs_attention,
                if stale_age base_age MAX_BASE_STATE_AGE_S then Last_known_detail (hazard_detail b)
                else hazard_detail b)
          else if stale_age base_age MAX_BASE_STATE_AGE_S then (Needs_attention, Stopped_reporting_detail)
          else current_status b diagnostics pose path recording stalled diag_age pose_age)"

subsection \<open>Health card\<close>

text \<open>\<open>_level_rank\<close> orders the levels; the order is the library's \<open>linorder\<close> on the type.\<close>

fun level_rank :: "health_level \<Rightarrow> nat" where
  "level_rank Healthy = 0"
| "level_rank Warning = 1"
| "level_rank Fault = 2"
| "level_rank Offline_level = 3"

instantiation health_level :: linorder
begin

definition "(x :: health_level) \<le> y \<longleftrightarrow> level_rank x \<le> level_rank y"
definition "(x :: health_level) < y \<longleftrightarrow> level_rank x < level_rank y"

instance
proof
  fix x y z :: health_level
  show "x < y \<longleftrightarrow> x \<le> y \<and> \<not> y \<le> x" by (auto simp: less_eq_health_level_def less_health_level_def)
  show "x \<le> x" by (simp add: less_eq_health_level_def)
  show "x \<le> y \<Longrightarrow> y \<le> z \<Longrightarrow> x \<le> z" by (simp add: less_eq_health_level_def)
  show "x \<le> y \<Longrightarrow> y \<le> x \<Longrightarrow> x = y"
    by (cases x; cases y) (simp_all add: less_eq_health_level_def)
  show "x \<le> y \<or> y \<le> x" by (auto simp: less_eq_health_level_def)
qed

end

datatype subsystem_id = Connection_sub | Drive_base_sub | Battery_sub | Sensors_sub
  | Localization_sub | Systems_sub | Computer_sub

datatype health_message =
    Link_up | Link_slow | Link_down
  | Base_no_data | Base_silent_hazard | Base_silent | Base_not_responding | Base_readings_old
  | Base_estop | Base_fault_reported | Base_bumpers_unreadable | Base_motors_off | Base_ok
  | Battery_no_data | Battery_silent | Battery_charging | Battery_critical pyfloat | Battery_low pyfloat
  | Battery_no_level | Battery_ok pyfloat
  | Laser_no_data | Laser_stopped | Laser_ok
  | Location_unknown | Location_silent | Location_not_current | Location_recovering
  | Location_unsure | Location_ok
  | Systems_no_reports | Systems_error string string | Systems_warning string string | Systems_ok nat
  | Computer_no_data | Computer_silent | Computer_hot pyfloat | Computer_full | Computer_ok bool

record subsystem =
  sub_id :: subsystem_id
  sub_level :: health_level
  sub_message :: health_message

definition connection_health :: "connection_state \<Rightarrow> health_level \<times> health_message" where
  "connection_health conn =
     (case conn of Online \<Rightarrow> (Healthy, Link_up) | Stale \<Rightarrow> (Warning, Link_slow)
      | Offline \<Rightarrow> (Offline_level, Link_down))"

definition drive_base_health ::
  "connection_state \<Rightarrow> base_state_data option \<Rightarrow> pyfloat option \<Rightarrow> health_level \<times> health_message" where
  "drive_base_health conn base age =
     (case base of None \<Rightarrow> (Offline_level, Base_no_data) | Some b \<Rightarrow>
      if conn = Offline then (Offline_level, Base_no_data)
      else if stale_age age MAX_BASE_STATE_AGE_S
      then (if bs_estop_pressed b \<or> bs_fault_flags b \<noteq> 0 \<or> \<not> bs_link_connected b
               \<or> \<not> bs_hardware_state_valid b
            then (Fault, Base_silent_hazard) else (Offline_level, Base_silent))
      else if \<not> bs_link_connected b \<or> \<not> bs_hardware_state_valid b then (Fault, Base_not_responding)
      else if pf_lt (Fin MAX_ROBOT_TELEMETRY_AGE_S) (bs_telemetry_age b) then (Fault, Base_readings_old)
      else if bs_estop_pressed b then (Fault, Base_estop)
      else if bs_fault_flags b \<noteq> 0 then (Fault, Base_fault_reported)
      else if bs_bumpers_valid b = Some False then (Warning, Base_bumpers_unreadable)
      else if \<not> bs_motors_enabled b then (Warning, Base_motors_off)
      else (Healthy, Base_ok))"

definition battery_health ::
  "connection_state \<Rightarrow> battery_data option \<Rightarrow> pyfloat option \<Rightarrow> pyfloat \<Rightarrow> pyfloat
   \<Rightarrow> health_level \<times> health_message" where
  "battery_health conn battery age low critical =
     (case battery of None \<Rightarrow> (Offline_level, Battery_no_data) | Some b \<Rightarrow>
      if conn = Offline then (Offline_level, Battery_no_data)
      else if stale_age age MAX_BATTERY_AGE_S then (Offline_level, Battery_silent)
      else if bt_charging b then (Healthy, Battery_charging)
      else case bt_percentage b of None \<Rightarrow> (Warning, Battery_no_level) | Some p \<Rightarrow>
        if pf_le p critical then (Fault, Battery_critical p)
        else if pf_le p low then (Warning, Battery_low p)
        else (Healthy, Battery_ok p))"

definition sensors_health :: "connection_state \<Rightarrow> pyfloat option \<Rightarrow> health_level \<times> health_message" where
  "sensors_health conn age =
     (case age of None \<Rightarrow> (Offline_level, Laser_no_data) | Some a \<Rightarrow>
      if conn = Offline then (Offline_level, Laser_no_data)
      else if pf_lt (Fin 5) a then (Warning, Laser_stopped) else (Healthy, Laser_ok))"

definition localization_health ::
  "connection_state \<Rightarrow> pose_data option \<Rightarrow> pyfloat option \<Rightarrow> base_state_data option \<Rightarrow> pyfloat option
   \<Rightarrow> health_level \<times> health_message" where
  "localization_health conn pose pose_age base base_age =
     (case pose of None \<Rightarrow> (Offline_level, Location_unknown) | Some p \<Rightarrow>
      if conn = Offline then (Offline_level, Location_unknown)
      else if stale_age pose_age MAX_POSE_AGE_S then (Offline_level, Location_silent)
      else case base of None \<Rightarrow> (Warning, Location_not_current) | Some b \<Rightarrow>
      if stale_age base_age MAX_BASE_STATE_AGE_S then (Warning, Location_not_current)
      else if location_unready b then (Warning, Location_recovering)
      else if \<not> ps_localized p then (Warning, Location_unsure)
      else (Healthy, Location_ok))"

definition systems_health ::
  "diagnostic_item list option \<Rightarrow> pyfloat option \<Rightarrow> health_level \<times> health_message" where
  "systems_health diagnostics age =
     (case diagnostics of None \<Rightarrow> (Offline_level, Systems_no_reports) | Some items \<Rightarrow>
      if stale_age age MAX_DIAGNOSTICS_AGE_S then (Offline_level, Systems_no_reports)
      else case filter (\<lambda>i. di_level i = ERROR) items of
        e # _ \<Rightarrow> (Fault, Systems_error (di_name e) (di_message e))
      | [] \<Rightarrow> (case filter (\<lambda>i. di_level i = WARN \<or> di_level i = STALE) items of
          w # _ \<Rightarrow> (Warning, Systems_warning (di_name w) (di_message w))
        | [] \<Rightarrow> if items = [] then (Offline_level, Systems_no_reports)
                else (Healthy, Systems_ok (length items))))"

definition computer_health ::
  "connection_state \<Rightarrow> resources_data option \<Rightarrow> pyfloat option \<Rightarrow> health_level \<times> health_message" where
  "computer_health conn resources age =
     (case resources of None \<Rightarrow> (Offline_level, Computer_no_data) | Some r \<Rightarrow>
      if conn = Offline then (Offline_level, Computer_no_data)
      else if stale_age age MAX_RESOURCES_AGE_S then (Offline_level, Computer_silent)
      else if (case rs_cpu_temp_c r of None \<Rightarrow> False | Some t \<Rightarrow> pf_le (Fin 80) t)
      then (Warning, Computer_hot (case rs_cpu_temp_c r of None \<Rightarrow> NaN | Some t \<Rightarrow> t))
      else if pf_le (Fin 90) (rs_disk_percent r) then (Warning, Computer_full)
      else (Healthy, Computer_ok (rs_cpu_temp_c r \<noteq> None)))"

text \<open>The arguments of \<open>derive_health\<close>.\<close>

record health_input =
  hi_connection :: connection_state
  hi_base_state :: "base_state_data option"
  hi_battery :: "battery_data option"
  hi_diagnostics :: "diagnostic_item list option"
  hi_pose :: "pose_data option"
  hi_resources :: "resources_data option"
  hi_lidar_age :: "pyfloat option"
  hi_base_age :: "pyfloat option"
  hi_battery_age :: "pyfloat option"
  hi_diagnostics_age :: "pyfloat option"
  hi_pose_age :: "pyfloat option"
  hi_resources_age :: "pyfloat option"
  hi_low :: pyfloat
  hi_critical :: pyfloat

definition subsystem_of :: "subsystem_id \<Rightarrow> health_level \<times> health_message \<Rightarrow> subsystem" where
  "subsystem_of i p = \<lparr>sub_id = i, sub_level = fst p, sub_message = snd p\<rparr>"

definition subsystems_of :: "health_input \<Rightarrow> subsystem list" where
  "subsystems_of h =
     [subsystem_of Connection_sub (connection_health (hi_connection h)),
      subsystem_of Drive_base_sub (drive_base_health (hi_connection h) (hi_base_state h) (hi_base_age h)),
      subsystem_of Battery_sub
        (battery_health (hi_connection h) (hi_battery h) (hi_battery_age h) (hi_low h) (hi_critical h)),
      subsystem_of Sensors_sub (sensors_health (hi_connection h) (hi_lidar_age h)),
      subsystem_of Localization_sub
        (localization_health (hi_connection h) (hi_pose h) (hi_pose_age h) (hi_base_state h) (hi_base_age h)),
      subsystem_of Systems_sub (systems_health (hi_diagnostics h) (hi_diagnostics_age h)),
      subsystem_of Computer_sub (computer_health (hi_connection h) (hi_resources h) (hi_resources_age h))]"

definition counted_level :: "health_level \<Rightarrow> health_level" where
  "counted_level l = (if l = Offline_level then Warning else l)"

definition overall_level :: "subsystem list \<Rightarrow> health_level" where
  "overall_level subs =
     foldl (\<lambda>overall sub. let l = counted_level (sub_level sub) in
              if level_rank overall < level_rank l then l else overall) Healthy subs"

definition derive_health :: "health_input \<Rightarrow> health_level \<times> subsystem list" where
  "derive_health h =
     (let subs = subsystems_of h
      in (if hi_connection h = Offline then Offline_level else overall_level subs, subs))"

subsection \<open>Properties\<close>

lemma level_rank_inject [simp]: "level_rank x = level_rank y \<longleftrightarrow> x = y"
  by (cases x; cases y) simp_all

text \<open>The loop over the subsystems computes a maximum.\<close>

lemma foldl_max: "foldl max a xs = Max (insert a (set (xs :: 'a :: linorder list)))"
proof -
  have "(\<lambda>x s :: 'a. max s x) = max" by (simp add: fun_eq_iff max.commute)
  then show ?thesis using Max.set_eq_fold [of a xs] by (simp add: foldl_conv_fold)
qed

lemma overall_step:
  "(if level_rank a < level_rank l then l else a) = max a l"
  by (auto simp: max_def less_eq_health_level_def)

lemma overall_level_Max:
  "overall_level subs = Max (insert Healthy (counted_level ` sub_level ` set subs))"
proof -
  have "overall_level subs = foldl max Healthy (map (counted_level \<circ> sub_level) subs)"
    unfolding overall_level_def by (simp add: Let_def overall_step foldl_map)
  then show ?thesis by (simp add: foldl_max image_comp)
qed

lemma Healthy_least [simp]: "Healthy \<le> l"
  by (simp add: less_eq_health_level_def)

lemma overall_Healthy: "overall_level subs = Healthy \<longleftrightarrow> (\<forall>s\<in>set subs. sub_level s = Healthy)"
proof -
  have low: "l \<le> Healthy \<longleftrightarrow> l = Healthy" for l by (cases l) (simp_all add: less_eq_health_level_def)
  have "overall_level subs = Healthy \<longleftrightarrow> overall_level subs \<le> Healthy" by (simp add: low)
  also have "\<dots> \<longleftrightarrow> (\<forall>s\<in>set subs. counted_level (sub_level s) \<le> Healthy)"
    by (simp add: overall_level_Max)
  also have "\<dots> \<longleftrightarrow> (\<forall>s\<in>set subs. sub_level s = Healthy)"
    by (auto simp: low counted_level_def)
  finally show ?thesis .
qed

definition live_status :: "robot_status \<Rightarrow> bool" where
  "live_status st = (st \<noteq> Status_offline \<and> st \<noteq> Needs_attention)"

text \<open>
  The status line never speaks from old or alarming data. A status other than offline and
  needs-attention (ready, charging, docked, paused, stuck, recording, navigating) is shown only
  while the link is up and the drive base reported within the last fifteen seconds with no
  emergency stop, no fault, valid hardware, its own link up and its own readings current, with no
  fresh diagnostic error; and ready, paused, stuck and recording only when the robot's location is
  ready too.
\<close>

theorem status_only_from_current_data:
  assumes "derive_status conn base diags pose path rec stalled base_age diag_age pose_age = (st, detail)"
    "live_status st"
  shows "conn \<noteq> Offline
    \<and> (\<exists>b a. base = Some b \<and> base_age = Some (Fin a) \<and> 0 \<le> a \<and> a \<le> 15
        \<and> \<not> bs_estop_pressed b \<and> bs_fault_flags b = 0 \<and> bs_hardware_state_valid b
        \<and> bs_link_connected b \<and> \<not> pf_lt (Fin 15) (bs_telemetry_age b)
        \<and> (st \<in> {Ready, Paused, Stuck, Recording} \<longrightarrow> \<not> location_unready b)
        \<and> (stale_age diag_age 30 \<or> (\<forall>items. diags = Some items \<longrightarrow> (\<forall>i\<in>set items. di_level i \<noteq> ERROR))))"
proof -
  from assms obtain b where b: "conn \<noteq> Offline" "base = Some b" "\<not> base_hazard b"
    "\<not> stale_age base_age MAX_BASE_STATE_AGE_S"
    "current_status b diags pose path rec stalled diag_age pose_age = (st, detail)"
    by (auto simp: derive_status_def live_status_def split: if_splits option.splits)
  have age: "\<exists>a. base_age = Some (Fin a) \<and> 0 \<le> a \<and> a \<le> 15"
    using b(4) by (simp add: not_stale age_limits)
  have ready: "st \<in> {Ready, Paused, Stuck, Recording} \<longrightarrow> \<not> location_unready b"
    using b(5) by (auto simp: current_status_def Let_def split: if_splits)
  have quiet: "stale_age diag_age 30 \<or> (\<forall>items. diags = Some items \<longrightarrow> (\<forall>i\<in>set items. di_level i \<noteq> ERROR))"
    using b(5) assms(2)
    by (auto simp: current_status_def live_status_def Let_def filter_empty_conv age_limits split: if_splits)
  show ?thesis using b(1-3) age ready quiet by (auto simp: base_hazard_def age_limits)
qed

definition example_base :: base_state_data where
  "example_base = \<lparr>map_id = None, map_revision = None, bs_operation_fault_reason = [],
     bs_operation_fault_request_id = [], bs_operation_outcome_unknown = False, bs_lidar_state = Lidar_READY,
     bs_lidar_power_supported = True, bs_lidar_scan_age = Fin 0, bs_map_activated_stamp_ns = 0,
     bs_session_generation = 3, bs_link_connected = True, bs_telemetry_age = Fin 0,
     bs_hardware_state_valid = True, bs_charge_state = ''not_charging'', bs_motors_enabled = True,
     bs_estop_pressed = False, bs_fault_flags = 0, bs_stall_value = 0, bs_bumpers_front = False,
     bs_bumpers_rear = False, bs_bumpers_valid = Some True, bs_dock_state = Some ''CLEAR_CONFIRMED'',
     bs_dock_state_valid = Some True, bs_dock_phase = None, bs_dock_phase_name = None,
     bs_undock_active = False, bs_undock_release_attempts = None, bs_minimum_rear_range = None,
     bs_rear_sonar_usable = None, bs_redock_inhibited = None, bs_redock_inhibit_remaining = None,
     bs_undock_profile_commissioned = None, bs_odom_epoch_valid = True, bs_raw_odom_age_s = Some (Fin 0),
     bs_localization_recovery_required = False, bs_localization_recovery_stage = [],
     bs_localization_seed_stamp_ns = 17\<rparr>"

theorem status_only_from_current_data_witness:
  "derive_status Online (Some example_base) None None None False False (Some (Fin 2)) None None
     = (Ready, Standard_detail Ready) \<and> \<not> location_unready example_base"
proof -
  have eq: "derive_status Online (Some example_base) None None None False False (Some (Fin 2)) None None
     = (Ready, Standard_detail Ready)"
    by (simp add: derive_status_def current_status_def base_hazard_def example_base_def stale_age_def
        age_limits status_on_dock_def py_string_defs location_unready_def driving_def)
  show ?thesis using status_only_from_current_data [OF eq] eq by (simp add: live_status_def)
qed

text \<open>
  The health card agrees with the status line and with its own parts. The overall level of a
  connected robot is healthy exactly when every subsystem is, and is otherwise the worst level with
  a missing subsystem counted as a warning, never offline; a drive base shown as faulty makes the
  status line ask for attention, and a drive base shown as healthy or as a warning rests on a report
  at most fifteen seconds old without a hazard.
\<close>

theorem health_card_consistent:
  assumes "derive_health h = (overall, subs)" "hi_connection h \<noteq> Offline"
    "drive_base_health (hi_connection h) (hi_base_state h) (hi_base_age h) = (level, msg)"
  shows "(overall = Healthy \<longleftrightarrow> (\<forall>s\<in>set subs. sub_level s = Healthy))
    \<and> overall \<noteq> Offline_level
    \<and> (\<forall>s\<in>set subs. counted_level (sub_level s) \<le> overall)
    \<and> (level = Fault \<longrightarrow> fst (derive_status (hi_connection h) (hi_base_state h) (hi_diagnostics h) (hi_pose h)
          path rec stalled (hi_base_age h) (hi_diagnostics_age h) (hi_pose_age h)) = Needs_attention)
    \<and> (level \<in> {Healthy, Warning} \<longrightarrow> (\<exists>b a. hi_base_state h = Some b \<and> hi_base_age h = Some (Fin a)
          \<and> 0 \<le> a \<and> a \<le> 15 \<and> \<not> base_hazard b))"
proof (intro conjI)
  have o: "overall = overall_level subs" using assms(1,2) by (auto simp: derive_health_def Let_def)
  show "overall = Healthy \<longleftrightarrow> (\<forall>s\<in>set subs. sub_level s = Healthy)" unfolding o by (rule overall_Healthy)
  have "overall_level subs \<in> insert Healthy (counted_level ` sub_level ` set subs)"
    unfolding overall_level_Max by (rule Max_in) auto
  then show "overall \<noteq> Offline_level" unfolding o by (auto simp: counted_level_def split: if_splits)
  show "\<forall>s\<in>set subs. counted_level (sub_level s) \<le> overall" unfolding o overall_level_Max by simp
  show "level = Fault \<longrightarrow> fst (derive_status (hi_connection h) (hi_base_state h) (hi_diagnostics h) (hi_pose h)
      path rec stalled (hi_base_age h) (hi_diagnostics_age h) (hi_pose_age h)) = Needs_attention"
    using assms(2,3)
    by (auto simp: derive_status_def drive_base_health_def base_hazard_def split: option.splits if_splits)
  show "level \<in> {Healthy, Warning} \<longrightarrow> (\<exists>b a. hi_base_state h = Some b \<and> hi_base_age h = Some (Fin a)
      \<and> 0 \<le> a \<and> a \<le> 15 \<and> \<not> base_hazard b)"
    using assms(2,3)
    by (auto simp: drive_base_health_def base_hazard_def not_stale age_limits split: option.splits if_splits)
qed

definition example_health :: health_input where
  "example_health = \<lparr>hi_connection = Online, hi_base_state = Some (example_base\<lparr>bs_estop_pressed := True\<rparr>),
     hi_battery = None, hi_diagnostics = None, hi_pose = None, hi_resources = None, hi_lidar_age = None,
     hi_base_age = Some (Fin 1), hi_battery_age = None, hi_diagnostics_age = None, hi_pose_age = None,
     hi_resources_age = None, hi_low = Fin 20, hi_critical = Fin 10\<rparr>"

theorem health_card_consistent_witness:
  "fst (derive_health example_health) \<noteq> Offline_level
   \<and> fst (derive_status Online (Some (example_base\<lparr>bs_estop_pressed := True\<rparr>)) None None None False False
        (Some (Fin 1)) None None) = Needs_attention"
proof -
  have drive: "drive_base_health (hi_connection example_health) (hi_base_state example_health)
      (hi_base_age example_health) = (Fault, Base_estop)"
    by (simp add: example_health_def example_base_def drive_base_health_def stale_age_def age_limits)
  show ?thesis
    using health_card_consistent [of example_health "fst (derive_health example_health)"
        "snd (derive_health example_health)" Fault Base_estop None False False, OF _ _ drive]
    by (simp add: example_health_def)
qed

end
