(* ===== verification/Battery_Estimator.thy ===== *)
theory Battery_Estimator
  imports Prelude
begin

text \<open>
  Remaining battery time (\<open>server/app/telemetry/battery_estimator.py\<close>): a linear regression over a
  sliding window of samples. Samples are finite, so they are rationals and the regression is exact;
  \<open>round\<close> rounds halves to the even neighbour.
\<close>

datatype estimate_state = Est_charging | Est_calculating | Est_stable | Est_estimated
  | Est_threshold_reached | Est_unavailable

datatype confidence = Conf_low | Conf_medium | Conf_high

record runtime_estimate =
  re_state :: estimate_state
  re_minutes :: "int option"
  re_confidence :: confidence

record trend =
  tr_lower_threshold :: rat
  tr_window_seconds :: rat
  tr_min_samples :: nat
  tr_max_minutes :: rat
  tr_samples :: "(rat \<times> rat) list"

definition MAXLEN :: nat where "MAXLEN = 600"

definition trend_new :: "rat \<Rightarrow> trend" where
  "trend_new threshold = \<lparr>tr_lower_threshold = threshold, tr_window_seconds = 300,
     tr_min_samples = 4, tr_max_minutes = 1440, tr_samples = []\<rparr>"

text \<open>Appending to a bounded deque drops its oldest entry when it is full.\<close>

definition deque_append :: "nat \<Rightarrow> 'a list \<Rightarrow> 'a \<Rightarrow> 'a list" where
  "deque_append n xs x = (if length xs < n then xs @ [x] else tl xs @ [x])"

definition trend_add :: "trend \<Rightarrow> rat \<Rightarrow> rat \<Rightarrow> trend" where
  "trend_add t timestamp value =
     (if tr_samples t \<noteq> [] \<and> timestamp \<le> fst (last (tr_samples t)) then t
      else t\<lparr>tr_samples := dropWhile (\<lambda>s. fst s < timestamp - tr_window_seconds t)
               (deque_append MAXLEN (tr_samples t) (timestamp, value))\<rparr>)"

definition trend_reset :: "trend \<Rightarrow> trend" where
  "trend_reset t = t\<lparr>tr_samples := []\<rparr>"

definition no_estimate :: "estimate_state \<Rightarrow> runtime_estimate" where
  "no_estimate s = \<lparr>re_state = s, re_minutes = None, re_confidence = Conf_low\<rparr>"

definition mean :: "rat list \<Rightarrow> rat" where
  "mean xs = sum_list xs / of_nat (length xs)"

definition spread :: "rat list \<Rightarrow> rat" where
  "spread xs = sum_list (map (\<lambda>x. (x - mean xs) ^ 2) xs)"

definition covariation :: "rat list \<Rightarrow> rat list \<Rightarrow> rat" where
  "covariation xs ys = sum_list (map (\<lambda>(x, y). (x - mean xs) * (y - mean ys)) (zip xs ys))"

definition confidence_of :: "rat \<Rightarrow> nat \<Rightarrow> confidence" where
  "confidence_of window n =
     (if 60 \<le> window \<and> 30 \<le> n then Conf_high else if 15 \<le> window \<and> 10 \<le> n then Conf_medium else Conf_low)"

definition elapsed_times :: "trend \<Rightarrow> rat list" where
  "elapsed_times t = map (\<lambda>s. fst s - fst (hd (tr_samples t))) (tr_samples t)"

text \<open>The slope of the regression, nothing when all samples share one time.\<close>

definition trend_slope :: "trend \<Rightarrow> rat option" where
  "trend_slope t =
     (let denominator = spread (elapsed_times t)
      in if denominator \<le> 0 then None
         else Some (covariation (elapsed_times t) (map snd (tr_samples t)) / denominator))"

text \<open>The branches after the slope is known.\<close>

definition remaining_estimate :: "trend \<Rightarrow> rat \<Rightarrow> rat \<Rightarrow> runtime_estimate" where
  "remaining_estimate t window slope =
     (if - (1 / 10 ^ 9) \<le> slope then no_estimate Est_stable
      else let remaining = snd (last (tr_samples t)) - tr_lower_threshold t in
      if remaining \<le> 0
      then \<lparr>re_state = Est_threshold_reached, re_minutes = Some 0, re_confidence = Conf_high\<rparr>
      else let minutes = remaining / (- slope) / 60 in
      if minutes \<le> 0 \<or> tr_max_minutes t < minutes then no_estimate Est_unavailable
      else \<lparr>re_state = Est_estimated, re_minutes = Some (max 1 (round_half_even minutes)),
             re_confidence = confidence_of window (length (tr_samples t))\<rparr>)"

definition trend_estimate :: "trend \<Rightarrow> bool \<Rightarrow> runtime_estimate" where
  "trend_estimate t charging =
     (if charging then no_estimate Est_charging
      else if length (tr_samples t) < tr_min_samples t then no_estimate Est_calculating
      else let window = fst (last (tr_samples t)) - fst (hd (tr_samples t)) in
      if window < 3 then no_estimate Est_calculating
      else case trend_slope t of None \<Rightarrow> no_estimate Est_unavailable
           | Some slope \<Rightarrow> remaining_estimate t window slope)"

record battery_estimator =
  ber_pct :: trend
  ber_volt :: trend
  ber_was_charging :: bool

definition battery_estimator_new :: "rat \<Rightarrow> rat \<Rightarrow> battery_estimator" where
  "battery_estimator_new low_percent cutoff_voltage =
     \<lparr>ber_pct = trend_new (low_percent / 100), ber_volt = trend_new cutoff_voltage, ber_was_charging = False\<rparr>"

text \<open>
  \<open>min(1.0, max(0.0, percentage / 100.0))\<close>: Python's \<open>max\<close> and \<open>min\<close> keep their first argument
  unless the second is strictly beyond it, so NaN becomes zero.
\<close>

definition level_fraction :: "pyfloat \<Rightarrow> rat" where
  "level_fraction p =
     (case p of Fin a \<Rightarrow> min 1 (max 0 (a / 100)) | PosInf \<Rightarrow> 1 | NegInf \<Rightarrow> 0 | NaN \<Rightarrow> 0)"

definition estimator_add ::
  "battery_estimator \<Rightarrow> rat \<Rightarrow> rat \<Rightarrow> pyfloat option \<Rightarrow> bool \<Rightarrow> battery_estimator" where
  "estimator_add e timestamp voltage percentage charging =
     (let e1 = (if charging \<and> \<not> ber_was_charging e
                then e\<lparr>ber_pct := trend_reset (ber_pct e), ber_volt := trend_reset (ber_volt e)\<rparr> else e);
          e2 = e1\<lparr>ber_was_charging := charging\<rparr>
      in if charging then e2
         else e2\<lparr>ber_pct := (case percentage of None \<Rightarrow> ber_pct e2
                    | Some p \<Rightarrow> trend_add (ber_pct e2) timestamp (level_fraction p)),
                 ber_volt := trend_add (ber_volt e2) timestamp voltage\<rparr>)"

definition estimator_estimate :: "battery_estimator \<Rightarrow> bool \<Rightarrow> bool \<Rightarrow> runtime_estimate" where
  "estimator_estimate e charging has_percentage =
     (if charging then no_estimate Est_charging
      else if has_percentage \<and> re_state (trend_estimate (ber_pct e) False) = Est_estimated
      then trend_estimate (ber_pct e) False
      else trend_estimate (ber_volt e) False)"

subsection \<open>The window\<close>

text \<open>Samples have strictly increasing times, span at most the window and are at most 600.\<close>

definition trend_inv :: "trend \<Rightarrow> bool" where
  "trend_inv t \<longleftrightarrow>
     sorted_wrt (<) (map fst (tr_samples t)) \<and> length (tr_samples t) \<le> MAXLEN \<and> 0 < tr_window_seconds t
     \<and> (\<forall>s\<in>set (tr_samples t). fst (last (tr_samples t)) - tr_window_seconds t \<le> fst s)"

lemma trend_inv_new: "trend_inv (trend_new th)"
  by (simp add: trend_inv_def trend_new_def)

lemma trend_inv_reset: "trend_inv t \<Longrightarrow> trend_inv (trend_reset t)"
  by (simp add: trend_inv_def trend_reset_def)

lemma sorted_dropWhile_keeps:
  "sorted_wrt (<) (map fst xs) \<Longrightarrow> s \<in> set (dropWhile (\<lambda>s. fst s < (c :: rat)) xs) \<Longrightarrow> c \<le> fst s"
proof (induction xs)
  case (Cons x xs)
  then show ?case by (cases "fst x < c") force+
qed simp

lemma sorted_dropWhile:
  "sorted_wrt (<) (map fst xs) \<Longrightarrow> sorted_wrt (<) (map fst (dropWhile P xs))"
  by (induction xs) auto

lemma sorted_append_newer:
  assumes "sorted_wrt (<) (map fst xs)" "xs = [] \<or> fst (last xs) < (t :: rat)"
  shows "sorted_wrt (<) (map fst (xs @ [(t, v)]))"
proof -
  have "fst s < t" if "s \<in> set xs" for s
  proof (cases "s = last xs")
    case False
    with that have "s \<in> set (butlast xs)"
      by (cases xs rule: rev_cases) auto
    with that assms(1) have "fst s < fst (last xs)"
      by (cases xs rule: rev_cases) (auto simp: sorted_wrt_append)
    with assms(2) that show ?thesis by auto
  qed (use assms(2) that in auto)
  with assms(1) show ?thesis by (auto simp: sorted_wrt_append)
qed

lemma last_dropWhile: "dropWhile P xs \<noteq> [] \<Longrightarrow> last (dropWhile P xs) = last xs"
  by (induction xs) auto

lemma trend_inv_add:
  assumes "trend_inv t"
  shows "trend_inv (trend_add t timestamp value)"
proof (cases "tr_samples t \<noteq> [] \<and> timestamp \<le> fst (last (tr_samples t))")
  case False
  let ?xs = "tr_samples t"
  let ?ys = "deque_append MAXLEN ?xs (timestamp, value)"
  let ?c = "timestamp - tr_window_seconds t"
  let ?zs = "dropWhile (\<lambda>s. fst s < ?c) ?ys"
  have w: "0 < tr_window_seconds t" and srt: "sorted_wrt (<) (map fst ?xs)" and len: "length ?xs \<le> MAXLEN"
    using assms by (auto simp: trend_inv_def)
  have tl: "sorted_wrt (<) (map fst (tl ?xs))" using srt by (cases ?xs) auto
  have tl_last: "tl ?xs = [] \<or> fst (last (tl ?xs)) < timestamp"
    using False by (cases ?xs) (auto split: if_splits)
  have sys: "sorted_wrt (<) (map fst ?ys)"
    using sorted_append_newer [OF srt, of timestamp "value"] sorted_append_newer [OF tl tl_last, of "value"] False
    by (auto simp: deque_append_def simp del: map_append)
  have lys: "length ?ys \<le> MAXLEN"
    using len by (auto simp: deque_append_def MAXLEN_def)
  have "last ?ys = (timestamp, value)" "?ys \<noteq> []" by (auto simp: deque_append_def)
  then have "(timestamp, value) \<in> set ?ys" by (metis last_in_set)
  then have "?zs \<noteq> []" using w by (force simp: dropWhile_eq_Nil_conv)
  then have last: "last ?zs = (timestamp, value)"
    using \<open>last ?ys = (timestamp, value)\<close> by (rule trans [OF last_dropWhile])
  show ?thesis
    using w sorted_dropWhile [OF sys] sorted_dropWhile_keeps [OF sys] last
      order_trans [OF length_dropWhile_le lys]
    unfolding trend_add_def if_not_P [OF False] trend_inv_def by simp
qed (use assms in \<open>simp add: trend_add_def\<close>)

lemma trend_window_kept [simp]:
  "tr_max_minutes (trend_add t a b) = tr_max_minutes t" "tr_max_minutes (trend_reset t) = tr_max_minutes t"
  by (simp_all add: trend_add_def trend_reset_def)

definition estimator_inv :: "battery_estimator \<Rightarrow> bool" where
  "estimator_inv e \<longleftrightarrow> trend_inv (ber_pct e) \<and> trend_inv (ber_volt e)
     \<and> tr_max_minutes (ber_pct e) = 1440 \<and> tr_max_minutes (ber_volt e) = 1440"

lemma estimator_inv_new: "estimator_inv (battery_estimator_new l c)"
  by (simp add: estimator_inv_def battery_estimator_new_def trend_inv_new) (simp add: trend_new_def)

lemma estimator_inv_add: "estimator_inv e \<Longrightarrow> estimator_inv (estimator_add e t v p ch)"
  by (auto simp: estimator_inv_def estimator_add_def Let_def trend_inv_add trend_inv_reset split: option.splits)

subsection \<open>Estimates\<close>

text \<open>The run of an estimator over samples (time, voltage, percentage, charging).\<close>

definition estimator_run ::
  "battery_estimator \<Rightarrow> (rat \<times> rat \<times> pyfloat option \<times> bool) list \<Rightarrow> battery_estimator" where
  "estimator_run e samples = foldl (\<lambda>e (t, v, p, ch). estimator_add e t v p ch) e samples"

lemma estimator_inv_run: "estimator_inv e \<Longrightarrow> estimator_inv (estimator_run e samples)"
  unfolding estimator_run_def
  by (induction samples arbitrary: e) (auto simp: estimator_inv_add)

lemma trend_estimate_range:
  assumes "re_state (trend_estimate t ch) = Est_estimated" "tr_max_minutes t = 1440"
  shows "\<exists>m. re_minutes (trend_estimate t ch) = Some m \<and> 1 \<le> m \<and> m \<le> 1440"
  using assms round_half_even_le [of _ 1440]
  by (auto simp: trend_estimate_def remaining_estimate_def no_estimate_def Let_def max_def
      split: if_splits option.splits)

lemma sum_nth: "sum_list (map f xs) = (\<Sum>i = 0..<length xs. f (xs ! i))"
  by (simp add: sum_list_sum_nth)

text \<open>A trend that never falls has no negative slope (Chebyshev's sum inequality).\<close>

lemma covariation_nonneg:
  assumes "sorted xs" "sorted ys" "length xs = length ys"
  shows "0 \<le> covariation xs ys"
proof (cases "xs = []")
  case False
  define n where "n = length xs"
  let ?sx = "\<Sum>i = 0..<n. xs ! i" and ?sy = "\<Sum>i = 0..<n. ys ! i"
  have n: "(of_nat n :: rat) > 0" using False by (simp add: n_def)
  have sx: "sum_list xs = ?sx" "sum_list ys = ?sy" using assms(3) by (simp_all add: sum_list_sum_nth n_def)
  have mx: "mean xs = ?sx / of_nat n" "mean ys = ?sy / of_nat n"
    using sx assms(3) by (simp_all add: mean_def n_def)
  have "covariation xs ys = (\<Sum>i = 0..<n. (xs ! i - mean xs) * (ys ! i - mean ys))"
    using assms(3) by (simp add: covariation_def sum_list_sum_nth n_def)
  also have "\<dots> = (\<Sum>i = 0..<n. xs ! i * ys ! i) - mean ys * ?sx - mean xs * ?sy + of_nat n * mean xs * mean ys"
    by (simp add: algebra_simps sum.distrib sum_subtractf sum_distrib_left)
  also have "\<dots> = (\<Sum>i = 0..<n. xs ! i * ys ! i) - ?sx * ?sy / of_nat n"
    using n by (simp add: mx field_simps)
  finally have cov: "covariation xs ys = (\<Sum>i = 0..<n. xs ! i * ys ! i) - ?sx * ?sy / of_nat n" .
  have "of_nat n * (\<Sum>k = 0..<n. xs ! k * - (ys ! k)) \<le> ?sx * (\<Sum>k = 0..<n. - (ys ! k))"
    by (rule Chebyshev_sum_upper)
      (use assms in \<open>auto simp: n_def sorted_iff_nth_mono\<close>)
  then have "?sx * ?sy \<le> of_nat n * (\<Sum>k = 0..<n. xs ! k * ys ! k)"
    by (simp add: sum_negf)
  then show ?thesis using n by (simp add: cov divide_le_eq mult.commute)
qed (simp add: covariation_def)

lemma rising_slope:
  assumes "trend_inv t" "sorted (map snd (tr_samples t))" "trend_slope t = Some q"
  shows "0 \<le> q"
proof -
  have "sorted (map fst (tr_samples t))"
    using assms(1) by (auto simp: trend_inv_def intro: sorted_wrt_mono_rel [of _ "(<)"])
  then have "sorted (elapsed_times t)" by (simp add: elapsed_times_def sorted_wrt_map)
  then have "0 \<le> covariation (elapsed_times t) (map snd (tr_samples t))"
    using assms(2) by (intro covariation_nonneg) (simp_all add: elapsed_times_def)
  then show ?thesis using assms(3) by (auto simp: trend_slope_def Let_def split: if_splits)
qed

lemma rising_stable: "0 \<le> slope \<Longrightarrow> remaining_estimate t window slope = no_estimate Est_stable"
  by (simp add: remaining_estimate_def order_trans [of _ 0 slope])

lemma rising_never_estimated:
  assumes "trend_inv t" "sorted (map snd (tr_samples t))"
  shows "re_state (trend_estimate t ch) \<noteq> Est_estimated
    \<and> re_state (trend_estimate t ch) \<noteq> Est_threshold_reached"
  using rising_slope [OF assms]
  by (auto simp: trend_estimate_def Let_def rising_stable no_estimate_def split: option.splits)

text \<open>
  The remaining-time estimate is sane. Over any run of samples from a new estimator the window
  keeps its shape (strictly increasing times, at most 300 seconds and 600 samples), a charging
  robot is given no number, an estimated time lies between one minute and a day, and as long as
  neither the voltage nor the level in the window ever falls, no remaining time is announced.
\<close>

theorem battery_estimate_sane:
  assumes "e = estimator_run (battery_estimator_new low cutoff) samples"
  shows "trend_inv (ber_pct e) \<and> trend_inv (ber_volt e)
    \<and> estimator_estimate e True has_pct = no_estimate Est_charging
    \<and> (re_state (estimator_estimate e ch has_pct) = Est_estimated
       \<longrightarrow> (\<exists>m. re_minutes (estimator_estimate e ch has_pct) = Some m \<and> 1 \<le> m \<and> m \<le> 1440))
    \<and> (sorted (map snd (tr_samples (ber_pct e))) \<and> sorted (map snd (tr_samples (ber_volt e)))
       \<longrightarrow> re_minutes (estimator_estimate e ch has_pct) = None)"
proof -
  have inv: "estimator_inv e" unfolding assms by (rule estimator_inv_run [OF estimator_inv_new])
  have none: "re_minutes (trend_estimate t False) = None"
    if "re_state (trend_estimate t False) \<noteq> Est_estimated"
      "re_state (trend_estimate t False) \<noteq> Est_threshold_reached" for t
    using that
    by (auto simp: trend_estimate_def remaining_estimate_def Let_def no_estimate_def
        split: if_splits option.splits)
  show ?thesis
    using inv rising_never_estimated [of "ber_pct e" False] rising_never_estimated [of "ber_volt e" False]
      trend_estimate_range [of "ber_pct e" False] trend_estimate_range [of "ber_volt e" False]
      none [of "ber_pct e"] none [of "ber_volt e"]
    by (auto simp: estimator_inv_def estimator_estimate_def no_estimate_def)
qed

theorem battery_estimate_sane_witness:
  "let e = estimator_run (battery_estimator_new 20 22)
      [(0, 26, None, False), (10, 25, None, False), (20, 24, None, False), (30, 23, None, False)]
   in re_state (estimator_estimate e False False) = Est_estimated
      \<and> (\<exists>m. re_minutes (estimator_estimate e False False) = Some m \<and> 1 \<le> m \<and> m \<le> 1440)"
proof -
  define e where "e = estimator_run (battery_estimator_new 20 22)
      [(0, 26, None, False), (10, 25, None, False), (20, 24, None, False), (30, 23, None, False)]"
  have "re_state (estimator_estimate e False False) = Est_estimated"
    unfolding e_def
    by (simp add: estimator_run_def estimator_add_def battery_estimator_new_def trend_new_def trend_add_def
        deque_append_def MAXLEN_def estimator_estimate_def trend_estimate_def remaining_estimate_def
        trend_slope_def elapsed_times_def Let_def spread_def mean_def
        covariation_def no_estimate_def power2_eq_square)
  then show ?thesis using battery_estimate_sane [OF e_def] by (simp add: Let_def flip: e_def)
qed

end
