(* ===== verification/Robot_State.thy ===== *)
theory Robot_State
  imports Status Battery_Estimator "HOL-Library.List_Lexorder" "HOL-Library.Char_ord"
    "HOL-Library.Product_Lexorder"
begin

text \<open>
  The per-robot state store (\<open>server/app/telemetry/store.py\<close>). Every operation takes the monotonic
  clock reading \<open>now\<close>; the counter of event ids, shared by all robots of the server, is passed in
  and returned. Wall-clock stamps are left out and event sentences are constructors.
\<close>

subsection \<open>Slices and events\<close>

record 'a slice =
  sl_data :: "'a option"
  sl_received :: "rat option"

definition slice_new :: "'a slice" where
  "slice_new = \<lparr>sl_data = None, sl_received = None\<rparr>"

definition slice_set :: "'a \<Rightarrow> rat \<Rightarrow> 'a slice" where
  "slice_set x now = \<lparr>sl_data = Some x, sl_received = Some now\<rparr>"

definition slice_age :: "'a slice \<Rightarrow> rat \<Rightarrow> pyfloat option" where
  "slice_age s now = map_option (\<lambda>t. Fin (max 0 (now - t))) (sl_received s)"

lemma slice_simps [simp]:
  "sl_data slice_new = None" "sl_received slice_new = None"
  "sl_data (slice_set x t) = Some x" "sl_received (slice_set x t) = Some t"
  by (simp_all add: slice_new_def slice_set_def)

datatype event_text = Ev_stuck | Ev_battery_low pyfloat | Ev_charging_started | Ev_charging_stopped
  | Ev_estop_pressed | Ev_estop_released | Ev_bumper_front | Ev_bumper_rear
  | Ev_system_attention string string | Ev_system_recovered string | Ev_map_updated string
  | Ev_robot_disconnected | Ev_robot_connected | Ev_text string string

record event =
  ev_id :: int
  ev_severity :: severity
  ev_text :: event_text

text \<open>\<open>EventIdAllocator\<close>: \<open>allocate\<close> hands out the next id, \<open>seed\<close> never moves backwards.\<close>

definition allocate_id :: "int \<Rightarrow> int \<times> int" where
  "allocate_id next = (next, next + 1)"

definition seed_ids :: "int \<Rightarrow> int \<Rightarrow> int" where
  "seed_ids next n = max next n"

record server_settings =
  st_battery_low_percent :: rat
  st_battery_critical_percent :: rat
  st_battery_cutoff_voltage :: rat
  st_stall_warning_s :: rat

record robot_state =
  rb_pose :: "pose_data slice"
  rb_lidar :: "lidar_data slice"
  rb_path :: "path_data slice"
  rb_battery :: "battery_data slice"
  rb_base_state :: "base_state_data slice"
  rb_motion :: "motion_data slice"
  rb_diagnostics :: "diagnostic_item list slice"
  rb_resources :: "resources_data slice"
  rb_map :: "map_data slice"
  rb_last_heartbeat :: "rat option"
  rb_connection :: connection_state
  rb_capabilities :: "string list"
  rb_battery_estimate :: "runtime_estimate option"
  rb_recording :: bool
  rb_events :: "event list"
  rb_diag_levels :: "(string \<times> diag_level) list"
  rb_diagnostic_sources :: "(string \<times> diagnostic_item \<times> rat) list"
  rb_prev_estop :: bool
  rb_prev_bumper :: bool
  rb_prev_battery_low :: bool
  rb_stopped_since :: "rat option"
  rb_stalled :: bool
  rb_status :: "(robot_status \<times> status_detail) option"
  rb_health :: "(health_level \<times> subsystem list) option"
  rb_estimator :: battery_estimator

definition state_new :: "server_settings \<Rightarrow> robot_state" where
  "state_new st = \<lparr>rb_pose = slice_new, rb_lidar = slice_new, rb_path = slice_new, rb_battery = slice_new,
     rb_base_state = slice_new, rb_motion = slice_new, rb_diagnostics = slice_new, rb_resources = slice_new,
     rb_map = slice_new, rb_last_heartbeat = None, rb_connection = Offline, rb_capabilities = [],
     rb_battery_estimate = None, rb_recording = False, rb_events = [], rb_diag_levels = [],
     rb_diagnostic_sources = [], rb_prev_estop = False, rb_prev_bumper = False,
     rb_prev_battery_low = False, rb_stopped_since = None, rb_stalled = False, rb_status = None,
     rb_health = None,
     rb_estimator = battery_estimator_new (st_battery_low_percent st) (st_battery_cutoff_voltage st)\<rparr>"

definition EVENT_LIMIT :: nat where "EVENT_LIMIT = 500"

text \<open>
  The result of an operation: the state, the next event id and the new events, oldest first.
  \<open>add_event\<close> puts the event in front of the bounded deque.
\<close>

type_synonym ingest = "robot_state \<times> int \<times> event list"

definition add_event :: "severity \<Rightarrow> event_text \<Rightarrow> ingest \<Rightarrow> ingest" where
  "add_event sev txt r =
     (let (s, next, evs) = r;
          (i, next1) = allocate_id next;
          e = \<lparr>ev_id = i, ev_severity = sev, ev_text = txt\<rparr>
      in (s\<lparr>rb_events := take EVENT_LIMIT (e # rb_events s)\<rparr>, next1, evs @ [e]))"

definition add_event_if :: "bool \<Rightarrow> severity \<Rightarrow> event_text \<Rightarrow> ingest \<Rightarrow> ingest" where
  "add_event_if b sev txt r = (if b then add_event sev txt r else r)"

definition on_state :: "(robot_state \<Rightarrow> robot_state) \<Rightarrow> ingest \<Rightarrow> ingest" where
  "on_state f r = (let (s, next, evs) = r in (f s, next, evs))"

subsection \<open>Ingestion\<close>

definition record_heartbeat :: "rat \<Rightarrow> robot_state \<Rightarrow> robot_state" where
  "record_heartbeat now s = s\<lparr>rb_last_heartbeat := Some now\<rparr>"

definition heartbeat_age :: "robot_state \<Rightarrow> rat \<Rightarrow> rat option" where
  "heartbeat_age s now = map_option (\<lambda>t. max 0 (now - t)) (rb_last_heartbeat s)"

definition set_capabilities :: "string list \<Rightarrow> robot_state \<Rightarrow> robot_state" where
  "set_capabilities caps s = s\<lparr>rb_capabilities := caps\<rparr>"

definition update_stall :: "server_settings \<Rightarrow> rat \<Rightarrow> pose_data \<Rightarrow> ingest \<Rightarrow> ingest" where
  "update_stall st now p r =
     (let s = fst r;
          explained = (case sl_data (rb_base_state s) of None \<Rightarrow> False
             | Some b \<Rightarrow> \<not> bs_motors_enabled b \<or> bs_estop_pressed b);
          stopped = (pf_lt (pf_abs (ps_linear_velocity p)) (Fin (2 / 100))
             \<and> pf_lt (pf_abs (ps_angular_velocity p)) (Fin (5 / 100)));
          goal = (case sl_data (rb_path s) of None \<Rightarrow> False | Some pt \<Rightarrow> pt_goal pt \<noteq> None)
      in if \<not> goal \<or> \<not> stopped \<or> explained
         then on_state (\<lambda>s. s\<lparr>rb_stopped_since := None, rb_stalled := False\<rparr>) r
         else let since = (case rb_stopped_since s of None \<Rightarrow> now | Some t \<Rightarrow> t);
                  r1 = on_state (\<lambda>s. s\<lparr>rb_stopped_since := Some since\<rparr>) r
              in if rb_stalled s \<or> now - since < st_stall_warning_s st then r1
                 else add_event Warning_event Ev_stuck (on_state (\<lambda>s. s\<lparr>rb_stalled := True\<rparr>) r1))"

definition record_pose :: "server_settings \<Rightarrow> rat \<Rightarrow> pose_data \<Rightarrow> ingest \<Rightarrow> ingest" where
  "record_pose st now p r =
     update_stall st now p (on_state (\<lambda>s. s\<lparr>rb_pose := slice_set p now\<rparr>) r)"

definition record_lidar :: "rat \<Rightarrow> lidar_data \<Rightarrow> ingest \<Rightarrow> ingest" where
  "record_lidar now d r = on_state (\<lambda>s. s\<lparr>rb_lidar := slice_set d now\<rparr>) r"

definition record_path :: "rat \<Rightarrow> path_data \<Rightarrow> ingest \<Rightarrow> ingest" where
  "record_path now d r = on_state (\<lambda>s. s\<lparr>rb_path := slice_set d now\<rparr>) r"

definition record_resources :: "rat \<Rightarrow> resources_data \<Rightarrow> ingest \<Rightarrow> ingest" where
  "record_resources now d r = on_state (\<lambda>s. s\<lparr>rb_resources := slice_set d now\<rparr>) r"

text \<open>
  \<open>record_battery\<close> for a finite voltage; the regression over a non-finite one is not modelled and
  is the value \<open>None\<close>.
\<close>

definition record_battery :: "server_settings \<Rightarrow> rat \<Rightarrow> battery_data \<Rightarrow> ingest \<Rightarrow> ingest option" where
  "record_battery st now d r =
     (case rat_of (bt_voltage d) of
        None \<Rightarrow> None
      | Some v \<Rightarrow>
          let previous = sl_data (rb_battery (fst r));
              est = estimator_add (rb_estimator (fst r)) now v (bt_percentage d) (bt_charging d);
              est_now = estimator_estimate est (bt_charging d) (bt_percentage d \<noteq> None);
              low = (case bt_percentage d of None \<Rightarrow> False
                 | Some p \<Rightarrow> pf_le p (Fin (st_battery_low_percent st)) \<and> \<not> bt_charging d);
              was_low = rb_prev_battery_low (fst r);
              r1 = on_state (\<lambda>s. s\<lparr>rb_estimator := est, rb_battery_estimate := Some est_now,
                     rb_battery := slice_set d now\<rparr>) r;
              r2 = add_event_if (low \<and> \<not> was_low) Warning_event
                     (Ev_battery_low (case bt_percentage d of None \<Rightarrow> NaN | Some p \<Rightarrow> p)) r1;
              r3 = on_state (\<lambda>s. s\<lparr>rb_prev_battery_low := low\<rparr>) r2;
              r4 = add_event_if (case previous of None \<Rightarrow> False
                     | Some b \<Rightarrow> bt_charging d \<and> \<not> bt_charging b) Info Ev_charging_started r3
          in Some (add_event_if (case previous of None \<Rightarrow> False
                     | Some b \<Rightarrow> \<not> bt_charging d \<and> bt_charging b) Info Ev_charging_stopped r4))"

definition record_base_state :: "rat \<Rightarrow> base_state_data \<Rightarrow> ingest \<Rightarrow> ingest" where
  "record_base_state now d r =
     (let estop0 = rb_prev_estop (fst r); bump0 = rb_prev_bumper (fst r);
          bump = (bs_bumpers_front d \<or> bs_bumpers_rear d);
          r1 = add_event_if (bs_estop_pressed d \<and> \<not> estop0) Critical Ev_estop_pressed r;
          r2 = add_event_if (\<not> bs_estop_pressed d \<and> estop0) Info Ev_estop_released r1;
          r3 = add_event_if (bump \<and> \<not> bump0) Warning_event
                 (if bs_bumpers_front d then Ev_bumper_front else Ev_bumper_rear) r2
      in on_state (\<lambda>s. s\<lparr>rb_prev_estop := bs_estop_pressed d, rb_prev_bumper := bump,
             rb_motion := (case sl_data (rb_motion s) of None \<Rightarrow> rb_motion s
                | Some m \<Rightarrow> if mo_session_generation m \<noteq> bs_session_generation d then slice_new
                            else rb_motion s),
             rb_base_state := slice_set d now\<rparr>) r3)"

definition record_motion :: "rat \<Rightarrow> motion_data \<Rightarrow> ingest \<Rightarrow> ingest" where
  "record_motion now d r =
     (case sl_data (rb_base_state (fst r)) of
        Some b \<Rightarrow> if mo_session_generation d \<noteq> bs_session_generation b then r
                  else on_state (\<lambda>s. s\<lparr>rb_motion := slice_set d now\<rparr>) r
      | None \<Rightarrow> on_state (\<lambda>s. s\<lparr>rb_motion := slice_set d now\<rparr>) r)"

definition record_map :: "rat \<Rightarrow> map_data \<Rightarrow> ingest \<Rightarrow> ingest" where
  "record_map now d r =
     add_event Info (Ev_map_updated (mp_name d)) (on_state (\<lambda>s. s\<lparr>rb_map := slice_set d now\<rparr>) r)"

subsection \<open>Diagnostics\<close>

definition DIAGNOSTIC_SOURCE_RETENTION_S :: rat where
  "DIAGNOSTIC_SOURCE_RETENTION_S = 5 * MAX_DIAGNOSTICS_AGE_S"

text \<open>
  One source as it is shown: nothing once it aged out, marked stale once it is silent. The third
  component of a source is its receipt time.
\<close>

definition expired :: "rat \<Rightarrow> rat \<Rightarrow> bool" where
  "expired now received = (DIAGNOSTIC_SOURCE_RETENTION_S < max 0 (now - received))"

definition shown_item :: "rat \<Rightarrow> string \<times> diagnostic_item \<times> rat \<Rightarrow> diagnostic_item" where
  "shown_item now src =
     (let (name, item, received) = src
      in if MAX_DIAGNOSTICS_AGE_S < max 0 (now - received) \<and> di_level item \<noteq> STALE
         then item\<lparr>di_level := STALE, di_message := ''No recent report from '' @ name @ ''.''\<rparr>
         else item)"

definition item_key :: "diagnostic_item \<Rightarrow> string \<times> string" where
  "item_key i = (py_lower (di_name i), di_name i)"

definition refresh_diagnostics :: "rat \<Rightarrow> robot_state \<Rightarrow> robot_state" where
  "refresh_diagnostics now s =
     (let live = filter (\<lambda>(name, item, received). \<not> expired now received) (rb_diagnostic_sources s);
          gone = map fst (filter (\<lambda>(name, item, received). expired now received) (rb_diagnostic_sources s));
          items = sort_key item_key (map (shown_item now) live)
      in s\<lparr>rb_diagnostic_sources := live,
           rb_diag_levels := filter (\<lambda>p. fst p \<notin> set gone) (rb_diag_levels s),
           rb_diagnostics := (rb_diagnostics s)\<lparr>sl_data := (if items = [] then None else Some items)\<rparr>\<rparr>)"

definition record_item :: "rat \<Rightarrow> ingest \<Rightarrow> diagnostic_item \<Rightarrow> ingest" where
  "record_item now r item =
     (let previous = dget (rb_diag_levels (fst r)) (di_name item);
          r1 = (if di_level item \<noteq> OK \<and> previous \<noteq> Some (di_level item)
                then add_event (if di_level item = ERROR then Critical else Warning_event)
                       (Ev_system_attention (di_name item) (di_message item)) r
                else if di_level item = OK \<and> (case previous of None \<Rightarrow> False | Some l \<Rightarrow> l \<noteq> OK)
                then add_event Info (Ev_system_recovered (di_name item)) r
                else r)
      in on_state (\<lambda>s. s\<lparr>rb_diag_levels := dset (rb_diag_levels s) (di_name item) (di_level item),
             rb_diagnostic_sources := dset (rb_diagnostic_sources s) (di_name item) (item, now)\<rparr>) r1)"

definition record_diagnostics :: "rat \<Rightarrow> diagnostic_item list \<Rightarrow> ingest \<Rightarrow> ingest" where
  "record_diagnostics now items r =
     (let r1 = on_state (refresh_diagnostics now) r;
          r2 = foldl (record_item now) r1 items;
          r3 = on_state (refresh_diagnostics now) r2
      in on_state (\<lambda>s. s\<lparr>rb_diagnostics := (rb_diagnostics s)\<lparr>sl_received := Some now\<rparr>\<rparr>) r3)"

subsection \<open>Connection and derived state\<close>

definition set_connection :: "connection_state \<Rightarrow> ingest \<Rightarrow> ingest" where
  "set_connection conn r =
     (let old = rb_connection (fst r)
      in if conn = old then r
         else let r1 = (if conn = Online then on_state (\<lambda>s. s\<lparr>rb_diagnostic_sources := [],
                             rb_diag_levels := [], rb_diagnostics := slice_new\<rparr>) r else r);
                  r2 = add_event_if (conn = Offline) Critical Ev_robot_disconnected r1;
                  r3 = add_event_if (conn = Online) Info Ev_robot_connected r2
              in on_state (\<lambda>s. s\<lparr>rb_connection := conn\<rparr>) r3)"

definition health_of_state :: "server_settings \<Rightarrow> rat \<Rightarrow> robot_state \<Rightarrow> health_input" where
  "health_of_state st now s =
     \<lparr>hi_connection = rb_connection s, hi_base_state = sl_data (rb_base_state s),
      hi_battery = sl_data (rb_battery s), hi_diagnostics = sl_data (rb_diagnostics s),
      hi_pose = sl_data (rb_pose s), hi_resources = sl_data (rb_resources s),
      hi_lidar_age = slice_age (rb_lidar s) now, hi_base_age = slice_age (rb_base_state s) now,
      hi_battery_age = slice_age (rb_battery s) now, hi_diagnostics_age = slice_age (rb_diagnostics s) now,
      hi_pose_age = slice_age (rb_pose s) now, hi_resources_age = slice_age (rb_resources s) now,
      hi_low = Fin (st_battery_low_percent st), hi_critical = Fin (st_battery_critical_percent st)\<rparr>"

definition status_of_state :: "rat \<Rightarrow> robot_state \<Rightarrow> robot_status \<times> status_detail" where
  "status_of_state now s =
     derive_status (rb_connection s) (sl_data (rb_base_state s)) (sl_data (rb_diagnostics s))
       (sl_data (rb_pose s)) (sl_data (rb_path s)) (rb_recording s) (rb_stalled s)
       (slice_age (rb_base_state s) now) (slice_age (rb_diagnostics s) now) (slice_age (rb_pose s) now)"

text \<open>\<open>recompute\<close> returns the status and the health card, each only when it changed.\<close>

definition recompute ::
  "server_settings \<Rightarrow> rat \<Rightarrow> robot_state
   \<Rightarrow> robot_state \<times> (robot_status \<times> status_detail) option \<times> (health_level \<times> subsystem list) option" where
  "recompute st now s0 =
     (let s = refresh_diagnostics now s0;
          status = status_of_state now s;
          health = derive_health (health_of_state st now s)
      in (s\<lparr>rb_status := Some status, rb_health := Some health\<rparr>,
          if rb_status s = Some status then None else Some status,
          if rb_health s = Some health then None else Some health))"

subsection \<open>Events are numbered once\<close>

text \<open>
  An operation appends freshly numbered events: their ids are the consecutive numbers from the old
  counter to the new one, and they are put in front of the bounded event log.
\<close>

definition emits :: "ingest \<Rightarrow> ingest \<Rightarrow> bool" where
  "emits r r' \<longleftrightarrow>
     (\<exists>new. snd (snd r') = snd (snd r) @ new
        \<and> fst (snd r) \<le> fst (snd r') \<and> map ev_id new = [fst (snd r)..fst (snd r') - 1]
        \<and> rb_events (fst r') = take EVENT_LIMIT (rev new @ rb_events (fst r)))"

definition log_bounded :: "robot_state \<Rightarrow> bool" where
  "log_bounded s \<longleftrightarrow> length (rb_events s) \<le> EVENT_LIMIT"

lemma emits_refl: "log_bounded (fst r) \<Longrightarrow> emits r r"
  by (simp add: emits_def log_bounded_def)

lemma emits_bounded: "emits r r' \<Longrightarrow> log_bounded (fst r')"
  by (auto simp: emits_def log_bounded_def)

lemma take_append_take: "take n (xs @ take n ys) = take n (xs @ ys)"
  by (simp add: min_def)

lemma upto_join: "a \<le> b \<Longrightarrow> b \<le> c \<Longrightarrow> [a..c - 1] = [a..b - 1] @ [b..c - (1 :: int)]"
proof (cases "a = b")
  case False
  assume "a \<le> b" "b \<le> c"
  with False show ?thesis using upto_split2 [of a "b - 1" "c - 1"] by simp
qed simp

lemma emits_trans: "emits r1 r2 \<Longrightarrow> emits r2 r3 \<Longrightarrow> emits r1 r3"
proof -
  assume "emits r1 r2" "emits r2 r3"
  then obtain n1 n2 where
    n1: "snd (snd r2) = snd (snd r1) @ n1" "fst (snd r1) \<le> fst (snd r2)"
      "map ev_id n1 = [fst (snd r1)..fst (snd r2) - 1]"
      "rb_events (fst r2) = take EVENT_LIMIT (rev n1 @ rb_events (fst r1))" and
    n2: "snd (snd r3) = snd (snd r2) @ n2" "fst (snd r2) \<le> fst (snd r3)"
      "map ev_id n2 = [fst (snd r2)..fst (snd r3) - 1]"
      "rb_events (fst r3) = take EVENT_LIMIT (rev n2 @ rb_events (fst r2))"
    unfolding emits_def by blast
  have "[fst (snd r1)..fst (snd r3) - 1]
      = [fst (snd r1)..fst (snd r2) - 1] @ [fst (snd r2)..fst (snd r3) - 1]"
    using n1(2) n2(2) by (rule upto_join)
  then show ?thesis
    unfolding emits_def
    by (intro exI [of _ "n1 @ n2"]) (use n1 n2 in \<open>simp add: take_append_take del: take_append\<close>)
qed

lemma emits_add: "emits r (add_event sev txt r)"
  by (cases r) (auto simp: emits_def add_event_def allocate_id_def Let_def simp del: take_append)

lemma emits_add_if: "log_bounded (fst r) \<Longrightarrow> emits r (add_event_if b sev txt r)"
  by (simp add: add_event_if_def emits_add emits_refl)

lemma emits_on_state:
  "log_bounded (fst r) \<Longrightarrow> (\<And>s. rb_events (f s) = rb_events s) \<Longrightarrow> emits r (on_state f r)"
  by (cases r) (simp add: emits_def on_state_def log_bounded_def)

lemma emits_then_state: "emits r r' \<Longrightarrow> (\<And>s. rb_events (f s) = rb_events s) \<Longrightarrow> emits r (on_state f r')"
  by (rule emits_trans [OF _ emits_on_state]) (auto dest: emits_bounded)

lemma emits_then_add: "emits r r' \<Longrightarrow> emits r (add_event sev txt r')"
  by (rule emits_trans [OF _ emits_add])

lemma emits_then_add_if: "emits r r' \<Longrightarrow> emits r (add_event_if b sev txt r')"
  by (rule emits_trans [OF _ emits_add_if]) (auto dest: emits_bounded)

lemmas emits_rules = emits_refl emits_then_state emits_then_add emits_then_add_if

lemma emits_pose: "log_bounded (fst r) \<Longrightarrow> emits r (record_pose st now p r)"
  by (auto simp: record_pose_def update_stall_def Let_def intro!: emits_rules)

lemma emits_simple:
  assumes "log_bounded (fst r)"
  shows "emits r (record_lidar now d1 r)" "emits r (record_path now d2 r)"
    "emits r (record_resources now d3 r)" "emits r (record_map now d4 r)"
  using assms
  by (auto simp: record_lidar_def record_path_def record_resources_def record_map_def intro!: emits_rules)

lemma emits_motion: "log_bounded (fst r) \<Longrightarrow> emits r (record_motion now d r)"
  by (auto simp: record_motion_def intro!: emits_rules split: option.splits)

lemma emits_base_state: "log_bounded (fst r) \<Longrightarrow> emits r (record_base_state now d r)"
  by (simp add: record_base_state_def Let_def emits_rules)

lemma emits_battery: "log_bounded (fst r) \<Longrightarrow> record_battery st now d r = Some r' \<Longrightarrow> emits r r'"
  by (auto simp: record_battery_def Let_def intro!: emits_rules split: option.splits)

lemma refresh_events [simp]: "rb_events (refresh_diagnostics now s) = rb_events s"
  by (simp add: refresh_diagnostics_def Let_def)

lemma emits_item: "emits r r' \<Longrightarrow> emits r (record_item now r' item)"
  by (auto simp: record_item_def Let_def intro!: emits_rules)

lemma emits_items: "emits r r' \<Longrightarrow> emits r (foldl (record_item now) r' items)"
proof (induction items arbitrary: r')
  case (Cons a items)
  show ?case using Cons.IH [OF emits_item [OF Cons.prems]] by simp
qed simp

lemma emits_diagnostics: "log_bounded (fst r) \<Longrightarrow> emits r (record_diagnostics now items r)"
  unfolding record_diagnostics_def Let_def
  by (intro emits_then_state emits_items emits_on_state) simp_all

lemma emits_connection: "log_bounded (fst r) \<Longrightarrow> emits r (set_connection conn r)"
  by (simp add: set_connection_def Let_def emits_rules)

text \<open>The operations that may run on one robot between two broadcasts.\<close>

inductive ingest_step :: "server_settings \<Rightarrow> ingest \<Rightarrow> ingest \<Rightarrow> bool" for st :: server_settings where
  ing_pose: "ingest_step st r (record_pose st now d r)"
| ing_lidar: "ingest_step st r (record_lidar now d r)"
| ing_path: "ingest_step st r (record_path now d r)"
| ing_resources: "ingest_step st r (record_resources now d r)"
| ing_battery: "record_battery st now d r = Some r' \<Longrightarrow> ingest_step st r r'"
| ing_base: "ingest_step st r (record_base_state now d r)"
| ing_motion: "ingest_step st r (record_motion now d r)"
| ing_diagnostics: "ingest_step st r (record_diagnostics now items r)"
| ing_map: "ingest_step st r (record_map now d r)"
| ing_connection: "ingest_step st r (set_connection conn r)"
| ing_event: "ingest_step st r (add_event sev txt r)"
| ing_heartbeat: "ingest_step st r (on_state (record_heartbeat now) r)"
| ing_capabilities: "ingest_step st r (on_state (set_capabilities caps) r)"
| ing_recompute: "ingest_step st r (on_state (\<lambda>s. fst (recompute st now s)) r)"

inductive_cases ingest_stepE: "ingest_step st r r'"

lemma ingest_emits: "ingest_step st r r' \<Longrightarrow> log_bounded (fst r) \<Longrightarrow> emits r r'"
  by (erule ingest_stepE)
    (auto intro: emits_pose emits_simple emits_battery emits_base_state emits_motion emits_diagnostics
      emits_connection emits_add emits_on_state
      simp: record_heartbeat_def set_capabilities_def recompute_def Let_def)

text \<open>
  A server with several robots: one counter, one operation on one robot at a time, and a log of all
  events ever emitted, oldest first. The counter may be seeded from the persisted log at any time.
\<close>

record 'i fleet =
  fl_robots :: "'i \<Rightarrow> robot_state"
  fl_next :: int
  fl_emitted :: "event list"

inductive fleet_reachable :: "server_settings \<Rightarrow> 'i fleet \<Rightarrow> bool" for st :: server_settings where
  fleet_start: "fleet_reachable st \<lparr>fl_robots = \<lambda>_. state_new st, fl_next = n, fl_emitted = []\<rparr>"
| fleet_seed: "fleet_reachable st f \<Longrightarrow> fleet_reachable st (f\<lparr>fl_next := seed_ids (fl_next f) n\<rparr>)"
| fleet_op: "fleet_reachable st f \<Longrightarrow> ingest_step st (fl_robots f i, fl_next f, []) (s', n', evs)
    \<Longrightarrow> fleet_reachable st \<lparr>fl_robots = (fl_robots f)(i := s'), fl_next = n', fl_emitted = fl_emitted f @ evs\<rparr>"

text \<open>
  Event ids are never issued twice. On a server with any number of robots sharing the
  allocator, whatever is ingested in whatever order and however often the counter is seeded, the
  ids of all emitted events are strictly increasing in the order of emission and below the next id,
  and every robot's log holds at most 500 events.
\<close>

theorem event_ids_never_reused:
  assumes "fleet_reachable st f"
  shows "sorted_wrt (<) (map ev_id (fl_emitted f)) \<and> (\<forall>e\<in>set (fl_emitted f). ev_id e < fl_next f)
    \<and> (\<forall>i. length (rb_events (fl_robots f i)) \<le> 500)"
  using assms
proof (induction rule: fleet_reachable.induct)
  case (fleet_start n)
  then show ?case by (simp add: state_new_def)
next
  case (fleet_seed f n)
  then show ?case by (auto simp: seed_ids_def)
next
  case (fleet_op f i s' n' evs)
  have b: "log_bounded (fl_robots f i)" using fleet_op by (simp add: log_bounded_def EVENT_LIMIT_def)
  have em: "emits (fl_robots f i, fl_next f, []) (s', n', evs)"
    using ingest_emits [OF fleet_op(2)] b by simp
  then have evs: "fl_next f \<le> n'" "map ev_id evs = [fl_next f..n' - 1]" by (auto simp: emits_def)
  have ids: "ev_id e \<in> {fl_next f..n' - 1}" if "e \<in> set evs" for e
    using that evs(2) by (metis image_eqI list.set_map set_upto)
  have "sorted_wrt (<) (map ev_id evs)" unfolding evs(2) by simp
  then have "sorted_wrt (<) (map ev_id (fl_emitted f @ evs))"
    using fleet_op ids by (auto simp: sorted_wrt_append intro: less_le_trans)
  moreover have "log_bounded s'" using emits_bounded [OF em] by simp
  ultimately show ?case using fleet_op ids evs(1) by (auto simp: log_bounded_def EVENT_LIMIT_def dest: ids)
qed

definition example_settings :: server_settings where
  "example_settings = \<lparr>st_battery_low_percent = 20, st_battery_critical_percent = 10,
     st_battery_cutoff_voltage = 22, st_stall_warning_s = 10\<rparr>"

theorem event_ids_never_reused_witness:
  "\<exists>f :: nat fleet. fleet_reachable example_settings f \<and> map ev_id (fl_emitted f) = [7, 8]
     \<and> sorted_wrt (<) (map ev_id (fl_emitted f))"
proof -
  define f0 :: "nat fleet" where "f0 = \<lparr>fl_robots = \<lambda>_. state_new example_settings, fl_next = 7, fl_emitted = []\<rparr>"
  have r0: "fleet_reachable example_settings f0" unfolding f0_def by (rule fleet_start)
  obtain s1 n1 e1 where a1: "add_event Info (Ev_text [] []) (fl_robots f0 0, fl_next f0, []) = (s1, n1, e1)"
    by (metis prod_cases3)
  define f1 where "f1 = \<lparr>fl_robots = (fl_robots f0)(0 := s1), fl_next = n1, fl_emitted = fl_emitted f0 @ e1\<rparr>"
  have r1: "fleet_reachable example_settings f1" unfolding f1_def by (rule fleet_op [OF r0]) (metis a1 ing_event)
  obtain s2 n2 e2 where a2: "add_event Info (Ev_text [] []) (fl_robots f1 1, fl_next f1, []) = (s2, n2, e2)"
    by (metis prod_cases3)
  define f2 where "f2 = \<lparr>fl_robots = (fl_robots f1)(1 := s2), fl_next = n2, fl_emitted = fl_emitted f1 @ e2\<rparr>"
  have r2: "fleet_reachable example_settings f2" unfolding f2_def by (rule fleet_op [OF r1]) (metis a2 ing_event)
  have "map ev_id (fl_emitted f2) = [7, 8]"
    using a1 a2 by (auto simp: f2_def f1_def f0_def add_event_def allocate_id_def Let_def)
  then show ?thesis using r2 event_ids_never_reused [OF r2] by (intro exI [of _ f2]) simp
qed

subsection \<open>Motion samples belong to the live session\<close>

lemma on_state_fst [simp]: "fst (on_state f r) = f (fst r)"
  by (cases r) (simp add: on_state_def)

lemma add_event_fst [simp]:
  "rb_motion (fst (add_event sev txt r)) = rb_motion (fst r)"
  "rb_base_state (fst (add_event sev txt r)) = rb_base_state (fst r)"
  "rb_diag_levels (fst (add_event sev txt r)) = rb_diag_levels (fst r)"
  "rb_diagnostic_sources (fst (add_event sev txt r)) = rb_diagnostic_sources (fst r)"
  by (cases r; simp add: add_event_def allocate_id_def Let_def)+

lemma add_event_if_fst [simp]:
  "rb_motion (fst (add_event_if b sev txt r)) = rb_motion (fst r)"
  "rb_base_state (fst (add_event_if b sev txt r)) = rb_base_state (fst r)"
  by (simp_all add: add_event_if_def)

definition motion_bound :: "robot_state \<Rightarrow> bool" where
  "motion_bound s \<longleftrightarrow>
     (\<forall>m b. sl_data (rb_motion s) = Some m \<longrightarrow> sl_data (rb_base_state s) = Some b
        \<longrightarrow> mo_session_generation m = bs_session_generation b)"

lemma refresh_frame [simp]:
  "rb_motion (refresh_diagnostics now s) = rb_motion s"
  "rb_base_state (refresh_diagnostics now s) = rb_base_state s"
  by (simp_all add: refresh_diagnostics_def Let_def)

lemma items_frame [simp]:
  "rb_motion (fst (foldl (record_item now) r items)) = rb_motion (fst r)"
  "rb_base_state (fst (foldl (record_item now) r items)) = rb_base_state (fst r)"
proof -
  have "rb_motion (fst (record_item now r i)) = rb_motion (fst r)
      \<and> rb_base_state (fst (record_item now r i)) = rb_base_state (fst r)" for r i
    by (simp add: record_item_def Let_def)
  then have "rb_motion (fst (foldl (record_item now) r items)) = rb_motion (fst r)
      \<and> rb_base_state (fst (foldl (record_item now) r items)) = rb_base_state (fst r)"
    by (induction items arbitrary: r) simp_all
  then show "rb_motion (fst (foldl (record_item now) r items)) = rb_motion (fst r)"
    "rb_base_state (fst (foldl (record_item now) r items)) = rb_base_state (fst r)" by blast+
qed

lemma motion_bound_base: "motion_bound (fst (record_base_state now d r))"
  by (auto simp: record_base_state_def motion_bound_def Let_def split: option.splits if_splits)

lemma motion_bound_motion: "motion_bound (fst r) \<Longrightarrow> motion_bound (fst (record_motion now d r))"
  by (auto simp: record_motion_def motion_bound_def split: option.splits)

text \<open>The other operations leave both slices alone.\<close>

definition same_slices :: "robot_state \<Rightarrow> robot_state \<Rightarrow> bool" where
  "same_slices s s' \<longleftrightarrow> rb_motion s' = rb_motion s \<and> rb_base_state s' = rb_base_state s"

lemma same_slices_ops:
  "same_slices (fst r) (fst (record_pose st now d1 r))"
  "same_slices (fst r) (fst (record_lidar now d2 r))"
  "same_slices (fst r) (fst (record_path now d3 r))"
  "same_slices (fst r) (fst (record_resources now d4 r))"
  "same_slices (fst r) (fst (record_map now d5 r))"
  "same_slices (fst r) (fst (record_diagnostics now items r))"
  "same_slices (fst r) (fst (set_connection conn r))"
  "same_slices (fst r) (fst (add_event sev txt r))"
  "same_slices (fst r) (fst (on_state (record_heartbeat now) r))"
  "same_slices (fst r) (fst (on_state (set_capabilities caps) r))"
  "same_slices (fst r) (fst (on_state (\<lambda>s. fst (recompute st now s)) r))"
  by (simp_all add: same_slices_def record_pose_def update_stall_def record_lidar_def record_path_def
      record_resources_def record_map_def record_diagnostics_def set_connection_def record_heartbeat_def
      set_capabilities_def recompute_def Let_def)

lemma same_slices_battery: "record_battery st now d r = Some r' \<Longrightarrow> same_slices (fst r) (fst r')"
  by (auto simp: same_slices_def record_battery_def Let_def split: option.splits)

lemma same_slices_bound: "same_slices s s' \<Longrightarrow> motion_bound s \<Longrightarrow> motion_bound s'"
  by (simp add: same_slices_def motion_bound_def)

lemma ingest_motion_bound:
  assumes "ingest_step st r r'" "motion_bound (fst r)"
  shows "motion_bound (fst r')"
  using assms(1)
proof cases
  case (ing_battery now d)
  then show ?thesis using same_slices_bound [OF same_slices_battery assms(2)] by blast
qed (use assms(2) motion_bound_base motion_bound_motion same_slices_bound [OF same_slices_ops(1)]
    same_slices_bound [OF same_slices_ops(2)] same_slices_bound [OF same_slices_ops(3)]
    same_slices_bound [OF same_slices_ops(4)] same_slices_bound [OF same_slices_ops(5)]
    same_slices_bound [OF same_slices_ops(6)] same_slices_bound [OF same_slices_ops(7)]
    same_slices_bound [OF same_slices_ops(8)] same_slices_bound [OF same_slices_ops(9)]
    same_slices_bound [OF same_slices_ops(10)] same_slices_bound [OF same_slices_ops(11)] in \<open>simp_all only:\<close>)

text \<open>
  A speed sample never survives a change of the drive-base session. In every reachable state of
  every robot the stored motion sample and the stored drive-base report, when both are present,
  carry the same session generation, whatever order the frames arrive in.
\<close>

theorem motion_bound_to_session:
  assumes "fleet_reachable st f"
  shows "motion_bound (fl_robots f i)"
  using assms
proof (induction arbitrary: i rule: fleet_reachable.induct)
  case (fleet_op f j s' n' evs)
  then show ?case using ingest_motion_bound [OF fleet_op(2)] by auto
qed (simp_all add: motion_bound_def state_new_def)

theorem motion_bound_to_session_witness:
  "motion_bound (fl_robots \<lparr>fl_robots = \<lambda>_ :: nat. state_new example_settings, fl_next = 1, fl_emitted = []\<rparr> 3)"
  by (rule motion_bound_to_session [OF fleet_start [of example_settings]])

subsection \<open>A fault stays until its own source clears it\<close>

lemma dget_filter: "dget d k = Some v \<Longrightarrow> P (k, v) \<Longrightarrow> dget (filter P d) k = Some v"
  by (induction d) (auto split: if_splits)

lemma record_item_source:
  "di_name i \<noteq> n \<Longrightarrow> dget (rb_diagnostic_sources (fst (record_item now r i))) n
     = dget (rb_diagnostic_sources (fst r)) n"
  by (simp add: record_item_def Let_def)

lemma record_items_source:
  "n \<notin> di_name ` set items \<Longrightarrow> dget (rb_diagnostic_sources (fst (foldl (record_item now) r items))) n
     = dget (rb_diagnostic_sources (fst r)) n"
  by (induction items arbitrary: r) (auto simp: record_item_source)

lemma refresh_source:
  "dget (rb_diagnostic_sources s) n = Some (item, t) \<Longrightarrow> \<not> expired now t \<Longrightarrow>
   dget (rb_diagnostic_sources (refresh_diagnostics now s)) n = Some (item, t)"
  by (simp add: refresh_diagnostics_def Let_def dget_filter)

lemma refresh_shows:
  assumes "dget (rb_diagnostic_sources s) n = Some (item, t)" "\<not> expired now t"
  shows "\<exists>items. sl_data (rb_diagnostics (refresh_diagnostics now s)) = Some items
    \<and> shown_item now (n, item, t) \<in> set items"
proof -
  let ?live = "filter (\<lambda>(name, item, received). \<not> expired now received) (rb_diagnostic_sources s)"
  let ?items = "sort_key item_key (map (shown_item now) ?live)"
  have "(n, item, t) \<in> set (rb_diagnostic_sources s)" using assms(1) by (rule dget_SomeD)
  then have "(n, item, t) \<in> set ?live" using assms(2) by simp
  then have "shown_item now (n, item, t) \<in> set ?items" by simp
  moreover from this have "?items \<noteq> []" by force
  ultimately show ?thesis by (simp add: refresh_diagnostics_def Let_def)
qed

text \<open>
  A healthy component cannot hide another one's fault. When a component reported an error at
  most thirty seconds ago, an array of reports that does not mention it leaves its error on the
  list and the system health stays at fault; once it is silent for longer it is shown as stale, and
  after 150 seconds it is dropped.
\<close>

theorem fault_survives_other_reports:
  assumes "dget (rb_diagnostic_sources (fst r)) n = Some (item, t)" "t \<le> now" "n \<notin> di_name ` set items"
  defines "s' \<equiv> fst (record_diagnostics now items r)"
  shows "(now - t \<le> 30 \<and> di_level item = ERROR \<longrightarrow>
      (\<exists>shown. sl_data (rb_diagnostics s') = Some shown \<and> item \<in> set shown)
      \<and> fst (systems_health (sl_data (rb_diagnostics s')) (slice_age (rb_diagnostics s') now)) = Fault)
    \<and> (30 < now - t \<and> now - t \<le> 150 \<longrightarrow>
      (\<exists>shown i. sl_data (rb_diagnostics s') = Some shown \<and> i \<in> set shown \<and> di_name i = di_name item
        \<and> di_level i = STALE))
    \<and> (150 < now - t \<longrightarrow> (n, item, t) \<notin> set (rb_diagnostic_sources s'))"
proof -
  define s1 where "s1 = fst (foldl (record_item now) (on_state (refresh_diagnostics now) r) items)"
  have s': "s' = (refresh_diagnostics now s1)\<lparr>rb_diagnostics :=
      (rb_diagnostics (refresh_diagnostics now s1))\<lparr>sl_received := Some now\<rparr>\<rparr>"
    by (simp add: s'_def s1_def record_diagnostics_def Let_def)
  have live: "\<not> expired now t" if "now - t \<le> 150"
    using that assms(2) by (simp add: expired_def DIAGNOSTIC_SOURCE_RETENTION_S_def age_limits)
  have src: "dget (rb_diagnostic_sources s1) n = Some (item, t)" if "now - t \<le> 150"
    unfolding s1_def
    using record_items_source [OF assms(3)] refresh_source [OF assms(1) live [OF that]] by simp
  have shown: "\<exists>items. sl_data (rb_diagnostics s') = Some items \<and> shown_item now (n, item, t) \<in> set items"
    if "now - t \<le> 150" using refresh_shows [OF src [OF that] live [OF that]] by (simp add: s')
  have fresh: "shown_item now (n, item, t) = item" if "now - t \<le> 30"
    using that assms(2) by (simp add: shown_item_def age_limits)
  have old: "di_level (shown_item now (n, item, t)) = STALE \<and> di_name (shown_item now (n, item, t)) = di_name item"
    if "30 < now - t" using that by (simp add: shown_item_def age_limits)
  have fault: "fst (systems_health (sl_data (rb_diagnostics s')) (slice_age (rb_diagnostics s') now)) = Fault"
    if "item \<in> set xs" "sl_data (rb_diagnostics s') = Some xs" "di_level item = ERROR" for xs
  proof -
    have "filter (\<lambda>i. di_level i = ERROR) xs \<noteq> []" using that by (auto simp: filter_empty_conv)
    then show ?thesis using that(2)
      by (auto simp: systems_health_def s' slice_age_def stale_age_def age_limits split: list.splits)
  qed
  have gone: "(n, item, t) \<notin> set (rb_diagnostic_sources s')" if "150 < now - t"
    using that by (simp add: s' refresh_diagnostics_def Let_def expired_def
        DIAGNOSTIC_SOURCE_RETENTION_S_def age_limits)
  show ?thesis
  proof (intro conjI impI)
    assume a: "now - t \<le> 30 \<and> di_level item = ERROR"
    then obtain xs where xs: "sl_data (rb_diagnostics s') = Some xs" "item \<in> set xs"
      using shown fresh by fastforce
    then show "\<exists>shown. sl_data (rb_diagnostics s') = Some shown \<and> item \<in> set shown" by blast
    show "fst (systems_health (sl_data (rb_diagnostics s')) (slice_age (rb_diagnostics s') now)) = Fault"
      using fault [OF xs(2,1)] a by blast
  next
    assume a: "30 < now - t \<and> now - t \<le> 150"
    then obtain xs where "sl_data (rb_diagnostics s') = Some xs" "shown_item now (n, item, t) \<in> set xs"
      using shown by blast
    then show "\<exists>shown i. sl_data (rb_diagnostics s') = Some shown \<and> i \<in> set shown
        \<and> di_name i = di_name item \<and> di_level i = STALE"
      using old a by blast
  next
    assume "150 < now - t"
    then show "(n, item, t) \<notin> set (rb_diagnostic_sources s')" by (rule gone)
  qed
qed

definition example_fault :: diagnostic_item where
  "example_fault = \<lparr>di_name = ''lidar'', di_level = ERROR, di_message = ''no scan'', di_values = None\<rparr>"

definition example_ok :: diagnostic_item where
  "example_ok = \<lparr>di_name = ''motor'', di_level = OK, di_message = [], di_values = None\<rparr>"

theorem fault_survives_other_reports_witness:
  "fst (systems_health
     (sl_data (rb_diagnostics (fst (record_diagnostics 20 [example_ok]
        (record_diagnostics 10 [example_fault] (state_new example_settings, 1, []))))))
     (slice_age (rb_diagnostics (fst (record_diagnostics 20 [example_ok]
        (record_diagnostics 10 [example_fault] (state_new example_settings, 1, []))))) 20)) = Fault"
proof -
  have "dget (rb_diagnostic_sources (fst (record_diagnostics 10 [example_fault]
      (state_new example_settings, 1, [])))) ''lidar'' = Some (example_fault, 10)"
    by (simp add: record_diagnostics_def refresh_diagnostics_def record_item_def on_state_def state_new_def
        add_event_def allocate_id_def example_fault_def Let_def expired_def DIAGNOSTIC_SOURCE_RETENTION_S_def
        age_limits)
  then show ?thesis
    using fault_survives_other_reports [of "record_diagnostics 10 [example_fault] (state_new example_settings, 1, [])"
        "''lidar''" example_fault 10 20 "[example_ok]"]
    by (simp add: example_ok_def example_fault_def)
qed

end
