(* ===== verification/Hub.thy ===== *)
theory Hub
  imports Robot_State Gates Lease Tuning_Policy
begin

text \<open>
  The shared state of the server's command path: the hub's robot sessions and browser clients
  (\<open>server/app/telemetry/hub.py\<close>), the command broker's tables
  (\<open>server/app/commands/broker.py\<close>) and the manual-drive owners
  (\<open>server/app/commands/teleop.py\<close>), in one record \<open>world\<close>. Objects compared by identity (sessions,
  sockets, clients) are numbers; the robot state is shared by all sessions of one robot, as in the
  code. What leaves the server (frames to the robot, broadcasts, database rows) is appended to a
  log, oldest first.
\<close>

subsection \<open>Objects\<close>

record user =
  us_id :: int
  us_username :: string
  us_role :: string

definition can_command :: "user \<Rightarrow> bool" where
  "can_command u = (us_role u \<in> {''operator'', ''administrator''})"

definition is_administrator :: "user \<Rightarrow> bool" where
  "is_administrator u = (us_role u = ''administrator'')"

record client =
  cl_user :: "user option"
  cl_connected :: bool

record robot_session =
  se_robot :: string
  se_websocket :: "nat option"
  se_generation :: int
  se_connected :: rat

record active_command =
  ac_command_id :: string
  ac_command :: command
  ac_robot :: string
  ac_initiator :: nat
  ac_acked :: bool
  ac_uncertain :: bool
  ac_session :: nat
  ac_websocket :: "nat option"

datatype owner_phase = Pending | Active | Closing | Unknown

record manual_owner =
  ow_command_id :: string
  ow_client :: nat
  ow_session :: nat
  ow_websocket :: "nat option"
  ow_generation :: int
  ow_base_generation :: int
  ow_phase :: owner_phase
  ow_seq :: int
  ow_last_frame :: rat
  ow_frame_times :: "rat list"
  ow_start_terminal :: bool
  ow_stop_ids :: "string list"
  ow_stop_issued :: bool
  ow_policy :: "teleop_policy option"
  ow_signature :: "(policy_mode \<times> rat \<times> rat \<times> string option) option"

subsection \<open>Refusals and outputs\<close>

datatype refusal = Read_only | Manual_active | Lidar_pending | Reset_pending_refusal | Manual_ending
  | Rate_limited | Lease_held | Duplicate_command | Needs_destination | Map_mismatch | Goal_not_finite
  | Heading_not_finite | Outside_map | Robot_not_connected | No_map_support | Other_active_map
  | Gate gate_reason | Lidar_recovery_needed | Lidar_state_pending | Canceled_in_admission
  | Navigation_active | Operation_active | Readings_of_old_connection | Policy_refusal policy_reason
  | Exceeds_policy | Policy_changed_refusal | Canceled_before_publication | Late_acceptance | Robot_declined "string option"

text \<open>Sentences of closing messages that only label why something ended are left out.\<close>

datatype emission =
    To_robot nat command_request
  | Velocity nat teleop_velocity
  | Cancel_map nat string
  | Pub_ack string bool "refusal option"
  | Pub_progress string
  | Pub_result string command_outcome
  | Event severity command
  | Audit string
  | Audit_rejection string refusal
  | Audit_complete string command_outcome

record world =
  w_robots :: "(string \<times> nat) list"
  w_sessions :: "nat \<Rightarrow> robot_session"
  w_next_session :: nat
  w_state :: "string \<Rightarrow> robot_state"
  w_clients :: "nat \<Rightarrow> client"
  w_maps :: "(string \<times> map_data) list"
  w_active :: "(string \<times> active_command) list"
  w_reset_pending :: "(string \<times> string) list"
  w_lidar_pending :: "(string \<times> string) list"
  w_lidar_recovery :: "string list"
  w_lidar_after :: "(string \<times> rat) list"
  w_seen :: "string list"
  w_lease :: lease
  w_rate :: "int rate_limiter"
  w_owners :: "(string \<times> manual_owner) list"
  w_revisions :: "(string \<times> int) list"
  w_attempts :: nat
  w_out :: "emission list"

text \<open>
  What one operation reads from its surroundings: the clock, whether a database is configured and
  which command ids it held when the server started, whether the \<open>n\<close>-th send of the server's life succeeds, the
  runtime-policy provider and the untyped policy attribute of the robot state, the cosine and sine of an angle as
  the math module returns them, the fresh UUID of a
  synthesized stop for each robot, and the settings.
\<close>

record env =
  ev_now :: rat
  ev_db :: bool
  ev_recorded :: "string \<Rightarrow> bool"
  ev_send_ok :: "nat \<Rightarrow> bool"
  ev_provider :: "provider option"
  ev_state_policy :: raw_value
  ev_trig :: "rat \<Rightarrow> rat \<times> rat"
  ev_uuid :: "string \<Rightarrow> string"
  ev_frames_per_s :: int
  ev_session_ttl_s :: rat
  ev_ack_timeout_s :: rat
  ev_online_threshold_s :: rat
  ev_offline_threshold_s :: rat
  ev_settings :: server_settings

definition out :: "emission list \<Rightarrow> world \<Rightarrow> world" where
  "out os w = w\<lparr>w_out := w_out w @ os\<rparr>"

text \<open>
  \<open>command_recorded\<close>: the audit table holds a row for the id, from an earlier life of the server or
  written since, for an admitted or a rejected request.
\<close>

definition audit_row :: "emission \<Rightarrow> string option" where
  "audit_row x = (case x of Audit cid \<Rightarrow> Some cid | Audit_rejection cid _ \<Rightarrow> Some cid | _ \<Rightarrow> None)"

definition command_recorded :: "env \<Rightarrow> world \<Rightarrow> string \<Rightarrow> bool" where
  "command_recorded e w cid = (ev_recorded e cid \<or> list_ex (\<lambda>x. audit_row x = Some cid) (w_out w))"

text \<open>One \<open>send_text\<close>: the frame leaves or the call raises (False).\<close>

definition try_send :: "env \<Rightarrow> emission \<Rightarrow> world \<Rightarrow> world \<times> bool" where
  "try_send e frame w =
     (let w1 = w\<lparr>w_attempts := Suc (w_attempts w)\<rparr>
      in if ev_send_ok e (w_attempts w) then (out [frame] w1, True) else (w1, False))"

definition session_of :: "world \<Rightarrow> string \<Rightarrow> nat option" where
  "session_of w robot = dget (w_robots w) robot"

definition revision :: "world \<Rightarrow> string \<Rightarrow> int" where
  "revision w robot = (case dget (w_revisions w) robot of None \<Rightarrow> 0 | Some r \<Rightarrow> r)"

definition base_of :: "world \<Rightarrow> string \<Rightarrow> base_state_data option" where
  "base_of w robot = sl_data (rb_base_state (w_state w robot))"

text \<open>\<open>gates.teleop_reason(state)\<close> on the state of a robot.\<close>

definition manual_gate :: "env \<Rightarrow> world \<Rightarrow> string \<Rightarrow> gate_reason option" where
  "manual_gate e w robot =
     (let s = w_state w robot
      in teleop_reason (rb_connection s) (rb_capabilities s) (sl_data (rb_base_state s))
           (slice_age (rb_base_state s) (ev_now e)))"

subsection \<open>Ownership of manual drive\<close>

definition bound :: "world \<Rightarrow> manual_owner \<Rightarrow> bool" where
  "bound w ow =
     (let s = w_sessions w (ow_session ow)
      in session_of w (se_robot s) = Some (ow_session ow) \<and> se_websocket s = ow_websocket ow
         \<and> se_generation s = ow_generation ow
         \<and> (case base_of w (se_robot s) of None \<Rightarrow> False
            | Some b \<Rightarrow> bs_session_generation b = ow_base_generation ow))"

definition owns_lease :: "world \<Rightarrow> manual_owner \<Rightarrow> bool" where
  "owns_lease w ow =
     (case lease_holder_of (w_lease w) (se_robot (w_sessions w (ow_session ow))) of
        None \<Rightarrow> False
      | Some h \<Rightarrow> lh_client h = ow_client ow \<and> cl_connected (w_clients w (ow_client ow)))"

definition set_owner :: "string \<Rightarrow> manual_owner \<Rightarrow> world \<Rightarrow> world" where
  "set_owner robot ow w = w\<lparr>w_owners := dset (w_owners w) robot ow\<rparr>"

definition current_policy :: "env \<Rightarrow> world \<Rightarrow> nat \<Rightarrow> policy_reason + teleop_policy" where
  "current_policy e w sid =
     (let robot = se_robot (w_sessions w sid)
      in resolve_policy (Cap_items (map VStr (rb_capabilities (w_state w robot)))) (ev_state_policy e)
           (Some robot) (ev_provider e) (ev_now e) (map_option bs_session_generation (base_of w robot)))"

definition policy_problem :: "env \<Rightarrow> world \<Rightarrow> manual_owner \<Rightarrow> refusal option" where
  "policy_problem e w ow =
     (case current_policy e w (ow_session ow) of
        Inl r \<Rightarrow> Some (Policy_refusal r)
      | Inr p \<Rightarrow> if Some (policy_signature p) \<noteq> ow_signature ow then Some Policy_changed_refusal else None)"

text \<open>\<open>TeleopController.prepare\<close> returns a refusal or installs the owner.\<close>

definition prepare :: "env \<Rightarrow> nat \<Rightarrow> nat \<Rightarrow> string \<Rightarrow> world \<Rightarrow> world \<times> refusal option" where
  "prepare e client sid command_id w =
     (let s = w_sessions w sid; robot = se_robot s;
          others = filter (\<lambda>a. ac_robot a = robot) (map snd (w_active w))
      in if dget (w_owners w) robot \<noteq> None then (w, Some Manual_active)
         else if others \<noteq> []
         then (w, Some (if ac_command (hd others) \<in> {Navigate_to_pose, Set_initial_pose}
                        then Navigation_active else Operation_active))
         else case manual_gate e w robot of Some r \<Rightarrow> (w, Some (Gate r)) | None \<Rightarrow>
         (case sl_received (rb_base_state (w_state w robot)) of
            None \<Rightarrow> (w, Some Readings_of_old_connection)
          | Some t \<Rightarrow>
              if t < se_connected s then (w, Some Readings_of_old_connection)
              else case current_policy e w sid of
                Inl r \<Rightarrow> (w, Some (Policy_refusal r))
              | Inr p \<Rightarrow>
                  (set_owner robot
                     \<lparr>ow_command_id = command_id, ow_client = client, ow_session = sid,
                      ow_websocket = se_websocket s, ow_generation = se_generation s,
                      ow_base_generation = (case base_of w robot of None \<Rightarrow> 0
                         | Some b \<Rightarrow> bs_session_generation b),
                      ow_phase = Pending, ow_seq = -1, ow_last_frame = ev_now e, ow_frame_times = [],
                      ow_start_terminal = False, ow_stop_ids = [], ow_stop_issued = False,
                      ow_policy = Some p, ow_signature = Some (policy_signature p)\<rparr> w, None)))"

text \<open>\<open>send\<close>: a velocity leaves only on the socket the session was bound to.\<close>

definition send_velocity :: "env \<Rightarrow> manual_owner \<Rightarrow> teleop_velocity \<Rightarrow> world \<Rightarrow> world \<times> bool" where
  "send_velocity e ow v w =
     (if \<not> bound w ow \<or> (tv_deadman v \<and> (ow_phase ow \<noteq> Active \<or> \<not> owns_lease w ow)) then (w, False)
      else case ow_websocket ow of
        None \<Rightarrow> (w, False)
      | Some ws \<Rightarrow> try_send e (Velocity ws v) w)"

text \<open>
  \<open>revoke\<close> without its synthesized stop: the revision moves on, the owner leaves the phases in
  which it may drive, and a first revocation sends a zero.
\<close>

definition revoke_core :: "env \<Rightarrow> string \<Rightarrow> bool \<Rightarrow> world \<Rightarrow> world" where
  "revoke_core e robot zero_sent w =
     (let w0 = w\<lparr>w_revisions := dset (w_revisions w) robot (revision w robot + 1)\<rparr>
      in case dget (w_owners w0) robot of
           None \<Rightarrow> w0
         | Some ow \<Rightarrow>
             let first = (ow_phase ow \<in> {Pending, Active});
                 ow1 = (if ow_phase ow = Unknown then ow else ow\<lparr>ow_phase := Closing\<rparr>);
                 w1 = set_owner robot ow1 w0
             in if first \<and> \<not> zero_sent
                then let (w2, sent) = send_velocity e ow1
                       \<lparr>tv_command_id = ow_command_id ow1, tv_seq = ow_seq ow1 + 1, tv_linear = Fin 0,
                        tv_angular = Fin 0, tv_deadman = False\<rparr> w1
                     in if sent then w2 else set_owner robot (ow1\<lparr>ow_phase := Unknown\<rparr>) w2
                else w1)"

text \<open>
  The stop a revocation issues once per owner, through the request handler \<open>stop\<close> of the broker,
  which takes the requesting client and the payload.
\<close>

definition stop_request :: "env \<Rightarrow> string \<Rightarrow> command_request" where
  "stop_request e robot = \<lparr>cr_command_id = ev_uuid e robot, cr_command = Teleop_stop, cr_seed_profile = None,
     cr_enabled = None, cr_goal = None, cr_takeover = False, cr_allow_unlocalized = False,
     cr_operator_authorized = False\<rparr>"

definition revoke ::
  "(nat \<Rightarrow> string \<Rightarrow> command_request \<Rightarrow> world \<Rightarrow> world) \<Rightarrow> env \<Rightarrow> string \<Rightarrow> bool \<Rightarrow> bool \<Rightarrow> world \<Rightarrow> world" where
  "revoke stop e robot issue_stop zero_sent w =
     (let w1 = revoke_core e robot zero_sent w
      in case dget (w_owners w1) robot of
           None \<Rightarrow> w1
         | Some ow \<Rightarrow>
             if issue_stop \<and> \<not> ow_stop_issued ow
             then let w2 = set_owner robot (ow\<lparr>ow_stop_issued := True\<rparr>) w1
                  in if bound w2 ow then stop (ow_client ow) robot (stop_request e robot) w2
                     else set_owner robot (ow\<lparr>ow_stop_issued := True, ow_phase := Unknown\<rparr>) w2
             else w1)"

definition stop_pending :: "string \<Rightarrow> string \<Rightarrow> world \<Rightarrow> world" where
  "stop_pending robot command_id w =
     (case dget (w_owners w) robot of
        None \<Rightarrow> w
      | Some ow \<Rightarrow> set_owner robot
          (ow\<lparr>ow_stop_ids := List.insert command_id (ow_stop_ids ow), ow_stop_issued := True\<rparr>) w)"

text \<open>\<open>terminal\<close>: a start or stop of the owner came to an end.\<close>

definition terminal :: "active_command \<Rightarrow> world \<Rightarrow> world" where
  "terminal a w =
     (case dget (w_owners w) (ac_robot a) of
        None \<Rightarrow> w
      | Some ow \<Rightarrow>
          let started = (ac_command_id a = ow_command_id ow);
              w1 = (if started then w\<lparr>w_revisions := dset (w_revisions w) (ac_robot a)
                      (revision w (ac_robot a) + 1)\<rparr> else w);
              ow1 = (if started then ow\<lparr>ow_start_terminal := True, ow_phase := Closing\<rparr> else ow);
              ow2 = ow1\<lparr>ow_stop_ids := removeAll (ac_command_id a) (ow_stop_ids ow1)\<rparr>
          in if ow_start_terminal ow2 \<and> ow_stop_ids ow2 = []
             then w1\<lparr>w_owners := ddel (w_owners w1) (ac_robot a)\<rparr>
             else set_owner (ac_robot a) ow2 w1)"

end
