(* ===== verification/Command_Broker.thy ===== *)
theory Command_Broker
  imports Hub
begin

text \<open>
  The command broker (\<open>server/app/commands/broker.py\<close>) and the manual-drive controller's
  operations that need it (\<open>server/app/commands/teleop.py\<close>).

  \<open>_handle_browser_request\<close> is split at the await on the audit row: \<open>admit\<close> is everything before
  it and leaves an \<open>inflight\<close> request, \<open>dispatch\<close> is everything after it, and any other operation
  may run between the two. The remaining awaits (sends, rejections) end a handler or are taken
  as atomic. \<open>revoke\<close> and the handler call each other in the source; the stop a revocation issues is
  a \<open>teleop_stop\<close>, whose own handling only revokes without issuing another stop, so the mutual
  recursion unfolds to two levels: \<open>stop_handler\<close> rests on \<open>revoke_core\<close>, and \<open>full_revoke\<close> on
  \<open>stop_handler\<close>.
\<close>

subsection \<open>Helpers\<close>

definition GOAL_REQUIRED :: "command list" where
  "GOAL_REQUIRED = [Navigate_to_pose, Set_initial_pose]"

text \<open>Commands outside rate, lease and barrier checks.\<close>

definition ENDING :: "command list" where
  "ENDING = [Stop, Teleop_stop, Software_reset, Motor_disable]"

definition manual_command :: "command \<Rightarrow> bool" where
  "manual_command c = (c = Teleop_start \<or> c = Teleop_stop)"

definition reject_audited :: "env \<Rightarrow> string \<Rightarrow> refusal \<Rightarrow> world \<Rightarrow> world" where
  "reject_audited e cid reason w =
     out ((if ev_db e then [Audit_rejection cid reason] else []) @ [Pub_ack cid False (Some reason)]) w"

definition remember :: "string \<Rightarrow> world \<Rightarrow> world" where
  "remember cid w = w\<lparr>w_seen := (let s = w_seen w @ [cid] in drop (length s - 512) s)\<rparr>"

text \<open>
  \<open>_validate_goal\<close> against the catalog map: the destination in the map's frame. \<open>ev_trig\<close> gives what
  \<open>math.cos\<close> and \<open>math.sin\<close> return. A catalog map has finite geometry; a map without is treated as
  not containing the point.
\<close>

definition inside_map :: "env \<Rightarrow> goal_data \<Rightarrow> map_data \<Rightarrow> bool" where
  "inside_map e g m =
     (case (rat_of (gl_x g), rat_of (gl_y g), rat_of (og_x (mp_origin m)), rat_of (og_y (mp_origin m)),
            rat_of (og_yaw (mp_origin m)), rat_of (mp_resolution m)) of
        (Some x, Some y, Some ox, Some oy, Some yaw, Some res) \<Rightarrow>
          let dx = x - ox; dy = y - oy; (c, s) = ev_trig e yaw;
              mx = c * dx + s * dy;
              my = - s * dx + c * dy
          in 0 \<le> mx \<and> mx < of_int (mp_width m) * res \<and> 0 \<le> my \<and> my < of_int (mp_height m) * res
      | _ \<Rightarrow> False)"

definition validate_goal :: "env \<Rightarrow> goal_data \<Rightarrow> map_data \<Rightarrow> refusal option" where
  "validate_goal e g m =
     (if \<not> (is_finite (gl_x g) \<and> is_finite (gl_y g)) then Some Goal_not_finite
      else if (case gl_yaw g of None \<Rightarrow> False | Some y \<Rightarrow> \<not> is_finite y) then Some Heading_not_finite
      else if \<not> inside_map e g m then Some Outside_map else None)"

text \<open>\<open>_validate_robot_state\<close>: the facts, and for a dock reset the measured motion in place of the pose.\<close>

definition measured_motion :: "env \<Rightarrow> robot_state \<Rightarrow> state_facts \<Rightarrow> state_facts" where
  "measured_motion e s f =
     (let f0 = f\<lparr>pose_age := None, stationary := False\<rparr>
      in case (sl_data (rb_motion s), slice_age (rb_motion s) (ev_now e), sl_data (rb_base_state s)) of
           (Some m, Some age, Some b) \<Rightarrow>
             let ages = [age, mo_sample_age_s m, mo_receipt_age_s m];
                 total = pf_add (pf_add age (mo_sample_age_s m)) (mo_receipt_age_s m)
             in if list_all (\<lambda>a. is_finite a \<and> pf_le (Fin 0) a) ages \<and> pf_le total (Fin (3 / 2))
                   \<and> mo_session_generation m = bs_session_generation b
                then f0\<lparr>pose_age := Some total,
                        stationary := pf_le (pf_abs (mo_linear_velocity m)) (Fin STATIONARY_LINEAR_MS)
                          \<and> pf_le (pf_abs (mo_angular_velocity m)) (Fin STATIONARY_ANGULAR_RPS)\<rparr>
                else f0
         | _ \<Rightarrow> f0)"

definition robot_commands :: "world \<Rightarrow> string \<Rightarrow> command list" where
  "robot_commands w robot = map ac_command (filter (\<lambda>a. ac_robot a = robot) (map snd (w_active w)))"

definition robot_facts :: "env \<Rightarrow> world \<Rightarrow> string \<Rightarrow> command \<Rightarrow> bool \<Rightarrow> state_facts" where
  "robot_facts e w robot cmd allow =
     (let s = w_state w robot; cmds = robot_commands w robot;
          f = facts_from_state (rb_connection s) (sl_data (rb_base_state s)) (sl_data (rb_pose s))
                (rb_capabilities s) (Navigate_to_pose \<in> set cmds \<or> Set_initial_pose \<in> set cmds)
                (slice_age (rb_base_state s) (ev_now e)) (slice_age (rb_pose s) (ev_now e)) allow;
          f1 = (if Undock \<in> set cmds then f\<lparr>undock_active := True\<rparr> else f)
      in if cmd = Dock_reset then measured_motion e s f1 else f1)"

definition validate_robot_state :: "env \<Rightarrow> world \<Rightarrow> string \<Rightarrow> command \<Rightarrow> bool \<Rightarrow> refusal option" where
  "validate_robot_state e w robot cmd allow =
     (if gate_of cmd = None \<and> cmd \<noteq> Teleop_start then None
      else if robot \<in> set (w_lidar_recovery w)
         \<and> cmd \<in> {Navigate_to_pose, Set_initial_pose, Undock, Charge_release, Teleop_start}
      then Some Lidar_recovery_needed
      else if (case dget (w_lidar_after w) robot of None \<Rightarrow> False
               | Some after \<Rightarrow> cmd \<notin> {Software_reset, Motor_disable, Motor_enable}
                   \<and> (case sl_received (rb_base_state (w_state w robot)) of None \<Rightarrow> True
                      | Some t \<Rightarrow> t \<le> after))
      then Some Lidar_state_pending
      else map_option Gate (rejection_reason cmd (robot_facts e w robot cmd allow)))"

subsection \<open>Closing a command\<close>

text \<open>
  \<open>_finish\<close>: the only place that takes a command off the active table. It cancels the timers of the
  command; when it runs inside one of them (\<open>timer\<close>), that cancels the running task itself, so with
  a database the first await, that of the database row, is its last step and no event is emitted.
\<close>

definition finish :: "bool \<Rightarrow> env \<Rightarrow> command_outcome \<Rightarrow> active_command \<Rightarrow> world \<Rightarrow> world" where
  "finish timer e oc a w =
     (if dget (w_active w) (ac_command_id a) = None then w
      else let w1 = w\<lparr>w_active := ddel (w_active w) (ac_command_id a)\<rparr>;
               w2 = (if ac_command a = Software_reset
                     then w1\<lparr>w_reset_pending := ddel (w_reset_pending w1) (ac_robot a)\<rparr> else w1);
               w3 = (if ac_command a = Set_lidar_power
                     then w2\<lparr>w_lidar_pending := ddel (w_lidar_pending w2) (ac_robot a)\<rparr> else w2)
           in out ((if ev_db e then [Audit_complete (ac_command_id a) oc] else [])
                   @ (if session_of w (ac_robot a) \<noteq> None \<and> oc \<noteq> Succeeded \<and> \<not> (timer \<and> ev_db e)
                      then [Event (if oc = Canceled then Info else Warning_event) (ac_command a)] else [])) w3)"

text \<open>\<open>_mark_uncertain\<close>: the command stays active, so its barrier stays up.\<close>

definition mark_uncertain :: "env \<Rightarrow> active_command \<Rightarrow> world \<Rightarrow> world" where
  "mark_uncertain e a w =
     (case dget (w_active w) (ac_command_id a) of
        None \<Rightarrow> w
      | Some a1 \<Rightarrow>
          let w1 = w\<lparr>w_active := dset (w_active w) (ac_command_id a) (a1\<lparr>ac_uncertain := True\<rparr>)\<rparr>;
              w2 = (if manual_command (ac_command a)
                    then (case dget (w_owners w1) (ac_robot a) of None \<Rightarrow> w1
                          | Some ow \<Rightarrow> set_owner (ac_robot a) (ow\<lparr>ow_phase := Unknown\<rparr>) w1)
                    else w1)
          in out ([Pub_result (ac_command_id a) Timeout]
                  @ (if ev_db e then [Audit_complete (ac_command_id a) Timeout] else [])) w2)"

definition cancel_map :: "env \<Rightarrow> active_command \<Rightarrow> world \<Rightarrow> world" where
  "cancel_map e a w =
     (if ac_command a \<noteq> Set_initial_pose then w
      else case session_of w (ac_robot a) of
        None \<Rightarrow> w
      | Some sid \<Rightarrow> (case se_websocket (w_sessions w sid) of
            None \<Rightarrow> w
          | Some ws \<Rightarrow> fst (try_send e (Cancel_map ws (ac_command_id a)) w)))"

definition close_out :: "bool \<Rightarrow> env \<Rightarrow> command_outcome \<Rightarrow> active_command \<Rightarrow> world \<Rightarrow> world" where
  "close_out timer e oc a w =
     (if dget (w_active w) (ac_command_id a) = None then w
      else if ac_command a = Set_lidar_power then mark_uncertain e a w
      else finish timer e oc a (out [Pub_result (ac_command_id a) oc] (cancel_map e a w)))"

subsection \<open>Admission\<close>

record inflight =
  if_client :: nat
  if_robot :: string
  if_payload :: command_request
  if_revision :: int
  if_session :: nat

text \<open>The refusals before any revocation.\<close>

definition explicit_retry :: "world \<Rightarrow> string \<Rightarrow> command \<Rightarrow> bool" where
  "explicit_retry w pending cmd =
     (cmd = Software_reset
      \<and> (case dget (w_active w) pending of None \<Rightarrow> False | Some a \<Rightarrow> ac_uncertain a))"

definition early_refusal :: "world \<Rightarrow> nat \<Rightarrow> string \<Rightarrow> command \<Rightarrow> refusal option" where
  "early_refusal w client robot cmd =
     (if (case cl_user (w_clients w client) of None \<Rightarrow> True | Some u \<Rightarrow> \<not> can_command u) then Some Read_only
      else if cmd = Teleop_start \<and> dget (w_owners w) robot \<noteq> None then Some Manual_active
      else if dget (w_lidar_pending w) robot \<noteq> None
         \<and> cmd \<notin> {Stop, Teleop_stop, Software_reset, Motor_disable, Motor_enable} then Some Lidar_pending
      else if (case dget (w_reset_pending w) robot of None \<Rightarrow> False
               | Some pending \<Rightarrow> pending \<noteq> [] \<and> cmd \<notin> {Stop, Teleop_stop, Motor_disable}
                   \<and> \<not> explicit_retry w pending cmd) then Some Reset_pending_refusal
      else None)"

text \<open>Rate limit and lease; the takeover is explicit in the payload.\<close>

definition check_rate :: "env \<Rightarrow> user \<Rightarrow> command \<Rightarrow> world \<Rightarrow> world \<times> refusal option" where
  "check_rate e u cmd w =
     (if cmd \<in> set ENDING then (w, None)
      else let (r, ok) = rate_allow (w_rate w) (us_id u) (ev_now e)
           in (w\<lparr>w_rate := r\<rparr>, if ok then None else Some Rate_limited))"

definition take_lease ::
  "env \<Rightarrow> user \<Rightarrow> nat \<Rightarrow> string \<Rightarrow> command_request \<Rightarrow> world \<Rightarrow> world \<times> refusal option" where
  "take_lease e u client robot p w =
     (if cr_command p \<in> set ENDING then (w, None)
      else if \<not> lease_can_command (w_lease w) robot (us_id u) \<and> \<not> cr_takeover p then (w, Some Lease_held)
      else (w\<lparr>w_lease := lease_acquire (w_lease w) robot (us_id u) (us_username u) client (ev_now e)\<rparr>, None))"

text \<open>The catalog map of a goal command, or the refusal; other commands have no target.\<close>

definition goal_target :: "env \<Rightarrow> world \<Rightarrow> command_request \<Rightarrow> refusal + map_data option" where
  "goal_target e w p =
     (if cr_command p \<notin> set GOAL_REQUIRED then Inr None
      else case cr_goal p of None \<Rightarrow> Inl Needs_destination | Some g \<Rightarrow>
        (case map_id g of None \<Rightarrow> Inl Map_mismatch | Some mid \<Rightarrow>
         case dget (w_maps w) mid of None \<Rightarrow> Inl Map_mismatch | Some m \<Rightarrow>
         if map_revision m \<noteq> map_revision g then Inl Map_mismatch
         else case validate_goal e g m of Some r \<Rightarrow> Inl r | None \<Rightarrow> Inr (Some m)))"

text \<open>The session must be online and, for a goal, map-aware and (to navigate) on the same map.\<close>

definition session_refusal :: "world \<Rightarrow> string \<Rightarrow> command \<Rightarrow> map_data option \<Rightarrow> refusal option" where
  "session_refusal w robot cmd target =
     (case session_of w robot of None \<Rightarrow> Some Robot_not_connected | Some sid \<Rightarrow>
      if se_websocket (w_sessions w sid) = None \<or> rb_connection (w_state w robot) \<noteq> Online
      then Some Robot_not_connected
      else case target of None \<Rightarrow> None | Some m \<Rightarrow>
        if ''map_context_v1'' \<notin> set (rb_capabilities (w_state w robot)) then Some No_map_support
        else if cmd = Navigate_to_pose
           \<and> (case base_of w robot of None \<Rightarrow> True
              | Some b \<Rightarrow> map_id b \<noteq> map_id m \<or> map_revision b \<noteq> map_revision m) then Some Other_active_map
        else None)"

text \<open>Admission once input was revoked where needed; \<open>since\<close> is the revision read on arrival.\<close>

definition admit_rest ::
  "env \<Rightarrow> user \<Rightarrow> nat \<Rightarrow> string \<Rightarrow> command_request \<Rightarrow> int \<Rightarrow> world \<Rightarrow> world \<times> refusal + world \<times> nat" where
  "admit_rest e u client robot p since w =
     (let cmd = cr_command p; cid = cr_command_id p; (w1, limited) = check_rate e u cmd w
      in case limited of Some r \<Rightarrow> Inl (w1, r) | None \<Rightarrow>
         let (w2, held) = take_lease e u client robot p w1 in
         case held of Some r \<Rightarrow> Inl (w2, r) | None \<Rightarrow>
         if cid \<in> set (w_seen w2) \<or> ev_db e \<and> command_recorded e w2 cid then Inl (w2, Duplicate_command) else
         let w3 = remember cid w2 in
         case goal_target e w3 p of Inl r \<Rightarrow> Inl (w3, r) | Inr target \<Rightarrow>
         case session_refusal w3 robot cmd target of Some r \<Rightarrow> Inl (w3, r) | None \<Rightarrow>
         case validate_robot_state e w3 robot cmd (cr_allow_unlocalized p) of Some r \<Rightarrow> Inl (w3, r) | None \<Rightarrow>
         let sid = the (session_of w3 robot) in
         if cmd \<noteq> Teleop_start then Inr (w3, sid)
         else if since \<noteq> revision w3 robot then Inl (w3, Canceled_in_admission)
         else case prepare e client sid cid w3 of
           (w4, Some r) \<Rightarrow> Inl (w4, r)
         | (w4, None) \<Rightarrow> Inr (w4, sid))"

text \<open>
  Admission. The revocation \<open>rv issue_stop\<close> is a parameter; an admitted request has its audit row
  written.
\<close>

definition revoked_first :: "(bool \<Rightarrow> world \<Rightarrow> world) \<Rightarrow> string \<Rightarrow> command \<Rightarrow> world \<Rightarrow> world" where
  "revoked_first rv robot cmd w =
     (if cmd \<in> {Stop, Motor_disable, Software_reset, Teleop_stop} then rv (cmd \<noteq> Teleop_stop) w else w)"

definition admit ::
  "(bool \<Rightarrow> world \<Rightarrow> world) \<Rightarrow> env \<Rightarrow> nat \<Rightarrow> string \<Rightarrow> command_request \<Rightarrow> int \<Rightarrow> world
   \<Rightarrow> world \<times> inflight option" where
  "admit rv e client robot p since w =
     (let cmd = cr_command p; cid = cr_command_id p
      in case early_refusal w client robot cmd of
        Some r \<Rightarrow> (reject_audited e cid r (if r = Manual_active \<and> cr_takeover p then rv True w else w), None)
      | None \<Rightarrow>
          if cmd \<notin> {Stop, Motor_disable, Software_reset, Teleop_stop} \<and> cmd \<noteq> Teleop_start
             \<and> dget (w_owners w) robot \<noteq> None
          then (reject_audited e cid Manual_ending (rv True w), None)
          else case cl_user (w_clients w client) of None \<Rightarrow> (w, None) | Some u \<Rightarrow>
            (case admit_rest e u client robot p since (revoked_first rv robot cmd w) of
               Inl (w1, r) \<Rightarrow> (reject_audited e cid r w1, None)
             | Inr (w1, sid) \<Rightarrow>
                 (out (if ev_db e then [Audit cid] else []) w1,
                  Some \<lparr>if_client = client, if_robot = robot, if_payload = p, if_revision = since,
                        if_session = sid\<rparr>)))"

subsection \<open>Dispatch\<close>

text \<open>A software reset retires every active command of its robot.\<close>

definition retire :: "env \<Rightarrow> string \<Rightarrow> world \<Rightarrow> active_command \<Rightarrow> world" where
  "retire e robot w a =
     (if ac_robot a \<noteq> robot then w
      else let w1 = (if ac_command a = Set_lidar_power
                     then w\<lparr>w_lidar_recovery := List.insert robot (w_lidar_recovery w)\<rparr> else w)
           in finish False e (if ac_uncertain a then Timeout else Canceled) a w1)"

definition retire_all :: "env \<Rightarrow> string \<Rightarrow> world \<Rightarrow> world" where
  "retire_all e robot w =
     foldl (retire e robot) (w\<lparr>w_owners := ddel (w_owners w) robot\<rparr>) (map snd (w_active w))"

definition stale_start :: "env \<Rightarrow> world \<Rightarrow> inflight \<Rightarrow> bool" where
  "stale_start e w i =
     (case dget (w_owners w) (if_robot i) of
        None \<Rightarrow> True
      | Some ow \<Rightarrow> ow_command_id ow \<noteq> cr_command_id (if_payload i) \<or> ow_phase ow \<noteq> Pending
          \<or> if_revision i \<noteq> revision w (if_robot i) \<or> \<not> bound w ow \<or> \<not> owns_lease w ow
          \<or> manual_gate e w (if_robot i) \<noteq> None)"

text \<open>The tables a dispatched command enters.\<close>

definition register :: "string \<Rightarrow> string \<Rightarrow> command \<Rightarrow> world \<Rightarrow> world" where
  "register robot cid cmd w =
     (let w1 = (if cmd = Teleop_stop then stop_pending robot cid w else w);
          w2 = (if cmd = Software_reset then w1\<lparr>w_reset_pending := dset (w_reset_pending w1) robot cid\<rparr> else w1)
      in if cmd = Set_lidar_power then w2\<lparr>w_lidar_pending := dset (w_lidar_pending w2) robot cid\<rparr> else w2)"

text \<open>What happens when the frame could not be sent.\<close>

definition send_failed :: "env \<Rightarrow> active_command \<Rightarrow> world \<Rightarrow> world" where
  "send_failed e a w =
     (if manual_command (ac_command a) then mark_uncertain e a (revoke_core e (ac_robot a) False w)
      else if ac_command a = Set_lidar_power \<or> ac_command a = Software_reset then mark_uncertain e a w
      else close_out False e Failed a w)"

definition forward :: "env \<Rightarrow> inflight \<Rightarrow> active_command \<Rightarrow> world \<Rightarrow> world" where
  "forward e i a w =
     (let frame = (if_payload i)\<lparr>cr_operator_authorized := True\<rparr>;
          (w1, sent) = (case ac_websocket a of None \<Rightarrow> (w, False)
             | Some ws \<Rightarrow> try_send e (To_robot ws frame) w);
          ok = (sent \<and> (manual_command (ac_command a) \<longrightarrow> session_of w1 (if_robot i) = Some (if_session i)))
      in if ok then out [Event Info (ac_command a)] w1 else send_failed e a w1)"

definition dispatch :: "env \<Rightarrow> inflight \<Rightarrow> world \<Rightarrow> world" where
  "dispatch e i w =
     (let p = if_payload i; cmd = cr_command p; cid = cr_command_id p; robot = if_robot i;
          w0 = (if cmd = Software_reset then retire_all e robot w else w);
          a = \<lparr>ac_command_id = cid, ac_command = cmd, ac_robot = robot, ac_initiator = if_client i,
               ac_acked = False, ac_uncertain = False, ac_session = if_session i,
               ac_websocket = se_websocket (w_sessions w0 (if_session i))\<rparr>;
          w1 = w0\<lparr>w_active := dset (w_active w0) cid a\<rparr>
      in if cmd = Teleop_start \<and> stale_start e w1 i
         then finish False e Canceled a (out [Pub_ack cid False (Some Canceled_before_publication)] (terminal a w1))
         else forward e i a (register robot cid cmd w1))"

text \<open>A request handled without interruption.\<close>

definition handle_request ::
  "(bool \<Rightarrow> world \<Rightarrow> world) \<Rightarrow> env \<Rightarrow> nat \<Rightarrow> string \<Rightarrow> command_request \<Rightarrow> world \<Rightarrow> world" where
  "handle_request rv e client robot p w =
     (case admit rv e client robot p (revision w robot) w of
        (w1, None) \<Rightarrow> w1
      | (w1, Some i) \<Rightarrow> dispatch e i w1)"

definition stop_handler :: "env \<Rightarrow> nat \<Rightarrow> string \<Rightarrow> command_request \<Rightarrow> world \<Rightarrow> world" where
  "stop_handler e client robot p w =
     handle_request (\<lambda>issue. revoke_core e robot False) e client robot p w"

definition full_revoke :: "env \<Rightarrow> string \<Rightarrow> bool \<Rightarrow> bool \<Rightarrow> world \<Rightarrow> world" where
  "full_revoke e robot issue_stop zero_sent w = revoke (stop_handler e) e robot issue_stop zero_sent w"

definition browser_admit :: "env \<Rightarrow> nat \<Rightarrow> string \<Rightarrow> command_request \<Rightarrow> int \<Rightarrow> world \<Rightarrow> world \<times> inflight option" where
  "browser_admit e client robot p since w =
     admit (\<lambda>issue. full_revoke e robot issue False) e client robot p since w"

subsection \<open>Replies of the robot\<close>

datatype reply = Ack string bool "string option" | Progress string | Result string command_outcome

definition reply_id :: "reply \<Rightarrow> string" where
  "reply_id r = (case r of Ack cid _ _ \<Rightarrow> cid | Progress cid \<Rightarrow> cid | Result cid _ \<Rightarrow> cid)"

text \<open>A late acceptance of a manual start is honoured only while the owner may still drive.\<close>

definition start_confirmed :: "env \<Rightarrow> world \<Rightarrow> active_command \<Rightarrow> bool" where
  "start_confirmed e w a =
     (case dget (w_owners w) (ac_robot a) of None \<Rightarrow> False
      | Some ow \<Rightarrow> ow_command_id ow = ac_command_id a \<and> ow_phase ow \<in> {Pending, Active}
          \<and> bound w ow \<and> owns_lease w ow \<and> manual_gate e w (ac_robot a) = None)"

definition activate :: "env \<Rightarrow> string \<Rightarrow> world \<Rightarrow> world" where
  "activate e robot w =
     (case dget (w_owners w) robot of None \<Rightarrow> w
      | Some ow \<Rightarrow> set_owner robot
          (ow\<lparr>ow_last_frame := (if ow_phase ow = Pending then ev_now e else ow_last_frame ow),
              ow_phase := Active\<rparr>) w)"

definition on_ack :: "env \<Rightarrow> active_command \<Rightarrow> bool \<Rightarrow> string option \<Rightarrow> world \<Rightarrow> world" where
  "on_ack e a accepted reason w =
     (let cid = ac_command_id a;
          w0 = w\<lparr>w_active := dset (w_active w) cid (a\<lparr>ac_acked := True\<rparr>)\<rparr>;
          declined = (if reason = None \<and> accepted then None else Some (Robot_declined reason));
          w1 = (if ac_command a = Teleop_start \<and> accepted
                then (if start_confirmed e w0 a
                      then out [Pub_ack cid True declined] (activate e (ac_robot a) w0)
                      else out [Pub_ack cid False (Some Late_acceptance)]
                             (full_revoke e (ac_robot a) True False w0))
                else out [Pub_ack cid accepted declined] w0)
      in if accepted then w1
         else finish False e Rejected a (if manual_command (ac_command a) then terminal a w1 else w1))"

definition on_result :: "env \<Rightarrow> active_command \<Rightarrow> command_outcome \<Rightarrow> world \<Rightarrow> world" where
  "on_result e a oc w =
     (let w0 = out [Pub_result (ac_command_id a) oc] w
      in if manual_command (ac_command a) \<and> oc = Timeout
         then mark_uncertain e a (revoke_core e (ac_robot a) False w0)
         else let w1 = (if manual_command (ac_command a) then terminal a w0 else w0)
         in if ac_command a \<in> {Software_reset, Set_lidar_power} \<and> oc = Timeout then mark_uncertain e a w1
         else let w2 = (if ac_command a = Set_lidar_power
                 then w1\<lparr>w_lidar_after := dset (w_lidar_after w1) (ac_robot a) (ev_now e),
                         w_lidar_recovery := (if oc = Succeeded then removeAll (ac_robot a) (w_lidar_recovery w1)
                                              else List.insert (ac_robot a) (w_lidar_recovery w1))\<rparr>
                 else w1)
         in finish False e oc a w2)"

definition handle_robot_reply :: "env \<Rightarrow> nat \<Rightarrow> reply \<Rightarrow> world \<Rightarrow> world" where
  "handle_robot_reply e sid r w =
     (let s = w_sessions w sid
      in case dget (w_active w) (reply_id r) of
        None \<Rightarrow> w
      | Some a \<Rightarrow>
          if ac_robot a \<noteq> se_robot s then w
          else if manual_command (ac_command a)
             \<and> (ac_session a \<noteq> sid \<or> ac_websocket a \<noteq> se_websocket s \<or> session_of w (se_robot s) \<noteq> Some sid)
          then w
          else (case r of
             Ack _ accepted reason \<Rightarrow> on_ack e a accepted reason w
           | Progress cid \<Rightarrow> out [Pub_progress cid] w
           | Result _ oc \<Rightarrow> on_result e a oc w))"

subsection \<open>Timeouts\<close>

text \<open>
  The timers of a command are cancelled when it leaves the active table, so a timer fires only for
  an active command.
\<close>

definition ack_timeout :: "env \<Rightarrow> string \<Rightarrow> world \<Rightarrow> world" where
  "ack_timeout e cid w =
     (case dget (w_active w) cid of None \<Rightarrow> w | Some a \<Rightarrow>
      if ac_acked a then w
      else if manual_command (ac_command a) then mark_uncertain e a (full_revoke e (ac_robot a) True False w)
      else if ac_command a \<in> {Set_lidar_power, Software_reset} then mark_uncertain e a w
      else close_out True e Timeout a w)"

definition result_timeout :: "env \<Rightarrow> string \<Rightarrow> world \<Rightarrow> world" where
  "result_timeout e cid w =
     (case dget (w_active w) cid of None \<Rightarrow> w | Some a \<Rightarrow>
      if manual_command (ac_command a) then mark_uncertain e a (full_revoke e (ac_robot a) True False w)
      else if ac_command a \<in> {Set_lidar_power, Software_reset} then mark_uncertain e a w
      else close_out True e Timeout a w)"

subsection \<open>Velocity frames\<close>

text \<open>The guards of a deadman frame: the phase, the gate, the live policy, the caps.\<close>

definition drive_problem :: "env \<Rightarrow> world \<Rightarrow> string \<Rightarrow> manual_owner \<Rightarrow> teleop_velocity \<Rightarrow> refusal option" where
  "drive_problem e w robot ow v =
     (case manual_gate e w robot of Some r \<Rightarrow> Some (Gate r) | None \<Rightarrow>
      case policy_problem e w ow of Some r \<Rightarrow> Some r | None \<Rightarrow>
      if (case ow_policy ow of None \<Rightarrow> False | Some p \<Rightarrow> over_policy p (tv_linear v) (tv_angular v))
      then Some Exceeds_policy else None)"

text \<open>
  \<open>velocity\<close>; \<open>age\<close> is the age of the frame's time stamp, nothing when it cannot be read. The send
  lock is free whenever the handler runs, since sends are atomic here.
\<close>

definition velocity ::
  "env \<Rightarrow> nat \<Rightarrow> string \<Rightarrow> rat option \<Rightarrow> teleop_velocity \<Rightarrow> world \<Rightarrow> world \<times> bool" where
  "velocity e client robot age v w =
     (case dget (w_owners w) robot of None \<Rightarrow> (w, False) | Some ow \<Rightarrow>
      if ow_client ow \<noteq> client
         \<or> (case cl_user (w_clients w client) of None \<Rightarrow> True | Some u \<Rightarrow> \<not> can_command u)
         \<or> ow_command_id ow \<noteq> tv_command_id v \<or> tv_seq v \<le> ow_seq ow \<or> \<not> bound w ow \<or> \<not> owns_lease w ow
      then (w, False)
      else if (case age of None \<Rightarrow> True | Some a \<Rightarrow> \<not> (- (5 / 100) \<le> a \<and> a \<le> 3 / 10)) then (w, False)
      else if tv_deadman v \<and> ow_phase ow \<noteq> Active then (w, False)
      else if tv_deadman v \<and> drive_problem e w robot ow v \<noteq> None
      then (full_revoke e robot True False w, False)
      else let times = dropWhile (\<lambda>t. 1 \<le> ev_now e - t) (ow_frame_times ow)
      in if tv_deadman v \<and> max 1 (ev_frames_per_s e) \<le> int (length times)
         then (set_owner robot (ow\<lparr>ow_frame_times := times\<rparr>) w, False)
         else let ow1 = ow\<lparr>ow_frame_times := (if tv_deadman v then times @ [ev_now e] else ow_frame_times ow),
                           ow_seq := tv_seq v, ow_last_frame := ev_now e\<rparr>;
                  (w1, sent) = send_velocity e ow1 v (set_owner robot ow1 w)
              in if \<not> sent then (full_revoke e robot True False w1, False)
                 else if \<not> tv_deadman v then (full_revoke e robot True True w1, True)
                 else (w1, True))"

text \<open>\<open>changed\<close>: telemetry or a connection changed under an open session.\<close>

definition changed :: "env \<Rightarrow> nat \<Rightarrow> world \<Rightarrow> world" where
  "changed e sid w =
     (let robot = se_robot (w_sessions w sid)
      in case dget (w_owners w) robot of None \<Rightarrow> w | Some ow \<Rightarrow>
         if ow_phase ow \<notin> {Active, Pending} then w
         else if manual_gate e w robot \<noteq> None \<or> \<not> bound w ow \<or> \<not> owns_lease w ow
            \<or> policy_problem e w ow \<noteq> None
         then full_revoke e robot True False w else w)"

text \<open>One pass of the watchdog over one owner.\<close>

definition monitor_owner :: "env \<Rightarrow> string \<Rightarrow> world \<Rightarrow> world" where
  "monitor_owner e robot w =
     (case dget (w_owners w) robot of None \<Rightarrow> w | Some ow \<Rightarrow>
      if ow_phase ow \<notin> {Pending, Active} then w
      else let deadline = (if ow_phase ow = Pending then ev_ack_timeout_s e else 3 / 10)
      in if min deadline (max (1 / 1000) (ev_session_ttl_s e)) \<le> ev_now e - ow_last_frame ow
         then full_revoke e robot True False w
         else changed e (ow_session ow) w)"

end
