(* ===== verification/Robot_Link.thy ===== *)
theory Robot_Link
  imports Command_Broker
begin

text \<open>
  The hub's handling of robot connections, telemetry and browser disconnections
  (\<open>server/app/telemetry/hub.py\<close>). The rows of the in-memory event log are outputs elsewhere, so
  ingestion keeps the log of the state as it was; broadcasting telemetry, recording and the database
  rows of telemetry are left out, and so is the tuning broker.
\<close>

definition update_state :: "string \<Rightarrow> (robot_state \<Rightarrow> robot_state) \<Rightarrow> world \<Rightarrow> world" where
  "update_state robot f w = w\<lparr>w_state := (w_state w)(robot := f (w_state w robot))\<rparr>"

definition ingest_into :: "(ingest \<Rightarrow> ingest) \<Rightarrow> robot_state \<Rightarrow> robot_state" where
  "ingest_into f s = (fst (f (s, 0, [])))\<lparr>rb_events := rb_events s\<rparr>"

definition derived :: "env \<Rightarrow> robot_state \<Rightarrow> robot_state" where
  "derived e s = fst (recompute (ev_settings e) (ev_now e) s)"

subsection \<open>Connection state\<close>

definition connection_of :: "env \<Rightarrow> nat option \<Rightarrow> rat option \<Rightarrow> connection_state" where
  "connection_of e ws age =
     (case (ws, age) of
        (Some _, Some a) \<Rightarrow> if a < ev_online_threshold_s e then Online
           else if a < ev_offline_threshold_s e then Stale else Offline
      | _ \<Rightarrow> Offline)"

definition apply_connection :: "env \<Rightarrow> nat \<Rightarrow> world \<Rightarrow> world" where
  "apply_connection e sid w =
     (let robot = se_robot (w_sessions w sid);
          conn = connection_of e (se_websocket (w_sessions w sid)) (heartbeat_age (w_state w robot) (ev_now e))
      in changed e sid (update_state robot (derived e)
           (if conn \<noteq> rb_connection (w_state w robot)
            then update_state robot (ingest_into (set_connection conn)) w else w)))"

text \<open>
  \<open>robot_connected\<close>: a new session object replaces the old one under the next generation; an unknown
  robot starts from generation 0.
\<close>

definition robot_connected :: "env \<Rightarrow> string \<Rightarrow> nat \<Rightarrow> world \<Rightarrow> world" where
  "robot_connected e robot ws w =
     (let w1 = update_state robot (\<lambda>s. s\<lparr>rb_motion := slice_new\<rparr>) w;
          w2 = full_revoke e robot True False w1;
          gen = (case session_of w2 robot of None \<Rightarrow> 0 | Some old \<Rightarrow> se_generation (w_sessions w2 old));
          sid = w_next_session w2;
          w3 = w2\<lparr>w_sessions := (w_sessions w2)(sid := \<lparr>se_robot = robot, se_websocket = Some ws,
                 se_generation = gen + 1, se_connected = ev_now e\<rparr>),
               w_next_session := Suc sid, w_robots := dset (w_robots w2) robot sid\<rparr>
      in apply_connection e sid
           (update_state robot (\<lambda>s. record_heartbeat (ev_now e) (set_capabilities [] s)) w3))"

definition robot_disconnected :: "env \<Rightarrow> nat \<Rightarrow> nat \<Rightarrow> world \<Rightarrow> world" where
  "robot_disconnected e sid ws w =
     (let robot = se_robot (w_sessions w sid)
      in if session_of w robot = Some sid \<and> se_websocket (w_sessions w sid) = Some ws
         then let w1 = full_revoke e robot True False w;
                  w2 = w1\<lparr>w_sessions := (w_sessions w1)(sid := (w_sessions w1 sid)\<lparr>se_websocket := None\<rparr>)\<rparr>
              in apply_connection e sid
                   (update_state robot (\<lambda>s. s\<lparr>rb_last_heartbeat := None, rb_motion := slice_new\<rparr>) w2)
         else w)"

subsection \<open>Telemetry\<close>

datatype telemetry = Tm_hello "string list" | Tm_heartbeat | Tm_pose pose_data | Tm_lidar lidar_data
  | Tm_path path_data | Tm_battery battery_data | Tm_base_state base_state_data | Tm_motion motion_data
  | Tm_diagnostics "diagnostic_item list" | Tm_resources resources_data | Tm_map map_data | Tm_other

text \<open>A motion sample is dropped unless it fits the live session and is recent.\<close>

definition motion_rejected :: "env \<Rightarrow> world \<Rightarrow> nat \<Rightarrow> motion_data \<Rightarrow> rat \<Rightarrow> bool" where
  "motion_rejected e w sid m age =
     (let s = w_state w (se_robot (w_sessions w sid))
      in (case (sl_data (rb_base_state s), sl_received (rb_base_state s)) of
            (Some b, Some t) \<Rightarrow> t < se_connected (w_sessions w sid)
               \<or> mo_session_generation m \<noteq> bs_session_generation b
          | _ \<Rightarrow> True)
         \<or> (case sl_data (rb_motion s) of None \<Rightarrow> False
            | Some c \<Rightarrow> mo_odom_epoch_generation m < mo_odom_epoch_generation c)
         \<or> age < -1 \<or> 3 / 2 < age)"

text \<open>The state update of a frame; \<open>age\<close> is the age of its time stamp. A battery frame with a
  non-finite voltage is outside the model and changes nothing here.\<close>

definition telemetry_update :: "env \<Rightarrow> telemetry \<Rightarrow> rat \<Rightarrow> robot_state \<Rightarrow> robot_state" where
  "telemetry_update e tm age =
     (case tm of
        Tm_hello caps \<Rightarrow> set_capabilities caps
      | Tm_pose d \<Rightarrow> ingest_into (record_pose (ev_settings e) (ev_now e) d)
      | Tm_lidar d \<Rightarrow> ingest_into (record_lidar (ev_now e) d)
      | Tm_path d \<Rightarrow> ingest_into (record_path (ev_now e) d)
      | Tm_battery d \<Rightarrow> ingest_into (\<lambda>r. default r (record_battery (ev_settings e) (ev_now e) d r))
      | Tm_base_state d \<Rightarrow> ingest_into (record_base_state (ev_now e) d)
      | Tm_motion d \<Rightarrow> ingest_into (record_motion (ev_now e)
            (d\<lparr>mo_receipt_age_s := pf_add (mo_receipt_age_s d) (Fin (max 0 age))\<rparr>))
      | Tm_diagnostics items \<Rightarrow> ingest_into (record_diagnostics (ev_now e) items)
      | Tm_resources d \<Rightarrow> ingest_into (record_resources (ev_now e) d)
      | Tm_map d \<Rightarrow> ingest_into (record_map (ev_now e) d)
      | _ \<Rightarrow> id)"

definition handle_robot_message :: "env \<Rightarrow> nat \<Rightarrow> telemetry \<Rightarrow> rat \<Rightarrow> world \<Rightarrow> world" where
  "handle_robot_message e sid tm age w =
     (let robot = se_robot (w_sessions w sid)
      in if session_of w robot \<noteq> Some sid then w
         else let w1 = update_state robot (record_heartbeat (ev_now e)) w
         in if (case tm of Tm_motion m \<Rightarrow> motion_rejected e w1 sid m age | _ \<Rightarrow> False) then w1
            else changed e sid (update_state robot (derived e)
                   (update_state robot (telemetry_update e tm age) w1)))"

definition handle_robot_command_reply :: "env \<Rightarrow> nat \<Rightarrow> reply \<Rightarrow> world \<Rightarrow> world" where
  "handle_robot_command_reply e sid r w =
     (let robot = se_robot (w_sessions w sid)
      in if session_of w robot \<noteq> Some sid then w
         else handle_robot_reply e sid r (update_state robot (record_heartbeat (ev_now e)) w))"

subsection \<open>Browsers\<close>

definition cancel_for_client :: "env \<Rightarrow> nat \<Rightarrow> world \<Rightarrow> world" where
  "cancel_for_client e client w =
     (let w1 = foldl (\<lambda>w (robot, ow). if ow_client ow = client then full_revoke e robot True False w else w)
                 w (w_owners w)
      in foldl (\<lambda>w a. if ac_initiator a = client then cancel_map e a w else w) w1 (map snd (w_active w1)))"

definition browser_disconnected :: "nat \<Rightarrow> world \<Rightarrow> world" where
  "browser_disconnected client w =
     w\<lparr>w_clients := (w_clients w)(client := (w_clients w client)\<lparr>cl_connected := False\<rparr>),
       w_lease := lease_release_client (w_lease w) client\<rparr>"

end
