(* ===== verification/Broker_Journal.thy ===== *)
theory Broker_Journal
  imports Robot_Link
begin

text \<open>
  What the server writes to the audit table and what it sends to the robot, over every interleaving
  of its operations. \<open>journal\<close> keeps the audit rows of admitted requests and the command frames of
  a log; the operations that only end, time out or observe commands leave it alone, a revocation
  adds at most one audited stop, an admission adds one audit row of a new id and a dispatch at most
  one frame of an admitted id.
\<close>

subsection \<open>The journal of a log\<close>

definition journal_entry :: "emission \<Rightarrow> bool" where
  "journal_entry x = (case x of To_robot _ _ \<Rightarrow> True | Audit _ \<Rightarrow> True | _ \<Rightarrow> False)"

definition journal :: "world \<Rightarrow> emission list" where
  "journal w = filter journal_entry (w_out w)"

definition sent_id :: "emission \<Rightarrow> string option" where
  "sent_id x = (case x of To_robot _ f \<Rightarrow> Some (cr_command_id f) | _ \<Rightarrow> None)"

definition audited_id :: "emission \<Rightarrow> string option" where
  "audited_id x = (case x of Audit cid \<Rightarrow> Some cid | _ \<Rightarrow> None)"

definition sent_ids :: "world \<Rightarrow> string list" where
  "sent_ids w = List.map_filter sent_id (w_out w)"

definition audited_ids :: "world \<Rightarrow> string list" where
  "audited_ids w = List.map_filter audited_id (w_out w)"

definition all_authorized :: "world \<Rightarrow> bool" where
  "all_authorized w = list_all (\<lambda>x. case x of To_robot _ f \<Rightarrow> cr_operator_authorized f | _ \<Rightarrow> True) (w_out w)"

lemma journal_out: "journal (out os w) = journal w @ filter journal_entry os"
  by (simp add: journal_def out_def)

lemma journal_entry_simps [simp]:
  "journal_entry (To_robot ws f)" "journal_entry (Audit c)"
  "\<not> journal_entry (Velocity ws v)" "\<not> journal_entry (Cancel_map ws c)" "\<not> journal_entry (Pub_ack c b r)"
  "\<not> journal_entry (Pub_progress c)" "\<not> journal_entry (Pub_result c oc)" "\<not> journal_entry (Event s cm)"
  "\<not> journal_entry (Audit_rejection c rf)" "\<not> journal_entry (Audit_complete c oc)"
  by (simp_all add: journal_entry_def)

lemma map_filter_journal:
  assumes "\<And>x. \<not> journal_entry x \<Longrightarrow> f x = None"
  shows "List.map_filter f (filter journal_entry xs) = List.map_filter f xs"
  using assms by (induction xs) (auto simp: List.map_filter_simps split: option.split)

lemma ids_of_journal:
  "sent_ids w = List.map_filter sent_id (journal w)"
  "audited_ids w = List.map_filter audited_id (journal w)"
  unfolding sent_ids_def audited_ids_def journal_def
  by (subst map_filter_journal; auto simp: journal_entry_def sent_id_def audited_id_def split: emission.splits)+

lemma authorized_of_journal:
  "all_authorized w = list_all (\<lambda>x. case x of To_robot _ f \<Rightarrow> cr_operator_authorized f | _ \<Rightarrow> True) (journal w)"
  unfolding all_authorized_def journal_def
  by (auto simp: list_all_iff journal_entry_def split: emission.splits)

lemma map_filter_append: "List.map_filter f (xs @ ys) = List.map_filter f xs @ List.map_filter f ys"
  by (simp add: List.map_filter_def)

text \<open>Updates of other fields do not touch the journal.\<close>

lemma journal_cong: "w_out w' = w_out w \<Longrightarrow> journal w' = journal w"
  by (simp add: journal_def)

lemma journal_updates [simp]:
  "journal (w_robots_update f w) = journal w" "journal (w_sessions_update f1 w) = journal w"
  "journal (w_next_session_update f2 w) = journal w" "journal (w_state_update f3 w) = journal w"
  "journal (w_clients_update f4 w) = journal w" "journal (w_active_update f5 w) = journal w"
  "journal (w_reset_pending_update f6 w) = journal w" "journal (w_lidar_pending_update f7 w) = journal w"
  "journal (w_lidar_recovery_update f8 w) = journal w" "journal (w_lidar_after_update f9 w) = journal w"
  "journal (w_seen_update f10 w) = journal w" "journal (w_lease_update f11 w) = journal w"
  "journal (w_rate_update f12 w) = journal w" "journal (w_owners_update f13 w) = journal w"
  "journal (w_revisions_update f14 w) = journal w" "journal (w_attempts_update f15 w) = journal w"
  by (simp_all add: journal_def)

subsection \<open>Operations that leave the journal alone\<close>

lemma journal_set_owner [simp]: "journal (set_owner robot ow w) = journal w"
  by (simp add: set_owner_def)

lemma journal_try_send: "journal (fst (try_send e frame w)) = journal w @ (if snd (try_send e frame w) then filter journal_entry [frame] else [])"
  by (simp add: try_send_def Let_def journal_out)

lemma journal_send_velocity [simp]: "journal (fst (send_velocity e ow v w)) = journal w"
  by (simp add: send_velocity_def journal_try_send split: option.split)

lemma journal_revoke_core [simp]: "journal (revoke_core e robot z w) = journal w"
  using journal_send_velocity
  by (auto simp: revoke_core_def Let_def split: option.split prod.split)
     (metis fst_conv journal_set_owner journal_send_velocity journal_updates(15))+

lemma journal_stop_pending [simp]: "journal (stop_pending robot cid w) = journal w"
  by (simp add: stop_pending_def split: option.split)

lemma journal_terminal [simp]: "journal (terminal a w) = journal w"
  by (simp add: terminal_def Let_def split: option.split)

lemma journal_finish [simp]: "journal (finish tm e oc a w) = journal w"
  by (simp add: finish_def Let_def journal_out)

lemma journal_mark_uncertain [simp]: "journal (mark_uncertain e a w) = journal w"
  by (simp add: mark_uncertain_def Let_def journal_out split: option.split)

lemma journal_cancel_map [simp]: "journal (cancel_map e a w) = journal w"
  by (simp add: cancel_map_def journal_try_send split: option.split)

lemma journal_close_out [simp]: "journal (close_out tm e oc a w) = journal w"
  by (simp add: close_out_def journal_out)

lemma journal_reject [simp]: "journal (reject_audited e cid r w) = journal w"
  by (simp add: reject_audited_def journal_out)

lemma journal_retire_all [simp]: "journal (retire_all e robot w) = journal w"
proof -
  have "journal (foldl (retire e robot) w as) = journal w" for as w
    by (induction as arbitrary: w) (simp_all add: retire_def Let_def)
  then show ?thesis by (simp add: retire_all_def)
qed

lemma journal_register [simp]: "journal (register robot cid cmd w) = journal w"
  by (simp add: register_def Let_def)

lemma journal_send_failed [simp]: "journal (send_failed e a w) = journal w"
  by (simp add: send_failed_def)

lemma journal_activate [simp]: "journal (activate e robot w) = journal w"
  by (simp add: activate_def split: option.split)

lemma journal_update_state [simp]: "journal (update_state robot f w) = journal w"
  by (simp add: update_state_def)

subsection \<open>Admission and dispatch\<close>

lemma check_rate_out: "w_out (fst (check_rate e u cmd w)) = w_out w"
  by (simp add: check_rate_def Let_def split: prod.split)

lemma take_lease_out: "w_out (fst (take_lease e u client robot p w)) = w_out w"
  by (simp add: take_lease_def)

lemma remember_out: "w_out (remember cid w) = w_out w"
  by (simp add: remember_def)

lemma prepare_out: "w_out (fst (prepare e client sid cid w)) = w_out w"
  by (simp add: prepare_def Let_def set_owner_def split: option.split sum.split)

lemma admit_rest_out:
  "(case admit_rest e u client robot p since w of Inl r \<Rightarrow> w_out (fst r) | Inr r \<Rightarrow> w_out (fst r)) = w_out w"
proof -
  obtain w1 lim where 1: "check_rate e u (cr_command p) w = (w1, lim)" by fastforce
  obtain w2 held where 2: "take_lease e u client robot p w1 = (w2, held)" by fastforce
  have w1: "w_out w1 = w_out w" using check_rate_out [of e u "cr_command p" w] 1 by simp
  have w2: "w_out w2 = w_out w" using take_lease_out [of e u client robot p w1] 2 w1 by simp
  have w3: "w_out (remember c w2) = w_out w" for c using w2 by (simp add: remember_out)
  have p: "w_out (fst (prepare e client sid c w')) = w_out w'" for sid c w' by (rule prepare_out)
  show ?thesis
    using w1 w2 w3 p [of "the (session_of (remember (cr_command_id p) w2) robot)" "cr_command_id p"
        "remember (cr_command_id p) w2"]
    by (auto simp: admit_rest_def 1 2 Let_def split: option.split sum.split prod.split)
qed

lemma admit_rest_fresh:
  assumes "admit_rest e u client robot p since w = Inr (w', sid)" and "ev_db e"
  shows "\<not> command_recorded e w (cr_command_id p)"
proof -
  obtain w1 lim where 1: "check_rate e u (cr_command p) w = (w1, lim)" by fastforce
  obtain w2 held where 2: "take_lease e u client robot p w1 = (w2, held)" by fastforce
  have w2: "w_out w2 = w_out w"
    using take_lease_out [of e u client robot p w1] check_rate_out [of e u "cr_command p" w] 1 2 by simp
  have "\<not> command_recorded e w2 (cr_command_id p)"
    using assms by (auto simp: admit_rest_def 1 2 Let_def split: option.splits if_splits)
  then show ?thesis by (simp add: command_recorded_def w2)
qed

lemma recorded_if_audited:
  assumes "c \<in> set (audited_ids w)" shows "command_recorded e w c"
proof -
  from assms obtain x where "x \<in> set (w_out w)" "audited_id x = Some c"
    by (auto simp: audited_ids_def List.map_filter_def)
  moreover from this(2) have "audit_row x = Some c" by (cases x) (simp_all add: audited_id_def audit_row_def)
  ultimately show ?thesis unfolding command_recorded_def list_ex_iff by blast
qed

text \<open>
  The journal grew by audit rows of new ids, and by frames, all authorized and at most one for each
  of those ids.
\<close>

definition advances :: "world \<Rightarrow> world \<Rightarrow> bool" where
  "advances w w' \<longleftrightarrow>
     (\<exists>cs ds. audited_ids w' = audited_ids w @ cs \<and> sent_ids w' = sent_ids w @ ds \<and> distinct cs
        \<and> set cs \<inter> set (audited_ids w) = {} \<and> distinct ds \<and> set ds \<subseteq> set cs)
     \<and> (all_authorized w \<longrightarrow> all_authorized w')"

lemma advances_same [simp, intro]: "journal w' = journal w \<Longrightarrow> advances w w'"
  by (simp add: advances_def ids_of_journal authorized_of_journal)

lemma advances_trans [trans]:
  assumes "advances w1 w2" and "advances w2 w3" shows "advances w1 w3"
proof -
  obtain cs ds where 1: "audited_ids w2 = audited_ids w1 @ cs" "sent_ids w2 = sent_ids w1 @ ds" "distinct cs"
    "set cs \<inter> set (audited_ids w1) = {}" "distinct ds" "set ds \<subseteq> set cs"
    using assms(1) by (auto simp: advances_def)
  obtain cs' ds' where 2: "audited_ids w3 = audited_ids w2 @ cs'" "sent_ids w3 = sent_ids w2 @ ds'" "distinct cs'"
    "set cs' \<inter> set (audited_ids w2) = {}" "distinct ds'" "set ds' \<subseteq> set cs'"
    using assms(2) by (auto simp: advances_def)
  have "audited_ids w3 = audited_ids w1 @ (cs @ cs') \<and> sent_ids w3 = sent_ids w1 @ (ds @ ds') \<and> distinct (cs @ cs')
        \<and> set (cs @ cs') \<inter> set (audited_ids w1) = {} \<and> distinct (ds @ ds') \<and> set (ds @ ds') \<subseteq> set (cs @ cs')"
    using 1 2 by auto
  then show ?thesis using assms unfolding advances_def by blast
qed

lemma advances_journal: "advances w1 w2 \<Longrightarrow> journal w3 = journal w2 \<Longrightarrow> advances w1 w3"
  by (simp add: advances_def ids_of_journal authorized_of_journal)

lemma admit_journal:
  assumes rv: "\<And>b v. advances v (rv b v)" and db: "ev_db e"
    and adm: "admit rv e client robot p since w = (w', r)"
  shows "case r of None \<Rightarrow> advances w w'
         | Some i \<Rightarrow> if_payload i = p \<and> if_robot i = robot
             \<and> (\<exists>w1. advances w w1 \<and> cr_command_id p \<notin> set (audited_ids w1)
                  \<and> journal w' = journal w1 @ [Audit (cr_command_id p)])"
proof (cases "early_refusal w client robot (cr_command p)")
  case (Some x)
  then have "r = None" "w' = reject_audited e (cr_command_id p) x (if x = Manual_active \<and> cr_takeover p then rv True w else w)"
    using adm by (simp_all add: admit_def Let_def)
  then show ?thesis using rv [of w True] advances_journal [OF rv journal_reject] by simp
next
  case early: None
  show ?thesis
  proof (cases "cr_command p \<notin> {Stop, Motor_disable, Software_reset, Teleop_stop} \<and> cr_command p \<noteq> Teleop_start
             \<and> dget (w_owners w) robot \<noteq> None")
    case True
    then have "r = None" "w' = reject_audited e (cr_command_id p) Manual_ending (rv True w)"
      using adm early by (simp_all add: admit_def Let_def)
    then show ?thesis using advances_journal [OF rv journal_reject] by simp
  next
    case other: False
    show ?thesis
    proof (cases "cl_user (w_clients w client)")
      case None
      then show ?thesis using early by (simp add: early_refusal_def)
    next
      case (Some u)
      let ?w0 = "revoked_first rv robot (cr_command p) w"
      have adv: "advances w ?w0" using rv by (simp add: revoked_first_def)
      have out: "(case admit_rest e u client robot p since ?w0 of Inl r \<Rightarrow> w_out (fst r) | Inr r \<Rightarrow> w_out (fst r)) = w_out ?w0"
        by (rule admit_rest_out)
      show ?thesis
      proof (cases "admit_rest e u client robot p since ?w0")
        case (Inl x)
        obtain w1 rf where x: "x = (w1, rf)" by fastforce
        have r: "w' = reject_audited e (cr_command_id p) rf w1" "r = None"
          using adm early other Some Inl x by (auto simp: admit_def Let_def)
        have "journal w1 = journal ?w0" using out Inl x by (simp add: journal_def)
        then show ?thesis using advances_journal [OF adv] r by simp
      next
        case (Inr x)
        obtain w1 sid where x: "x = (w1, sid)" by fastforce
        have r: "w' = out [Audit (cr_command_id p)] w1"
          "\<exists>i. r = Some i \<and> if_payload i = p \<and> if_robot i = robot"
          using adm early other Some Inr x db by (auto simp: admit_def Let_def)
        have j: "journal w1 = journal ?w0" using out Inr x by (simp add: journal_def)
        have "cr_command_id p \<notin> set (audited_ids ?w0)"
          using admit_rest_fresh [OF Inr [unfolded x] db] recorded_if_audited by blast
        then show ?thesis using advances_journal [OF adv j] adv r j ids_of_journal(2) by (auto simp: journal_out)
      qed
    qed
  qed
qed

lemma dispatch_journal:
  "journal (dispatch e i w) = journal w
   \<or> (\<exists>ws. journal (dispatch e i w) = journal w @ [To_robot ws ((if_payload i)\<lparr>cr_operator_authorized := True\<rparr>)])"
proof -
  have f: "journal (forward e i a v) = journal v
     \<or> (\<exists>ws. journal (forward e i a v) = journal v @ [To_robot ws ((if_payload i)\<lparr>cr_operator_authorized := True\<rparr>)])" for a v
  proof (cases "ac_websocket a")
    case None
    then show ?thesis by (simp add: forward_def)
  next
    case (Some ws)
    then show ?thesis using journal_try_send [of e "To_robot ws ((if_payload i)\<lparr>cr_operator_authorized := True\<rparr>)" v]
      by (auto simp: forward_def Let_def journal_out split: prod.split if_splits)
  qed
  let ?robot = "if_robot i" and ?cmd = "cr_command (if_payload i)" and ?cid = "cr_command_id (if_payload i)"
  define w0 where "w0 = (if ?cmd = Software_reset then retire_all e ?robot w else w)"
  define a where "a = \<lparr>ac_command_id = ?cid, ac_command = ?cmd, ac_robot = ?robot, ac_initiator = if_client i,
               ac_acked = False, ac_uncertain = False, ac_session = if_session i,
               ac_websocket = se_websocket (w_sessions w0 (if_session i))\<rparr>"
  define w1 where "w1 = w0\<lparr>w_active := dset (w_active w0) ?cid a\<rparr>"
  have d: "dispatch e i w = (if ?cmd = Teleop_start \<and> stale_start e w1 i
      then finish False e Canceled a (out [Pub_ack ?cid False (Some Canceled_before_publication)] (terminal a w1))
      else forward e i a (register ?robot ?cid ?cmd w1))"
    unfolding dispatch_def Let_def w0_def a_def w1_def by simp
  have j: "journal w1 = journal w" by (simp add: w1_def w0_def)
  show ?thesis using f [of a "register ?robot ?cid ?cmd w1"] j by (auto simp: d journal_out)
qed

lemma advances_dispatch_after_admit:
  assumes "advances w w1" and "c \<notin> set (audited_ids w1)" and "journal w2 = journal w1 @ [Audit c]"
    and "cr_command_id (if_payload i) = c"
  shows "advances w (dispatch e i w2)"
proof -
  have "audited_ids (dispatch e i w2) = audited_ids w1 @ [c]"
    "sent_ids (dispatch e i w2) = sent_ids w1 @ [] \<or> sent_ids (dispatch e i w2) = sent_ids w1 @ [c]"
    "all_authorized w1 \<longrightarrow> all_authorized (dispatch e i w2)"
    using dispatch_journal [of e i w2] assms(3,4)
    by (auto simp: ids_of_journal authorized_of_journal map_filter_append List.map_filter_simps audited_id_def sent_id_def)
  then have "advances w1 (dispatch e i w2)" unfolding advances_def using assms(2) by fastforce
  with assms(1) show ?thesis by (rule advances_trans)
qed

lemma advances_handle_request:
  assumes "\<And>b v. advances v (rv b v)" and "ev_db e"
  shows "advances w (handle_request rv e client robot p w)"
proof -
  obtain w1 r where adm: "admit rv e client robot p (revision w robot) w = (w1, r)" by fastforce
  note j = admit_journal [OF assms(1) assms(2) adm]
  show ?thesis
  proof (cases r)
    case None
    then show ?thesis using j adm by (simp add: handle_request_def)
  next
    case (Some i)
    then obtain w0 where "if_payload i = p" "advances w w0" "cr_command_id p \<notin> set (audited_ids w0)"
      "journal w1 = journal w0 @ [Audit (cr_command_id p)]" using j by auto
    then show ?thesis
      using advances_dispatch_after_admit [of w w0 "cr_command_id p" w1 i e] adm Some by (simp add: handle_request_def)
  qed
qed

lemma advances_stop_handler: "ev_db e \<Longrightarrow> advances w (stop_handler e client robot p w)"
  unfolding stop_handler_def by (rule advances_handle_request) simp_all

lemma advances_full_revoke:
  assumes "ev_db e" shows "advances w (full_revoke e robot i z w)"
proof -
  have "advances w (stop_handler e c robot p v)" if "journal v = journal w" for c p v
    using advances_stop_handler [OF assms, of v c robot p] that advances_trans advances_same by blast
  then show ?thesis
    by (cases "dget (w_owners (revoke_core e robot z w)) robot") (simp_all add: full_revoke_def revoke_def Let_def)
qed

end
