(* ===== verification/Server_Run.thy ===== *)
theory Server_Run
  imports Broker_Journal
begin

text \<open>
  The server as a transition system: the operations of the command path in any order and
  interleaving, and what holds in every state they reach. A state is the world with the requests
  that wait for their audit row; the admission lock of a robot lets one locked request wait at a time.
\<close>

subsection \<open>Steps of the server\<close>

text \<open>\<open>handle_browser_request\<close> takes the robot's lock for every command but these.\<close>

definition lock_exempt :: "command \<Rightarrow> bool" where
  "lock_exempt cmd = (cmd = Stop \<or> cmd = Motor_disable \<or> cmd = Teleop_stop)"

definition lock_free :: "inflight list \<Rightarrow> string \<Rightarrow> command \<Rightarrow> bool" where
  "lock_free q robot cmd =
     (lock_exempt cmd \<or> list_all (\<lambda>i. if_robot i = robot \<longrightarrow> lock_exempt (cr_command (if_payload i))) q)"

definition waiting :: "inflight option \<Rightarrow> inflight list" where
  "waiting r = (case r of None \<Rightarrow> [] | Some i \<Rightarrow> [i])"

inductive server_step :: "env \<Rightarrow> world \<times> inflight list \<Rightarrow> world \<times> inflight list \<Rightarrow> bool" for e :: env where
  st_request: "lock_free q robot (cr_command p) \<Longrightarrow> browser_admit e client robot p since w = (w', r)
    \<Longrightarrow> server_step e (w, q) (w', q @ waiting r)"
| st_dispatch: "server_step e (w, q1 @ i # q2) (dispatch e i w, q1 @ q2)"
| st_reply: "server_step e (w, q) (handle_robot_command_reply e sid rp w, q)"
| st_ack_timeout: "server_step e (w, q) (ack_timeout e cid w, q)"
| st_result_timeout: "server_step e (w, q) (result_timeout e cid w, q)"
| st_velocity: "server_step e (w, q) (fst (velocity e client robot age v w), q)"
| st_watchdog: "server_step e (w, q) (monitor_owner e robot w, q)"
| st_connected: "server_step e (w, q) (robot_connected e robot ws w, q)"
| st_disconnected: "server_step e (w, q) (robot_disconnected e sid ws w, q)"
| st_message: "server_step e (w, q) (handle_robot_message e sid tm a w, q)"
| st_monitor: "server_step e (w, q) (apply_connection e sid w, q)"
| st_browser_gone: "server_step e (w, q) (browser_disconnected client w, q)"
| st_cancel: "server_step e (w, q) (cancel_for_client e client w, q)"

inductive_cases server_stepE: "server_step e s s'"

text \<open>The server starts with empty tables; its clients and maps are arbitrary.\<close>

definition server_initial :: "world \<Rightarrow> bool" where
  "server_initial w \<longleftrightarrow> w_out w = [] \<and> w_active w = [] \<and> w_owners w = [] \<and> w_robots w = []
     \<and> w_reset_pending w = [] \<and> w_lidar_pending w = [] \<and> w_revisions w = [] \<and> w_next_session w = 0"

text \<open>Every step may see another environment; \<open>ok\<close> restricts the environments.\<close>

inductive server_reachable :: "(env \<Rightarrow> bool) \<Rightarrow> world \<times> inflight list \<Rightarrow> bool" for ok :: "env \<Rightarrow> bool" where
  rc_init: "server_initial w \<Longrightarrow> server_reachable ok (w, [])"
| rc_step: "server_reachable ok s \<Longrightarrow> ok e \<Longrightarrow> server_step e s s' \<Longrightarrow> server_reachable ok s'"

subsection \<open>Commands are sent at most once\<close>

lemma advances_foldl:
  assumes "\<And>w x. advances w (f w x)" shows "advances w (foldl f w xs)"
proof (induction xs arbitrary: w)
  case Nil
  show ?case by simp
next
  case (Cons x xs)
  have "advances (f w x) (foldl f (f w x) xs)" by (rule Cons.IH)
  with assms [of w x] have "advances w (foldl f (f w x) xs)" by (rule advances_trans)
  then show ?case by simp
qed

lemma advances_revoke_then:
  "ev_db e \<Longrightarrow> journal w1 = journal w \<Longrightarrow> journal w2 = journal (full_revoke e robot i z w1) \<Longrightarrow> advances w w2"
  using advances_full_revoke advances_journal advances_same advances_trans by metis

lemma advances_on_ack: assumes "ev_db e" shows "advances w (on_ack e a acc r w)"
proof -
  have adv: "advances w w'" if "journal w' = journal w
     \<or> (\<exists>w1 robot i z. journal w1 = journal w \<and> journal w' = journal (full_revoke e robot i z w1))" for w'
    using that advances_revoke_then [OF assms] by blast
  show ?thesis
    by (rule adv, auto simp: on_ack_def Let_def journal_out) (metis journal_updates(6))+
qed

lemma journal_on_result: "journal (on_result e a oc w) = journal w"
  by (simp add: on_result_def Let_def journal_out)

lemma advances_reply:
  assumes "ev_db e" shows "advances w (handle_robot_command_reply e sid rp w)"
proof -
  have "advances v (handle_robot_reply e sid rp v)" for v
    using advances_on_ack [OF assms] journal_on_result
    by (auto simp: handle_robot_reply_def Let_def journal_out split: option.split reply.split)
  then show ?thesis
    by (cases "session_of w (se_robot (w_sessions w sid)) = Some sid")
      (simp_all add: handle_robot_command_reply_def Let_def,
       metis advances_trans advances_same journal_update_state)
qed

lemma advances_uncertain_revoked: "ev_db e \<Longrightarrow> advances w (mark_uncertain e a (full_revoke e robot i z w))"
  using advances_revoke_then [of e w w] by simp

lemma advances_timeouts:
  assumes "ev_db e" shows "advances w (ack_timeout e cid w)" and "advances w (result_timeout e cid w)"
  using advances_uncertain_revoked [OF assms]
  by (simp_all add: ack_timeout_def result_timeout_def split: option.split)

text \<open>A velocity frame ends in a state with the journal of the first, or in a revocation from one.\<close>

lemma velocity_shape:
  "\<exists>v1. journal v1 = journal w \<and> (fst (velocity e client robot age v w) = v1
         \<or> (\<exists>z. fst (velocity e client robot age v w) = full_revoke e robot True z v1))"
proof (cases "dget (w_owners w) robot")
  case None
  then show ?thesis by (auto simp: velocity_def)
next
  case (Some ow)
  define times where "times = dropWhile (\<lambda>t. 1 \<le> ev_now e - t) (ow_frame_times ow)"
  define ow1 where "ow1 = ow\<lparr>ow_frame_times := (if tv_deadman v then times @ [ev_now e] else ow_frame_times ow),
                           ow_seq := tv_seq v, ow_last_frame := ev_now e\<rparr>"
  obtain w1 sent where s: "send_velocity e ow1 v (set_owner robot ow1 w) = (w1, sent)" by fastforce
  have j: "journal w1 = journal w" using journal_send_velocity [of e ow1 v "set_owner robot ow1 w"] s by simp
  define shape where "shape x \<longleftrightarrow> (\<exists>v1. journal v1 = journal w \<and> (fst x = v1
      \<or> (\<exists>z. fst x = full_revoke e robot True z v1)))" for x :: "world \<times> bool"
  have leaves: "shape (w, k)" "shape (w1, k)" "shape (full_revoke e robot True z w, k)" "shape (full_revoke e robot True z w1, k)"
    "shape (set_owner robot o1 w, k)" for k z o1
    using j journal_set_owner unfolding shape_def fst_conv by blast+
  have "shape (velocity e client robot age v w)"
    unfolding velocity_def Some option.case Let_def times_def [symmetric] ow1_def [symmetric] s prod.case
    by (intro branches(1) [of shape] leaves)
  then show ?thesis by (simp add: shape_def)
qed

lemma advances_velocity:
  assumes "ev_db e" shows "advances w (fst (velocity e client robot age v w))"
proof -
  obtain v1 where j: "journal v1 = journal w" and "fst (velocity e client robot age v w) = v1
      \<or> (\<exists>z. fst (velocity e client robot age v w) = full_revoke e robot True z v1)"
    using velocity_shape [of w e client robot age v] by blast
  then show ?thesis using advances_revoke_then [OF assms j] advances_same [OF j] by auto
qed

lemma advances_changed: "ev_db e \<Longrightarrow> advances w (changed e sid w)"
  using advances_full_revoke by (simp add: changed_def Let_def split: option.split)

lemma advances_monitor: "ev_db e \<Longrightarrow> advances w (monitor_owner e robot w)"
  using advances_full_revoke advances_changed by (simp add: monitor_owner_def Let_def split: option.split)

lemma advances_apply_connection: "ev_db e \<Longrightarrow> advances w (apply_connection e sid w)"
  unfolding apply_connection_def Let_def
  by (rule advances_trans [OF advances_same advances_changed]) simp_all

lemma advances_connection:
  assumes "ev_db e"
  shows "advances w (robot_connected e robot ws w)" and "advances w (robot_disconnected e sid ws w)"
proof -
  show "advances w (robot_connected e robot ws w)"
    unfolding robot_connected_def Let_def
    by (rule advances_trans [OF advances_revoke_then [OF assms] advances_apply_connection [OF assms]]) (rule journal_update_state, simp)
  show "advances w (robot_disconnected e sid ws w)"
    using advances_trans [OF advances_revoke_then [OF assms] advances_apply_connection [OF assms]]
    by (auto simp: robot_disconnected_def Let_def)
qed

lemma advances_message: "ev_db e \<Longrightarrow> advances w (handle_robot_message e sid tm a w)"
  by (auto simp: handle_robot_message_def Let_def intro: advances_trans [OF advances_same advances_changed])

lemma advances_cancel:
  assumes "ev_db e" shows "advances w (cancel_for_client e client w)"
proof -
  have "advances w (foldl (\<lambda>w (robot, ow). if ow_client ow = client then full_revoke e robot True False w else w) w xs)" for xs w
    by (rule advances_foldl) (auto intro: advances_full_revoke [OF assms] split: prod.split)
  moreover have "advances w (foldl (\<lambda>w a. if ac_initiator a = client then cancel_map e a w else w) w xs)" for xs w
    by (rule advances_foldl) simp
  ultimately show ?thesis unfolding cancel_for_client_def Let_def by (rule advances_trans)
qed

definition ids_ok :: "world \<times> inflight list \<Rightarrow> bool" where
  "ids_ok s \<longleftrightarrow> (let w = fst s; ids = sent_ids w @ map (\<lambda>i. cr_command_id (if_payload i)) (snd s)
     in distinct (audited_ids w) \<and> distinct ids \<and> set ids \<subseteq> set (audited_ids w) \<and> all_authorized w)"

lemma ids_ok_advances: "ids_ok (w, q) \<Longrightarrow> advances w w' \<Longrightarrow> ids_ok (w', q)"
proof -
  let ?q = "map (\<lambda>i. cr_command_id (if_payload i)) q"
  assume ok: "ids_ok (w, q)" and "advances w w'"
  then obtain cs ds where a: "audited_ids w' = audited_ids w @ cs" "sent_ids w' = sent_ids w @ ds" "distinct cs"
    "set cs \<inter> set (audited_ids w) = {}" "distinct ds" "set ds \<subseteq> set cs" "all_authorized w'"
    by (auto simp: advances_def ids_ok_def Let_def)
  have o: "distinct (audited_ids w)" "distinct (sent_ids w @ ?q)" "set (sent_ids w @ ?q) \<subseteq> set (audited_ids w)"
    using ok by (simp_all add: ids_ok_def Let_def)
  have "set ds \<inter> set (sent_ids w @ ?q) = {}" using a(4,6) o(3) by blast
  then have "distinct (sent_ids w' @ ?q)" using o(2) a(2,5) by auto
  moreover have "set (sent_ids w' @ ?q) \<subseteq> set (audited_ids w')" using o(3) a(1,2,6) by auto
  moreover have "distinct (audited_ids w')" using o(1) a(1,3,4) by auto
  ultimately show "ids_ok (w', q)" using a(7) by (simp add: ids_ok_def Let_def)
qed

lemma ids_ok_step:
  assumes "server_step e s s'" and "ev_db e" and "ids_ok s" shows "ids_ok s'"
  using assms(1)
proof cases
  case (st_request q robot p client since w w' r)
  have rv: "advances v (full_revoke e robot b False v)" for b v by (rule advances_full_revoke [OF assms(2)])
  have j: "case r of None \<Rightarrow> advances w w' | Some i \<Rightarrow> if_payload i = p \<and> if_robot i = robot
             \<and> (\<exists>w1. advances w w1 \<and> cr_command_id p \<notin> set (audited_ids w1)
                  \<and> journal w' = journal w1 @ [Audit (cr_command_id p)])"
    using admit_journal [of "\<lambda>b. full_revoke e robot b False", OF rv assms(2)] st_request(4) by (simp add: browser_admit_def)
  show ?thesis
  proof (cases r)
    case None
    then show ?thesis using j assms(3) st_request ids_ok_advances by (simp add: waiting_def)
  next
    case (Some i)
    then obtain w1 where i: "if_payload i = p" and a: "advances w w1" and f: "cr_command_id p \<notin> set (audited_ids w1)"
      and j1: "journal w' = journal w1 @ [Audit (cr_command_id p)]" using j by auto
    have "ids_ok (w1, q)" using ids_ok_advances [OF _ a] assms(3) st_request(1) by simp
    then show ?thesis using f j1 i st_request(2) Some
      by (auto simp: ids_ok_def Let_def ids_of_journal authorized_of_journal map_filter_append List.map_filter_simps
          audited_id_def sent_id_def waiting_def)
  qed
next
  case (st_dispatch w q1 i q2)
  let ?id = "\<lambda>i. cr_command_id (if_payload i)"
  have d: "audited_ids (dispatch e i w) = audited_ids w" "all_authorized w \<longrightarrow> all_authorized (dispatch e i w)"
    "sent_ids (dispatch e i w) = sent_ids w @ [] \<or> sent_ids (dispatch e i w) = sent_ids w @ [?id i]"
    using dispatch_journal [of e i w]
    by (auto simp: ids_of_journal authorized_of_journal map_filter_append List.map_filter_simps audited_id_def sent_id_def)
  have move: "distinct (S @ A @ c # B) \<Longrightarrow> distinct ((S @ T) @ A @ B) \<and> set ((S @ T) @ A @ B) \<subseteq> set (S @ A @ c # B)"
    if "T = [] \<or> T = [c]" for S A B T and c :: string
    using that by auto
  have ok: "distinct (sent_ids w @ map ?id q1 @ ?id i # map ?id q2)"
    "set (sent_ids w @ map ?id q1 @ ?id i # map ?id q2) \<subseteq> set (audited_ids w)"
    "distinct (audited_ids w)" "all_authorized w"
    using assms(3) st_dispatch(1) by (simp_all add: ids_ok_def Let_def)
  from d(3) obtain T where T: "T = [] \<or> T = [?id i]" "sent_ids (dispatch e i w) = sent_ids w @ T" by blast
  have "distinct (sent_ids (dispatch e i w) @ map ?id (q1 @ q2))"
    "set (sent_ids (dispatch e i w) @ map ?id (q1 @ q2)) \<subseteq> set (audited_ids w)"
    unfolding T(2) map_append using move [OF T(1) ok(1)] ok(2) by blast+
  then show ?thesis using ok(3,4) d(1,2) st_dispatch(2) by (simp add: ids_ok_def Let_def)
next
  case (st_browser_gone w q client)
  then show ?thesis using assms(3) ids_ok_advances advances_same by (simp add: browser_disconnected_def)
next
  case st_reply
  then show ?thesis using assms(3) ids_ok_advances advances_reply [OF assms(2)] by simp
next
  case st_ack_timeout
  then show ?thesis using assms(3) ids_ok_advances advances_timeouts(1) [OF assms(2)] by simp
next
  case st_result_timeout
  then show ?thesis using assms(3) ids_ok_advances advances_timeouts(2) [OF assms(2)] by simp
next
  case st_velocity
  then show ?thesis using assms(3) ids_ok_advances advances_velocity [OF assms(2)] by simp
next
  case st_watchdog
  then show ?thesis using assms(3) ids_ok_advances advances_monitor [OF assms(2)] by simp
next
  case st_connected
  then show ?thesis using assms(3) ids_ok_advances advances_connection(1) [OF assms(2)] by simp
next
  case st_disconnected
  then show ?thesis using assms(3) ids_ok_advances advances_connection(2) [OF assms(2)] by simp
next
  case st_message
  then show ?thesis using assms(3) ids_ok_advances advances_message [OF assms(2)] by simp
next
  case st_monitor
  then show ?thesis using assms(3) ids_ok_advances advances_apply_connection [OF assms(2)] by simp
next
  case st_cancel
  then show ?thesis using assms(3) ids_ok_advances advances_cancel [OF assms(2)] by simp
qed


subsection \<open>A concrete run\<close>

definition example_env :: env where
  "example_env = \<lparr>ev_now = 100, ev_db = True, ev_recorded = (\<lambda>_. False), ev_send_ok = (\<lambda>_. True),
     ev_provider = None, ev_state_policy = Raw_none, ev_trig = (\<lambda>_. (1, 0)), ev_uuid = (\<lambda>_. ''stop-1''), ev_frames_per_s = 30,
     ev_session_ttl_s = 20, ev_ack_timeout_s = 5, ev_online_threshold_s = 3, ev_offline_threshold_s = 10,
     ev_settings = example_settings\<rparr>"

definition example_world :: world where
  "example_world = \<lparr>w_robots = [], w_sessions = (\<lambda>_. \<lparr>se_robot = [], se_websocket = None, se_generation = 0,
     se_connected = 0\<rparr>), w_next_session = 0, w_state = (\<lambda>_. state_new example_settings),
     w_clients = (\<lambda>_. \<lparr>cl_user = Some \<lparr>us_id = 1, us_username = ''op'', us_role = ''operator''\<rparr>, cl_connected = True\<rparr>),
     w_maps = [], w_active = [], w_reset_pending = [], w_lidar_pending = [], w_lidar_recovery = [], w_lidar_after = [],
     w_seen = [], w_lease = [], w_rate = rate_limiter_new 30, w_owners = [], w_revisions = [], w_attempts = 0, w_out = []\<rparr>"

definition example_stop :: command_request where
  "example_stop = \<lparr>cr_command_id = ''c1'', cr_command = Stop, cr_seed_profile = None, cr_enabled = None,
     cr_goal = None, cr_takeover = False, cr_allow_unlocalized = False, cr_operator_authorized = False\<rparr>"

definition example_connected :: world where
  "example_connected = robot_connected example_env ''r'' 7 example_world"

definition example_admitted :: "world \<times> inflight option" where
  "example_admitted = browser_admit example_env 0 ''r'' example_stop 0 example_connected"

lemma example_admitted_some: "snd example_admitted = Some \<lparr>if_client = 0, if_robot = ''r'', if_payload = example_stop,
   if_revision = 0, if_session = 0\<rparr>"
  by code_simp

definition example_sent :: world where
  "example_sent = dispatch example_env \<lparr>if_client = 0, if_robot = ''r'', if_payload = example_stop,
     if_revision = 0, if_session = 0\<rparr> (fst example_admitted)"

lemma example_connected_reachable: "server_reachable ev_db (example_connected, [])"
proof -
  have "server_initial example_world" by (simp add: server_initial_def example_world_def)
  then show ?thesis
    unfolding example_connected_def
    by (rule rc_step [OF rc_init _ st_connected]) (simp add: example_env_def)
qed

lemma example_sent_reachable: "server_reachable ev_db (example_sent, [])"
proof -
  have db: "ev_db example_env" by (simp add: example_env_def)
  have a: "browser_admit example_env 0 ''r'' example_stop 0 example_connected = (fst example_admitted, snd example_admitted)"
    by (simp add: example_admitted_def)
  have "server_step example_env (example_connected, []) (fst example_admitted, [] @ waiting (snd example_admitted))"
    by (rule st_request [OF _ a]) (simp add: lock_free_def lock_exempt_def example_stop_def)
  then have "server_reachable ev_db (fst example_admitted, [] @ \<lparr>if_client = 0, if_robot = ''r'',
      if_payload = example_stop, if_revision = 0, if_session = 0\<rparr> # [])"
    using rc_step [OF example_connected_reachable, of example_env] db by (simp add: waiting_def example_admitted_some)
  from rc_step [of ev_db, OF this db st_dispatch] show ?thesis by (simp add: example_sent_def)
qed


end
