(* ===== verification/Admission.thy ===== *)
theory Admission
  imports Server_Run
begin

text \<open>
  What an admitted request has passed, and that every request is answered: refused with a negative
  acknowledgement, or left on the active table until a result closes it.
\<close>

subsection \<open>What admission establishes\<close>

text \<open>The fields the checks read, equal in two worlds.\<close>

definition same_facts :: "world \<Rightarrow> world \<Rightarrow> bool" where
  "same_facts w w' \<longleftrightarrow> w_robots w' = w_robots w \<and> w_sessions w' = w_sessions w \<and> w_state w' = w_state w
     \<and> w_active w' = w_active w \<and> w_lidar_recovery w' = w_lidar_recovery w \<and> w_lidar_after w' = w_lidar_after w
     \<and> w_maps w' = w_maps w"

lemma same_facts_checks:
  assumes "same_facts w w'"
  shows "validate_robot_state e w' robot cmd allow = validate_robot_state e w robot cmd allow"
    and "session_refusal w' robot cmd target = session_refusal w robot cmd target"
    and "session_of w' robot = session_of w robot"
    and "goal_target e w' p = goal_target e w p"
    and "robot_facts e w' robot cmd allow = robot_facts e w robot cmd allow"
    and "base_of w' robot = base_of w robot"
proof -
  note eq = assms [unfolded same_facts_def]
  have s: "session_of w' = session_of w" "robot_commands w' = robot_commands w" "base_of w' = base_of w"
    using eq by (simp_all add: fun_eq_iff session_of_def robot_commands_def base_of_def)
  then show "session_of w' robot = session_of w robot" "base_of w' robot = base_of w robot" by simp_all
  show f: "robot_facts e w' robot cmd allow = robot_facts e w robot cmd allow" for cmd allow
    unfolding robot_facts_def s using eq by (simp only:)
  show "validate_robot_state e w' robot cmd allow = validate_robot_state e w robot cmd allow"
    unfolding validate_robot_state_def f using eq by (simp only:)
  show "session_refusal w' robot cmd target = session_refusal w robot cmd target"
    unfolding session_refusal_def s using eq by (simp only:)
  show "goal_target e w' p = goal_target e w p" unfolding goal_target_def using eq by (simp only:)
qed

lemma prepare_facts: "same_facts w (fst (prepare e client sid cid w))" "w_lease (fst (prepare e client sid cid w)) = w_lease w"
  by (simp_all add: prepare_def Let_def set_owner_def same_facts_def split: option.split sum.split)

lemma prepare_installs:
  assumes "prepare e client sid cid w = (w', None)"
  shows "\<exists>ow. dget (w_owners w') (se_robot (w_sessions w sid)) = Some ow \<and> ow_command_id ow = cid \<and> ow_client ow = client
           \<and> ow_phase ow = Pending \<and> ow_session ow = sid \<and> ow_policy ow \<noteq> None"
    and "dget (w_owners w) (se_robot (w_sessions w sid)) = None"
    and "robot_commands w (se_robot (w_sessions w sid)) = []"
    and "manual_gate e w (se_robot (w_sessions w sid)) = None"
  using assms
  by (auto simp: prepare_def Let_def set_owner_def robot_commands_def split: option.splits sum.splits if_splits)

lemma lease_after_take:
  assumes "take_lease e u client robot p w = (w', None)" and "cr_command p \<notin> set ENDING"
  shows "\<exists>h. lease_holder_of (w_lease w') robot = Some h \<and> lh_client h = client \<and> lh_user_id h = us_id u"
  using assms by (auto simp: take_lease_def lease_acquire_def lease_holder_of_def split: if_splits)

text \<open>Every check of \<open>admit_rest\<close> passed, read in the world it leaves.\<close>

lemma admit_rest_checks:
  assumes "admit_rest e u client robot p since w = Inr (w', sid)"
  shows "\<exists>target. goal_target e w' p = Inr target \<and> session_refusal w' robot (cr_command p) target = None"
    and "validate_robot_state e w' robot (cr_command p) (cr_allow_unlocalized p) = None"
    and "session_of w' robot = Some sid"
    and "cr_command p \<notin> set ENDING \<Longrightarrow> \<exists>h. lease_holder_of (w_lease w') robot = Some h \<and> lh_client h = client \<and> lh_user_id h = us_id u"
    and "same_facts w w'"
proof -
  let ?cmd = "cr_command p" and ?cid = "cr_command_id p"
  obtain w1 lim where 1: "check_rate e u ?cmd w = (w1, lim)" by fastforce
  obtain w2 held where 2: "take_lease e u client robot p w1 = (w2, held)" by fastforce
  define w3 where "w3 = remember ?cid w2"
  have "same_facts w w1" using 1 by (auto simp: check_rate_def same_facts_def Let_def split: prod.splits if_splits)
  moreover have "same_facts w1 w2" using 2 by (auto simp: take_lease_def same_facts_def split: if_splits)
  moreover have "same_facts w2 w3" by (simp add: w3_def remember_def same_facts_def)
  ultimately have f12: "same_facts w w1" "same_facts w1 w2" "same_facts w2 w3" by blast+
  have ok: "lim = None" "held = None"
    using assms by (auto simp: admit_rest_def 1 2 Let_def split: option.splits)
  have fresh: "\<not> (?cid \<in> set (w_seen w2) \<or> ev_db e \<and> command_recorded e w2 ?cid)"
    using assms by (auto simp: admit_rest_def 1 2 ok Let_def)
  have rest: "(case goal_target e w3 p of Inl r \<Rightarrow> Inl (w3, r) | Inr target \<Rightarrow>
         case session_refusal w3 robot ?cmd target of Some r \<Rightarrow> Inl (w3, r) | None \<Rightarrow>
         case validate_robot_state e w3 robot ?cmd (cr_allow_unlocalized p) of Some r \<Rightarrow> Inl (w3, r) | None \<Rightarrow>
         let sid = the (session_of w3 robot) in
         if ?cmd \<noteq> Teleop_start then Inr (w3, sid)
         else if since \<noteq> revision w3 robot then Inl (w3, Canceled_in_admission)
         else case prepare e client sid ?cid w3 of
           (w4, Some r) \<Rightarrow> Inl (w4, r)
         | (w4, None) \<Rightarrow> Inr (w4, sid)) = Inr (w', sid)"
    using assms unfolding admit_rest_def Let_def 1 prod.case ok option.case 2 if_not_P [OF fresh] w3_def [symmetric] .
  obtain target where t: "goal_target e w3 p = Inr target" "session_refusal w3 robot ?cmd target = None"
    "validate_robot_state e w3 robot ?cmd (cr_allow_unlocalized p) = None"
  proof (cases "goal_target e w3 p")
    case (Inr target)
    then show ?thesis using that rest
      by (cases "session_refusal w3 robot ?cmd target";
          cases "validate_robot_state e w3 robot ?cmd (cr_allow_unlocalized p)") simp_all
  qed (use rest in simp)
  have r: "if ?cmd \<noteq> Teleop_start then w' = w3 else prepare e client sid ?cid w3 = (w', None)"
    and sid: "sid = the (session_of w3 robot)"
    using rest unfolding t sum.case option.case Let_def by (auto split: if_splits option.splits prod.splits)
  have f3: "same_facts w3 w'" "w_lease w' = w_lease w3"
    using r prepare_facts [where w = w3 and e = e and client = client and sid = sid and cid = ?cid] by (auto simp: same_facts_def split: if_splits)
  note s = same_facts_checks [OF f3(1)]
  show "\<exists>target. goal_target e w' p = Inr target \<and> session_refusal w' robot ?cmd target = None"
    using t(1,2) by (simp add: s)
  show "validate_robot_state e w' robot ?cmd (cr_allow_unlocalized p) = None" using t(3) by (simp add: s)
  have "session_of w3 robot \<noteq> None" using t(2) by (auto simp: session_refusal_def split: option.splits)
  then show "session_of w' robot = Some sid" using sid by (simp add: s)
  show "same_facts w w'" using f12 f3 by (simp add: same_facts_def)
  assume "?cmd \<notin> set ENDING"
  then show "\<exists>h. lease_holder_of (w_lease w') robot = Some h \<and> lh_client h = client \<and> lh_user_id h = us_id u"
    using lease_after_take 2 ok(2) f3(2) by (simp add: w3_def remember_def)
qed

lemma goal_target_some:
  assumes "goal_target e w p = Inr target" and "cr_command p \<in> set GOAL_REQUIRED"
  shows "\<exists>g m mid. cr_goal p = Some g \<and> map_id g = Some mid \<and> dget (w_maps w) mid = Some m
           \<and> map_revision m = map_revision g \<and> is_finite (gl_x g) \<and> is_finite (gl_y g) \<and> inside_map e g m
           \<and> target = Some m"
  using assms by (auto simp: goal_target_def validate_goal_def split: option.splits if_splits)

text \<open>What \<open>admit\<close> decided before the checks above, and where it ran them.\<close>

lemma admit_some:
  assumes "admit rv e client robot p since w = (w', Some i)"
  shows "\<exists>u w1 sid. cl_user (w_clients w client) = Some u \<and> can_command u
           \<and> early_refusal w client robot (cr_command p) = None
           \<and> (cr_command p \<in> {Stop, Motor_disable, Software_reset, Teleop_stop} \<or> dget (w_owners w) robot = None)
           \<and> admit_rest e u client robot p since (revoked_first rv robot (cr_command p) w) = Inr (w1, sid)
           \<and> w' = out (if ev_db e then [Audit (cr_command_id p)] else []) w1
           \<and> i = \<lparr>if_client = client, if_robot = robot, if_payload = p, if_revision = since, if_session = sid\<rparr>"
proof -
  have early: "early_refusal w client robot (cr_command p) = None"
    using assms by (cases "early_refusal w client robot (cr_command p)") (simp_all add: admit_def Let_def)
  then obtain u where u: "cl_user (w_clients w client) = Some u" "can_command u"
    by (auto simp: early_refusal_def split: option.splits if_splits)
  have busy: "cr_command p \<in> {Stop, Motor_disable, Software_reset, Teleop_stop} \<or> dget (w_owners w) robot = None"
    using assms early by (auto simp: admit_def Let_def early_refusal_def split: if_splits)
  show ?thesis
    using assms early u busy
    by (cases "admit_rest e u client robot p since (revoked_first rv robot (cr_command p) w)")
      (auto simp: admit_def Let_def split: prod.splits if_splits)
qed

lemma early_barriers:
  assumes "early_refusal w client robot cmd = None"
  shows "dget (w_lidar_pending w) robot = None \<or> cmd \<in> {Stop, Teleop_stop, Software_reset, Motor_disable, Motor_enable}"
    and "case dget (w_reset_pending w) robot of None \<Rightarrow> True
         | Some pending \<Rightarrow> pending = [] \<or> cmd \<in> {Stop, Teleop_stop, Motor_disable} \<or> explicit_retry w pending cmd"
  using assms by (auto simp: early_refusal_def split: option.splits if_splits)

lemma gate_passed:
  assumes "validate_robot_state e w robot cmd allow = None" and "gate_of cmd \<noteq> None \<or> cmd = Teleop_start"
  shows "rejection_reason cmd (robot_facts e w robot cmd allow) = None"
  using assms by (auto simp: validate_robot_state_def split: if_splits)


subsection \<open>A concrete navigation request\<close>

definition example_pose :: pose_data where
  "example_pose = \<lparr>map_id = Some ''floor1'', map_revision = Some ''r1'', ps_frame_id = ''map'', ps_x = Fin 1, ps_y = Fin 1,
     ps_yaw = Fin 0, ps_linear_velocity = Fin 0, ps_angular_velocity = Fin 0, ps_covariance_trace = Some (Fin (1/100)),
     ps_planar_covariance = None, ps_covariance_limit = None, ps_localization_age_s = Some (Fin (1/10)),
     ps_localization_max_age_s = Some (Fin 1), ps_localized = True\<rparr>"

definition example_map :: map_data where
  "example_map = \<lparr>map_id = Some ''floor1'', map_revision = Some ''r1'', mp_map_version = 1, mp_name = ''floor 1'',
     mp_resolution = Fin (1/20), mp_width = 400, mp_height = 400,
     mp_origin = \<lparr>og_x = Fin (-5), og_y = Fin (-5), og_yaw = Fin 0\<rparr>, mp_rle = []\<rparr>"

definition example_ready :: world where
  "example_ready = example_connected\<lparr>w_maps := [(''floor1'', example_map)],
     w_state := (\<lambda>_. (w_state example_connected ''r'')
       \<lparr>rb_capabilities := [''map_context_v1''],
        rb_base_state := \<lparr>sl_data = Some ready_base, sl_received = Some 100\<rparr>,
        rb_pose := \<lparr>sl_data = Some example_pose, sl_received = Some 100\<rparr>\<rparr>)\<rparr>"

definition example_navigate :: command_request where
  "example_navigate = \<lparr>cr_command_id = ''c2'', cr_command = Navigate_to_pose, cr_seed_profile = None, cr_enabled = None,
     cr_goal = Some \<lparr>map_id = Some ''floor1'', map_revision = Some ''r1'', gl_x = Fin 2, gl_y = Fin 3, gl_yaw = None\<rparr>,
     cr_takeover = False, cr_allow_unlocalized = False, cr_operator_authorized = False\<rparr>"

definition example_navigation :: inflight where
  "example_navigation = \<lparr>if_client = 0, if_robot = ''r'', if_payload = example_navigate, if_revision = 0, if_session = 0\<rparr>"

lemma example_navigation_admitted:
  "snd (browser_admit example_env 0 ''r'' example_navigate 0 example_ready) = Some example_navigation"
  by code_simp


end
