(* ===== verification/Manual_Drive.thy ===== *)
theory Manual_Drive
  imports Admission
begin

text \<open>
  Manual drive over every interleaving of the server's operations: how an owner may change
  (\<open>evolves\<close>), which operations end ownership, and which velocity frames leave the server.
\<close>

subsection \<open>How owners change\<close>

definition drivable :: "manual_owner \<Rightarrow> bool" where
  "drivable ow = (ow_phase ow = Pending \<or> ow_phase ow = Active)"

text \<open>The same session, later: its identity and limits are fixed, its sequence grows, closing is final.\<close>

definition same_drive :: "manual_owner \<Rightarrow> manual_owner \<Rightarrow> bool" where
  "same_drive ow ow' \<longleftrightarrow> ow_command_id ow' = ow_command_id ow \<and> ow_client ow' = ow_client ow
     \<and> ow_session ow' = ow_session ow \<and> ow_websocket ow' = ow_websocket ow \<and> ow_generation ow' = ow_generation ow
     \<and> ow_base_generation ow' = ow_base_generation ow \<and> ow_policy ow' = ow_policy ow
     \<and> ow_signature ow' = ow_signature ow \<and> ow_seq ow \<le> ow_seq ow' \<and> (drivable ow' \<longrightarrow> drivable ow)"

text \<open>No owner appears, and only robots in \<open>D\<close> lose theirs.\<close>

definition evolves :: "string set \<Rightarrow> world \<Rightarrow> world \<Rightarrow> bool" where
  "evolves D w w' \<longleftrightarrow> (\<forall>r. case dget (w_owners w) r of
       None \<Rightarrow> dget (w_owners w') r = None
     | Some ow \<Rightarrow> (case dget (w_owners w') r of None \<Rightarrow> r \<in> D | Some ow' \<Rightarrow> same_drive ow ow'))"

lemma same_drive_refl [simp]: "same_drive ow ow"
  by (simp add: same_drive_def)

lemma same_drive_trans: "same_drive a b \<Longrightarrow> same_drive b c \<Longrightarrow> same_drive a c"
  by (auto simp: same_drive_def)

lemma evolves_same: "w_owners w' = w_owners w \<Longrightarrow> evolves D w w'"
  by (auto simp: evolves_def split: option.split)

lemma evolves_refl [simp]: "evolves D w w"
  by (simp add: evolves_same)

lemma evolves_trans:
  assumes "evolves D w1 w2" and "evolves D w2 w3" shows "evolves D w1 w3"
  unfolding evolves_def
proof
  fix r
  show "case dget (w_owners w1) r of None \<Rightarrow> dget (w_owners w3) r = None
     | Some ow \<Rightarrow> (case dget (w_owners w3) r of None \<Rightarrow> r \<in> D | Some ow' \<Rightarrow> same_drive ow ow')"
    using assms [unfolded evolves_def, THEN spec [of _ r]] same_drive_trans
    by (cases "dget (w_owners w1) r"; cases "dget (w_owners w2) r"; cases "dget (w_owners w3) r") auto
qed

lemma evolves_mono:
  assumes "evolves D w w'" and "D \<subseteq> D'" shows "evolves D' w w'"
  unfolding evolves_def
proof
  fix r
  show "case dget (w_owners w) r of None \<Rightarrow> dget (w_owners w') r = None
     | Some ow \<Rightarrow> (case dget (w_owners w') r of None \<Rightarrow> r \<in> D' | Some ow' \<Rightarrow> same_drive ow ow')"
    using assms(1) [unfolded evolves_def, THEN spec [of _ r]] assms(2)
    by (cases "dget (w_owners w) r"; cases "dget (w_owners w') r") auto
qed

lemma evolves_then: assumes "evolves D w w1" and "w_owners w2 = w_owners w1" shows "evolves D w w2"
  using assms(1) unfolding evolves_def assms(2) .

lemma evolves_before: assumes "w_owners w1 = w_owners w" and "evolves D w1 w2" shows "evolves D w w2"
  using assms(2) unfolding evolves_def assms(1) .

lemma evolves_set_owner:
  "dget (w_owners w) robot = Some ow \<Longrightarrow> same_drive ow ow' \<Longrightarrow> evolves D w (set_owner robot ow' w)"
  by (auto simp: evolves_def set_owner_def split: option.split)

subsection \<open>Operations that keep owners\<close>

lemma owners_simps [simp]:
  "w_owners (out os w) = w_owners w" "w_owners (fst (try_send e x w)) = w_owners w"
  "w_owners (fst (send_velocity e ow v w)) = w_owners w" "w_owners (reject_audited e cid rf w) = w_owners w"
  "w_owners (finish tm e oc a w) = w_owners w" "w_owners (cancel_map e a w) = w_owners w"
  "w_owners (remember cid w) = w_owners w" "w_owners (update_state robot f w) = w_owners w"
  by (auto simp: out_def try_send_def send_velocity_def reject_audited_def finish_def cancel_map_def remember_def
      update_state_def Let_def split: option.split)

lemma owners_check_rate [simp]: "w_owners (fst (check_rate e u cmd w)) = w_owners w"
  by (simp add: check_rate_def Let_def split: prod.split)

lemma owners_take_lease [simp]: "w_owners (fst (take_lease e u client robot p w)) = w_owners w"
  by (simp add: take_lease_def)

lemma evolves_mark_uncertain [simp]: "evolves D w (mark_uncertain e a w)"
proof -
  have "same_drive ow (ow\<lparr>ow_phase := Unknown\<rparr>)" for ow by (simp add: same_drive_def drivable_def)
  then show ?thesis
    by (auto simp: mark_uncertain_def Let_def set_owner_def evolves_def split: option.split)
qed

lemma evolves_close_out [simp]: "evolves D w (close_out tm e oc a w)"
  by (simp add: close_out_def evolves_same)

text \<open>A revocation leaves an owner of its robot in a closing phase.\<close>

lemma revoke_core_owner:
  "\<exists>ph. ph \<noteq> Pending \<and> ph \<noteq> Active \<and> (\<forall>x. dget (w_owners (revoke_core e robot z w)) x
     = (if x = robot then map_option (\<lambda>ow. ow\<lparr>ow_phase := ph\<rparr>) (dget (w_owners w) x) else dget (w_owners w) x))"
proof (cases "dget (w_owners w) robot")
  case None
  then show ?thesis by (intro exI [of _ Closing]) (simp add: revoke_core_def Let_def)
next
  case (Some ow)
  define ow1 where "ow1 = (if ow_phase ow = Unknown then ow else ow\<lparr>ow_phase := Closing\<rparr>)"
  let ?w0 = "w\<lparr>w_revisions := dset (w_revisions w) robot (revision w robot + 1)\<rparr>"
  let ?z = "\<lparr>tv_command_id = ow_command_id ow1, tv_seq = ow_seq ow1 + 1, tv_linear = Fin 0,
                        tv_angular = Fin 0, tv_deadman = False\<rparr>"
  obtain w2 sent where v: "send_velocity e ow1 ?z (set_owner robot ow1 ?w0) = (w2, sent)" by fastforce
  have "w_owners (fst (send_velocity e ow1 ?z (set_owner robot ow1 ?w0))) = w_owners (set_owner robot ow1 ?w0)"
    by (rule owners_simps)
  then have w2: "w_owners w2 = dset (w_owners w) robot ow1" unfolding v by (simp add: set_owner_def)
  have r: "revoke_core e robot z w = (if ow_phase ow \<in> {Pending, Active} \<and> \<not> z
      then if sent then w2 else set_owner robot (ow1\<lparr>ow_phase := Unknown\<rparr>) w2 else set_owner robot ow1 ?w0)"
    using Some by (simp add: revoke_core_def Let_def ow1_def [symmetric] v)
  define ph where "ph = (if ow_phase ow = Unknown \<or> ow_phase ow \<in> {Pending, Active} \<and> \<not> z \<and> \<not> sent then Unknown else Closing)"
  have "ph \<noteq> Pending \<and> ph \<noteq> Active" by (simp add: ph_def)
  moreover have "ow1\<lparr>ow_phase := Unknown\<rparr> = ow\<lparr>ow_phase := Unknown\<rparr>" "ow_phase ow \<noteq> Unknown \<Longrightarrow> ow1 = ow\<lparr>ow_phase := Closing\<rparr>"
    "ow_phase ow = Unknown \<Longrightarrow> ow1 = ow\<lparr>ow_phase := Unknown\<rparr>"
    by (simp_all add: ow1_def)
  ultimately show ?thesis using Some unfolding r by (intro exI [of _ ph]) (auto simp: set_owner_def w2 ph_def)
qed

lemma evolves_revoke_core [simp]: "evolves D w (revoke_core e robot z w)"
proof -
  obtain ph where ph: "ph \<noteq> Pending" "ph \<noteq> Active" and g: "\<And>x. dget (w_owners (revoke_core e robot z w)) x
     = (if x = robot then map_option (\<lambda>ow. ow\<lparr>ow_phase := ph\<rparr>) (dget (w_owners w) x) else dget (w_owners w) x)"
    using revoke_core_owner [of e robot z w] by blast
  have p: "same_drive ow (ow\<lparr>ow_phase := ph\<rparr>)" for ow
    using ph by (simp add: same_drive_def drivable_def)
  then show ?thesis unfolding evolves_def g by (auto split: option.split)
qed

lemma evolves_stop_pending [simp]: "evolves D w (stop_pending robot cid w)"
proof (cases "dget (w_owners w) robot")
  case (Some ow)
  then show ?thesis using evolves_set_owner [OF Some] by (simp add: stop_pending_def same_drive_def drivable_def)
qed (simp add: stop_pending_def)

lemma evolves_terminal [simp]: "evolves {ac_robot a} w (terminal a w)"
proof (cases "dget (w_owners w) (ac_robot a)")
  case (Some ow)
  have "same_drive ow (ow\<lparr>ow_stop_ids := i\<rparr>)" "same_drive ow (ow\<lparr>ow_start_terminal := b, ow_phase := Closing, ow_stop_ids := i\<rparr>)" for i b
    by (simp_all add: same_drive_def drivable_def)
  then show ?thesis using Some by (auto simp: terminal_def Let_def evolves_def set_owner_def split: option.split)
qed (simp add: terminal_def)

lemma evolves_send_failed [simp]: "evolves D w (send_failed e a w)"
  using evolves_trans [OF evolves_revoke_core evolves_mark_uncertain] by (simp add: send_failed_def)

lemma evolves_register [simp]: "evolves D w (register robot cid cmd w)"
  by (auto simp: register_def Let_def intro: evolves_then [OF evolves_stop_pending] evolves_same)

lemma evolves_forward [simp]: "evolves D w (forward e i a w)"
proof -
  have "evolves D w (send_failed e a (fst (try_send e x w)))" for x
    by (rule evolves_before [OF _ evolves_send_failed]) simp
  moreover have "evolves D w (out os (fst (try_send e x w)))" for x os by (simp add: evolves_same)
  ultimately show ?thesis
    by (auto simp: forward_def Let_def split: option.split prod.split) (metis fst_conv)+
qed

subsection \<open>Requests\<close>

text \<open>A manual start adds a pending owner under its own id, and only where there is none.\<close>

definition installs :: "string \<Rightarrow> world \<Rightarrow> world \<Rightarrow> bool" where
  "installs cid w w' \<longleftrightarrow> (\<exists>r ow. dget (w_owners w) r = None \<and> w_owners w' = dset (w_owners w) r ow
     \<and> ow_command_id ow = cid \<and> ow_phase ow = Pending)"

lemma prepare_owners:
  "w_owners (fst (prepare e client sid cid w)) = w_owners w
   \<or> snd (prepare e client sid cid w) = None \<and> installs cid w (fst (prepare e client sid cid w))"
proof -
  have i: "dget (w_owners w) r = None \<Longrightarrow> ow_command_id ow = cid \<Longrightarrow> ow_phase ow = Pending
      \<Longrightarrow> installs cid w (set_owner r ow w)" for r ow
    unfolding installs_def set_owner_def by (intro exI [of _ r] exI [of _ ow]) simp
  show ?thesis by (simp add: prepare_def Let_def i split: option.split sum.split)
qed

lemma admit_rest_owners:
  "case admit_rest e u client robot p since w of
     Inl (w', _) \<Rightarrow> w_owners w' = w_owners w
   | Inr (w', _) \<Rightarrow> w_owners w' = w_owners w \<or> cr_command p = Teleop_start \<and> installs (cr_command_id p) w w'"
proof -
  let ?cmd = "cr_command p" and ?cid = "cr_command_id p"
  obtain w1 lim where 1: "check_rate e u ?cmd w = (w1, lim)" by fastforce
  obtain w2 held where 2: "take_lease e u client robot p w1 = (w2, held)" by fastforce
  have o: "w_owners w1 = w_owners w" "w_owners w2 = w_owners w"
    using owners_check_rate [of e u ?cmd w] owners_take_lease [of e u client robot p w1] 1 2 by simp_all
  have o3: "w_owners (remember ?cid w2) = w_owners w" using o by simp
  note po = prepare_owners [of e client "the (session_of (remember ?cid w2) robot)" ?cid "remember ?cid w2"]
  obtain w4 pr where 4: "prepare e client (the (session_of (remember ?cid w2) robot)) ?cid (remember ?cid w2) = (w4, pr)" by fastforce
  have i: "w_owners w4 = w_owners w \<or> pr = None \<and> installs ?cid w w4"
    using po unfolding 4 fst_conv snd_conv installs_def o3 .
  define Q where "Q x \<longleftrightarrow> (case x of Inl (w', _) \<Rightarrow> w_owners w' = w_owners w
      | Inr (w', _) \<Rightarrow> w_owners w' = w_owners w \<or> ?cmd = Teleop_start \<and> installs ?cid w w')"
    for x :: "world \<times> refusal + world \<times> nat"
  have leaves: "Q (Inl (w1, rf))" "Q (Inl (w2, rf))" "Q (Inl (remember ?cid w2, rf))" "Q (Inr (remember ?cid w2, n))" for rf n
    using o o3 by (simp_all add: Q_def)
  have "Q (if ?cmd \<noteq> Teleop_start then Inr (remember ?cid w2, n) else if c then Inl (remember ?cid w2, Canceled_in_admission)
      else case pr of None \<Rightarrow> Inr (w4, n) | Some r \<Rightarrow> Inl (w4, r))" for n c
    using i o3 by (auto simp: Q_def split: option.split)
  note all = branches [of Q] leaves this
  have "Q (admit_rest e u client robot p since w)"
    unfolding admit_rest_def Let_def 1 2 prod.case 4 by (intro all)
  then show ?thesis by (simp add: Q_def)
qed

lemma admit_owners:
  assumes rv: "\<And>b v. evolves D v (rv b v)" and "admit rv e client robot p since w = (w', r)"
  shows "evolves D w w' \<or> cr_command p = Teleop_start \<and> r \<noteq> None \<and> installs (cr_command_id p) w w'"
proof (cases "early_refusal w client robot (cr_command p)")
  case (Some x)
  then have "w' = reject_audited e (cr_command_id p) x (if x = Manual_active \<and> cr_takeover p then rv True w else w)"
    using assms(2) by (simp add: admit_def Let_def)
  then show ?thesis using evolves_then [OF rv] by (auto intro: evolves_same)
next
  case early: None
  show ?thesis
  proof (cases "cr_command p \<notin> {Stop, Motor_disable, Software_reset, Teleop_stop} \<and> cr_command p \<noteq> Teleop_start
             \<and> dget (w_owners w) robot \<noteq> None")
    case True
    then have "w' = reject_audited e (cr_command_id p) Manual_ending (rv True w)"
      using assms(2) early by (simp add: admit_def Let_def)
    then show ?thesis using evolves_then [OF rv] by auto
  next
    case other: False
    show ?thesis
    proof (cases "cl_user (w_clients w client)")
      case None
      then show ?thesis using early by (simp add: early_refusal_def)
    next
      case (Some u)
      let ?w0 = "revoked_first rv robot (cr_command p) w"
      have ev: "evolves D w ?w0" using rv by (simp add: revoked_first_def)
      have same: "cr_command p = Teleop_start \<Longrightarrow> ?w0 = w" by (simp add: revoked_first_def)
      note o = admit_rest_owners [where e = e and u = u and client = client and robot = robot and p = p and since = since and w = ?w0]
      show ?thesis
      proof (cases "admit_rest e u client robot p since ?w0")
        case (Inl x)
        then have "w_owners w' = w_owners ?w0"
          using o assms(2) early other Some by (auto simp: admit_def Let_def split: prod.splits)
        then show ?thesis using evolves_then [OF ev] by blast
      next
        case (Inr x)
        obtain w1 sid where x: "x = (w1, sid)" by fastforce
        have w': "w' = out (if ev_db e then [Audit (cr_command_id p)] else []) w1" "r \<noteq> None"
          using assms(2) early other Some Inr x by (auto simp: admit_def Let_def)
        have "w_owners w1 = w_owners ?w0 \<or> cr_command p = Teleop_start \<and> installs (cr_command_id p) ?w0 w1"
          using o by (simp add: Inr x)
        then show ?thesis
        proof
          assume "w_owners w1 = w_owners ?w0"
          then show ?thesis using evolves_then [OF ev] w' by simp
        next
          assume "cr_command p = Teleop_start \<and> installs (cr_command_id p) ?w0 w1"
          moreover have "w_owners w' = w_owners w1" using w' by simp
          ultimately show ?thesis using same w'(2) unfolding installs_def by metis
        qed
      qed
    qed
  qed
qed

lemma retire_all_owners: "w_owners (retire_all e robot w) = ddel (w_owners w) robot"
proof -
  have "w_owners (foldl (retire e robot) w as) = w_owners w" for as w
    by (induction as arbitrary: w) (simp_all add: retire_def Let_def)
  then show ?thesis by (simp add: retire_all_def)
qed

text \<open>A dispatch drops an owner only for a software reset, or its own start before publication.\<close>

lemma evolves_dispatch:
  "evolves (if cr_command (if_payload i) = Software_reset \<or> cr_command (if_payload i) = Teleop_start then {if_robot i} else {})
     w (dispatch e i w)"
proof -
  let ?robot = "if_robot i" and ?cmd = "cr_command (if_payload i)" and ?cid = "cr_command_id (if_payload i)"
  define w0 where "w0 = (if ?cmd = Software_reset then retire_all e ?robot w else w)"
  define a where "a = \<lparr>ac_command_id = ?cid, ac_command = ?cmd, ac_robot = ?robot, ac_initiator = if_client i,
               ac_acked = False, ac_uncertain = False, ac_session = if_session i,
               ac_websocket = se_websocket (w_sessions w0 (if_session i))\<rparr>"
  define w1 where "w1 = w0\<lparr>w_active := dset (w_active w0) ?cid a\<rparr>"
  have d: "dispatch e i w = (if ?cmd = Teleop_start \<and> stale_start e w1 i
      then finish False e Canceled a (out [Pub_ack ?cid False (Some Canceled_before_publication)] (terminal a w1))
      else forward e i a (register ?robot ?cid ?cmd w1))"
    unfolding dispatch_def Let_def w0_def a_def w1_def by simp
  let ?D = "if ?cmd = Software_reset \<or> ?cmd = Teleop_start then {?robot} else {}"
  have w0: "evolves ?D w w0"
    by (auto simp: w0_def evolves_def retire_all_owners split: option.split)
  have w1: "evolves ?D w w1" by (rule evolves_then [OF w0]) (simp add: w1_def)
  have t: "evolves {?robot} w1 (terminal a w1)" using evolves_terminal [of a w1] by (simp add: a_def)
  have f: "evolves ?D w1 (forward e i a (register ?robot ?cid ?cmd w1))"
    by (rule evolves_trans [OF evolves_register evolves_forward])
  show ?thesis
  proof (cases "?cmd = Teleop_start \<and> stale_start e w1 i")
    case True
    then have "evolves ?D w (terminal a w1)" using evolves_trans [OF w1] t by simp
    then show ?thesis using True evolves_then by (simp add: d)
  next
    case False
    then show ?thesis using evolves_trans [OF w1 f] by (simp only: d if_False)
  qed
qed

lemma evolves_stop_handler:
  assumes "cr_command p = Teleop_stop" shows "evolves {} w (stop_handler e client robot p w)"
proof -
  obtain w1 r where adm: "admit (\<lambda>issue. revoke_core e robot False) e client robot p (revision w robot) w = (w1, r)"
    by fastforce
  have a: "evolves {} w w1" using admit_owners [OF evolves_revoke_core adm] assms by auto
  show ?thesis
  proof (cases r)
    case None
    then show ?thesis using a adm by (simp add: stop_handler_def handle_request_def)
  next
    case (Some i)
    then have i: "if_payload i = p" using admit_some adm by fastforce
    have "evolves {} w1 (dispatch e i w1)" using evolves_dispatch [of i w1 e] assms i by simp
    with a have "evolves {} w (dispatch e i w1)" by (rule evolves_trans)
    then show ?thesis using adm Some by (simp add: stop_handler_def handle_request_def)
  qed
qed

lemma evolves_full_revoke [simp]: "evolves {} w (full_revoke e robot issue z w)"
proof (cases "dget (w_owners (revoke_core e robot z w)) robot")
  case None
  then show ?thesis by (simp add: full_revoke_def revoke_def Let_def)
next
  case (Some ow)
  let ?w1 = "revoke_core e robot z w" and ?w2 = "set_owner robot (ow\<lparr>ow_stop_issued := True\<rparr>) (revoke_core e robot z w)"
  have 2: "evolves {} ?w1 ?w2" using evolves_set_owner [OF Some] by (simp add: same_drive_def drivable_def)
  have o2: "dget (w_owners ?w2) robot = Some (ow\<lparr>ow_stop_issued := True\<rparr>)" by (simp add: set_owner_def)
  have 3: "evolves {} ?w2 (set_owner robot (ow\<lparr>ow_stop_issued := True, ow_phase := Unknown\<rparr>) ?w2)"
    using evolves_set_owner [OF o2] by (simp add: same_drive_def drivable_def)
  have 4: "evolves {} ?w2 (stop_handler e (ow_client ow) robot (stop_request e robot) ?w2)"
    by (rule evolves_stop_handler) (simp add: stop_request_def)
  show ?thesis
    using evolves_trans [OF evolves_revoke_core 2] evolves_trans [OF _ 3] evolves_trans [OF _ 4] Some
    by (simp add: full_revoke_def revoke_def Let_def)
qed

subsection \<open>The other operations\<close>

lemma evolves_foldl:
  assumes "\<And>w x. evolves D w (f w x)" shows "evolves D w (foldl f w xs)"
proof (induction xs arbitrary: w)
  case (Cons x xs)
  have "evolves D w (foldl f (f w x) xs)" by (rule evolves_trans [OF assms Cons.IH])
  then show ?case by simp
qed simp

lemma evolves_on_ack:
  "evolves (if \<not> acc \<and> manual_command (ac_command a) then {ac_robot a} else {}) w (on_ack e a acc r w)"
proof -
  let ?w0 = "w\<lparr>w_active := dset (w_active w) (ac_command_id a) (a\<lparr>ac_acked := True\<rparr>)\<rparr>"
  let ?D = "if \<not> acc \<and> manual_command (ac_command a) then {ac_robot a} else {}"
  have w0: "evolves D w ?w0" for D by (rule evolves_same) simp
  have o: "evolves D w (out os ?w0)" for D os by (rule evolves_same) simp
  have act: "evolves {} w (out os (activate e (ac_robot a) ?w0))" if c: "start_confirmed e ?w0 a" for os
  proof -
    obtain ow where ow: "dget (w_owners ?w0) (ac_robot a) = Some ow" "drivable ow"
      using c by (auto simp: start_confirmed_def drivable_def split: option.splits)
    have sd: "same_drive ow (ow\<lparr>ow_last_frame := t, ow_phase := Active\<rparr>)" for t
      using ow(2) by (simp add: same_drive_def drivable_def)
    have "evolves {} ?w0 (activate e (ac_robot a) ?w0)"
      using evolves_set_owner [OF ow(1) sd] ow(1) by (simp add: activate_def)
    then have "evolves {} w (activate e (ac_robot a) ?w0)" by (rule evolves_trans [OF w0])
    then show ?thesis by (rule evolves_then) simp
  qed
  have late: "evolves {} w (out os (full_revoke e (ac_robot a) True False ?w0))" for os
    by (rule evolves_then [OF evolves_trans [OF w0 evolves_full_revoke]]) simp
  have fin: "evolves {ac_robot a} w (finish tm e oc a (terminal a (out os ?w0)))" for tm oc os
    by (rule evolves_then [OF evolves_trans [OF o evolves_terminal]]) simp
  have fin2: "evolves {} w (finish tm e oc a (out os ?w0))" for tm oc os
    by (rule evolves_then [OF o]) simp
  show ?thesis
    using act late fin fin2 o [of "{}"] by (cases acc) (simp_all add: on_ack_def Let_def)
qed

lemma evolves_on_result:
  "evolves (if oc \<noteq> Timeout \<and> manual_command (ac_command a) then {ac_robot a} else {}) w (on_result e a oc w)"
proof -
  let ?w0 = "out [Pub_result (ac_command_id a) oc] w"
  have o: "evolves D w ?w0" for D by (rule evolves_same) simp
  have mu: "evolves {} w (mark_uncertain e a (revoke_core e (ac_robot a) False ?w0))" "evolves {} w (mark_uncertain e a ?w0)"
    using evolves_trans [OF o evolves_trans [OF evolves_revoke_core evolves_mark_uncertain]] evolves_trans [OF o evolves_mark_uncertain]
    by blast+
  have t: "evolves {ac_robot a} w (terminal a ?w0)" by (rule evolves_trans [OF o evolves_terminal])
  have fin: "evolves D w (finish False e oc a v)" if "evolves D w v" for D v
    by (rule evolves_then [OF that]) simp
  have upd: "evolves D w (v\<lparr>w_lidar_after := x, w_lidar_recovery := y\<rparr>)" if "evolves D w v" for D v x y
    by (rule evolves_then [OF that]) simp
  show ?thesis
    using mu fin [OF t] fin [OF o] fin [OF upd [OF o]]
    by (cases "manual_command (ac_command a)") (auto simp: on_result_def Let_def manual_command_def)
qed

text \<open>The replies that may end ownership: a refused or finished manual command.\<close>

definition final_reply :: "reply \<Rightarrow> bool" where
  "final_reply r = (case r of Ack _ acc _ \<Rightarrow> \<not> acc | Progress _ \<Rightarrow> False | Result _ oc \<Rightarrow> oc \<noteq> Timeout)"

lemma evolves_reply:
  "evolves (if final_reply r then {se_robot (w_sessions w sid)} else {}) w (handle_robot_command_reply e sid r w)"
proof -
  have "evolves (if final_reply r then {se_robot (w_sessions v sid)} else {}) v (handle_robot_reply e sid r v)" for v
  proof (cases "dget (w_active v) (reply_id r)")
    case None
    then show ?thesis by (simp add: handle_robot_reply_def Let_def)
  next
    case (Some a)
    show ?thesis
    proof (cases "ac_robot a = se_robot (w_sessions v sid)")
      case True
      let ?D = "if final_reply r then {se_robot (w_sessions v sid)} else {}"
      have "evolves ?D v (on_ack e a acc x v)" if "r = Ack c acc x" for c acc x
        by (rule evolves_mono [OF evolves_on_ack]) (simp add: that True final_reply_def)
      moreover have "evolves ?D v (on_result e a oc v)" if "r = Result c oc" for c oc
        by (rule evolves_mono [OF evolves_on_result]) (simp add: that True final_reply_def)
      moreover have "evolves ?D v (out os v)" for os by (simp add: evolves_same)
      ultimately have "evolves ?D v (case r of Ack _ acc x \<Rightarrow> on_ack e a acc x v
          | Progress cid \<Rightarrow> out [Pub_progress cid] v | Result _ oc \<Rightarrow> on_result e a oc v)"
        by (cases r) simp_all
      then show ?thesis by (simp add: handle_robot_reply_def Let_def Some True del: reply.case)
    qed (simp add: handle_robot_reply_def Let_def Some)
  qed
  note h = this
  let ?v = "update_state (se_robot (w_sessions w sid)) (record_heartbeat (ev_now e)) w"
  have eq: "w_sessions ?v = w_sessions w" by (simp add: update_state_def)
  have "evolves (if final_reply r then {se_robot (w_sessions w sid)} else {}) w (handle_robot_reply e sid r ?v)"
    by (rule evolves_before [OF _ h [of ?v, unfolded eq]]) simp
  then show ?thesis by (cases "session_of w (se_robot (w_sessions w sid)) = Some sid")
      (simp_all add: handle_robot_command_reply_def Let_def)
qed

lemma evolves_uncertain_revoked [simp]: "evolves {} w (mark_uncertain e a (full_revoke e robot i z w))"
  by (rule evolves_trans [OF evolves_full_revoke evolves_mark_uncertain])

lemma evolves_timeouts: "evolves {} w (ack_timeout e cid w)" "evolves {} w (result_timeout e cid w)"
  by (simp_all add: ack_timeout_def result_timeout_def split: option.split)

lemma evolves_changed [simp]: "evolves {} w (changed e sid w)"
  by (simp add: changed_def Let_def split: option.split)

lemma evolves_monitor: "evolves {} w (monitor_owner e robot w)"
  by (simp add: monitor_owner_def Let_def split: option.split)

lemma evolves_apply_connection [simp]: "evolves {} w (apply_connection e sid w)"
  unfolding apply_connection_def Let_def by (rule evolves_before [OF _ evolves_changed]) simp

lemma evolves_connected: "evolves {} w (robot_connected e robot ws w)"
  unfolding robot_connected_def Let_def
  by (rule evolves_before [OF _ evolves_trans [OF evolves_full_revoke evolves_before [OF _ evolves_apply_connection]]]) simp_all

lemma evolves_disconnected: "evolves {} w (robot_disconnected e sid ws w)"
  using evolves_trans [OF evolves_full_revoke evolves_before [OF _ evolves_apply_connection]]
  by (simp add: robot_disconnected_def Let_def)

lemma evolves_message: "evolves {} w (handle_robot_message e sid tm a w)"
  by (auto simp: handle_robot_message_def Let_def intro: evolves_before [OF _ evolves_changed] evolves_same)

lemma evolves_cancel: "evolves {} w (cancel_for_client e client w)"
proof -
  have "evolves {} w (foldl (\<lambda>w (robot, ow). if ow_client ow = client then full_revoke e robot True False w else w) w xs)" for xs
    by (rule evolves_foldl) (auto split: prod.split)
  moreover have "evolves {} w (foldl (\<lambda>w a. if ac_initiator a = client then cancel_map e a w else w) w xs)" for xs w
    by (rule evolves_foldl) (simp add: evolves_same)
  ultimately show ?thesis unfolding cancel_for_client_def Let_def by (rule evolves_trans)
qed

subsection \<open>Velocity frames\<close>

text \<open>Everything a velocity frame that may move the robot has passed.\<close>

definition drive_guarded :: "env \<Rightarrow> nat \<Rightarrow> string \<Rightarrow> rat option \<Rightarrow> teleop_velocity \<Rightarrow> manual_owner \<Rightarrow> world \<Rightarrow> bool" where
  "drive_guarded e client robot age v ow w \<longleftrightarrow>
     ow_client ow = client \<and> (\<exists>u. cl_user (w_clients w client) = Some u \<and> can_command u)
     \<and> ow_command_id ow = tv_command_id v \<and> ow_seq ow < tv_seq v \<and> bound w ow \<and> owns_lease w ow
     \<and> (\<exists>a. age = Some a \<and> - (5 / 100) \<le> a \<and> a \<le> 3 / 10)
     \<and> ow_phase ow = Active \<and> manual_gate e w robot = None \<and> policy_problem e w ow = None
     \<and> (\<forall>p. ow_policy ow = Some p \<longrightarrow> \<not> over_policy p (tv_linear v) (tv_angular v))
     \<and> int (length (filter (\<lambda>t. ev_now e - t < 1) (ow_frame_times ow))) < max 1 (ev_frames_per_s e)"

definition drives :: "emission \<Rightarrow> bool" where
  "drives x = (case x of Velocity _ v \<Rightarrow> tv_deadman v | _ \<Rightarrow> False)"

definition calm :: "emission \<Rightarrow> bool" where
  "calm x = (\<not> drives x)"

text \<open>The log grew by frames that cannot move the robot.\<close>

definition calms :: "world \<Rightarrow> world \<Rightarrow> bool" where
  "calms w w' \<longleftrightarrow> (\<exists>os. w_out w' = w_out w @ os \<and> list_all calm os)"

lemma calms_refl [simp]: "calms w w"
  by (simp add: calms_def)

lemma calms_trans: "calms w1 w2 \<Longrightarrow> calms w2 w3 \<Longrightarrow> calms w1 w3"
  by (auto simp: calms_def)

lemma calms_out: "list_all calm os \<Longrightarrow> calms w (out os w)"
  by (simp add: calms_def out_def)

lemma calms_same: "w_out w' = w_out w \<Longrightarrow> calms w w'"
  by (simp add: calms_def)

lemma calms_then: "calms w w1 \<Longrightarrow> w_out w2 = w_out w1 \<Longrightarrow> calms w w2"
  by (simp add: calms_def)

lemma calms_before: "w_out w1 = w_out w \<Longrightarrow> calms w1 w2 \<Longrightarrow> calms w w2"
  by (simp add: calms_def)

lemma calm_simps [simp]:
  "calm (To_robot ws f)" "calm (Audit c)" "calm (Cancel_map ws c)" "calm (Pub_ack c b r)" "calm (Pub_progress c)"
  "calm (Pub_result c oc)" "calm (Event s cm)" "calm (Audit_rejection c rf)" "calm (Audit_complete c oc)"
  "calm (Velocity ws v) = (\<not> tv_deadman v)"
  by (simp_all add: calm_def drives_def)

lemma calms_try_send: "calm x \<Longrightarrow> calms w (fst (try_send e x w))"
  by (simp add: try_send_def Let_def calms_def out_def)

lemma calms_send_velocity: "\<not> tv_deadman v \<Longrightarrow> calms w (fst (send_velocity e ow v w))"
  by (simp add: send_velocity_def calms_try_send split: option.split)

lemma calms_set_owner [simp]: "calms w (set_owner robot ow w)"
  by (simp add: set_owner_def calms_same)

lemma out_set_owner [simp]: "w_out (set_owner robot ow w) = w_out w"
  by (simp add: set_owner_def)

lemma calms_revoke_core [simp]: "calms w (revoke_core e robot z w)"
proof (cases "dget (w_owners w) robot")
  case None
  then show ?thesis by (simp add: revoke_core_def Let_def calms_same)
next
  case (Some ow)
  define ow1 where "ow1 = (if ow_phase ow = Unknown then ow else ow\<lparr>ow_phase := Closing\<rparr>)"
  let ?w1 = "set_owner robot ow1 (w\<lparr>w_revisions := dset (w_revisions w) robot (revision w robot + 1)\<rparr>)"
  let ?z = "\<lparr>tv_command_id = ow_command_id ow1, tv_seq = ow_seq ow1 + 1, tv_linear = Fin 0,
                        tv_angular = Fin 0, tv_deadman = False\<rparr>"
  obtain w2 sent where v: "send_velocity e ow1 ?z ?w1 = (w2, sent)" by fastforce
  have w1: "w_out ?w1 = w_out w" by simp
  have "calms ?w1 w2" using calms_send_velocity [of ?z ?w1 e ow1] v by simp
  then have w2: "calms w w2" by (rule calms_before [OF w1])
  have "revoke_core e robot z w = (if ow_phase ow \<in> {Pending, Active} \<and> \<not> z
      then if sent then w2 else set_owner robot (ow1\<lparr>ow_phase := Unknown\<rparr>) w2 else ?w1)"
    using Some by (simp add: revoke_core_def Let_def ow1_def [symmetric] v)
  then show ?thesis using w2 calms_then [OF w2] calms_same [OF w1] by simp
qed

lemma calms_stop_pending [simp]: "calms w (stop_pending robot cid w)"
  by (simp add: stop_pending_def split: option.split)

lemma calms_terminal [simp]: "calms w (terminal a w)"
  by (auto simp: terminal_def Let_def intro!: calms_same split: option.split)

lemma calms_finish [simp]: "calms w (finish tm e oc a w)"
  by (simp add: finish_def Let_def calms_def out_def)

lemma calms_mark_uncertain [simp]: "calms w (mark_uncertain e a w)"
  by (simp add: mark_uncertain_def Let_def calms_def out_def split: option.split)

lemma calms_cancel_map [simp]: "calms w (cancel_map e a w)"
  by (simp add: cancel_map_def calms_try_send split: option.split)

lemma calms_close_out [simp]: "calms w (close_out tm e oc a w)"
proof -
  have "calms w (finish tm e oc a (out [Pub_result (ac_command_id a) oc] (cancel_map e a w)))"
    by (rule calms_trans [OF calms_trans [OF calms_cancel_map calms_out] calms_finish]) simp
  then show ?thesis by (simp add: close_out_def)
qed

lemma calms_reject [simp]: "calms w (reject_audited e cid rf w)"
  by (simp add: reject_audited_def calms_def out_def)

lemma calms_send_failed [simp]: "calms w (send_failed e a w)"
  using calms_trans [OF calms_revoke_core calms_mark_uncertain] by (simp add: send_failed_def)

lemma calms_forward [simp]: "calms w (forward e i a w)"
proof -
  have t: "calms w (fst (try_send e (To_robot ws f) w))" for ws f by (simp add: calms_try_send)
  have "calms w (send_failed e a (fst (try_send e (To_robot ws f) w)))" for ws f
    by (rule calms_trans [OF t calms_send_failed])
  moreover have "calms w (out [Event Info (ac_command a)] (fst (try_send e (To_robot ws f) w)))" for ws f
    by (rule calms_trans [OF t calms_out]) simp
  ultimately show ?thesis
    by (auto simp: forward_def Let_def split: option.split prod.split) (metis fst_conv)+
qed

lemma calms_register [simp]: "calms w (register robot cid cmd w)"
  by (auto simp: register_def Let_def intro: calms_then [OF calms_stop_pending] calms_same)

lemma calms_foldl:
  assumes "\<And>w x. calms w (f w x)" shows "calms w (foldl f w xs)"
proof (induction xs arbitrary: w)
  case (Cons x xs)
  have "calms w (foldl f (f w x) xs)" by (rule calms_trans [OF assms Cons.IH])
  then show ?case by simp
qed simp

lemma calms_retire_all [simp]: "calms w (retire_all e robot w)"
proof -
  have "calms w (retire e robot w a)" for w a
    by (auto simp: retire_def Let_def intro: calms_before [OF _ calms_finish])
  then have "calms (w\<lparr>w_owners := ddel (w_owners w) robot\<rparr>) (retire_all e robot w)"
    unfolding retire_all_def by (rule calms_foldl)
  then show ?thesis by (rule calms_before [rotated]) simp
qed

lemma calms_dispatch [simp]: "calms w (dispatch e i w)"
proof -
  define w0 where "w0 = (if cr_command (if_payload i) = Software_reset then retire_all e (if_robot i) w else w)"
  have w0: "calms w w0" by (simp add: w0_def)
  have w1: "calms w (w0\<lparr>w_active := x\<rparr>)" for x by (rule calms_then [OF w0]) simp
  have stale: "calms w (finish False e Canceled a (out [Pub_ack c b r] (terminal a (w0\<lparr>w_active := x\<rparr>))))" for a c b r x
    by (rule calms_trans [OF w1 calms_trans [OF calms_terminal calms_trans [OF calms_out calms_finish]]]) simp
  have go: "calms w (forward e i a (register r c m (w0\<lparr>w_active := x\<rparr>)))" for a r c m x
    by (rule calms_trans [OF w1 calms_trans [OF calms_register calms_forward]])
  show ?thesis unfolding dispatch_def Let_def w0_def [symmetric] by (intro branches [of "calms w"] stale go)
qed

lemma calms_admit:
  assumes rv: "\<And>b v. calms v (rv b v)" shows "calms w (fst (admit rv e client robot p since w))"
proof -
  let ?w0 = "revoked_first rv robot (cr_command p) w"
  have w0: "calms w ?w0" using rv by (simp add: revoked_first_def)
  have o: "(case admit_rest e u client robot p since ?w0 of Inl r \<Rightarrow> w_out (fst r) | Inr r \<Rightarrow> w_out (fst r)) = w_out ?w0" for u
    by (rule admit_rest_out)
  have inl: "calms w (reject_audited e c r w1)" if "admit_rest e u client robot p since ?w0 = Inl (w1, r)" for u w1 r c
    using that o [of u] by (intro calms_trans [OF calms_then [OF w0] calms_reject]) simp
  have inr: "calms w (out (if ev_db e then [Audit c] else []) w1)"
    if "admit_rest e u client robot p since ?w0 = Inr (w1, sid)" for u w1 sid c
    using that o [of u] by (intro calms_trans [OF calms_then [OF w0] calms_out]) simp_all
  have rej: "calms w (reject_audited e c r (rv True w))" for c r by (rule calms_trans [OF rv calms_reject])
  define Q where "Q x \<longleftrightarrow> calms w (fst x)" for x :: "world \<times> inflight option"
  let ?i = "\<lambda>sid. Some \<lparr>if_client = client, if_robot = robot, if_payload = p, if_revision = since, if_session = sid\<rparr>"
  have main: "Q (case admit_rest e u client robot p since ?w0 of
               Inl (w1, r) \<Rightarrow> (reject_audited e (cr_command_id p) r w1, None)
             | Inr (w1, sid) \<Rightarrow> (out (if ev_db e then [Audit (cr_command_id p)] else []) w1, ?i sid))" for u
    using inl [of u] inr [of u]
    by (cases "admit_rest e u client robot p since ?w0") (simp_all add: Q_def split: prod.split split del: if_split)
  have leaves: "Q (w, None)" "Q (reject_audited e (cr_command_id p) r w, None)"
    "Q (reject_audited e (cr_command_id p) r (if c then rv True w else w), None)"
    "Q (reject_audited e (cr_command_id p) r (rv True w), None)" for r c
    using rej by (simp_all add: Q_def)
  have "Q (admit rv e client robot p since w)"
    unfolding admit_def Let_def by (intro branches(1,2) [of Q] leaves main)
  then show ?thesis by (simp add: Q_def)
qed

lemma calms_full_revoke [simp]: "calms w (full_revoke e robot i z w)"
proof -
  have h: "calms v (stop_handler e client robot p v)" for client p v
  proof -
    let ?rv = "\<lambda>issue :: bool. revoke_core e robot False"
    have "calms v (fst (admit ?rv e client robot p (revision v robot) v))" by (rule calms_admit) simp
    then show ?thesis
      using calms_trans [OF _ calms_dispatch] by (auto simp: stop_handler_def handle_request_def split: prod.split option.split)
  qed
  let ?w1 = "revoke_core e robot z w"
  have s: "calms w (set_owner robot ow ?w1)" for ow by (rule calms_trans [OF calms_revoke_core calms_set_owner])
  show ?thesis unfolding full_revoke_def revoke_def Let_def
    by (intro branches [of "calms w"] calms_revoke_core calms_trans [OF s h] calms_trans [OF s calms_set_owner])
qed

text \<open>What a velocity frame does: a guarded deadman frame is the only one that drives.\<close>

lemma velocity_drives:
  "calms w (fst (velocity e client robot age v w))
   \<or> (\<exists>ow ws. dget (w_owners w) robot = Some ow \<and> drive_guarded e client robot age v ow w \<and> tv_deadman v
        \<and> ow_websocket ow = Some ws \<and> w_out (fst (velocity e client robot age v w)) = w_out w @ [Velocity ws v]
        \<and> (\<exists>ow'. dget (w_owners (fst (velocity e client robot age v w))) robot = Some ow' \<and> ow_seq ow' = tv_seq v))"
proof (cases "dget (w_owners w) robot")
  case None
  then show ?thesis by (simp add: velocity_def)
next
  case (Some ow)
  define times where "times = dropWhile (\<lambda>t. 1 \<le> ev_now e - t) (ow_frame_times ow)"
  define ow1 where "ow1 = ow\<lparr>ow_frame_times := (if tv_deadman v then times @ [ev_now e] else ow_frame_times ow),
                           ow_seq := tv_seq v, ow_last_frame := ev_now e\<rparr>"
  obtain w1 sent where s: "send_velocity e ow1 v (set_owner robot ow1 w) = (w1, sent)" by fastforce
  let ?unfit = "ow_client ow \<noteq> client
         \<or> (case cl_user (w_clients w client) of None \<Rightarrow> True | Some u \<Rightarrow> \<not> can_command u)
         \<or> ow_command_id ow \<noteq> tv_command_id v \<or> tv_seq v \<le> ow_seq ow \<or> \<not> bound w ow \<or> \<not> owns_lease w ow"
  let ?old = "case age of None \<Rightarrow> True | Some a \<Rightarrow> \<not> (- (5 / 100) \<le> a \<and> a \<le> 3 / 10)"
  let ?full = "max 1 (ev_frames_per_s e) \<le> int (length times)"
  have eq: "velocity e client robot age v w =
     (if ?unfit then (w, False) else if ?old then (w, False)
      else if tv_deadman v \<and> ow_phase ow \<noteq> Active then (w, False)
      else if tv_deadman v \<and> drive_problem e w robot ow v \<noteq> None then (full_revoke e robot True False w, False)
      else if tv_deadman v \<and> ?full then (set_owner robot (ow\<lparr>ow_frame_times := times\<rparr>) w, False)
      else if \<not> sent then (full_revoke e robot True False w1, False)
      else if \<not> tv_deadman v then (full_revoke e robot True True w1, True) else (w1, True))"
    unfolding velocity_def Some option.case Let_def times_def [symmetric] ow1_def [symmetric] s prod.case by (rule refl)
  have o: "w_owners w1 = dset (w_owners w) robot ow1"
  proof -
    have "w_owners (fst (send_velocity e ow1 v (set_owner robot ow1 w))) = w_owners (set_owner robot ow1 w)" by (rule owners_simps)
    then show ?thesis unfolding s by (simp add: set_owner_def)
  qed
  have zero: "calms w w1" if "\<not> tv_deadman v"
    using calms_send_velocity [OF that, of "set_owner robot ow1 w" e ow1] s calms_before [OF out_set_owner] by simp
  have unsent: "w_out w1 = w_out w" if "\<not> sent"
    using s that by (auto simp: send_velocity_def try_send_def Let_def split: if_splits option.splits)
  have was_sent: "\<exists>ws. ow_websocket ow = Some ws \<and> w_out w1 = w_out w @ [Velocity ws v]" if sent
    using s that by (auto simp: send_velocity_def try_send_def Let_def out_def ow1_def split: if_splits option.splits)
  show ?thesis
  proof (cases "?unfit \<or> ?old \<or> tv_deadman v \<and> (ow_phase ow \<noteq> Active \<or> drive_problem e w robot ow v \<noteq> None \<or> ?full)")
    case True
    then show ?thesis unfolding eq by (auto simp: calms_same)
  next
    case ok: False
    show ?thesis
    proof (cases "tv_deadman v \<and> sent")
      case False
      then have "calms w w1" using zero unsent calms_same by blast
      then have "calms w (fst (velocity e client robot age v w))"
        using ok False calms_trans [OF _ calms_full_revoke] unfolding eq by auto
      then show ?thesis ..
    next
      case True
      then have r: "velocity e client robot age v w = (w1, True)" using ok unfolding eq by simp
      have f: "int (length (filter (\<lambda>t. ev_now e - t < 1) (ow_frame_times ow))) \<le> int (length times)"
      proof -
        have "length (filter P xs) \<le> length (dropWhile (\<lambda>t. \<not> P t) xs)" for P :: "rat \<Rightarrow> bool" and xs
          by (induction xs) (auto intro: le_SucI le_trans [OF length_filter_le])
        from this [of "\<lambda>t. ev_now e - t < 1" "ow_frame_times ow"] show ?thesis by (simp add: times_def not_less)
      qed
      have "drive_guarded e client robot age v ow w"
        using ok True f by (auto simp: drive_guarded_def drive_problem_def split: option.splits if_splits)
      then show ?thesis using was_sent True Some r o by (auto simp: ow1_def)
    qed
  qed
qed

text \<open>A velocity frame only moves its owner forward.\<close>

lemma evolves_velocity: "evolves {} w (fst (velocity e client robot age v w))"
proof (cases "dget (w_owners w) robot")
  case None
  then show ?thesis by (simp add: velocity_def)
next
  case (Some ow)
  define times where "times = dropWhile (\<lambda>t. 1 \<le> ev_now e - t) (ow_frame_times ow)"
  define ow1 where "ow1 = ow\<lparr>ow_frame_times := (if tv_deadman v then times @ [ev_now e] else ow_frame_times ow),
                           ow_seq := tv_seq v, ow_last_frame := ev_now e\<rparr>"
  obtain w1 sent where s: "send_velocity e ow1 v (set_owner robot ow1 w) = (w1, sent)" by fastforce
  have o: "w_owners w1 = w_owners (set_owner robot ow1 w)"
    using owners_simps(3) [of e ow1 v "set_owner robot ow1 w"] s by simp
  define Q where "Q x \<longleftrightarrow> evolves {} w (fst x)" for x :: "world \<times> bool"
  have times: "Q (set_owner robot (ow\<lparr>ow_frame_times := ts\<rparr>) w, b)" for ts b
    using evolves_set_owner [OF Some] by (simp add: Q_def same_drive_def drivable_def)
  show ?thesis
  proof (cases "tv_seq v \<le> ow_seq ow")
    case True
    then show ?thesis by (simp add: velocity_def Some)
  next
    case False
    then have "evolves {} w (set_owner robot ow1 w)"
      using evolves_set_owner [OF Some] by (simp add: same_drive_def drivable_def ow1_def)
    then have w1: "evolves {} w w1" using o by (rule evolves_then)
    have leaves: "Q (w, b)" "Q (w1, b)" "Q (full_revoke e robot i z w, b)" "Q (full_revoke e robot i z w1, b)" for b i z
      using w1 evolves_trans [OF w1 evolves_full_revoke] by (simp_all add: Q_def)
    have "Q (velocity e client robot age v w)"
      unfolding velocity_def Some option.case Let_def times_def [symmetric] ow1_def [symmetric] s prod.case
      by (intro branches(1) [of Q] leaves times)
    then show ?thesis by (simp add: Q_def)
  qed
qed

lemma calms_on_ack: "calms w (on_ack e a acc r w)"
proof -
  let ?w0 = "w\<lparr>w_active := dset (w_active w) (ac_command_id a) (a\<lparr>ac_acked := True\<rparr>)\<rparr>"
  have w0: "calms w ?w0" by (rule calms_same) simp
  have act: "calms v (activate e robot v)" for robot v by (simp add: activate_def split: option.split)
  have pub: "calms v (out [Pub_ack c b x] v)" for v c b x by (rule calms_out) simp
  have 1: "calms w (out [Pub_ack c b x] (activate e robot ?w0))" "calms w (out [Pub_ack c b x] (full_revoke e robot i z ?w0))"
    "calms w (out [Pub_ack c b x] ?w0)" for c b x robot i z
    by (rule calms_trans [OF w0 calms_trans [OF act pub]], rule calms_trans [OF w0 calms_trans [OF calms_full_revoke pub]],
        rule calms_trans [OF w0 pub])
  have 2: "calms w (finish tm e oc a v)" "calms w (finish tm e oc a (terminal a v))" if "calms w v" for v tm oc
    by (rule calms_trans [OF that calms_finish], rule calms_trans [OF that calms_trans [OF calms_terminal calms_finish]])
  show ?thesis using 1 2 by (simp add: on_ack_def Let_def)
qed

lemma calms_on_result: "calms w (on_result e a oc w)"
proof -
  let ?w0 = "out [Pub_result (ac_command_id a) oc] w"
  have o: "calms w ?w0" by (rule calms_out) simp
  have mu: "calms w (mark_uncertain e a (revoke_core e (ac_robot a) False ?w0))"
    by (rule calms_trans [OF o calms_trans [OF calms_revoke_core calms_mark_uncertain]])
  have mu2: "calms w (mark_uncertain e a v)" if "calms w v" for v by (rule calms_trans [OF that calms_mark_uncertain])
  have t: "calms w (terminal a ?w0)" by (rule calms_trans [OF o calms_terminal])
  have fin: "calms w (finish False e oc a v)" if "calms w v" for v by (rule calms_trans [OF that calms_finish])
  have upd: "calms w (v\<lparr>w_lidar_after := x, w_lidar_recovery := y\<rparr>)" if "calms w v" for v x y
    by (rule calms_then [OF that]) simp
  show ?thesis unfolding on_result_def Let_def
    by (intro branches(1) [of "calms w"] mu mu2 o t fin upd)
qed

lemma calms_reply: "calms w (handle_robot_command_reply e sid r w)"
proof -
  have h: "calms v (handle_robot_reply e sid r v)" for v
    using calms_on_ack calms_on_result
    by (auto simp: handle_robot_reply_def Let_def calms_out split: option.split reply.split)
  have "calms w (update_state robot f w)" for robot f by (rule calms_same) (simp add: update_state_def)
  from calms_trans [OF this h] show ?thesis by (simp add: handle_robot_command_reply_def Let_def)
qed

lemma calms_timeouts: "calms w (ack_timeout e cid w)" "calms w (result_timeout e cid w)"
  using calms_trans [OF calms_full_revoke calms_mark_uncertain]
  by (simp_all add: ack_timeout_def result_timeout_def split: option.split)

lemma calms_changed [simp]: "calms w (changed e sid w)"
  by (simp add: changed_def Let_def split: option.split)

lemma calms_monitor: "calms w (monitor_owner e robot w)"
  by (simp add: monitor_owner_def Let_def split: option.split)

lemma out_update_state [simp]: "w_out (update_state robot f w) = w_out w"
  by (simp add: update_state_def)

lemma calms_apply_connection [simp]: "calms w (apply_connection e sid w)"
  unfolding apply_connection_def Let_def by (rule calms_before [OF _ calms_changed]) simp

lemma calms_connected: "calms w (robot_connected e robot ws w)"
  unfolding robot_connected_def Let_def
  by (rule calms_before [OF _ calms_trans [OF calms_full_revoke calms_before [OF _ calms_apply_connection]]]) simp_all

lemma calms_disconnected: "calms w (robot_disconnected e sid ws w)"
  using calms_trans [OF calms_full_revoke calms_before [OF _ calms_apply_connection]]
  by (simp add: robot_disconnected_def Let_def)

lemma calms_message: "calms w (handle_robot_message e sid tm a w)"
  by (auto simp: handle_robot_message_def Let_def intro: calms_before [OF _ calms_changed] calms_same)

lemma calms_cancel: "calms w (cancel_for_client e client w)"
proof -
  have "calms w (foldl (\<lambda>w (robot, ow). if ow_client ow = client then full_revoke e robot True False w else w) w xs)" for xs
    by (rule calms_foldl) (auto split: prod.split)
  moreover have "calms w (foldl (\<lambda>w a. if ac_initiator a = client then cancel_map e a w else w) w xs)" for xs w
    by (rule calms_foldl) simp
  ultimately show ?thesis unfolding cancel_for_client_def Let_def by (rule calms_trans)
qed

text \<open>A step only adds frames that cannot move the robot, or one guarded velocity frame.\<close>

lemma step_drives:
  assumes "server_step e (w, q) (w', q')"
  shows "calms w w' \<or> (\<exists>ws v client robot age ow ow'. w_out w' = w_out w @ [Velocity ws v]
           \<and> dget (w_owners w) robot = Some ow \<and> drive_guarded e client robot age v ow w \<and> ow_websocket ow = Some ws
           \<and> dget (w_owners w') robot = Some ow' \<and> ow_seq ow' = tv_seq v)"
  using assms
proof cases
  case (st_request robot p client since r)
  have "calms w (fst (browser_admit e client robot p since w))"
    unfolding browser_admit_def by (rule calms_admit) simp
  then show ?thesis using st_request by simp
next
  case (st_velocity client robot age v)
  then show ?thesis using velocity_drives [of w e client robot age v] by blast
qed (use calms_reply calms_timeouts calms_monitor calms_connected calms_disconnected calms_message
    calms_cancel in \<open>simp_all add: calms_same browser_disconnected_def\<close>)


subsection \<open>How ownership ends\<close>

lemma dispatch_start:
  assumes "cr_command (if_payload i) = Teleop_start"
  shows "evolves {} w (dispatch e i w) \<or> journal (dispatch e i w) = journal w"
proof -
  let ?cid = "cr_command_id (if_payload i)"
  define a where "a = \<lparr>ac_command_id = ?cid, ac_command = Teleop_start, ac_robot = if_robot i, ac_initiator = if_client i,
               ac_acked = False, ac_uncertain = False, ac_session = if_session i,
               ac_websocket = se_websocket (w_sessions w (if_session i))\<rparr>"
  define w1 where "w1 = w\<lparr>w_active := dset (w_active w) ?cid a\<rparr>"
  have d: "dispatch e i w = (if stale_start e w1 i
      then finish False e Canceled a (out [Pub_ack ?cid False (Some Canceled_before_publication)] (terminal a w1))
      else forward e i a (register (if_robot i) ?cid Teleop_start w1))"
    unfolding dispatch_def Let_def w1_def a_def using assms by simp
  have "evolves {} w (forward e i a (register (if_robot i) ?cid Teleop_start w1))"
    by (rule evolves_before [OF _ evolves_trans [OF evolves_register evolves_forward]]) (simp add: w1_def)
  moreover have "journal w1 = journal w" by (simp add: w1_def)
  ultimately show ?thesis by (simp add: d journal_out)
qed

lemma evolvesD:
  assumes "evolves D w w'" and "dget (w_owners w) r = Some ow"
  shows "(\<exists>ow'. dget (w_owners w') r = Some ow' \<and> same_drive ow ow') \<or> dget (w_owners w') r = None \<and> r \<in> D"
  using assms(1) [unfolded evolves_def, THEN spec [of _ r]] assms(2) by (cases "dget (w_owners w') r") auto

lemma installs_keeps:
  "installs cid w w' \<Longrightarrow> dget (w_owners w) r = Some ow \<Longrightarrow> dget (w_owners w') r = Some ow"
  by (auto simp: installs_def)

text \<open>Every step evolves the owners, or a request with an unused id installs one.\<close>

lemma step_owners:
  assumes "server_step e (w, q) (w', q')"
  shows "evolves {} w w' \<or> (\<exists>p client robot since r. cr_command p = Teleop_start
           \<and> browser_admit e client robot p since w = (w', Some r) \<and> installs (cr_command_id p) w w')
         \<or> (\<exists>sid rp. w' = handle_robot_command_reply e sid rp w \<and> final_reply rp
              \<and> evolves {se_robot (w_sessions w sid)} w w')
         \<or> (\<exists>i\<in>set q. w' = dispatch e i w \<and> evolves {if_robot i} w w'
              \<and> (cr_command (if_payload i) = Software_reset
                 \<or> cr_command (if_payload i) = Teleop_start \<and> journal w' = journal w))"
  using assms
proof cases
  case (st_request robot p client since r)
  from admit_owners [OF evolves_full_revoke st_request(3) [unfolded browser_admit_def]]
  show ?thesis using st_request(3) by (cases r) blast+
next
  case (st_dispatch q1 i q2)
  show ?thesis
  proof (cases "cr_command (if_payload i) = Software_reset")
    case True
    then show ?thesis using evolves_dispatch [of i w e] st_dispatch by auto
  next
    case False
    show ?thesis
    proof (cases "cr_command (if_payload i) = Teleop_start")
      case True
      then show ?thesis using dispatch_start [OF True, of w e] evolves_dispatch [of i w e] st_dispatch by auto
    next
      case other: False
      then show ?thesis using evolves_dispatch [of i w e] False st_dispatch by simp
    qed
  qed
next
  case (st_reply sid rp)
  then show ?thesis using evolves_reply [of rp w sid e] by (cases "final_reply rp") auto
next
  case (st_velocity client robot age v)
  then show ?thesis using evolves_velocity by simp
qed (use evolves_timeouts evolves_monitor evolves_connected evolves_disconnected evolves_message evolves_cancel
     in \<open>simp_all add: evolves_same browser_disconnected_def\<close>)

text \<open>
  C7. An open manual session keeps its owner, client, socket and limits and never counts its sequence
  back, and while the server runs it ends in exactly these ways: a refusal or result other than a
  timeout from the robot, on a session of that robot; the dispatch of an admitted software reset of
  that robot; or the dispatch of its own start that was canceled before anything was sent. A
  disconnection, a timeout, a takeover or an unknown outcome never ends it.
\<close>

theorem ownership_ends_by_robot_or_reset:
  assumes "server_step e (w, q) (w', q')" and "dget (w_owners w) robot = Some ow"
  shows "(\<exists>ow'. dget (w_owners w') robot = Some ow' \<and> same_drive ow ow')
         \<or> dget (w_owners w') robot = None
           \<and> ((\<exists>sid rp. w' = handle_robot_command_reply e sid rp w \<and> final_reply rp \<and> se_robot (w_sessions w sid) = robot)
              \<or> (\<exists>i\<in>set q. w' = dispatch e i w \<and> if_robot i = robot
                   \<and> (cr_command (if_payload i) = Software_reset
                      \<or> cr_command (if_payload i) = Teleop_start \<and> sent_ids w' = sent_ids w)))"
proof -
  from step_owners [OF assms(1)] show ?thesis
  proof (elim disjE exE bexE conjE)
    assume "evolves {} w w'"
    from evolvesD [OF this assms(2)] show ?thesis by simp
  next
    fix p assume "installs (cr_command_id p) w w'"
    from installs_keeps [OF this assms(2)] show ?thesis by simp
  next
    fix sid rp
    assume r: "w' = handle_robot_command_reply e sid rp w" "final_reply rp" "evolves {se_robot (w_sessions w sid)} w w'"
    from evolvesD [OF r(3) assms(2)] r(1,2) show ?thesis by blast
  next
    fix i
    assume i: "i \<in> set q" "w' = dispatch e i w" "evolves {if_robot i} w w'" "cr_command (if_payload i) = Software_reset"
    from evolvesD [OF i(3) assms(2)] i show ?thesis by blast
  next
    fix i
    assume i: "i \<in> set q" "w' = dispatch e i w" "evolves {if_robot i} w w'" "cr_command (if_payload i) = Teleop_start"
      "journal w' = journal w"
    have "sent_ids w' = sent_ids w" by (simp add: ids_of_journal i(5))
    with evolvesD [OF i(3) assms(2)] i(1,2,4) show ?thesis by blast
  qed
qed

text \<open>Every open session carries an audited id; a start cannot reuse one.\<close>

definition owners_audited :: "world \<Rightarrow> bool" where
  "owners_audited w \<longleftrightarrow> (\<forall>r ow. dget (w_owners w) r = Some ow \<longrightarrow> ow_command_id ow \<in> set (audited_ids w))"

lemma audited_grows:
  assumes "server_step e (w, q) (w', q')" shows "set (audited_ids w) \<subseteq> set (audited_ids w')"
proof -
  have g: "set (audited_ids v) \<subseteq> set (audited_ids v')" if "w_out v' = w_out v @ os" for v v' os
    by (simp add: audited_ids_def that map_filter_append)
  have c: "set (audited_ids v) \<subseteq> set (audited_ids v')" if "calms v v'" for v v'
    using that g by (auto simp: calms_def)
  from step_drives [OF assms] g c show ?thesis by blast
qed

lemma start_id_fresh:
  assumes "browser_admit e client robot p since w = (w', Some i)" and "ev_db e"
  shows "cr_command_id p \<notin> set (audited_ids w)" and "cr_command_id p \<in> set (audited_ids w')"
proof -
  obtain w1 where w1: "advances w w1" "cr_command_id p \<notin> set (audited_ids w1)"
    "journal w' = journal w1 @ [Audit (cr_command_id p)]"
    using admit_journal [OF advances_full_revoke [OF assms(2)] assms(2) assms(1) [unfolded browser_admit_def]] by auto
  then show "cr_command_id p \<notin> set (audited_ids w)" by (auto simp: advances_def)
  show "cr_command_id p \<in> set (audited_ids w')"
    using w1(3) by (simp add: ids_of_journal map_filter_append List.map_filter_simps audited_id_def)
qed

lemma step_owner_ids:
  assumes "server_step e (w, q) (w', q')" and "ev_db e" and "dget (w_owners w') r = Some ow'"
  shows "(\<exists>ow. dget (w_owners w) r = Some ow \<and> same_drive ow ow')
         \<or> ow_command_id ow' \<in> set (audited_ids w') \<and> ow_command_id ow' \<notin> set (audited_ids w)"
proof -
  have ev: "\<exists>ow. dget (w_owners w) r = Some ow \<and> same_drive ow ow'" if "evolves D w w'" for D
    using that [unfolded evolves_def, THEN spec [of _ r]] assms(3) by (cases "dget (w_owners w) r") auto
  show ?thesis
    using step_owners [OF assms(1)]
  proof (elim disjE exE bexE conjE)
    fix p client robot since i
    assume a: "browser_admit e client robot p since w = (w', Some i)" "installs (cr_command_id p) w w'"
    then show ?thesis using start_id_fresh [OF a(1) assms(2)] assms(3)
      by (fastforce simp: installs_def split: if_splits)
  qed (use ev in blast)+
qed

lemma owners_audited_reachable: "server_reachable ev_db s \<Longrightarrow> owners_audited (fst s)"
proof (induction rule: server_reachable.induct)
  case (rc_init w)
  then show ?case by (simp add: server_initial_def owners_audited_def)
next
  case (rc_step s e s')
  obtain w q w' q' where s: "s = (w, q)" "s' = (w', q')" by fastforce
  show ?case unfolding owners_audited_def s fst_conv
  proof (intro allI impI)
    fix r ow' assume o: "dget (w_owners w') r = Some ow'"
    from step_owner_ids [OF rc_step.hyps(3) [unfolded s] rc_step.hyps(2) o]
    show "ow_command_id ow' \<in> set (audited_ids w')"
      using rc_step.IH audited_grows [OF rc_step.hyps(3) [unfolded s]]
      by (auto simp: s owners_audited_def same_drive_def)
  qed
qed

text \<open>
  With a database: once a manual session has left the phases in which it may drive, no later run
  of the server brings the session with that command id back to them, whatever requests, replies,
  reconnections and restarts of input follow. To drive again an operator needs a new start.
\<close>

theorem closed_drive_never_resumes:
  assumes "server_reachable ev_db s" and "dget (w_owners (fst s)) robot = Some ow" and "\<not> drivable ow"
    and "(\<lambda>a b. \<exists>e. ev_db e \<and> server_step e a b)\<^sup>*\<^sup>* s s'"
    and "dget (w_owners (fst s')) robot = Some ow'" and "ow_command_id ow' = ow_command_id ow"
  shows "\<not> drivable ow'"
proof -
  let ?c = "ow_command_id ow"
  have "?c \<in> set (audited_ids (fst s))"
    using owners_audited_reachable [OF assms(1)] assms(2) by (simp add: owners_audited_def)
  from assms(4) this assms(2,3)
  have "?c \<in> set (audited_ids (fst s'))
     \<and> (\<forall>ow'. dget (w_owners (fst s')) robot = Some ow' \<and> ow_command_id ow' = ?c \<longrightarrow> \<not> drivable ow')"
  proof (induction rule: rtranclp_induct)
    case base
    then show ?case by simp
  next
    case (step t t')
    obtain w q w' q' where t: "t = (w, q)" "t' = (w', q')" by fastforce
    obtain e where e: "ev_db e" "server_step e (w, q) (w', q')" using step.hyps(2) t by blast
    note IH = step.IH [OF step.prems, unfolded t fst_conv]
    have "\<not> drivable ow'" if o: "dget (w_owners w') robot = Some ow'" "ow_command_id ow' = ?c" for ow'
    proof -
      from step_owner_ids [OF e(2,1) o(1)] IH o(2)
      obtain ow0 where "dget (w_owners w) robot = Some ow0" "same_drive ow0 ow'" by auto
      then show ?thesis using IH o(2) by (auto simp: same_drive_def)
    qed
    then show ?case using IH audited_grows [OF e(2)] by (auto simp: t)
  qed
  then show ?thesis using assms(5,6) by blast
qed

subsection \<open>A concrete session\<close>

text \<open>A robot with healthy readings connects, an operator starts manual drive, the robot accepts.\<close>

definition example_before :: world where
  "example_before = example_world\<lparr>w_state := (\<lambda>_. (state_new example_settings)
     \<lparr>rb_base_state := \<lparr>sl_data = Some ready_base, sl_received = Some 100\<rparr>\<rparr>)\<rparr>"

definition example_manual :: world where
  "example_manual = handle_robot_message example_env 0 (Tm_hello [''web_teleop_v1'']) 0
     (robot_connected example_env ''r'' 7 example_before)"

definition example_start :: command_request where
  "example_start = \<lparr>cr_command_id = ''c3'', cr_command = Teleop_start, cr_seed_profile = None, cr_enabled = None,
     cr_goal = None, cr_takeover = False, cr_allow_unlocalized = False, cr_operator_authorized = False\<rparr>"

definition example_started :: "world \<times> inflight option" where
  "example_started = browser_admit example_env 0 ''r'' example_start 1 example_manual"

definition example_start_waiting :: inflight where
  "example_start_waiting = \<lparr>if_client = 0, if_robot = ''r'', if_payload = example_start, if_revision = 1, if_session = 0\<rparr>"

definition example_driving :: world where
  "example_driving = handle_robot_command_reply example_env 0 (Ack ''c3'' True None)
     (dispatch example_env example_start_waiting (fst example_started))"

definition example_velocity :: teleop_velocity where
  "example_velocity = \<lparr>tv_command_id = ''c3'', tv_seq = 0, tv_linear = Fin (1/10), tv_angular = Fin 0, tv_deadman = True\<rparr>"

definition example_released :: world where
  "example_released = fst (velocity example_env 0 ''r'' (Some (1/10))
     (example_velocity\<lparr>tv_seq := 1, tv_linear := Fin 0, tv_deadman := False\<rparr>) example_driving)"

lemma example_started_some: "snd example_started = Some example_start_waiting"
  by code_simp

lemma example_velocity_sent:
  "w_out (fst (velocity example_env 0 ''r'' (Some (1/10)) example_velocity example_driving))
   = w_out example_driving @ [Velocity 7 example_velocity]"
  by code_simp

lemma example_phases:
  "map_option (\<lambda>ow. (ow_phase ow, ow_command_id ow)) (dget (w_owners example_driving) ''r'') = Some (Active, ''c3'')"
  "map_option (\<lambda>ow. (ow_phase ow, ow_command_id ow)) (dget (w_owners example_released) ''r'') = Some (Closing, ''c3'')"
  by code_simp+


lemma example_driving_reachable: "server_reachable ev_db (example_driving, [])"
proof -
  have db: "ev_db example_env" by (simp add: example_env_def)
  have "server_initial example_before" by (simp add: server_initial_def example_before_def example_world_def)
  then have "server_reachable ev_db (robot_connected example_env ''r'' 7 example_before, [])"
    by (rule rc_step [of ev_db, OF rc_init, OF _ db st_connected])
  then have m: "server_reachable ev_db (example_manual, [])"
    unfolding example_manual_def by (rule rc_step [of ev_db, OF _ db st_message])
  have a: "browser_admit example_env 0 ''r'' example_start 1 example_manual = (fst example_started, snd example_started)"
    by (simp add: example_started_def)
  have "server_step example_env (example_manual, []) (fst example_started, [] @ waiting (snd example_started))"
    by (rule st_request [OF _ a]) (simp add: lock_free_def)
  then have "server_reachable ev_db (fst example_started, [] @ example_start_waiting # [])"
    using rc_step [OF m db] by (simp add: waiting_def example_started_some)
  then have "server_reachable ev_db (dispatch example_env example_start_waiting (fst example_started), [] @ [])"
    by (rule rc_step [of ev_db, OF _ db st_dispatch])
  then have d: "server_reachable ev_db (dispatch example_env example_start_waiting (fst example_started), [])" by simp
  show ?thesis unfolding example_driving_def by (rule rc_step [of ev_db, OF d db st_reply])
qed

text \<open>The robot accepts the start once more after the operator has let go.\<close>

definition example_late :: world where
  "example_late = handle_robot_command_reply example_env 0 (Ack ''c3'' True None) example_released"

lemma example_late_owner: "map_option ow_command_id (dget (w_owners example_late) ''r'') = Some ''c3''"
  by code_simp

theorem closed_drive_never_resumes_witness:
  "\<exists>ow'. dget (w_owners example_late) ''r'' = Some ow' \<and> ow_command_id ow' = ''c3'' \<and> \<not> drivable ow'"
proof -
  have db: "ev_db example_env" by (simp add: example_env_def)
  have step: "server_step example_env (example_driving, []) (example_released, [])"
    unfolding example_released_def by (rule st_velocity)
  have r: "server_reachable ev_db (example_released, [])" by (rule rc_step [OF example_driving_reachable db step])
  obtain ow where ow: "dget (w_owners example_released) ''r'' = Some ow" "ow_phase ow = Closing" "ow_command_id ow = ''c3''"
    using example_phases(2) by auto
  have closed: "\<not> drivable ow" using ow(2) by (simp add: drivable_def)
  have "server_step example_env (example_released, []) (example_late, [])"
    unfolding example_late_def by (rule st_reply)
  then have run: "(\<lambda>a b. \<exists>e. ev_db e \<and> server_step e a b)\<^sup>*\<^sup>* (example_released, []) (example_late, [])"
    using db by blast
  obtain ow' where ow': "dget (w_owners example_late) ''r'' = Some ow'" "ow_command_id ow' = ''c3''"
    using example_late_owner by auto
  have "\<not> drivable ow'"
    using closed_drive_never_resumes [OF r _ closed run, of "''r''" ow'] ow ow' by simp
  then show ?thesis using ow' by blast
qed

theorem ownership_ends_by_robot_or_reset_witness:
  "\<exists>ow ow'. dget (w_owners example_driving) ''r'' = Some ow \<and> dget (w_owners example_released) ''r'' = Some ow' \<and> same_drive ow ow'"
proof -
  obtain ow where ow: "dget (w_owners example_driving) ''r'' = Some ow" using example_phases(1) by auto
  have "server_step example_env (example_driving, []) (example_released, [])"
    unfolding example_released_def by (rule st_velocity)
  from ownership_ends_by_robot_or_reset [OF this ow] show ?thesis using ow example_phases(2) by auto
qed

end
