(* ===== verification/Server_Barriers.thy ===== *)
theory Server_Barriers
  imports Manual_Drive
begin

text \<open>
  The barriers a software reset and a LiDAR power command raise: which steps of the server may take
  them down, and that nothing else does.
\<close>

subsection \<open>Operations that keep the barriers\<close>

definition barriers :: "world \<Rightarrow> (string \<times> string) list \<times> (string \<times> string) list \<times> string list" where
  "barriers w = (w_reset_pending w, w_lidar_pending w, w_lidar_recovery w)"

lemma barriers_updates [simp]:
  "barriers (w_robots_update f w) = barriers w" "barriers (w_sessions_update f1 w) = barriers w"
  "barriers (w_next_session_update f2 w) = barriers w" "barriers (w_state_update f3 w) = barriers w"
  "barriers (w_clients_update f4 w) = barriers w" "barriers (w_active_update f5 w) = barriers w"
  "barriers (w_lidar_after_update f9 w) = barriers w"
  "barriers (w_seen_update f10 w) = barriers w" "barriers (w_lease_update f11 w) = barriers w"
  "barriers (w_rate_update f12 w) = barriers w" "barriers (w_owners_update f13 w) = barriers w"
  "barriers (w_revisions_update f14 w) = barriers w" "barriers (w_attempts_update f15 w) = barriers w"
  "barriers (w_out_update f16 w) = barriers w"
  by (simp_all add: barriers_def)

lemma barriers_basic [simp]:
  "barriers (out os w) = barriers w" "barriers (set_owner robot ow w) = barriers w"
  "barriers (remember cid w) = barriers w" "barriers (update_state robot g w) = barriers w"
  "barriers (fst (try_send e x w)) = barriers w" "barriers (reject_audited e cid r w) = barriers w"
  by (simp_all add: out_def set_owner_def remember_def update_state_def try_send_def reject_audited_def Let_def)

lemma barriers_send_velocity [simp]: "barriers (fst (send_velocity e ow v w)) = barriers w"
  by (simp add: send_velocity_def split: option.split)

lemma barriers_revoke_core [simp]: "barriers (revoke_core e robot z w) = barriers w"
proof (cases "dget (w_owners w) robot")
  case None
  then show ?thesis by (simp add: revoke_core_def Let_def)
next
  case (Some ow)
  define ow1 where "ow1 = (if ow_phase ow = Unknown then ow else ow\<lparr>ow_phase := Closing\<rparr>)"
  let ?w1 = "set_owner robot ow1 (w\<lparr>w_revisions := dset (w_revisions w) robot (revision w robot + 1)\<rparr>)"
  let ?z = "\<lparr>tv_command_id = ow_command_id ow1, tv_seq = ow_seq ow1 + 1, tv_linear = Fin 0,
                        tv_angular = Fin 0, tv_deadman = False\<rparr>"
  obtain w2 sent where v: "send_velocity e ow1 ?z ?w1 = (w2, sent)" by fastforce
  have "barriers w2 = barriers w" using barriers_send_velocity [of e ow1 ?z ?w1] v by simp
  moreover have "revoke_core e robot z w = (if ow_phase ow \<in> {Pending, Active} \<and> \<not> z
      then if sent then w2 else set_owner robot (ow1\<lparr>ow_phase := Unknown\<rparr>) w2 else ?w1)"
    using Some by (simp add: revoke_core_def Let_def ow1_def [symmetric] v)
  ultimately show ?thesis by simp
qed

lemma barriers_manual [simp]:
  "barriers (stop_pending robot cid w) = barriers w" "barriers (terminal a w) = barriers w"
  "barriers (activate e robot w) = barriers w" "barriers (mark_uncertain e a w) = barriers w"
  "barriers (cancel_map e a w) = barriers w" "barriers (fst (prepare e client sid cid w)) = barriers w"
  by (simp_all add: stop_pending_def terminal_def activate_def mark_uncertain_def cancel_map_def prepare_def Let_def
      split: option.split sum.split)

text \<open>\<open>_finish\<close> takes down the barrier of the command it closes, and no other.\<close>

lemma barriers_finish:
  "barriers (finish tm e oc a w) = (if dget (w_active w) (ac_command_id a) = None then barriers w
     else (if ac_command a = Software_reset then ddel (w_reset_pending w) (ac_robot a) else w_reset_pending w,
           if ac_command a = Set_lidar_power then ddel (w_lidar_pending w) (ac_robot a) else w_lidar_pending w, w_lidar_recovery w))"
  unfolding finish_def Let_def by (simp add: barriers_basic(1)) (simp add: barriers_def)

lemma barriers_finish_other [simp]:
  "ac_command a \<noteq> Software_reset \<Longrightarrow> ac_command a \<noteq> Set_lidar_power \<Longrightarrow> barriers (finish tm e oc a w) = barriers w"
  by (simp add: barriers_finish) (simp add: barriers_def)

lemma barriers_close_out [simp]:
  "ac_command a \<noteq> Software_reset \<Longrightarrow> barriers (close_out tm e oc a w) = barriers w"
  by (cases "ac_command a = Set_lidar_power") (simp_all add: close_out_def)

lemma barriers_send_failed [simp]: "barriers (send_failed e a w) = barriers w"
  by (simp add: send_failed_def)

lemma barriers_forward [simp]: "barriers (forward e i a w) = barriers w"
  by (cases "ac_websocket a") (simp_all add: forward_def Let_def case_prod_beta)

lemma barriers_admit_rest:
  "(case admit_rest e u client robot p since w of Inl r \<Rightarrow> barriers (fst r) | Inr r \<Rightarrow> barriers (fst r)) = barriers w"
proof -
  obtain w1 lim where 1: "check_rate e u (cr_command p) w = (w1, lim)" by fastforce
  obtain w2 held where 2: "take_lease e u client robot p w1 = (w2, held)" by fastforce
  have w1: "barriers w1 = barriers w" using 1 by (auto simp: check_rate_def Let_def split: prod.splits if_splits)
  have w2: "barriers w2 = barriers w" using 2 w1 by (auto simp: take_lease_def split: if_splits)
  have w3: "barriers (remember c w2) = barriers w" for c using w2 by simp
  define Q where "Q x \<longleftrightarrow> (case x of Inl r \<Rightarrow> barriers (fst r) | Inr r \<Rightarrow> barriers (fst r)) = barriers w"
    for x :: "world \<times> refusal + world \<times> nat"
  have leaves: "Q (Inl (w1, rf))" "Q (Inl (w2, rf))" "Q (Inl (remember c w2, rf))" "Q (Inr (remember c w2, n))" for rf n c
    using w1 w2 w3 by (simp_all add: Q_def)
  have prep: "Q (case prepare e client n c (remember c w2) of (w4, None) \<Rightarrow> Inr (w4, n) | (w4, Some r) \<Rightarrow> Inl (w4, r))" for n c
    using barriers_manual(6) [of e client n c "remember c w2"] w3 [of c]
    by (cases "prepare e client n c (remember c w2)") (auto simp: Q_def split: option.split)
  have "Q (admit_rest e u client robot p since w)"
    unfolding admit_rest_def Let_def 1 2 prod.case by (intro branches [of Q] leaves prep)
  then show ?thesis by (simp add: Q_def)
qed

lemma barriers_admit:
  assumes rv: "\<And>b v. barriers (rv b v) = barriers v"
  shows "barriers (fst (admit rv e client robot p since w)) = barriers w"
proof -
  let ?w0 = "revoked_first rv robot (cr_command p) w"
  have w0: "barriers ?w0 = barriers w" using rv by (simp add: revoked_first_def)
  define Q where "Q x \<longleftrightarrow> barriers (fst x) = barriers w" for x :: "world \<times> inflight option"
  let ?i = "\<lambda>sid. Some \<lparr>if_client = client, if_robot = robot, if_payload = p, if_revision = since, if_session = sid\<rparr>"
  have main: "Q (case admit_rest e u client robot p since ?w0 of
               Inl (w1, r) \<Rightarrow> (reject_audited e (cr_command_id p) r w1, None)
             | Inr (w1, sid) \<Rightarrow> (out (if ev_db e then [Audit (cr_command_id p)] else []) w1, ?i sid))" for u
    using barriers_admit_rest [of e u client robot p since ?w0] w0
    by (cases "admit_rest e u client robot p since ?w0") (simp_all add: Q_def case_prod_beta)
  have leaves: "Q (w, None)" "Q (reject_audited e (cr_command_id p) r w, None)"
    "Q (reject_audited e (cr_command_id p) r (if c then rv True w else w), None)"
    "Q (reject_audited e (cr_command_id p) r (rv True w), None)" for r c
    using rv by (simp_all add: Q_def)
  have "Q (admit rv e client robot p since w)"
    unfolding admit_def Let_def by (intro branches(1,2) [of Q] leaves main)
  then show ?thesis by (simp add: Q_def)
qed

lemma barriers_dispatch_other:
  assumes "cr_command (if_payload i) \<noteq> Software_reset" and "cr_command (if_payload i) \<noteq> Set_lidar_power"
  shows "barriers (dispatch e i w) = barriers w"
  using assms by (simp add: dispatch_def register_def Let_def)

lemma barriers_stop_handler:
  assumes "cr_command p = Teleop_stop" shows "barriers (stop_handler e client robot p w) = barriers w"
proof -
  obtain w1 r where adm: "admit (\<lambda>issue. revoke_core e robot False) e client robot p (revision w robot) w = (w1, r)"
    by fastforce
  have a: "barriers w1 = barriers w"
    using barriers_admit [of "\<lambda>issue. revoke_core e robot False" e client robot p "revision w robot" w] adm by simp
  show ?thesis
  proof (cases r)
    case None
    then show ?thesis using a adm by (simp add: stop_handler_def handle_request_def)
  next
    case (Some i)
    then have i: "if_payload i = p" using admit_some adm by fastforce
    then show ?thesis using a adm Some barriers_dispatch_other [of i e w1] assms
      by (simp add: stop_handler_def handle_request_def)
  qed
qed

lemma barriers_full_revoke [simp]: "barriers (full_revoke e robot i z w) = barriers w"
  using barriers_stop_handler [of "stop_request e robot"]
  by (simp add: full_revoke_def revoke_def Let_def stop_request_def split: option.split)

lemma barriers_close [simp]:
  "barriers (changed e sid w) = barriers w" "barriers (monitor_owner e robot w) = barriers w"
  "barriers (apply_connection e sid w) = barriers w" "barriers (robot_connected e robot ws w) = barriers w"
  "barriers (robot_disconnected e sid wsk w) = barriers w" "barriers (handle_robot_message e sid tm ag w) = barriers w"
  "barriers (ack_timeout e cid w) = barriers w" "barriers (result_timeout e cid w) = barriers w"
proof -
  show c: "barriers (changed e sid w) = barriers w" for sid w
    by (simp add: changed_def Let_def split: option.split)
  show "barriers (monitor_owner e robot w) = barriers w"
    by (simp add: monitor_owner_def Let_def c split: option.split)
  show ac: "barriers (apply_connection e sid w) = barriers w" for sid w
    by (simp add: apply_connection_def Let_def c)
  show "barriers (robot_connected e robot ws w) = barriers w" by (simp add: robot_connected_def Let_def ac)
  show "barriers (robot_disconnected e sid wsk w) = barriers w" by (simp add: robot_disconnected_def Let_def ac)
  show "barriers (handle_robot_message e sid tm ag w) = barriers w" by (simp add: handle_robot_message_def Let_def c)
  show "barriers (ack_timeout e cid w) = barriers w" "barriers (result_timeout e cid w) = barriers w"
    by (simp_all add: ack_timeout_def result_timeout_def split: option.split)
qed

lemma barriers_velocity [simp]: "barriers (fst (velocity e client robot age v w)) = barriers w"
proof (cases "dget (w_owners w) robot")
  case None
  then show ?thesis by (simp add: velocity_def)
next
  case (Some ow)
  define times where "times = dropWhile (\<lambda>t. 1 \<le> ev_now e - t) (ow_frame_times ow)"
  define ow1 where "ow1 = ow\<lparr>ow_frame_times := (if tv_deadman v then times @ [ev_now e] else ow_frame_times ow),
                           ow_seq := tv_seq v, ow_last_frame := ev_now e\<rparr>"
  obtain w1 sent where s: "send_velocity e ow1 v (set_owner robot ow1 w) = (w1, sent)" by fastforce
  have w1: "barriers w1 = barriers w" using barriers_send_velocity [of e ow1 v "set_owner robot ow1 w"] s by simp
  define Q where "Q x \<longleftrightarrow> barriers (fst x) = barriers w" for x :: "world \<times> bool"
  have leaves: "Q (w, b)" "Q (w1, b)" "Q (full_revoke e robot i z w, b)" "Q (full_revoke e robot i z w1, b)"
    "Q (set_owner robot o1 w, b)" for b i z o1
    using w1 by (simp_all add: Q_def)
  have "Q (velocity e client robot age v w)"
    unfolding velocity_def Some option.case Let_def times_def [symmetric] ow1_def [symmetric] s prod.case
    by (intro branches(1) [of Q] leaves)
  then show ?thesis by (simp add: Q_def)
qed

lemma barriers_foldl:
  assumes "\<And>w x. barriers (f w x) = barriers w" shows "barriers (foldl f w xs) = barriers w"
  by (induction xs arbitrary: w) (simp_all add: assms)

lemma barriers_cancel [simp]:
  "barriers (cancel_for_client e client w) = barriers w" "barriers (browser_disconnected client w) = barriers w"
proof -
  have "barriers (foldl (\<lambda>w (robot, ow). if ow_client ow = client then full_revoke e robot True False w else w) w xs) = barriers w" for xs w
    by (rule barriers_foldl) (simp split: prod.split)
  moreover have "barriers (foldl (\<lambda>w a. if ac_initiator a = client then cancel_map e a w else w) w xs) = barriers w" for xs w
    by (rule barriers_foldl) simp
  ultimately show "barriers (cancel_for_client e client w) = barriers w" by (simp add: cancel_for_client_def Let_def)
  show "barriers (browser_disconnected client w) = barriers w" by (simp add: browser_disconnected_def)
qed

subsection \<open>How barriers end\<close>

text \<open>The table of the barriers a command raises.\<close>

definition pending :: "command \<Rightarrow> world \<Rightarrow> (string \<times> string) list" where
  "pending c w = (if c = Software_reset then w_reset_pending w else w_lidar_pending w)"

lemma pending_barriers: "barriers w' = barriers w \<Longrightarrow> pending c w' = pending c w"
  by (simp add: barriers_def pending_def)

text \<open>A reply takes a barrier down only by closing a command of the kind that raised it.\<close>

lemma reply_barriers:
  assumes "dget (w_active w) (reply_id rp) = None \<or> \<not> final_reply rp
    \<or> (\<exists>a. dget (w_active w) (reply_id rp) = Some a \<and> (ac_robot a \<noteq> robot \<or> ac_command a \<noteq> c))"
    and c: "c = Software_reset \<or> c = Set_lidar_power"
  shows "dget (pending c (handle_robot_command_reply e sid rp w)) robot = dget (pending c w) robot"
proof -
  define keeps where "keeps v \<longleftrightarrow> dget (pending c v) robot = dget (pending c w) robot" for v :: world
  have k: "barriers v = barriers w \<Longrightarrow> keeps v" for v using pending_barriers [of v w c] by (simp add: keeps_def)
  define same where "same v \<longleftrightarrow> w_reset_pending v = w_reset_pending w \<and> w_lidar_pending v = w_lidar_pending w" for v :: world
  have sk: "barriers v = barriers w \<Longrightarrow> same v" for v by (simp add: same_def barriers_def)
  have upd: "same v \<Longrightarrow> same (v\<lparr>w_lidar_after := x, w_lidar_recovery := y\<rparr>)" for v x y by (simp add: same_def)
  have fin: "keeps (finish tm e oc a v)" if "same v" and "ac_robot a \<noteq> robot \<or> ac_command a \<noteq> c"
    for tm oc a v
  proof -
    have p: "pending c u = (if c = Software_reset then fst (barriers u) else fst (snd (barriers u)))" for u
      by (simp add: pending_def barriers_def)
    have "pending c (finish tm e oc a v) = pending c v
        \<or> pending c (finish tm e oc a v) = ddel (pending c v) (ac_robot a) \<and> ac_command a = c"
      using c unfolding p barriers_finish by (auto simp: barriers_def)
    moreover have "pending c v = pending c w" using that(1) by (simp add: same_def pending_def)
    ultimately show ?thesis using that(2) by (auto simp: keeps_def)
  qed
  let ?v = "update_state (se_robot (w_sessions w sid)) (record_heartbeat (ev_now e)) w"
  have "keeps (handle_robot_reply e sid rp ?v)"
  proof (cases "dget (w_active w) (reply_id rp)")
    case None
    then show ?thesis by (intro k) (simp add: handle_robot_reply_def Let_def update_state_def)
  next
    case (Some a)
    then have a: "dget (w_active ?v) (reply_id rp) = Some a" by (simp add: update_state_def)
    have other: "ac_robot a \<noteq> robot \<or> ac_command a \<noteq> c" if "final_reply rp"
      using assms Some that by auto
    have ack: "keeps (on_ack e a acc x ?v)" if r: "rp = Ack cid acc x" for cid acc x
    proof (cases acc)
      case True
      then show ?thesis by (intro k) (simp add: on_ack_def Let_def)
    next
      case False
      then have o: "ac_robot a \<noteq> robot \<or> ac_command a \<noteq> c"
        using other r by (simp add: final_reply_def)
      show ?thesis using False unfolding on_ack_def Let_def by (auto intro!: fin [OF _ o] sk)
    qed
    have res: "keeps (on_result e a oc ?v)" if r: "rp = Result cid oc" for cid oc
    proof (cases "oc = Timeout")
      case True
      then show ?thesis using True unfolding on_result_def Let_def
        by (cases "ac_command a") (auto intro!: k simp: manual_command_def)
    next
      case False
      then have o: "ac_robot a \<noteq> robot \<or> ac_command a \<noteq> c"
        using other r by (simp add: final_reply_def)
      show ?thesis using False unfolding on_result_def Let_def by (auto intro!: fin [OF _ o] upd intro: sk)
    qed
    have "keeps (case rp of Ack _ acc x \<Rightarrow> on_ack e a acc x ?v
          | Progress cid \<Rightarrow> out [Pub_progress cid] ?v | Result _ oc \<Rightarrow> on_result e a oc ?v)"
      using ack res by (cases rp) (auto intro: k)
    then show ?thesis by (auto simp: handle_robot_reply_def Let_def a intro: k simp del: reply.case)
  qed
  then have "keeps (handle_robot_command_reply e sid rp w)"
    by (simp add: handle_robot_command_reply_def Let_def k)
  then show ?thesis by (simp add: keeps_def)
qed

text \<open>A software reset retires the commands of its robot; a retired LiDAR power command leaves its mark.\<close>

definition retires :: "string \<Rightarrow> world \<Rightarrow> world \<Rightarrow> bool" where
  "retires robot w w' \<longleftrightarrow>
     (\<forall>r. r \<noteq> robot \<longrightarrow> dget (w_reset_pending w') r = dget (w_reset_pending w) r
                     \<and> dget (w_lidar_pending w') r = dget (w_lidar_pending w) r)
     \<and> (dget (w_lidar_pending w') robot = dget (w_lidar_pending w) robot \<or> robot \<in> set (w_lidar_recovery w'))
     \<and> set (w_lidar_recovery w) \<subseteq> set (w_lidar_recovery w')"

lemma retires_trans: "retires robot w1 w2 \<Longrightarrow> retires robot w2 w3 \<Longrightarrow> retires robot w1 w3"
  unfolding retires_def by auto

lemma retires_retire: "retires robot w (retire e robot w a)"
proof -
  have f: "barriers (finish tm e oc a v) = (if dget (w_active v) (ac_command_id a) = None then barriers v
     else (if ac_command a = Software_reset then ddel (w_reset_pending v) (ac_robot a) else w_reset_pending v,
           if ac_command a = Set_lidar_power then ddel (w_lidar_pending v) (ac_robot a) else w_lidar_pending v, w_lidar_recovery v))"
    for tm oc v by (rule barriers_finish)
  let ?v = "if ac_command a = Set_lidar_power then w\<lparr>w_lidar_recovery := List.insert robot (w_lidar_recovery w)\<rparr> else w"
  show ?thesis
  proof (cases "ac_robot a = robot")
    case True
    define w' where "w' = finish False e (if ac_uncertain a then Timeout else Canceled) a ?v"
    have b: "barriers w' = (if dget (w_active ?v) (ac_command_id a) = None then barriers ?v
     else (if ac_command a = Software_reset then ddel (w_reset_pending ?v) (ac_robot a) else w_reset_pending ?v,
           if ac_command a = Set_lidar_power then ddel (w_lidar_pending ?v) (ac_robot a) else w_lidar_pending ?v, w_lidar_recovery ?v))"
      unfolding w'_def by (rule f)
    have "retires robot w w'"
      using b True by (auto simp: retires_def barriers_def split: if_splits)
    then show ?thesis using True by (simp add: retire_def w'_def Let_def)
  qed (simp add: retire_def retires_def)
qed

lemma retires_all: "retires robot w (retire_all e robot w)"
proof -
  have "retires robot v (foldl (retire e robot) v as)" for as v
  proof (induction as arbitrary: v)
    case (Cons a as)
    show ?case using retires_trans [OF retires_retire Cons.IH] by simp
  qed (simp add: retires_def)
  moreover have "retires robot (w\<lparr>w_owners := x\<rparr>) v \<Longrightarrow> retires robot w v" for x v by (simp add: retires_def)
  ultimately show ?thesis unfolding retire_all_def by blast
qed

lemma dispatch_barriers:
  "case cr_command (if_payload i) of
     Software_reset \<Rightarrow> dget (w_reset_pending (dispatch e i w)) (if_robot i) = Some (cr_command_id (if_payload i))
       \<and> retires (if_robot i) w (dispatch e i w)
   | Set_lidar_power \<Rightarrow> w_reset_pending (dispatch e i w) = w_reset_pending w
       \<and> w_lidar_pending (dispatch e i w) = dset (w_lidar_pending w) (if_robot i) (cr_command_id (if_payload i))
   | _ \<Rightarrow> barriers (dispatch e i w) = barriers w"
proof -
  let ?cmd = "cr_command (if_payload i)" and ?cid = "cr_command_id (if_payload i)"
  have f: "barriers (forward e i a v) = barriers v" for a v by simp
  have fr: "w_reset_pending (forward e i a v) = w_reset_pending v" "w_lidar_pending (forward e i a v) = w_lidar_pending v"
    "w_lidar_recovery (forward e i a v) = w_lidar_recovery v" for a v
    using f [of a v] by (simp_all add: barriers_def)
  have lid: "w_reset_pending (dispatch e i w) = w_reset_pending w"
    "w_lidar_pending (dispatch e i w) = dset (w_lidar_pending w) (if_robot i) ?cid" if "?cmd = Set_lidar_power"
    using that by (simp_all add: dispatch_def Let_def fr register_def)
  have res: "dget (w_reset_pending (dispatch e i w)) (if_robot i) = Some ?cid \<and> retires (if_robot i) w (dispatch e i w)"
    if "?cmd = Software_reset"
    using that retires_all [of "if_robot i" w e]
    by (auto simp: dispatch_def Let_def fr register_def retires_def)
  show ?thesis
    using lid res barriers_dispatch_other [of i e w] by (cases ?cmd) simp_all
qed

text \<open>
  While a software reset of a robot is pending the barrier it raised stands: in one step of the
  server it is only replaced by the barrier of another admitted reset of that robot, or taken down by
  the robot itself, whose reply refuses or finishes an active software reset of that robot. A LiDAR
  power barrier likewise stands until a reply refuses or finishes a LiDAR power command of the robot, or
  an admitted software reset retires the power command and leaves the robot marked for recovery.
  No timeout, disconnection, operator or takeover takes either down.
\<close>

theorem barriers_end_by_robot:
  assumes "server_step e (w, q) (w', q')"
  shows "(dget (w_reset_pending w) robot \<noteq> None \<longrightarrow>
            dget (w_reset_pending w') robot = dget (w_reset_pending w) robot
            \<or> (\<exists>i\<in>set q. w' = dispatch e i w \<and> if_robot i = robot \<and> cr_command (if_payload i) = Software_reset
                 \<and> dget (w_reset_pending w') robot = Some (cr_command_id (if_payload i)))
            \<or> (\<exists>sid rp a. w' = handle_robot_command_reply e sid rp w \<and> final_reply rp
                 \<and> dget (w_active w) (reply_id rp) = Some a \<and> ac_robot a = robot
                 \<and> ac_command a = Software_reset))
       \<and> (dget (w_lidar_pending w) robot \<noteq> None \<longrightarrow>
            dget (w_lidar_pending w') robot = dget (w_lidar_pending w) robot
            \<or> (\<exists>i\<in>set q. w' = dispatch e i w \<and> if_robot i = robot
                 \<and> (cr_command (if_payload i) = Software_reset \<and> robot \<in> set (w_lidar_recovery w')
                    \<or> cr_command (if_payload i) = Set_lidar_power
                      \<and> dget (w_lidar_pending w') robot = Some (cr_command_id (if_payload i))))
            \<or> (\<exists>sid rp a. w' = handle_robot_command_reply e sid rp w \<and> final_reply rp
                 \<and> dget (w_active w) (reply_id rp) = Some a \<and> ac_robot a = robot
                 \<and> ac_command a = Set_lidar_power))"
proof -
  have same: ?thesis if b: "barriers w' = barriers w"
    using b by (simp add: barriers_def)
  show ?thesis using assms
  proof cases
    case (st_request robot' p client since r)
    have "barriers (fst (browser_admit e client robot' p since w)) = barriers w"
      unfolding browser_admit_def by (rule barriers_admit) simp
    then show ?thesis using st_request same by simp
  next
    case (st_dispatch q1 i q2)
    have iq: "i \<in> set q" "w' = dispatch e i w" using st_dispatch by auto
    note d = dispatch_barriers [where i = i and e = e and w = w]
    consider "cr_command (if_payload i) = Software_reset" | "cr_command (if_payload i) = Set_lidar_power"
      | "barriers (dispatch e i w) = barriers w"
      using d by (cases "cr_command (if_payload i)") simp_all
    then show ?thesis
    proof cases
      case 1
      then have "dget (w_reset_pending w') (if_robot i) = Some (cr_command_id (if_payload i))" "retires (if_robot i) w w'"
        using d iq by simp_all
      then show ?thesis using iq 1 unfolding retires_def by (cases "robot = if_robot i") blast+
    next
      case 2
      then have "w_reset_pending w' = w_reset_pending w"
        "w_lidar_pending w' = dset (w_lidar_pending w) (if_robot i) (cr_command_id (if_payload i))"
        using d iq by simp_all
      then show ?thesis using iq 2 by auto
    next
      case 3
      then show ?thesis using iq same by simp
    qed
  next
    case (st_reply sid rp)
    have r: "dget (pending c w') robot = dget (pending c w) robot \<or> final_reply rp
        \<and> (\<exists>a. dget (w_active w) (reply_id rp) = Some a \<and> ac_robot a = robot \<and> ac_command a = c)"
      if "c = Software_reset \<or> c = Set_lidar_power" for c
      using reply_barriers [of w rp robot c e sid] that st_reply
      by (cases "dget (w_active w) (reply_id rp)") auto
    show ?thesis using r [of Software_reset] r [of Set_lidar_power] st_reply unfolding pending_def by auto
  qed (use same in simp_all)
qed

subsection \<open>A concrete reset\<close>

definition example_resettable :: world where
  "example_resettable = handle_robot_message example_env 0 (Tm_hello [''software_reset'']) 0 example_connected"

definition example_reset :: command_request where
  "example_reset = \<lparr>cr_command_id = ''c4'', cr_command = Software_reset, cr_seed_profile = None, cr_enabled = None,
     cr_goal = None, cr_takeover = False, cr_allow_unlocalized = False, cr_operator_authorized = False\<rparr>"

definition example_resetting :: world where
  "example_resetting = (case browser_admit example_env 0 ''r'' example_reset 1 example_resettable of
     (w, None) \<Rightarrow> w | (w, Some i) \<Rightarrow> dispatch example_env i w)"

lemma example_reset_pending: "dget (w_reset_pending example_resetting) ''r'' = Some ''c4''"
  by code_simp

theorem barriers_end_by_robot_witness:
  "dget (w_reset_pending example_resetting) ''r'' = Some ''c4''
   \<and> dget (w_reset_pending (result_timeout example_env ''c4'' example_resetting)) ''r'' = Some ''c4''
   \<and> (dget (w_lidar_pending example_resetting) ''r'' = None)"
proof -
  have step: "server_step example_env (example_resetting, []) (result_timeout example_env ''c4'' example_resetting, [])"
    by (rule st_result_timeout)
  have kept: "dget (w_reset_pending (result_timeout example_env ''c4'' example_resetting)) ''r''
      = dget (w_reset_pending example_resetting) ''r''
      \<or> (\<exists>sid rp a. result_timeout example_env ''c4'' example_resetting = handle_robot_command_reply example_env sid rp example_resetting
           \<and> final_reply rp \<and> dget (w_active example_resetting) (reply_id rp) = Some a \<and> ac_robot a = ''r'' \<and> ac_command a = Software_reset)"
    using barriers_end_by_robot [OF step, of "''r''"] example_reset_pending by auto
  have "dget (w_reset_pending (result_timeout example_env ''c4'' example_resetting)) ''r'' = Some ''c4''"
    "dget (w_lidar_pending example_resetting) ''r'' = None"
    by code_simp+
  then show ?thesis using kept example_reset_pending by simp
qed

end
