(* ===== verification/Server_Replies.thy ===== *)
theory Server_Replies
  imports Server_Barriers
begin

text \<open>
  No request is left without an answer: admission ends in an audited refusal that is broadcast, or
  hands the request to dispatch, which refuses it, closes it, or leaves it on the active table,
  where a timeout closes it.
\<close>

subsection \<open>The active table\<close>

lemma active_basic [simp]:
  "w_active (out os w) = w_active w" "w_active (set_owner robot ow w) = w_active w"
  "w_active (fst (try_send e x w)) = w_active w" "w_active (stop_pending robot cid w) = w_active w"
  "w_active (terminal a w) = w_active w" "w_active (cancel_map e a w) = w_active w"
  by (simp_all add: out_def set_owner_def try_send_def stop_pending_def terminal_def cancel_map_def Let_def split: option.split)

lemma active_send_velocity [simp]: "w_active (fst (send_velocity e ow v w)) = w_active w"
  by (simp add: send_velocity_def split: option.split)

lemma active_revoke_core [simp]: "w_active (revoke_core e robot z w) = w_active w"
  using active_send_velocity by (simp add: revoke_core_def Let_def case_prod_beta split: option.split)

lemma active_register [simp]: "w_active (register robot cid cmd w) = w_active w"
  by (simp add: register_def Let_def)

lemma active_mark_uncertain [simp]:
  "dget (w_active (mark_uncertain e a w)) cid = None \<longleftrightarrow> dget (w_active w) cid = None"
  by (auto simp: mark_uncertain_def Let_def split: option.split)

text \<open>Logs only grow.\<close>

definition grows :: "world \<Rightarrow> world \<Rightarrow> bool" where
  "grows w w' \<longleftrightarrow> (\<exists>os. w_out w' = w_out w @ os)"

lemma calms_grows: "calms w w' \<Longrightarrow> grows w w'"
  by (auto simp: calms_def grows_def)

lemma grows_mem: "grows w w' \<Longrightarrow> x \<in> set (w_out w) \<Longrightarrow> x \<in> set (w_out w')"
  by (auto simp: grows_def)

text \<open>What a request has become: refused, closed with a result, or still active.\<close>

definition answered :: "string \<Rightarrow> world \<Rightarrow> bool" where
  "answered cid w \<longleftrightarrow> (\<exists>rf. Pub_ack cid False (Some rf) \<in> set (w_out w)) \<or> (\<exists>oc. Pub_result cid oc \<in> set (w_out w))
     \<or> dget (w_active w) cid \<noteq> None"

lemma answered_active: "dget (w_active w) cid \<noteq> None \<Longrightarrow> answered cid w"
  by (simp add: answered_def)

lemma send_failed_answered:
  assumes "dget (w_active w) (ac_command_id a) \<noteq> None" shows "answered (ac_command_id a) (send_failed e a w)"
proof (cases "manual_command (ac_command a) \<or> ac_command a = Set_lidar_power \<or> ac_command a = Software_reset")
  case True
  have m: "answered (ac_command_id a) (mark_uncertain e a v)" if "w_active v = w_active w" for v
    using assms that by (intro answered_active) (simp only: active_mark_uncertain not_False_eq_True simp_thms)
  from True show ?thesis using m [of w] m [of "revoke_core e (ac_robot a) False w"] by (auto simp: send_failed_def)
next
  case False
  let ?w1 = "out [Pub_result (ac_command_id a) Failed] (cancel_map e a w)"
  have "Pub_result (ac_command_id a) Failed \<in> set (w_out ?w1)" by (simp add: out_def)
  from grows_mem [OF calms_grows [OF calms_finish] this]
  have "Pub_result (ac_command_id a) Failed \<in> set (w_out (finish False e Failed a ?w1))" .
  then show ?thesis using False assms by (auto simp: send_failed_def close_out_def answered_def)
qed

lemma forward_answered:
  assumes "dget (w_active w) (ac_command_id a) \<noteq> None" shows "answered (ac_command_id a) (forward e i a w)"
proof -
  have f: "answered (ac_command_id a) (send_failed e a v)" if "w_active v = w_active w" for v
    using send_failed_answered assms that by simp
  have o: "answered (ac_command_id a) (out os v)" if "w_active v = w_active w" for v os
    using assms that by (simp add: answered_def)
  show ?thesis
    using f [of w] f [of "fst (try_send e x w)" for x] o [of "fst (try_send e x w)" for x]
    by (cases "ac_websocket a") (simp_all add: forward_def Let_def case_prod_beta)
qed

lemma dispatch_answered: "answered (cr_command_id (if_payload i)) (dispatch e i w)"
proof -
  let ?cid = "cr_command_id (if_payload i)"
  have stale: "answered ?cid (finish False e Canceled a (out [Pub_ack ?cid False (Some Canceled_before_publication)] v))" for a v
  proof -
    have "Pub_ack ?cid False (Some Canceled_before_publication) \<in> set (w_out (out [Pub_ack ?cid False (Some Canceled_before_publication)] v))"
      by (simp add: out_def)
    from grows_mem [OF calms_grows [OF calms_finish] this] show ?thesis unfolding answered_def by blast
  qed
  have go: "answered ?cid (forward e i a (register r c m (v\<lparr>w_active := dset (w_active v) ?cid a\<rparr>)))"
    if "ac_command_id a = ?cid" for a r c m v
    using forward_answered [of "register r c m (v\<lparr>w_active := dset (w_active v) ?cid a\<rparr>)" a e i] that by simp
  show ?thesis unfolding dispatch_def Let_def by (intro branches(1) [of "answered ?cid"] stale go) simp
qed

text \<open>A refusal is audited and broadcast, last of all.\<close>

definition refused :: "env \<Rightarrow> string \<Rightarrow> world \<Rightarrow> bool" where
  "refused e cid w \<longleftrightarrow> (\<exists>os rf. w_out w = os @ (if ev_db e then [Audit_rejection cid rf] else []) @ [Pub_ack cid False (Some rf)])"

lemma reject_refused: "refused e cid (reject_audited e cid rf w)"
  by (auto simp: refused_def reject_audited_def out_def)

lemma admit_none:
  assumes "admit rv e client robot p since w = (w', None)" shows "refused e (cr_command_id p) w'"
proof (cases "early_refusal w client robot (cr_command p)")
  case (Some x)
  then show ?thesis using assms reject_refused by (auto simp: admit_def Let_def)
next
  case None
  then obtain u where u: "cl_user (w_clients w client) = Some u"
    by (auto simp: early_refusal_def split: option.splits if_splits)
  then show ?thesis
    using assms None reject_refused
    by (cases "admit_rest e u client robot p since (revoked_first rv robot (cr_command p) w)")
      (auto simp: admit_def Let_def split: if_splits prod.splits)
qed

text \<open>
  C8. Fail closed: whatever the payload and the state, a request either is refused, and then the last
  things the server does are the audit row of the rejection, when there is a database, and the
  broadcast of a negative acknowledgement with its reason; or it is admitted and handed over to
  dispatch, and from then on, in whatever state that finds the server, the request has been refused,
  has a result, or is on the active table until a result or a timeout closes it.
\<close>

theorem every_request_is_answered:
  "case browser_admit e client robot p since w of
     (w', None) \<Rightarrow> refused e (cr_command_id p) w'
   | (w', Some i) \<Rightarrow> if_payload i = p \<and> (\<forall>v. answered (cr_command_id p) (dispatch e i v))"
proof (cases "browser_admit e client robot p since w")
  case (Pair w' r)
  show ?thesis
  proof (cases r)
    case None
    then show ?thesis using Pair admit_none by (simp add: browser_admit_def)
  next
    case (Some i)
    then have "if_payload i = p" using admit_some Pair unfolding browser_admit_def by fastforce
    then show ?thesis using Pair Some dispatch_answered [of i e] by auto
  qed
qed

end
