(* ===== verification/Bridge_Commands.thy ===== *)
theory Bridge_Commands
  imports Bridge_Normalizers
begin

text \<open>
  The pure part of the robot's command executor
  (\<open>patrolbot_web_bridge/commands.py\<close>): the readings of ROS replies, the readiness of the
  localization epoch and the local barrier \<open>precheck\<close>, which repeats the server's gates for a
  frame that reaches the robot without having passed them.

  The drive-base payload is the record the normalizer builds, with the fields the node adds before
  it hands the payload to the executor. Its fields are always present and typed, so the defaults of
  \<open>.get\<close> and the guarded conversions of the source have no case here. Sentences are constructors.
\<close>

subsection \<open>Drive-base payload of the node\<close>

record node_base =
  nb_payload :: bridge_base
  nb_raw_odom_age_s :: "pyfloat option"
  nb_map_id :: "string option"
  nb_map_revision :: "string option"
  nb_map_activated_stamp_ns :: int

definition bridge_MAX_TELEMETRY_AGE_S :: rat where "bridge_MAX_TELEMETRY_AGE_S = 2"
definition bridge_MAX_RECEIPT_AGE_S :: rat where "bridge_MAX_RECEIPT_AGE_S = 3"
definition MAX_ODOM_AGE_S :: rat where "MAX_ODOM_AGE_S = 3"

definition bridge_CHARGING_STATES :: "string list" where
  "bridge_CHARGING_STATES = [''charging'', ''charge'', ''bulk'', ''float'', ''overcharge'']"

definition bridge_ON_DOCK_STATES :: "string list" where
  "bridge_ON_DOCK_STATES = bridge_CHARGING_STATES @ [''docked'', ''dock'', ''on_dock'']"

lemmas bridge_gate_constants = bridge_MAX_TELEMETRY_AGE_S_def bridge_MAX_RECEIPT_AGE_S_def
  MAX_ODOM_AGE_S_def

subsection \<open>Sentences\<close>

text \<open>
  The reasons and details the executor sends back, one constructor per sentence, grouped by the part
  of the executor that says it.
\<close>

datatype gate_sentence =
    X_needs_destination | X_lidar_not_fresh | X_base_fault int | X_observer_invalid
  | X_profile_uncommissioned | X_already_undocking | X_not_charging | X_estop | X_bumpers_unknown
  | X_rear_bumper | X_base_silent | X_readings_stale | X_base_invalid | X_on_charger | X_motors_off
  | X_epoch_invalid | X_recovering string | X_no_seed | X_position_silent | X_not_localized

datatype dispatch_sentence =
    D_invalid_seed_profile | D_motor_unauthorized | D_recovery_unauthorized | D_wait_terminal
  | D_lidar_pending | D_lidar_recovery | D_lidar_settling | D_map_identity | D_map_differs
  | D_map_owns | D_map_cancel_requested | D_unknown_command

datatype nav_sentence =
    N_undock_running | N_navigation_down | N_refused | N_declined | N_motor_disable
  | N_newer_destination | N_context_changed | N_replaced | N_waiting_to_stop | N_cancel_unconfirmed
  | N_arrived | N_canceled | N_unreachable "int option" string | N_ended_abnormally

datatype stop_sentence =
    S_stopped | S_reached_first | S_goal_ended_abnormally | S_goal_replaced
  | S_not_navigating | S_could_not_ask | S_unanswered | S_already_stopped | S_refused
  | S_undock_not_accepted

datatype undock_sentence =
    U_uncommissioned | U_unauthorized | U_docking_down | U_already_undocking | U_driving
  | U_not_sent | U_acceptance_unknown | U_declined | U_text int string bool | U_inconsistent
  | U_result_unknown | U_docking_silent | U_late | U_stop_failed

datatype service_sentence =
    V_missing | V_down | V_movement_unfinished | V_silent | V_text int string | V_mismatch
  | V_motors_still_on | V_lidar_unauthorized | V_lidar_unavailable | V_stop_first | V_lidar_down
  | V_lidar_unknown | V_lidar_timed_out | V_message string

datatype map_sentence = M_refused | M_preconditions | M_failed | M_message string

datatype sentence = Gate gate_sentence | Dispatch dispatch_sentence | Nav nav_sentence
  | Halt stop_sentence | Undocking undock_sentence | Service service_sentence | Localizing map_sentence

subsection \<open>Reading ROS replies\<close>

text \<open>A \<open>CancelGoal\<close> reply: whether any goal is canceling, and the return code.\<close>

record cancel_reply =
  cl_goals_canceling :: bool
  cl_return_code :: "int option"

datatype verdict = Canceling | Finished | Refused

definition CANCEL_REJECTED :: int where "CANCEL_REJECTED = 1"
definition CANCEL_GOAL_TERMINATED :: int where "CANCEL_GOAL_TERMINATED = 3"

definition cancel_verdict :: "cancel_reply \<Rightarrow> verdict" where
  "cancel_verdict r =
     (if cl_goals_canceling r then Canceling
      else if default CANCEL_REJECTED (cl_return_code r) = CANCEL_GOAL_TERMINATED then Finished
      else Refused)"

definition STATUS_SUCCEEDED :: int where "STATUS_SUCCEEDED = 4"
definition STATUS_CANCELED :: int where "STATUS_CANCELED = 5"
definition STATUS_ABORTED :: int where "STATUS_ABORTED = 6"

lemmas status_codes = STATUS_SUCCEEDED_def STATUS_CANCELED_def STATUS_ABORTED_def

definition map_goal_status :: "int \<Rightarrow> command_outcome" where
  "map_goal_status status =
     (if status = STATUS_SUCCEEDED then Succeeded
      else if status = STATUS_CANCELED then Canceled
      else Failed)"

definition stop_result :: "command_outcome \<Rightarrow> command_outcome \<times> sentence" where
  "stop_result outcome =
     (if outcome = Canceled then (Succeeded, Halt S_stopped)
      else if outcome = Succeeded then (Succeeded, Halt S_reached_first)
      else (Failed, Halt S_goal_ended_abnormally))"

definition undock_outcome :: "bool \<Rightarrow> int \<Rightarrow> command_outcome" where
  "undock_outcome success code =
     (if success \<and> code = 0 then Succeeded
      else if code = 9 then Canceled
      else if code = 10 then Timeout
      else Failed)"

subsection \<open>Readiness of the localization epoch\<close>

definition bridge_on_dock :: "bridge_base \<Rightarrow> bool" where
  "bridge_on_dock b =
     (if bb_dock_state_valid b then py_upper (py_strip (bb_dock_state b)) = ''DOCKED_CONFIRMED''
      else py_lower (py_strip (bb_charge_state b)) \<in> set bridge_ON_DOCK_STATES)"

definition localization_epoch_ready :: "node_base option \<Rightarrow> int \<Rightarrow> rat option \<Rightarrow> bool" where
  "localization_epoch_ready base amcl_stamp_ns receipt_age =
     (case (base, receipt_age) of
        (Some n, Some receipt) \<Rightarrow> let b = nb_payload n in
          bb_link_connected b
          \<and> pf_le (Fin 0) (bb_telemetry_age b) \<and> pf_le (bb_telemetry_age b) (Fin bridge_MAX_TELEMETRY_AGE_S)
          \<and> 0 \<le> receipt \<and> receipt \<le> bridge_MAX_RECEIPT_AGE_S
          \<and> bb_odom_epoch_valid b \<and> \<not> bb_localization_recovery_required b
          \<and> 0 < bb_localization_seed_stamp_ns b
          \<and> bb_localization_seed_stamp_ns b < amcl_stamp_ns
      | _ \<Rightarrow> False)"

subsection \<open>The local barrier\<close>

text \<open>
  \<open>scans_fresh\<close> is the negated test in front of the four motion commands: link and hardware
  readings valid, LiDAR ready, and both ages at most half a second with the receipt age added. A
  missing receipt time counts as -1.
\<close>

definition scans_fresh :: "node_base option \<Rightarrow> rat option \<Rightarrow> bool" where
  "scans_fresh base receipt_age =
     (case base of None \<Rightarrow> False | Some n \<Rightarrow>
        let b = nb_payload n; receipt = default (-1) receipt_age; age = bb_lidar_scan_age b; hardware_age = bb_telemetry_age b
        in bb_link_connected b \<and> bb_hardware_state_valid b
           \<and> is_finite hardware_age \<and> \<not> pf_lt hardware_age (Fin 0)
           \<and> \<not> pf_lt (Fin (1/2)) (pf_add hardware_age (Fin receipt))
           \<and> bb_lidar_state b = ''READY'' \<and> is_finite age
           \<and> \<not> pf_lt age (Fin 0) \<and> 0 \<le> receipt
           \<and> \<not> pf_lt (Fin (1/2)) (pf_add age (Fin receipt)))"

definition departed :: "bridge_base \<Rightarrow> bool" where
  "departed b = (bb_dock_state_valid b
     \<and> py_upper (py_strip (bb_dock_state b)) \<in> {''CLEAR_CONFIRMED'', ''DEPARTING''})"

definition precheck_undock :: "bridge_base \<Rightarrow> gate_sentence option" where
  "precheck_undock b =
     (if bb_fault_flags b \<noteq> 0 then Some (X_base_fault (bb_fault_flags b))
      else if \<not> bb_dock_state_valid b then Some X_observer_invalid
      else if \<not> bb_undock_profile_commissioned b then Some X_profile_uncommissioned
      else if bb_undock_active b then Some X_already_undocking
      else if departed b \<or> py_lower (py_strip (bb_charge_state b)) \<notin> set bridge_CHARGING_STATES
      then Some X_not_charging
      else if bb_estop_pressed b then Some X_estop
      else if bb_bumpers_valid b \<noteq> Some True then Some X_bumpers_unknown
      else if bb_bumpers_rear b then Some X_rear_bumper
      else None)"

definition precheck_navigate ::
  "node_base option \<Rightarrow> bool \<Rightarrow> rat option \<Rightarrow> bool \<Rightarrow> rat option \<Rightarrow> bool \<Rightarrow> gate_sentence option" where
  "precheck_navigate base has_fix receipt_age allow odom_age authorized =
     (case base of None \<Rightarrow> Some X_base_silent | Some n \<Rightarrow> let b = nb_payload n in
      if \<not> bb_link_connected b
         \<or> \<not> (pf_le (Fin 0) (bb_telemetry_age b) \<and> pf_le (bb_telemetry_age b) (Fin bridge_MAX_TELEMETRY_AGE_S))
         \<or> (case receipt_age of None \<Rightarrow> True | Some r \<Rightarrow> bridge_MAX_RECEIPT_AGE_S < r)
      then Some X_readings_stale
      else if \<not> bb_hardware_state_valid b then Some X_base_invalid
      else if bb_fault_flags b \<noteq> 0 then Some (X_base_fault (bb_fault_flags b))
      else if bb_estop_pressed b then Some X_estop
      else if bridge_on_dock b then Some X_on_charger
      else if \<not> bb_motors_enabled b then Some X_motors_off
      else if \<not> bb_odom_epoch_valid b then Some X_epoch_invalid
      else if bb_localization_recovery_required b
      then Some (X_recovering (py_strip (bb_localization_recovery_stage b)))
      else if bb_localization_seed_stamp_ns b \<le> 0 then Some X_no_seed
      else let override = allow \<and> authorized in
           if override \<and> (case odom_age of None \<Rightarrow> True | Some a \<Rightarrow> MAX_ODOM_AGE_S < a)
           then Some X_position_silent
           else if \<not> has_fix \<and> \<not> override then Some X_not_localized
           else None)"

text \<open>
  For \<open>undock\<close> without a payload the source would fail on the missing dictionary, but the
  freshness test in front has refused it already.
\<close>

definition precheck ::
  "string \<Rightarrow> bool \<Rightarrow> node_base option \<Rightarrow> bool \<Rightarrow> rat option \<Rightarrow> bool \<Rightarrow> rat option \<Rightarrow> bool \<Rightarrow> gate_sentence option" where
  "precheck command has_goal base has_fix receipt_age allow odom_age authorized =
     (if command \<in> {''navigate_to_pose'', ''set_initial_pose''} \<and> \<not> has_goal then Some X_needs_destination
      else if command \<in> {''navigate_to_pose'', ''set_initial_pose'', ''undock'', ''charge_release''}
              \<and> \<not> scans_fresh base receipt_age then Some X_lidar_not_fresh
      else if command = ''undock'' then (case base of None \<Rightarrow> None | Some n \<Rightarrow> precheck_undock (nb_payload n))
      else if command = ''navigate_to_pose''
      then precheck_navigate base has_fix receipt_age allow odom_age authorized
      else None)"

subsection \<open>A robot on its dock\<close>

text \<open>An instance for the examples of the executor theories: charging, fault free, with fresh readings.\<close>

definition example_docked :: node_base where
  "example_docked = \<lparr>nb_payload = \<lparr>bb_lidar_state = ''READY'', bb_lidar_power_supported = True,
      bb_lidar_scan_age = Fin (1/10), bb_session_generation = 4, bb_link_connected = True,
      bb_telemetry_age = Fin (1/10), bb_hardware_state_valid = True, bb_charge_state = ''bulk'',
      bb_motors_enabled = True, bb_estop_pressed = False, bb_fault_flags = 0, bb_stall_value = 0,
      bb_bumpers_valid = Some True, bb_bumpers_front = False, bb_bumpers_rear = False,
      bb_dock_state = ''DOCKED_CONFIRMED'', bb_dock_state_valid = True, bb_operation_fault_reason = [],
      bb_operation_fault_request_id = [], bb_operation_outcome_unknown = False, bb_dock_phase = 0,
      bb_dock_phase_name = ''IDLE'', bb_undock_active = False, bb_undock_release_attempts = 0,
      bb_minimum_rear_range = None, bb_rear_sonar_usable = True, bb_redock_inhibited = False,
      bb_redock_inhibit_remaining = Fin 0, bb_undock_profile_commissioned = True,
      bb_odom_epoch_valid = True, bb_localization_recovery_required = False,
      bb_localization_recovery_stage = [], bb_localization_seed_stamp_ns = 5\<rparr>,
    nb_raw_odom_age_s = Some (Fin 0), nb_map_id = Some ''lab'', nb_map_revision = Some ''r1'',
    nb_map_activated_stamp_ns = 3\<rparr>"

definition example_clear :: node_base where
  "example_clear = example_docked\<lparr>nb_payload := (nb_payload example_docked)\<lparr>bb_charge_state := ''not_charging'',
     bb_dock_state := ''CLEAR_CONFIRMED''\<rparr>\<rparr>"

end
