(* ===== verification/Bridge_Executor.thy ===== *)
theory Bridge_Executor
  imports Bridge_Commands
begin

text \<open>
  The command executor of the robot bridge (\<open>CommandExecutor\<close> in
  \<open>patrolbot_web_bridge/commands.py\<close>): one definition per method, over an explicit state that also
  holds the callbacks the executor has registered with ROS and the messages it has sent.

  ROS is outside: which servers are ready, whether a call raises and what a future returns are
  arguments. A call the source guards with \<open>try\<close> may raise; a call it does not guard is taken not
  to raise, except for the cancel requests, whose exception ends the handler (\<open>Raised\<close>).
  The texts of progress messages, log lines and the two error fields a navigation result repeats are
  left out.
\<close>

subsection \<open>Frames and readings\<close>

record robot_goal =
  rg_x :: pyfloat
  rg_y :: pyfloat
  rg_yaw :: "pyfloat option"
  rg_map_id :: "string option"
  rg_map_revision :: "string option"

text \<open>The fields whose type or truth the code tests are dynamically typed; a missing one is \<open>VNone\<close>.\<close>

record robot_frame =
  rf_command_id :: string
  rf_command :: string
  rf_goal :: "robot_goal option"
  rf_seed_profile :: "string option"
  rf_allow_unlocalized :: pyval
  rf_operator_authorized :: pyval
  rf_enabled :: pyval

record frame_context =
  fc_base :: "node_base option"
  fc_yaw :: "pyfloat option"
  fc_localized :: bool
  fc_base_age :: "rat option"
  fc_odom_age :: "rat option"

subsection \<open>Goals, callbacks and messages\<close>

record nav_context =
  nc_map_id :: "string option"
  nc_map_revision :: "string option"
  nc_map_activated :: int
  nc_session_generation :: int
  nc_odom_epoch_valid :: bool
  nc_recovery_required :: bool
  nc_seed_stamp :: int

record goal_handle =
  gh_id :: nat
  gh_accepted :: bool
  gh_goal_id :: "nat list"

text \<open>\<open>na_uid\<close> and \<open>mp_uid\<close> stand for the identity of the dictionary a callback has captured.\<close>

record nav_active =
  na_uid :: nat
  na_command_id :: string
  na_handle :: goal_handle
  na_context :: "nav_context option"
  na_path_valid :: bool
  na_path_blocked :: bool
  na_cancel_requested :: bool
  na_cancel_pending :: bool
  na_stops :: "string list"

record undock_active =
  un_command_id :: string
  un_handle :: "goal_handle option"
  un_started :: rat
  un_uncertain :: bool
  un_cancel_requested :: bool
  un_stops :: "string list"

record map_active =
  mp_uid :: nat
  mp_command_id :: string
  mp_handle :: "goal_handle option"
  mp_cancel :: bool

datatype service = Charge_release_service | Motor_enable_service | Motor_disable_service | Dock_reset_service

record path_payload =
  pp_points :: "(pyfloat \<times> pyfloat) list"
  pp_command_id :: string
  pp_valid :: bool
  pp_map_id :: "string option"
  pp_map_revision :: "string option"

datatype exec_out =
    Ack string bool "sentence option"
  | Result string command_outcome sentence
  | Progress string string "pyfloat option"
  | Path_sent path_payload
  | Nav_goal string pyfloat pyfloat pyfloat
  | Undock_goal string
  | Map_goal string string string bool
  | Service_call service string
  | Lidar_call string bool
  | Dock_pose_call string
  | Path_request "nat list"
  | Cancel_goal nat
  | Raised

text \<open>A registered callback with what its closure has captured.\<close>

datatype callback =
    On_nav_goal string nat "nav_context option" nat
  | On_nav_result string
  | On_nav_cancel nat
  | On_stop_cancel string
  | On_undock_goal string nat
  | On_undock_result string
  | On_service string service
  | On_lidar string
  | On_map_goal nat
  | On_map_result nat
  | On_path nat nat

record executor =
  ex_active :: "nav_active option"
  ex_nav_pending :: "(string \<times> bool) option"
  ex_undock :: "undock_active option"
  ex_map :: "map_active option"
  ex_nav_context :: "nav_context option"
  ex_nav_generation :: nat
  ex_motor_generation :: nat
  ex_last_progress :: rat
  ex_last_undock_progress :: rat
  ex_undock_misses :: nat
  ex_lidar_pending :: "string option"
  ex_lidar_recovery :: bool
  ex_lidar_completed :: "rat option"
  ex_path_future :: "nat option"
  ex_path_sent :: rat
  ex_last_path :: "path_payload option"
  ex_calls :: "callback list"
  ex_next :: nat
  ex_out :: "exec_out list"

text \<open>
  What a handler sees of ROS: readiness of the action servers, readiness of a service whose client
  exists (\<open>None\<close> without one), the calls that raise, the socket and the monotonic clock.
\<close>

record ros =
  ro_nav_ready :: bool
  ro_map_ready :: bool
  ro_path_ready :: bool
  ro_undock :: "bool option"
  ro_service :: "service \<Rightarrow> bool option"
  ro_lidar :: "bool option"
  ro_dock_pose :: "bool option"
  ro_cancel_raises :: "nat \<Rightarrow> bool"
  ro_undock_raises :: bool
  ro_lidar_raises :: bool
  ro_connected :: bool
  ro_now :: rat
  ro_undock_timeout_s :: rat
  ro_path_max_points :: nat

definition executor_new :: executor where
  "executor_new = \<lparr>ex_active = None, ex_nav_pending = None, ex_undock = None, ex_map = None,
     ex_nav_context = None, ex_nav_generation = 0, ex_motor_generation = 0, ex_last_progress = 0,
     ex_last_undock_progress = 0, ex_undock_misses = 0, ex_lidar_pending = None,
     ex_lidar_recovery = False, ex_lidar_completed = None, ex_path_future = None, ex_path_sent = 0,
     ex_last_path = None, ex_calls = [], ex_next = 0, ex_out = []\<rparr>"

subsection \<open>Replies\<close>

definition say :: "exec_out list \<Rightarrow> executor \<Rightarrow> executor" where
  "say os s = s\<lparr>ex_out := ex_out s @ os\<rparr>"

definition await :: "callback \<Rightarrow> executor \<Rightarrow> executor" where
  "await c s = s\<lparr>ex_calls := ex_calls s @ [c]\<rparr>"

definition refuse :: "string \<Rightarrow> sentence \<Rightarrow> executor \<Rightarrow> executor" where
  "refuse cid why = say [Ack cid False (Some why)]"

text \<open>\<open>cancel_goal_async\<close>: the request goes out, or the call raises.\<close>

definition cancel_goal :: "ros \<Rightarrow> goal_handle \<Rightarrow> executor \<Rightarrow> bool \<times> executor" where
  "cancel_goal r h s = (if ro_cancel_raises r (gh_id h) then (False, s) else (True, say [Cancel_goal (gh_id h)] s))"

text \<open>A cancel whose exception ends the handler before \<open>rest\<close>.\<close>

definition cancel_then :: "ros \<Rightarrow> goal_handle \<Rightarrow> (executor \<Rightarrow> executor) \<Rightarrow> executor \<Rightarrow> executor" where
  "cancel_then r h rest s = (case cancel_goal r h s of (True, s') \<Rightarrow> rest s' | (False, s') \<Rightarrow> say [Raised] s')"

subsection \<open>Stops\<close>

definition all_stops :: "executor \<Rightarrow> string list" where
  "all_stops s = (case ex_active s of None \<Rightarrow> [] | Some a \<Rightarrow> na_stops a)
     @ (case ex_undock s of None \<Rightarrow> [] | Some u \<Rightarrow> un_stops u)"

definition claim_undock_stop :: "string \<Rightarrow> executor \<Rightarrow> bool \<times> executor" where
  "claim_undock_stop cid s =
     (case ex_undock s of
        Some u \<Rightarrow> if cid \<in> set (un_stops u)
          then (True, s\<lparr>ex_undock := Some (u\<lparr>un_stops := remove1 cid (un_stops u)\<rparr>)\<rparr>) else (False, s)
      | None \<Rightarrow> (False, s))"

definition claim_stop :: "string \<Rightarrow> executor \<Rightarrow> bool \<times> executor" where
  "claim_stop cid s =
     (case ex_active s of
        Some a \<Rightarrow> if cid \<in> set (na_stops a)
          then (True, s\<lparr>ex_active := Some (a\<lparr>na_stops := remove1 cid (na_stops a)\<rparr>)\<rparr>)
          else claim_undock_stop cid s
      | None \<Rightarrow> claim_undock_stop cid s)"

definition fail_stop :: "string \<Rightarrow> stop_sentence \<Rightarrow> executor \<Rightarrow> executor" where
  "fail_stop cid why s =
     (case claim_stop cid s of (True, s') \<Rightarrow> say [Result cid Failed (Halt why)] s' | (False, s') \<Rightarrow> s')"

definition on_cancel_response :: "string \<Rightarrow> cancel_reply option \<Rightarrow> executor \<Rightarrow> executor" where
  "on_cancel_response cid reply s =
     (case reply of
        None \<Rightarrow> fail_stop cid S_unanswered s
      | Some rp \<Rightarrow> (case cancel_verdict rp of
          Canceling \<Rightarrow> s
        | Finished \<Rightarrow> (case claim_stop cid s of
              (True, s') \<Rightarrow> say [Result cid Succeeded (Halt S_already_stopped)] s' | (False, s') \<Rightarrow> s')
        | Refused \<Rightarrow> fail_stop cid S_refused s))"

text \<open>The stops of a goal that has ended, reported with its outcome.\<close>

definition report_stops :: "command_outcome \<Rightarrow> string list \<Rightarrow> exec_out list" where
  "report_stops outcome stops =
     map (\<lambda>cid. Result cid (fst (stop_result outcome)) (snd (stop_result outcome))) stops"

subsection \<open>Navigation\<close>

definition clear_path :: "executor \<Rightarrow> executor" where
  "clear_path s =
     (case ex_active s of None \<Rightarrow> s | Some a \<Rightarrow>
        say [Path_sent \<lparr>pp_points = [], pp_command_id = na_command_id a, pp_valid = False,
               pp_map_id = (case na_context a of None \<Rightarrow> None | Some c \<Rightarrow> nc_map_id c),
               pp_map_revision = (case na_context a of None \<Rightarrow> None | Some c \<Rightarrow> nc_map_revision c)\<rparr>]
          (s\<lparr>ex_active := Some (a\<lparr>na_path_valid := False\<rparr>), ex_last_path := None\<rparr>))"

definition update_navigation_context :: "node_base \<Rightarrow> executor \<Rightarrow> executor" where
  "update_navigation_context n s =
     (let b = nb_payload n;
          context = \<lparr>nc_map_id = nb_map_id n, nc_map_revision = nb_map_revision n,
            nc_map_activated = nb_map_activated_stamp_ns n, nc_session_generation = bb_session_generation b,
            nc_odom_epoch_valid = bb_odom_epoch_valid b, nc_recovery_required = bb_localization_recovery_required b,
            nc_seed_stamp = bb_localization_seed_stamp_ns b\<rparr>
      in if ex_nav_context s = Some context then s
         else let s1 = s\<lparr>ex_nav_context := Some context\<rparr>
              in case ex_active s1 of None \<Rightarrow> s1
                 | Some a \<Rightarrow> clear_path (s1\<lparr>ex_active := Some (a\<lparr>na_path_blocked := True\<rparr>)\<rparr>))"

definition on_navigation_cancel_response :: "nat \<Rightarrow> cancel_reply option \<Rightarrow> executor \<Rightarrow> executor" where
  "on_navigation_cancel_response uid reply s =
     (case ex_active s of None \<Rightarrow> s | Some a \<Rightarrow>
        if na_uid a \<noteq> uid then s
        else if (case reply of None \<Rightarrow> False | Some rp \<Rightarrow> cancel_verdict rp \<noteq> Refused) then s
        else say [Progress (na_command_id a) ''stopping'' None]
               (s\<lparr>ex_active := Some (a\<lparr>na_cancel_pending := False\<rparr>)\<rparr>))"

text \<open>The three parts of \<open>_cancel_navigation\<close>: the undock, the pending goal, the active goal.\<close>

definition cancel_undock :: "ros \<Rightarrow> undock_active \<Rightarrow> executor \<Rightarrow> executor" where
  "cancel_undock r u s =
     (if un_cancel_requested u then s
      else let s1 = s\<lparr>ex_undock := Some (u\<lparr>un_cancel_requested := True\<rparr>)\<rparr>
           in case un_handle u of None \<Rightarrow> s1
              | Some h \<Rightarrow> (case cancel_goal r h s1 of (True, s2) \<Rightarrow> s2
                  | (False, s2) \<Rightarrow> say [Progress (un_command_id u) ''stopping'' None] s2))"

definition cancel_active :: "ros \<Rightarrow> string \<Rightarrow> executor \<Rightarrow> executor" where
  "cancel_active r cid s =
     (case ex_active s of None \<Rightarrow> s | Some a \<Rightarrow>
        if na_command_id a \<noteq> cid \<or> na_cancel_requested a then s
        else let s1 = say [Progress cid ''stopping'' None] (clear_path (s\<lparr>ex_active := Some
                        (a\<lparr>na_cancel_requested := True, na_cancel_pending := True, na_path_blocked := True\<rparr>)\<rparr>))
             in case cancel_goal r (na_handle a) s1 of
                  (False, s2) \<Rightarrow> on_navigation_cancel_response (na_uid a) None s2
                | (True, s2) \<Rightarrow> await (On_nav_cancel (na_uid a)) s2)"

definition mark_pending_cancel :: "string \<Rightarrow> executor \<Rightarrow> executor" where
  "mark_pending_cancel cid s =
     (case ex_nav_pending s of None \<Rightarrow> s
      | Some (pid, c) \<Rightarrow> if pid = cid then s\<lparr>ex_nav_pending := Some (pid, True)\<rparr> else s)"

definition cancel_navigation :: "ros \<Rightarrow> string \<Rightarrow> executor \<Rightarrow> executor" where
  "cancel_navigation r cid s =
     (case ex_undock s of
        Some u \<Rightarrow> if un_command_id u = cid then cancel_undock r u s
                  else cancel_active r cid (mark_pending_cancel cid s)
      | None \<Rightarrow> cancel_active r cid (mark_pending_cancel cid s))"

definition navigate :: "ros \<Rightarrow> string \<Rightarrow> robot_goal \<Rightarrow> pyfloat option \<Rightarrow> executor \<Rightarrow> executor" where
  "navigate r cid goal current_yaw s =
     (if ex_undock s \<noteq> None then refuse cid (Nav N_undock_running) s
      else if \<not> ro_nav_ready r then refuse cid (Nav N_navigation_down) s
      else let s1 = clear_path s;
               n = Suc (ex_nav_generation s1);
               s2 = s1\<lparr>ex_nav_generation := n, ex_nav_pending := Some (cid, False)\<rparr>
           in await (On_nav_goal cid (ex_motor_generation s2) (ex_nav_context s2) n)
                (say [Nav_goal cid (rg_x goal) (rg_y goal)
                       (default (default (Fin 0) current_yaw) (rg_yaw goal))] s2))"

text \<open>The pending entry, when it belongs to this command, and clearing it.\<close>

definition own_pending :: "string \<Rightarrow> executor \<Rightarrow> bool option" where
  "own_pending cid s =
     (case ex_nav_pending s of None \<Rightarrow> None | Some (pid, c) \<Rightarrow> if pid = cid then Some c else None)"

definition clear_pending :: "string \<Rightarrow> executor \<Rightarrow> executor" where
  "clear_pending cid s = (if own_pending cid s = None then s else s\<lparr>ex_nav_pending := None\<rparr>)"

text \<open>Closing out a goal that a newer one preempts, with the stops that waited for it.\<close>

definition replaced :: "executor \<Rightarrow> exec_out list" where
  "replaced s =
     (case ex_active s of None \<Rightarrow> [] | Some a \<Rightarrow>
        Result (na_command_id a) Canceled (Nav N_replaced)
        # map (\<lambda>cid. Result cid Failed (Halt S_goal_replaced)) (na_stops a))"

definition install_goal :: "string \<Rightarrow> goal_handle \<Rightarrow> executor \<Rightarrow> executor" where
  "install_goal cid h s =
     (let s1 = say (replaced s) s;
          s2 = clear_pending cid (s1\<lparr>ex_active := Some \<lparr>na_uid = ex_next s1, na_command_id = cid, na_handle = h,
                 na_context = ex_nav_context s1, na_path_valid = False, na_path_blocked = False,
                 na_cancel_requested = False, na_cancel_pending = False, na_stops = []\<rparr>, ex_next := Suc (ex_next s1)\<rparr>)
      in await (On_nav_result cid) (clear_path (say [Ack cid True None] (s2\<lparr>ex_last_progress := 0\<rparr>))))"

definition on_goal_response ::
  "ros \<Rightarrow> string \<Rightarrow> nat \<Rightarrow> nav_context option \<Rightarrow> nat \<Rightarrow> goal_handle option \<Rightarrow> executor \<Rightarrow> executor" where
  "on_goal_response r cid generation context nav_generation reply s =
     (let pend = own_pending cid s in
      case reply of None \<Rightarrow> refuse cid (Nav N_refused) s | Some h \<Rightarrow>
      if \<not> gh_accepted h then refuse cid (Nav N_declined) (clear_pending cid s)
      else if generation \<noteq> ex_motor_generation s
      then cancel_then r h (refuse cid (Nav N_motor_disable)) s
      else if nav_generation \<noteq> ex_nav_generation s
      then cancel_then r h (refuse cid (Nav N_newer_destination)) s
      else if context \<noteq> None \<and> context \<noteq> ex_nav_context s
      then cancel_then r h (refuse cid (Nav N_context_changed)) s
      else let s1 = install_goal cid h s
           in if pend = Some True then cancel_navigation r cid s1 else s1)"

subsection \<open>Planned paths and progress\<close>

record path_msg =
  pm_frame_id :: string
  pm_stamp :: int
  pm_poses :: "((pyfloat \<times> pyfloat) \<times> pyfloat list) list"

text \<open>A pose is its planar position and the remaining five coordinates.\<close>

definition path_usable :: "nav_context \<Rightarrow> path_msg \<Rightarrow> bool" where
  "path_usable c p =
     (let barrier = max (nc_map_activated c) (nc_seed_stamp c)
      in pm_poses p \<noteq> [] \<and> pm_frame_id p = ''map'' \<and> barrier \<le> pm_stamp p \<and> 0 < barrier
         \<and> list_all (\<lambda>((x, y), vs). is_finite x \<and> is_finite y \<and> list_all is_finite vs) (pm_poses p))"

definition navigation_path :: "ros \<Rightarrow> nat list \<Rightarrow> path_msg \<Rightarrow> executor \<Rightarrow> path_payload option \<times> executor" where
  "navigation_path r goal_id p s =
     (case (ex_active s, ex_nav_context s) of
        (Some a, Some c) \<Rightarrow>
          if na_path_blocked a \<or> goal_id \<noteq> gh_goal_id (na_handle a) \<or> na_context a \<noteq> Some c
             \<or> or_empty (nc_map_id c) = [] \<or> or_empty (nc_map_revision c) = []
             \<or> \<not> nc_odom_epoch_valid c \<or> nc_recovery_required c
          then (None, s)
          else let valid = path_usable c p; s1 = s\<lparr>ex_active := Some (a\<lparr>na_path_valid := valid\<rparr>)\<rparr>
               in case (if valid then normalize_path_points (map fst (pm_poses p)) (ro_path_max_points r) else Some []) of
                    None \<Rightarrow> (None, say [Raised] s1)
                  | Some pts \<Rightarrow> (Some \<lparr>pp_points = pts, pp_command_id = na_command_id a, pp_valid = valid,
                        pp_map_id = nc_map_id c, pp_map_revision = nc_map_revision c\<rparr>, s1)
      | _ \<Rightarrow> (None, s))"

text \<open>The answer of the path service: whether the goal is active, and its path.\<close>

definition on_navigation_path :: "ros \<Rightarrow> nat \<Rightarrow> nat \<Rightarrow> (bool \<times> path_msg) option \<Rightarrow> executor \<Rightarrow> executor" where
  "on_navigation_path r future uid reply s =
     (case ex_active s of None \<Rightarrow> s | Some a \<Rightarrow>
        if na_uid a \<noteq> uid \<or> ex_path_future s \<noteq> Some future then s
        else case reply of None \<Rightarrow> clear_path s
        | Some (live, p) \<Rightarrow>
            if \<not> live then clear_path s
            else case navigation_path r (gh_goal_id (na_handle a)) p s of
                (None, s1) \<Rightarrow> s1
              | (Some payload, s1) \<Rightarrow> if ex_last_path s1 = Some payload then s1
                  else say [Path_sent payload] (s1\<lparr>ex_last_path := Some payload\<rparr>))"

text \<open>A future is done when its callback is no longer registered.\<close>

definition path_callback :: "nat \<Rightarrow> callback \<Rightarrow> bool" where
  "path_callback f c = (case c of On_path g u \<Rightarrow> g = f | _ \<Rightarrow> False)"

definition ask_path :: "ros \<Rightarrow> executor \<Rightarrow> executor" where
  "ask_path r s =
     (case ex_active s of None \<Rightarrow> s | Some a \<Rightarrow>
        if na_path_blocked a then s
        else if \<not> ro_path_ready r then (if na_path_valid a then clear_path s else s)
        else let f = ex_next s in
             await (On_path f (na_uid a))
               (say [Path_request (gh_goal_id (na_handle a))]
                  (s\<lparr>ex_path_sent := ro_now r, ex_path_future := Some f, ex_next := Suc f\<rparr>)))"

definition poll_navigation_path :: "ros \<Rightarrow> executor \<Rightarrow> executor" where
  "poll_navigation_path r s =
     (case ex_path_future s of
        Some f \<Rightarrow>
          if list_ex (path_callback f) (ex_calls s)
          then if ro_now r - ex_path_sent s \<le> 2 then s
               else ask_path r (clear_path (s\<lparr>ex_calls := filter (\<lambda>c. \<not> path_callback f c) (ex_calls s),
                                              ex_path_future := None\<rparr>))
          else ask_path r s
      | None \<Rightarrow> ask_path r s)"

definition on_feedback :: "ros \<Rightarrow> string \<Rightarrow> nat list \<Rightarrow> pyfloat option \<Rightarrow> executor \<Rightarrow> executor" where
  "on_feedback r cid goal_id distance s =
     (case ex_active s of None \<Rightarrow> s | Some a \<Rightarrow>
        if na_command_id a \<noteq> cid \<or> goal_id \<noteq> gh_goal_id (na_handle a) then s
        else if ro_now r - ex_last_progress s < 1 then s
        else let stopping = na_cancel_requested a;
                 valid = (\<not> stopping \<and> na_path_valid a
                          \<and> (case distance of None \<Rightarrow> False | Some d \<Rightarrow> is_finite d \<and> pf_le (Fin 0) d))
             in say [Progress cid (if stopping then ''stopping'' else if valid then ''navigating'' else ''planning'')
                       (if valid then map_option (py_round 2) distance else None)]
                  (s\<lparr>ex_last_progress := ro_now r\<rparr>))"

text \<open>The terminal reply of a navigation goal; \<open>None\<close> when the future raises.\<close>

record nav_result =
  nr_status :: int
  nr_error_code :: "int option"
  nr_error_msg :: string

definition nav_detail :: "nav_result \<Rightarrow> nav_sentence" where
  "nav_detail n =
     (case map_goal_status (nr_status n) of
        Succeeded \<Rightarrow> N_arrived
      | Canceled \<Rightarrow> N_canceled
      | _ \<Rightarrow> N_unreachable (case nr_error_code n of Some c \<Rightarrow> if c = 0 then None else Some c | None \<Rightarrow> None)
              (py_strip (nr_error_msg n)))"

definition on_nav_result :: "string \<Rightarrow> nav_result option \<Rightarrow> executor \<Rightarrow> executor" where
  "on_nav_result cid reply s =
     (case ex_active s of None \<Rightarrow> s | Some a \<Rightarrow>
        if na_command_id a \<noteq> cid then s
        else let s1 = (clear_path (s\<lparr>ex_active := Some (a\<lparr>na_stops := []\<rparr>)\<rparr>))\<lparr>ex_active := None\<rparr>
             in case reply of
                  None \<Rightarrow> say (Result cid Failed (Nav N_ended_abnormally) # report_stops Failed (na_stops a)) s1
                | Some n \<Rightarrow> say (Result cid (map_goal_status (nr_status n)) (Nav (nav_detail n))
                                # report_stops (map_goal_status (nr_status n)) (na_stops a)) s1)"

subsection \<open>Stop\<close>

definition stop :: "ros \<Rightarrow> string \<Rightarrow> executor \<Rightarrow> executor" where
  "stop r cid s0 =
     (let s = say [Ack cid True None] s0 in
      case ex_undock s of
        Some u \<Rightarrow>
          let s1 = s\<lparr>ex_undock := Some (u\<lparr>un_cancel_requested := True, un_stops := un_stops u @ [cid]\<rparr>)\<rparr>
          in (case un_handle u of None \<Rightarrow> s1 | Some h \<Rightarrow>
              if un_stops u \<noteq> [] then s1
              else case cancel_goal r h s1 of
                (False, s2) \<Rightarrow> fail_stop cid S_could_not_ask s2
              | (True, s2) \<Rightarrow> await (On_stop_cancel cid) s2)
      | None \<Rightarrow> (case ex_active s of
            None \<Rightarrow> say [Result cid Succeeded (Halt S_not_navigating)] s
          | Some a \<Rightarrow>
              let s1 = clear_path (s\<lparr>ex_active := Some (a\<lparr>na_cancel_requested := True, na_path_blocked := True,
                          na_stops := na_stops a @ [cid]\<rparr>)\<rparr>)
              in if na_stops a \<noteq> [] \<or> na_cancel_pending a then s1
                 else case cancel_goal r (na_handle a) s1 of
                   (False, s2) \<Rightarrow> fail_stop cid S_could_not_ask s2
                 | (True, s2) \<Rightarrow> await (On_stop_cancel cid) s2))"

subsection \<open>Undock\<close>

definition fail_undock :: "ros \<Rightarrow> executor \<Rightarrow> executor" where
  "fail_undock r s =
     (case ex_undock s of None \<Rightarrow> s | Some u \<Rightarrow>
        if un_uncertain u then s
        else say [Progress (un_command_id u) ''unknown'' None]
               (cancel_navigation r (un_command_id u) (s\<lparr>ex_undock := Some (u\<lparr>un_uncertain := True\<rparr>)\<rparr>)))"

definition check_undock_health :: "ros \<Rightarrow> executor \<Rightarrow> executor" where
  "check_undock_health r s =
     (case ex_undock s of None \<Rightarrow> s\<lparr>ex_undock_misses := 0\<rparr> | Some u \<Rightarrow>
        if ro_undock r = Some False
        then let s1 = s\<lparr>ex_undock_misses := Suc (ex_undock_misses s)\<rparr>
             in if 2 \<le> ex_undock_misses s1 then fail_undock r s1 else s1
        else let s1 = s\<lparr>ex_undock_misses := 0\<rparr>
             in if ro_undock_timeout_s r < ro_now r - un_started u then fail_undock r s1 else s1)"

definition undock :: "ros \<Rightarrow> string \<Rightarrow> bool \<Rightarrow> executor \<Rightarrow> executor" where
  "undock r cid authorized s =
     (if ro_undock r = None then refuse cid (Undocking U_uncommissioned) s
      else if \<not> authorized then refuse cid (Undocking U_unauthorized) s
      else if ro_undock r = Some False then refuse cid (Undocking U_docking_down) s
      else if ex_undock s \<noteq> None then refuse cid (Undocking U_already_undocking) s
      else if ex_active s \<noteq> None \<or> ex_nav_pending s \<noteq> None then refuse cid (Undocking U_driving) s
      else if ro_undock_raises r then refuse cid (Undocking U_not_sent) s
      else await (On_undock_goal cid (ex_motor_generation s)) (say [Undock_goal cid]
             (s\<lparr>ex_undock := Some \<lparr>un_command_id = cid, un_handle = None, un_started = ro_now r,
                 un_uncertain = False, un_cancel_requested = False, un_stops = []\<rparr>\<rparr>)))"

definition on_undock_response :: "ros \<Rightarrow> string \<Rightarrow> nat \<Rightarrow> goal_handle option \<Rightarrow> executor \<Rightarrow> executor" where
  "on_undock_response r cid generation reply s =
     (case ex_undock s of
        None \<Rightarrow> (case reply of None \<Rightarrow> s
          | Some h \<Rightarrow> if gh_accepted h then cancel_then r h (\<lambda>v. v) s else s)
      | Some u \<Rightarrow>
          if un_command_id u \<noteq> cid
          then (case reply of None \<Rightarrow> s
            | Some h \<Rightarrow> if gh_accepted h then cancel_then r h (\<lambda>v. v) s else s)
          else case reply of
            None \<Rightarrow> fail_undock r s
          | Some h \<Rightarrow>
              if \<not> gh_accepted h
              then say (Ack cid False (Some (Undocking U_declined))
                        # map (\<lambda>c. Result c Succeeded (Halt S_undock_not_accepted)) (un_stops u))
                     (s\<lparr>ex_undock := None\<rparr>)
              else let requested = (un_cancel_requested u \<or> generation \<noteq> ex_motor_generation s);
                       s1 = await (On_undock_result cid) (say [Ack cid True None]
                              (s\<lparr>ex_undock := Some (u\<lparr>un_cancel_requested := requested, un_handle := Some h\<rparr>),
                                 ex_undock_misses := 0\<rparr>))
                   in if \<not> requested then s1
                      else case cancel_goal r h s1 of
                        (False, s2) \<Rightarrow> foldl (\<lambda>v c. fail_stop c S_could_not_ask v) s2 (un_stops u)
                      | (True, s2) \<Rightarrow> (case un_stops u of [] \<Rightarrow> s2 | c # cs \<Rightarrow> await (On_stop_cancel c) s2))"

definition on_undock_feedback :: "ros \<Rightarrow> string \<Rightarrow> string \<Rightarrow> executor \<Rightarrow> executor" where
  "on_undock_feedback r cid stage s =
     (case ex_undock s of None \<Rightarrow> s | Some u \<Rightarrow>
        if un_command_id u \<noteq> cid \<or> un_handle u = None then s
        else if ro_now r - ex_last_undock_progress s < 1 then s
        else let st = (if un_cancel_requested u then ''STOPPING'' else stage)
             in say [Progress cid (if st = [] then ''undocking'' else st) None]
                  (s\<lparr>ex_last_undock_progress := ro_now r\<rparr>))"

record undock_reply =
  ur_status :: "int option"
  ur_code :: int
  ur_success :: bool
  ur_message :: string
  ur_manual_recovery :: bool

definition undock_closing :: "undock_reply \<Rightarrow> command_outcome \<times> sentence" where
  "undock_closing u =
     (let outcome = undock_outcome (ur_success u) (ur_code u) in
      if (outcome \<in> {Succeeded, Canceled} \<and> outcome \<noteq> map_goal_status (default 0 (ur_status u)))
         \<or> (ur_code u = 0 \<and> \<not> ur_success u)
      then (Failed, Undocking U_inconsistent)
      else (outcome, Undocking (U_text (ur_code u) (ur_message u) (ur_manual_recovery u))))"

definition on_undock_result :: "ros \<Rightarrow> string \<Rightarrow> undock_reply option \<Rightarrow> executor \<Rightarrow> executor" where
  "on_undock_result r cid reply s =
     (case ex_undock s of None \<Rightarrow> s | Some u \<Rightarrow>
        if un_command_id u \<noteq> cid then s
        else case reply of None \<Rightarrow> fail_undock r s
        | Some rp \<Rightarrow>
            if ur_status rp \<notin> Some ` {STATUS_SUCCEEDED, STATUS_CANCELED, STATUS_ABORTED} then fail_undock r s
            else let closing = undock_closing rp
                 in say (Result cid (fst closing) (snd closing) # report_stops (fst closing) (un_stops u))
                      (s\<lparr>ex_undock := None\<rparr>))"

subsection \<open>Map localization\<close>

definition check_map_connection :: "ros \<Rightarrow> bool \<Rightarrow> executor \<Rightarrow> bool \<times> executor" where
  "check_map_connection r asked s =
     (case ex_map s of None \<Rightarrow> (True, s) | Some m \<Rightarrow>
        if (asked \<or> \<not> ro_connected r) \<and> \<not> mp_cancel m
        then let s1 = s\<lparr>ex_map := Some (m\<lparr>mp_cancel := True\<rparr>)\<rparr>
             in case mp_handle m of None \<Rightarrow> (True, s1) | Some h \<Rightarrow> cancel_goal r h s1
        else (True, s))"

definition check_map_then :: "ros \<Rightarrow> (executor \<Rightarrow> executor) \<Rightarrow> executor \<Rightarrow> executor" where
  "check_map_then r rest s =
     (case check_map_connection r True s of (True, s') \<Rightarrow> rest s' | (False, s') \<Rightarrow> say [Raised] s')"

definition set_initial_pose :: "ros \<Rightarrow> string \<Rightarrow> robot_goal \<Rightarrow> bool \<Rightarrow> string option \<Rightarrow> executor \<Rightarrow> executor" where
  "set_initial_pose r cid goal authorized seed_profile s =
     (if \<not> authorized \<or> ex_active s \<noteq> None \<or> \<not> ro_map_ready r
      then refuse cid (Localizing M_refused) s
      else let uid = ex_next s in
        await (On_map_goal uid)
          (say [Map_goal cid (or_empty (rg_map_id goal)) (or_empty (rg_map_revision goal)) (seed_profile = Some ''measured'')]
             (s\<lparr>ex_map := Some \<lparr>mp_uid = uid, mp_command_id = cid, mp_handle = None, mp_cancel = False\<rparr>,
                ex_next := Suc uid\<rparr>)))"

definition map_feedback :: "string \<Rightarrow> string \<Rightarrow> executor \<Rightarrow> executor" where
  "map_feedback request_id stage s =
     (case ex_map s of None \<Rightarrow> s | Some m \<Rightarrow>
        if request_id = mp_command_id m then say [Progress (mp_command_id m) stage None] s else s)"

definition map_response :: "ros \<Rightarrow> nat \<Rightarrow> goal_handle option \<Rightarrow> executor \<Rightarrow> executor" where
  "map_response r uid reply s =
     (case ex_map s of None \<Rightarrow> s | Some m \<Rightarrow>
        if mp_uid m \<noteq> uid then s
        else case reply of
          None \<Rightarrow> say [Result (mp_command_id m) Failed (Localizing M_failed)] (s\<lparr>ex_map := None\<rparr>)
        | Some h \<Rightarrow>
            if \<not> gh_accepted h
            then say [Ack (mp_command_id m) False (Some (Localizing M_preconditions))] (s\<lparr>ex_map := None\<rparr>)
            else let s1 = await (On_map_result uid) (say [Ack (mp_command_id m) True None]
                            (s\<lparr>ex_map := Some (m\<lparr>mp_handle := Some h\<rparr>)\<rparr>))
                 in if \<not> mp_cancel m then s1
                    else case cancel_goal r h s1 of (True, s2) \<Rightarrow> s2
                      | (False, s2) \<Rightarrow> say [Result (mp_command_id m) Failed (Localizing M_failed)] (s2\<lparr>ex_map := None\<rparr>))"

record map_reply =
  mr_request_id :: string
  mr_localized :: bool
  mr_code :: int
  mr_message :: string

definition map_result :: "nat \<Rightarrow> map_reply option \<Rightarrow> executor \<Rightarrow> executor" where
  "map_result uid reply s =
     (case ex_map s of None \<Rightarrow> s | Some m \<Rightarrow>
        if mp_uid m \<noteq> uid then s
        else (say [case reply of
                     None \<Rightarrow> Result (mp_command_id m) Failed (Localizing M_failed)
                   | Some rp \<Rightarrow> if mr_request_id rp \<noteq> mp_command_id m
                       then Result (mp_command_id m) Failed (Localizing M_failed)
                       else Result (mp_command_id m) (if mr_localized rp \<and> mr_code rp = 0 then Succeeded else Failed)
                              (Localizing (M_message (mr_message rp)))] s)\<lparr>ex_map := None\<rparr>)"

subsection \<open>Drive-base services\<close>

definition call_dock_service :: "ros \<Rightarrow> string \<Rightarrow> service \<Rightarrow> executor \<Rightarrow> executor" where
  "call_dock_service r cid what s =
     (case ro_service r what of
        None \<Rightarrow> refuse cid (Service V_missing) s
      | Some False \<Rightarrow> refuse cid (Service V_down) s
      | Some True \<Rightarrow> await (On_service cid what) (say [Service_call what cid] s))"

record service_reply =
  sv_accepted :: bool
  sv_code :: "int option"
  sv_message :: string
  sv_request_id :: "string option"
  sv_success :: bool
  sv_motors_enabled :: "bool option"

definition on_dock_service_result :: "string \<Rightarrow> service \<Rightarrow> service_reply option \<Rightarrow> executor \<Rightarrow> executor" where
  "on_dock_service_result cid what reply s =
     (case reply of None \<Rightarrow> refuse cid (Service V_silent) s | Some rp \<Rightarrow>
        if \<not> sv_accepted rp then refuse cid (Service (V_text (default 1 (sv_code rp)) (sv_message rp))) s
        else if default cid (sv_request_id rp) \<noteq> cid then refuse cid (Service V_mismatch) s
        else let s1 = say [Ack cid True None] s
             in if what = Motor_disable_service \<and> sv_success rp \<and> default True (sv_motors_enabled rp)
                then say [Result cid Failed (Service V_motors_still_on)] s1
                else say [Result cid (if sv_success rp then Succeeded else Failed)
                            (Service (V_text (default 0 (sv_code rp)) (sv_message rp)))] s1)"

text \<open>
  \<open>self._ChargeRelease\<close> and \<open>self._MotorEnable\<close> exist only with their clients; without them
  reading the attribute raises before the missing client could be answered.
\<close>

definition charge_release :: "ros \<Rightarrow> string \<Rightarrow> executor \<Rightarrow> executor" where
  "charge_release r cid s =
     (if ro_service r Charge_release_service = None then say [Raised] s
      else call_dock_service r cid Charge_release_service s)"

definition motor_enable :: "ros \<Rightarrow> string \<Rightarrow> executor \<Rightarrow> executor" where
  "motor_enable r cid s =
     (if ex_active s \<noteq> None \<or> ex_undock s \<noteq> None then refuse cid (Service V_movement_unfinished) s
      else if ro_service r Motor_enable_service = None then say [Raised] s
      else call_dock_service r cid Motor_enable_service s)"

text \<open>The two passes of the cancel loop of \<open>_motor_disable\<close>; a cancel that raises is only logged.\<close>

definition halt_active :: "ros \<Rightarrow> executor \<Rightarrow> executor" where
  "halt_active r s =
     (case ex_active s of None \<Rightarrow> s | Some a \<Rightarrow>
        snd (cancel_goal r (na_handle a) (s\<lparr>ex_active := Some (a\<lparr>na_cancel_requested := True\<rparr>)\<rparr>)))"

definition halt_undock :: "ros \<Rightarrow> executor \<Rightarrow> executor" where
  "halt_undock r s =
     (case ex_undock s of None \<Rightarrow> s | Some u \<Rightarrow>
        let s1 = s\<lparr>ex_undock := Some (u\<lparr>un_cancel_requested := True\<rparr>)\<rparr>
        in case un_handle u of None \<Rightarrow> s1 | Some h \<Rightarrow> snd (cancel_goal r h s1))"

definition block_path :: "executor \<Rightarrow> executor" where
  "block_path s =
     (case ex_active s of None \<Rightarrow> s
      | Some a \<Rightarrow> clear_path (s\<lparr>ex_active := Some (a\<lparr>na_path_blocked := True\<rparr>)\<rparr>))"

definition motor_disable :: "ros \<Rightarrow> string \<Rightarrow> executor \<Rightarrow> executor" where
  "motor_disable r cid s =
     (let s1 = block_path s;
          s2 = call_dock_service r cid Motor_disable_service
                 (s1\<lparr>ex_motor_generation := Suc (ex_motor_generation s1)\<rparr>);
          s3 = snd (check_map_connection r True s2)
      in halt_undock r (halt_active r s3))"

subsection \<open>LiDAR power\<close>

definition lidar_unavailable :: "node_base option \<Rightarrow> rat option \<Rightarrow> bool" where
  "lidar_unavailable base receipt_age =
     (case base of None \<Rightarrow> True | Some n \<Rightarrow> let b = nb_payload n in
        \<not> bb_lidar_power_supported b \<or> \<not> bb_hardware_state_valid b \<or> \<not> bb_link_connected b
        \<or> bb_fault_flags b \<noteq> 0
        \<or> (case receipt_age of None \<Rightarrow> True | Some a \<Rightarrow>
             \<not> (0 \<le> a \<and> a \<le> 1/2) \<or> \<not> is_finite (bb_telemetry_age b) \<or> pf_lt (bb_telemetry_age b) (Fin 0)
             \<or> pf_lt (Fin (1/2)) (pf_add (bb_telemetry_age b) (Fin a)))
        \<or> bb_lidar_state b \<notin> {''OFF'', ''READY'', ''FAULT''})"

definition set_lidar_power ::
  "ros \<Rightarrow> string \<Rightarrow> robot_frame \<Rightarrow> node_base option \<Rightarrow> rat option \<Rightarrow> executor \<Rightarrow> executor" where
  "set_lidar_power r cid f base receipt_age s =
     (case rf_enabled f of
        VBool enabled \<Rightarrow>
          if rf_operator_authorized f \<noteq> VBool True then refuse cid (Service V_lidar_unauthorized) s
          else if lidar_unavailable base receipt_age then refuse cid (Service V_lidar_unavailable) s
          else if ex_active s \<noteq> None \<or> ex_undock s \<noteq> None
                  \<or> (case base of None \<Rightarrow> False | Some n \<Rightarrow> bb_undock_active (nb_payload n))
          then refuse cid (Service V_stop_first) s
          else if ro_lidar r \<noteq> Some True then refuse cid (Service V_lidar_down) s
          else let s1 = s\<lparr>ex_lidar_pending := Some cid\<rparr>
               in if ro_lidar_raises r then say [Result cid Timeout (Service V_lidar_unknown)] s1
                  else await (On_lidar cid) (say [Lidar_call cid enabled] s1)
      | _ \<Rightarrow> refuse cid (Service V_lidar_unauthorized) s)"

record lidar_reply =
  lr_request_id :: string
  lr_code :: int
  lr_message :: string
  lr_accepted :: bool
  lr_success :: bool

definition on_lidar_result :: "ros \<Rightarrow> string \<Rightarrow> lidar_reply option \<Rightarrow> executor \<Rightarrow> executor" where
  "on_lidar_result r cid reply s =
     (if ex_lidar_pending s \<noteq> Some cid then s
      else case (case reply of None \<Rightarrow> None | Some rp \<Rightarrow> if lr_request_id rp = cid then Some rp else None) of
        None \<Rightarrow> say [Result cid Timeout (Service V_lidar_unknown)] s
      | Some rp \<Rightarrow>
          let s1 = s\<lparr>ex_lidar_pending := None, ex_lidar_completed := Some (ro_now r)\<rparr>
          in if lr_code rp = 5
             then say [Ack cid True None, Result cid Failed
                         (Service (if lr_message rp = [] then V_lidar_timed_out else V_message (lr_message rp)))]
                    (s1\<lparr>ex_lidar_recovery := True\<rparr>)
             else let s2 = (if lr_accepted rp then s1\<lparr>ex_lidar_recovery := \<not> lr_success rp\<rparr> else s1);
                      s3 = say [Ack cid (lr_accepted rp)
                             (if lr_message rp = [] then None else Some (Service (V_message (lr_message rp))))] s2
                  in if lr_accepted rp
                     then say [Result cid (if lr_success rp then Succeeded else Failed) (Service (V_message (lr_message rp)))] s3
                     else s3)"

subsection \<open>Dock pose and capabilities\<close>

definition initialize_dock_pose :: "ros \<Rightarrow> string \<Rightarrow> executor \<Rightarrow> bool \<times> executor" where
  "initialize_dock_pose r dock_id s =
     (if ro_dock_pose r = Some True then (True, say [Dock_pose_call dock_id] s) else (False, s))"

definition available_capabilities :: "ros \<Rightarrow> string list" where
  "available_capabilities r =
     (if ro_map_ready r then [''map_context_v1''] else [])
     @ (if ro_undock r = Some True then [''undock''] else [])
     @ (if ro_service r Charge_release_service = Some True then [''charge_release''] else [])
     @ (if ro_service r Motor_enable_service = Some True then [''motor_enable''] else [])
     @ (if ro_service r Motor_disable_service = Some True then [''motor_disable''] else [])
     @ (if ro_service r Dock_reset_service = Some True then [''dock_reset''] else [])
     @ (if ro_lidar r = Some True then [''set_lidar_power''] else [])"

subsection \<open>Dispatch of a command frame\<close>

definition handle_cancel :: "ros \<Rightarrow> robot_frame \<Rightarrow> executor \<Rightarrow> executor" where
  "handle_cancel r f s =
     (let cid = rf_command_id f;
          rest = (\<lambda>v. if rf_command f = ''cancel'' then cancel_navigation r cid v else v)
      in case ex_map s of None \<Rightarrow> rest s
         | Some m \<Rightarrow> if mp_command_id m = cid then check_map_then r rest s else rest s)"

definition handle_dock_reset :: "ros \<Rightarrow> frame_context \<Rightarrow> robot_frame \<Rightarrow> executor \<Rightarrow> executor" where
  "handle_dock_reset r c f s =
     (if rf_operator_authorized f \<noteq> VBool True then refuse (rf_command_id f) (Dispatch D_recovery_unauthorized) s
      else if ex_active s \<noteq> None \<or> ex_undock s \<noteq> None \<or> ex_map s \<noteq> None
              \<or> (case fc_base c of None \<Rightarrow> False | Some n \<Rightarrow>
                   bb_undock_active (nb_payload n) \<or> bb_operation_outcome_unknown (nb_payload n))
      then refuse (rf_command_id f) (Dispatch D_wait_terminal) s
      else call_dock_service r (rf_command_id f) Dock_reset_service s)"

text \<open>The refusals between the power commands and the barrier, in their order.\<close>

definition held_back :: "ros \<Rightarrow> frame_context \<Rightarrow> robot_frame \<Rightarrow> executor \<Rightarrow> dispatch_sentence option" where
  "held_back r c f s =
     (let command = rf_command f; places = {''navigate_to_pose'', ''set_initial_pose''} in
      if ex_lidar_pending s \<noteq> None \<and> command \<notin> {''stop'', ''motor_enable''} then Some D_lidar_pending
      else if ex_lidar_recovery s \<and> command \<in> places \<union> {''undock'', ''charge_release''} then Some D_lidar_recovery
      else if (case ex_lidar_completed s of None \<Rightarrow> False | Some done_at \<Rightarrow>
                 command \<notin> {''stop'', ''motor_enable''}
                 \<and> (case fc_base_age c of None \<Rightarrow> True | Some a \<Rightarrow> ro_now r - a \<le> done_at))
      then Some D_lidar_settling
      else if command \<in> places
              \<and> (case rf_goal f of None \<Rightarrow> True
                 | Some g \<Rightarrow> or_empty (rg_map_id g) = [] \<or> or_empty (rg_map_revision g) = [])
      then Some D_map_identity
      else if command = ''navigate_to_pose''
              \<and> (case rf_goal f of None \<Rightarrow> False | Some g \<Rightarrow>
                   (rg_map_id g, rg_map_revision g)
                   \<noteq> (case fc_base c of None \<Rightarrow> (None, None) | Some n \<Rightarrow> (nb_map_id n, nb_map_revision n)))
      then Some D_map_differs
      else None)"

definition perform :: "ros \<Rightarrow> frame_context \<Rightarrow> robot_frame \<Rightarrow> executor \<Rightarrow> executor" where
  "perform r c f s =
     (let cid = rf_command_id f; command = rf_command f; authorized = py_truth (rf_operator_authorized f) in
      if command = ''navigate_to_pose''
      then (case rf_goal f of None \<Rightarrow> s | Some g \<Rightarrow> navigate r cid g (fc_yaw c) s)
      else if command = ''stop'' then stop r cid s
      else if command = ''set_lidar_power'' then set_lidar_power r cid f (fc_base c) (fc_base_age c) s
      else if command = ''set_initial_pose''
      then (case rf_goal f of None \<Rightarrow> s | Some g \<Rightarrow> set_initial_pose r cid g authorized (rf_seed_profile f) s)
      else if command = ''undock'' then undock r cid authorized s
      else if command = ''charge_release'' then charge_release r cid s
      else refuse cid (Dispatch D_unknown_command) s)"

definition handle :: "ros \<Rightarrow> frame_context \<Rightarrow> robot_frame \<Rightarrow> executor \<Rightarrow> executor" where
  "handle r c f s =
     (let cid = rf_command_id f; command = rf_command f in
      if rf_seed_profile f \<noteq> None
         \<and> (command \<noteq> ''set_initial_pose'' \<or> rf_seed_profile f \<noteq> Some ''measured'')
      then refuse cid (Dispatch D_invalid_seed_profile) s
      else if command \<in> {''cancel'', ''cancel_map''} then handle_cancel r f s
      else if command \<in> {''motor_enable'', ''motor_disable''}
      then (if rf_operator_authorized f \<noteq> VBool True then refuse cid (Dispatch D_motor_unauthorized) s
            else if command = ''motor_disable'' then motor_disable r cid s
            else motor_enable r cid s)
      else if command = ''dock_reset'' then handle_dock_reset r c f s
      else case held_back r c f s of Some why \<Rightarrow> refuse cid (Dispatch why) s
      | None \<Rightarrow>
          if ex_map s \<noteq> None
          then (if command = ''stop''
                then check_map_then r (say [Ack cid True None, Result cid Succeeded (Dispatch D_map_cancel_requested)]) s
                else refuse cid (Dispatch D_map_owns) s)
          else case precheck command (rf_goal f \<noteq> None) (fc_base c) (fc_localized c) (fc_base_age c)
                      (py_truth (rf_allow_unlocalized f)) (fc_odom_age c) (py_truth (rf_operator_authorized f)) of
                 Some why \<Rightarrow> refuse cid (Gate why) s
               | None \<Rightarrow> perform r c f s)"

subsection \<open>Example frames\<close>

definition example_ros :: ros where
  "example_ros = \<lparr>ro_nav_ready = True, ro_map_ready = True, ro_path_ready = True, ro_undock = Some True,
     ro_service = (\<lambda>_. Some True), ro_lidar = Some True, ro_dock_pose = Some True,
     ro_cancel_raises = (\<lambda>_. False), ro_undock_raises = False, ro_lidar_raises = False,
     ro_connected = True, ro_now = 10, ro_undock_timeout_s = 180, ro_path_max_points = 100\<rparr>"

definition example_context :: "node_base \<Rightarrow> frame_context" where
  "example_context b = \<lparr>fc_base = Some b, fc_yaw = None, fc_localized = True, fc_base_age = Some (1/10),
     fc_odom_age = Some (1/10)\<rparr>"

definition example_frame :: "string \<Rightarrow> string \<Rightarrow> robot_frame" where
  "example_frame cid command = \<lparr>rf_command_id = cid, rf_command = command,
     rf_goal = Some \<lparr>rg_x = Fin 1, rg_y = Fin 2, rg_yaw = None, rg_map_id = Some ''lab'', rg_map_revision = Some ''r1''\<rparr>,
     rf_seed_profile = None, rf_allow_unlocalized = VNone, rf_operator_authorized = VBool True, rf_enabled = VNone\<rparr>"

definition example_handle :: "nat \<Rightarrow> goal_handle" where
  "example_handle n = \<lparr>gh_id = n, gh_accepted = True, gh_goal_id = [n]\<rparr>"

end
