(* ===== verification/Executor_Run.thy ===== *)
theory Executor_Run
  imports Bridge_Executor "HOL-Library.Multiset"
begin

text \<open>
  The robot's command executor as a transition system: command frames, ROS callbacks and timers in
  any order, with any answer; and what holds in every state they reach.
\<close>

subsection \<open>Steps of the executor\<close>

definition fired :: "callback \<Rightarrow> executor \<Rightarrow> executor" where
  "fired k s = s\<lparr>ex_calls := remove1 k (ex_calls s)\<rparr>"

inductive internal_step :: "executor \<Rightarrow> executor \<Rightarrow> bool" where
  is_nav_goal: "On_nav_goal cid g c n \<in> set (ex_calls s)
    \<Longrightarrow> internal_step s (on_goal_response r cid g c n h (fired (On_nav_goal cid g c n) s))"
| is_nav_result: "On_nav_result cid \<in> set (ex_calls s)
    \<Longrightarrow> internal_step s (on_nav_result cid nr (fired (On_nav_result cid) s))"
| is_nav_cancel: "On_nav_cancel uid \<in> set (ex_calls s)
    \<Longrightarrow> internal_step s (on_navigation_cancel_response uid cr (fired (On_nav_cancel uid) s))"
| is_stop_cancel: "On_stop_cancel cid \<in> set (ex_calls s)
    \<Longrightarrow> internal_step s (on_cancel_response cid cr (fired (On_stop_cancel cid) s))"
| is_undock_goal: "On_undock_goal cid g \<in> set (ex_calls s)
    \<Longrightarrow> internal_step s (on_undock_response r cid g h (fired (On_undock_goal cid g) s))"
| is_undock_result: "On_undock_result cid \<in> set (ex_calls s)
    \<Longrightarrow> internal_step s (on_undock_result r cid ur (fired (On_undock_result cid) s))"
| is_service: "On_service cid what \<in> set (ex_calls s)
    \<Longrightarrow> internal_step s (on_dock_service_result cid what sv (fired (On_service cid what) s))"
| is_lidar: "On_lidar cid \<in> set (ex_calls s)
    \<Longrightarrow> internal_step s (on_lidar_result r cid lr (fired (On_lidar cid) s))"
| is_map_goal: "On_map_goal uid \<in> set (ex_calls s)
    \<Longrightarrow> internal_step s (map_response r uid h (fired (On_map_goal uid) s))"
| is_map_result: "On_map_result uid \<in> set (ex_calls s)
    \<Longrightarrow> internal_step s (map_result uid mr (fired (On_map_result uid) s))"
| is_path: "On_path f uid \<in> set (ex_calls s)
    \<Longrightarrow> internal_step s (on_navigation_path r f uid pr (fired (On_path f uid) s))"
| is_feedback: "internal_step s (on_feedback r cid gid d s)"
| is_undock_feedback: "internal_step s (on_undock_feedback r cid stage s)"
| is_map_feedback: "internal_step s (map_feedback rid stage s)"
| is_health: "internal_step s (check_undock_health r s)"
| is_map_timer: "internal_step s (snd (check_map_connection r False s))"
| is_path_timer: "internal_step s (poll_navigation_path r s)"
| is_context: "internal_step s (update_navigation_context n s)"
| is_dock_pose: "internal_step s (snd (initialize_dock_pose r d s))"

text \<open>
  A run from a state: the frames handled since, oldest first, and the state reached. An exception ends
  the node.
\<close>

inductive bridge_run :: "executor \<Rightarrow> robot_frame list \<Rightarrow> executor \<Rightarrow> bool" for s0 :: executor where
  br_init: "bridge_run s0 [] s0"
| br_frame: "bridge_run s0 fs s \<Longrightarrow> Raised \<notin> set (ex_out s) \<Longrightarrow> bridge_run s0 (fs @ [f]) (handle r c f s)"
| br_internal: "bridge_run s0 fs s \<Longrightarrow> Raised \<notin> set (ex_out s) \<Longrightarrow> internal_step s s' \<Longrightarrow> bridge_run s0 fs s'"

abbreviation bridge_reachable :: "robot_frame list \<Rightarrow> executor \<Rightarrow> bool" where
  "bridge_reachable \<equiv> bridge_run executor_new"

text \<open>A cancel frame carries the id of the command it cancels; every other frame brings its own.\<close>

definition cancel_frame :: "robot_frame \<Rightarrow> bool" where
  "cancel_frame f = (rf_command f \<in> {''cancel'', ''cancel_map''})"

definition request_ids :: "robot_frame list \<Rightarrow> string list" where
  "request_ids fs = map rf_command_id (filter (\<lambda>f. \<not> cancel_frame f) fs)"

subsection \<open>What is owed a result\<close>

definition result_id :: "exec_out \<Rightarrow> string list" where
  "result_id x = (case x of Result cid oc d \<Rightarrow> [cid] | _ \<Rightarrow> [])"

definition result_ids :: "executor \<Rightarrow> string list" where
  "result_ids s = concat (map result_id (ex_out s))"

definition callback_id :: "callback \<Rightarrow> string list" where
  "callback_id k = (case k of On_nav_goal cid g c n \<Rightarrow> [cid] | On_service cid w \<Rightarrow> [cid]
     | On_lidar cid \<Rightarrow> [cid] | _ \<Rightarrow> [])"

definition nav_ids :: "nav_active option \<Rightarrow> string list" where
  "nav_ids x = (case x of None \<Rightarrow> [] | Some a \<Rightarrow> na_command_id a # na_stops a)"

definition undock_ids :: "undock_active option \<Rightarrow> string list" where
  "undock_ids x = (case x of None \<Rightarrow> [] | Some u \<Rightarrow> un_command_id u # un_stops u)"

definition map_ids :: "map_active option \<Rightarrow> string list" where
  "map_ids x = (case x of None \<Rightarrow> [] | Some m \<Rightarrow> [mp_command_id m])"

definition open_ids :: "executor \<Rightarrow> string list" where
  "open_ids s = nav_ids (ex_active s) @ undock_ids (ex_undock s) @ map_ids (ex_map s)
     @ concat (map callback_id (ex_calls s))"

text \<open>How often an id is reported or still owed a report.\<close>

definition weight :: "executor \<Rightarrow> string \<Rightarrow> nat" where
  "weight s x = count (mset (result_ids s)) x + count (mset (open_ids s)) x"

definition settled :: "executor \<Rightarrow> string set" where
  "settled s = set (all_stops s) \<union> set (result_ids s)"

text \<open>
  One step at most moves ids from owed to reported, apart from the ids in \<open>X\<close> it starts to owe, and
  never forgets a stop.
\<close>

definition accounts :: "string list \<Rightarrow> executor \<Rightarrow> executor \<Rightarrow> bool" where
  "accounts X s s' \<longleftrightarrow> (\<forall>x. weight s' x \<le> weight s x + count (mset X) x) \<and> settled s \<subseteq> settled s'"

lemma accounts_refl [simp]: "accounts [] s s"
  by (simp add: accounts_def)

lemma accounts_trans: "accounts X s t \<Longrightarrow> accounts [] t u \<Longrightarrow> accounts X s u"
  unfolding accounts_def by (fastforce intro: order_trans)

lemma accounts_then: "accounts [] s t \<Longrightarrow> accounts X t u \<Longrightarrow> accounts X s u"
  unfolding accounts_def by (fastforce intro: order_trans)

lemma accounts_mono: "accounts [] s s' \<Longrightarrow> accounts X s s'"
  by (fastforce simp: accounts_def intro: order_trans)

lemmas account_defs = accounts_def weight_def settled_def open_ids_def result_ids_def result_id_def
  callback_id_def nav_ids_def undock_ids_def map_ids_def all_stops_def

lemma ids_say [simp]:
  "result_ids (say os s) = result_ids s @ concat (map result_id os)"
  "open_ids (say os s) = open_ids s" "all_stops (say os s) = all_stops s"
  by (simp_all add: result_ids_def open_ids_def all_stops_def say_def)

lemma ids_await [simp]:
  "result_ids (await k s) = result_ids s" "open_ids (await k s) = open_ids s @ callback_id k"
  "all_stops (await k s) = all_stops s"
  by (simp_all add: result_ids_def open_ids_def all_stops_def await_def)

lemma fields_into:
  assumes "accounts X s t" "result_ids u = result_ids t" "open_ids u = open_ids t" "all_stops u = all_stops t"
  shows "accounts X s u"
  using assms by (simp add: accounts_def weight_def settled_def)

text \<open>Rules that follow the way the handlers are put together.\<close>

lemma say_into: "accounts X s t \<Longrightarrow> concat (map result_id os) = [] \<Longrightarrow> accounts X s (say os t)"
  by (erule fields_into) simp_all

lemma await_into: "accounts X s t \<Longrightarrow> callback_id k = [] \<Longrightarrow> accounts X s (await k t)"
  by (erule fields_into) simp_all

lemma refuse_into: "accounts X s t \<Longrightarrow> accounts X s (refuse cid why t)"
  unfolding refuse_def by (rule say_into) (simp_all add: result_id_def)

lemma cancel_into: "accounts X s t \<Longrightarrow> accounts X s (snd (cancel_goal r h t))"
  by (auto simp: cancel_goal_def result_id_def intro: say_into)

lemma cancel_case_into:
  assumes "\<And>v. accounts X s v \<Longrightarrow> accounts X s (f v)" "\<And>v. accounts X s v \<Longrightarrow> accounts X s (g v)" "accounts X s t"
  shows "accounts X s (case cancel_goal r h t of (True, v) \<Rightarrow> f v | (False, v) \<Rightarrow> g v)"
  using assms(1) [OF say_into [OF assms(3)]] assms(2,3) by (simp add: cancel_goal_def result_id_def)

lemma cancel_then_into:
  assumes "accounts X s t" "\<And>v. accounts X s v \<Longrightarrow> accounts X s (rest v)"
  shows "accounts X s (cancel_then r h rest t)"
  unfolding cancel_then_def using assms by (intro cancel_case_into) (auto intro: say_into simp: result_id_def)

lemma active_into:
  "accounts X s t \<Longrightarrow> ex_active t = Some a \<Longrightarrow> na_command_id a' = na_command_id a \<Longrightarrow> na_stops a' = na_stops a
   \<Longrightarrow> accounts X s (t\<lparr>ex_active := Some a'\<rparr>)"
  by (erule fields_into) (simp_all add: result_ids_def open_ids_def all_stops_def nav_ids_def)

lemma undock_into:
  "accounts X s t \<Longrightarrow> ex_undock t = Some u \<Longrightarrow> un_command_id u' = un_command_id u \<Longrightarrow> un_stops u' = un_stops u
   \<Longrightarrow> accounts X s (t\<lparr>ex_undock := Some u'\<rparr>)"
  by (erule fields_into) (simp_all add: result_ids_def open_ids_def all_stops_def undock_ids_def)

text \<open>Every part of \<open>weight\<close> and \<open>settled\<close> reads these fields only.\<close>

lemma other_into:
  assumes "accounts X s t" "ex_out u = ex_out t" "ex_active u = ex_active t" "ex_undock u = ex_undock t" "ex_map u = ex_map t" "ex_calls u = ex_calls t"
  shows "accounts X s u"
  using assms(1) by (rule fields_into) (use assms(2-) in \<open>simp_all add: result_ids_def open_ids_def all_stops_def\<close>)

lemma clear_path_ids [simp]:
  "result_ids (clear_path s) = result_ids s" "open_ids (clear_path s) = open_ids s" "all_stops (clear_path s) = all_stops s"
  by (auto simp: clear_path_def say_def result_ids_def open_ids_def all_stops_def nav_ids_def result_id_def split: option.split)

lemma clear_path_into: "accounts X s t \<Longrightarrow> accounts X s (clear_path t)"
  by (erule fields_into) simp_all

lemmas into = say_into await_into refuse_into cancel_into clear_path_into

subsection \<open>Navigation and undock requests\<close>

lemma context_accounts: "accounts [] s (update_navigation_context n s)"
  by (auto simp: update_navigation_context_def Let_def split: option.split
      intro!: clear_path_into other_into [OF accounts_refl] active_into)

lemma nav_cancel_response_into: "accounts X s t \<Longrightarrow> accounts X s (on_navigation_cancel_response uid cr t)"
  by (auto simp: on_navigation_cancel_response_def result_id_def split: option.split intro!: say_into active_into)

lemma cancel_undock_into: "accounts X s t \<Longrightarrow> ex_undock t = Some u \<Longrightarrow> accounts X s (cancel_undock r u t)"
  by (auto simp: cancel_undock_def Let_def result_id_def split: option.split intro!: cancel_case_into say_into undock_into)

lemma mark_pending_into: "accounts X s t \<Longrightarrow> accounts X s (mark_pending_cancel cid t)"
  by (auto simp: mark_pending_cancel_def split: option.split intro: other_into)

lemma cancel_active_into: "accounts X s t \<Longrightarrow> accounts X s (cancel_active r cid t)"
  by (auto simp: cancel_active_def Let_def result_id_def callback_id_def split: option.split
      intro!: cancel_case_into await_into nav_cancel_response_into say_into clear_path_into active_into)

lemma cancel_navigation_into: "accounts X s t \<Longrightarrow> accounts X s (cancel_navigation r cid t)"
  unfolding cancel_navigation_def
  by (auto split: option.split intro: cancel_undock_into cancel_active_into mark_pending_into)

lemma await_owing: "accounts [] s t \<Longrightarrow> callback_id k = [cid] \<Longrightarrow> accounts [cid] s (await k t)"
  by (fastforce simp: accounts_def weight_def settled_def)

lemma navigate_accounts: "accounts [cid] s (navigate r cid g y s)"
proof -
  have "accounts [] s (clear_path s\<lparr>ex_nav_generation := n, ex_nav_pending := q\<rparr>)" for n q
    by (rule other_into [OF clear_path_into [OF accounts_refl]]) simp_all
  then show ?thesis
    unfolding navigate_def Let_def
    by (intro branches(1) [of "accounts [cid] s"] accounts_mono [OF refuse_into] accounts_refl await_owing say_into)
       (simp_all add: callback_id_def result_id_def)
qed

lemma fired_accounts:
  assumes "k \<in> set (ex_calls s)"
  shows "result_ids (fired k s) = result_ids s" "all_stops (fired k s) = all_stops s"
    "count (mset (open_ids (fired k s))) x + count (mset (callback_id k)) x = count (mset (open_ids s)) x"
proof -
  obtain xs ys where "ex_calls s = xs @ k # ys" "k \<notin> set xs" using assms by (meson split_list_first)
  then show "count (mset (open_ids (fired k s))) x + count (mset (callback_id k)) x = count (mset (open_ids s)) x"
    by (simp add: fired_def open_ids_def remove1_append)
qed (simp_all add: fired_def result_ids_def all_stops_def)

lemma fired_weight:
  "k \<in> set (ex_calls s) \<Longrightarrow> weight (fired k s) x + count (mset (callback_id k)) x = weight s x"
  using fired_accounts(1,3) [of k s] by (simp add: weight_def)

lemma fired_settled: "k \<in> set (ex_calls s) \<Longrightarrow> settled (fired k s) = settled s"
  by (simp add: settled_def fired_accounts)

lemma fired_into:
  assumes "k \<in> set (ex_calls s)" shows "accounts [] s (fired k s)"
proof -
  have "weight (fired k s) x \<le> weight s x" for x using fired_weight [OF assms, of x] by linarith
  then show ?thesis using fired_settled [OF assms] by (simp add: accounts_def)
qed

text \<open>A fired callback pays for one result with its id.\<close>

lemma fired_pays:
  assumes "k \<in> set (ex_calls s)" "callback_id k = [cid]" "accounts [cid] (fired k s) t"
  shows "accounts [] s t"
proof -
  have "weight t x \<le> weight s x" for x
    using assms(3) fired_weight [OF assms(1), of x] assms(2) unfolding accounts_def by (metis add.commute)
  then show ?thesis using assms(3) fired_settled [OF assms(1)] by (simp add: accounts_def)
qed

subsection \<open>Stops\<close>

lemma remove1_only: "x \<in> set xs \<Longrightarrow> x \<notin> set (remove1 a xs) \<Longrightarrow> x = a"
  by (metis in_set_remove1)

lemma claim_stop_cases:
  obtains (claimed) s' where "claim_stop cid s = (True, s')" "result_ids s' = result_ids s"
    "\<And>x. count (mset (open_ids s')) x + count (mset [cid]) x = count (mset (open_ids s)) x"
    "set (all_stops s) \<subseteq> insert cid (set (all_stops s'))"
  | (quiet) "claim_stop cid s = (False, s)"
proof (cases "cid \<in> set (all_stops s)")
  case False
  then have "claim_stop cid s = (False, s)"
    by (auto simp: claim_stop_def claim_undock_stop_def all_stops_def split: option.split)
  then show ?thesis by (rule quiet)
next
  case True
  define s' where "s' = snd (claim_stop cid s)"
  note defs = claim_stop_def claim_undock_stop_def all_stops_def open_ids_def nav_ids_def undock_ids_def
  have "claim_stop cid s = (True, s')" "result_ids s' = result_ids s"
    using True unfolding s'_def
    by (cases "ex_active s"; cases "ex_undock s"; force simp: defs result_ids_def)+
  moreover have "count (mset (open_ids s')) x + count (mset [cid]) x = count (mset (open_ids s)) x" for x
    using True unfolding s'_def
    by (cases "ex_active s"; cases "ex_undock s") (auto simp: defs)
  moreover have "set (all_stops s) \<subseteq> insert cid (set (all_stops s'))"
    using True unfolding s'_def
    by (cases "ex_active s"; cases "ex_undock s") (auto simp: defs dest: remove1_only)
  ultimately show ?thesis by (rule claimed)
qed

lemma report_claimed:
  assumes "claim_stop cid t = (True, t')" "accounts X s t"
  shows "accounts X s (say [Result cid oc d] t')"
  using assms(1)
proof (cases rule: claim_stop_cases [of cid t])
  case (claimed t'')
  have "weight (say [Result cid oc d] t') x = weight t x" for x
    using claimed(1,2) claimed(3) [of x] assms(1) by (simp add: weight_def result_id_def split: if_splits)
  moreover have "settled t \<subseteq> settled (say [Result cid oc d] t')"
    using claimed assms(1) by (auto simp: settled_def result_id_def)
  ultimately show ?thesis using assms(2) unfolding accounts_def by auto
qed simp

lemma fail_stop_into: "accounts X s t \<Longrightarrow> accounts X s (fail_stop cid why t)"
  by (cases rule: claim_stop_cases [of cid t]) (auto simp: fail_stop_def report_claimed)

lemma fail_stops_into: "accounts X s t \<Longrightarrow> accounts X s (foldl (\<lambda>v c. fail_stop c why v) t cs)"
  by (induction cs arbitrary: t) (simp_all add: fail_stop_into)

lemma on_cancel_response_into: "accounts X s t \<Longrightarrow> accounts X s (on_cancel_response cid rp t)"
  by (cases rule: claim_stop_cases [of cid t])
    (auto simp: on_cancel_response_def report_claimed fail_stop_into split: option.split verdict.split)

lemma say_owing: "accounts [] s t \<Longrightarrow> concat (map result_id os) = [cid] \<Longrightarrow> accounts [cid] s (say os t)"
  by (fastforce simp: accounts_def weight_def settled_def)

lemma active_owing:
  assumes "accounts [] s t" "ex_active t = Some a" "na_command_id a' = na_command_id a" "na_stops a' = na_stops a @ [cid]"
  shows "accounts [cid] s (t\<lparr>ex_active := Some a'\<rparr>)"
proof -
  have "weight (t\<lparr>ex_active := Some a'\<rparr>) x = weight t x + count (mset [cid]) x" for x
    using assms(2-4) by (simp add: weight_def open_ids_def result_ids_def nav_ids_def)
  moreover have "settled t \<subseteq> settled (t\<lparr>ex_active := Some a'\<rparr>)"
    using assms(2-4) by (auto simp: settled_def all_stops_def result_ids_def)
  ultimately show ?thesis using assms(1) by (auto simp: accounts_def)
qed

lemma undock_owing:
  assumes "accounts [] s t" "ex_undock t = Some a" "un_command_id a' = un_command_id a" "un_stops a' = un_stops a @ [cid]"
  shows "accounts [cid] s (t\<lparr>ex_undock := Some a'\<rparr>)"
proof -
  have "weight (t\<lparr>ex_undock := Some a'\<rparr>) x = weight t x + count (mset [cid]) x" for x
    using assms(2-4) by (simp add: weight_def open_ids_def result_ids_def undock_ids_def)
  moreover have "settled t \<subseteq> settled (t\<lparr>ex_undock := Some a'\<rparr>)"
    using assms(2-4) by (auto simp: settled_def all_stops_def result_ids_def)
  ultimately show ?thesis using assms(1) by (auto simp: accounts_def)
qed

lemma stop_accounts: "accounts [cid] s (stop r cid s)"
proof -
  let ?s = "say [Ack cid True None] s"
  have ack: "accounts [] s ?s" by (rule say_into) (simp_all add: result_id_def)
  show ?thesis
  proof (cases "ex_undock s")
    case (Some u)
    then have "ex_undock ?s = Some u" by (simp add: say_def)
    from undock_owing [OF ack this] have
      "accounts [cid] s (?s\<lparr>ex_undock := Some (u\<lparr>un_cancel_requested := True, un_stops := un_stops u @ [cid]\<rparr>)\<rparr>)" by simp
    then show ?thesis
      using Some unfolding stop_def Let_def
      by (auto simp: say_def [of _ s] callback_id_def split: option.split
          intro!: cancel_case_into fail_stop_into await_into)
  next
    case None
    show ?thesis
    proof (cases "ex_active s")
      case (Some a)
      then have "ex_active ?s = Some a" by (simp add: say_def)
      from active_owing [OF ack this] have
        "accounts [cid] s (?s\<lparr>ex_active := Some (a\<lparr>na_cancel_requested := True, na_path_blocked := True,
           na_stops := na_stops a @ [cid]\<rparr>)\<rparr>)" by simp
      then show ?thesis
        using Some None unfolding stop_def Let_def
        by (auto simp: say_def [of _ s] callback_id_def split: option.split
            intro!: cancel_case_into fail_stop_into await_into clear_path_into)
    next
      case n: None
      then show ?thesis
        using None ack by (auto simp: stop_def Let_def result_id_def say_def [of _ s] intro!: say_owing)
    qed
  qed
qed

subsection \<open>Goals that start and end\<close>

lemma report_stops_ids [simp]: "concat (map result_id (report_stops oc cs)) = cs"
  by (induction cs) (auto simp: report_stops_def result_id_def)

lemma failed_ids [simp]: "concat (map (result_id \<circ> (\<lambda>c. Result c oc d)) cs) = cs"
  by (induction cs) (auto simp: result_id_def)

text \<open>A change that reports exactly what it stops owing.\<close>

lemma exchange:
  assumes "accounts [] s t"
    and "\<And>x. count (mset (result_ids u)) x + count (mset (open_ids u)) x
             \<le> count (mset (result_ids t)) x + count (mset (open_ids t)) x + count (mset X) x"
    and "settled t \<subseteq> settled u"
  shows "accounts X s u"
proof -
  have "weight u x \<le> weight s x + count (mset X) x" for x
    using assms(1) assms(2) [of x] by (fastforce simp: accounts_def weight_def dest: spec [of _ x])
  then show ?thesis using assms(1,3) by (auto simp: accounts_def)
qed

lemma accounts_refl_any [simp]: "accounts X s s"
  by (rule accounts_mono) simp

lemma install_goal_accounts: "accounts [cid] s (install_goal cid h s)"
proof -
  have ids: "result_ids (install_goal cid h s) = result_ids s @ nav_ids (ex_active s)"
    "open_ids (install_goal cid h s) = cid # undock_ids (ex_undock s) @ map_ids (ex_map s) @ concat (map callback_id (ex_calls s))"
    "all_stops (install_goal cid h s) = (case ex_undock s of None \<Rightarrow> [] | Some u \<Rightarrow> un_stops u)"
    by (auto simp: install_goal_def Let_def clear_path_def clear_pending_def replaced_def say_def await_def result_ids_def
        open_ids_def all_stops_def nav_ids_def result_id_def callback_id_def split: option.split)
  show ?thesis
    by (rule exchange [OF accounts_refl])
      (auto simp: ids settled_def, auto simp: open_ids_def all_stops_def nav_ids_def split: option.splits)
qed

lemma goal_response_accounts: "accounts [cid] s (on_goal_response r cid g c n h s)"
proof -
  have pend: "accounts [] s (clear_pending cid s)"
    by (rule other_into [OF accounts_refl]) (simp_all add: clear_pending_def)
  show ?thesis
    unfolding on_goal_response_def Let_def
    by (auto split: option.split
        intro!: cancel_navigation_into install_goal_accounts accounts_mono [OF cancel_then_into] refuse_into
          accounts_mono [OF refuse_into [OF pend]] accounts_mono [OF refuse_into [OF accounts_refl]])
qed

lemma nav_result_into: "accounts [] s (on_nav_result cid nr s)"
proof (cases "ex_active s")
  case (Some a)
  define t where "t = (clear_path (s\<lparr>ex_active := Some (a\<lparr>na_stops := []\<rparr>)\<rparr>))\<lparr>ex_active := None\<rparr>"
  have t: "result_ids t = result_ids s" "\<And>x. count (mset (open_ids t)) x + count (mset (na_command_id a # na_stops a)) x = count (mset (open_ids s)) x"
    using Some by (auto simp: t_def clear_path_def say_def result_ids_def all_stops_def open_ids_def nav_ids_def result_id_def)
  have s: "set (all_stops s) \<subseteq> set (all_stops t) \<union> set (na_stops a)"
    using Some by (auto simp: t_def clear_path_def say_def all_stops_def)
  have "accounts [] s (say (Result (na_command_id a) oc d # report_stops oc' (na_stops a)) t)" for oc d oc'
    by (rule exchange [OF accounts_refl]) (use t(1) t(2) [symmetric] s in \<open>auto simp: settled_def result_id_def\<close>)
  then show ?thesis
    using Some by (auto simp: on_nav_result_def Let_def t_def split: option.split)
qed (simp add: on_nav_result_def)

lemma fail_undock_into: "accounts X s t \<Longrightarrow> accounts X s (fail_undock r t)"
  by (auto simp: fail_undock_def result_id_def split: option.split
      intro!: say_into cancel_navigation_into undock_into)

lemma undock_accounts: "accounts [cid] s (undock r cid a s)"
proof -
  have "accounts [cid] s (await (On_undock_goal cid g) (say [Undock_goal cid] (s\<lparr>ex_undock := Some u\<rparr>)))"
    if "ex_undock s = None" "un_command_id u = cid" "un_stops u = []" for u g
    by (rule exchange [OF accounts_refl])
      (use that in \<open>auto simp: settled_def result_ids_def open_ids_def all_stops_def say_def await_def undock_ids_def
         callback_id_def result_id_def\<close>)
  then show ?thesis
    by (auto simp: undock_def intro!: accounts_mono [OF refuse_into])
qed

text \<open>Closing the undock with reports for its stops.\<close>

lemma close_undock_accounts:
  assumes "ex_undock s = Some u" "\<And>x. count (mset (concat (map result_id os))) x \<le> count (mset (undock_ids (Some u))) x"
    "set (un_stops u) \<subseteq> set (concat (map result_id os))"
  shows "accounts [] s (say os (s\<lparr>ex_undock := None\<rparr>))"
proof -
  have "count (mset (result_ids (say os (s\<lparr>ex_undock := None\<rparr>)))) x + count (mset (open_ids (say os (s\<lparr>ex_undock := None\<rparr>)))) x
    \<le> count (mset (result_ids s)) x + count (mset (open_ids s)) x" for x
    using assms(1) assms(2) [of x] by (simp add: say_def result_ids_def open_ids_def undock_ids_def split: if_splits)
  moreover have "settled s \<subseteq> settled (say os (s\<lparr>ex_undock := None\<rparr>))"
    using assms(1,3) by (auto simp: say_def settled_def all_stops_def result_ids_def)
  ultimately show ?thesis using exchange [OF accounts_refl, of "say os (s\<lparr>ex_undock := None\<rparr>)" s "[]"] by simp
qed

lemma undock_result_into: "accounts [] s (on_undock_result r cid ur s)"
  by (auto simp: on_undock_result_def Let_def undock_ids_def result_id_def split: option.split
      intro!: close_undock_accounts fail_undock_into)

lemma undock_response_into: "accounts [] s (on_undock_response r cid g h s)"
proof (cases "ex_undock s")
  case None
  then show ?thesis by (auto simp: on_undock_response_def split: option.split intro!: cancel_then_into)
next
  case (Some u)
  have closed: "accounts [] s (say (Ack cid False (Some d) # map (\<lambda>c. Result c Succeeded e) (un_stops u)) (s\<lparr>ex_undock := None\<rparr>))" for d e
    by (rule close_undock_accounts [OF Some]) (simp_all add: undock_ids_def result_id_def)
  have opened: "accounts [] s (say [Ack k True None]
      (s\<lparr>ex_undock := Some (u\<lparr>un_cancel_requested := b, un_handle := Some h\<rparr>), ex_undock_misses := 0\<rparr>))" for b h k
    by (intro say_into other_into [OF undock_into [OF accounts_refl Some]])
      (simp_all add: result_id_def)
  show ?thesis
    using Some unfolding on_undock_response_def Let_def
    by (auto simp: callback_id_def split: option.split list.split
        intro!: cancel_then_into fail_undock_into closed opened cancel_case_into fail_stops_into await_into)
qed

lemma health_into: "accounts [] s (check_undock_health r s)"
  by (auto simp: check_undock_health_def Let_def split: option.split
      intro!: fail_undock_into other_into [OF accounts_refl])

subsection \<open>Map localization, services and LiDAR power\<close>

lemma map_into:
  "accounts X s t \<Longrightarrow> ex_map t = Some m \<Longrightarrow> mp_command_id m' = mp_command_id m \<Longrightarrow> accounts X s (t\<lparr>ex_map := Some m'\<rparr>)"
  by (erule fields_into) (simp_all add: result_ids_def open_ids_def all_stops_def map_ids_def)

lemma map_connection_into: "accounts X s t \<Longrightarrow> accounts X s (snd (check_map_connection r asked t))"
  by (auto simp: check_map_connection_def Let_def split: option.split intro!: cancel_into map_into)

lemma map_then_into:
  assumes "accounts X s t" "\<And>v. accounts X s v \<Longrightarrow> accounts X s (rest v)" "\<And>v. accounts X s v \<Longrightarrow> accounts X s (say [Raised] v)"
  shows "accounts X s (check_map_then r rest t)"
  using map_connection_into [OF assms(1), of r True] assms(2,3)
  by (auto simp: check_map_then_def split: prod.split bool.split)

lemma close_map_accounts:
  assumes "ex_map s = Some m" "concat (map result_id os) = [] \<or> concat (map result_id os) = [mp_command_id m]"
  shows "accounts [] s (say os (s\<lparr>ex_map := None\<rparr>))"
proof -
  define xs where "xs = concat (map result_id os)"
  have "result_ids (say os (s\<lparr>ex_map := None\<rparr>)) = result_ids s @ xs"
    by (simp add: say_def result_ids_def xs_def)
  moreover have "open_ids (say os (s\<lparr>ex_map := None\<rparr>)) =
      nav_ids (ex_active s) @ undock_ids (ex_undock s) @ concat (map callback_id (ex_calls s))"
    by (simp add: say_def open_ids_def map_ids_def)
  moreover have "xs = [] \<or> xs = [mp_command_id m]" using assms(2) by (simp only: xs_def)
  ultimately have "weight (say os (s\<lparr>ex_map := None\<rparr>)) x \<le> weight s x" for x
    using assms(1) by (auto simp: weight_def open_ids_def map_ids_def)
  then show ?thesis by (auto simp: accounts_def settled_def say_def result_ids_def all_stops_def)
qed

lemma set_initial_pose_accounts: "accounts [cid] s (set_initial_pose r cid g a p s)"
proof -
  have "accounts [cid] s (await (On_map_goal n) (say [Map_goal w x y z] (s\<lparr>ex_map := Some m, ex_next := k\<rparr>)))"
    if "mp_command_id m = cid" for n w x y z m k
    by (rule exchange [OF accounts_refl])
      (use that in \<open>auto simp: settled_def result_ids_def open_ids_def all_stops_def say_def await_def map_ids_def
         callback_id_def result_id_def\<close>)
  then show ?thesis
    by (auto simp: set_initial_pose_def Let_def intro!: accounts_mono [OF refuse_into [OF accounts_refl]])
qed

lemma map_response_into: "accounts [] s (map_response r uid h s)"
proof (cases "ex_map s")
  case (Some m)
  have opened: "accounts [] s (await (On_map_result uid) (say [Ack (mp_command_id m) True None] (s\<lparr>ex_map := Some (m\<lparr>mp_handle := Some h\<rparr>)\<rparr>)))" for h
    by (intro await_into say_into map_into [OF accounts_refl Some]) (simp_all add: result_id_def callback_id_def)
  have failed: "accounts [] s (say [Result (mp_command_id m) oc d] (t\<lparr>ex_map := None\<rparr>))"
    if "accounts [] s t" "ex_map t = Some (m\<lparr>mp_handle := h\<rparr>)" for t oc d h
    by (rule accounts_trans [OF that(1) close_map_accounts [OF that(2)]]) (simp add: result_id_def)
  show ?thesis
  proof (cases "mp_uid m = uid \<and> (\<exists>g. h = Some g \<and> gh_accepted g)")
    case False
    then show ?thesis
      using Some by (auto simp: map_response_def result_id_def split: option.split intro!: close_map_accounts)
  next
    case True
    then obtain g where g: "mp_uid m = uid" "h = Some g" "gh_accepted g" by auto
    let ?t = "await (On_map_result uid) (say [Ack (mp_command_id m) True None] (s\<lparr>ex_map := Some (m\<lparr>mp_handle := Some g\<rparr>)\<rparr>))"
    have "ex_map ?t = Some (m\<lparr>mp_handle := Some g\<rparr>)" by (simp add: await_def say_def)
    from failed [OF opened this] say_into [OF opened, of "[Cancel_goal (gh_id g)]" g] opened [of g] show ?thesis
      using Some g by (simp add: map_response_def Let_def cancel_goal_def result_id_def)
  qed
qed (simp add: map_response_def)

lemma map_result_into: "accounts [] s (map_result uid mr s)"
proof (cases "ex_map s")
  case (Some m)
  have "(say os s)\<lparr>ex_map := None\<rparr> = say os (s\<lparr>ex_map := None\<rparr>)" for os by (simp add: say_def)
  then show ?thesis
    using Some by (auto simp: map_result_def result_id_def split: option.split intro!: close_map_accounts)
qed (simp add: map_result_def)

lemma service_accounts: "accounts [cid] s (call_dock_service r cid what s)"
  by (auto simp: call_dock_service_def callback_id_def result_id_def split: option.split bool.split
      intro!: accounts_mono [OF refuse_into [OF accounts_refl]] await_owing say_into)

lemma service_result_accounts: "accounts [cid] s (on_dock_service_result cid what sv s)"
  by (auto simp: on_dock_service_result_def Let_def result_id_def split: option.split
      intro!: accounts_mono [OF refuse_into [OF accounts_refl]] say_owing say_into [where X = "[]"])

lemma lidar_accounts: "accounts [cid] s (set_lidar_power r cid f b a s)"
  by (auto simp: set_lidar_power_def Let_def result_id_def callback_id_def split: pyval.split
      intro!: accounts_mono [OF refuse_into [OF accounts_refl]] await_owing say_into [where X = "[]"] say_owing other_into [OF accounts_refl])

lemma lidar_result_accounts: "accounts [cid] s (on_lidar_result r cid lr s)"
proof -
  have u1: "accounts [] s (s\<lparr>ex_lidar_pending := p, ex_lidar_completed := q\<rparr>)" for p q
    by (rule other_into [OF accounts_refl]) simp_all
  have u2: "accounts [] s (s\<lparr>ex_lidar_pending := p, ex_lidar_completed := q, ex_lidar_recovery := b\<rparr>)" for p q b
    by (rule other_into [OF accounts_refl]) simp_all
  show ?thesis
    by (auto simp: on_lidar_result_def Let_def result_id_def split: option.split
        intro: say_owing [OF accounts_refl] say_owing [OF u1] say_owing [OF u2] say_owing [OF say_into [OF u1]]
          say_owing [OF say_into [OF u2]] accounts_mono [OF say_into [OF u1]] accounts_mono [OF say_into [OF u2]])
qed

subsection \<open>Frames and timers\<close>

lemma halt_active_into: "accounts X s t \<Longrightarrow> accounts X s (halt_active r t)"
  by (auto simp: halt_active_def split: option.split intro!: cancel_into active_into)

lemma halt_undock_into: "accounts X s t \<Longrightarrow> accounts X s (halt_undock r t)"
  by (auto simp: halt_undock_def Let_def split: option.split intro!: cancel_into undock_into)

lemma block_path_into: "accounts X s t \<Longrightarrow> accounts X s (block_path t)"
  by (auto simp: block_path_def split: option.split intro!: clear_path_into active_into)

lemma motor_disable_accounts: "accounts [cid] s (motor_disable r cid s)"
proof -
  have "accounts [] s (block_path s\<lparr>ex_motor_generation := n\<rparr>)" for n
    by (rule other_into [OF block_path_into [OF accounts_refl]]) simp_all
  from this service_accounts have "accounts [cid] s (call_dock_service r cid w (block_path s\<lparr>ex_motor_generation := n\<rparr>))" for w n
    by (rule accounts_then)
  then show ?thesis
    unfolding motor_disable_def Let_def by (intro halt_undock_into halt_active_into map_connection_into)
qed

lemma handle_accounts: "accounts (if cancel_frame f then [] else [rf_command_id f]) s (handle r c f s)"
proof (cases "cancel_frame f")
  case True
  have "accounts [] s (handle_cancel r f s)"
    unfolding handle_cancel_def Let_def
    by (auto split: option.split intro!: map_then_into cancel_navigation_into say_into simp: result_id_def)
  then show ?thesis using True by (auto simp: handle_def Let_def cancel_frame_def intro!: refuse_into)
next
  case False
  note no = accounts_mono [OF refuse_into [OF accounts_refl]]
  have reset: "accounts [rf_command_id f] s (handle_dock_reset r c f s)"
    by (auto simp: handle_dock_reset_def intro!: no service_accounts)
  have release: "accounts [cid] s (charge_release r cid s)" "accounts [cid] s (motor_enable r cid s)" for cid
    by (auto simp: charge_release_def motor_enable_def result_id_def intro!: no service_accounts accounts_mono [OF say_into [OF accounts_refl]])
  have perform: "accounts [rf_command_id f] s (perform r c f s)"
    by (auto simp: perform_def Let_def split: option.split
        intro!: no navigate_accounts stop_accounts lidar_accounts set_initial_pose_accounts undock_accounts release)
  have held: "accounts [cid] s (check_map_then r (say [Ack cid True None, Result cid Succeeded d]) s)" for cid d
    using map_connection_into [OF accounts_refl, of s r True]
    by (auto simp: check_map_then_def result_id_def split: prod.split bool.split
        intro: say_owing accounts_mono [OF say_into])
  show ?thesis
    using False unfolding handle_def Let_def cancel_frame_def
    by (auto split: option.split intro!: no reset release perform held motor_disable_accounts)
qed

lemma path_into: "accounts [] s (on_navigation_path r f uid pr s)"
proof -
  have "accounts [] s (snd (navigation_path r g p s))" for g p
    by (auto simp: navigation_path_def Let_def result_id_def split: option.split intro!: say_into active_into)
  moreover have "accounts [] s (say [Path_sent q] (u\<lparr>ex_last_path := z\<rparr>))" if "accounts [] s u" for q u z
    by (rule say_into [OF other_into [OF that]]) (simp_all add: result_id_def)
  ultimately show ?thesis
    by (auto simp: on_navigation_path_def split: option.split prod.split intro!: clear_path_into) (metis snd_conv)+
qed

lemma poll_into: "accounts [] s (poll_navigation_path r s)"
proof -
  have ask: "accounts [] s (ask_path r t)" if "accounts [] s t" for t
  proof -
    have "accounts [] s (await (On_path n m) (say [Path_request g] (t\<lparr>ex_path_sent := x, ex_path_future := y, ex_next := z\<rparr>)))" for n m g x y z
      by (intro await_into say_into other_into [OF that]) (simp_all add: result_id_def callback_id_def)
    then show ?thesis using that by (auto simp: ask_path_def Let_def split: option.split intro!: clear_path_into)
  qed
  have "concat (map callback_id (filter (\<lambda>k. \<not> path_callback n k) ks)) = concat (map callback_id ks)" for n ks
    by (induction ks) (auto simp: path_callback_def callback_id_def split: callback.splits)
  then have "accounts [] s (s\<lparr>ex_calls := filter (\<lambda>k. \<not> path_callback n k) (ex_calls s), ex_path_future := y\<rparr>)" for n y
    by (intro fields_into [OF accounts_refl]) (simp_all add: result_ids_def open_ids_def all_stops_def)
  then show ?thesis
    by (auto simp: poll_navigation_path_def split: option.split intro!: ask clear_path_into)
qed

lemma progress_into:
  "accounts [] s (on_feedback r cid gid d s)" "accounts [] s (on_undock_feedback r cid stage s)"
  "accounts [] s (map_feedback rid stage s)" "accounts [] s (snd (initialize_dock_pose r d' s))"
  by (auto simp: on_feedback_def on_undock_feedback_def map_feedback_def initialize_dock_pose_def Let_def result_id_def
      split: option.split intro!: say_into other_into [OF accounts_refl])

lemma internal_accounts: "internal_step s s' \<Longrightarrow> accounts [] s s'"
proof (induction rule: internal_step.induct)
  case (is_nav_goal cid g c n s r h)
  then show ?case by (rule fired_pays) (simp add: callback_id_def, rule goal_response_accounts)
next
  case (is_service cid what s sv)
  then show ?case by (rule fired_pays) (simp add: callback_id_def, rule service_result_accounts)
next
  case (is_lidar cid s r lr)
  then show ?case by (rule fired_pays) (simp add: callback_id_def, rule lidar_result_accounts)
next
  case (is_nav_cancel uid s cr)
  then show ?case by (intro nav_cancel_response_into fired_into)
next
  case (is_stop_cancel cid s cr)
  then show ?case by (intro on_cancel_response_into fired_into)
qed (auto intro: accounts_trans [OF fired_into] nav_result_into undock_response_into undock_result_into map_response_into
    map_result_into path_into health_into poll_into progress_into context_accounts map_connection_into [OF accounts_refl])

subsection \<open>What every reachable state accounts for\<close>

lemma reachable_weight:
  "bridge_reachable fs s \<Longrightarrow> weight s x \<le> count (mset (request_ids fs)) x"
proof (induction rule: bridge_run.induct)
  case br_init
  then show ?case by (simp add: weight_def result_ids_def open_ids_def executor_new_def nav_ids_def undock_ids_def map_ids_def)
next
  case (br_frame fs s f r c)
  then have "weight (handle r c f s) x \<le> weight s x + count (mset (if cancel_frame f then [] else [rf_command_id f])) x"
    using handle_accounts [of f s r c] by (simp only: accounts_def)
  with br_frame.IH show ?case by (auto simp: request_ids_def split: if_splits)
next
  case (br_internal fs s s')
  then show ?case using internal_accounts [of s s'] by (fastforce simp: accounts_def intro: order_trans)
qed

lemma settled_later: "cid \<in> settled t \<Longrightarrow> accounts X t u \<Longrightarrow> cid \<in> settled u"
  by (auto simp: accounts_def)

lemma stop_settles: "cid \<in> settled (stop r cid s)"
proof -
  let ?s = "say [Ack cid True None] s"
  show ?thesis
  proof (cases "ex_undock s")
    case (Some u)
    let ?t = "?s\<lparr>ex_undock := Some (u\<lparr>un_cancel_requested := True, un_stops := un_stops u @ [cid]\<rparr>)\<rparr>"
    have "cid \<in> settled ?t" by (simp add: settled_def all_stops_def)
    moreover have "accounts [] ?t (stop r cid s)"
      using Some unfolding stop_def Let_def
      by (auto simp: say_def [of _ s] callback_id_def split: option.split
          intro!: cancel_case_into fail_stop_into await_into)
    ultimately show ?thesis by (rule settled_later)
  next
    case None
    show ?thesis
    proof (cases "ex_active s")
      case (Some a)
      let ?t = "?s\<lparr>ex_active := Some (a\<lparr>na_cancel_requested := True, na_path_blocked := True,
           na_stops := na_stops a @ [cid]\<rparr>)\<rparr>"
      have "cid \<in> settled ?t" by (simp add: settled_def all_stops_def)
      moreover have "accounts [] ?t (stop r cid s)"
        using Some None unfolding stop_def Let_def
        by (auto simp: say_def [of _ s] callback_id_def split: option.split
            intro!: cancel_case_into fail_stop_into await_into clear_path_into)
      ultimately show ?thesis by (rule settled_later)
    next
      case n: None
      then show ?thesis
        using None by (simp add: stop_def Let_def result_id_def say_def [of _ s] settled_def)
    qed
  qed
qed

lemma stop_frame_settles:
  assumes "rf_command g = ''stop''" "rf_seed_profile g = None" "Raised \<notin> set (ex_out (handle r c g s))"
  shows "rf_command_id g \<in> settled (handle r c g s)"
proof -
  have held: "held_back r c g s = None" using assms(1) by (simp add: held_back_def Let_def split: option.split)
  have check: "precheck ''stop'' x b y a z o' w = None" for x b y a z o' w by (simp add: precheck_def)
  show ?thesis
  proof (cases "ex_map s = None")
    case True
    then show ?thesis using assms(1,2) held check stop_settles by (simp add: handle_def Let_def perform_def)
  next
    case False
    then have h: "handle r c g s = check_map_then r
        (say [Ack (rf_command_id g) True None, Result (rf_command_id g) Succeeded (Dispatch D_map_cancel_requested)]) s"
      using assms(1,2) held by (simp add: handle_def Let_def)
    have "fst (check_map_connection r True s)"
      using assms(3) unfolding h check_map_then_def by (auto simp: say_def split: prod.splits bool.splits)
    then show ?thesis unfolding h check_map_then_def
      by (auto simp: settled_def result_id_def split: prod.splits bool.splits)
  qed
qed

lemma reachable_settled:
  "bridge_reachable fs s \<Longrightarrow> Raised \<notin> set (ex_out s) \<Longrightarrow> f \<in> set fs \<Longrightarrow> rf_command f = ''stop'' \<Longrightarrow> rf_seed_profile f = None
   \<Longrightarrow> rf_command_id f \<in> settled s"
proof (induction arbitrary: f rule: bridge_run.induct)
  case (br_frame fs s g r c)
  show ?case
  proof (cases "f = g")
    case True
    then show ?thesis using br_frame.prems stop_frame_settles [of g r c s] by auto
  next
    case False
    then show ?thesis using br_frame handle_accounts [of g s r c] by (auto simp: accounts_def)
  qed
next
  case (br_internal fs s s')
  then show ?case using internal_accounts [of s s'] by (auto simp: accounts_def)
qed simp

lemma distinct_countI: "(\<And>x. count (mset xs) x \<le> 1) \<Longrightarrow> distinct xs"
proof (induction xs)
  case (Cons a xs)
  have "count (mset xs) x \<le> 1" for x
    using Cons.prems [of x] by (rule le_trans [rotated]) simp
  moreover have "count (mset xs) a = 0" using Cons.prems [of a] by simp
  ultimately show ?case using Cons.IH by simp
qed simp

lemma stops_open: "count (mset (all_stops s)) x \<le> count (mset (open_ids s)) x"
  by (auto simp: all_stops_def open_ids_def nav_ids_def undock_ids_def split: option.split)

lemma weight_le_1: "bridge_reachable fs s \<Longrightarrow> distinct (request_ids fs) \<Longrightarrow> weight s x \<le> 1"
  using reachable_weight [of fs s x] by (auto simp: distinct_count_atmost_1 intro: le_trans)

lemma weight_requested: "bridge_reachable fs s \<Longrightarrow> x \<notin> set (request_ids fs) \<Longrightarrow> weight s x = 0"
  using reachable_weight [of fs s x] by (metis count_mset_0_iff le_zero_eq)

subsection \<open>An undock that is stopped\<close>

definition example_requests :: "robot_frame list" where
  "example_requests = [example_frame ''u'' ''undock'', example_frame ''s'' ''stop'']"

definition example_stopping :: executor where
  "example_stopping = handle example_ros (example_context example_docked) (example_frame ''s'' ''stop'')
     (handle example_ros (example_context example_docked) (example_frame ''u'' ''undock'') executor_new)"

definition example_accepted :: executor where
  "example_accepted = on_undock_response example_ros ''u'' 0 (Some (example_handle 7))
     (fired (On_undock_goal ''u'' 0) example_stopping)"

definition example_stopped :: executor where
  "example_stopped = on_undock_result example_ros ''u''
     (Some \<lparr>ur_status = Some 5, ur_code = 9, ur_success = False, ur_message = [], ur_manual_recovery = False\<rparr>)
     (fired (On_undock_result ''u'') example_accepted)"

lemma example_ids: "distinct (request_ids example_requests)"
  by code_simp

lemma example_stopping_reached: "bridge_reachable example_requests example_stopping"
proof -
  have no: "Raised \<notin> set (ex_out executor_new)"
    "Raised \<notin> set (ex_out (handle example_ros (example_context example_docked) (example_frame ''u'' ''undock'') executor_new))"
    by code_simp+
  from br_frame [OF br_frame [OF br_init no(1)] no(2)] show ?thesis
    unfolding example_requests_def example_stopping_def by simp
qed

lemma example_stopped_reached: "bridge_reachable example_requests example_stopped"
proof -
  have s: "Raised \<notin> set (ex_out example_stopping)" "On_undock_goal ''u'' 0 \<in> set (ex_calls example_stopping)" by code_simp+
  have a: "Raised \<notin> set (ex_out example_accepted)" "On_undock_result ''u'' \<in> set (ex_calls example_accepted)" by code_simp+
  from br_internal [OF example_stopping_reached s(1) is_undock_goal [OF s(2)]]
  have "bridge_reachable example_requests example_accepted" unfolding example_accepted_def .
  from br_internal [OF this a(1) is_undock_result [OF a(2)]] show ?thesis unfolding example_stopped_def .
qed

text \<open>
  No command of the robot is reported twice: when the frames bring distinct command ids, in
  every state the executor reaches, whatever order callbacks, timers and frames come in, each id has
  at most one result, and only an id that was requested has one.
\<close>

theorem results_reported_once:
  assumes "bridge_reachable fs s" and "distinct (request_ids fs)"
  shows "distinct (result_ids s) \<and> set (result_ids s) \<subseteq> set (request_ids fs)"
proof -
  have "distinct (result_ids s)"
  proof (rule distinct_countI)
    show "count (mset (result_ids s)) x \<le> 1" for x
      using weight_le_1 [OF assms, of x] unfolding weight_def by linarith
  qed
  moreover have "x \<in> set (request_ids fs)" if "x \<in> set (result_ids s)" for x
    using weight_requested [OF assms(1), of x] that by (auto simp: weight_def)
  ultimately show ?thesis by auto
qed

theorem results_reported_once_witness:
  "distinct (result_ids example_stopped) \<and> set (result_ids example_stopped) \<subseteq> {''u'', ''s''} \<and> length (result_ids example_stopped) = 2"
proof -
  have "set (request_ids example_requests) = {''u'', ''s''}" "length (result_ids example_stopped) = 2" by code_simp+
  then show ?thesis using results_reported_once [OF example_stopped_reached example_ids] by simp
qed



end
