(* ===== verification/Executor_Motion.thy ===== *)
theory Executor_Motion
  imports Executor_Run
begin

text \<open>
  Who moves the robot: at most one of navigation and undocking at a time, and nothing that was
  requested before a motor disable once it has been handled.
\<close>

subsection \<open>Handlers that start no movement\<close>

definition nav_calls :: "executor \<Rightarrow> callback set" where
  "nav_calls s = {k \<in> set (ex_calls s). \<exists>cid g c n. k = On_nav_goal cid g c n}"

text \<open>
  The movements are the old ones or fewer, a requested cancel stays requested, and the pending
  navigation, the two generations and the outstanding goal requests are the same or fewer.
\<close>

definition settles :: "executor \<Rightarrow> executor \<Rightarrow> bool" where
  "settles s t \<longleftrightarrow>
     (\<forall>a'. ex_active t = Some a' \<longrightarrow> (\<exists>a. ex_active s = Some a \<and> na_command_id a' = na_command_id a
        \<and> (na_cancel_requested a \<longrightarrow> na_cancel_requested a')))
     \<and> (\<forall>u'. ex_undock t = Some u' \<longrightarrow> (\<exists>u. ex_undock s = Some u \<and> un_command_id u' = un_command_id u
        \<and> (un_cancel_requested u \<longrightarrow> un_cancel_requested u')))
     \<and> map_option fst (ex_nav_pending t) = map_option fst (ex_nav_pending s)
     \<and> ex_nav_generation t = ex_nav_generation s \<and> ex_motor_generation t = ex_motor_generation s
     \<and> nav_calls t \<subseteq> nav_calls s"

lemma settles_refl [simp]: "settles s s"
  by (simp add: settles_def)

lemma settles_trans: "settles s t \<Longrightarrow> settles t u \<Longrightarrow> settles s u"
  unfolding settles_def by (intro conjI allI impI) (fastforce | force)+

lemma settles_say: "settles s t \<Longrightarrow> settles s (say os t)"
  by (simp add: settles_def say_def nav_calls_def)

lemma settles_refuse: "settles s t \<Longrightarrow> settles s (refuse cid why t)"
  by (simp add: refuse_def settles_say)

lemma settles_await: "settles s t \<Longrightarrow> callback_id k = [] \<Longrightarrow> settles s (await k t)"
  by (auto simp: settles_def await_def nav_calls_def callback_id_def)

lemma settles_service: "settles s t \<Longrightarrow> settles s (await (On_service cid w) t)"
  by (auto simp: settles_def await_def nav_calls_def)

lemma settles_lidar: "settles s t \<Longrightarrow> settles s (await (On_lidar cid) t)"
  by (auto simp: settles_def await_def nav_calls_def)

lemma settles_active:
  "settles s t \<Longrightarrow> ex_active t = Some a \<Longrightarrow> na_command_id a' = na_command_id a
   \<Longrightarrow> (na_cancel_requested a \<Longrightarrow> na_cancel_requested a') \<Longrightarrow> settles s (t\<lparr>ex_active := Some a'\<rparr>)"
  by (auto simp: settles_def nav_calls_def)

lemma settles_undock:
  "settles s t \<Longrightarrow> ex_undock t = Some u \<Longrightarrow> un_command_id u' = un_command_id u
   \<Longrightarrow> (un_cancel_requested u \<Longrightarrow> un_cancel_requested u') \<Longrightarrow> settles s (t\<lparr>ex_undock := Some u'\<rparr>)"
  by (auto simp: settles_def nav_calls_def)

lemma settles_fields:
  assumes "settles s t" "ex_active u = ex_active t \<or> ex_active u = None" "ex_undock u = ex_undock t \<or> ex_undock u = None"
    "map_option fst (ex_nav_pending u) = map_option fst (ex_nav_pending t)"
    "ex_nav_generation u = ex_nav_generation t" "ex_motor_generation u = ex_motor_generation t" "nav_calls u \<subseteq> nav_calls t"
  shows "settles s u"
  using assms unfolding settles_def by auto

lemma settles_cancel_case:
  assumes "\<And>v. settles s v \<Longrightarrow> settles s (f v)" "\<And>v. settles s v \<Longrightarrow> settles s (g v)" "settles s t"
  shows "settles s (case cancel_goal r h t of (True, v) \<Rightarrow> f v | (False, v) \<Rightarrow> g v)"
  using assms(1) [OF settles_say [OF assms(3)]] assms(2,3) by (simp add: cancel_goal_def)

lemma settles_cancel: "settles s t \<Longrightarrow> settles s (snd (cancel_goal r h t))"
  by (auto simp: cancel_goal_def intro: settles_say)

lemma settles_cancel_then:
  assumes "settles s t" "\<And>v. settles s v \<Longrightarrow> settles s (rest v)" shows "settles s (cancel_then r h rest t)"
  unfolding cancel_then_def using assms by (intro settles_cancel_case) (auto intro: settles_say)

lemma settles_clear_path: "settles s t \<Longrightarrow> settles s (clear_path t)"
proof (cases "ex_active t")
  case (Some a)
  assume "settles s t"
  then have "settles s (t\<lparr>ex_active := Some (a\<lparr>na_path_valid := False\<rparr>)\<rparr>)" by (rule settles_active [OF _ Some]) simp_all
  then show ?thesis using Some unfolding clear_path_def
    by (auto intro!: settles_say elim!: settles_fields simp: nav_calls_def)
qed (simp add: clear_path_def)

lemma settles_fired: "settles s (fired k s)"
  by (auto simp: settles_def fired_def nav_calls_def dest: set_remove1_subset [THEN subsetD])

lemmas settles_rules = settles_say settles_refuse settles_service settles_lidar settles_cancel settles_clear_path

subsection \<open>Cancels and stops\<close>

lemma settles_context: "settles s (update_navigation_context n s)"
proof -
  have "settles s (s\<lparr>ex_nav_context := z\<rparr>)" for z by (simp add: settles_def nav_calls_def)
  then show ?thesis
    by (auto simp: update_navigation_context_def Let_def split: option.split intro!: settles_clear_path settles_active)
qed

lemma settles_nav_cancel_response: "settles s t \<Longrightarrow> settles s (on_navigation_cancel_response uid cr t)"
  by (auto simp: on_navigation_cancel_response_def split: option.split intro!: settles_say settles_active)

lemma settles_cancel_undock: "settles s t \<Longrightarrow> ex_undock t = Some u \<Longrightarrow> settles s (cancel_undock r u t)"
  by (auto simp: cancel_undock_def Let_def split: option.split intro!: settles_cancel_case settles_say settles_undock)

lemma settles_mark_pending: "settles s t \<Longrightarrow> settles s (mark_pending_cancel cid t)"
  by (auto simp: mark_pending_cancel_def nav_calls_def split: option.split elim!: settles_fields)

lemma settles_cancel_active: "settles s t \<Longrightarrow> settles s (cancel_active r cid t)"
  by (auto simp: cancel_active_def Let_def callback_id_def split: option.split
      intro!: settles_cancel_case settles_await settles_nav_cancel_response settles_say settles_clear_path settles_active)

lemma settles_cancel_navigation: "settles s t \<Longrightarrow> settles s (cancel_navigation r cid t)"
  unfolding cancel_navigation_def
  by (auto split: option.split intro: settles_cancel_undock settles_cancel_active settles_mark_pending)

lemma settles_claim: "settles s t \<Longrightarrow> settles s (snd (claim_stop cid t))"
  unfolding claim_stop_def claim_undock_stop_def
  by (auto split: option.split intro: settles_active settles_undock)

lemma settles_fail_stop: "settles s t \<Longrightarrow> settles s (fail_stop cid why t)"
  using settles_claim [of s t cid] by (auto simp: fail_stop_def split: prod.split bool.split intro: settles_say)

lemma settles_fail_stops: "settles s t \<Longrightarrow> settles s (foldl (\<lambda>v c. fail_stop c why v) t cs)"
  by (induction cs arbitrary: t) (simp_all add: settles_fail_stop)

lemma settles_cancel_response: "settles s t \<Longrightarrow> settles s (on_cancel_response cid rp t)"
  using settles_claim [of s t cid]
  by (auto simp: on_cancel_response_def settles_fail_stop split: option.split verdict.split prod.split bool.split
      intro: settles_say)

lemma settles_stop: "settles s (stop r cid s)"
proof -
  have s: "settles s (say [Ack cid True None] s)" by (simp add: settles_say)
  show ?thesis
    unfolding stop_def Let_def
    by (auto simp: callback_id_def split: option.split
        intro!: settles_cancel_case settles_fail_stop settles_await settles_clear_path
          settles_undock [OF s] settles_active [OF s] settles_say [OF s])
qed

lemma settles_fail_undock: "settles s t \<Longrightarrow> settles s (fail_undock r t)"
  by (auto simp: fail_undock_def split: option.split intro!: settles_say settles_cancel_navigation settles_undock)

subsection \<open>Replies and timers\<close>

lemma settles_nav_result: "settles s (on_nav_result cid nr s)"
proof (cases "ex_active s")
  case (Some a)
  have "settles s ((clear_path (s\<lparr>ex_active := Some (a\<lparr>na_stops := []\<rparr>)\<rparr>))\<lparr>ex_active := None\<rparr>)"
    by (rule settles_fields [OF settles_clear_path [OF settles_active [OF settles_refl Some]]]) (auto simp: nav_calls_def)
  then show ?thesis
    using Some by (auto simp: on_nav_result_def Let_def split: option.split intro: settles_say)
qed (simp add: on_nav_result_def)

lemma settles_close_undock: "settles s (s\<lparr>ex_undock := None\<rparr>)"
  by (rule settles_fields [OF settles_refl]) (simp_all add: nav_calls_def)

lemma settles_undock_result: "settles s (on_undock_result r cid ur s)"
  by (auto simp: on_undock_result_def Let_def split: option.split
      intro: settles_say [OF settles_close_undock] settles_fail_undock [OF settles_refl])

lemma settles_undock_response: "settles s (on_undock_response r cid g h s)"
proof (cases "ex_undock s")
  case None
  then show ?thesis by (auto simp: on_undock_response_def split: option.split intro: settles_cancel_then)
next
  case (Some u)
  have opened: "settles s (say os (s\<lparr>ex_undock := Some (u\<lparr>un_cancel_requested := q, un_handle := h\<rparr>), ex_undock_misses := 0\<rparr>))"
    if "un_cancel_requested u \<Longrightarrow> q" for q h os
    by (intro settles_say settles_fields [OF settles_undock [OF settles_refl Some]]) (use that in \<open>simp_all add: nav_calls_def\<close>)
  show ?thesis
    using Some unfolding on_undock_response_def Let_def
    by (auto simp: callback_id_def split: option.split list.split
        intro!: settles_cancel_then settles_fail_undock settles_say [OF settles_close_undock]
          settles_cancel_case settles_fail_stops settles_await opened)
qed

lemma settles_health: "settles s (check_undock_health r s)"
proof -
  have "settles s (s\<lparr>ex_undock_misses := n\<rparr>)" for n by (simp add: settles_def nav_calls_def)
  then show ?thesis
    by (auto simp: check_undock_health_def Let_def split: option.split intro!: settles_fail_undock)
qed

lemma settles_map: "settles s t \<Longrightarrow> settles s (t\<lparr>ex_map := m\<rparr>)"
  by (simp add: settles_def nav_calls_def)

lemma settles_map_connection: "settles s t \<Longrightarrow> settles s (snd (check_map_connection r asked t))"
  by (auto simp: check_map_connection_def Let_def split: option.split intro!: settles_cancel settles_map)

lemma settles_set_initial_pose: "settles s (set_initial_pose r cid g a p s)"
proof -
  have "settles s (s\<lparr>ex_map := m, ex_next := k\<rparr>)" for m k by (simp add: settles_def nav_calls_def)
  then show ?thesis
    by (auto simp: set_initial_pose_def Let_def callback_id_def intro!: settles_refuse settles_await settles_say)
qed

lemma settles_map_response: "settles s (map_response r uid h s)"
  by (auto simp: map_response_def Let_def callback_id_def split: option.split
      intro!: settles_cancel_case settles_say settles_map settles_await)

lemma settles_map_result: "settles s (map_result uid mr s)"
  by (auto simp: map_result_def split: option.split intro!: settles_say settles_map)

lemma settles_call_service: "settles s t \<Longrightarrow> settles s (call_dock_service r cid what t)"
  by (auto simp: call_dock_service_def split: option.split bool.split intro!: settles_refuse settles_service settles_say)

lemma settles_service_result: "settles s (on_dock_service_result cid what sv s)"
  by (auto simp: on_dock_service_result_def Let_def split: option.split intro!: settles_refuse settles_say)

lemma settles_set_lidar: "settles s (set_lidar_power r cid f b a s)"
proof -
  have "settles s (s\<lparr>ex_lidar_pending := z\<rparr>)" for z by (simp add: settles_def nav_calls_def)
  then show ?thesis
    by (auto simp: set_lidar_power_def Let_def split: pyval.split intro!: settles_refuse settles_say settles_lidar)
qed

lemma settles_lidar_result: "settles s (on_lidar_result r cid lr s)"
proof -
  have "settles s (s\<lparr>ex_lidar_pending := p, ex_lidar_completed := q\<rparr>)"
    "settles s (s\<lparr>ex_lidar_pending := p, ex_lidar_completed := q, ex_lidar_recovery := b\<rparr>)" for p q b
    by (simp_all add: settles_def nav_calls_def)
  then show ?thesis
    by (auto simp: on_lidar_result_def Let_def split: option.split intro!: settles_say)
qed

lemma settles_path: "settles s (on_navigation_path r f uid pr s)"
proof -
  have "settles s (snd (navigation_path r g p s))" for g p
    by (auto simp: navigation_path_def Let_def split: option.split intro!: settles_say settles_active)
  moreover have "settles s (say [Path_sent q] (u\<lparr>ex_last_path := z\<rparr>))" if "settles s u" for q u z
    by (rule settles_say, rule settles_fields [OF that]) (simp_all add: nav_calls_def)
  ultimately show ?thesis
    by (auto simp: on_navigation_path_def split: option.split prod.split intro!: settles_clear_path) (metis snd_conv)+
qed

lemma settles_poll: "settles s (poll_navigation_path r s)"
proof -
  have ask: "settles s (ask_path r t)" if "settles s t" for t
  proof -
    have "settles s (t\<lparr>ex_path_sent := x, ex_path_future := y, ex_next := z\<rparr>)" for x y z
      by (rule settles_fields [OF that]) (simp_all add: nav_calls_def)
    then show ?thesis using that
      by (auto simp: ask_path_def Let_def callback_id_def split: option.split intro!: settles_clear_path settles_await settles_say)
  qed
  have "settles s (s\<lparr>ex_calls := filter P (ex_calls s), ex_path_future := y\<rparr>)" for P y
    by (rule settles_fields [OF settles_refl]) (auto simp: nav_calls_def)
  then show ?thesis
    by (auto simp: poll_navigation_path_def split: option.split intro!: ask settles_clear_path)
qed

lemma settles_progress:
  "settles s (on_feedback r cid gid d s)" "settles s (on_undock_feedback r cid stage s)"
  "settles s (map_feedback rid stage s)" "settles s (snd (initialize_dock_pose r d' s))"
proof -
  have "settles s (s\<lparr>ex_last_progress := z\<rparr>)" "settles s (s\<lparr>ex_last_undock_progress := z\<rparr>)" for z
    by (simp_all add: settles_def nav_calls_def)
  then show "settles s (on_feedback r cid gid d s)" "settles s (on_undock_feedback r cid stage s)"
    by (auto simp: on_feedback_def on_undock_feedback_def Let_def split: option.split intro!: settles_say)
qed (auto simp: map_feedback_def initialize_dock_pose_def split: option.split intro!: settles_say)

subsection \<open>The handlers that do start a movement\<close>

lemma settles_map_then:
  assumes "settles s t" "\<And>v. settles s v \<Longrightarrow> settles s (rest v)" shows "settles s (check_map_then r rest t)"
  using settles_map_connection [OF assms(1), of r True] assms(2)
  by (auto simp: check_map_then_def split: prod.split bool.split intro: settles_say)

lemma handle_cases:
  obtains (quiet) "settles s (handle r c f s)"
  | (navigate) g y where "\<not> cancel_frame f" "handle r c f s = navigate r (rf_command_id f) g y s"
  | (undock) a where "\<not> cancel_frame f" "handle r c f s = undock r (rf_command_id f) a s"
  | (motor) "handle r c f s = motor_disable r (rf_command_id f) s"
proof -
  have cancel: "settles s (handle_cancel r f s)"
    unfolding handle_cancel_def Let_def
    by (auto split: option.split intro!: settles_map_then settles_cancel_navigation)
  have reset: "settles s (handle_dock_reset r c f s)"
    by (auto simp: handle_dock_reset_def intro!: settles_refuse settles_call_service)
  have release: "settles s (charge_release r cid s)" "settles s (motor_enable r cid s)" for cid
    by (auto simp: charge_release_def motor_enable_def intro!: settles_refuse settles_call_service settles_say)
  have held: "settles s (check_map_then r (say os) s)" for os
    by (auto intro!: settles_map_then settles_say)
  note quiets = settles_refuse [OF settles_refl] settles_refl reset release held settles_stop settles_set_lidar
    settles_set_initial_pose
  show ?thesis
  proof (cases "cancel_frame f")
    case True
    then have "settles s (handle r c f s)"
      using cancel quiets(1) by (simp add: handle_def Let_def cancel_frame_def)
    then show ?thesis by (rule quiet)
  next
    case False
    define Q where "Q t \<longleftrightarrow> settles s t \<or> (\<exists>g y. t = navigate r (rf_command_id f) g y s)
        \<or> (\<exists>a. t = Bridge_Executor.undock r (rf_command_id f) a s) \<or> t = motor_disable r (rf_command_id f) s" for t
    have q: "settles s t \<Longrightarrow> Q t" for t by (simp add: Q_def)
    have m: "Q (navigate r (rf_command_id f) g y s)" "Q (Bridge_Executor.undock r (rf_command_id f) a s)"
      "Q (motor_disable r (rf_command_id f) s)" for g y a
      by (auto simp: Q_def)
    have p: "Q (perform r c f s)"
      unfolding perform_def Let_def by (intro branches [of Q] m q quiets)
    have "Q (handle r c f s)"
      unfolding handle_def Let_def by (intro branches [of Q] p m) (rule q, intro quiets cancel)+
    then show ?thesis using False quiet navigate undock motor unfolding Q_def by blast
  qed
qed

lemma internal_cases:
  assumes "internal_step s s'"
  obtains (quiet) "settles s s'"
  | (goal) cid g c n r h where "On_nav_goal cid g c n \<in> set (ex_calls s)"
      "s' = on_goal_response r cid g c n h (fired (On_nav_goal cid g c n) s)"
  using assms
proof (cases rule: internal_step.cases)
  case (is_nav_goal cid g c n r h)
  then show ?thesis using goal by blast
next
  case (is_nav_cancel uid cr)
  then show ?thesis by (intro quiet) (simp add: settles_nav_cancel_response settles_fired)
next
  case (is_stop_cancel cid cr)
  then show ?thesis by (intro quiet) (simp add: settles_cancel_response settles_fired)
qed (auto intro!: quiet intro: settles_trans [OF settles_fired] settles_nav_result settles_undock_response settles_undock_result
    settles_service_result settles_lidar_result settles_map_response settles_map_result settles_path settles_health
    settles_poll settles_progress settles_context settles_map_connection [OF settles_refl])

subsection \<open>One motion owner\<close>

definition motion_inv :: "executor \<Rightarrow> bool" where
  "motion_inv s \<longleftrightarrow>
     (ex_undock s \<noteq> None \<longrightarrow> ex_active s = None \<and> ex_nav_pending s = None)
     \<and> (\<forall>cid g c n. On_nav_goal cid g c n \<in> set (ex_calls s) \<longrightarrow>
          n \<le> ex_nav_generation s \<and> (n = ex_nav_generation s \<longrightarrow> map_option fst (ex_nav_pending s) = Some cid))"

lemma motion_settles: "motion_inv s \<Longrightarrow> settles s t \<Longrightarrow> motion_inv t"
  unfolding motion_inv_def settles_def nav_calls_def by (cases "ex_nav_pending t"; cases "ex_nav_pending s") (fastforce+)

lemma navigate_cases:
  obtains (quiet) "settles s (navigate r cid g y s)"
  | (started) t where "navigate r cid g y s = t" "ex_undock s = None" "ex_undock t = None"
      "ex_nav_generation t = Suc (ex_nav_generation s)" "ex_motor_generation t = ex_motor_generation s"
      "ex_nav_pending t = Some (cid, False)"
      "ex_calls t = ex_calls s @ [On_nav_goal cid (ex_motor_generation s) (ex_nav_context s) (Suc (ex_nav_generation s))]"
      "ex_active t = ex_active (clear_path s)"
proof (cases "ex_undock s = None \<and> ro_nav_ready r")
  case True
  have clear: "ex_undock (clear_path s) = ex_undock s" "ex_nav_generation (clear_path s) = ex_nav_generation s"
    "ex_motor_generation (clear_path s) = ex_motor_generation s" "ex_nav_context (clear_path s) = ex_nav_context s"
    "ex_calls (clear_path s) = ex_calls s"
    by (auto simp: clear_path_def say_def split: option.split)
  from True show ?thesis
    by (intro started [OF refl]) (simp_all add: navigate_def Let_def await_def say_def clear)
next
  case False
  have "settles s (refuse cid w s)" for w by (simp add: settles_refuse)
  then show ?thesis using False by (intro quiet) (auto simp: navigate_def)
qed

lemma motion_navigate:
  assumes "motion_inv s" shows "motion_inv (navigate r cid g y s)"
proof (cases rule: navigate_cases [of s r cid g y])
  case quiet
  with assms show ?thesis by (rule motion_settles)
next
  case (started t)
  have "n \<le> ex_nav_generation s" if "On_nav_goal cid g c n \<in> set (ex_calls s)" for cid g c n
    using assms that by (auto simp: motion_inv_def)
  then show ?thesis using started by (fastforce simp: motion_inv_def)
qed

lemma undock_cases:
  obtains (quiet) "settles s (undock r cid a s)"
  | (started) "ex_active s = None" "ex_nav_pending s = None" "undock r cid a s =
      await (On_undock_goal cid (ex_motor_generation s)) (say [Undock_goal cid]
             (s\<lparr>ex_undock := Some \<lparr>un_command_id = cid, un_handle = None, un_started = ro_now r,
                 un_uncertain = False, un_cancel_requested = False, un_stops = []\<rparr>\<rparr>))"
proof (cases "ro_undock r = Some True \<and> a \<and> ex_undock s = None \<and> ex_active s = None \<and> ex_nav_pending s = None \<and> \<not> ro_undock_raises r")
  case True
  then show ?thesis by (intro started) (auto simp: undock_def)
next
  case False
  have "settles s (refuse cid w s)" for w by (simp add: settles_refuse)
  then show ?thesis using False by (intro quiet) (auto simp: undock_def)
qed

lemma motion_undock:
  assumes "motion_inv s" shows "motion_inv (undock r cid a s)"
proof (cases rule: undock_cases [of s r cid a])
  case quiet
  with assms show ?thesis by (rule motion_settles)
next
  case started
  then show ?thesis using assms by (simp add: motion_inv_def await_def say_def)
qed

text \<open>What \<open>install_goal\<close> leaves behind, for the fields the invariants read.\<close>

lemma install_goal_fields:
  "ex_undock (install_goal cid h s) = ex_undock s"
  "ex_nav_generation (install_goal cid h s) = ex_nav_generation s"
  "ex_motor_generation (install_goal cid h s) = ex_motor_generation s"
  "ex_nav_pending (install_goal cid h s) = (if own_pending cid s = None then ex_nav_pending s else None)"
  "ex_calls (install_goal cid h s) = ex_calls s @ [On_nav_result cid]"
  "\<exists>a. ex_active (install_goal cid h s) = Some a \<and> na_command_id a = cid"
  by (auto simp: install_goal_def Let_def clear_path_def clear_pending_def own_pending_def say_def await_def split: option.splits)

text \<open>An accepted goal that is installed was requested last, and nothing has disabled the motors since.\<close>

lemma goal_response_cases:
  obtains (quiet) "settles s (on_goal_response r cid g c n h s)"
  | (declined) "on_goal_response r cid g c n h s = refuse cid (Nav N_declined) (clear_pending cid s)"
  | (installed) h' where "g = ex_motor_generation s" "n = ex_nav_generation s"
      "settles (install_goal cid h' s) (on_goal_response r cid g c n h s)"
proof (cases h)
  case None
  then show ?thesis by (intro quiet) (simp add: on_goal_response_def settles_refuse)
next
  case (Some h')
  have refused: "settles s (cancel_then r h' (refuse cid w) s)" for w
    by (intro settles_cancel_then settles_refuse settles_refl)
  consider "\<not> gh_accepted h'" | "gh_accepted h'" "g \<noteq> ex_motor_generation s \<or> n \<noteq> ex_nav_generation s \<or> c \<noteq> None \<and> c \<noteq> ex_nav_context s"
    | "gh_accepted h'" "\<not> (g \<noteq> ex_motor_generation s \<or> n \<noteq> ex_nav_generation s \<or> c \<noteq> None \<and> c \<noteq> ex_nav_context s)" by blast
  then show ?thesis
  proof cases
    case 1
    then show ?thesis using Some by (intro declined) (simp add: on_goal_response_def)
  next
    case 2
    then show ?thesis using Some refused by (intro quiet) (auto simp: on_goal_response_def)
  next
    case 3
    then show ?thesis
      using Some settles_cancel_navigation [OF settles_refl] by (intro installed) (auto simp: on_goal_response_def Let_def)
  qed
qed

lemma motion_goal_response:
  assumes inv: "motion_inv s" and k: "On_nav_goal cid g c n \<in> set (ex_calls s)" and w: "weight s cid \<le> 1"
  shows "motion_inv (on_goal_response r cid g c n h (fired (On_nav_goal cid g c n) s))"
proof -
  let ?s = "fired (On_nav_goal cid g c n) s"
  have inv': "motion_inv ?s" using inv settles_fired by (rule motion_settles)
  have same: "ex_nav_generation ?s = ex_nav_generation s" "ex_nav_pending ?s = ex_nav_pending s" by (simp_all add: fired_def)
  have other: "cid' \<noteq> cid" if "On_nav_goal cid' g' c' n' \<in> set (ex_calls ?s)" for cid' g' c' n'
  proof
    assume "cid' = cid"
    with that have "cid \<in> set (open_ids ?s)" by (auto simp: open_ids_def callback_id_def intro!: bexI)
    then have "0 < weight ?s cid" by (simp add: weight_def count_mset_gt_0)
    then show False using fired_weight [OF k, of cid] w by (simp add: callback_id_def)
  qed
  have late: "n' \<le> ex_nav_generation s \<and> (own_pending cid ?s \<noteq> None \<longrightarrow> n' \<noteq> ex_nav_generation s)"
    if "On_nav_goal cid' g' c' n' \<in> set (ex_calls ?s)" for cid' g' c' n'
    using inv' [unfolded motion_inv_def, THEN conjunct2, rule_format, OF that] other [OF that] same
    by (auto simp: own_pending_def split: option.splits if_splits)
  show ?thesis
  proof (cases rule: goal_response_cases [of ?s r cid g c n h])
    case quiet
    with inv' show ?thesis by (rule motion_settles)
  next
    case declined
    have "motion_inv (clear_pending cid ?s)"
    proof (cases "own_pending cid ?s = None")
      case True
      then show ?thesis using inv' by (simp add: clear_pending_def)
    next
      case False
      then show ?thesis using inv' late same by (auto simp: motion_inv_def clear_pending_def)
    qed
    then show ?thesis unfolding declined using motion_settles settles_refuse [OF settles_refl] by blast
  next
    case (installed h')
    have "map_option fst (ex_nav_pending s) = Some cid" using inv k installed(2) same by (auto simp: motion_inv_def)
    then have "ex_undock ?s = None" "own_pending cid ?s \<noteq> None"
      using inv same by (auto simp: motion_inv_def fired_def own_pending_def)
    then have "motion_inv (install_goal cid h' ?s)"
      using late same unfolding motion_inv_def install_goal_fields by auto
    then show ?thesis using installed(3) by (rule motion_settles)
  qed
qed

lemma motion_fields: "motion_inv t \<Longrightarrow> ex_undock s = ex_undock t \<Longrightarrow> ex_active s = ex_active t
   \<Longrightarrow> ex_nav_pending s = ex_nav_pending t \<Longrightarrow> ex_nav_generation s = ex_nav_generation t \<Longrightarrow> ex_calls s = ex_calls t \<Longrightarrow> motion_inv s"
  by (simp add: motion_inv_def)

text \<open>A motor disable is a quiet step once its generation has been counted.\<close>

lemma motor_disable_quiet:
  obtains t where "settles s t" "ex_motor_generation t = ex_motor_generation s" "ex_calls t = ex_calls s"
    "settles (t\<lparr>ex_motor_generation := Suc (ex_motor_generation s)\<rparr>) (motor_disable r cid s)"
proof
  show "settles s (block_path s)"
    by (auto simp: block_path_def split: option.split intro!: settles_clear_path settles_active)
  show "ex_motor_generation (block_path s) = ex_motor_generation s" "ex_calls (block_path s) = ex_calls s"
    by (simp_all add: block_path_def clear_path_def say_def split: option.split)
  then show "settles (block_path s\<lparr>ex_motor_generation := Suc (ex_motor_generation s)\<rparr>) (motor_disable r cid s)"
    unfolding motor_disable_def Let_def halt_undock_def halt_active_def
    by (auto split: option.split
        intro!: settles_cancel settles_undock settles_active settles_map_connection settles_call_service)
qed

lemma motion_motor_disable:
  assumes "motion_inv s" shows "motion_inv (motor_disable r cid s)"
proof (rule motor_disable_quiet [of s r cid])
  fix t assume t: "settles s t" "settles (t\<lparr>ex_motor_generation := Suc (ex_motor_generation s)\<rparr>) (motor_disable r cid s)"
  have "motion_inv (t\<lparr>ex_motor_generation := Suc (ex_motor_generation s)\<rparr>)"
    by (rule motion_fields [OF motion_settles [OF assms t(1)]]) simp_all
  then show ?thesis using t(2) by (rule motion_settles)
qed

lemma reachable_motion: "bridge_reachable fs s \<Longrightarrow> distinct (request_ids fs) \<Longrightarrow> motion_inv s"
proof (induction rule: bridge_run.induct)
  case br_init
  then show ?case by (simp add: motion_inv_def executor_new_def)
next
  case (br_frame fs s f r c)
  then have inv: "motion_inv s" by (simp add: request_ids_def)
  show ?case
  proof (cases rule: handle_cases [of s r c f])
    case quiet
    with inv show ?thesis by (rule motion_settles)
  qed (simp_all add: inv motion_navigate motion_undock motion_motor_disable)
next
  case (br_internal fs s s')
  from br_internal.hyps(3) show ?case
  proof (cases rule: internal_cases)
    case quiet
    with br_internal show ?thesis using motion_settles by blast
  next
    case (goal cid g c n r h)
    then show ?thesis
      using br_internal weight_le_1 [of fs s cid] motion_goal_response by simp
  qed
qed


subsection \<open>Motor disable\<close>

text \<open>
  After the motors were disabled at generation \<open>m\<close>: every movement is being canceled or was requested
  by one of the commands \<open>ids\<close>, and so was every goal request the executor may still accept.
\<close>

definition subdued :: "nat \<Rightarrow> string set \<Rightarrow> executor \<Rightarrow> bool" where
  "subdued m ids s \<longleftrightarrow>
     (\<forall>a. ex_active s = Some a \<longrightarrow> na_cancel_requested a \<or> na_command_id a \<in> ids)
     \<and> (\<forall>u. ex_undock s = Some u \<longrightarrow> un_cancel_requested u \<or> un_command_id u \<in> ids)
     \<and> m \<le> ex_motor_generation s
     \<and> (\<forall>cid g c n. On_nav_goal cid g c n \<in> set (ex_calls s) \<longrightarrow> g < m \<or> cid \<in> ids)"

lemma subdued_settles: "subdued m ids s \<Longrightarrow> settles s t \<Longrightarrow> subdued m ids t"
  unfolding subdued_def settles_def nav_calls_def by (intro conjI allI impI) fastforce+

lemma subdued_more: "subdued m ids s \<Longrightarrow> ids \<subseteq> ids' \<Longrightarrow> subdued m ids' s"
  unfolding subdued_def by blast

lemma subdued_frame:
  assumes "subdued m ids s"
  shows "subdued m (ids \<union> (if cancel_frame f then {} else {rf_command_id f})) (handle r c f s)"
proof -
  let ?ids = "ids \<union> (if cancel_frame f then {} else {rf_command_id f})"
  have s: "subdued m ?ids s" using assms by (rule subdued_more) blast
  show ?thesis
  proof (cases rule: handle_cases [of s r c f])
    case quiet
    with s show ?thesis by (rule subdued_settles)
  next
    case (navigate g y)
    show ?thesis
    proof (cases rule: navigate_cases [of s r "rf_command_id f" g y])
      case quiet
      with s show ?thesis unfolding navigate by (rule subdued_settles)
    next
      case (started t)
      have "subdued m ?ids (clear_path s)" using s settles_clear_path [OF settles_refl] by (rule subdued_settles)
      then have "na_cancel_requested a \<or> na_command_id a \<in> ?ids" if "ex_active t = Some a" for a
        using that started(8) by (auto simp: subdued_def)
      then show ?thesis using s started navigate(1) unfolding navigate(2) subdued_def by auto
    qed
  next
    case (undock a)
    show ?thesis
    proof (cases rule: undock_cases [of s r "rf_command_id f" a])
      case quiet
      with s show ?thesis unfolding undock by (rule subdued_settles)
    next
      case started
      then show ?thesis using s undock(1) unfolding undock(2) by (simp add: subdued_def await_def say_def)
    qed
  next
    case motor
    show ?thesis
    proof (rule motor_disable_quiet [of s r "rf_command_id f"])
      fix t assume t: "settles s t" "ex_motor_generation t = ex_motor_generation s"
        "settles (t\<lparr>ex_motor_generation := Suc (ex_motor_generation s)\<rparr>) (motor_disable r (rf_command_id f) s)"
      have "subdued m ?ids (t\<lparr>ex_motor_generation := Suc (ex_motor_generation s)\<rparr>)"
        using subdued_settles [OF s t(1)] t(2) by (auto simp: subdued_def)
      then show ?thesis unfolding motor using t(3) by (rule subdued_settles)
    qed
  qed
qed

lemma subdued_internal:
  assumes "subdued m ids s" "internal_step s s'" shows "subdued m ids s'"
  using assms(2)
proof (cases rule: internal_cases)
  case quiet
  with assms(1) show ?thesis by (rule subdued_settles)
next
  case (goal cid g c n r h)
  let ?s = "fired (On_nav_goal cid g c n) s"
  have s: "subdued m ids ?s" using assms(1) settles_fired by (rule subdued_settles)
  have "subdued m ids (on_goal_response r cid g c n h ?s)"
  proof (cases rule: goal_response_cases [of ?s r cid g c n h])
    case quiet
    with s show ?thesis by (rule subdued_settles)
  next
    case declined
    have "subdued m ids (clear_pending cid ?s)" using s by (simp add: subdued_def clear_pending_def)
    then show ?thesis unfolding declined using settles_refuse [OF settles_refl] by (rule subdued_settles)
  next
    case (installed h')
    have "g < m \<or> cid \<in> ids" "m \<le> ex_motor_generation s"
      using assms(1) goal(1) unfolding subdued_def by blast+
    then have "cid \<in> ids" using installed(1) by (auto simp: fired_def)
    then have "subdued m ids (install_goal cid h' ?s)"
      using s install_goal_fields(6) [of cid h' ?s] unfolding subdued_def install_goal_fields by auto
    then show ?thesis using installed(3) by (rule subdued_settles)
  qed
  then show ?thesis unfolding goal(2) .
qed

lemma subdued_run:
  assumes "bridge_run s0 gs t" "subdued m {} s0" shows "subdued m (set (request_ids gs)) t"
  using assms
proof (induction rule: bridge_run.induct)
  case br_init
  then show ?case by (rule subdued_more) simp
next
  case (br_frame gs s f r c)
  then show ?case using subdued_frame [of m "set (request_ids gs)" s f r c] by (simp add: request_ids_def split: if_splits)
next
  case (br_internal gs s s')
  then show ?case using subdued_internal by blast
qed

text \<open>A step adds no goal request but one of the current motor generation, which never decreases.\<close>

definition paced :: "executor \<Rightarrow> executor \<Rightarrow> bool" where
  "paced s t \<longleftrightarrow> ex_motor_generation s \<le> ex_motor_generation t
     \<and> (\<forall>cid g c n. On_nav_goal cid g c n \<in> set (ex_calls t) \<longrightarrow>
          On_nav_goal cid g c n \<in> set (ex_calls s) \<or> g = ex_motor_generation s)"

lemma pacedD:
  "paced s t \<Longrightarrow> ex_motor_generation s \<le> ex_motor_generation t"
  "paced s t \<Longrightarrow> On_nav_goal cid g c n \<in> set (ex_calls t) \<Longrightarrow> On_nav_goal cid g c n \<in> set (ex_calls s) \<or> g = ex_motor_generation s"
  unfolding paced_def by blast+

lemma paced_trans:
  assumes "paced s t" "ex_motor_generation t = ex_motor_generation s" "paced t u" shows "paced s u"
  using pacedD(1) [OF assms(3)] pacedD(2) [OF assms(1)] pacedD(2) [OF assms(3)] assms(2)
  unfolding paced_def by metis

lemma settles_paced: "settles s t \<Longrightarrow> paced s t"
  by (auto simp: settles_def paced_def nav_calls_def)

lemma paced_handle: "paced s (handle r x f s)"
proof (cases rule: handle_cases [of s r x f])
  case quiet
  then show ?thesis by (rule settles_paced)
next
  case (navigate gl y)
  then show ?thesis
    by (cases rule: navigate_cases [of s r "rf_command_id f" gl y]) (auto simp: settles_paced, simp add: paced_def)
next
  case (undock a)
  then show ?thesis
    by (cases rule: undock_cases [of s r "rf_command_id f" a]) (auto simp: settles_paced, simp add: paced_def await_def say_def)
next
  case motor
  show ?thesis
  proof (rule motor_disable_quiet [of s r "rf_command_id f"])
    fix t assume t: "ex_calls t = ex_calls s"
      "settles (t\<lparr>ex_motor_generation := Suc (ex_motor_generation s)\<rparr>) (motor_disable r (rf_command_id f) s)"
    from settles_paced [OF t(2)] t(1) show ?thesis
      using t(2) unfolding motor by (auto simp: settles_def paced_def nav_calls_def)
  qed
qed

lemma paced_internal: "internal_step s s' \<Longrightarrow> paced s s'"
proof (erule internal_cases)
  fix cid g c n r h assume s': "s' = on_goal_response r cid g c n h (fired (On_nav_goal cid g c n) s)"
  let ?s = "fired (On_nav_goal cid g c n) s"
  have f: "paced s ?s" "ex_motor_generation ?s = ex_motor_generation s"
    by (rule settles_paced [OF settles_fired]) (simp add: fired_def)
  have "paced ?s (on_goal_response r cid g c n h ?s)"
  proof (cases rule: goal_response_cases [of ?s r cid g c n h])
    case quiet
    then show ?thesis by (rule settles_paced)
  next
    case declined
    then show ?thesis by (auto simp: paced_def refuse_def say_def clear_pending_def)
  next
    case (installed h')
    have "paced ?s (install_goal cid h' ?s)" by (simp add: paced_def install_goal_fields)
    from paced_trans [OF this _ settles_paced [OF installed(3)]] show ?thesis by (simp add: install_goal_fields)
  qed
  from paced_trans [OF f this] show "paced s s'" unfolding s' .
qed (rule settles_paced)

lemma calls_bounded:
  "bridge_reachable fs s \<Longrightarrow> On_nav_goal cid g c n \<in> set (ex_calls s) \<Longrightarrow> g \<le> ex_motor_generation s"
proof (induction arbitrary: cid g c n rule: bridge_run.induct)
  case (br_frame fs s f r x)
  have "g \<le> ex_motor_generation s"
    using pacedD(2) [OF paced_handle br_frame.prems] br_frame.IH by auto
  then show ?case using pacedD(1) [OF paced_handle] by (rule le_trans)
next
  case (br_internal fs s s')
  have "g \<le> ex_motor_generation s"
    using pacedD(2) [OF paced_internal [OF br_internal.hyps(3)] br_internal.prems] br_internal.IH by auto
  then show ?case using pacedD(1) [OF paced_internal [OF br_internal.hyps(3)]] by (rule le_trans)
qed (simp add: executor_new_def)

text \<open>What the handler itself does to the movements under way.\<close>

lemma halt_cancels:
  "ex_active (halt_active r s) = Some a \<Longrightarrow> na_cancel_requested a"
  "ex_active (halt_undock r s) = ex_active s"
  "ex_undock (halt_undock r s) = Some u \<Longrightarrow> un_cancel_requested u"
  by (auto simp: halt_undock_def halt_active_def cancel_goal_def say_def Let_def split: option.splits if_splits)

lemma motor_disable_cancels:
  "ex_active (motor_disable r cid s) = Some a \<Longrightarrow> na_cancel_requested a"
  "ex_undock (motor_disable r cid s) = Some u \<Longrightarrow> un_cancel_requested u"
  unfolding motor_disable_def Let_def halt_cancels(2) by (auto dest: halt_cancels(1,3))


subsection \<open>Examples\<close>


text \<open>A destination whose acceptance comes after the motor disable, and a second one sent later.\<close>

definition example_disabled :: executor where
  "example_disabled = handle example_ros (example_context example_clear) (example_frame ''d'' ''motor_disable'')
     (handle example_ros (example_context example_clear) (example_frame ''n'' ''navigate_to_pose'') executor_new)"

definition example_renewed :: executor where
  "example_renewed = on_goal_response example_ros ''m'' 1 None 2 (Some (example_handle 9))
     (fired (On_nav_goal ''m'' 1 None 2) (handle example_ros (example_context example_clear) (example_frame ''m'' ''navigate_to_pose'')
       (on_goal_response example_ros ''n'' 0 None 1 (Some (example_handle 8)) (fired (On_nav_goal ''n'' 0 None 1) example_disabled))))"


end
