(* ===== verification/Bridge_Barrier.thy ===== *)
theory Bridge_Barrier
  imports Bridge_Executor Gates
begin

text \<open>
  The robot's own barrier against the server's gates: the executor repeats them for a frame that did
  not pass the server, and on the same readings the two agree on a destination.
\<close>

text \<open>The payload as the server decodes it.\<close>

definition lidar_of_text :: "string \<Rightarrow> lidar_state" where
  "lidar_of_text t = (if t = ''READY'' then Lidar_READY else if t = ''OFF'' then Lidar_OFF
     else if t = ''FAULT'' then Lidar_FAULT else if t = ''STARTING'' then Lidar_STARTING else Lidar_UNKNOWN)"

definition server_payload :: "node_base \<Rightarrow> base_state_data" where
  "server_payload n = (let b = nb_payload n in
     \<lparr>map_id = nb_map_id n, map_revision = nb_map_revision n,
      bs_operation_fault_reason = bb_operation_fault_reason b,
      bs_operation_fault_request_id = bb_operation_fault_request_id b,
      bs_operation_outcome_unknown = bb_operation_outcome_unknown b,
      bs_lidar_state = lidar_of_text (bb_lidar_state b), bs_lidar_power_supported = bb_lidar_power_supported b,
      bs_lidar_scan_age = bb_lidar_scan_age b, bs_map_activated_stamp_ns = nb_map_activated_stamp_ns n,
      bs_session_generation = bb_session_generation b, bs_link_connected = bb_link_connected b,
      bs_telemetry_age = bb_telemetry_age b, bs_hardware_state_valid = bb_hardware_state_valid b,
      bs_charge_state = bb_charge_state b, bs_motors_enabled = bb_motors_enabled b,
      bs_estop_pressed = bb_estop_pressed b, bs_fault_flags = bb_fault_flags b, bs_stall_value = bb_stall_value b,
      bs_bumpers_front = bb_bumpers_front b, bs_bumpers_rear = bb_bumpers_rear b, bs_bumpers_valid = bb_bumpers_valid b,
      bs_dock_state = Some (bb_dock_state b), bs_dock_state_valid = Some (bb_dock_state_valid b),
      bs_dock_phase = Some (bb_dock_phase b), bs_dock_phase_name = Some (bb_dock_phase_name b),
      bs_undock_active = bb_undock_active b, bs_undock_release_attempts = Some (bb_undock_release_attempts b),
      bs_minimum_rear_range = bb_minimum_rear_range b, bs_rear_sonar_usable = Some (bb_rear_sonar_usable b),
      bs_redock_inhibited = Some (bb_redock_inhibited b),
      bs_redock_inhibit_remaining = Some (bb_redock_inhibit_remaining b),
      bs_undock_profile_commissioned = Some (bb_undock_profile_commissioned b),
      bs_odom_epoch_valid = bb_odom_epoch_valid b, bs_raw_odom_age_s = nb_raw_odom_age_s n,
      bs_localization_recovery_required = bb_localization_recovery_required b,
      bs_localization_recovery_stage = bb_localization_recovery_stage b,
      bs_localization_seed_stamp_ns = bb_localization_seed_stamp_ns b\<rparr>)"

text \<open>The facts the server's gate reads for a robot that is online, from these readings.\<close>

definition server_facts :: "node_base \<Rightarrow> rat \<Rightarrow> pose_data \<Rightarrow> pyfloat \<Rightarrow> bool \<Rightarrow> state_facts" where
  "server_facts n receipt_age pose page allow =
     facts_from_state Online (Some (server_payload n)) (Some pose) [] False (Some (Fin receipt_age)) (Some page) allow"

lemma lidar_ready [simp]: "(lidar_of_text t = Lidar_READY) = (t = ''READY'')"
  by (simp add: lidar_of_text_def)

lemma server_facts_fields [simp]:
  "online (server_facts n r p g a)" "base_state_age (server_facts n r p g a) = Some (Fin r)"
  "pose_age (server_facts n r p g a) = Some g" "allow_unlocalized (server_facts n r p g a) = a"
  "localized (server_facts n r p g a) = ps_localized p"
  "lidar_state (server_facts n r p g a) = lidar_of_text (bb_lidar_state (nb_payload n))"
  "lidar_scan_age (server_facts n r p g a) = bb_lidar_scan_age (nb_payload n)"
  "link_connected (server_facts n r p g a) = bb_link_connected (nb_payload n)"
  "telemetry_age (server_facts n r p g a) = bb_telemetry_age (nb_payload n)"
  "hardware_state_valid (server_facts n r p g a) = bb_hardware_state_valid (nb_payload n)"
  "fault_flags (server_facts n r p g a) = bb_fault_flags (nb_payload n)"
  "estop_pressed (server_facts n r p g a) = bb_estop_pressed (nb_payload n)"
  "motors_enabled (server_facts n r p g a) = bb_motors_enabled (nb_payload n)"
  "odom_epoch_valid (server_facts n r p g a) = bb_odom_epoch_valid (nb_payload n)"
  "localization_recovery_required (server_facts n r p g a) = bb_localization_recovery_required (nb_payload n)"
  "localization_seed_stamp_ns (server_facts n r p g a) = bb_localization_seed_stamp_ns (nb_payload n)"
  "dock_state (server_facts n r p g a) = Some (bb_dock_state (nb_payload n))"
  "dock_state_valid (server_facts n r p g a) = Some (bb_dock_state_valid (nb_payload n))"
  "charge_state (server_facts n r p g a) = bb_charge_state (nb_payload n)"
  by (simp_all add: server_facts_def facts_from_state_def facts_from_base_def facts_from_pose_def server_payload_def Let_def)

lemma same_dock: "on_dock (server_facts n r p g a) = bridge_on_dock (nb_payload n)"
  by (simp add: on_dock_def bridge_on_dock_def dock_word_def charge_word_def DOCK_OBSERVER_DOCKED_def
      ON_DOCK_STATES_def CHARGING_STATES_def bridge_ON_DOCK_STATES_def bridge_CHARGING_STATES_def)

lemma same_scans: "(lidar_reason (server_facts n r p g a) = None) = scans_fresh (Some n) (Some r)"
  by (auto simp: lidar_reason_def scans_fresh_def Let_def not_less)

text \<open>What the freshness test implies for the coarser limits behind it.\<close>

lemma scans_fresh_limits:
  assumes "scans_fresh (Some n) (Some r)"
  shows "bb_link_connected (nb_payload n)" "bb_hardware_state_valid (nb_payload n)"
    "pf_le (Fin 0) (bb_telemetry_age (nb_payload n))" "pf_le (bb_telemetry_age (nb_payload n)) (Fin 2)" "r \<le> 3"
  using assms by (auto simp: scans_fresh_def Let_def elim!: is_finiteE)



end
