(* ===== verification/Tuning_Validation.thy ===== *)
theory Tuning_Validation
  imports Tuning_Policy
begin

text \<open>
  The server's pre-filter for robot tuning (\<open>server/app/tuning/validation.py\<close>): the bounded scan of
  a JSON value, the semantics of the reviewed registry, and the checks of requests, snapshots and
  replies.

  A JSON object is a \<open>VDict\<close>, whose keys are strings. A check returns the first error it raises, or
  \<open>None\<close>; \<open>Crash\<close> is an exception the source does not turn into a refusal (a registry whose entries
  do not have the shape the reviewed file has). Texts are ASCII, so a text has as many bytes as
  characters and always encodes. Comparisons and the one sum of two numbers are exact.
\<close>

subsection \<open>Errors\<close>

datatype invalid_code =
    Payload_too_deep | Non_finite_number | Integer_too_large | Payload_too_large | Bad_type
  | Bool_as_number | Out_of_bounds | Unknown_field | Path_injection | Unknown_logical_id
  | Protected_parameter | Not_applicable | Not_editable | Missing_field | Invalid_dependency_operand
  | Dependency_violation | Bad_const | Bad_pattern | Unsupported_operation | Non_canonical_uuid
  | Duplicate_change_id | Inconsistent_active_state | Bad_enum

datatype tuning_error = Invalid invalid_code | Crash

definition need :: "bool \<Rightarrow> invalid_code \<Rightarrow> tuning_error option" where
  "need ok code = (if ok then None else Some (Invalid code))"

text \<open>The first error of a sequence of checks.\<close>

fun checks :: "tuning_error option list \<Rightarrow> tuning_error option" where
  "checks [] = None"
| "checks (None # cs) = checks cs"
| "checks (Some e # cs) = Some e"

lemma checks_None [simp]: "checks cs = None \<longleftrightarrow> (\<forall>c\<in>set cs. c = None)"
  by (induction cs rule: checks.induct) auto

lemma need_None [simp]: "need ok code = None \<longleftrightarrow> ok"
  by (simp add: need_def)

subsection \<open>Constants\<close>

definition TUNING_CONTRACT :: string where "TUNING_CONTRACT = ''patrolbot-robot-tuning''"
definition OPERATIONS :: "string list" where
  "OPERATIONS = [''read'', ''save'', ''apply'', ''redeploy'', ''status'', ''restore'']"
definition MUTATION_OPERATIONS :: "string list" where
  "MUTATION_OPERATIONS = [''save'', ''apply'', ''redeploy'', ''restore'']"
definition REQUEST_MAX_BYTES :: nat where "REQUEST_MAX_BYTES = 18 * 1024"
definition RESPONSE_MAX_BYTES :: nat where "RESPONSE_MAX_BYTES = 256 * 1024"
definition MAX_DEPTH :: nat where "MAX_DEPTH = 32"
definition MAX_ITEMS :: nat where "MAX_ITEMS = 8192"
definition MAX_CHANGES :: nat where "MAX_CHANGES = 32"
definition MAX_DETAIL :: nat where "MAX_DETAIL = 512"
definition MAX_USERNAME :: nat where "MAX_USERNAME = 128"
definition JS_SAFE_INT :: int where "JS_SAFE_INT = 2 ^ 53 - 1"
definition MAX_INT :: int where "MAX_INT = 2 ^ 63 - 1"
definition OUTCOMES :: "string list" where
  "OUTCOMES = [''ok'', ''conflict'', ''refused'', ''failed'', ''unknown'']"
definition ROLES :: "string list" where "ROLES = [''administrator'', ''operator'', ''observer'']"

subsection \<open>Primitive checks\<close>

definition get :: "(string \<times> pyval) list \<Rightarrow> string \<Rightarrow> pyval" where
  "get d k = default VNone (dget d k)"

definition is_strict_int :: "pyval \<Rightarrow> bool" where
  "is_strict_int v = (case v of VInt i \<Rightarrow> True | _ \<Rightarrow> False)"

text \<open>A finite number and its value.\<close>

definition number_of :: "pyval \<Rightarrow> rat option" where
  "number_of v = (case v of VInt i \<Rightarrow> if \<bar>i\<bar> \<le> MAX_INT then Some (of_int i) else None
     | VFloat x \<Rightarrow> rat_of x | _ \<Rightarrow> None)"

definition is_finite_number :: "pyval \<Rightarrow> bool" where
  "is_finite_number v = (number_of v \<noteq> None)"

text \<open>What a number is worth in a comparison, where a boolean counts as 0 or 1.\<close>

definition numeric :: "pyval \<Rightarrow> pyfloat option" where
  "numeric v = (case v of VBool b \<Rightarrow> Some (Fin (if b then 1 else 0)) | VInt i \<Rightarrow> Some (Fin (of_int i))
     | VFloat x \<Rightarrow> Some x | _ \<Rightarrow> None)"

definition canonical_uuid :: "pyval \<Rightarrow> string option" where
  "canonical_uuid v = (case v of VStr s \<Rightarrow> if uuid_canonical s then Some s else None | _ \<Rightarrow> None)"

definition has_path_injection :: "string \<Rightarrow> bool" where
  "has_path_injection s = (substring ''..'' s \<or> CHR ''/'' \<in> set s \<or> CHR 0x5C \<in> set s \<or> CHR 0x00 \<in> set s)"

text \<open>\<open>[a-z][a-z0-9_]*(\.[a-z0-9_]+)*\<close>, as the automaton that reads it.\<close>

definition id_char :: "char \<Rightarrow> bool" where
  "id_char c = (c \<in> set ''abcdefghijklmnopqrstuvwxyz0123456789_'')"

fun logical_rest :: "bool \<Rightarrow> string \<Rightarrow> bool" where
  "logical_rest dotted [] = (\<not> dotted)"
| "logical_rest dotted (c # cs) =
     (if id_char c then logical_rest False cs
      else if c = CHR ''.'' \<and> \<not> dotted then logical_rest True cs
      else False)"

definition logical_id :: "string \<Rightarrow> bool" where
  "logical_id s = (case s of [] \<Rightarrow> False
     | c # cs \<Rightarrow> c \<in> set ''abcdefghijklmnopqrstuvwxyz'' \<and> logical_rest False cs)"

definition is_logical_id :: "pyval \<Rightarrow> bool" where
  "is_logical_id v = (case v of VStr s \<Rightarrow> length s \<le> 64 \<and> logical_id s | _ \<Rightarrow> False)"

text \<open>\<open>sha256\<close> in lower-case hexadecimal, and the text without its prefix.\<close>

definition sha256_hex :: "string \<Rightarrow> bool" where
  "sha256_hex s = (length s = 64 \<and> list_all lower_hex s)"

definition remove_prefix :: "string \<Rightarrow> string \<Rightarrow> string" where
  "remove_prefix p s = (if take (length p) s = p then drop (length p) s else s)"

subsection \<open>The bounded scan\<close>

text \<open>
  The loop of \<open>_scan\<close> over its work stack, top first. The two inner loops push the children of an
  object or a list, counting items and key bytes. The loop carries fuel; running out of it is \<open>None\<close>.
\<close>

fun scan_fields :: "nat \<Rightarrow> nat \<Rightarrow> (string \<times> pyval) list \<Rightarrow> nat \<Rightarrow> nat \<Rightarrow> (pyval \<times> nat) list
    \<Rightarrow> tuning_error + (nat \<times> nat \<times> (pyval \<times> nat) list)" where
  "scan_fields mx depth [] items bytes stack = Inr (items, bytes, stack)"
| "scan_fields mx depth ((k, v) # d) items bytes stack =
     (if MAX_ITEMS < Suc items then Inl (Invalid Payload_too_large)
      else if mx < length k then Inl (Invalid Payload_too_large)
      else scan_fields mx depth d (Suc items) (bytes + length k) ((v, Suc depth) # stack))"

fun scan_elements :: "nat \<Rightarrow> pyval list \<Rightarrow> nat \<Rightarrow> (pyval \<times> nat) list
    \<Rightarrow> tuning_error + (nat \<times> (pyval \<times> nat) list)" where
  "scan_elements depth [] items stack = Inr (items, stack)"
| "scan_elements depth (v # vs) items stack =
     (if MAX_ITEMS < Suc items then Inl (Invalid Payload_too_large)
      else scan_elements depth vs (Suc items) ((v, Suc depth) # stack))"

definition scan_node :: "nat \<Rightarrow> pyval \<Rightarrow> nat \<Rightarrow> nat \<Rightarrow> nat \<Rightarrow> (pyval \<times> nat) list
    \<Rightarrow> tuning_error + (nat \<times> nat \<times> (pyval \<times> nat) list)" where
  "scan_node mx v depth items bytes stack =
     (case v of
        VNone \<Rightarrow> Inr (items, bytes + 8, stack)
      | VBool b \<Rightarrow> Inr (items, bytes + 8, stack)
      | VFloat x \<Rightarrow> if is_finite x then Inr (items, bytes + 8, stack) else Inl (Invalid Non_finite_number)
      | VInt i \<Rightarrow> if MAX_INT < \<bar>i\<bar> then Inl (Invalid Integer_too_large) else Inr (items, bytes + 8, stack)
      | VStr s \<Rightarrow> if mx < length s then Inl (Invalid Payload_too_large) else Inr (items, bytes + length s, stack)
      | VDict d \<Rightarrow> scan_fields mx depth d items (bytes + 8) stack
      | VList vs \<Rightarrow> (case scan_elements depth vs items stack of
            Inl e \<Rightarrow> Inl e | Inr (items', stack') \<Rightarrow> Inr (items', bytes + 8, stack'))
      | VObj n \<Rightarrow> Inl (Invalid Bad_type))"

fun scan_loop :: "nat \<Rightarrow> nat \<Rightarrow> (pyval \<times> nat) list \<Rightarrow> nat \<Rightarrow> nat \<Rightarrow> tuning_error option option" where
  "scan_loop 0 mx stack items bytes = None"
| "scan_loop (Suc n) mx [] items bytes = Some None"
| "scan_loop (Suc n) mx ((v, depth) # stack) items bytes =
     (if MAX_DEPTH < depth then Some (Some (Invalid Payload_too_deep))
      else case scan_node mx v depth items bytes stack of
        Inl e \<Rightarrow> Some (Some e)
      | Inr (items', bytes', stack') \<Rightarrow>
          if mx < bytes' then Some (Some (Invalid Payload_too_large))
          else scan_loop n mx stack' items' bytes')"

definition SCAN_FUEL :: nat where "SCAN_FUEL = MAX_ITEMS + 2"

definition scan :: "pyval \<Rightarrow> nat \<Rightarrow> tuning_error option" where
  "scan v mx = (case scan_loop SCAN_FUEL mx [(v, 0)] 0 0 of None \<Rightarrow> Some Crash | Some r \<Rightarrow> r)"

text \<open>What the scan accepts, by recursion on the value.\<close>

fun nesting :: "pyval \<Rightarrow> nat" where
  "nesting (VList vs) = foldr max (map (Suc \<circ> nesting) vs) 0"
| "nesting (VDict d) = foldr max (map (\<lambda>p. Suc (nesting (snd p))) d) 0"
| "nesting v = 0"

fun item_count :: "pyval \<Rightarrow> nat" where
  "item_count (VList vs) = sum_list (map (Suc \<circ> item_count) vs)"
| "item_count (VDict d) = sum_list (map (\<lambda>p. Suc (item_count (snd p))) d)"
| "item_count v = 0"

fun byte_count :: "pyval \<Rightarrow> nat" where
  "byte_count (VStr s) = length s"
| "byte_count (VList vs) = 8 + sum_list (map byte_count vs)"
| "byte_count (VDict d) = 8 + sum_list (map (\<lambda>p. length (fst p) + byte_count (snd p)) d)"
| "byte_count v = 8"

fun plain_value :: "pyval \<Rightarrow> bool" where
  "plain_value (VFloat x) = is_finite x"
| "plain_value (VInt i) = (\<bar>i\<bar> \<le> MAX_INT)"
| "plain_value (VList vs) = list_all plain_value vs"
| "plain_value (VDict d) = list_all (\<lambda>p. plain_value (snd p)) d"
| "plain_value (VObj n) = False"
| "plain_value v = True"

definition bounded_value :: "nat \<Rightarrow> pyval \<Rightarrow> bool" where
  "bounded_value mx v \<longleftrightarrow> plain_value v \<and> nesting v \<le> MAX_DEPTH \<and> item_count v \<le> MAX_ITEMS \<and> byte_count v \<le> mx"

subsection \<open>The reviewed registry\<close>

type_synonym entry = "(string \<times> pyval) list"
type_synonym index = "(string \<times> entry) list"

definition index_entry :: "index \<Rightarrow> pyval \<Rightarrow> index" where
  "index_entry ix e =
     (case e of VDict d \<Rightarrow> (case dget d ''id'' of Some (VStr pid) \<Rightarrow> dset ix pid d | _ \<Rightarrow> ix) | _ \<Rightarrow> ix)"

definition registry_index :: "entry \<Rightarrow> index" where
  "registry_index registry =
     (case get registry ''parameters'' of VList es \<Rightarrow> foldl index_entry [] es | _ \<Rightarrow> [])"

text \<open>
  Reading the catalogue. A candidate path cannot be read, holds no JSON, or holds a value; the
  cache keeps the first catalogue accepted. \<open>version\<close> is compared with \<open>==\<close>, so \<open>1.0\<close> and \<open>true\<close>
  pass.
\<close>

datatype candidate = Unreadable | Not_json | Json pyval
datatype registry_error = Not_valid_json | Not_reviewed | Unsupported_version | No_parameters | Not_installed

definition read_catalog :: "pyval \<Rightarrow> registry_error + entry" where
  "read_catalog data =
     (case data of
        VDict d \<Rightarrow>
          if get d ''contract'' \<noteq> VStr TUNING_CONTRACT then Inl Not_reviewed
          else if numeric (get d ''version'') \<noteq> Some (Fin 1) then Inl Unsupported_version
          else if registry_index d = [] then Inl No_parameters
          else Inr d
      | _ \<Rightarrow> Inl Not_reviewed)"

fun first_catalog :: "candidate list \<Rightarrow> registry_error + entry" where
  "first_catalog [] = Inl Not_installed"
| "first_catalog (Unreadable # cs) = first_catalog cs"
| "first_catalog (Not_json # cs) = Inl Not_valid_json"
| "first_catalog (Json v # cs) = read_catalog v"

definition load_registry :: "entry option \<Rightarrow> bool \<Rightarrow> candidate list \<Rightarrow> (registry_error + entry) \<times> entry option" where
  "load_registry cache force cs =
     (case (cache, force) of
        (Some d, False) \<Rightarrow> (Inr d, cache)
      | _ \<Rightarrow> (case first_catalog cs of Inl e \<Rightarrow> (Inl e, cache) | Inr d \<Rightarrow> (Inr d, Some d)))"

definition classify :: "entry \<Rightarrow> string" where
  "classify entry =
     (if get entry ''activation_block'' = VStr ''commissioned_usable_lower_bound_unknown'' then ''uncommissioned''
      else if py_truth (get entry ''protected'') \<or> py_truth (get entry ''not_applicable'') then ''read_only''
      else if get entry ''mutability'' = VStr ''restart_required'' then ''restart_required''
      else ''candidate_unverified'')"

subsection \<open>Values and changes\<close>

definition check_bounds :: "entry \<Rightarrow> rat \<Rightarrow> tuning_error option" where
  "check_bounds entry x =
     (case get entry ''bounds'' of
        VDict b \<Rightarrow> checks
          [case number_of (get b ''lower'') of None \<Rightarrow> None
             | Some lo \<Rightarrow> need (if py_truth (default (VBool True) (dget b ''lower_inclusive''))
                               then lo \<le> x else lo < x) Out_of_bounds,
           case number_of (get b ''upper'') of None \<Rightarrow> None
             | Some hi \<Rightarrow> need (if py_truth (default (VBool True) (dget b ''upper_inclusive''))
                               then x \<le> hi else x < hi) Out_of_bounds]
      | _ \<Rightarrow> None)"

definition check_number :: "entry \<Rightarrow> pyval \<Rightarrow> bool \<Rightarrow> tuning_error option" where
  "check_number entry v bounded =
     (if get entry ''type'' = VStr ''number'' \<or> get entry ''type'' = VStr ''integer'' then
        (case number_of v of
           None \<Rightarrow> Some (Invalid Bad_type)
         | Some x \<Rightarrow>
             if get entry ''type'' = VStr ''integer'' \<and> \<not> is_strict_int v then Some (Invalid Bad_type)
             else if bounded then check_bounds entry x else None)
      else Some (Invalid Bad_type))"

definition check_value :: "entry \<Rightarrow> pyval \<Rightarrow> bool \<Rightarrow> tuning_error option" where
  "check_value entry v bounded =
     (case v of
        VBool b \<Rightarrow> need (get entry ''type'' = VStr ''boolean'') Bool_as_number
      | _ \<Rightarrow> check_number entry v bounded)"

definition is_text :: "pyval \<Rightarrow> bool" where
  "is_text v = (case v of VStr s \<Rightarrow> True | _ \<Rightarrow> False)"

definition editable :: "entry \<Rightarrow> tuning_error option" where
  "editable entry = checks
     [need (\<not> py_truth (get entry ''protected'')) Protected_parameter,
      need (\<not> py_truth (get entry ''not_applicable'')) Not_applicable,
      need (py_truth (get entry ''accepts_edits'')) Not_editable]"

definition change_value :: "entry \<Rightarrow> entry \<Rightarrow> tuning_error + pyval" where
  "change_value entry d =
     (case editable entry of
        Some e \<Rightarrow> Inl e
      | None \<Rightarrow>
        (case dget d ''value'' of
           None \<Rightarrow> Inl (Invalid Missing_field)
         | Some v \<Rightarrow>
             if is_text v then Inl (Invalid Bad_type)
             else (case check_value entry v True of Some e \<Rightarrow> Inl e | None \<Rightarrow> Inr v)))"

definition check_change :: "pyval \<Rightarrow> index \<Rightarrow> tuning_error + (string \<times> pyval)" where
  "check_change change ix =
     (case change of
        VDict d \<Rightarrow>
          if \<not> list_all (\<lambda>k. k \<in> set [''id'', ''value'']) (dkeys d) then Inl (Invalid Unknown_field)
          else (case get d ''id'' of
             VStr pid \<Rightarrow>
               if has_path_injection pid then Inl (Invalid Path_injection)
               else (case dget ix pid of
                  None \<Rightarrow> Inl (Invalid Unknown_logical_id)
                | Some entry \<Rightarrow>
                    (case change_value entry d of Inl e \<Rightarrow> Inl e | Inr v \<Rightarrow> Inr (pid, v)))
           | _ \<Rightarrow> Inl (Invalid Path_injection))
      | _ \<Rightarrow> Inl (Invalid Bad_type))"

subsection \<open>Dependencies\<close>

record edge =
  ed_source :: string
  ed_target :: pyval
  ed_kind :: pyval
  ed_equals :: pyval
  ed_tolerance :: pyval

definition edge_of :: "string \<Rightarrow> pyval \<Rightarrow> edge option" where
  "edge_of pid dep =
     (case dep of
        VDict d \<Rightarrow> Some \<lparr>ed_source = pid, ed_target = get d ''target'', ed_kind = get d ''kind'',
          ed_equals = get d ''equals'',
          ed_tolerance = default (VFloat (Fin (1 / 10 ^ 9))) (dget d ''tolerance'')\<rparr>
      | _ \<Rightarrow> None)"

text \<open>The edges of one entry; a dependency field that cannot be iterated raises (\<open>None\<close>).\<close>

definition entry_edges :: "string \<Rightarrow> entry \<Rightarrow> edge list option" where
  "entry_edges pid entry =
     (case default (VList []) (dget entry ''dependencies'') of
        VList ds \<Rightarrow> Some (List.map_filter (edge_of pid) ds)
      | VDict d \<Rightarrow> Some []
      | VStr s \<Rightarrow> Some []
      | _ \<Rightarrow> None)"

fun dependency_edges :: "index \<Rightarrow> edge list option" where
  "dependency_edges [] = Some []"
| "dependency_edges ((pid, entry) # ix) =
     (case entry_edges pid entry of None \<Rightarrow> None
      | Some es \<Rightarrow> (case dependency_edges ix of None \<Rightarrow> None | Some es' \<Rightarrow> Some (es @ es')))"

definition resolved_value :: "pyval \<Rightarrow> (string \<times> pyval) list \<Rightarrow> index \<Rightarrow> pyval" where
  "resolved_value pid resolved ix =
     (case pid of
        VStr s \<Rightarrow> (case dget resolved s of Some v \<Rightarrow> v
          | None \<Rightarrow> (case dget ix s of None \<Rightarrow> VNone | Some entry \<Rightarrow> get entry ''default''))
      | _ \<Rightarrow> VNone)"

definition in_names :: "pyval \<Rightarrow> string list \<Rightarrow> bool" where
  "in_names v names = (case v of VStr s \<Rightarrow> s \<in> set names | _ \<Rightarrow> False)"

definition speed_kind :: "index \<Rightarrow> string \<Rightarrow> bool" where
  "speed_kind ix pid =
     (case dget ix pid of None \<Rightarrow> False
      | Some entry \<Rightarrow> in_names (get entry ''value_kind'') [''speed'', ''angular_speed''])"

definition compare_operands :: "edge \<Rightarrow> bool \<Rightarrow> index \<Rightarrow> rat \<Rightarrow> rat \<Rightarrow> tuning_error option" where
  "compare_operands e source_changed ix left right =
     (if ed_kind e = VStr ''less_than_or_equal'' then
        need (left \<le> right \<or> (\<not> source_changed \<and> speed_kind ix (ed_source e))) Dependency_violation
      else if ed_kind e = VStr ''sum_equals'' then
        (case number_of (ed_equals e) of
           None \<Rightarrow> Some (Invalid Dependency_violation)
         | Some s \<Rightarrow> (case numeric (ed_tolerance e) of
             None \<Rightarrow> Some Crash
           | Some tol \<Rightarrow> need (\<not> pf_lt tol (Fin \<bar>(left + right) - s\<bar>)) Dependency_violation))
      else None)"

definition check_edge :: "edge \<Rightarrow> string list \<Rightarrow> index \<Rightarrow> (string \<times> pyval) list \<Rightarrow> tuning_error option" where
  "check_edge e changed ix resolved =
     (if ed_source e \<notin> set changed \<and> \<not> hashable (ed_target e) then Some Crash
      else if ed_source e \<notin> set changed \<and> \<not> in_names (ed_target e) changed then None
      else if \<not> hashable (ed_target e) then Some Crash
      else case (number_of (resolved_value (VStr (ed_source e)) resolved ix),
                 number_of (resolved_value (ed_target e) resolved ix)) of
        (Some left, Some right) \<Rightarrow> compare_operands e (ed_source e \<in> set changed) ix left right
      | _ \<Rightarrow> Some (Invalid Invalid_dependency_operand))"

definition check_dependencies :: "string list \<Rightarrow> index \<Rightarrow> (string \<times> pyval) list \<Rightarrow> tuning_error option" where
  "check_dependencies changed ix resolved =
     (if changed = [] then None
      else case dependency_edges ix of
        None \<Rightarrow> Some Crash
      | Some es \<Rightarrow> checks (map (\<lambda>e. check_edge e changed ix resolved) es))"

subsection \<open>Requests\<close>

definition same_names :: "string list \<Rightarrow> string list \<Rightarrow> bool" where
  "same_names xs ys = (list_all (\<lambda>x. x \<in> set ys) xs \<and> list_all (\<lambda>y. y \<in> set xs) ys)"

definition check_generation :: "entry \<Rightarrow> tuning_error option" where
  "check_generation payload =
     (case get payload ''generation'' of
        VDict g \<Rightarrow> checks
          [need (same_names (dkeys g) [''capability'', ''session_id'']) Unknown_field,
           need (get g ''capability'' = VStr TUNING_CAPABILITY) Bad_const,
           need (canonical_uuid (get g ''session_id'') \<noteq> None) Bad_pattern]
      | _ \<Rightarrow> Some (Invalid Bad_type))"

definition check_revision :: "entry \<Rightarrow> string \<Rightarrow> tuning_error + int" where
  "check_revision payload key =
     (case dget payload key of
        None \<Rightarrow> Inl (Invalid Missing_field)
      | Some (VInt i) \<Rightarrow> if 0 \<le> i \<and> i \<le> JS_SAFE_INT then Inr i else Inl (Invalid Out_of_bounds)
      | Some _ \<Rightarrow> Inl (Invalid Bad_type))"

definition COMMON_KEYS :: "string list" where
  "COMMON_KEYS = [''contract'', ''version'', ''operation'', ''request_id'', ''generation'']"

definition REQUIRED_KEYS :: "string \<Rightarrow> string list" where
  "REQUIRED_KEYS operation = COMMON_KEYS @
     (if operation = ''save'' then [''base_revision'', ''changes'']
      else if operation \<in> set [''apply'', ''redeploy''] then [''expected_revision'']
      else if operation = ''restore'' then [''expected_revision'', ''restore_revision'', ''target'']
      else [])"

definition ALLOWED_KEYS :: "string \<Rightarrow> string list" where
  "ALLOWED_KEYS operation = REQUIRED_KEYS operation @ (if operation = ''status'' then [''job_id''] else [])"

text \<open>The loop over the changes of a save: the ids seen and the values resolved so far.\<close>

fun check_changes :: "pyval list \<Rightarrow> index \<Rightarrow> string list \<Rightarrow> (string \<times> pyval) list
    \<Rightarrow> tuning_error + (string list \<times> (string \<times> pyval) list)" where
  "check_changes [] ix changed resolved = Inr (changed, resolved)"
| "check_changes (c # cs) ix changed resolved =
     (case check_change c ix of
        Inl e \<Rightarrow> Inl e
      | Inr (pid, v) \<Rightarrow>
          if pid \<in> set changed then Inl (Invalid Duplicate_change_id)
          else check_changes cs ix (changed @ [pid]) (dset resolved pid v))"

definition failed :: "tuning_error + 'a \<Rightarrow> tuning_error option" where
  "failed r = (case r of Inl e \<Rightarrow> Some e | Inr x \<Rightarrow> None)"

definition saved_changes :: "entry \<Rightarrow> index \<Rightarrow> tuning_error + (string list \<times> (string \<times> pyval) list)" where
  "saved_changes payload ix =
     (case get payload ''changes'' of
        VList cs \<Rightarrow>
          if 1 \<le> length cs \<and> length cs \<le> MAX_CHANGES then check_changes cs ix [] []
          else Inl (Invalid Out_of_bounds)
      | _ \<Rightarrow> Inl (Invalid Out_of_bounds))"

definition check_save :: "entry \<Rightarrow> index \<Rightarrow> tuning_error option" where
  "check_save payload ix = checks
     [failed (check_revision payload ''base_revision''),
      case saved_changes payload ix of
        Inl e \<Rightarrow> Some e
      | Inr (changed, resolved) \<Rightarrow> check_dependencies changed ix resolved]"

definition check_restore :: "entry \<Rightarrow> tuning_error option" where
  "check_restore payload =
     (case check_revision payload ''expected_revision'' of
        Inl e \<Rightarrow> Some e
      | Inr expected \<Rightarrow>
        (case check_revision payload ''restore_revision'' of
           Inl e \<Rightarrow> Some e
         | Inr restored \<Rightarrow> checks
             [need (restored \<le> expected) Out_of_bounds,
              need (get payload ''target'' = VStr ''last_known_good'') Bad_const]))"

definition check_operation :: "string \<Rightarrow> entry \<Rightarrow> index \<Rightarrow> tuning_error option" where
  "check_operation operation payload ix =
     (if operation = ''save'' then check_save payload ix
      else if operation \<in> set [''apply'', ''redeploy''] then failed (check_revision payload ''expected_revision'')
      else if operation = ''restore'' then check_restore payload
      else if operation = ''status'' then
        (case dget payload ''job_id'' of None \<Rightarrow> None
         | Some j \<Rightarrow> need (canonical_uuid j \<noteq> None) Non_canonical_uuid)
      else None)"

definition check_shape :: "string \<Rightarrow> entry \<Rightarrow> tuning_error option" where
  "check_shape operation payload = checks
     [need (list_all (\<lambda>k. k \<in> set (ALLOWED_KEYS operation)) (dkeys payload)) Unknown_field,
      need (list_all (\<lambda>k. k \<in> set (dkeys payload)) (REQUIRED_KEYS operation)) Missing_field,
      need (get payload ''contract'' = VStr TUNING_CONTRACT) Bad_const,
      need (get payload ''version'' = VInt 1) Bad_const,
      need (canonical_uuid (get payload ''request_id'') \<noteq> None) Non_canonical_uuid,
      check_generation payload]"

definition check_request :: "entry \<Rightarrow> entry \<Rightarrow> tuning_error option" where
  "check_request payload registry =
     (case get payload ''operation'' of
        VStr operation \<Rightarrow> checks
          [need (operation \<in> set OPERATIONS) Unsupported_operation,
           check_shape operation payload,
           check_operation operation payload (registry_index registry)]
      | _ \<Rightarrow> Some (Invalid Unsupported_operation))"

definition validate_request :: "pyval \<Rightarrow> entry \<Rightarrow> tuning_error option" where
  "validate_request request registry =
     (case request of
        VDict payload \<Rightarrow> checks [scan request REQUEST_MAX_BYTES, check_request payload registry]
      | _ \<Rightarrow> Some (Invalid Bad_type))"

subsection \<open>Snapshots\<close>

definition snapshot_scalar :: "entry \<Rightarrow> pyval \<Rightarrow> bool \<Rightarrow> tuning_error option" where
  "snapshot_scalar entry v bounded =
     (if v = VNone then None
      else if get entry ''type'' = VStr ''string'' then
        (case v of VStr s \<Rightarrow> need (length s \<le> 256 \<and> \<not> py_truth (get entry ''accepts_edits'')) Bad_type
         | _ \<Rightarrow> Some (Invalid Bad_type))
      else check_value entry v bounded)"

text \<open>\<open>value == other\<close> for a finite number: another number of the same worth.\<close>

definition same_number :: "rat \<Rightarrow> pyval \<Rightarrow> bool" where
  "same_number x other = (numeric other = Some (Fin x))"

definition LIMIT_NAMES :: "string list" where
  "LIMIT_NAMES = [''max_linear_m_s'', ''max_angular_rad_s'']"

definition HARD_LIMITS :: "(string \<times> rat) list" where
  "HARD_LIMITS = [(''max_linear_m_s'', 3 / 10), (''max_angular_rad_s'', 7 / 10)]"

definition in_range :: "pyval \<Rightarrow> rat \<Rightarrow> bool" where
  "in_range v hi = (case number_of v of None \<Rightarrow> False | Some x \<Rightarrow> 0 \<le> x \<and> x \<le> hi)"

definition safe_revision :: "pyval \<Rightarrow> bool" where
  "safe_revision v = (case v of VInt i \<Rightarrow> 0 \<le> i \<and> i \<le> JS_SAFE_INT | _ \<Rightarrow> False)"

definition observed_limits :: "pyval \<Rightarrow> entry \<Rightarrow> tuning_error option" where
  "observed_limits limits vals =
     (case limits of
        VNone \<Rightarrow> None
      | VDict l \<Rightarrow> checks (need (same_names (dkeys l) LIMIT_NAMES) Bad_type
          # map (\<lambda>(pid, hard). need (in_range (get l pid) hard \<and>
                 (case number_of (get l pid) of None \<Rightarrow> False | Some x \<Rightarrow> same_number x (get vals pid))) Bad_type)
              HARD_LIMITS)
      | _ \<Rightarrow> Some (Invalid Bad_type))"

definition check_readback :: "pyval \<Rightarrow> index \<Rightarrow> tuning_error option" where
  "check_readback readback ix =
     (case readback of
        VNone \<Rightarrow> None
      | VDict r \<Rightarrow>
          if \<not> same_names (dkeys r) [''source'', ''age_s'', ''hardware_session_generation'', ''values'', ''limits'']
             \<or> get r ''source'' \<noteq> VStr ''ros_parameters'' \<or> \<not> in_range (get r ''age_s'') 3
             \<or> \<not> safe_revision (get r ''hardware_session_generation'')
          then Some (Invalid Bad_type)
          else (case get r ''values'' of
             VDict vals \<Rightarrow> checks
               (map (\<lambda>(pid, v). case dget ix pid of None \<Rightarrow> Some (Invalid Unknown_logical_id)
                        | Some entry \<Rightarrow> snapshot_scalar entry v False) vals
                @ [observed_limits (get r ''limits'') vals])
           | _ \<Rightarrow> Some (Invalid Bad_type))
      | _ \<Rightarrow> Some (Invalid Bad_type))"

definition known_values :: "pyval \<Rightarrow> bool \<Rightarrow> index \<Rightarrow> tuning_error option" where
  "known_values vals bounded ix =
     (case vals of
        VDict d \<Rightarrow> checks (map (\<lambda>(pid, v). if \<not> is_logical_id (VStr pid) then Some (Invalid Unknown_logical_id)
             else case dget ix pid of None \<Rightarrow> Some (Invalid Unknown_logical_id)
                    | Some entry \<Rightarrow> snapshot_scalar entry v bounded) d)
      | _ \<Rightarrow> Some (Invalid Bad_type))"

definition all_null :: "pyval \<Rightarrow> bool" where
  "all_null vals = (case vals of VDict d \<Rightarrow> list_all (\<lambda>p. snd p = VNone) d | _ \<Rightarrow> True)"

definition check_limits :: "pyval \<Rightarrow> tuning_error option" where
  "check_limits limits =
     (case limits of
        VNone \<Rightarrow> None
      | VDict l \<Rightarrow> checks (need (same_names (dkeys l) LIMIT_NAMES) Bad_type
          # map (\<lambda>(key, hard). need (in_range (get l key) hard) Out_of_bounds) HARD_LIMITS)
      | _ \<Rightarrow> Some (Invalid Bad_type))"

definition is_bool :: "pyval \<Rightarrow> bool" where
  "is_bool v = (case v of VBool b \<Rightarrow> True | _ \<Rightarrow> False)"

definition is_dict :: "pyval \<Rightarrow> bool" where
  "is_dict v = (case v of VDict d \<Rightarrow> True | _ \<Rightarrow> False)"

definition bounded_text :: "pyval \<Rightarrow> nat \<Rightarrow> bool" where
  "bounded_text v n = (case v of VStr s \<Rightarrow> length s \<le> n | _ \<Rightarrow> False)"

definition check_pending_keys :: "pyval \<Rightarrow> index \<Rightarrow> tuning_error option" where
  "check_pending_keys keys ix =
     (case keys of
        VList ks \<Rightarrow> checks (map (\<lambda>k. need (is_logical_id k \<and> in_names k (dkeys ix)) Unknown_logical_id) ks)
      | _ \<Rightarrow> Some (Invalid Bad_type))"

definition check_catalog :: "pyval \<Rightarrow> tuning_error option" where
  "check_catalog catalog =
     (case catalog of
        VList es \<Rightarrow> checks (map (\<lambda>e. need (case e of VDict d \<Rightarrow> is_logical_id (get d ''id'') | _ \<Rightarrow> False) Bad_type) es)
      | _ \<Rightarrow> Some (Invalid Bad_type))"

definition check_safe_apply :: "pyval \<Rightarrow> tuning_error option" where
  "check_safe_apply v =
     (case v of
        VDict d \<Rightarrow> need (same_names (dkeys d) [''allowed'', ''reason''] \<and> is_bool (get d ''allowed'')
                       \<and> is_text (get d ''reason'')) Bad_type
      | _ \<Rightarrow> Some (Invalid Bad_type))"

definition digest_text :: "pyval \<Rightarrow> bool" where
  "digest_text v = (case v of VStr s \<Rightarrow> sha256_hex (remove_prefix ''sha256:'' s) | _ \<Rightarrow> False)"

definition uninitialized :: "entry \<Rightarrow> bool" where
  "uninitialized s = (get s ''session_id'' = VNone \<and> get s ''desired_revision'' = VNone)"

definition check_snapshot :: "entry \<Rightarrow> entry \<Rightarrow> tuning_error option" where
  "check_snapshot s registry = checks
     [check_readback (get s ''readback'') (registry_index registry),
      need (get s ''write_disabled_reason'' = VNone
            \<or> bounded_text (get s ''write_disabled_reason'') MAX_DETAIL) Bad_type,
      need (uninitialized s \<or> canonical_uuid (get s ''session_id'') \<noteq> None) Non_canonical_uuid,
      need (uninitialized s \<or> safe_revision (get s ''desired_revision'')) Bad_type,
      need (get s ''active_revision'' = VNone \<or> safe_revision (get s ''active_revision'')) Bad_type,
      need (is_bool (get s ''active_known'')) Bad_type,
      need (is_bool (get s ''writable'')) Bad_type,
      need (is_bool (get s ''activation_supported'')) Bad_type,
      known_values (get s ''desired'') True (registry_index registry),
      known_values (get s ''active'') False (registry_index registry),
      need (py_truth (get s ''active_known'') \<or> all_null (get s ''active'')) Inconsistent_active_state,
      need (\<not> (uninitialized s \<and> (py_truth (get s ''active_known'') \<or> py_truth (get s ''writable'')
            \<or> py_truth (get s ''activation_supported'') \<or> get s ''active_revision'' \<noteq> VNone)))
        Inconsistent_active_state,
      need (get s ''effective_limits'' = VNone \<or> py_truth (get s ''active_known'')) Inconsistent_active_state,
      check_limits (get s ''effective_limits''),
      check_pending_keys (get s ''pending_keys'') (registry_index registry),
      check_catalog (get s ''catalog''),
      check_safe_apply (get s ''safe_apply''),
      need (get s ''latest_job'' = VNone \<or> is_dict (get s ''latest_job'')) Bad_type,
      need (get s ''digest'' = VNone \<or> digest_text (get s ''digest'')) Bad_type,
      need (bounded_text (get s ''compatibility'') 200) Bad_type]"

definition validate_snapshot :: "pyval \<Rightarrow> entry \<Rightarrow> tuning_error option" where
  "validate_snapshot snapshot registry =
     (case snapshot of
        VDict s \<Rightarrow> checks [scan snapshot RESPONSE_MAX_BYTES, check_snapshot s registry]
      | _ \<Rightarrow> Some (Invalid Bad_type))"

subsection \<open>Actors and replies\<close>

definition validate_actor :: "pyval \<Rightarrow> tuning_error option" where
  "validate_actor actor =
     (case actor of
        VDict a \<Rightarrow> checks
          [need (same_names (dkeys a) [''id'', ''username'', ''role'']) Unknown_field,
           need (is_strict_int (get a ''id'')) Bad_type,
           need (case get a ''username'' of VStr u \<Rightarrow> 1 \<le> length u \<and> length u \<le> MAX_USERNAME | _ \<Rightarrow> False) Bad_type,
           need (in_names (get a ''role'') ROLES) Bad_enum]
      | _ \<Rightarrow> Some (Invalid Bad_type))"

record tuning_response =
  ts_request_id :: string
  ts_outcome :: string
  ts_detail :: string
  ts_snapshot :: pyval
  ts_job :: pyval

definition text_or_empty :: "pyval \<Rightarrow> string" where
  "text_or_empty v = (case v of VStr s \<Rightarrow> s | _ \<Rightarrow> [])"

definition check_reply :: "entry \<Rightarrow> entry \<Rightarrow> tuning_error option" where
  "check_reply d registry = checks
     [scan (VDict d) RESPONSE_MAX_BYTES,
      need (canonical_uuid (get d ''request_id'') \<noteq> None) Non_canonical_uuid,
      need (in_names (get d ''outcome'') OUTCOMES) Bad_enum,
      need (get d ''detail'' = VNone \<or> bounded_text (get d ''detail'') MAX_DETAIL) Bad_type,
      if get d ''snapshot'' = VNone then None else validate_snapshot (get d ''snapshot'') registry,
      need (get d ''job'' = VNone \<or> is_dict (get d ''job'')) Bad_type]"

definition validate_response :: "pyval \<Rightarrow> entry \<Rightarrow> tuning_error + tuning_response" where
  "validate_response reply registry =
     (case reply of
        VDict d \<Rightarrow>
          (case check_reply d registry of
             Some e \<Rightarrow> Inl e
           | None \<Rightarrow> Inr \<lparr>ts_request_id = text_or_empty (get d ''request_id''),
                          ts_outcome = text_or_empty (get d ''outcome''),
                          ts_detail = text_or_empty (get d ''detail''),
                          ts_snapshot = get d ''snapshot'', ts_job = get d ''job''\<rparr>)
      | _ \<Rightarrow> Inl (Invalid Bad_type))"

subsection \<open>The scan ends, and accepts exactly the bounded values\<close>

lemma foldr_max_le: "foldr max xs (0::nat) \<le> k \<longleftrightarrow> (\<forall>x\<in>set xs. x \<le> k)"
  by (induction xs) auto

lemma scan_fields_Inr:
  "scan_fields mx depth d items bytes st = Inr (items', bytes', st') \<Longrightarrow> items \<le> MAX_ITEMS \<Longrightarrow>
   items' = items + length d \<and> items' \<le> MAX_ITEMS \<and> bytes' = bytes + sum_list (map (length \<circ> fst) d)
   \<and> st' = rev (map (\<lambda>p. (snd p, Suc depth)) d) @ st"
  by (induction mx depth d items bytes st rule: scan_fields.induct) (auto split: if_splits)

lemma scan_fields_Inl:
  "scan_fields mx depth d items bytes st = Inl e \<Longrightarrow>
   MAX_ITEMS < items + length d \<or> (\<exists>p\<in>set d. mx < length (fst p))"
  by (induction mx depth d items bytes st rule: scan_fields.induct) (auto split: if_splits)

lemma scan_elements_Inr:
  "scan_elements depth vs items st = Inr (items', st') \<Longrightarrow> items \<le> MAX_ITEMS \<Longrightarrow>
   items' = items + length vs \<and> items' \<le> MAX_ITEMS \<and> st' = rev (map (\<lambda>v. (v, Suc depth)) vs) @ st"
  by (induction depth vs items st rule: scan_elements.induct) (auto split: if_splits)

lemma scan_elements_Inl: "scan_elements depth vs items st = Inl e \<Longrightarrow> MAX_ITEMS < items + length vs"
  by (induction depth vs items st rule: scan_elements.induct) (auto split: if_splits)

text \<open>The contract of one node: how many items it adds, and what it leaves to be scanned.\<close>

definition stack_ok :: "nat \<Rightarrow> (pyval \<times> nat) list \<Rightarrow> nat \<Rightarrow> nat \<Rightarrow> bool" where
  "stack_ok mx st items bytes \<longleftrightarrow>
     (\<forall>(v, depth)\<in>set st. plain_value v \<and> depth + nesting v \<le> MAX_DEPTH)
     \<and> items + sum_list (map (item_count \<circ> fst) st) \<le> MAX_ITEMS
     \<and> bytes + sum_list (map (byte_count \<circ> fst) st) \<le> mx"

lemma sum_list_Suc: "sum_list (map (\<lambda>x. Suc (f x)) xs) = length xs + sum_list (map f xs)"
  by (induction xs) auto

lemma sum_list_add: "sum_list (map (\<lambda>x. (f x :: nat) + g x) xs) = sum_list (map f xs) + sum_list (map g xs)"
  by (induction xs) auto

lemma sum_list_member: "x \<in> set xs \<Longrightarrow> f x \<le> sum_list (map f xs)" for f :: "'a \<Rightarrow> nat"
  by (induction xs) auto

lemma sum_list_rev_map: "sum_list (map f (rev xs)) = sum_list (map f xs)" for f :: "'a \<Rightarrow> nat"
  by (simp add: rev_map [symmetric])

lemma foldr_max_add_le:
  "depth \<le> M \<Longrightarrow> depth + foldr max xs (0::nat) \<le> M \<longleftrightarrow> (\<forall>x\<in>set xs. depth + x \<le> M)"
  by (induction xs) (auto simp: max_def)

lemma stack_ok_dict:
  "depth \<le> MAX_DEPTH \<Longrightarrow> stack_ok mx ((VDict d, depth) # st) items bytes \<longleftrightarrow>
   stack_ok mx (rev (map (\<lambda>p. (snd p, Suc depth)) d) @ st) (items + length d) (bytes + 8 + sum_list (map (length \<circ> fst) d))"
  by (auto simp: stack_ok_def list_all_iff foldr_max_add_le sum_list_Suc sum_list_add sum_list_rev_map comp_def ball_Un
      add.assoc add.left_commute)

lemma stack_ok_list:
  "depth \<le> MAX_DEPTH \<Longrightarrow> stack_ok mx ((VList vs, depth) # st) items bytes \<longleftrightarrow>
   stack_ok mx (rev (map (\<lambda>v. (v, Suc depth)) vs) @ st) (items + length vs) (bytes + 8)"
  by (auto simp: stack_ok_def list_all_iff foldr_max_add_le sum_list_Suc sum_list_rev_map comp_def ball_Un
      add.assoc add.left_commute)


lemma stack_ok_items: "stack_ok mx st items bytes \<Longrightarrow> items \<le> MAX_ITEMS"
  by (simp add: stack_ok_def)

lemma stack_ok_bytes: "stack_ok mx st items bytes \<Longrightarrow> bytes \<le> mx"
  by (simp add: stack_ok_def)

lemma stack_ok_fields:
  "depth \<le> MAX_DEPTH \<Longrightarrow> stack_ok mx ((VDict d, depth) # st) items bytes \<Longrightarrow>
   items + length d \<le> MAX_ITEMS \<and> (\<forall>p\<in>set d. length (fst p) \<le> mx)"
  using sum_list_member [of _ d "length \<circ> fst"]
  by (fastforce simp: stack_ok_dict dest: stack_ok_items stack_ok_bytes)

text \<open>A node the scan rejects is not acceptable; a node it takes leaves an equally acceptable stack.\<close>

lemma scan_node_Inl:
  assumes "scan_node mx v depth items bytes st = Inl e" "depth \<le> MAX_DEPTH"
  shows "\<not> stack_ok mx ((v, depth) # st) items bytes"
proof
  assume ok: "stack_ok mx ((v, depth) # st) items bytes"
  show False
  proof (cases v)
    case (VDict d)
    then show False
      using assms ok stack_ok_fields [of depth mx d st items bytes]
      by (auto simp: scan_node_def dest!: scan_fields_Inl)
  next
    case (VList vs)
    then have "items + length vs \<le> MAX_ITEMS"
      using ok assms(2) by (auto simp: stack_ok_list dest: stack_ok_items)
    with VList assms show False
      by (auto simp: scan_node_def dest!: scan_elements_Inl split: sum.splits)
  qed (use assms ok in \<open>auto simp: scan_node_def stack_ok_def split: if_splits\<close>)
qed

lemma scan_node_Inr:
  assumes "scan_node mx v depth items bytes st = Inr (items', bytes', st')"
    and "depth \<le> MAX_DEPTH" "items \<le> MAX_ITEMS"
  shows "stack_ok mx ((v, depth) # st) items bytes \<longleftrightarrow> stack_ok mx st' items' bytes'"
proof (cases v)
  case (VDict d)
  then have "scan_fields mx depth d items (bytes + 8) st = Inr (items', bytes', st')"
    using assms by (simp add: scan_node_def)
  from scan_fields_Inr [OF this assms(3)] show ?thesis
    using VDict assms(2) by (simp add: stack_ok_dict comp_def)
next
  case (VList vs)
  then have "scan_elements depth vs items st = Inr (items', st')" and b: "bytes' = bytes + 8"
    using assms by (auto simp: scan_node_def split: sum.splits)
  from scan_elements_Inr [OF this(1) assms(3)] b show ?thesis
    using VList assms(2) by (simp add: stack_ok_list)
qed (use assms in \<open>auto simp: scan_node_def stack_ok_def split: if_splits\<close>)

lemma scan_node_progress:
  assumes "scan_node mx v depth items bytes st = Inr (items', bytes', st')" "items \<le> MAX_ITEMS"
  shows "items' \<le> MAX_ITEMS \<and> length st' + items = length st + items'"
proof (cases v)
  case (VDict d)
  then have "scan_fields mx depth d items (bytes + 8) st = Inr (items', bytes', st')"
    using assms by (simp add: scan_node_def)
  from scan_fields_Inr [OF this assms(2)] show ?thesis by auto
next
  case (VList vs)
  then have "scan_elements depth vs items st = Inr (items', st')"
    using assms by (auto simp: scan_node_def split: sum.splits)
  from scan_elements_Inr [OF this assms(2)] show ?thesis by auto
qed (use assms in \<open>auto simp: scan_node_def split: if_splits\<close>)

lemma scan_loop_sound:
  "scan_loop n mx st items bytes = Some r \<Longrightarrow> items \<le> MAX_ITEMS \<Longrightarrow> bytes \<le> mx \<Longrightarrow>
   r = None \<longleftrightarrow> stack_ok mx st items bytes"
proof (induction n mx st items bytes rule: scan_loop.induct)
  case (2 n mx items bytes)
  then show ?case by (auto simp: stack_ok_def)
next
  case (3 n mx v depth st items bytes)
  show ?case
  proof (cases "MAX_DEPTH < depth")
    case True
    with 3 show ?thesis by (auto simp: stack_ok_def)
  next
    case False
    show ?thesis
    proof (cases "scan_node mx v depth items bytes st")
      case (Inl e)
      with 3 False scan_node_Inl show ?thesis by fastforce
    next
      case (Inr t)
      then obtain items' bytes' st' where t: "scan_node mx v depth items bytes st = Inr (items', bytes', st')"
        by (cases t) auto
      have step: "stack_ok mx ((v, depth) # st) items bytes \<longleftrightarrow> stack_ok mx st' items' bytes'"
        using scan_node_Inr [OF t] False 3 by simp
      have "items' \<le> MAX_ITEMS" using scan_node_progress [OF t] 3 by simp
      with 3 False t step show ?thesis
        by (cases "mx < bytes'") (auto dest: stack_ok_bytes)
    qed
  qed
qed simp

lemma scan_loop_ends:
  "items \<le> MAX_ITEMS \<Longrightarrow> length st + (MAX_ITEMS - items) < n \<Longrightarrow> \<exists>r. scan_loop n mx st items bytes = Some r"
proof (induction n mx st items bytes rule: scan_loop.induct)
  case (3 n mx v depth st items bytes)
  show ?case
  proof (cases "scan_node mx v depth items bytes st")
    case (Inr t)
    then obtain items' bytes' st' where t: "scan_node mx v depth items bytes st = Inr (items', bytes', st')"
      by (cases t) auto
    from scan_node_progress [OF t 3(2)] 3 t show ?thesis by auto
  qed simp
qed auto


subsection \<open>What an accepted request may ask\<close>

lemma scan_None: "scan v mx = None \<longleftrightarrow> bounded_value mx v"
proof -
  obtain r where r: "scan_loop SCAN_FUEL mx [(v, 0)] 0 0 = Some r"
    using scan_loop_ends [of 0 "[(v, 0)]" SCAN_FUEL mx 0] by (auto simp: SCAN_FUEL_def)
  from scan_loop_sound [OF this] show ?thesis
    by (simp add: scan_def r stack_ok_def bounded_value_def)
qed

definition within_bounds :: "entry \<Rightarrow> rat \<Rightarrow> bool" where
  "within_bounds entry x \<longleftrightarrow>
     (\<forall>b lo hi. get entry ''bounds'' = VDict b \<longrightarrow>
        (number_of (get b ''lower'') = Some lo \<longrightarrow> lo \<le> x)
        \<and> (number_of (get b ''upper'') = Some hi \<longrightarrow> x \<le> hi))"

definition value_fits :: "entry \<Rightarrow> pyval \<Rightarrow> bool" where
  "value_fits entry v \<longleftrightarrow>
     (if get entry ''type'' = VStr ''boolean'' then is_bool v
      else if get entry ''type'' = VStr ''integer'' then (\<exists>i. v = VInt i \<and> within_bounds entry (of_int i))
      else get entry ''type'' = VStr ''number'' \<and> (\<exists>x. number_of v = Some x \<and> within_bounds entry x))"

definition change_names :: "pyval \<Rightarrow> string \<times> pyval \<Rightarrow> bool" where
  "change_names c p \<longleftrightarrow>
     (case c of
        VDict d \<Rightarrow> set (dkeys d) \<subseteq> {''id'', ''value''} \<and> dget d ''id'' = Some (VStr (fst p))
          \<and> dget d ''value'' = Some (snd p)
      | _ \<Rightarrow> False)"

definition change_allowed :: "index \<Rightarrow> string \<times> pyval \<Rightarrow> bool" where
  "change_allowed ix p \<longleftrightarrow>
     (case dget ix (fst p) of
        None \<Rightarrow> False
      | Some entry \<Rightarrow> \<not> py_truth (get entry ''protected'') \<and> \<not> py_truth (get entry ''not_applicable'')
          \<and> py_truth (get entry ''accepts_edits'') \<and> value_fits entry (snd p))"

definition ceilings_kept :: "index \<Rightarrow> (string \<times> pyval) list \<Rightarrow> bool" where
  "ceilings_kept ix changes \<longleftrightarrow>
     (\<forall>es e. dependency_edges ix = Some es \<longrightarrow> e \<in> set es \<longrightarrow>
        ed_source e \<in> set (map fst changes) \<longrightarrow> ed_kind e = VStr ''less_than_or_equal'' \<longrightarrow>
        (\<exists>l r. number_of (resolved_value (VStr (ed_source e)) changes ix) = Some l
            \<and> number_of (resolved_value (ed_target e) changes ix) = Some r \<and> l \<le> r))"

lemma check_bounds_None: "check_bounds entry x = None \<Longrightarrow> within_bounds entry x"
  by (auto simp: check_bounds_def within_bounds_def split: pyval.splits if_splits)

lemma number_of_int: "is_strict_int v \<Longrightarrow> number_of v = Some x \<Longrightarrow> \<exists>i. v = VInt i \<and> x = of_int i"
  by (cases v) (auto simp: is_strict_int_def number_of_def split: if_splits)

lemma check_number_fits: "check_number entry v True = None \<Longrightarrow> value_fits entry v"
  using number_of_int [of v]
  by (auto simp: check_number_def value_fits_def dest!: check_bounds_None
      split: option.splits if_splits)

lemma check_value_fits: "check_value entry v True = None \<Longrightarrow> value_fits entry v"
  by (cases v) (auto simp: check_value_def is_bool_def intro: check_number_fits, simp add: value_fits_def is_bool_def)

lemma check_change_Inr:
  assumes "check_change c ix = Inr p"
  shows "change_names c p \<and> change_allowed ix p"
proof (cases c)
  case (VDict d)
  from assms VDict obtain pid where d: "list_all (\<lambda>k. k \<in> set [''id'', ''value'']) (dkeys d)"
      "dget d ''id'' = Some (VStr pid)"
    by (auto simp: check_change_def get_def default_def split: if_splits pyval.splits option.splits)
  with assms VDict obtain entry v where e: "dget ix pid = Some entry" "change_value entry d = Inr v" "p = (pid, v)"
    by (auto simp: check_change_def get_def split: if_splits option.splits sum.splits)
  from e(2) have v: "dget d ''value'' = Some v" "editable entry = None" "check_value entry v True = None"
    by (auto simp: change_value_def split: option.splits if_splits)
  from d v e check_value_fits [OF v(3)] VDict show ?thesis
    by (auto simp: change_names_def change_allowed_def editable_def list_all_iff)
qed (use assms in \<open>simp_all add: check_change_def\<close>)

lemma check_changes_Inr:
  "check_changes cs ix changed resolved = Inr (changed', resolved') \<Longrightarrow>
   changed = map fst resolved \<Longrightarrow> distinct changed \<Longrightarrow>
   \<exists>ps. list_all2 change_names cs ps \<and> list_all (change_allowed ix) ps
      \<and> resolved' = resolved @ ps \<and> changed' = map fst resolved' \<and> distinct changed'"
proof (induction cs ix changed resolved rule: check_changes.induct)
  case (2 c cs ix changed resolved)
  then obtain pid v where c: "check_change c ix = Inr (pid, v)" and new: "pid \<notin> set changed"
    by (auto split: sum.splits if_splits)
  have app: "dset resolved pid v = resolved @ [(pid, v)]"
    using new 2 by (intro dset_absent) (simp add: dkeys_def)
  from 2 c new app obtain ps where "list_all2 change_names cs ps" "list_all (change_allowed ix) ps"
      "resolved' = (resolved @ [(pid, v)]) @ ps" "changed' = map fst resolved'" "distinct changed'"
    by fastforce
  with check_change_Inr [OF c] show ?case
    by (intro exI [of _ "(pid, v) # ps"]) simp
qed simp

lemma check_edge_ceiling:
  assumes "check_edge e changed ix resolved = None" "ed_source e \<in> set changed"
    and "ed_kind e = VStr ''less_than_or_equal''"
  shows "\<exists>l r. number_of (resolved_value (VStr (ed_source e)) resolved ix) = Some l
    \<and> number_of (resolved_value (ed_target e) resolved ix) = Some r \<and> l \<le> r"
  using assms by (auto simp: check_edge_def compare_operands_def split: option.splits if_splits)

lemma check_dependencies_ceilings:
  "check_dependencies (map fst changes) ix changes = None \<Longrightarrow> ceilings_kept ix changes"
  using check_edge_ceiling [of _ "map fst changes" ix changes]
  by (auto simp: check_dependencies_def ceilings_kept_def split: if_splits option.splits)

lemma check_save_None:
  assumes "check_save payload ix = None"
  shows "\<exists>cs changes. get payload ''changes'' = VList cs \<and> 1 \<le> length cs \<and> length cs \<le> MAX_CHANGES
    \<and> list_all2 change_names cs changes \<and> distinct (map fst changes)
    \<and> list_all (change_allowed ix) changes \<and> ceilings_kept ix changes"
proof -
  from assms obtain changed resolved where s: "saved_changes payload ix = Inr (changed, resolved)"
      and d: "check_dependencies changed ix resolved = None"
    by (auto simp: check_save_def split: sum.splits prod.splits)
  from s obtain cs where cs: "get payload ''changes'' = VList cs" "1 \<le> length cs" "length cs \<le> MAX_CHANGES"
      "check_changes cs ix [] [] = Inr (changed, resolved)"
    by (auto simp: saved_changes_def split: pyval.splits if_splits)
  from check_changes_Inr [OF cs(4)] d cs(1-3) check_dependencies_ceilings show ?thesis by auto
qed

subsection \<open>Properties\<close>

text \<open>
  C36. The bounded scan of a tuning message always ends, and accepts exactly the bounded values. For
  every JSON value and every byte bound the work stack runs empty or a limit is hit within the
  fuel of one step per counted item; the scan passes if and only if, by recursion on the value,
  all numbers are finite and at most 2^63 - 1, nothing is nested deeper than 32, there are at most
  8192 items and the counted bytes stay inside the bound.
\<close>

theorem scan_terminates_exactly:
  "\<exists>r. scan_loop SCAN_FUEL mx [(v, 0)] 0 0 = Some r \<and> (r = None \<longleftrightarrow> bounded_value mx v)"
proof -
  obtain r where r: "scan_loop SCAN_FUEL mx [(v, 0)] 0 0 = Some r"
    using scan_loop_ends [of 0 "[(v, 0)]" SCAN_FUEL mx 0] by (auto simp: SCAN_FUEL_def)
  then show ?thesis using scan_None [of v mx] by (simp add: scan_def)
qed

definition example_registry :: entry where
  "example_registry = [(''parameters'', VList
     [VDict [(''id'', VStr ''max_linear_m_s''), (''type'', VStr ''number''), (''accepts_edits'', VBool True),
             (''default'', VFloat (Fin (1 / 5))),
             (''bounds'', VDict [(''lower'', VInt 0), (''lower_inclusive'', VBool False),
                                 (''upper'', VFloat (Fin (3 / 10)))])],
      VDict [(''id'', VStr ''nav_linear''), (''type'', VStr ''number''), (''accepts_edits'', VBool True),
             (''default'', VFloat (Fin (1 / 10))),
             (''dependencies'', VList [VDict [(''target'', VStr ''max_linear_m_s''),
                                              (''kind'', VStr ''less_than_or_equal'')]])],
      VDict [(''id'', VStr ''wheel_base''), (''type'', VStr ''number''), (''protected'', VBool True)]])]"

definition example_session :: string where
  "example_session = ''0a1b2c3d-0000-4000-8000-000000000001''"

definition example_save :: "(string \<times> pyval) list \<Rightarrow> pyval" where
  "example_save changes = VDict
     [(''contract'', VStr TUNING_CONTRACT), (''version'', VInt 1), (''operation'', VStr ''save''),
      (''request_id'', VStr ''0a1b2c3d-0000-4000-8000-000000000009''),
      (''generation'', VDict [(''capability'', VStr TUNING_CAPABILITY), (''session_id'', VStr example_session)]),
      (''base_revision'', VInt 4),
      (''changes'', VList (map (\<lambda>(pid, v). VDict [(''id'', VStr pid), (''value'', v)]) changes))]"

lemma example_save_accepted:
  "validate_request (example_save [(''nav_linear'', VFloat (Fin (1 / 5)))]) example_registry = None"
proof -
  let ?r = "example_save [(''nav_linear'', VFloat (Fin (1 / 5)))]"
  obtain payload where p: "?r = VDict payload" by (simp add: example_save_def)
  have "bounded_value REQUEST_MAX_BYTES ?r"
    by (simp add: bounded_value_def example_save_def REQUEST_MAX_BYTES_def MAX_DEPTH_def MAX_ITEMS_def MAX_INT_def
        TUNING_CONTRACT_def TUNING_CAPABILITY_def example_session_def)
  moreover have "(case ?r of VDict payload \<Rightarrow> check_request payload example_registry | _ \<Rightarrow> Some Crash) = None"
    by code_simp
  ultimately show ?thesis by (simp add: validate_request_def scan_None p)
qed

text \<open>
  C35. A tuning request that passes the pre-filter is well typed. It is a bounded object with a known
  operation, exactly the fields of that operation and a canonical id. When it saves, its one to 32
  changes are an id and a value each, name different parameters of the reviewed registry that are
  editable, unprotected and applicable, carry a value of the declared type inside the reviewed
  bounds, and leave every changed parameter at or below its ceiling.
\<close>

theorem accepted_request_is_well_typed:
  assumes "validate_request request registry = None"
  shows "\<exists>payload operation rid. request = VDict payload \<and> bounded_value REQUEST_MAX_BYTES request
    \<and> get payload ''operation'' = VStr operation \<and> operation \<in> set OPERATIONS
    \<and> set (REQUIRED_KEYS operation) \<subseteq> set (dkeys payload) \<and> set (dkeys payload) \<subseteq> set (ALLOWED_KEYS operation)
    \<and> get payload ''request_id'' = VStr rid \<and> uuid_canonical rid
    \<and> (operation = ''save'' \<longrightarrow>
        (\<exists>cs changes. get payload ''changes'' = VList cs \<and> 1 \<le> length cs \<and> length cs \<le> MAX_CHANGES
          \<and> list_all2 change_names cs changes \<and> distinct (map fst changes)
          \<and> list_all (change_allowed (registry_index registry)) changes
          \<and> ceilings_kept (registry_index registry) changes))"
proof -
  from assms obtain payload operation where p: "request = VDict payload" "scan request REQUEST_MAX_BYTES = None"
      "get payload ''operation'' = VStr operation" "operation \<in> set OPERATIONS"
      and shape: "check_shape operation payload = None"
      and opn: "check_operation operation payload (registry_index registry) = None"
    by (auto simp: validate_request_def check_request_def split: pyval.splits)
  from shape obtain rid where "get payload ''request_id'' = VStr rid" "uuid_canonical rid"
    by (auto simp: check_shape_def canonical_uuid_def split: pyval.splits if_splits)
  moreover from shape have "set (REQUIRED_KEYS operation) \<subseteq> set (dkeys payload)"
      "set (dkeys payload) \<subseteq> set (ALLOWED_KEYS operation)"
    by (auto simp: check_shape_def list_all_iff)
  moreover have "operation = ''save'' \<Longrightarrow> check_save payload (registry_index registry) = None"
    using opn by (simp add: check_operation_def)
  ultimately show ?thesis
    using p check_save_None [of payload "registry_index registry"] by (auto simp: scan_None)
qed

theorem accepted_request_is_well_typed_witness:
  "\<exists>payload. example_save [(''nav_linear'', VFloat (Fin (1 / 5)))] = VDict payload
     \<and> set (dkeys payload) \<subseteq> set (ALLOWED_KEYS ''save'')"
  using accepted_request_is_well_typed [OF example_save_accepted]
  by (auto simp: example_save_def get_def)

end
