(* ===== verification/Tuning_Authorization.thy ===== *)
theory Tuning_Authorization
  imports Tuning_Validation "HOL-Library.List_Lexorder" "HOL-Library.Char_ord"
begin

text \<open>
  The signed authorization of tuning changes (\<open>server/app/tuning/authorization.py\<close>): reading the key
  file, the canonical JSON text, signing and verifying.

  HMAC-SHA256 of a key and a message, as hexadecimal text, is the parameter \<open>mac\<close>; the shortest text
  of a finite float (\<open>float.__repr__\<close>) is the parameter \<open>repr\<close>. Keys and messages are byte strings of
  ASCII characters. Reading canonical text back (\<open>json.loads\<close>) gives the value with its keys sorted.
\<close>

subsection \<open>The key file\<close>

datatype auth_reason = Key_not_configured | Key_not_private | Key_length | Key_unavailable
  | Payload_invalid | Payload_large | Clock_invalid | Subject_invalid | Envelope_invalid
  | Not_an_administrator_mutation | Unexpected_fields | Signature_required | Claims_invalid
  | Binding_invalid | Expired_or_future | Signature_invalid

datatype auth_error = Refused auth_reason | Os_error | Type_error | Overflow_error

definition KEY_MIN :: nat where "KEY_MIN = 32"
definition KEY_MAX :: nat where "KEY_MAX = 4096"
definition MAX_BYTES :: nat where "MAX_BYTES = 20 * 1024"
definition MAX_LIFETIME_MS :: int where "MAX_LIFETIME_MS = 30000"
definition CLOCK_SKEW_MS :: int where "CLOCK_SKEW_MS = 5000"
definition DOMAIN :: string where
  "DOMAIN = ''patrolbot-tuning-authorization-v1'' @ [CHR 0x0A]"

text \<open>What \<open>os.open\<close>, \<open>os.fstat\<close> and \<open>os.read\<close> report of a path; \<open>None\<close> is an \<open>OSError\<close>.\<close>

record key_file =
  kf_regular :: bool
  kf_mode :: nat
  kf_uid :: nat
  kf_bytes :: string

definition load_key :: "string \<Rightarrow> (string \<Rightarrow> key_file option) \<Rightarrow> nat \<Rightarrow> auth_error + string" where
  "load_key path fs euid =
     (if path = [] then Inl (Refused Key_not_configured)
      else case fs path of
        None \<Rightarrow> Inl Os_error
      | Some f \<Rightarrow>
          if \<not> kf_regular f \<or> kf_mode f mod 64 \<noteq> 0 \<or> kf_uid f \<notin> {0, euid}
          then Inl (Refused Key_not_private)
          else let bytes = take (KEY_MAX + 1) (kf_bytes f) in
            if KEY_MIN \<le> length bytes \<and> length bytes \<le> KEY_MAX then Inr bytes
            else Inl (Refused Key_length))"

definition usable_key :: "string option \<Rightarrow> string option" where
  "usable_key key = (case key of None \<Rightarrow> None
     | Some k \<Rightarrow> if KEY_MIN \<le> length k \<and> length k \<le> KEY_MAX then Some k else None)"

subsection \<open>Canonical text\<close>

fun sort_keys :: "pyval \<Rightarrow> pyval" where
  "sort_keys (VDict d) = VDict (sort_key fst (map (\<lambda>p. (fst p, sort_keys (snd p))) d))"
| "sort_keys (VList vs) = VList (map sort_keys vs)"
| "sort_keys v = v"

text \<open>A value \<open>json.dumps\<close> takes with \<open>allow_nan=False\<close>.\<close>

fun json_ok :: "pyval \<Rightarrow> bool" where
  "json_ok (VFloat x) = is_finite x"
| "json_ok (VList vs) = list_all json_ok vs"
| "json_ok (VDict d) = list_all (\<lambda>p. json_ok (snd p)) d"
| "json_ok (VObj n) = False"
| "json_ok v = True"

definition hex_of :: "nat \<Rightarrow> char" where
  "hex_of n = ''0123456789abcdef'' ! n"

definition escape_char :: "char \<Rightarrow> string" where
  "escape_char c =
     (if c = CHR 0x22 then [CHR 0x5C, CHR 0x22]
      else if c = CHR 0x5C then [CHR 0x5C, CHR 0x5C]
      else if c = CHR 0x0A then [CHR 0x5C, CHR ''n'']
      else if c = CHR 0x0D then [CHR 0x5C, CHR ''r'']
      else if c = CHR 0x09 then [CHR 0x5C, CHR ''t'']
      else if c = CHR 0x08 then [CHR 0x5C, CHR ''b'']
      else if c = CHR 0x0C then [CHR 0x5C, CHR ''f'']
      else if of_char c < (32 :: nat) then
        [CHR 0x5C, CHR ''u'', CHR ''0'', CHR ''0'', hex_of (of_char c div 16), hex_of (of_char c mod 16)]
      else [c])"

definition quoted :: "string \<Rightarrow> string" where
  "quoted s = [CHR 0x22] @ concat (map escape_char s) @ [CHR 0x22]"

fun joined :: "string list \<Rightarrow> string" where
  "joined [] = []"
| "joined [x] = x"
| "joined (x # xs) = x @ '','' @ joined xs"

fun json_text :: "(rat \<Rightarrow> string) \<Rightarrow> pyval \<Rightarrow> string" where
  "json_text repr VNone = ''null''"
| "json_text repr (VBool b) = (if b then ''true'' else ''false'')"
| "json_text repr (VInt i) = string_of_int i"
| "json_text repr (VFloat x) = (case rat_of x of Some q \<Rightarrow> repr q | None \<Rightarrow> [])"
| "json_text repr (VStr s) = quoted s"
| "json_text repr (VList vs) = ''['' @ joined (map (json_text repr) vs) @ '']''"
| "json_text repr (VDict d) =
     ''{'' @ joined (map (\<lambda>p. quoted (fst p) @ '':'' @ json_text repr (snd p)) d) @ ''}''"
| "json_text repr (VObj n) = []"

lemma length_quoted: "list_all (\<lambda>c. escape_char c = [c]) s \<Longrightarrow> length (quoted s) = length s + 2"
  by (induction s) (auto simp: quoted_def)

definition canonical :: "(rat \<Rightarrow> string) \<Rightarrow> pyval \<Rightarrow> auth_error + string" where
  "canonical repr v =
     (if \<not> json_ok v then Inl (Refused Payload_invalid)
      else if MAX_BYTES < length (json_text repr (sort_keys v)) then Inl (Refused Payload_large)
      else Inr (json_text repr (sort_keys v)))"

subsection \<open>Signing and verifying\<close>

definition clock_ms :: "pyval \<Rightarrow> auth_error + int" where
  "clock_ms now =
     (case (case now of VInt i \<Rightarrow> float_of_int i | VFloat x \<Rightarrow> Some x | _ \<Rightarrow> Some NaN) of
        None \<Rightarrow> Inl Overflow_error
      | Some x \<Rightarrow> (case rat_of x of
          None \<Rightarrow> Inl (Refused Clock_invalid)
        | Some q \<Rightarrow> if 0 \<le> q \<and> q \<le> (2 ^ 53 - 1) / 1000 then Inr \<lfloor>q * 1000\<rfloor>
                    else Inl (Refused Clock_invalid)))"

definition robot_subject :: "string \<Rightarrow> bool" where
  "robot_subject robot = (1 \<le> length robot \<and> length robot \<le> 128)"

definition administrator_mutation :: "pyval \<Rightarrow> pyval \<Rightarrow> auth_error option" where
  "administrator_mutation actor request =
     (case (actor, request) of
        (VDict a, VDict r) \<Rightarrow>
          if get a ''role'' \<noteq> VStr ''administrator'' then Some (Refused Not_an_administrator_mutation)
          else if \<not> hashable (get r ''operation'') then Some Type_error
          else if \<not> in_names (get r ''operation'') MUTATION_OPERATIONS
          then Some (Refused Not_an_administrator_mutation) else None
      | _ \<Rightarrow> Some (Refused Not_an_administrator_mutation))"

definition subject_error :: "entry \<Rightarrow> string \<Rightarrow> auth_error option" where
  "subject_error w robot =
     (if \<not> robot_subject robot then Some (Refused Subject_invalid)
      else case (dget w ''actor'', dget w ''request'') of
        (Some actor, Some request) \<Rightarrow> administrator_mutation actor request
      | _ \<Rightarrow> Some (Refused Envelope_invalid))"

definition signature_of :: "(rat \<Rightarrow> string) \<Rightarrow> (string \<Rightarrow> string \<Rightarrow> string) \<Rightarrow> string option \<Rightarrow> entry
    \<Rightarrow> auth_error + string" where
  "signature_of repr mac key body =
     (case usable_key key of
        None \<Rightarrow> Inl (Refused Key_unavailable)
      | Some k \<Rightarrow> (case canonical repr (VDict body) of
          Inl e \<Rightarrow> Inl e
        | Inr text \<Rightarrow> Inr (mac k (DOMAIN @ text))))"

definition dict_of :: "pyval \<Rightarrow> entry" where
  "dict_of v = (case v of VDict d \<Rightarrow> d | _ \<Rightarrow> [])"

definition sign :: "(rat \<Rightarrow> string) \<Rightarrow> (string \<Rightarrow> string \<Rightarrow> string) \<Rightarrow> entry \<Rightarrow> string option \<Rightarrow> string \<Rightarrow> pyval
    \<Rightarrow> auth_error + entry" where
  "sign repr mac w key robot now =
     (case subject_error w robot of
        Some e \<Rightarrow> Inl e
      | None \<Rightarrow>
        if \<not> same_names (dkeys w) [''actor'', ''request''] then Inl (Refused Unexpected_fields)
        else case clock_ms now of
          Inl e \<Rightarrow> Inl e
        | Inr issued \<Rightarrow>
          let claims = [(''version'', VInt 1), (''robot_id'', VStr robot), (''issued_at_ms'', VInt issued),
                        (''expires_at_ms'', VInt (issued + MAX_LIFETIME_MS))];
              body = dset w ''authorization'' (VDict claims) in
          case signature_of repr mac key body of
            Inl e \<Rightarrow> Inl e
          | Inr signature \<Rightarrow>
            let sorted = dict_of (sort_keys (VDict body)) in
            Inr (dset sorted ''authorization''
              (VDict (dset (dict_of (get sorted ''authorization'')) ''signature'' (VStr signature)))))"

definition CLAIM_FIELDS :: "string list" where
  "CLAIM_FIELDS = [''version'', ''robot_id'', ''issued_at_ms'', ''expires_at_ms'', ''signature'']"

definition binding_error :: "entry \<Rightarrow> string \<Rightarrow> pyval \<Rightarrow> auth_error option" where
  "binding_error claims robot now =
     (case (get claims ''version'', get claims ''issued_at_ms'', get claims ''expires_at_ms'') of
        (VInt version, VInt issued, VInt expires) \<Rightarrow>
          if version \<noteq> 1 \<or> get claims ''robot_id'' \<noteq> VStr robot
             \<or> \<not> (0 \<le> issued \<and> issued < expires \<and> expires \<le> 2 ^ 53 - 1)
             \<or> \<not> (0 < expires - issued \<and> expires - issued \<le> MAX_LIFETIME_MS)
          then Some (Refused Binding_invalid)
          else (case clock_ms now of
             Inl e \<Rightarrow> Some e
           | Inr current \<Rightarrow> if current + CLOCK_SKEW_MS < issued \<or> expires \<le> current
                            then Some (Refused Expired_or_future) else None)
      | _ \<Rightarrow> Some (Refused Binding_invalid))"

definition verify :: "(rat \<Rightarrow> string) \<Rightarrow> (string \<Rightarrow> string \<Rightarrow> string) \<Rightarrow> entry \<Rightarrow> string option \<Rightarrow> string \<Rightarrow> pyval
    \<Rightarrow> auth_error + pyval" where
  "verify repr mac w key robot now =
     (case subject_error w robot of
        Some e \<Rightarrow> Inl e
      | None \<Rightarrow>
        if \<not> same_names (dkeys w) [''actor'', ''request'', ''authorization''] then Inl (Refused Signature_required)
        else case get w ''authorization'' of
          VDict claims \<Rightarrow>
            if \<not> same_names (dkeys claims) CLAIM_FIELDS then Inl (Refused Claims_invalid)
            else (case binding_error claims robot now of
              Some e \<Rightarrow> Inl e
            | None \<Rightarrow>
              (case get claims ''signature'' of
                 VStr signature \<Rightarrow>
                   if \<not> sha256_hex signature then Inl (Refused Signature_invalid)
                   else (case signature_of repr mac key
                           (dset w ''authorization'' (VDict (ddel claims ''signature''))) of
                     Inl e \<Rightarrow> Inl e
                   | Inr expected \<Rightarrow>
                       if expected \<noteq> signature then Inl (Refused Signature_invalid)
                       else let pair = VDict [(''request'', get w ''request''), (''actor'', get w ''actor'')] in
                         (case canonical repr pair of Inl e \<Rightarrow> Inl e | Inr text \<Rightarrow> Inr (sort_keys pair)))
               | _ \<Rightarrow> Inl (Refused Signature_invalid)))
        | _ \<Rightarrow> Inl (Refused Claims_invalid))"

subsection \<open>Sorting keys\<close>

lemma sort_keys_idem [simp]: "sort_keys (sort_keys v) = sort_keys v"
proof (induction v rule: sort_keys.induct)
  case (1 d)
  let ?g = "\<lambda>p. (fst p, sort_keys (snd p))"
  let ?ys = "sort_key fst (map ?g d)"
  have "map ?g ?ys = ?ys"
    using 1 by (intro map_idI) auto
  moreover have "sort_key fst ?ys = ?ys"
    by (rule sort_key_id_if_sorted) simp
  ultimately show ?case by simp
qed (auto simp: o_def)

lemma json_ok_sort_keys [simp]: "json_ok (sort_keys v) = json_ok v"
  by (induction v rule: sort_keys.induct) (auto simp: list_all_iff)

lemma sorted_wrapper:
  "sort_keys (VDict [(''request'', r), (''actor'', a), (''authorization'', c)]) =
     VDict [(''actor'', sort_keys a), (''authorization'', sort_keys c), (''request'', sort_keys r)]"
proof -
  have "''actor'' < (''authorization'' :: string)" "''authorization'' < (''request'' :: string)"
      "''actor'' < (''request'' :: string)"
    by code_simp+
  then show ?thesis by (auto simp: less_le)
qed

lemma sorted_pair:
  "sort_keys (VDict [(''request'', r), (''actor'', a)]) =
     VDict [(''actor'', sort_keys a), (''request'', sort_keys r)]"
proof -
  have "''actor'' < (''request'' :: string)" by code_simp
  then show ?thesis by (auto simp: less_le)
qed

definition issued_claims :: "string \<Rightarrow> int \<Rightarrow> entry" where
  "issued_claims robot issued =
     [(''expires_at_ms'', VInt (issued + MAX_LIFETIME_MS)), (''issued_at_ms'', VInt issued),
      (''robot_id'', VStr robot), (''version'', VInt 1)]"

lemma sorted_claims:
  "sort_keys (VDict [(''version'', VInt 1), (''robot_id'', VStr robot), (''issued_at_ms'', VInt issued),
      (''expires_at_ms'', VInt (issued + MAX_LIFETIME_MS))]) = VDict (issued_claims robot issued)"
proof -
  have "''expires_at_ms'' < (''issued_at_ms'' :: string)" "''issued_at_ms'' < (''robot_id'' :: string)"
      "''robot_id'' < (''version'' :: string)" "''expires_at_ms'' < (''robot_id'' :: string)"
      "''expires_at_ms'' < (''version'' :: string)" "''issued_at_ms'' < (''version'' :: string)"
    by code_simp+
  then show ?thesis by (auto simp: less_le issued_claims_def)
qed

lemma dget_first_match:
  "dget d k = (case filter (\<lambda>p. fst p = k) d of [] \<Rightarrow> None | p # ps \<Rightarrow> Some (snd p))"
  by (induction d) auto

lemma dget_sort_key [simp]: "dget (sort_key fst d) k = dget d k"
  by (simp add: dget_first_match sort_key_stable)

lemma dget_map_snd: "dget (map (\<lambda>p. (fst p, f (snd p))) d) k = map_option f (dget d k)"
  by (induction d) auto

lemma sort_keys_atoms [simp]:
  "sort_keys v = VStr s \<longleftrightarrow> v = VStr s" "hashable (sort_keys v) = hashable v"
  "in_names (sort_keys v) ns = in_names v ns" "sort_keys v = VNone \<longleftrightarrow> v = VNone"
  by (cases v; simp add: hashable_def in_names_def)+

lemma get_sort_keys: "get (sort_key fst (map (\<lambda>p. (fst p, sort_keys (snd p))) d)) k = sort_keys (get d k)"
  by (simp add: get_def dget_map_snd default_def split: option.split)

lemma administrator_mutation_sorted [simp]:
  "administrator_mutation (sort_keys a) (sort_keys r) = administrator_mutation a r"
  by (cases a; cases r) (simp_all add: administrator_mutation_def get_sort_keys del: sort_key_simps)

lemma canonical_sort_keys [simp]: "canonical repr (sort_keys v) = canonical repr v"
  by (simp add: canonical_def)

subsection \<open>A signed change\<close>

definition signed_frame :: "pyval \<Rightarrow> pyval \<Rightarrow> string \<Rightarrow> int \<Rightarrow> string \<Rightarrow> entry" where
  "signed_frame r a robot issued signature =
     [(''actor'', sort_keys a),
      (''authorization'', VDict (issued_claims robot issued @ [(''signature'', VStr signature)])),
      (''request'', sort_keys r)]"

definition unsigned_frame :: "pyval \<Rightarrow> pyval \<Rightarrow> string \<Rightarrow> int \<Rightarrow> entry" where
  "unsigned_frame r a robot issued =
     [(''actor'', sort_keys a), (''authorization'', VDict (issued_claims robot issued)), (''request'', sort_keys r)]"

lemma sign_Inr:
  assumes "sign repr mac [(''request'', r), (''actor'', a)] key robot now = Inr signed"
    and "clock_ms now = Inr issued"
  shows "\<exists>k text. usable_key key = Some k \<and> canonical repr (VDict (unsigned_frame r a robot issued)) = Inr text
    \<and> administrator_mutation a r = None \<and> robot_subject robot
    \<and> signed = signed_frame r a robot issued (mac k (DOMAIN @ text))"
proof -
  let ?claims = "[(''version'', VInt 1), (''robot_id'', VStr robot), (''issued_at_ms'', VInt issued),
                  (''expires_at_ms'', VInt (issued + MAX_LIFETIME_MS))]"
  let ?body = "[(''request'', r), (''actor'', a), (''authorization'', VDict ?claims)]"
  have sorted: "sort_keys (VDict ?body) = VDict (unsigned_frame r a robot issued)"
    using sorted_wrapper [of r a "VDict ?claims"] sorted_claims [of robot issued]
    by (simp add: unsigned_frame_def del: sort_keys.simps)
  with canonical_sort_keys [of repr "VDict ?body"]
  have can: "canonical repr (VDict ?body) = canonical repr (VDict (unsigned_frame r a robot issued))"
    by simp
  from assms obtain s where sub: "subject_error [(''request'', r), (''actor'', a)] robot = None"
      and s: "signature_of repr mac key ?body = Inr s"
      and b: "signed = dset (dict_of (sort_keys (VDict ?body))) ''authorization''
              (VDict (dset (dict_of (get (dict_of (sort_keys (VDict ?body))) ''authorization'')) ''signature'' (VStr s)))"
    by (auto simp: sign_def Let_def split: option.splits if_splits sum.splits simp del: sort_keys.simps)
  have "signed = signed_frame r a robot issued s"
    unfolding b sorted
    by (simp add: dict_of_def unsigned_frame_def signed_frame_def get_def issued_claims_def)
  with sub s can show ?thesis
    by (auto simp: signature_of_def subject_error_def split: option.splits sum.splits if_splits)
qed

lemma pair_text:
  assumes "canonical repr (VDict (unsigned_frame r a robot issued)) = Inr text"
  shows "\<exists>text'. canonical repr (VDict [(''request'', r), (''actor'', a)]) = Inr text'"
proof -
  have "sort_keys (VDict (unsigned_frame r a robot issued)) = VDict (unsigned_frame r a robot issued)"
    using sorted_wrapper [of r a "VDict (issued_claims robot issued)"] sorted_claims [of robot issued]
      sort_keys_idem [of "VDict [(''request'', r), (''actor'', a), (''authorization'', VDict (issued_claims robot issued))]"]
      sort_keys_idem [of "VDict [(''version'', VInt 1), (''robot_id'', VStr robot), (''issued_at_ms'', VInt issued),
      (''expires_at_ms'', VInt (issued + MAX_LIFETIME_MS))]"]
    by (simp add: unsigned_frame_def del: sort_keys.simps)
  with assms have "length (json_text repr (VDict (unsigned_frame r a robot issued))) \<le> MAX_BYTES"
      "json_ok (VDict (unsigned_frame r a robot issued))"
    by (auto simp: canonical_def split: if_splits simp del: sort_keys.simps json_text.simps json_ok.simps)
  then show ?thesis
    by (auto simp: canonical_def sorted_pair unsigned_frame_def simp del: sort_keys.simps)
qed

lemma clock_ms_nonneg: "clock_ms now = Inr i \<Longrightarrow> 0 \<le> i"
  by (auto simp: clock_ms_def split: option.splits if_splits)

lemma signed_binding:
  assumes "0 \<le> issued" "issued + MAX_LIFETIME_MS < 2 ^ 53"
  shows "binding_error (issued_claims robot issued @ [(''signature'', VStr s)]) robot' later =
    (if robot' \<noteq> robot then Some (Refused Binding_invalid)
     else case clock_ms later of Inl e \<Rightarrow> Some e
       | Inr t \<Rightarrow> if issued \<le> t + CLOCK_SKEW_MS \<and> t < issued + MAX_LIFETIME_MS then None
                  else Some (Refused Expired_or_future))"
  using assms by (auto simp: binding_error_def issued_claims_def get_def MAX_LIFETIME_MS_def split: sum.splits)

text \<open>
  C21. A change signed for a robot is accepted by that robot and by no other, and only while it is
  fresh. With the same key, the wrapper the server signs for a robot verifies there from five
  seconds before its issue time until its 30 s lifetime ends, and gives back exactly the request
  and the actor that were signed (keys sorted); outside that window it is refused as expired, and
  every other robot refuses it as bound elsewhere.
\<close>

theorem signed_change_roundtrip:
  assumes "sign repr mac [(''request'', r), (''actor'', a)] key robot now = Inr signed"
    and hexdigest: "\<And>k m. sha256_hex (mac k m)"
    and "clock_ms now = Inr issued" "issued + MAX_LIFETIME_MS < 2 ^ 53" "clock_ms later = Inr t"
  shows "verify repr mac signed key robot later =
      (if issued \<le> t + CLOCK_SKEW_MS \<and> t < issued + MAX_LIFETIME_MS
       then Inr (sort_keys (VDict [(''request'', r), (''actor'', a)]))
       else Inl (Refused Expired_or_future))
    \<and> (robot_subject robot' \<and> robot' \<noteq> robot \<longrightarrow>
        verify repr mac signed key robot' later = Inl (Refused Binding_invalid))"
proof -
  from sign_Inr [OF assms(1,3)] obtain k msg where k: "usable_key key = Some k"
      and msg: "canonical repr (VDict (unsigned_frame r a robot issued)) = Inr msg"
      and adm: "administrator_mutation a r = None" and rob: "robot_subject robot"
      and signed: "signed = signed_frame r a robot issued (mac k (DOMAIN @ msg))"
    by blast
  define s where "s = mac k (DOMAIN @ msg)"
  note signed = signed [folded s_def]
  have sub: "robot_subject x \<Longrightarrow> subject_error signed x = None" for x
    using adm by (simp add: signed signed_frame_def subject_error_def)
  have names: "same_names (dkeys signed) [''actor'', ''request'', ''authorization'']"
    by (simp add: signed signed_frame_def same_names_def dkeys_def)
  have auth: "get signed ''authorization'' = VDict (issued_claims robot issued @ [(''signature'', VStr s)])"
    by (simp add: signed signed_frame_def get_def)
  have fields: "same_names (dkeys (issued_claims robot issued @ [(''signature'', VStr s)])) CLAIM_FIELDS"
    by (simp add: same_names_def dkeys_def CLAIM_FIELDS_def issued_claims_def)
  have sig: "get (issued_claims robot issued @ [(''signature'', VStr s)]) ''signature'' = VStr s"
    by (simp add: issued_claims_def get_def)
  have unsigned: "dset signed ''authorization''
      (VDict (ddel (issued_claims robot issued @ [(''signature'', VStr s)]) ''signature'')) = unsigned_frame r a robot issued"
    by (simp add: signed signed_frame_def unsigned_frame_def issued_claims_def ddel_def)
  have expected: "signature_of repr mac key (unsigned_frame r a robot issued) = Inr s"
    by (simp add: signature_of_def k msg s_def)
  have sorted: "sort_keys (VDict [(''request'', sort_keys r), (''actor'', sort_keys a)])
      = sort_keys (VDict [(''request'', r), (''actor'', a)])"
    by (simp add: sorted_pair del: sort_keys.simps)
  have pair: "\<exists>text'. canonical repr (VDict [(''request'', sort_keys r), (''actor'', sort_keys a)]) = Inr text'"
    using pair_text [OF msg] canonical_sort_keys [of repr "VDict [(''request'', sort_keys r), (''actor'', sort_keys a)]"]
      canonical_sort_keys [of repr "VDict [(''request'', r), (''actor'', a)]"]
    by (simp add: sorted)
  have gets: "get signed ''request'' = sort_keys r" "get signed ''actor'' = sort_keys a"
    by (simp_all add: signed signed_frame_def get_def)
  note bind = signed_binding [OF clock_ms_nonneg [OF assms(3)] assms(4)]
  obtain tx where pair: "canonical repr (VDict [(''request'', sort_keys r), (''actor'', sort_keys a)]) = Inr tx"
    using pair by blast
  have hex: "sha256_hex s" by (simp add: s_def hexdigest)
  have "verify repr mac signed key robot later =
      (if issued \<le> t + CLOCK_SKEW_MS \<and> t < issued + MAX_LIFETIME_MS
       then Inr (sort_keys (VDict [(''request'', r), (''actor'', a)]))
       else Inl (Refused Expired_or_future))"
    by (simp add: verify_def sub [OF rob] names auth fields bind assms(5) sig hex unsigned expected gets sorted pair
        Let_def del: sort_keys.simps)
  moreover have "verify repr mac signed key robot' later = Inl (Refused Binding_invalid)"
    if "robot_subject robot'" "robot' \<noteq> robot"
    by (simp add: verify_def sub [OF that(1)] names auth fields bind that(2) del: sort_keys.simps)
  ultimately show ?thesis by blast
qed

definition example_request :: pyval where
  "example_request = VDict [(''operation'', VStr ''apply''), (''expected_revision'', VInt 4)]"

definition example_actor :: pyval where
  "example_actor = VDict [(''id'', VInt 1), (''username'', VStr ''local''), (''role'', VStr ''administrator'')]"

definition example_mac :: "string \<Rightarrow> string \<Rightarrow> string" where
  "example_mac k m = replicate 64 (CHR ''a'')"

lemma example_signed:
  "\<exists>signed. sign (\<lambda>q. []) example_mac [(''request'', example_request), (''actor'', example_actor)]
     (Some (replicate 32 (CHR ''k''))) ''r1'' (VInt 1000) = Inr signed"
proof -
  let ?body = "VDict [(''request'', example_request), (''actor'', example_actor),
     (''authorization'', VDict [(''version'', VInt 1), (''robot_id'', VStr ''r1''), (''issued_at_ms'', VInt 1000000),
       (''expires_at_ms'', VInt (1000000 + MAX_LIFETIME_MS))])]"
  have subject: "subject_error [(''request'', example_request), (''actor'', example_actor)] ''r1'' = None"
    by code_simp
  have "length (string_of_int 1000000) \<le> 7" "length (string_of_int 1030000) \<le> 7"
    using digits_length [of 1000000 6] digits_length [of 1030000 6] by (simp_all add: string_of_int_def)
  moreover have "length (string_of_int 1) = 1" "length (string_of_int 4) = 1"
    by (simp_all add: string_of_int_def digits_of.simps)
  moreover have "sort_keys ?body = VDict (unsigned_frame example_request example_actor ''r1'' 1000000)"
    using sorted_wrapper sorted_claims by (simp add: unsigned_frame_def del: sort_keys.simps)
  moreover have "sort_keys example_request = VDict [(''expected_revision'', VInt 4), (''operation'', VStr ''apply'')]"
      "sort_keys example_actor = VDict [(''id'', VInt 1), (''role'', VStr ''administrator''), (''username'', VStr ''local'')]"
    by code_simp+
  ultimately have "length (json_text (\<lambda>q. []) (sort_keys ?body)) \<le> 1000"
    by (simp add: unsigned_frame_def issued_claims_def length_quoted escape_char_def MAX_LIFETIME_MS_def
        del: sort_keys.simps)
  moreover have "json_ok ?body" by code_simp
  ultimately obtain tx where "canonical (\<lambda>q. []) ?body = Inr tx"
    by (simp add: canonical_def MAX_BYTES_def del: sort_keys.simps)
  moreover have "clock_ms (VInt 1000) = Inr 1000000" by code_simp
  ultimately show ?thesis
    by (simp add: sign_def subject same_names_def dkeys_def signature_of_def usable_key_def KEY_MIN_def KEY_MAX_def Let_def
        del: sort_keys.simps)
qed

theorem signed_change_roundtrip_witness:
  "\<exists>signed. verify (\<lambda>q. []) example_mac signed (Some (replicate 32 (CHR ''k''))) ''r1'' (VInt 1010)
     = Inr (sort_keys (VDict [(''request'', example_request), (''actor'', example_actor)]))"
proof -
  obtain signed where s: "sign (\<lambda>q. []) example_mac [(''request'', example_request), (''actor'', example_actor)]
     (Some (replicate 32 (CHR ''k''))) ''r1'' (VInt 1000) = Inr signed"
    using example_signed by blast
  have hex: "\<And>k m. sha256_hex (example_mac k m)"
    by (auto simp: example_mac_def sha256_hex_def lower_hex_def list_all_iff)
  have clocks: "clock_ms (VInt 1000) = Inr 1000000" "clock_ms (VInt 1010) = Inr 1010000"
    by code_simp+
  have "1000000 + MAX_LIFETIME_MS < 2 ^ 53" by (simp add: MAX_LIFETIME_MS_def)
  from signed_change_roundtrip [OF s hex clocks(1) this clocks(2), of "''r2''"]
  show ?thesis by (auto simp: MAX_LIFETIME_MS_def CLOCK_SKEW_MS_def)
qed

end
