(* ===== verification/Tuning_Broker.thy ===== *)
theory Tuning_Broker
  imports Hub Tuning_Authorization
begin

text \<open>
  The tuning request broker of the server (\<open>server/app/tuning/broker.py\<close>, with \<open>authz.py\<close> and
  \<open>errors.py\<close>): admission of a canonical request, the bound wait for the robot's reply, replies,
  lost connections, shutdown, and the speed policy it derives from the last snapshot.

  A request runs as a coroutine that is suspended twice: while its frame is sent, and while it waits
  for its future. It is a call in \<open>tb_calls\<close>; \<open>tb_pending\<close> maps a request id to its call, as the table
  of the code maps it to its entry. The pieces between two awaits are atomic. Robot sessions and
  sockets are those of the shared \<open>world\<close>, which other components change between the steps. Sent
  frames and answers to callers are appended to logs. Sentences are constructors.
\<close>

subsection \<open>Refusals and answers\<close>

datatype tuning_refusal = Catalog_unavailable registry_error | Not_valid tuning_error | Admin_required
  | Role_unknown | Identity_unusable | In_flight | Already_handled | Too_many_pending | Change_in_flight
  | Robot_offline | Changes_unsupported | Reads_unsupported | Tuning_session_changed | Newer_revision
  | Not_signed auth_error | Connection_changed | Read_not_sent | Read_moved | Read_timeout
  | Read_dropped | Read_replaced | State_not_reported | Job_not_reported | Job_not_known

datatype unknown_cause = Send_error | Moved_while_sending | No_answer | Link_dropped
  | Session_replaced | Reply_malformed | Shutting_down

datatype tuning_answer = Robot_answer tuning_response | Unknown_outcome unknown_cause

datatype call_future = Waiting | Settled tuning_answer | Session_lost

datatype call_phase = Sending | Awaiting

text \<open>The HTTP status of a refusal; an exception that is no \<open>TuningError\<close> has none.\<close>

definition http_status :: "tuning_refusal \<Rightarrow> nat option" where
  "http_status r =
     (case r of
        Not_valid (Invalid c) \<Rightarrow> Some 400
      | Not_valid Crash \<Rightarrow> None
      | Admin_required \<Rightarrow> Some 403 | Role_unknown \<Rightarrow> Some 403 | Identity_unusable \<Rightarrow> Some 403
      | In_flight \<Rightarrow> Some 409 | Already_handled \<Rightarrow> Some 409 | Tuning_session_changed \<Rightarrow> Some 409
      | Newer_revision \<Rightarrow> Some 409
      | Too_many_pending \<Rightarrow> Some 429 | Change_in_flight \<Rightarrow> Some 429
      | Job_not_known \<Rightarrow> Some 404
      | Not_signed Type_error \<Rightarrow> None | Not_signed Overflow_error \<Rightarrow> None
      | _ \<Rightarrow> Some 503)"

subsection \<open>State\<close>

definition MAX_PENDING :: nat where "MAX_PENDING = 8"
definition DEDUPE_LIMIT :: nat where "DEDUPE_LIMIT = 512"
definition DEDUPE_TTL_S :: rat where "DEDUPE_TTL_S = 60"
definition WRITE_CAPABILITY :: string where "WRITE_CAPABILITY = ''robot_tuning_write_v1''"

record tuning_call =
  tc_request_id :: string
  tc_robot :: string
  tc_session :: nat
  tc_generation :: int
  tc_websocket :: "nat option"
  tc_operation :: string
  tc_mutation :: bool
  tc_future :: call_future
  tc_phase :: call_phase

record tuning_frame =
  fr_call :: nat
  fr_request_id :: string
  fr_mutation :: bool
  fr_websocket :: "nat option"
  fr_wrapper :: entry
  fr_time :: rat

record tuning_cache =
  ca_session :: nat
  ca_websocket :: "nat option"
  ca_snapshot :: pyval
  ca_received :: rat

record tuning_broker =
  tb_pending :: "(string \<times> nat) list"
  tb_calls :: "(nat \<times> tuning_call) list"
  tb_next :: nat
  tb_locked :: "string list"
  tb_seen :: "(string \<times> rat) list"
  tb_desired :: "(string \<times> int \<times> int \<times> string) list"
  tb_policies :: "(string \<times> tuning_cache) list"
  tb_frames :: "tuning_frame list"
  tb_answers :: "(nat \<times> bool \<times> (tuning_refusal + tuning_answer)) list"
  tb_clock :: rat

definition tuning_new :: tuning_broker where
  "tuning_new = \<lparr>tb_pending = [], tb_calls = [], tb_next = 0, tb_locked = [], tb_seen = [],
     tb_desired = [], tb_policies = [], tb_frames = [], tb_answers = [], tb_clock = 0\<rparr>"

text \<open>The reviewed catalogue, or why it cannot be loaded, and the signer of changes for a robot.\<close>

record tuning_env =
  te_catalog :: "registry_error + entry"
  te_sign :: "entry \<Rightarrow> string \<Rightarrow> auth_error + entry"

subsection \<open>Remembered ids\<close>

fun prune_before :: "rat \<Rightarrow> (string \<times> rat) list \<Rightarrow> (string \<times> rat) list" where
  "prune_before cutoff [] = []"
| "prune_before cutoff ((k, t) # s) = (if t < cutoff then prune_before cutoff s else (k, t) # s)"

definition prune_seen :: "rat \<Rightarrow> tuning_broker \<Rightarrow> tuning_broker" where
  "prune_seen now b = b\<lparr>tb_seen := prune_before (now - DEDUPE_TTL_S) (tb_seen b)\<rparr>"

definition seen_id :: "string \<Rightarrow> tuning_broker \<Rightarrow> bool" where
  "seen_id rid b = (rid \<in> set (dkeys (tb_seen b)))"

definition remember_id :: "string \<Rightarrow> rat \<Rightarrow> tuning_broker \<Rightarrow> tuning_broker" where
  "remember_id rid now b =
     (let seen = prune_before (now - DEDUPE_TTL_S) (ddel (tb_seen b) rid @ [(rid, now)]) in
      b\<lparr>tb_seen := drop (length seen - DEDUPE_LIMIT) seen\<rparr>)"

subsection \<open>Admission\<close>

definition call_bound :: "world \<Rightarrow> nat \<Rightarrow> int \<Rightarrow> nat option \<Rightarrow> bool" where
  "call_bound w sid generation websocket =
     (session_of w (se_robot (w_sessions w sid)) = Some sid
      \<and> se_websocket (w_sessions w sid) = websocket
      \<and> se_generation (w_sessions w sid) = generation)"

definition bound_call :: "world \<Rightarrow> tuning_call \<Rightarrow> bool" where
  "bound_call w c = call_bound w (tc_session c) (tc_generation c) (tc_websocket c)"

definition actor_from_user :: "user \<Rightarrow> tuning_refusal + pyval" where
  "actor_from_user u =
     (if us_role u \<notin> set ROLES then Inl Role_unknown
      else if \<not> (1 \<le> length (us_username u) \<and> length (us_username u) \<le> MAX_USERNAME) then Inl Identity_unusable
      else Inr (VDict [(''id'', VInt (us_id u)), (''username'', VStr (us_username u)), (''role'', VStr (us_role u))]))"

definition is_mutation :: "string \<Rightarrow> bool" where
  "is_mutation operation = (operation \<in> set MUTATION_OPERATIONS)"

definition require_administrator :: "user \<Rightarrow> string \<Rightarrow> tuning_refusal option" where
  "require_administrator u operation =
     (if is_mutation operation \<and> \<not> is_administrator u then Some Admin_required else None)"

definition int_value :: "pyval \<Rightarrow> int option" where
  "int_value v = (case v of VInt i \<Rightarrow> Some i | VBool b \<Rightarrow> Some (if b then 1 else 0) | _ \<Rightarrow> None)"

definition optimistic_check :: "string \<Rightarrow> int \<Rightarrow> entry \<Rightarrow> string \<Rightarrow> tuning_broker \<Rightarrow> tuning_refusal option" where
  "optimistic_check robot session_generation payload operation b =
     (case dget (tb_desired b) robot of
        None \<Rightarrow> None
      | Some (generation, rev_no, token) \<Rightarrow>
          if generation \<noteq> session_generation then None
          else if get (dict_of (get payload ''generation'')) ''session_id'' \<noteq> VStr token
          then Some Tuning_session_changed
          else (case int_value (get payload (if operation = ''save'' then ''base_revision'' else ''expected_revision'')) of
             Some supplied \<Rightarrow> if supplied \<noteq> rev_no then Some Newer_revision else None
           | None \<Rightarrow> None))"

definition capable :: "string list \<Rightarrow> string \<Rightarrow> bool \<Rightarrow> bool" where
  "capable caps operation mutation =
     ((if mutation then TUNING_CAPABILITY else TUNING_READ_CAPABILITY) \<in> set caps
      \<or> (operation = ''save'' \<and> WRITE_CAPABILITY \<in> set caps))"

definition session_problem :: "world \<Rightarrow> string \<Rightarrow> nat \<Rightarrow> entry \<Rightarrow> string \<Rightarrow> bool \<Rightarrow> tuning_broker \<Rightarrow> tuning_refusal option" where
  "session_problem w robot sid payload operation mutation b =
     (let s = w_sessions w sid; st = w_state w (se_robot s) in
      if se_websocket s = None \<or> rb_connection st \<noteq> Online then Some Robot_offline
      else if \<not> capable (rb_capabilities st) operation mutation
      then Some (if mutation then Changes_unsupported else Reads_unsupported)
      else case (if mutation then optimistic_check robot (se_generation s) payload operation b else None) of
        Some r \<Rightarrow> Some r
      | None \<Rightarrow> if MAX_PENDING \<le> length (tb_pending b) then Some Too_many_pending else None)"

definition wrapper_for :: "tuning_env \<Rightarrow> user \<Rightarrow> string \<Rightarrow> entry \<Rightarrow> bool \<Rightarrow> tuning_refusal + entry" where
  "wrapper_for env u robot payload mutation =
     (case actor_from_user u of
        Inl r \<Rightarrow> Inl r
      | Inr actor \<Rightarrow>
        (case validate_actor actor of
           Some e \<Rightarrow> Inl (Not_valid e)
         | None \<Rightarrow>
           let wrapper = [(''request'', VDict payload), (''actor'', actor)] in
           if mutation then (case te_sign env wrapper robot of Inl e \<Rightarrow> Inl (Not_signed e) | Inr s \<Rightarrow> Inr s)
           else Inr wrapper))"

text \<open>The call leaves the tables: its entry, its lock.\<close>

definition drop_call :: "nat \<Rightarrow> tuning_broker \<Rightarrow> tuning_broker" where
  "drop_call ref b =
     (case dget (tb_calls b) ref of
        None \<Rightarrow> b
      | Some c \<Rightarrow> b\<lparr>tb_pending := ddel (tb_pending b) (tc_request_id c), tb_calls := ddel (tb_calls b) ref,
          tb_locked := (if tc_mutation c then removeAll (tc_robot c) (tb_locked b) else tb_locked b)\<rparr>)"

text \<open>The entry enters the tables; a change is remembered before its frame is sent.\<close>

definition enter_call :: "tuning_call \<Rightarrow> rat \<Rightarrow> tuning_broker \<Rightarrow> tuning_broker" where
  "enter_call c now b =
     (let b1 = b\<lparr>tb_next := Suc (tb_next b), tb_calls := dset (tb_calls b) (tb_next b) c,
                 tb_pending := dset (tb_pending b) (tc_request_id c) (tb_next b)\<rparr> in
      if tc_mutation c then remember_id (tc_request_id c) now b1 else b1)"

definition new_call :: "world \<Rightarrow> string \<Rightarrow> nat \<Rightarrow> entry \<Rightarrow> string \<Rightarrow> bool \<Rightarrow> tuning_call" where
  "new_call w robot sid payload operation mutation =
     \<lparr>tc_request_id = text_or_empty (get payload ''request_id''), tc_robot = robot, tc_session = sid,
      tc_generation = se_generation (w_sessions w sid), tc_websocket = se_websocket (w_sessions w sid),
      tc_operation = operation, tc_mutation = mutation, tc_future = Waiting, tc_phase = Sending\<rparr>"

definition emit_frame :: "nat \<Rightarrow> tuning_call \<Rightarrow> entry \<Rightarrow> rat \<Rightarrow> tuning_broker \<Rightarrow> tuning_broker" where
  "emit_frame ref c wrapper now b =
     b\<lparr>tb_frames := tb_frames b @ [\<lparr>fr_call = ref, fr_request_id = tc_request_id c, fr_mutation = tc_mutation c,
        fr_websocket = tc_websocket c, fr_wrapper = wrapper, fr_time = now\<rparr>]\<rparr>"

definition launch :: "world \<Rightarrow> string \<Rightarrow> nat \<Rightarrow> entry \<Rightarrow> string \<Rightarrow> bool \<Rightarrow> entry \<Rightarrow> rat \<Rightarrow> tuning_broker
    \<Rightarrow> tuning_broker \<times> (tuning_refusal + nat)" where
  "launch w robot sid payload operation mutation wrapper now b =
     (let c = new_call w robot sid payload operation mutation; b' = enter_call c now b in
      if bound_call w c then (emit_frame (tb_next b) c wrapper now b', Inr (tb_next b))
      else (drop_call (tb_next b) b', Inl Connection_changed))"

definition request_locked :: "tuning_env \<Rightarrow> world \<Rightarrow> user \<Rightarrow> string \<Rightarrow> entry \<Rightarrow> string \<Rightarrow> bool \<Rightarrow> rat \<Rightarrow> tuning_broker
    \<Rightarrow> tuning_broker \<times> (tuning_refusal + nat)" where
  "request_locked env w u robot payload operation mutation now b =
     (let rid = text_or_empty (get payload ''request_id'');
          b1 = (if mutation then prune_seen now b else b) in
      if rid \<in> set (dkeys (tb_pending b)) then (b, Inl In_flight)
      else if mutation \<and> seen_id rid b1 then (b1, Inl Already_handled)
      else case session_of w robot of
        None \<Rightarrow> (b1, Inl Robot_offline)
      | Some sid \<Rightarrow>
        (case session_problem w robot sid payload operation mutation b1 of
           Some r \<Rightarrow> (b1, Inl r)
         | None \<Rightarrow>
           (case wrapper_for env u robot payload mutation of
              Inl r \<Rightarrow> (b1, Inl r)
            | Inr wrapper \<Rightarrow> launch w robot sid payload operation mutation wrapper now b1)))"

definition unlock_refused :: "string \<Rightarrow> tuning_broker \<times> (tuning_refusal + nat) \<Rightarrow> tuning_broker \<times> (tuning_refusal + nat)" where
  "unlock_refused robot res =
     (case res of
        (b, Inl r) \<Rightarrow> (b\<lparr>tb_locked := removeAll robot (tb_locked b)\<rparr>, Inl r)
      | (b, Inr ref) \<Rightarrow> (b, Inr ref))"

definition tuning_request :: "tuning_env \<Rightarrow> world \<Rightarrow> user \<Rightarrow> string \<Rightarrow> pyval \<Rightarrow> rat \<Rightarrow> tuning_broker
    \<Rightarrow> tuning_broker \<times> (tuning_refusal + nat)" where
  "tuning_request env w u robot request now b =
     (case te_catalog env of
        Inl e \<Rightarrow> (b, Inl (Catalog_unavailable e))
      | Inr registry \<Rightarrow>
        (case validate_request request registry of
           Some e \<Rightarrow> (b, Inl (Not_valid e))
         | None \<Rightarrow>
           let payload = dict_of request; operation = text_or_empty (get payload ''operation'');
               rid = text_or_empty (get payload ''request_id''); mutation = is_mutation operation;
               b1 = (if mutation then prune_seen now b else b) in
           case require_administrator u operation of
             Some r \<Rightarrow> (b, Inl r)
           | None \<Rightarrow>
             if rid \<in> set (dkeys (tb_pending b)) then (b, Inl In_flight)
             else if mutation \<and> seen_id rid b1 then (b1, Inl Already_handled)
             else if MAX_PENDING \<le> length (tb_pending b) then (b1, Inl Too_many_pending)
             else if mutation then
               (if robot \<in> set (tb_locked b) then (b1, Inl Change_in_flight)
                else unlock_refused robot
                  (request_locked env w u robot payload operation mutation now
                    (b1\<lparr>tb_locked := robot # tb_locked b1\<rparr>)))
             else request_locked env w u robot payload operation mutation now b1))"

subsection \<open>The suspended call\<close>

definition answer_call :: "nat \<Rightarrow> tuning_refusal + tuning_answer \<Rightarrow> tuning_broker \<Rightarrow> tuning_broker" where
  "answer_call ref res b =
     (case dget (tb_calls b) ref of
        None \<Rightarrow> b
      | Some c \<Rightarrow> (drop_call ref b)\<lparr>tb_answers := tb_answers b @ [(ref, tc_mutation c, res)]\<rparr>)"

text \<open>A change whose outcome cannot be known is answered as unknown; a read is refused.\<close>

definition lost_outcome :: "tuning_call \<Rightarrow> unknown_cause \<Rightarrow> tuning_refusal \<Rightarrow> tuning_refusal + tuning_answer" where
  "lost_outcome c cause r = (if tc_mutation c then Inr (Unknown_outcome cause) else Inl r)"

definition send_done :: "world \<Rightarrow> nat \<Rightarrow> bool \<Rightarrow> tuning_broker \<Rightarrow> tuning_broker" where
  "send_done w ref ok b =
     (case dget (tb_calls b) ref of
        None \<Rightarrow> b
      | Some c \<Rightarrow>
          if tc_phase c \<noteq> Sending then b
          else if \<not> ok then answer_call ref (lost_outcome c Send_error Read_not_sent) b
          else if \<not> bound_call w c then answer_call ref (lost_outcome c Moved_while_sending Read_moved) b
          else b\<lparr>tb_calls := dset (tb_calls b) ref (c\<lparr>tc_phase := Awaiting\<rparr>)\<rparr>)"

definition update_desired :: "world \<Rightarrow> tuning_call \<Rightarrow> tuning_answer \<Rightarrow> tuning_broker \<Rightarrow> tuning_broker" where
  "update_desired w c a b =
     (case a of
        Robot_answer r \<Rightarrow>
          (case (int_value (get (dict_of (ts_snapshot r)) ''desired_revision''),
                 get (dict_of (ts_snapshot r)) ''session_id'') of
             (Some desired, VStr token) \<Rightarrow>
               b\<lparr>tb_desired := dset (tb_desired b) (tc_robot c)
                   (se_generation (w_sessions w (tc_session c)), desired, token)\<rparr>
           | _ \<Rightarrow> b)
      | Unknown_outcome cause \<Rightarrow> b)"

definition answered_ok :: "tuning_answer \<Rightarrow> bool" where
  "answered_ok a = (case a of Robot_answer r \<Rightarrow> ts_outcome r = ''ok'' | Unknown_outcome cause \<Rightarrow> False)"

definition call_done :: "world \<Rightarrow> nat \<Rightarrow> bool \<Rightarrow> tuning_broker \<Rightarrow> tuning_broker" where
  "call_done w ref timed_out b =
     (case dget (tb_calls b) ref of
        None \<Rightarrow> b
      | Some c \<Rightarrow>
          if tc_phase c \<noteq> Awaiting then b
          else (case tc_future c of
             Waiting \<Rightarrow> if timed_out then answer_call ref (lost_outcome c No_answer Read_timeout) b else b
           | Session_lost \<Rightarrow> answer_call ref (lost_outcome c Link_dropped Read_dropped) b
           | Settled a \<Rightarrow>
               if answered_ok a \<and> \<not> bound_call w c
               then answer_call ref (lost_outcome c Session_replaced Read_replaced) b
               else answer_call ref (Inr a) (update_desired w c a b)))"

text \<open>The task of the caller is cancelled: only its \<open>finally\<close> runs.\<close>

definition call_cancelled :: "nat \<Rightarrow> tuning_broker \<Rightarrow> tuning_broker" where
  "call_cancelled ref b = drop_call ref b"

subsection \<open>The robot side\<close>

definition bound_entry :: "world \<Rightarrow> nat \<Rightarrow> tuning_call \<Rightarrow> bool" where
  "bound_entry w sid c =
     (tc_session c = sid \<and> tc_generation c = se_generation (w_sessions w sid)
      \<and> tc_websocket c = se_websocket (w_sessions w sid))"

definition settle :: "nat \<Rightarrow> call_future \<Rightarrow> tuning_broker \<Rightarrow> tuning_broker" where
  "settle ref f b =
     (case dget (tb_calls b) ref of
        None \<Rightarrow> b
      | Some c \<Rightarrow> if tc_future c = Waiting
                  then b\<lparr>tb_calls := dset (tb_calls b) ref (c\<lparr>tc_future := f\<rparr>)\<rparr> else b)"

definition pending_call :: "tuning_broker \<Rightarrow> string \<Rightarrow> (nat \<times> tuning_call) option" where
  "pending_call b rid =
     (case dget (tb_pending b) rid of
        None \<Rightarrow> None
      | Some ref \<Rightarrow> (case dget (tb_calls b) ref of None \<Rightarrow> None | Some c \<Rightarrow> Some (ref, c)))"

definition malformed_reply :: "world \<Rightarrow> nat \<Rightarrow> entry \<Rightarrow> tuning_broker \<Rightarrow> tuning_broker" where
  "malformed_reply w sid data b =
     (case canonical_uuid (get data ''request_id'') of
        None \<Rightarrow> b
      | Some rid \<Rightarrow> (case pending_call b rid of
          None \<Rightarrow> b
        | Some (ref, c) \<Rightarrow> if bound_entry w sid c then settle ref (Settled (Unknown_outcome Reply_malformed)) b else b))"

definition cache_policy :: "world \<Rightarrow> nat \<Rightarrow> tuning_response \<Rightarrow> rat \<Rightarrow> tuning_broker \<Rightarrow> tuning_broker" where
  "cache_policy w sid r now b =
     (if ts_outcome r = ''ok'' \<and> ts_snapshot r \<noteq> VNone
      then b\<lparr>tb_policies := dset (tb_policies b) (se_robot (w_sessions w sid))
        \<lparr>ca_session = sid, ca_websocket = se_websocket (w_sessions w sid), ca_snapshot = ts_snapshot r,
         ca_received = now\<rparr>\<rparr>
      else b)"

definition deliver_reply :: "world \<Rightarrow> nat \<Rightarrow> string \<Rightarrow> tuning_response \<Rightarrow> rat \<Rightarrow> tuning_broker \<Rightarrow> tuning_broker" where
  "deliver_reply w sid envelope_robot r now b =
     (case pending_call b (ts_request_id r) of
        None \<Rightarrow> b
      | Some (ref, c) \<Rightarrow>
          if \<not> bound_entry w sid c \<or> envelope_robot \<noteq> tc_robot c then b
          else settle ref (Settled (Robot_answer r)) (if tc_mutation c then remember_id (tc_request_id c) now b else b))"

definition handle_response :: "tuning_env \<Rightarrow> world \<Rightarrow> nat \<Rightarrow> string \<Rightarrow> pyval \<Rightarrow> rat \<Rightarrow> tuning_broker \<Rightarrow> tuning_broker" where
  "handle_response env w sid envelope_robot reply now b =
     (if session_of w (se_robot (w_sessions w sid)) \<noteq> Some sid \<or> se_websocket (w_sessions w sid) = None then b
      else case (reply, te_catalog env) of
        (VDict data, Inr registry) \<Rightarrow>
          (case validate_response reply registry of
             Inl Crash \<Rightarrow> b
           | Inl (Invalid code) \<Rightarrow> malformed_reply w sid data b
           | Inr r \<Rightarrow>
               if envelope_robot \<noteq> se_robot (w_sessions w sid) then b
               else deliver_reply w sid envelope_robot r now (cache_policy w sid r now b))
      | _ \<Rightarrow> b)"

text \<open>Every pending call that is concerned and still waits learns that its outcome is lost.\<close>

definition lose_call :: "(tuning_call \<Rightarrow> bool) \<Rightarrow> unknown_cause \<Rightarrow> nat list \<Rightarrow> nat \<times> tuning_call \<Rightarrow> nat \<times> tuning_call" where
  "lose_call concerned cause refs p =
     (case p of (ref, c) \<Rightarrow>
        if ref \<in> set refs \<and> concerned c \<and> tc_future c = Waiting
        then (ref, c\<lparr>tc_future := (if tc_mutation c then Settled (Unknown_outcome cause) else Session_lost)\<rparr>)
        else (ref, c))"

definition lose_calls :: "(tuning_call \<Rightarrow> bool) \<Rightarrow> unknown_cause \<Rightarrow> tuning_broker \<Rightarrow> tuning_broker" where
  "lose_calls concerned cause b =
     b\<lparr>tb_calls := map (lose_call concerned cause (map snd (tb_pending b))) (tb_calls b)\<rparr>"

definition tuning_disconnected :: "world \<Rightarrow> nat \<Rightarrow> tuning_broker \<Rightarrow> tuning_broker" where
  "tuning_disconnected w sid b =
     (let robot = se_robot (w_sessions w sid) in
      lose_calls (\<lambda>c. tc_session c = sid) Link_dropped
        (case dget (tb_policies b) robot of
           None \<Rightarrow> b
         | Some ca \<Rightarrow> if ca_session ca = sid then b\<lparr>tb_policies := ddel (tb_policies b) robot\<rparr> else b))"

definition tuning_shutdown :: "tuning_broker \<Rightarrow> tuning_broker" where
  "tuning_shutdown b = (lose_calls (\<lambda>c. True) Shutting_down b)\<lparr>tb_pending := [], tb_policies := []\<rparr>"

subsection \<open>The derived speed policy\<close>

definition text_of :: "pyval \<Rightarrow> string" where
  "text_of v = (case v of VStr s \<Rightarrow> s | VInt i \<Rightarrow> string_of_int i | _ \<Rightarrow> ''None'')"

lemma dget_key_str: "dget (map (\<lambda>p. (Key_str (fst p), snd p)) d) (Key_str k) = dget d k"
  by (induction d) auto

definition policy_mapping :: "entry \<Rightarrow> string \<Rightarrow> rat \<Rightarrow> int \<Rightarrow> raw_value" where
  "policy_mapping limits generation received robot_generation =
     Raw_mapping (map (\<lambda>p. (Key_str (fst p), snd p))
       (dset (dset (dset limits ''generation'' (VStr generation)) ''received_mono'' (VFloat (Fin received)))
         ''robot_generation'' (VInt robot_generation)))"

definition snapshot_policy :: "entry \<Rightarrow> base_state_data \<Rightarrow> rat \<Rightarrow> raw_value option" where
  "snapshot_policy s base received =
     (case (get s ''effective_limits'', get s ''digest'') of
        (VDict limits, VStr digest) \<Rightarrow>
          if numeric (get s ''hardware_session_generation'') \<noteq> Some (Fin (of_int (bs_session_generation base)))
          then Some Raw_none
          else (case (dget s ''session_id'', dget s ''active_revision'') of
             (Some token, Some rev_no) \<Rightarrow>
               Some (policy_mapping limits
                 (text_of token @ '':'' @ text_of rev_no @ '':'' @ remove_prefix ''sha256:'' digest)
                 received (bs_session_generation base))
           | _ \<Rightarrow> None)
      | _ \<Rightarrow> Some Raw_none)"

text \<open>\<open>None\<close> is an exception: a snapshot that does not name the token or the revision it reads.\<close>

definition tuning_teleop_policy :: "world \<Rightarrow> string \<Rightarrow> tuning_broker \<Rightarrow> raw_value option" where
  "tuning_teleop_policy w robot b =
     (case dget (tb_policies b) robot of
        None \<Rightarrow> Some Raw_none
      | Some ca \<Rightarrow>
          (let s = dict_of (ca_snapshot ca); session = w_sessions w (ca_session ca) in
           if \<not> call_bound w (ca_session ca) (se_generation session) (ca_websocket ca)
              \<or> \<not> py_truth (get s ''active_known'') then Some Raw_none
           else case sl_data (rb_base_state (w_state w (se_robot session))) of
             None \<Rightarrow> Some Raw_none
           | Some base \<Rightarrow> snapshot_policy s base (ca_received ca)))"

subsection \<open>Reading the state and a job\<close>

definition read_request :: "string \<Rightarrow> string \<Rightarrow> string \<Rightarrow> entry" where
  "read_request operation rid token =
     [(''contract'', VStr TUNING_CONTRACT), (''version'', VInt 1), (''operation'', VStr operation),
      (''request_id'', VStr rid),
      (''generation'', VDict [(''capability'', VStr TUNING_CAPABILITY), (''session_id'', VStr token)])]"

definition job_request :: "string \<Rightarrow> string \<Rightarrow> string \<Rightarrow> entry" where
  "job_request rid token job = dset (read_request ''status'' rid token) ''job_id'' (VStr job)"

definition read_snapshot :: "tuning_refusal + tuning_answer \<Rightarrow> tuning_refusal + pyval" where
  "read_snapshot res =
     (case res of
        Inl r \<Rightarrow> Inl r
      | Inr (Unknown_outcome cause) \<Rightarrow> Inl State_not_reported
      | Inr (Robot_answer r) \<Rightarrow>
          if ts_outcome r \<noteq> ''ok'' \<or> ts_snapshot r = VNone then Inl State_not_reported else Inr (ts_snapshot r))"

definition read_job :: "tuning_refusal + tuning_answer \<Rightarrow> tuning_refusal + pyval" where
  "read_job res =
     (case res of
        Inl r \<Rightarrow> Inl r
      | Inr (Unknown_outcome cause) \<Rightarrow> Inl Job_not_reported
      | Inr (Robot_answer r) \<Rightarrow>
          if ts_outcome r \<noteq> ''ok'' then Inl Job_not_reported
          else if ts_job r = VNone then Inl Job_not_known else Inr (ts_job r))"

subsection \<open>Runs\<close>

text \<open>
  A run of the broker: requests and the ends of their waits, replies and lost connections, in any
  order, on any world in which a session is listed under its own robot, and on a clock that does
  not go back.
\<close>

definition sessions_named :: "world \<Rightarrow> bool" where
  "sessions_named w \<longleftrightarrow> (\<forall>robot sid. session_of w robot = Some sid \<longrightarrow> se_robot (w_sessions w sid) = robot)"

inductive tuning_step :: "tuning_env \<Rightarrow> tuning_broker \<Rightarrow> tuning_broker \<Rightarrow> bool" for env where
  ask: "tb_clock b \<le> now \<Longrightarrow> sessions_named w \<Longrightarrow>
    tuning_step env b (fst (tuning_request env w u robot request now (b\<lparr>tb_clock := now\<rparr>)))"
| sent: "tuning_step env b (send_done w ref ok b)"
| finished: "tuning_step env b (call_done w ref timed_out b)"
| cancelled: "tuning_step env b (call_cancelled ref b)"
| reply: "tb_clock b \<le> now \<Longrightarrow> tuning_step env b (handle_response env w sid er v now (b\<lparr>tb_clock := now\<rparr>))"
| dropped: "tuning_step env b (tuning_disconnected w sid b)"
| stopped: "tuning_step env b (tuning_shutdown b)"

inductive tuning_reach :: "tuning_env \<Rightarrow> tuning_broker \<Rightarrow> bool" for env where
  start: "tuning_reach env tuning_new"
| step: "tuning_reach env b \<Longrightarrow> tuning_step env b b' \<Longrightarrow> tuning_reach env b'"

subsection \<open>One change per robot, a bounded table\<close>

lemma dget_map_fst:
  assumes "\<And>p. fst (f p) = fst p"
  shows "dget (map f d) k = map_option (\<lambda>v. snd (f (k, v))) (dget d k)"
proof (induction d)
  case (Cons p d)
  then show ?case using assms [of p] by (cases p; cases "f p") (auto simp: dget_def)
qed simp

lemma length_ddel: "length (ddel d k) \<le> length d"
  by (simp add: ddel_def)

lemma length_dset_le: "length (dset d k v) \<le> Suc (length d)"
  by (simp add: length_dset)

text \<open>The parts of a call that never change.\<close>

definition same_call :: "tuning_call \<Rightarrow> tuning_call \<Rightarrow> bool" where
  "same_call c c' \<longleftrightarrow> tc_request_id c' = tc_request_id c \<and> tc_robot c' = tc_robot c \<and> tc_session c' = tc_session c
     \<and> tc_generation c' = tc_generation c \<and> tc_websocket c' = tc_websocket c \<and> tc_mutation c' = tc_mutation c"

definition calls_kept :: "tuning_broker \<Rightarrow> tuning_broker \<Rightarrow> bool" where
  "calls_kept b b' \<longleftrightarrow>
     (\<forall>ref c'. dget (tb_calls b') ref = Some c' \<longrightarrow> (\<exists>c. dget (tb_calls b) ref = Some c \<and> same_call c c'))"

definition serial :: "tuning_broker \<Rightarrow> bool" where
  "serial b \<longleftrightarrow> length (tb_pending b) \<le> MAX_PENDING
     \<and> (\<forall>ref c. dget (tb_calls b) ref = Some c \<longrightarrow>
          ref < tb_next b \<and> (tc_mutation c \<longrightarrow> tc_robot c \<in> set (tb_locked b)))
     \<and> (\<forall>ref c ref' c'. dget (tb_calls b) ref = Some c \<longrightarrow> dget (tb_calls b) ref' = Some c' \<longrightarrow>
          tc_mutation c \<longrightarrow> tc_mutation c' \<longrightarrow> tc_robot c = tc_robot c' \<longrightarrow> ref = ref')"

lemma same_call_refl [simp]: "same_call c c"
  by (simp add: same_call_def)

lemma calls_kept_refl [simp]: "calls_kept b b"
  by (auto simp: calls_kept_def)

lemma serial_kept:
  assumes "serial b" "calls_kept b b'" "tb_next b' = tb_next b" "tb_locked b' = tb_locked b"
    and "length (tb_pending b') \<le> length (tb_pending b)"
  shows "serial b'"
proof -
  have "ref < tb_next b' \<and> (tc_mutation c \<longrightarrow> tc_robot c \<in> set (tb_locked b'))"
    if "dget (tb_calls b') ref = Some c" for ref c
    using that assms(1-4) unfolding serial_def calls_kept_def same_call_def by metis
  moreover have "ref = ref'"
    if "dget (tb_calls b') ref = Some c" "dget (tb_calls b') ref' = Some c'" "tc_mutation c" "tc_mutation c'"
      "tc_robot c = tc_robot c'" for ref c ref' c'
    using that assms(1,2) unfolding serial_def calls_kept_def same_call_def by metis
  moreover have "length (tb_pending b') \<le> MAX_PENDING" using assms(1,5) by (simp add: serial_def)
  ultimately show ?thesis unfolding serial_def by blast
qed

lemma serial_drop_call:
  assumes "serial b"
  shows "serial (drop_call ref b)"
proof (cases "dget (tb_calls b) ref")
  case (Some c)
  have "ref' < tb_next b \<and> (tc_mutation c' \<longrightarrow> tc_robot c' \<in> set (tb_locked (drop_call ref b)))"
    if "dget (tb_calls b) ref' = Some c'" "ref' \<noteq> ref" for ref' c'
    using that assms Some unfolding serial_def drop_call_def by fastforce
  with assms Some length_ddel [of "tb_pending b" "tc_request_id c"] show ?thesis
    unfolding serial_def by (auto simp: drop_call_def)
qed (use assms in \<open>simp add: drop_call_def\<close>)

lemma drop_call_kept: "calls_kept b (drop_call ref b)"
  by (auto simp: drop_call_def calls_kept_def split: option.splits)

lemma remember_id_fields [simp]:
  "tb_calls (remember_id rid now b) = tb_calls b" "tb_next (remember_id rid now b) = tb_next b"
  "tb_locked (remember_id rid now b) = tb_locked b" "tb_pending (remember_id rid now b) = tb_pending b"
  "tb_frames (remember_id rid now b) = tb_frames b" "tb_answers (remember_id rid now b) = tb_answers b"
  "tb_policies (remember_id rid now b) = tb_policies b" "tb_clock (remember_id rid now b) = tb_clock b"
  by (simp_all add: remember_id_def Let_def)

lemma enter_call_fields [simp]:
  "tb_calls (enter_call c now b) = dset (tb_calls b) (tb_next b) c" "tb_next (enter_call c now b) = Suc (tb_next b)"
  "tb_locked (enter_call c now b) = tb_locked b"
  "tb_pending (enter_call c now b) = dset (tb_pending b) (tc_request_id c) (tb_next b)"
  "tb_frames (enter_call c now b) = tb_frames b" "tb_answers (enter_call c now b) = tb_answers b"
  "tb_policies (enter_call c now b) = tb_policies b" "tb_clock (enter_call c now b) = tb_clock b"
  by (simp_all add: enter_call_def Let_def)

lemma prune_seen_fields [simp]:
  "tb_calls (prune_seen now b) = tb_calls b" "tb_next (prune_seen now b) = tb_next b"
  "tb_locked (prune_seen now b) = tb_locked b" "tb_pending (prune_seen now b) = tb_pending b"
  "tb_frames (prune_seen now b) = tb_frames b" "tb_answers (prune_seen now b) = tb_answers b"
  "tb_policies (prune_seen now b) = tb_policies b" "tb_clock (prune_seen now b) = tb_clock b"
  by (simp_all add: prune_seen_def)

lemma seen_locked [simp]: "seen_id rid (b\<lparr>tb_locked := x\<rparr>) = seen_id rid b"
  by (simp add: seen_id_def)

subsection \<open>What a request does\<close>

text \<open>The state of the broker right after a call was launched.\<close>

definition launched :: "tuning_call \<Rightarrow> entry \<Rightarrow> rat \<Rightarrow> tuning_broker \<Rightarrow> tuning_broker" where
  "launched c wrapper now b = emit_frame (tb_next b) c wrapper now (enter_call c now b)"

lemma launch_bound:
  assumes "sessions_named w" "session_of w robot = Some sid"
  shows "launch w robot sid payload operation mutation wrapper now b =
    (launched (new_call w robot sid payload operation mutation) wrapper now b, Inr (tb_next b))"
proof -
  have "se_robot (w_sessions w sid) = robot" using assms unfolding sessions_named_def by blast
  with assms(2) have "bound_call w (new_call w robot sid payload operation mutation)"
    by (simp add: bound_call_def call_bound_def new_call_def)
  then show ?thesis by (simp add: launch_def launched_def Let_def)
qed

lemma request_locked_cases:
  assumes "sessions_named w"
  obtains (refused) r where "request_locked env w u robot payload operation mutation now b = (b, Inl r)"
  | (pruned) r where "request_locked env w u robot payload operation mutation now b = (prune_seen now b, Inl r)"
  | (went) sid wrapper c b1 where
      "request_locked env w u robot payload operation mutation now b = (launched c wrapper now b1, Inr (tb_next b1))"
      "b1 = (if mutation then prune_seen now b else b)"
      "c = new_call w robot sid payload operation mutation"
      "tc_request_id c \<notin> set (dkeys (tb_pending b))" "length (tb_pending b) < MAX_PENDING"
      "mutation \<Longrightarrow> \<not> seen_id (tc_request_id c) b1"
proof -
  define b1 where "b1 = (if mutation then prune_seen now b else b)"
  have b1: "b1 = b \<or> b1 = prune_seen now b" by (simp add: b1_def)
  let ?r = "request_locked env w u robot payload operation mutation now b"
  let ?rid = "text_or_empty (get payload ''request_id'')"
  have r: "?r = (if ?rid \<in> set (dkeys (tb_pending b)) then (b, Inl In_flight)
      else if mutation \<and> seen_id ?rid b1 then (b1, Inl Already_handled)
      else case session_of w robot of
        None \<Rightarrow> (b1, Inl Robot_offline)
      | Some sid \<Rightarrow>
        (case session_problem w robot sid payload operation mutation b1 of
           Some r \<Rightarrow> (b1, Inl r)
         | None \<Rightarrow>
           (case wrapper_for env u robot payload mutation of
              Inl r \<Rightarrow> (b1, Inl r)
            | Inr wrapper \<Rightarrow> launch w robot sid payload operation mutation wrapper now b1)))"
    by (simp only: request_locked_def b1_def [symmetric] Let_def)
  have "(\<exists>r. ?r = (b, Inl r)) \<or> (\<exists>r. ?r = (b1, Inl r)) \<or>
      (\<exists>sid wrapper. session_of w robot = Some sid \<and> ?rid \<notin> set (dkeys (tb_pending b))
        \<and> \<not> (mutation \<and> seen_id ?rid b1) \<and> session_problem w robot sid payload operation mutation b1 = None
        \<and> ?r = launch w robot sid payload operation mutation wrapper now b1)"
    unfolding r by (simp split: option.split sum.split) blast
  then consider (a) r where "?r = (b, Inl r)" | (c) r where "?r = (b1, Inl r)"
    | (d) sid wrapper where "session_of w robot = Some sid" "?rid \<notin> set (dkeys (tb_pending b))"
        "\<not> (mutation \<and> seen_id ?rid b1)" "session_problem w robot sid payload operation mutation b1 = None"
        "?r = launch w robot sid payload operation mutation wrapper now b1"
    by blast
  then show ?thesis
  proof cases
    case d
    have "length (tb_pending b1) < MAX_PENDING"
      using d(4) by (auto simp: session_problem_def Let_def split: if_splits option.splits)
    with d b1 show ?thesis
      using went [of "new_call w robot sid payload operation mutation" wrapper b1 sid]
      by (auto simp: launch_bound [OF assms d(1)] b1_def new_call_def)
  qed (use refused pruned b1 in auto)
qed

lemma prune_before_idem [simp]: "prune_before c (prune_before c s) = prune_before c s"
  by (induction c s rule: prune_before.induct) auto

lemma prune_seen_idem [simp]:
  "prune_seen now (prune_seen now b) = prune_seen now b"
  "prune_seen now ((prune_seen now b)\<lparr>tb_locked := x\<rparr>) = (prune_seen now b)\<lparr>tb_locked := x\<rparr>"
  by (simp_all add: prune_seen_def)

lemma tuning_request_cases:
  assumes "sessions_named w"
  obtains (refused) r where "tuning_request env w u robot request now b = (b, Inl r)"
  | (pruned) r where "tuning_request env w u robot request now b = (prune_seen now b, Inl r)"
  | (went) c wrapper b1 where
      "tuning_request env w u robot request now b = (launched c wrapper now b1, Inr (tb_next b1))"
      "b1 = (if tc_mutation c then (prune_seen now b)\<lparr>tb_locked := robot # tb_locked b\<rparr> else b)"
      "tc_robot c = robot" "tc_future c = Waiting"
      "tc_request_id c \<notin> set (dkeys (tb_pending b))" "length (tb_pending b) < MAX_PENDING"
      "tc_mutation c \<Longrightarrow> robot \<notin> set (tb_locked b) \<and> \<not> seen_id (tc_request_id c) (prune_seen now b)"
proof -
  let ?q = "tuning_request env w u robot request now b"
  let ?op = "text_or_empty (get (dict_of request) ''operation'')"
  define m where "m = is_mutation ?op"
  define b1 where "b1 = (if m then prune_seen now b else b)"
  have q: "?q = (case te_catalog env of
      Inl e \<Rightarrow> (b, Inl (Catalog_unavailable e))
    | Inr registry \<Rightarrow>
      (case validate_request request registry of
         Some e \<Rightarrow> (b, Inl (Not_valid e))
       | None \<Rightarrow>
         (case require_administrator u ?op of
           Some r \<Rightarrow> (b, Inl r)
         | None \<Rightarrow>
           if text_or_empty (get (dict_of request) ''request_id'') \<in> set (dkeys (tb_pending b)) then (b, Inl In_flight)
           else if m \<and> seen_id (text_or_empty (get (dict_of request) ''request_id'')) b1 then (b1, Inl Already_handled)
           else if MAX_PENDING \<le> length (tb_pending b) then (b1, Inl Too_many_pending)
           else if m then
             (if robot \<in> set (tb_locked b) then (b1, Inl Change_in_flight)
              else unlock_refused robot
                (request_locked env w u robot (dict_of request) ?op m now (b1\<lparr>tb_locked := robot # tb_locked b1\<rparr>)))
           else request_locked env w u robot (dict_of request) ?op m now b1)))"
    by (simp only: tuning_request_def m_def [symmetric] b1_def [symmetric] Let_def)
  have "m \<Longrightarrow> b1 = prune_seen now b" "\<not> m \<Longrightarrow> b1 = b" by (simp_all add: b1_def)
  then have "(\<exists>r. ?q = (b, Inl r)) \<or> (\<exists>r. ?q = (b1, Inl r))
      \<or> (\<not> m \<and> ?q = request_locked env w u robot (dict_of request) ?op False now b)
      \<or> (m \<and> robot \<notin> set (tb_locked b) \<and> ?q = unlock_refused robot (request_locked env w u robot (dict_of request) ?op True now
                    ((prune_seen now b)\<lparr>tb_locked := robot # tb_locked b\<rparr>)))"
    unfolding q by (cases m) (simp_all split: option.split sum.split)
  then consider (a) r where "?q = (b, Inl r)" | (b) r where "?q = (b1, Inl r)"
    | (read) "\<not> m" "?q = request_locked env w u robot (dict_of request) ?op False now b"
    | (change) "m" "robot \<notin> set (tb_locked b)" "?q = unlock_refused robot (request_locked env w u robot (dict_of request) ?op True now
                    ((prune_seen now b)\<lparr>tb_locked := robot # tb_locked b\<rparr>))"
    by blast
  then show ?thesis
  proof cases
    case (a r) then show ?thesis by (rule refused)
  next
    case (b r) then show ?thesis using refused pruned by (cases m) (auto simp: b1_def)
  next
    case read
    show ?thesis
    proof (cases rule: request_locked_cases [OF assms, of env u robot "dict_of request" ?op False now b])
      case (3 sid wrapper c b2)
      with read went [of c wrapper b2] show ?thesis by (simp add: new_call_def)
    qed (use read refused pruned in auto)
  next
    case change
    let ?b = "(prune_seen now b)\<lparr>tb_locked := robot # tb_locked b\<rparr>"
    have undone: "(prune_seen now b)\<lparr>tb_locked := removeAll robot (tb_locked b)\<rparr> = prune_seen now b"
      using change(2) by (simp add: prune_seen_def)
    show ?thesis
    proof (cases rule: request_locked_cases [OF assms, of env u robot "dict_of request" ?op True now ?b])
      case (1 r)
      with change undone pruned [of r] show ?thesis by (simp add: unlock_refused_def)
    next
      case (2 r)
      with change undone pruned [of r] show ?thesis by (simp add: unlock_refused_def)
    next
      case (3 sid wrapper c b2)
      with change went [of c wrapper b2] show ?thesis by (simp add: unlock_refused_def new_call_def)
    qed
  qed
qed

lemma serial_launched:
  assumes "serial b" "length (tb_pending b) < MAX_PENDING" "tc_robot c = robot"
    and "b1 = (if tc_mutation c then (prune_seen now b)\<lparr>tb_locked := robot # tb_locked b\<rparr> else b)"
    and "tc_mutation c \<Longrightarrow> robot \<notin> set (tb_locked b)"
  shows "serial (launched c wrapper now b1)"
proof -
  let ?b = "launched c wrapper now b1"
  have f: "tb_calls b1 = tb_calls b" "tb_next b1 = tb_next b" "tb_pending b1 = tb_pending b"
      "set (tb_locked b) \<subseteq> set (tb_locked b1)" "tc_mutation c \<Longrightarrow> robot \<in> set (tb_locked b1)"
    using assms(4) by auto
  have calls: "dget (tb_calls ?b) ref = (if ref = tb_next b then Some c else dget (tb_calls b) ref)" for ref
    using f by (simp add: launched_def emit_frame_def)
  have locked: "tb_locked ?b = tb_locked b1" and nxt: "tb_next ?b = Suc (tb_next b)"
    using f by (simp_all add: launched_def emit_frame_def)
  have "length (tb_pending ?b) \<le> MAX_PENDING"
    using assms(2) f length_dset_le [of "tb_pending b" "tc_request_id c" "tb_next b"]
    by (simp add: launched_def emit_frame_def)
  moreover have "ref < tb_next ?b \<and> (tc_mutation d \<longrightarrow> tc_robot d \<in> set (tb_locked ?b))"
    if "dget (tb_calls ?b) ref = Some d" for ref d
  proof (cases "ref = tb_next b")
    case True
    with that calls f(5) assms(3) nxt locked show ?thesis by auto
  next
    case False
    with that calls have "dget (tb_calls b) ref = Some d" by simp
    with assms(1) have "ref < tb_next b" "tc_mutation d \<longrightarrow> tc_robot d \<in> set (tb_locked b)"
      unfolding serial_def by blast+
    with nxt locked f(4) show ?thesis by auto
  qed
  moreover have "ref = ref'"
    if "dget (tb_calls ?b) ref = Some d" "dget (tb_calls ?b) ref' = Some d'" "tc_mutation d" "tc_mutation d'"
      "tc_robot d = tc_robot d'" for ref d ref' d'
  proof -
    have fresh: "tc_robot e \<noteq> robot" if "dget (tb_calls b) r = Some e" "tc_mutation e" "tc_mutation c" for r e
      using that assms(1,5) unfolding serial_def by metis
    have uniq: "r = r'" if "dget (tb_calls b) r = Some e" "dget (tb_calls b) r' = Some e'" "tc_mutation e" "tc_mutation e'"
        "tc_robot e = tc_robot e'" for r e r' e'
      using that assms(1) unfolding serial_def by blast
    show ?thesis
      using that calls fresh [of ref d] fresh [of ref' d'] uniq [of ref d ref' d'] assms(3)
      by (auto split: if_splits)
  qed
  ultimately show ?thesis unfolding serial_def by blast
qed

subsection \<open>Frame facts of the steps\<close>

lemma drop_call_fields [simp]:
  "tb_next (drop_call ref b) = tb_next b" "tb_frames (drop_call ref b) = tb_frames b"
  "tb_answers (drop_call ref b) = tb_answers b" "tb_policies (drop_call ref b) = tb_policies b"
  "tb_clock (drop_call ref b) = tb_clock b" "tb_seen (drop_call ref b) = tb_seen b"
  by (auto simp: drop_call_def split: option.split)

lemma update_desired_fields [simp]:
  "tb_calls (update_desired w c a b) = tb_calls b" "tb_next (update_desired w c a b) = tb_next b"
  "tb_locked (update_desired w c a b) = tb_locked b" "tb_pending (update_desired w c a b) = tb_pending b"
  "tb_frames (update_desired w c a b) = tb_frames b" "tb_answers (update_desired w c a b) = tb_answers b"
  "tb_policies (update_desired w c a b) = tb_policies b" "tb_clock (update_desired w c a b) = tb_clock b"
  "tb_seen (update_desired w c a b) = tb_seen b"
  by (auto simp: update_desired_def split: tuning_answer.split option.split pyval.split)

lemma settle_fields [simp]:
  "tb_next (settle ref f b) = tb_next b" "tb_locked (settle ref f b) = tb_locked b"
  "tb_pending (settle ref f b) = tb_pending b" "tb_frames (settle ref f b) = tb_frames b"
  "tb_answers (settle ref f b) = tb_answers b" "tb_policies (settle ref f b) = tb_policies b"
  "tb_clock (settle ref f b) = tb_clock b" "tb_seen (settle ref f b) = tb_seen b"
  by (auto simp: settle_def split: option.split)

lemma cache_policy_fields [simp]:
  "tb_calls (cache_policy w sid r now b) = tb_calls b" "tb_next (cache_policy w sid r now b) = tb_next b"
  "tb_locked (cache_policy w sid r now b) = tb_locked b" "tb_pending (cache_policy w sid r now b) = tb_pending b"
  "tb_frames (cache_policy w sid r now b) = tb_frames b" "tb_answers (cache_policy w sid r now b) = tb_answers b"
  "tb_clock (cache_policy w sid r now b) = tb_clock b" "tb_seen (cache_policy w sid r now b) = tb_seen b"
  by (auto simp: cache_policy_def)

lemma pending_call_cache [simp]: "pending_call (cache_policy w sid r now b) rid = pending_call b rid"
  by (simp add: pending_call_def split: option.split)

text \<open>The steps that neither launch nor answer a call, as one contract.\<close>

definition quiet :: "tuning_broker \<Rightarrow> tuning_broker \<Rightarrow> bool" where
  "quiet b b' \<longleftrightarrow> calls_kept b b' \<and> tb_next b' = tb_next b \<and> tb_locked b' = tb_locked b
     \<and> (\<forall>rid ref. dget (tb_pending b') rid = Some ref \<longrightarrow> dget (tb_pending b) rid = Some ref)
     \<and> length (tb_pending b') \<le> length (tb_pending b)
     \<and> tb_frames b' = tb_frames b \<and> tb_answers b' = tb_answers b
     \<and> (\<forall>ref c'. dget (tb_calls b') ref = Some c' \<longrightarrow> (\<forall>r. tc_future c' = Settled (Robot_answer r) \<longrightarrow>
          ts_request_id r = tc_request_id c'))"

definition answered_ids :: "tuning_broker \<Rightarrow> bool" where
  "answered_ids b \<longleftrightarrow> (\<forall>ref c r. dget (tb_calls b) ref = Some c \<longrightarrow> tc_future c = Settled (Robot_answer r) \<longrightarrow>
     ts_request_id r = tc_request_id c)"

definition table_ids :: "tuning_broker \<Rightarrow> bool" where
  "table_ids b \<longleftrightarrow> (\<forall>rid ref. dget (tb_pending b) rid = Some ref \<longrightarrow> ref < tb_next b \<and>
     (\<forall>c. dget (tb_calls b) ref = Some c \<longrightarrow> tc_request_id c = rid))"

lemma quiet_same:
  assumes "answered_ids b" "tb_calls b' = tb_calls b" "tb_next b' = tb_next b" "tb_locked b' = tb_locked b"
    "tb_pending b' = tb_pending b" "tb_frames b' = tb_frames b" "tb_answers b' = tb_answers b"
  shows "quiet b b'"
  using assms by (auto simp: quiet_def calls_kept_def answered_ids_def)

lemma same_call_trans: "same_call x y \<Longrightarrow> same_call y z \<Longrightarrow> same_call x z"
  by (simp add: same_call_def)

lemma calls_kept_trans:
  assumes "calls_kept x y" "calls_kept y z"
  shows "calls_kept x z"
  unfolding calls_kept_def
proof (intro allI impI)
  fix ref c
  assume "dget (tb_calls z) ref = Some c"
  with assms(2) obtain d where "dget (tb_calls y) ref = Some d" "same_call d c"
    unfolding calls_kept_def by blast
  moreover from this(1) assms(1) obtain e where "dget (tb_calls x) ref = Some e" "same_call e d"
    unfolding calls_kept_def by blast
  ultimately show "\<exists>e. dget (tb_calls x) ref = Some e \<and> same_call e c"
    using same_call_trans by blast
qed

lemma quiet_trans: "quiet x y \<Longrightarrow> quiet y z \<Longrightarrow> quiet x z"
  unfolding quiet_def using calls_kept_trans [of x y z] by auto

lemma settle_calls:
  "dget (tb_calls (settle ref f b)) r = (case dget (tb_calls b) r of None \<Rightarrow> None
     | Some c \<Rightarrow> Some (if r = ref \<and> tc_future c = Waiting then c\<lparr>tc_future := f\<rparr> else c))"
  by (auto simp: settle_def split: option.split)

lemma quiet_settle:
  assumes "answered_ids b"
    and "\<And>c r. dget (tb_calls b) ref = Some c \<Longrightarrow> f = Settled (Robot_answer r) \<Longrightarrow> ts_request_id r = tc_request_id c"
  shows "quiet b (settle ref f b)"
  using assms by (auto simp: quiet_def calls_kept_def settle_calls answered_ids_def same_call_def split: option.splits if_splits)

lemma lose_calls_dget:
  "dget (tb_calls (lose_calls P cause b)) r = (case dget (tb_calls b) r of None \<Rightarrow> None
     | Some c \<Rightarrow> Some (snd (lose_call P cause (map snd (tb_pending b)) (r, c))))"
proof -
  have "fst (lose_call P cause refs p) = fst p" for refs p
    by (auto simp: lose_call_def split: prod.split)
  from dget_map_fst [of "lose_call P cause (map snd (tb_pending b))", OF this] show ?thesis
    by (auto simp: lose_calls_def split: option.split)
qed

lemma lose_calls_fields [simp]:
  "tb_next (lose_calls P cause b) = tb_next b" "tb_locked (lose_calls P cause b) = tb_locked b"
  "tb_pending (lose_calls P cause b) = tb_pending b" "tb_frames (lose_calls P cause b) = tb_frames b"
  "tb_answers (lose_calls P cause b) = tb_answers b" "tb_policies (lose_calls P cause b) = tb_policies b"
  "tb_clock (lose_calls P cause b) = tb_clock b" "tb_seen (lose_calls P cause b) = tb_seen b"
  by (simp_all add: lose_calls_def)

lemma quiet_lose: "answered_ids b \<Longrightarrow> quiet b (lose_calls P cause b)"
  by (auto simp: quiet_def calls_kept_def lose_calls_dget lose_call_def answered_ids_def same_call_def
      split: option.splits if_splits)

lemma quiet_response:
  assumes "answered_ids b" "table_ids b"
  shows "quiet b (handle_response env w sid er v now b)"
proof -
  have same: "quiet b b" using assms(1) by (intro quiet_same) auto
  have mal: "quiet b (malformed_reply w sid data b)" for data
    using same assms(1) unfolding malformed_reply_def
    by (auto split: option.split intro!: quiet_settle)
  have del: "quiet b (deliver_reply w sid er r now (cache_policy w sid r now b))" for r
  proof -
    have cached: "quiet b (cache_policy w sid r now b)"
      using assms(1) by (intro quiet_same) auto
    have "quiet b (settle ref (Settled (Robot_answer r)) b1)"
      if "pending_call b (ts_request_id r) = Some (ref, c)"
        and "tb_calls b1 = tb_calls b" "tb_next b1 = tb_next b" "tb_locked b1 = tb_locked b" "tb_pending b1 = tb_pending b"
          "tb_frames b1 = tb_frames b" "tb_answers b1 = tb_answers b" for ref c b1
    proof (rule quiet_trans)
      show "quiet b b1" using assms(1) that(2-) by (intro quiet_same)
      have "answered_ids b1" using assms(1) that(2) by (simp add: answered_ids_def)
      moreover have "dget (tb_pending b) (ts_request_id r) = Some ref"
        using that(1) by (auto simp: pending_call_def split: option.splits)
      ultimately show "quiet b1 (settle ref (Settled (Robot_answer r)) b1)"
        using assms(2) that(2) by (intro quiet_settle) (auto simp: table_ids_def)
    qed
    then show ?thesis
      using cached by (auto simp: deliver_reply_def split: option.split)
  qed
  show ?thesis
    unfolding handle_response_def
    using same mal del
    by (auto split: pyval.split sum.split tuning_error.split)
qed

lemma quiet_disconnected:
  assumes "answered_ids b"
  shows "quiet b (tuning_disconnected w sid b)"
proof -
  have "quiet b (lose_calls P cause b')"
    if "tb_calls b' = tb_calls b" "tb_next b' = tb_next b" "tb_locked b' = tb_locked b" "tb_pending b' = tb_pending b"
      "tb_frames b' = tb_frames b" "tb_answers b' = tb_answers b" for P cause b'
    by (rule quiet_trans [OF quiet_same quiet_lose]) (use that assms in \<open>auto simp: answered_ids_def\<close>)
  then show ?thesis by (auto simp: tuning_disconnected_def Let_def split: option.split)
qed

lemma quiet_shutdown: "answered_ids b \<Longrightarrow> quiet b (tuning_shutdown b)"
  using quiet_lose [of b "\<lambda>c. True" Shutting_down]
  by (auto simp: quiet_def tuning_shutdown_def calls_kept_def)

lemma send_done_cases:
  "send_done w ref ok b = b
   \<or> (\<exists>c cause r. dget (tb_calls b) ref = Some c \<and> send_done w ref ok b = answer_call ref (lost_outcome c cause r) b)
   \<or> (\<exists>c. dget (tb_calls b) ref = Some c
        \<and> send_done w ref ok b = b\<lparr>tb_calls := dset (tb_calls b) ref (c\<lparr>tc_phase := Awaiting\<rparr>)\<rparr>)"
proof (cases "dget (tb_calls b) ref")
  case (Some c)
  then show ?thesis by (simp add: send_done_def) blast
qed (simp add: send_done_def)

lemma call_done_cases:
  "call_done w ref t b = b
   \<or> (\<exists>c cause r. dget (tb_calls b) ref = Some c \<and> call_done w ref t b = answer_call ref (lost_outcome c cause r) b)
   \<or> (\<exists>c a. dget (tb_calls b) ref = Some c \<and> tc_future c = Settled a \<and> (answered_ok a \<longrightarrow> bound_call w c)
        \<and> call_done w ref t b = answer_call ref (Inr a) (update_desired w c a b))"
proof (cases "dget (tb_calls b) ref")
  case (Some c)
  then show ?thesis by (cases "tc_future c") (simp_all add: call_done_def, blast+)
qed (simp add: call_done_def)

lemma quiet_waits:
  "answered_ids b \<Longrightarrow> dget (tb_calls b) ref = Some c \<Longrightarrow>
   quiet b (b\<lparr>tb_calls := dset (tb_calls b) ref (c\<lparr>tc_phase := Awaiting\<rparr>)\<rparr>)"
  by (auto simp: quiet_def calls_kept_def answered_ids_def same_call_def)

lemma serial_quiet: "serial b \<Longrightarrow> quiet b b' \<Longrightarrow> serial b'"
  by (rule serial_kept) (auto simp: quiet_def)

lemma serial_answer:
  "serial b \<Longrightarrow> serial (answer_call ref res b)"
  using serial_drop_call [of b ref] by (auto simp: answer_call_def serial_def split: option.split)

lemma serial_fields:
  "serial b \<Longrightarrow> tb_calls b' = tb_calls b \<Longrightarrow> tb_next b' = tb_next b \<Longrightarrow> tb_locked b' = tb_locked b \<Longrightarrow>
   tb_pending b' = tb_pending b \<Longrightarrow> serial b'"
  by (simp add: serial_def)


subsection \<open>A change is not sent again while it is remembered\<close>

definition mutation_ids :: "tuning_broker \<Rightarrow> string set" where
  "mutation_ids b = fr_request_id ` {f \<in> set (tb_frames b). fr_mutation f}"

definition spaced :: "tuning_frame list \<Rightarrow> bool" where
  "spaced = sorted_wrt (\<lambda>f g. fr_mutation f \<longrightarrow> fr_mutation g \<longrightarrow> fr_request_id f = fr_request_id g \<longrightarrow>
     fr_time f + DEDUPE_TTL_S < fr_time g)"

definition covered :: "tuning_broker \<Rightarrow> tuning_frame \<Rightarrow> bool" where
  "covered b f \<longleftrightarrow> (\<exists>t. dget (tb_seen b) (fr_request_id f) = Some t \<and> fr_time f \<le> t)
     \<or> fr_time f + DEDUPE_TTL_S < tb_clock b"

definition remembered :: "tuning_broker \<Rightarrow> bool" where
  "remembered b \<longleftrightarrow> distinct (dkeys (tb_seen b)) \<and> set (dkeys (tb_seen b)) \<subseteq> mutation_ids b
     \<and> (\<forall>f\<in>set (tb_frames b). fr_time f \<le> tb_clock b)
     \<and> (\<forall>ref c. dget (tb_calls b) ref = Some c \<longrightarrow> tc_mutation c \<longrightarrow> tc_request_id c \<in> mutation_ids b)
     \<and> (card (mutation_ids b) \<le> DEDUPE_LIMIT \<longrightarrow>
          spaced (tb_frames b) \<and> (\<forall>f\<in>set (tb_frames b). fr_mutation f \<longrightarrow> covered b f))"

lemma prune_dropWhile: "prune_before c s = dropWhile (\<lambda>p. snd p < c) s"
  by (induction c s rule: prune_before.induct) auto

lemma prune_before_parts:
  "distinct (dkeys s) \<Longrightarrow> distinct (dkeys (prune_before c s))"
  "set (dkeys (prune_before c s)) \<subseteq> set (dkeys s)"
  by (induction c s rule: prune_before.induct) (auto simp: dkeys_def)

lemma dget_prune_before: "dget s k = Some t \<Longrightarrow> dget (prune_before c s) k = Some t \<or> t < c"
  by (induction c s rule: prune_before.induct) (auto split: if_splits)

lemma dget_append: "dget (s @ s') k = (case dget s k of None \<Rightarrow> dget s' k | Some t \<Rightarrow> Some t)"
  by (induction s) auto

lemma covered_later: "covered b f \<Longrightarrow> tb_clock b \<le> now \<Longrightarrow> covered (b\<lparr>tb_clock := now\<rparr>) f"
  by (auto simp: covered_def)

lemma remembered_later: "remembered b \<Longrightarrow> tb_clock b \<le> now \<Longrightarrow> remembered (b\<lparr>tb_clock := now\<rparr>)"
  using covered_later unfolding remembered_def mutation_ids_def by fastforce

lemma covered_prune:
  assumes "covered b f" "now = tb_clock b"
  shows "covered (prune_seen now b) f"
proof -
  consider t where "dget (tb_seen b) (fr_request_id f) = Some t" "fr_time f \<le> t" | "fr_time f + DEDUPE_TTL_S < tb_clock b"
    using assms(1) by (auto simp: covered_def)
  then show ?thesis
  proof cases
    case (1 t)
    with dget_prune_before [OF 1(1), of "now - DEDUPE_TTL_S"] assms(2) show ?thesis
      by (auto simp: covered_def prune_seen_def)
  qed (simp add: covered_def)
qed

lemma remembered_prune:
  assumes "remembered b" "now = tb_clock b"
  shows "remembered (prune_seen now b)"
proof -
  have ids: "mutation_ids (prune_seen now b) = mutation_ids b" by (simp add: mutation_ids_def)
  have "set (dkeys (tb_seen (prune_seen now b))) \<subseteq> set (dkeys (tb_seen b))"
    using prune_before_parts(2) by (simp add: prune_seen_def)
  moreover have "distinct (dkeys (tb_seen b)) \<Longrightarrow> distinct (dkeys (tb_seen (prune_seen now b)))"
    using prune_before_parts(1) by (simp add: prune_seen_def)
  ultimately show ?thesis
    using assms covered_prune [OF _ assms(2)] unfolding remembered_def ids by auto
qed

lemma dkeys_append [simp]: "dkeys (s @ s') = dkeys s @ dkeys s'"
  by (simp add: dkeys_def)

lemma dkeys_drop: "dkeys (drop n s) = drop n (dkeys s)"
  by (simp add: dkeys_def drop_map)

lemma distinct_moved: "distinct (dkeys s) \<Longrightarrow> distinct (dkeys (ddel s rid @ [(rid, now)]))"
  by (simp add: dkeys_def [of "[_]"])

text \<open>The table after an id was remembered, as long as it stays within its limit.\<close>

lemma remember_seen:
  assumes "distinct (dkeys (tb_seen b))" "finite ids" "insert rid (set (dkeys (tb_seen b))) \<subseteq> ids" "card ids \<le> DEDUPE_LIMIT"
  shows "tb_seen (remember_id rid now b)
    = prune_before (now - DEDUPE_TTL_S) (ddel (tb_seen b) rid @ [(rid, now)])"
proof -
  let ?s = "ddel (tb_seen b) rid @ [(rid, now)]"
  let ?p = "prune_before (now - DEDUPE_TTL_S) ?s"
  have "distinct (dkeys ?s)"
    by (rule distinct_moved [OF assms(1)])
  then have "distinct (dkeys ?p)" by (rule prune_before_parts)
  moreover have "set (dkeys ?p) \<subseteq> ids"
    using assms(3) prune_before_parts(2) [of "now - DEDUPE_TTL_S" ?s] by (auto simp: dkeys_def [of "[_]"])
  ultimately have "length ?p \<le> DEDUPE_LIMIT"
    using card_mono [OF assms(2), of "set (dkeys ?p)"] assms(4) distinct_card [of "dkeys ?p"]
    by (simp add: dkeys_def)
  then show ?thesis by (simp add: remember_id_def Let_def)
qed

lemma remember_keys:
  "set (dkeys (tb_seen (remember_id rid now b))) \<subseteq> insert rid (set (dkeys (tb_seen b)))"
proof -
  let ?p = "prune_before (now - DEDUPE_TTL_S) (ddel (tb_seen b) rid @ [(rid, now)])"
  have "set (dkeys (tb_seen (remember_id rid now b))) \<subseteq> set (dkeys ?p)"
    using set_drop_subset by (simp add: remember_id_def Let_def dkeys_drop)
  also have "\<dots> \<subseteq> set (dkeys (ddel (tb_seen b) rid @ [(rid, now)]))" by (rule prune_before_parts)
  also have "\<dots> \<subseteq> insert rid (set (dkeys (tb_seen b)))" by (auto simp: dkeys_def [of "[_]"])
  finally show ?thesis .
qed

lemma remember_distinct:
  "distinct (dkeys (tb_seen b)) \<Longrightarrow> distinct (dkeys (tb_seen (remember_id rid now b)))"
  using prune_before_parts(1) [OF distinct_moved] by (simp add: remember_id_def Let_def dkeys_drop)

lemma remember_get:
  assumes "tb_seen (remember_id rid now b) = prune_before (now - DEDUPE_TTL_S) (ddel (tb_seen b) rid @ [(rid, now)])"
  shows "dget (tb_seen (remember_id rid now b)) rid = Some now"
    and "k \<noteq> rid \<Longrightarrow> dget (tb_seen b) k = Some t \<Longrightarrow>
      dget (tb_seen (remember_id rid now b)) k = Some t \<or> t + DEDUPE_TTL_S < now"
proof -
  have "dget (ddel (tb_seen b) rid @ [(rid, now)]) rid = Some now" by (simp add: dget_append)
  from dget_prune_before [OF this, of "now - DEDUPE_TTL_S"]
  show "dget (tb_seen (remember_id rid now b)) rid = Some now" by (simp add: assms DEDUPE_TTL_S_def)
next
  assume "k \<noteq> rid" "dget (tb_seen b) k = Some t"
  then have "dget (ddel (tb_seen b) rid @ [(rid, now)]) k = Some t" by (simp add: dget_append)
  from dget_prune_before [OF this, of "now - DEDUPE_TTL_S"]
  show "dget (tb_seen (remember_id rid now b)) k = Some t \<or> t + DEDUPE_TTL_S < now" by (auto simp: assms)
qed

lemma covered_remember:
  assumes "covered b f" "tb_clock b = now" "fr_time f \<le> now"
    and "tb_seen (remember_id rid now b) = prune_before (now - DEDUPE_TTL_S) (ddel (tb_seen b) rid @ [(rid, now)])"
  shows "covered (remember_id rid now b) f"
proof (cases "fr_request_id f = rid")
  case True
  with remember_get(1) [OF assms(4)] assms(3) show ?thesis by (simp add: covered_def)
next
  case False
  with assms(1) remember_get(2) [OF assms(4) False] assms(2) show ?thesis
    by (fastforce simp: covered_def)
qed

lemma finite_mutation_ids [simp]: "finite (mutation_ids b)"
  by (simp add: mutation_ids_def)

lemma remembered_remember:
  assumes "remembered b" "tb_clock b = now" "rid \<in> mutation_ids b"
  shows "remembered (remember_id rid now b)"
proof -
  have ids: "mutation_ids (remember_id rid now b) = mutation_ids b" by (simp add: mutation_ids_def)
  have d: "distinct (dkeys (tb_seen b))" and k: "set (dkeys (tb_seen b)) \<subseteq> mutation_ids b"
    using assms(1) unfolding remembered_def by blast+
  have "covered (remember_id rid now b) f"
    if "card (mutation_ids b) \<le> DEDUPE_LIMIT" "f \<in> set (tb_frames b)" "fr_mutation f" for f
    using covered_remember [OF _ assms(2) _ remember_seen [OF d, of "mutation_ids b" rid now]] that assms k
    unfolding remembered_def by auto
  then show ?thesis
    using assms remember_distinct [OF d] remember_keys [of rid now b] k
    unfolding remembered_def ids by auto
qed

lemma remembered_fields:
  assumes "remembered b" "calls_kept b b'" "tb_seen b' = tb_seen b" "tb_frames b' = tb_frames b" "tb_clock b' = tb_clock b"
  shows "remembered b'"
proof -
  have ids: "mutation_ids b' = mutation_ids b" using assms by (simp add: mutation_ids_def)
  have "covered b' f = covered b f" for f using assms by (simp add: covered_def)
  moreover have "tc_request_id c \<in> mutation_ids b" if "dget (tb_calls b') ref = Some c" "tc_mutation c" for ref c
    using that assms(1,2) unfolding calls_kept_def same_call_def remembered_def by metis
  ultimately show ?thesis using assms unfolding remembered_def ids by auto
qed

lemma launched_fields [simp]:
  "tb_calls (launched c wrapper now b) = dset (tb_calls b) (tb_next b) c"
  "tb_next (launched c wrapper now b) = Suc (tb_next b)" "tb_answers (launched c wrapper now b) = tb_answers b"
  "tb_pending (launched c wrapper now b) = dset (tb_pending b) (tc_request_id c) (tb_next b)"
  "tb_policies (launched c wrapper now b) = tb_policies b" "tb_clock (launched c wrapper now b) = tb_clock b"
  "tb_frames (launched c wrapper now b) = tb_frames b @ [\<lparr>fr_call = tb_next b, fr_request_id = tc_request_id c,
     fr_mutation = tc_mutation c, fr_websocket = tc_websocket c, fr_wrapper = wrapper, fr_time = now\<rparr>]"
  by (simp_all add: launched_def emit_frame_def)

lemma launched_ids:
  "mutation_ids (launched c wrapper now b) =
     (if tc_mutation c then insert (tc_request_id c) (mutation_ids b) else mutation_ids b)"
proof -
  have "{f \<in> set (fs @ [x]). fr_mutation f} = {f \<in> set fs. fr_mutation f} \<union> (if fr_mutation x then {x} else {})"
    for fs and x :: tuning_frame
    by auto
  then show ?thesis by (simp add: mutation_ids_def del: set_append)
qed

lemma remembered_launched:
  assumes "remembered b" "tb_clock b = now"
    and "tc_mutation c \<Longrightarrow> \<not> seen_id (tc_request_id c) b"
  shows "remembered (launched c wrapper now b)"
proof (cases "tc_mutation c")
  case False
  have seen: "tb_seen (launched c wrapper now b) = tb_seen b"
    using False by (simp add: launched_def emit_frame_def enter_call_def)
  have cov: "covered (launched c wrapper now b) f = covered b f" for f by (simp add: covered_def seen)
  show ?thesis
    using assms False launched_ids [of c wrapper now b]
    unfolding remembered_def cov seen
    by (auto simp: spaced_def sorted_wrt_append)
next
  case True
  let ?b = "launched c wrapper now b" and ?rid = "tc_request_id c"
  have ids: "mutation_ids ?b = insert ?rid (mutation_ids b)" by (simp add: launched_ids True)
  have d: "distinct (dkeys (tb_seen b))" and k: "set (dkeys (tb_seen b)) \<subseteq> mutation_ids b"
    using assms(1) unfolding remembered_def by blast+
  define b0 where "b0 = b\<lparr>tb_next := Suc (tb_next b), tb_calls := dset (tb_calls b) (tb_next b) c,
                 tb_pending := dset (tb_pending b) ?rid (tb_next b)\<rparr>"
  have b0: "tb_seen b0 = tb_seen b" "tb_clock b0 = tb_clock b" "mutation_ids b0 = mutation_ids b"
    by (simp_all add: b0_def mutation_ids_def)
  have seen: "tb_seen ?b = tb_seen (remember_id ?rid now b0)"
    by (simp add: launched_def emit_frame_def enter_call_def True b0_def)
  have spaced: "spaced (tb_frames ?b) \<and> (\<forall>f\<in>set (tb_frames ?b). fr_mutation f \<longrightarrow> covered ?b f)"
    if card: "card (mutation_ids ?b) \<le> DEDUPE_LIMIT"
  proof -
    have "card (mutation_ids b) \<le> card (mutation_ids ?b)"
      by (rule card_mono) (auto simp: ids)
    with card have old: "card (mutation_ids b) \<le> DEDUPE_LIMIT" by simp
    have rs: "tb_seen (remember_id ?rid now b0) = prune_before (now - DEDUPE_TTL_S) (ddel (tb_seen b0) ?rid @ [(?rid, now)])"
      by (rule remember_seen [where ids = "mutation_ids ?b"]) (use d k card ids b0 in auto)
    have before: "fr_time f + DEDUPE_TTL_S < now"
      if "f \<in> set (tb_frames b)" "fr_mutation f" "fr_request_id f = ?rid" for f
    proof -
      have "covered b f" using assms(1) old that(1,2) unfolding remembered_def by blast
      moreover have "dget (tb_seen b) ?rid = None"
        using assms(3) True by (simp add: seen_id_def dget_None_iff)
      ultimately show ?thesis using that(3) assms(2) by (simp add: covered_def)
    qed
    have "covered ?b f" if "f \<in> set (tb_frames b)" "fr_mutation f" for f
    proof -
      have "covered b0 f" "fr_time f \<le> now"
        using assms(1,2) old that b0 unfolding remembered_def covered_def by auto
      from covered_remember [OF this(1) _ this(2) rs] assms(2) b0 show ?thesis
        by (simp add: covered_def seen)
    qed
    moreover have "covered ?b \<lparr>fr_call = tb_next b, fr_request_id = ?rid, fr_mutation = tc_mutation c,
        fr_websocket = tc_websocket c, fr_wrapper = wrapper, fr_time = now\<rparr>"
      using remember_get(1) [OF rs] by (simp add: covered_def seen)
    moreover have "spaced (tb_frames b)" using assms(1) old unfolding remembered_def by blast
    ultimately show ?thesis
      using before by (auto simp: spaced_def sorted_wrt_append)
  qed
  have "distinct (dkeys (tb_seen ?b))" "set (dkeys (tb_seen ?b)) \<subseteq> insert ?rid (mutation_ids b)"
    using remember_distinct [of b0 ?rid now] remember_keys [of ?rid now b0] d k b0 by (auto simp: seen)
  moreover have "\<forall>f\<in>set (tb_frames ?b). fr_time f \<le> tb_clock ?b"
    using assms(1,2) unfolding remembered_def by auto
  moreover have "\<forall>ref d. dget (tb_calls ?b) ref = Some d \<longrightarrow> tc_mutation d \<longrightarrow> tc_request_id d \<in> mutation_ids ?b"
    using assms(1) unfolding remembered_def ids by auto
  ultimately show ?thesis using spaced unfolding remembered_def ids by blast
qed

subsection \<open>What callers are told\<close>

definition framed :: "tuning_broker \<Rightarrow> nat \<Rightarrow> bool \<Rightarrow> string \<Rightarrow> bool" where
  "framed b ref m rid \<longleftrightarrow> (\<exists>f\<in>set (tb_frames b). fr_call f = ref \<and> fr_mutation f = m \<and> fr_request_id f = rid)"

definition honest_answer :: "tuning_broker \<Rightarrow> nat \<times> bool \<times> (tuning_refusal + tuning_answer) \<Rightarrow> bool" where
  "honest_answer b p \<longleftrightarrow>
     (case p of (ref, m, res) \<Rightarrow> ref < tb_next b \<and> (m \<longrightarrow> (\<exists>a. res = Inr a))
        \<and> (\<forall>r. res = Inr (Robot_answer r) \<longrightarrow> framed b ref m (ts_request_id r)))"

definition honest :: "tuning_broker \<Rightarrow> bool" where
  "honest b \<longleftrightarrow> distinct (map fst (tb_answers b)) \<and> (\<forall>p\<in>set (tb_answers b). honest_answer b p)
     \<and> (\<forall>ref c. dget (tb_calls b) ref = Some c \<longrightarrow> ref \<notin> fst ` set (tb_answers b)
          \<and> framed b ref (tc_mutation c) (tc_request_id c))
     \<and> answered_ids b \<and> table_ids b"

lemma honest_answer_mono:
  "honest_answer b p \<Longrightarrow> tb_next b \<le> tb_next b' \<Longrightarrow> set (tb_frames b) \<subseteq> set (tb_frames b') \<Longrightarrow> honest_answer b' p"
  unfolding honest_answer_def framed_def by (cases p) fastforce

lemma honest_fields:
  assumes "honest b" "calls_kept b b'" "tb_next b' = tb_next b" "tb_frames b' = tb_frames b"
    "tb_answers b' = tb_answers b" "answered_ids b'" "table_ids b'"
  shows "honest b'"
proof -
  have fr: "framed b' = framed b" using assms(4) by (simp add: framed_def fun_eq_iff)
  have "honest_answer b' p = honest_answer b p" for p
    using assms(3) by (simp add: honest_answer_def fr)
  moreover have "ref \<notin> fst ` set (tb_answers b) \<and> framed b ref (tc_mutation c) (tc_request_id c)"
    if c: "dget (tb_calls b') ref = Some c" for ref c
  proof -
    from c assms(2) obtain d where "dget (tb_calls b) ref = Some d" "same_call d c"
      unfolding calls_kept_def by blast
    with assms(1) show ?thesis by (simp add: honest_def same_call_def)
  qed
  ultimately show ?thesis using assms unfolding honest_def fr by auto
qed

lemma table_ids_quiet:
  assumes "table_ids b" "quiet b b'"
  shows "table_ids b'"
  unfolding table_ids_def
proof (intro allI impI conjI)
  fix rid ref
  assume a: "dget (tb_pending b') rid = Some ref"
  with assms(2) have old: "dget (tb_pending b) rid = Some ref"
    unfolding quiet_def by blast
  with assms show "ref < tb_next b'" unfolding table_ids_def quiet_def by metis
  fix c
  assume "dget (tb_calls b') ref = Some c"
  with assms(2) obtain d where "dget (tb_calls b) ref = Some d" "same_call d c"
    unfolding quiet_def calls_kept_def by blast
  with assms(1) old show "tc_request_id c = rid"
    unfolding table_ids_def same_call_def by metis
qed

lemma honest_quiet:
  assumes "honest b" "quiet b b'"
  shows "honest b'"
proof (rule honest_fields [OF assms(1)])
  show "table_ids b'" using assms table_ids_quiet unfolding honest_def by blast
  show "answered_ids b'" using assms(2) unfolding quiet_def answered_ids_def by blast
qed (use assms(2) in \<open>auto simp: quiet_def\<close>)

lemma honest_drop:
  assumes "honest b"
  shows "honest (drop_call ref b)"
proof (rule honest_fields [OF assms drop_call_kept])
  show "answered_ids (drop_call ref b)" "table_ids (drop_call ref b)"
    using assms unfolding honest_def answered_ids_def table_ids_def
    by (auto simp: drop_call_def split: option.splits if_splits)
qed simp_all

lemma honest_launched:
  assumes "honest b" "tc_future c = Waiting" "\<forall>ref d. dget (tb_calls b) ref = Some d \<longrightarrow> ref < tb_next b"
  shows "honest (launched c wrapper now b)"
proof -
  let ?b = "launched c wrapper now b"
  have mono: "framed b ref m rid \<Longrightarrow> framed ?b ref m rid" for ref m rid by (auto simp: framed_def)
  have new: "framed ?b (tb_next b) (tc_mutation c) (tc_request_id c)" by (simp add: framed_def)
  have "\<forall>p\<in>set (tb_answers b). honest_answer b p \<and> fst p < tb_next b"
    using assms(1) by (auto simp: honest_def honest_answer_def)
  then have "\<forall>p\<in>set (tb_answers ?b). honest_answer ?b p"
    using honest_answer_mono [of b _ ?b] by auto
  moreover have "ref \<notin> fst ` set (tb_answers b) \<and> framed ?b ref (tc_mutation d) (tc_request_id d)"
    if "dget (tb_calls ?b) ref = Some d" for ref d
  proof (cases "ref = tb_next b")
    case True
    with that \<open>\<forall>p\<in>set (tb_answers b). honest_answer b p \<and> fst p < tb_next b\<close> new show ?thesis by auto
  next
    case False
    with that assms(1) mono show ?thesis unfolding honest_def by auto
  qed
  moreover have "answered_ids ?b" using assms(1,2) unfolding honest_def answered_ids_def by auto
  moreover have "table_ids ?b"
    using assms(1) unfolding honest_def table_ids_def by (auto split: if_splits intro: less_SucI)
  ultimately show ?thesis using assms(1) unfolding honest_def by simp
qed

lemma honest_answered:
  assumes "honest b" "dget (tb_calls b) ref = Some c" "ref < tb_next b" "tc_mutation c \<Longrightarrow> \<exists>a. res = Inr a"
    and "\<And>r. res = Inr (Robot_answer r) \<Longrightarrow> ts_request_id r = tc_request_id c"
  shows "honest (answer_call ref res b)"
proof -
  let ?d = "drop_call ref b"
  have h: "honest ?d" by (rule honest_drop [OF assms(1)])
  have gone: "dget (tb_calls ?d) ref = None" using assms(2) by (simp add: drop_call_def)
  have new: "ref \<notin> fst ` set (tb_answers b)" "framed b ref (tc_mutation c) (tc_request_id c)"
    using assms(1,2) unfolding honest_def by blast+
  have eq: "answer_call ref res b = ?d\<lparr>tb_answers := tb_answers b @ [(ref, tc_mutation c, res)]\<rparr>"
    using assms(2) by (simp add: answer_call_def)
  have "honest_answer b (ref, tc_mutation c, res)"
    using assms(3-5) new(2) by (auto simp: honest_answer_def)
  with h gone new show ?thesis
    unfolding honest_def eq honest_answer_def framed_def answered_ids_def table_ids_def by auto
qed

lemma quiet_update_desired: "answered_ids b \<Longrightarrow> quiet b (update_desired w c a b)"
  by (rule quiet_same) auto

lemma remembered_answer:
  "remembered b \<Longrightarrow> remembered (answer_call ref res b)"
  using remembered_fields [of "drop_call ref b" "answer_call ref res b"] remembered_fields [OF _ drop_call_kept, of b ref]
  by (auto simp: answer_call_def calls_kept_def split: option.splits)

text \<open>Only validated snapshots become policies.\<close>

definition policies_checked :: "tuning_env \<Rightarrow> tuning_broker \<Rightarrow> bool" where
  "policies_checked env b \<longleftrightarrow>
     (\<forall>robot ca. dget (tb_policies b) robot = Some ca \<longrightarrow>
        (\<exists>registry. te_catalog env = Inr registry \<and> validate_snapshot (ca_snapshot ca) registry = None))"

lemma policies_response:
  assumes "policies_checked env b"
  shows "policies_checked env (handle_response env w sid er v now b)"
proof -
  have pol: "tb_policies (malformed_reply w sid data b) = tb_policies b" for data
    by (auto simp: malformed_reply_def split: option.split)
  have del: "tb_policies (deliver_reply w sid er r now b') = tb_policies b'" for r b'
    by (auto simp: deliver_reply_def split: option.split)
  have "policies_checked env (cache_policy w sid r now b)"
    if "te_catalog env = Inr registry" "validate_response (VDict data) registry = Inr r" for registry data r
  proof -
    from that(2) have "ts_snapshot r \<noteq> VNone \<Longrightarrow> validate_snapshot (ts_snapshot r) registry = None"
      by (auto simp: validate_response_def check_reply_def split: option.splits if_splits)
    with that(1) assms show ?thesis
      by (auto simp: policies_checked_def cache_policy_def)
  qed
  with assms pol del show ?thesis
    by (auto simp: handle_response_def policies_checked_def split: pyval.split sum.split tuning_error.split)
qed

definition broker_inv :: "tuning_env \<Rightarrow> tuning_broker \<Rightarrow> bool" where
  "broker_inv env b \<longleftrightarrow> serial b \<and> remembered b \<and> honest b \<and> policies_checked env b"

lemma broker_inv_quiet:
  assumes "broker_inv env b" "quiet b b'" "remembered b'" "policies_checked env b'"
  shows "broker_inv env b'"
  using assms serial_quiet honest_quiet unfolding broker_inv_def by blast

lemma broker_inv_answer:
  assumes "broker_inv env b" "dget (tb_calls b) ref = Some c" "tc_mutation c \<Longrightarrow> \<exists>a. res = Inr a"
    and "\<And>r. res = Inr (Robot_answer r) \<Longrightarrow> ts_request_id r = tc_request_id c"
  shows "broker_inv env (answer_call ref res b)"
proof -
  have "ref < tb_next b" using assms(1,2) unfolding broker_inv_def serial_def by blast
  moreover have "policies_checked env (answer_call ref res b)"
    using assms(1) by (auto simp: broker_inv_def policies_checked_def answer_call_def split: option.splits)
  ultimately show ?thesis
    using assms honest_answered [OF _ assms(2)] serial_answer remembered_answer
    unfolding broker_inv_def by blast
qed

lemma broker_inv_lost:
  "broker_inv env b \<Longrightarrow> dget (tb_calls b) ref = Some c \<Longrightarrow> broker_inv env (answer_call ref (lost_outcome c cause r) b)"
  by (rule broker_inv_answer) (auto simp: lost_outcome_def split: if_splits)

lemma broker_inv_later:
  assumes "broker_inv env b" "tb_clock b \<le> now"
  shows "broker_inv env (b\<lparr>tb_clock := now\<rparr>)"
proof (rule broker_inv_quiet [OF assms(1)])
  show "quiet b (b\<lparr>tb_clock := now\<rparr>)"
    by (rule quiet_same) (use assms(1) in \<open>auto simp: broker_inv_def honest_def\<close>)
  show "remembered (b\<lparr>tb_clock := now\<rparr>)" using assms remembered_later unfolding broker_inv_def by blast
  show "policies_checked env (b\<lparr>tb_clock := now\<rparr>)"
    using assms(1) by (simp add: broker_inv_def policies_checked_def)
qed

lemma broker_inv_request:
  assumes "broker_inv env b" "sessions_named w" "now = tb_clock b"
  shows "broker_inv env (fst (tuning_request env w u robot request now b))"
proof (cases rule: tuning_request_cases [OF assms(2), of env u robot request now b])
  case (2 r)
  have "broker_inv env (prune_seen now b)"
  proof (rule broker_inv_quiet [OF assms(1)])
    show "quiet b (prune_seen now b)"
      by (rule quiet_same) (use assms(1) in \<open>auto simp: broker_inv_def honest_def\<close>)
    show "remembered (prune_seen now b)" using assms remembered_prune unfolding broker_inv_def by blast
    show "policies_checked env (prune_seen now b)"
      using assms(1) by (simp add: broker_inv_def policies_checked_def)
  qed
  with 2 show ?thesis by simp
next
  case (3 c wrapper b1)
  have b1: "remembered b1" "honest b1" "tb_clock b1 = now" "tc_mutation c \<Longrightarrow> \<not> seen_id (tc_request_id c) b1"
    "\<forall>ref d. dget (tb_calls b1) ref = Some d \<longrightarrow> ref < tb_next b1"
    "policies_checked env b1"
  proof -
    have quiet: "honest b \<Longrightarrow> quiet b (prune_seen now b)" by (rule quiet_same) (auto simp: honest_def)
    have lock: "remembered (b2\<lparr>tb_locked := x\<rparr>) = remembered b2" "honest (b2\<lparr>tb_locked := x\<rparr>) = honest b2"
        "policies_checked env (b2\<lparr>tb_locked := x\<rparr>) = policies_checked env b2" for b2 :: tuning_broker and x
      by (simp_all add: remembered_def honest_def mutation_ids_def covered_def honest_answer_def framed_def
          answered_ids_def table_ids_def policies_checked_def)
    show "remembered b1"
      using assms remembered_prune [of b now] 3(2) by (auto simp: broker_inv_def lock)
    show "honest b1"
      using assms(1) quiet honest_quiet 3(2) by (auto simp: broker_inv_def lock)
    show "tb_clock b1 = now" using assms(3) 3(2) by auto
    show "tc_mutation c \<Longrightarrow> \<not> seen_id (tc_request_id c) b1" using 3(2,7) by auto
    show "\<forall>ref d. dget (tb_calls b1) ref = Some d \<longrightarrow> ref < tb_next b1"
      using assms(1) 3(2) by (auto simp: broker_inv_def serial_def)
    show "policies_checked env b1"
      using assms(1) 3(2) by (auto simp: broker_inv_def policies_checked_def)
  qed
  have "serial (launched c wrapper now b1)"
    using assms(1) serial_launched [OF _ 3(6,3,2)] 3(7) unfolding broker_inv_def by blast
  moreover have "remembered (launched c wrapper now b1)"
    using remembered_launched [OF b1(1,3,4)] .
  moreover have "honest (launched c wrapper now b1)"
    using honest_launched [OF b1(2) 3(4) b1(5)] .
  ultimately show ?thesis using 3(1) b1(6) by (simp add: broker_inv_def policies_checked_def)
qed (use assms in simp)

end
