(* ===== verification/Tuning_Run.thy ===== *)
theory Tuning_Run
  imports Tuning_Broker
begin

text \<open>
  What holds along every run of the tuning broker, and how the speed policy it derives from a checked
  snapshot meets the server's policy reader.
\<close>

subsection \<open>The invariant along a run\<close>

lemma broker_inv_new: "broker_inv env tuning_new"
  by (simp add: broker_inv_def serial_def remembered_def honest_def policies_checked_def tuning_new_def
      spaced_def answered_ids_def table_ids_def dkeys_def mutation_ids_def)

lemma broker_inv_parts:
  "broker_inv env b \<Longrightarrow> answered_ids b \<and> table_ids b \<and> policies_checked env b \<and> remembered b \<and> serial b \<and> honest b"
  by (simp add: broker_inv_def honest_def)

lemma remembered_response:
  assumes "remembered b" "tb_clock b = now"
  shows "remembered (handle_response env w sid er v now b)"
proof -
  have kept: "calls_kept b' (settle ref f b')" for ref f b'
    by (auto simp: calls_kept_def settle_calls same_call_def split: option.splits)
  have settled: "remembered b' \<Longrightarrow> remembered (settle ref f b')" for ref f b'
    by (rule remembered_fields [OF _ kept]) simp_all
  have cached: "remembered (cache_policy w sid r now b)" for r
    by (rule remembered_fields [OF assms(1)]) (simp_all add: calls_kept_def)
  have "remembered (deliver_reply w sid er r now b')"
    if b': "remembered b'" "tb_clock b' = now" for r b'
  proof -
    have "tc_request_id c \<in> mutation_ids b'" if "pending_call b' rid = Some (ref, c)" "tc_mutation c" for rid ref c
      using that b'(1) by (auto simp: pending_call_def remembered_def split: option.splits)
    with b' show ?thesis
      by (auto simp: deliver_reply_def intro!: settled remembered_remember split: option.split)
  qed
  moreover have "remembered (malformed_reply w sid d b)" for d
    using assms(1) by (auto simp: malformed_reply_def intro!: settled split: option.split)
  ultimately show ?thesis
    using assms cached by (auto simp: handle_response_def split: pyval.split sum.split tuning_error.split)
qed

lemma policies_subset:
  assumes "policies_checked env b" "\<And>robot ca. dget (tb_policies b') robot = Some ca \<Longrightarrow> dget (tb_policies b) robot = Some ca"
  shows "policies_checked env b'"
  using assms unfolding policies_checked_def by blast

lemma broker_inv_calls:
  assumes "broker_inv env b" "quiet b b'" "tb_seen b' = tb_seen b" "tb_clock b' = tb_clock b"
    and "\<And>robot ca. dget (tb_policies b') robot = Some ca \<Longrightarrow> dget (tb_policies b) robot = Some ca"
  shows "broker_inv env b'"
proof (rule broker_inv_quiet [OF assms(1,2)])
  show "remembered b'"
    using assms(1-4) by (intro remembered_fields [of b b']) (auto simp: broker_inv_def quiet_def)
  show "policies_checked env b'"
    using assms(1,5) policies_subset broker_inv_def by blast
qed

lemma broker_inv_step:
  assumes "tuning_step env b b'" "broker_inv env b"
  shows "broker_inv env b'"
  using assms(1)
proof (cases rule: tuning_step.cases)
  case (ask now w u robot request)
  with broker_inv_request [OF broker_inv_later [OF assms(2)], of now w now u robot request] show ?thesis
    by simp
next
  case (sent w ref ok)
  from send_done_cases [of w ref ok b] show ?thesis
  proof (elim disjE exE conjE)
    fix c assume c: "dget (tb_calls b) ref = Some c"
      "send_done w ref ok b = b\<lparr>tb_calls := dset (tb_calls b) ref (c\<lparr>tc_phase := Awaiting\<rparr>)\<rparr>"
    show ?thesis unfolding sent c(2)
      by (rule broker_inv_calls [OF assms(2)]) (use quiet_waits [OF _ c(1)] broker_inv_parts [OF assms(2)] in auto)
  qed (use assms(2) sent broker_inv_lost in auto)
next
  case (finished w ref timed_out)
  from call_done_cases [of w ref timed_out b] show ?thesis
  proof (elim disjE exE conjE)
    fix c a assume c: "dget (tb_calls b) ref = Some c" "tc_future c = Settled a"
      "call_done w ref timed_out b = answer_call ref (Inr a) (update_desired w c a b)"
    have "broker_inv env (update_desired w c a b)"
      by (rule broker_inv_calls [OF assms(2) quiet_update_desired]) (use broker_inv_parts [OF assms(2)] in auto)
    then show ?thesis unfolding finished c(3)
    proof (rule broker_inv_answer)
      show "dget (tb_calls (update_desired w c a b)) ref = Some c" using c(1) by simp
      show "ts_request_id r = tc_request_id c" if "(Inr a :: tuning_refusal + tuning_answer) = Inr (Robot_answer r)" for r
        using that c(1,2) broker_inv_parts [OF assms(2)] by (auto simp: answered_ids_def)
    qed simp
  qed (use assms(2) finished broker_inv_lost in auto)
next
  case (cancelled ref)
  then show ?thesis
    using assms(2) serial_drop_call honest_drop remembered_fields [OF _ drop_call_kept, of b ref]
    by (auto simp: broker_inv_def call_cancelled_def policies_checked_def)
next
  case (reply now w sid er v)
  let ?b = "b\<lparr>tb_clock := now\<rparr>"
  have inv: "broker_inv env ?b" using broker_inv_later [OF assms(2) reply(2)] .
  note p = broker_inv_parts [OF inv]
  show ?thesis unfolding reply(1)
    by (rule broker_inv_quiet [OF inv]) (use p quiet_response remembered_response policies_response in auto)
next
  case (dropped w sid)
  have "tb_seen (tuning_disconnected w sid b) = tb_seen b" "tb_clock (tuning_disconnected w sid b) = tb_clock b"
      "\<And>robot ca. dget (tb_policies (tuning_disconnected w sid b)) robot = Some ca \<Longrightarrow> dget (tb_policies b) robot = Some ca"
    by (auto simp: tuning_disconnected_def Let_def split: option.splits if_splits)
  with dropped show ?thesis
    using broker_inv_calls [OF assms(2) quiet_disconnected] broker_inv_parts [OF assms(2)] by blast
next
  case stopped
  show ?thesis unfolding stopped
    by (rule broker_inv_calls [OF assms(2) quiet_shutdown])
      (use broker_inv_parts [OF assms(2)] in \<open>auto simp: tuning_shutdown_def\<close>)
qed

lemma broker_inv_reach: "tuning_reach env b \<Longrightarrow> broker_inv env b"
  by (induction rule: tuning_reach.induct) (auto intro: broker_inv_new broker_inv_step)

subsection \<open>A checked snapshot gives an acceptable policy\<close>

lemma substring_chars: "substring p s \<Longrightarrow> set p \<subseteq> set s"
proof (induction p s rule: substring.induct)
  case (2 p c s)
  then consider "take (length p) (c # s) = p" | "substring p s" by auto
  then show ?case
  proof cases
    case 1
    have "set (take (length p) (c # s)) \<subseteq> set (c # s)" by (rule set_take_subset)
    with 1 show ?thesis by simp
  next
    case 2
    with "2.IH" show ?thesis by auto
  qed
qed simp

definition hex_chars :: "char set" where
  "hex_chars = set ''0123456789abcdef''"

lemma lower_hex_chars: "lower_hex c \<longleftrightarrow> c \<in> hex_chars"
  by (simp only: lower_hex_def hex_chars_def)

lemma uuid_chars:
  assumes "uuid_canonical s"
  shows "length s = 36 \<and> set s \<subseteq> insert (CHR ''-'') hex_chars"
proof -
  have l: "length s = 36" using assms by (simp add: uuid_canonical_def)
  have "s ! i \<in> insert (CHR ''-'') hex_chars" if i: "i < 36" for i
  proof -
    have "(i, s ! i) \<in> set (zip [0..<36] s)"
      using i l by (auto simp: in_set_zip intro!: exI [of _ i])
    with assms have "if i \<in> {8, 13, 18, 23} then s ! i = CHR ''-'' else lower_hex (s ! i)"
      unfolding uuid_canonical_def list_all_iff by blast
    then show ?thesis by (auto simp: lower_hex_chars split: if_splits)
  qed
  with l show ?thesis by (metis in_set_conv_nth subsetI)
qed

lemma digest_chars: "digest_text (VStr d) \<Longrightarrow> length (remove_prefix ''sha256:'' d) = 64
    \<and> set (remove_prefix ''sha256:'' d) \<subseteq> hex_chars"
  by (simp add: digest_text_def sha256_hex_def list_all_iff lower_hex_chars subset_iff)

definition revision_chars :: "char set" where
  "revision_chars = set ''0123456789None''"

lemma revision_text:
  assumes "v = VNone \<or> safe_revision v"
  shows "length (text_of v) \<le> 16 \<and> set (text_of v) \<subseteq> revision_chars"
proof (cases v)
  case (VInt i)
  with assms have i: "0 \<le> i" "i \<le> JS_SAFE_INT" by (auto simp: safe_revision_def)
  then have "nat i < 10 ^ Suc 15" by (simp add: JS_SAFE_INT_def nat_less_iff)
  moreover have "text_of v = digits_of (nat i)" using VInt i by (simp add: text_of_def string_of_int_def)
  moreover have "set ''0123456789'' \<subseteq> revision_chars" by (simp add: revision_chars_def)
  ultimately show ?thesis
    using digits_length [of "nat i" 15] digits_digits [of "nat i"] by (simp add: subset_trans)
next
  case VNone
  then show ?thesis by (simp add: text_of_def revision_chars_def)
qed (use assms in \<open>simp_all add: safe_revision_def\<close>)

text \<open>The generation text the broker builds is one the policy reader takes.\<close>

lemma generation_valid:
  assumes "uuid_canonical token" "v = VNone \<or> safe_revision v" "digest_text (VStr d)"
  shows "valid_generation (VStr (token @ '':'' @ text_of v @ '':'' @ remove_prefix ''sha256:'' d))"
proof -
  define A where "A = hex_chars \<union> revision_chars \<union> {CHR '':'', CHR ''-''}"
  define g where "g = token @ '':'' @ text_of v @ '':'' @ remove_prefix ''sha256:'' d"
  note t = uuid_chars [OF assms(1)] and r = revision_text [OF assms(2)] and h = digest_chars [OF assms(3)]
  have len: "102 \<le> length g" "length g \<le> 128" using t r h by (simp_all add: g_def)
  have chars: "set g \<subseteq> A" using t r h by (auto simp: g_def A_def)
  have allowed: "A \<subseteq> set GENERATION_ALLOWED"
    by (simp add: A_def hex_chars_def revision_chars_def generation_defs)
  have "CHR ''/'' \<notin> A" "CHR 0x5C \<notin> A" "CHR ''.'' \<notin> A"
    by (simp_all add: A_def hex_chars_def revision_chars_def)
  then have clean: "\<not> substring ''/'' g" "\<not> substring [CHR 0x5C] g" "\<not> substring ''..'' g"
    using chars substring_chars [of _ g] by fastforce+
  have "remove_prefix ''sha256:'' d \<noteq> []" using h by auto
  then have "hd (remove_prefix ''sha256:'' d) \<in> hex_chars" using h hd_in_set by blast
  then have "hd (remove_prefix ''sha256:'' d) \<in> set GENERATION_ALNUM"
    by (auto simp: hex_chars_def GENERATION_ALNUM_def)
  moreover have "hd (remove_prefix ''sha256:'' d) \<in> set g"
    using \<open>remove_prefix ''sha256:'' d \<noteq> []\<close> by (simp add: g_def)
  ultimately have "list_ex (\<lambda>c. c \<in> set GENERATION_ALNUM) g" by (auto simp: list_ex_iff)
  moreover have "list_all (\<lambda>c. c \<in> set GENERATION_ALLOWED) g"
    using chars allowed by (auto simp: list_all_iff)
  ultimately show ?thesis
    using clean len unfolding g_def [symmetric] valid_generation_def
    by (simp add: MAX_GENERATION_LENGTH_def)
qed

lemma finite_of_number: "number_of v = Some x \<Longrightarrow> finite_number v = Some x"
  by (auto simp: number_of_def finite_number_def float_of_int_def MAX_INT_def split: pyval.splits if_splits)
    (auto simp: rat_of_def split: pyfloat.splits)

lemma dkeys_key_str: "map (key_text \<circ> fst) (map (\<lambda>p. (Key_str (fst p), snd p)) d) = dkeys d"
  by (simp add: dkeys_def key_text_def)


text \<open>What a checked snapshot with runtime limits says.\<close>

lemma checked_snapshot:
  assumes "validate_snapshot snap registry = None" "py_truth (get (dict_of snap) ''active_known'')"
    and "get (dict_of snap) ''effective_limits'' = VDict limits" "get (dict_of snap) ''digest'' = VStr d"
  shows "\<exists>s token l a. snap = VDict s \<and> get s ''session_id'' = VStr token \<and> uuid_canonical token
    \<and> (get s ''active_revision'' = VNone \<or> safe_revision (get s ''active_revision'')) \<and> digest_text (VStr d)
    \<and> same_names (dkeys limits) LIMIT_NAMES
    \<and> number_of (get limits ''max_linear_m_s'') = Some l \<and> 0 \<le> l \<and> l \<le> 3 / 10
    \<and> number_of (get limits ''max_angular_rad_s'') = Some a \<and> 0 \<le> a \<and> a \<le> 7 / 10"
proof -
  from assms(1) obtain s where s: "snap = VDict s" "check_snapshot s registry = None"
    by (auto simp: validate_snapshot_def split: pyval.splits)
  have known: "py_truth (get s ''active_known'')" and lim: "get s ''effective_limits'' = VDict limits"
    and dig: "get s ''digest'' = VStr d"
    using assms(2-4) s(1) by (simp_all add: dict_of_def)
  have c: "uninitialized s \<or> canonical_uuid (get s ''session_id'') \<noteq> None"
      "get s ''active_revision'' = VNone \<or> safe_revision (get s ''active_revision'')"
      "\<not> (uninitialized s \<and> (py_truth (get s ''active_known'') \<or> py_truth (get s ''writable'')
            \<or> py_truth (get s ''activation_supported'') \<or> get s ''active_revision'' \<noteq> VNone))"
      "check_limits (get s ''effective_limits'') = None"
      "get s ''digest'' = VNone \<or> digest_text (get s ''digest'')"
    using s(2) by (simp_all add: check_snapshot_def del: need_def)
  from c(1,3) known have "canonical_uuid (get s ''session_id'') \<noteq> None" by blast
  then obtain token where t: "get s ''session_id'' = VStr token" "uuid_canonical token"
    by (auto simp: canonical_uuid_def split: pyval.splits if_splits)
  from c(4) lim have "same_names (dkeys limits) LIMIT_NAMES"
      "in_range (get limits ''max_linear_m_s'') (3 / 10)" "in_range (get limits ''max_angular_rad_s'') (7 / 10)"
    by (simp_all add: check_limits_def HARD_LIMITS_def)
  with s(1) t c(2,5) dig show ?thesis
    by (auto simp: in_range_def split: option.splits)
qed

lemma policy_mapping_parsed:
  assumes "same_names (dkeys limits) LIMIT_NAMES"
    and "number_of (get limits ''max_linear_m_s'') = Some l" "0 \<le> l" "l \<le> 3 / 10"
    and "number_of (get limits ''max_angular_rad_s'') = Some a" "0 \<le> a" "a \<le> 7 / 10"
    and "valid_generation (VStr g)" "0 \<le> n" "received \<le> now + 1 / 2" "now - received \<le> 5"
  shows "parse_policy (policy_mapping limits g received n) now = Inr \<lparr>tp_mode = Dynamic_mode, tp_max_linear_m_s = l,
     tp_max_angular_rad_s = a, tp_generation = Some g, tp_received_mono = Some received, tp_robot_generation = Some n\<rparr>"
proof -
  define d where "d = dset (dset (dset limits ''generation'' (VStr g)) ''received_mono'' (VFloat (Fin received)))
         ''robot_generation'' (VInt n)"
  let ?raw = "Raw_mapping (map (\<lambda>p. (Key_str (fst p), snd p)) d)"
  have raw: "policy_mapping limits g received n = ?raw" by (simp add: policy_mapping_def d_def)
  have ks: "set (dkeys d) = set REQUIRED_FIELDS"
    using assms(1) by (auto simp: d_def same_names_def LIMIT_NAMES_def list_all_iff REQUIRED_FIELDS_def)
  have field: "field_of ?raw k = get d k" for k
    by (simp add: field_of_def dget_key_str get_def default_def)
  have gets: "get d ''max_linear_m_s'' = get limits ''max_linear_m_s''" "get d ''max_angular_rad_s'' = get limits ''max_angular_rad_s''"
      "get d ''generation'' = VStr g" "get d ''received_mono'' = VFloat (Fin received)" "get d ''robot_generation'' = VInt n"
    by (simp_all add: d_def get_def)
  have "parse_policy ?raw now = validate_fields_of ?raw now"
    unfolding parse_policy_def raw_value.case Let_def dkeys_key_str using ks by (simp add: list_all_iff)
  also have "\<dots> = validate_policy_fields (get limits ''max_linear_m_s'') (get limits ''max_angular_rad_s'') (VStr g)
      (VFloat (Fin received)) (VInt n) now"
    by (simp only: validate_fields_of_def field gets)
  also have "\<dots> = Inr \<lparr>tp_mode = Dynamic_mode, tp_max_linear_m_s = l,
     tp_max_angular_rad_s = a, tp_generation = Some g, tp_received_mono = Some received, tp_robot_generation = Some n\<rparr>"
    using assms finite_of_number [OF assms(2)] finite_of_number [OF assms(5)]
    by (simp add: validate_policy_fields_def envelope_defs session_binding_def gen_text_def finite_number_def [of "VFloat _"])
  finally show ?thesis by (simp add: raw)
qed

subsection \<open>Properties\<close>

text \<open>
  C17. Every speed policy the tuning broker derives is one the manual-drive policy reader accepts. In
  every reachable state, a policy handed out for a robot comes from a snapshot that was validated
  when it arrived on the socket still bound to that robot, with verified runtime limits and for the
  drive base's current hardware session; within five seconds of its receipt the server's parser
  takes it, with exactly the snapshot's two caps, that receipt time and that hardware session.
\<close>

theorem tuning_policy_is_acceptable:
  assumes "tuning_reach env b" "tuning_teleop_policy w robot b = Some raw" "raw \<noteq> Raw_none"
  shows "\<exists>ca s base limits l a g. dget (tb_policies b) robot = Some ca \<and> ca_snapshot ca = VDict s
    \<and> call_bound w (ca_session ca) (se_generation (w_sessions w (ca_session ca))) (ca_websocket ca)
    \<and> sl_data (rb_base_state (w_state w (se_robot (w_sessions w (ca_session ca))))) = Some base
    \<and> numeric (get s ''hardware_session_generation'') = Some (Fin (of_int (bs_session_generation base)))
    \<and> get s ''effective_limits'' = VDict limits
    \<and> number_of (get limits ''max_linear_m_s'') = Some l \<and> number_of (get limits ''max_angular_rad_s'') = Some a
    \<and> (0 \<le> bs_session_generation base \<and> ca_received ca \<le> now + 1 / 2 \<and> now - ca_received ca \<le> 5 \<longrightarrow>
        parse_policy raw now = Inr \<lparr>tp_mode = Dynamic_mode, tp_max_linear_m_s = l, tp_max_angular_rad_s = a,
          tp_generation = Some g, tp_received_mono = Some (ca_received ca),
          tp_robot_generation = Some (bs_session_generation base)\<rparr>)"
proof -
  from assms(2,3) obtain ca base where ca: "dget (tb_policies b) robot = Some ca"
      "call_bound w (ca_session ca) (se_generation (w_sessions w (ca_session ca))) (ca_websocket ca)"
      "py_truth (get (dict_of (ca_snapshot ca)) ''active_known'')"
      "sl_data (rb_base_state (w_state w (se_robot (w_sessions w (ca_session ca))))) = Some base"
      "snapshot_policy (dict_of (ca_snapshot ca)) base (ca_received ca) = Some raw"
    by (auto simp: tuning_teleop_policy_def Let_def split: option.splits if_splits)
  from broker_inv_parts [OF broker_inv_reach [OF assms(1)]] ca(1) obtain registry
    where valid: "validate_snapshot (ca_snapshot ca) registry = None"
    unfolding policies_checked_def by blast
  from ca(5) assms(3) obtain limits d token v where p: "get (dict_of (ca_snapshot ca)) ''effective_limits'' = VDict limits"
      "get (dict_of (ca_snapshot ca)) ''digest'' = VStr d"
      "numeric (get (dict_of (ca_snapshot ca)) ''hardware_session_generation'') = Some (Fin (of_int (bs_session_generation base)))"
      "dget (dict_of (ca_snapshot ca)) ''session_id'' = Some token" "dget (dict_of (ca_snapshot ca)) ''active_revision'' = Some v"
      "raw = policy_mapping limits (text_of token @ '':'' @ text_of v @ '':'' @ remove_prefix ''sha256:'' d)
         (ca_received ca) (bs_session_generation base)"
    by (auto simp: snapshot_policy_def split: pyval.splits if_splits option.splits)
  from checked_snapshot [OF valid ca(3) p(1,2)] obtain s tok l a where s: "ca_snapshot ca = VDict s"
      "get s ''session_id'' = VStr tok" "uuid_canonical tok"
      "get s ''active_revision'' = VNone \<or> safe_revision (get s ''active_revision'')" "digest_text (VStr d)"
      "same_names (dkeys limits) LIMIT_NAMES"
      "number_of (get limits ''max_linear_m_s'') = Some l" "0 \<le> l" "l \<le> 3 / 10"
      "number_of (get limits ''max_angular_rad_s'') = Some a" "0 \<le> a" "a \<le> 7 / 10"
    by blast
  have tok: "text_of token = tok" and v: "v = VNone \<or> safe_revision v"
    using p(4,5) s(1,2,4) by (auto simp: dict_of_def get_def text_of_def)
  have g: "valid_generation (VStr (tok @ '':'' @ text_of v @ '':'' @ remove_prefix ''sha256:'' d))"
    by (rule generation_valid [OF s(3) v s(5)])
  have parsed: "parse_policy raw now = Inr \<lparr>tp_mode = Dynamic_mode, tp_max_linear_m_s = l, tp_max_angular_rad_s = a,
          tp_generation = Some (tok @ '':'' @ text_of v @ '':'' @ remove_prefix ''sha256:'' d),
          tp_received_mono = Some (ca_received ca), tp_robot_generation = Some (bs_session_generation base)\<rparr>"
    if "0 \<le> bs_session_generation base" "ca_received ca \<le> now + 1 / 2" "now - ca_received ca \<le> 5"
    unfolding p(6) tok by (rule policy_mapping_parsed [OF s(6-12) g that])
  have "get s ''effective_limits'' = VDict limits"
      "numeric (get s ''hardware_session_generation'') = Some (Fin (of_int (bs_session_generation base)))"
    using p(1,3) s(1) by (simp_all add: dict_of_def)
  with ca(1,2,4) s(1,7,10) parsed show ?thesis by blast
qed

text \<open>
  C15. Tuning changes are serialized and never resent blindly. In every reachable state at most eight
  requests are pending and at most one change per robot is in flight; and as long as no more than
  512 different changes were sent, two frames of the same change id are always more than 60 seconds
  apart, whatever replies, losses, timeouts and cancellations happen between them.
\<close>

theorem changes_are_serialized:
  assumes "tuning_reach env b"
  shows "length (tb_pending b) \<le> MAX_PENDING
    \<and> (\<forall>ref c ref' c'. dget (tb_calls b) ref = Some c \<longrightarrow> dget (tb_calls b) ref' = Some c' \<longrightarrow>
         tc_mutation c \<longrightarrow> tc_mutation c' \<longrightarrow> tc_robot c = tc_robot c' \<longrightarrow> ref = ref')
    \<and> (card (mutation_ids b) \<le> DEDUPE_LIMIT \<longrightarrow>
        (\<forall>i j. i < j \<longrightarrow> j < length (tb_frames b) \<longrightarrow>
          fr_mutation (tb_frames b ! i) \<longrightarrow> fr_mutation (tb_frames b ! j) \<longrightarrow>
          fr_request_id (tb_frames b ! i) = fr_request_id (tb_frames b ! j) \<longrightarrow>
          fr_time (tb_frames b ! i) + DEDUPE_TTL_S < fr_time (tb_frames b ! j)))"
proof -
  note p = broker_inv_parts [OF broker_inv_reach [OF assms]]
  have "serial b" using p by blast
  then have "length (tb_pending b) \<le> MAX_PENDING"
    "\<forall>ref c ref' c'. dget (tb_calls b) ref = Some c \<longrightarrow> dget (tb_calls b) ref' = Some c' \<longrightarrow>
         tc_mutation c \<longrightarrow> tc_mutation c' \<longrightarrow> tc_robot c = tc_robot c' \<longrightarrow> ref = ref'"
    unfolding serial_def by blast+
  moreover have "spaced (tb_frames b)" if "card (mutation_ids b) \<le> DEDUPE_LIMIT"
    using p that unfolding remembered_def by blast
  ultimately show ?thesis unfolding spaced_def sorted_wrt_iff_nth_less by blast
qed


subsection \<open>A concrete run\<close>

definition tuning_state :: robot_state where
  "tuning_state = (state_new example_settings)\<lparr>rb_connection := Online,
     rb_capabilities := [TUNING_CAPABILITY, TUNING_READ_CAPABILITY],
     rb_base_state := \<lparr>sl_data = Some ready_base, sl_received = Some 0\<rparr>\<rparr>"

definition tuning_world :: world where
  "tuning_world = \<lparr>w_robots = [(''r'', 0)], w_sessions = (\<lambda>_. \<lparr>se_robot = ''r'', se_websocket = Some 7, se_generation = 1,
     se_connected = 0\<rparr>), w_next_session = 1, w_state = (\<lambda>_. tuning_state),
     w_clients = (\<lambda>_. \<lparr>cl_user = None, cl_connected = True\<rparr>),
     w_maps = [], w_active = [], w_reset_pending = [], w_lidar_pending = [], w_lidar_recovery = [], w_lidar_after = [],
     w_seen = [], w_lease = [], w_rate = rate_limiter_new 30, w_owners = [], w_revisions = [], w_attempts = 0, w_out = []\<rparr>"

definition tuning_user :: user where
  "tuning_user = \<lparr>us_id = 1, us_username = ''local'', us_role = ''administrator''\<rparr>"

definition tuning_example_env :: tuning_env where
  "tuning_example_env = \<lparr>te_catalog = Inr example_registry, te_sign = (\<lambda>w robot. Inr w)\<rparr>"

definition example_change :: pyval where
  "example_change = example_save [(''nav_linear'', VFloat (Fin (1 / 5)))]"

lemma tuning_world_named: "sessions_named tuning_world"
  by (simp add: sessions_named_def session_of_def tuning_world_def)

definition asked :: tuning_broker where
  "asked = fst (tuning_request tuning_example_env tuning_world tuning_user ''r'' example_change 10 (tuning_new\<lparr>tb_clock := 10\<rparr>))"

lemma asked_reachable: "tuning_reach tuning_example_env asked"
  unfolding asked_def
  by (rule tuning_reach.step [OF tuning_reach.start]) (rule tuning_step.ask [OF _ tuning_world_named], simp add: tuning_new_def)

lemma asked_frames: "map fr_mutation (tb_frames asked) = [True] \<and> map fst (tb_calls asked) = [0]"
proof -
  have v: "validate_request example_change example_registry = None"
    unfolding example_change_def by (rule example_save_accepted)
  have r: "tuning_request tuning_example_env tuning_world tuning_user ''r'' example_change 10 (tuning_new\<lparr>tb_clock := 10\<rparr>)
    = unlock_refused ''r'' (request_locked tuning_example_env tuning_world tuning_user ''r'' (dict_of example_change) ''save'' True 10
       ((prune_seen 10 (tuning_new\<lparr>tb_clock := 10\<rparr>))\<lparr>tb_locked := [''r'']\<rparr>))"
    by (simp add: tuning_request_def tuning_example_env_def v Let_def)
      (simp add: example_change_def example_save_def dict_of_def get_def text_or_empty_def is_mutation_def
        MUTATION_OPERATIONS_def require_administrator_def is_administrator_def tuning_user_def tuning_new_def
        seen_id_def prune_seen_def MAX_PENDING_def dkeys_def)
  show ?thesis
    unfolding asked_def r by code_simp
qed

definition example_reply :: pyval where
  "example_reply = VDict
     [(''request_id'', VStr ''0a1b2c3d-0000-4000-8000-000000000009''), (''outcome'', VStr ''ok''),
      (''snapshot'', VDict
        [(''session_id'', VStr example_session), (''desired_revision'', VInt 4), (''active_revision'', VInt 4),
         (''active_known'', VBool True), (''writable'', VBool True), (''activation_supported'', VBool True),
         (''desired'', VDict []), (''active'', VDict []),
         (''effective_limits'', VDict [(''max_linear_m_s'', VFloat (Fin (1 / 5))), (''max_angular_rad_s'', VInt 0)]),
         (''pending_keys'', VList []), (''catalog'', VList []),
         (''safe_apply'', VDict [(''allowed'', VBool True), (''reason'', VStr [])]),
         (''digest'', VStr (replicate 64 (CHR ''a''))), (''compatibility'', VStr ''ok''),
         (''hardware_session_generation'', VInt (bs_session_generation ready_base))])]"

lemma example_reply_valid:
  "\<exists>r. validate_response example_reply example_registry = Inr r \<and> ts_outcome r = ''ok''
     \<and> ts_snapshot r = get (dict_of example_reply) ''snapshot''"
proof -
  define d where "d = dict_of example_reply"
  define s where "s = dict_of (get d ''snapshot'')"
  have ds: "example_reply = VDict d" "get d ''snapshot'' = VDict s"
    by (simp_all add: d_def s_def example_reply_def dict_of_def get_def)
  have "bounded_value RESPONSE_MAX_BYTES (VDict d)" "bounded_value RESPONSE_MAX_BYTES (VDict s)"
    by (simp_all add: d_def s_def bounded_value_def example_reply_def dict_of_def get_def RESPONSE_MAX_BYTES_def
        MAX_DEPTH_def MAX_ITEMS_def MAX_INT_def example_session_def ready_base_def)
  moreover have "check_snapshot s example_registry = None"
    unfolding s_def d_def by code_simp
  moreover have "canonical_uuid (get d ''request_id'') \<noteq> None" "in_names (get d ''outcome'') OUTCOMES"
      "get d ''detail'' = VNone" "get d ''job'' = VNone"
    unfolding d_def by code_simp+
  ultimately have "check_reply d example_registry = None"
    by (simp add: check_reply_def scan_None validate_snapshot_def ds(2))
  then show ?thesis
    by (simp add: validate_response_def ds(1)) (simp add: d_def example_reply_def dict_of_def get_def text_or_empty_def)
qed

definition replied :: tuning_broker where
  "replied = handle_response tuning_example_env tuning_world 0 ''r'' example_reply 11 (asked\<lparr>tb_clock := 11\<rparr>)"

lemma replied_reachable: "tuning_reach tuning_example_env replied"
proof -
  have "tb_clock asked \<le> 11"
    using broker_inv_parts [OF broker_inv_reach [OF asked_reachable]]
    by (cases rule: tuning_request_cases [OF tuning_world_named, of tuning_example_env tuning_user "''r''" example_change 10
        "tuning_new\<lparr>tb_clock := 10\<rparr>"]) (auto simp: asked_def)
  then show ?thesis
    unfolding replied_def by (rule tuning_reach.step [OF asked_reachable tuning_step.reply])
qed

lemma replied_policy:
  "\<exists>ca. dget (tb_policies replied) ''r'' = Some ca \<and> ca_session ca = 0 \<and> ca_websocket ca = Some 7
     \<and> ca_snapshot ca = get (dict_of example_reply) ''snapshot'' \<and> ca_received ca = 11"
proof -
  obtain r where r: "validate_response example_reply example_registry = Inr r" "ts_outcome r = ''ok''"
      "ts_snapshot r = get (dict_of example_reply) ''snapshot''"
    using example_reply_valid by blast
  obtain data where d: "example_reply = VDict data" by (simp add: example_reply_def)
  have tw: "se_robot (w_sessions tuning_world 0) = ''r''" "session_of tuning_world ''r'' = Some 0"
      "se_websocket (w_sessions tuning_world 0) = Some 7" "te_catalog tuning_example_env = Inr example_registry"
    by (simp_all add: session_of_def tuning_world_def tuning_example_env_def)
  have s: "get (dict_of example_reply) ''snapshot'' \<noteq> VNone" by (simp add: example_reply_def dict_of_def get_def)
  have same_policies: "tb_policies (deliver_reply w sid er r now b') = tb_policies b'" for w sid er now b'
    by (auto simp: deliver_reply_def split: option.split)
  have "replied = deliver_reply tuning_world 0 ''r'' r 11 (cache_policy tuning_world 0 r 11 (asked\<lparr>tb_clock := 11\<rparr>))"
    by (simp add: replied_def handle_response_def tw d r(1) [unfolded d])
  then have "tb_policies replied = tb_policies (cache_policy tuning_world 0 r 11 (asked\<lparr>tb_clock := 11\<rparr>))"
    using same_policies by metis
  then show ?thesis by (simp add: cache_policy_def r s tw)
qed

theorem tuning_policy_is_acceptable_witness:
  "\<exists>raw p. tuning_teleop_policy tuning_world ''r'' replied = Some raw \<and> parse_policy raw 12 = Inr p
     \<and> tp_max_linear_m_s p = 1 / 5 \<and> tp_robot_generation p = Some 4"
proof -
  obtain ca where ca: "dget (tb_policies replied) ''r'' = Some ca" "ca_session ca = 0" "ca_websocket ca = Some 7"
      "ca_snapshot ca = get (dict_of example_reply) ''snapshot''" "ca_received ca = 11"
    using replied_policy by blast
  have "\<exists>raw. tuning_teleop_policy tuning_world ''r'' replied = Some raw \<and> raw \<noteq> Raw_none"
    by (simp add: tuning_teleop_policy_def ca call_bound_def session_of_def tuning_world_def tuning_state_def
        example_reply_def dict_of_def get_def snapshot_policy_def numeric_def policy_mapping_def)
  then obtain raw where raw: "tuning_teleop_policy tuning_world ''r'' replied = Some raw" "raw \<noteq> Raw_none" by blast
  have base: "sl_data (rb_base_state (w_state tuning_world robot)) = Some ready_base" for robot
    by (simp add: tuning_world_def tuning_state_def)
  from tuning_policy_is_acceptable [OF replied_reachable raw, of 12] obtain ca' s base limits l a g where
      q: "dget (tb_policies replied) ''r'' = Some ca'" "ca_snapshot ca' = VDict s"
      "sl_data (rb_base_state (w_state tuning_world (se_robot (w_sessions tuning_world (ca_session ca'))))) = Some base"
      "get s ''effective_limits'' = VDict limits" "number_of (get limits ''max_linear_m_s'') = Some l"
      "0 \<le> bs_session_generation base \<and> ca_received ca' \<le> 12 + 1 / 2 \<and> 12 - ca_received ca' \<le> 5 \<longrightarrow>
        parse_policy raw 12 = Inr \<lparr>tp_mode = Dynamic_mode, tp_max_linear_m_s = l, tp_max_angular_rad_s = a,
          tp_generation = Some g, tp_received_mono = Some (ca_received ca'),
          tp_robot_generation = Some (bs_session_generation base)\<rparr>"
    by blast
  have same: "ca' = ca" "base = ready_base" using q(1,3) ca(1) base by auto
  note p = q(2,4,5,6) [unfolded same]
  have g4: "bs_session_generation ready_base = 4" by (simp add: ready_base_def)
  have "get (dict_of (ca_snapshot ca)) ''effective_limits'' = VDict [(''max_linear_m_s'', VFloat (Fin (1 / 5))), (''max_angular_rad_s'', VInt 0)]"
    by (simp add: ca(4) example_reply_def dict_of_def get_def)
  with p(1,2) have "limits = [(''max_linear_m_s'', VFloat (Fin (1 / 5))), (''max_angular_rad_s'', VInt 0)]"
    by (simp add: dict_of_def)
  with p(3) have "l = 1 / 5" by (simp add: get_def number_of_def)
  moreover have "parse_policy raw 12 = Inr \<lparr>tp_mode = Dynamic_mode, tp_max_linear_m_s = l, tp_max_angular_rad_s = a,
          tp_generation = Some g, tp_received_mono = Some (ca_received ca), tp_robot_generation = Some 4\<rparr>"
    using p(4) g4 ca(5) by simp
  ultimately show ?thesis using raw(1) by auto
qed

theorem changes_are_serialized_witness:
  "length (tb_frames asked) = 1 \<and> length (tb_pending asked) \<le> MAX_PENDING"
proof -
  have "length (map fr_mutation (tb_frames asked)) = 1" using asked_frames by simp
  then show ?thesis using changes_are_serialized [OF asked_reachable] by simp
qed


end
