(* ===== verification/Frame_Queues.thy ===== *)
theory Frame_Queues
  imports Prelude "HOL-Library.Sublist"
begin

text \<open>
  The bounded frame queues of the two ends of the telemetry path: \<open>BrowserClient\<close>
  (\<open>server/app/telemetry/hub.py\<close>), one per browser, and the outbound queue of \<open>WsClient\<close>
  (\<open>patrolbot_web_bridge/ws_client.py\<close>) with the connection life cycle that fills and empties it.

  Both make room by deleting the oldest frame that is not protected, and both refuse the new frame
  when there is none. The locale \<open>frame_queue\<close> states that contract once and proves what it gives to
  a stream of frames; it is interpreted on both models. A browser that refuses is condemned and
  resynchronised, a bridge that refuses only counts.
\<close>

subsection \<open>Eviction\<close>

text \<open>The loop of both queues: delete the first entry that satisfies \<open>P\<close>, if there is one.\<close>

fun delete_first :: "('a \<Rightarrow> bool) \<Rightarrow> 'a list \<Rightarrow> 'a list option" where
  "delete_first P [] = None"
| "delete_first P (x # xs) = (if P x then Some xs else map_option ((#) x) (delete_first P xs))"

lemma delete_first_None: "delete_first P xs = None \<longleftrightarrow> (\<forall>x\<in>set xs. \<not> P x)"
  by (induction xs) auto

lemma delete_first_SomeD:
  "delete_first P xs = Some ys \<Longrightarrow>
     subseq ys xs \<and> Suc (length ys) = length xs \<and> filter (\<lambda>x. \<not> P x) ys = filter (\<lambda>x. \<not> P x) xs"
  by (induction xs arbitrary: ys) (auto split: if_splits)

lemma subseq_subset: "subseq xs ys \<Longrightarrow> set xs \<subseteq> set ys"
  by (induction rule: list_emb.induct) auto

lemma subseq_sorted_wrt: "subseq xs ys \<Longrightarrow> sorted_wrt R ys \<Longrightarrow> sorted_wrt R xs"
  by (induction rule: list_emb.induct) (auto dest: list_emb_set)

subsection \<open>The contract of a protecting queue\<close>

text \<open>
  \<open>takes q f\<close> says whether offering \<open>f\<close> to \<open>q\<close> queues it. An accepted frame goes to the end and only
  unprotected frames make room for it; a refused one leaves the queue as it was. What is protected may
  depend on the owner of the queue but not on the frames offered.
\<close>

locale frame_queue =
  fixes queue :: "'q \<Rightarrow> 'f list" and offer :: "'f \<Rightarrow> 'q \<Rightarrow> 'q" and takes :: "'q \<Rightarrow> 'f \<Rightarrow> bool"
    and kept :: "'q \<Rightarrow> 'f \<Rightarrow> bool" and limit :: nat
  assumes offer_taken: "takes q f \<Longrightarrow> \<exists>rest. queue (offer f q) = rest @ [f] \<and> subseq rest (queue q)
      \<and> filter (kept q) rest = filter (kept q) (queue q)"
    and offer_view: "kept (offer f q) = kept q"
    and offer_refused: "\<not> takes q f \<Longrightarrow> queue (offer f q) = queue q"
    and offer_bounded: "length (queue q) \<le> limit \<Longrightarrow> length (queue (offer f q)) \<le> limit"
begin

lemma offer_subseq: "subseq (queue (offer f q)) (queue q @ [f])"
proof (cases "takes q f")
  case True
  then obtain rest where "queue (offer f q) = rest @ [f]" "subseq rest (queue q)"
    using offer_taken by blast
  then show ?thesis by (simp add: list_emb_append_mono)
qed (simp add: offer_refused list_emb_prefix)

lemma offer_kept:
  "filter (kept q) (queue (offer f q)) =
     filter (kept q) (queue q) @ (if takes q f \<and> kept q f then [f] else [])"
proof (cases "takes q f")
  case True
  then show ?thesis using offer_taken [OF True] by auto
qed (simp add: offer_refused)

lemma offer_set: "set (queue (offer f q)) \<subseteq> insert f (set (queue q))"
proof -
  have "set (queue (offer f q)) \<subseteq> set (queue q @ [f])"
    by (rule subseq_subset [OF offer_subseq])
  then show ?thesis by auto
qed

lemma offer_sorted:
  assumes "sorted_wrt R (queue q)" "\<And>g. g \<in> set (queue q) \<Longrightarrow> R g f"
  shows "sorted_wrt R (queue (offer f q))"
proof -
  have "sorted_wrt R (queue q @ [f])" using assms by (simp add: sorted_wrt_append)
  then show ?thesis using offer_subseq by (blast intro: subseq_sorted_wrt)
qed

lemma offers_bounded: "length (queue q) \<le> limit \<Longrightarrow> length (queue (fold offer fs q)) \<le> limit"
  by (induction fs arbitrary: q) (simp_all add: offer_bounded)

lemma offers_subseq: "subseq (queue (fold offer fs q)) (queue q @ fs)"
proof (induction fs arbitrary: q)
  case (Cons f fs)
  have "subseq (queue (offer f q) @ fs) ((queue q @ [f]) @ fs)"
    using offer_subseq by (blast intro: list_emb_append_mono subseq_order.refl)
  then show ?case using Cons [of "offer f q"] by (auto intro: subseq_order.trans)
qed simp

end

subsection \<open>One browser: \<open>BrowserClient\<close>\<close>

definition QUEUE_LIMIT :: nat where "QUEUE_LIMIT = 64"

text \<open>
  The state of a client. A frame carries its protection. \<open>bq_sent\<close> holds what was handed to the
  socket, \<open>bq_ended\<close> that the sender task is over and \<open>bq_closed\<close> that it closed the socket with
  code 1013.
\<close>

record browser_queue =
  bq_queue :: "(string \<times> bool) list"
  bq_overloaded :: bool
  bq_dropped :: nat
  bq_wakeup :: bool
  bq_sent :: "(string \<times> bool) list"
  bq_closed :: bool
  bq_ended :: bool

definition new_browser :: browser_queue where
  "new_browser = \<lparr> bq_queue = [], bq_overloaded = False, bq_dropped = 0, bq_wakeup = False,
     bq_sent = [], bq_closed = False, bq_ended = False \<rparr>"

definition evict_unprotected :: "browser_queue \<Rightarrow> browser_queue \<times> bool" where
  "evict_unprotected q =
     (case delete_first (\<lambda>f. \<not> snd f) (bq_queue q) of
        None \<Rightarrow> (q, False)
      | Some rest \<Rightarrow> (q\<lparr>bq_queue := rest, bq_dropped := Suc (bq_dropped q)\<rparr>, True))"

definition browser_offer :: "string \<times> bool \<Rightarrow> browser_queue \<Rightarrow> browser_queue" where
  "browser_offer f q =
     (if bq_overloaded q then q
      else if length (bq_queue q) < QUEUE_LIMIT
      then q\<lparr>bq_queue := bq_queue q @ [f], bq_wakeup := True\<rparr>
      else (case evict_unprotected q of
              (q1, True) \<Rightarrow> q1\<lparr>bq_queue := bq_queue q1 @ [f], bq_wakeup := True\<rparr>
            | (q1, False) \<Rightarrow> q1\<lparr>bq_overloaded := True, bq_wakeup := True\<rparr>))"

text \<open>
  One pass of \<open>sender\<close> up to the await that ends it: wait for work, close a condemned socket, or
  hand over the oldest frame. \<open>ok\<close> says whether the socket takes the frame; if not, the exception
  ends the task.
\<close>

definition sender_pass :: "bool \<Rightarrow> browser_queue \<Rightarrow> browser_queue" where
  "sender_pass ok q =
     (if bq_ended q then q
      else if bq_overloaded q then q\<lparr>bq_closed := True, bq_ended := True\<rparr>
      else case bq_queue q of
        [] \<Rightarrow> q\<lparr>bq_wakeup := False\<rparr>
      | f # fs \<Rightarrow> if ok then q\<lparr>bq_queue := fs, bq_sent := bq_sent q @ [f]\<rparr>
                 else q\<lparr>bq_queue := fs, bq_ended := True\<rparr>)"

datatype browser_op = Offer "string \<times> bool" | Sender bool

fun browser_step :: "browser_op \<Rightarrow> browser_queue \<Rightarrow> browser_queue" where
  "browser_step (Offer f) = browser_offer f"
| "browser_step (Sender ok) = sender_pass ok"

text \<open>The frames offered in a run, in order.\<close>

fun offered :: "browser_op list \<Rightarrow> (string \<times> bool) list" where
  "offered [] = []"
| "offered (Offer f # ops) = f # offered ops"
| "offered (Sender ok # ops) = offered ops"

lemma offered_append [simp]: "offered (ops @ ops') = offered ops @ offered ops'"
  by (induction ops rule: offered.induct) auto

definition browser_takes :: "browser_queue \<Rightarrow> string \<times> bool \<Rightarrow> bool" where
  "browser_takes q f \<longleftrightarrow>
     \<not> bq_overloaded q \<and> (length (bq_queue q) < QUEUE_LIMIT \<or> (\<exists>g\<in>set (bq_queue q). \<not> snd g))"

text \<open>The three ends of an offer.\<close>

lemma browser_offer_cases:
  obtains (condemned) "bq_overloaded q" "browser_offer f q = q" "\<not> browser_takes q f"
  | (room) "\<not> bq_overloaded q" "length (bq_queue q) < QUEUE_LIMIT" "browser_takes q f"
      "browser_offer f q = q\<lparr>bq_queue := bq_queue q @ [f], bq_wakeup := True\<rparr>"
  | (evicted) rest where "\<not> bq_overloaded q" "QUEUE_LIMIT \<le> length (bq_queue q)" "browser_takes q f"
      "delete_first (\<lambda>f. \<not> snd f) (bq_queue q) = Some rest"
      "browser_offer f q = q\<lparr>bq_queue := rest @ [f], bq_dropped := Suc (bq_dropped q), bq_wakeup := True\<rparr>"
  | (saturated) "\<not> bq_overloaded q" "QUEUE_LIMIT \<le> length (bq_queue q)" "\<forall>g\<in>set (bq_queue q). snd g"
      "\<not> browser_takes q f" "browser_offer f q = q\<lparr>bq_overloaded := True, bq_wakeup := True\<rparr>"
proof (cases "bq_overloaded q \<or> length (bq_queue q) < QUEUE_LIMIT")
  case True
  then show ?thesis
    using condemned room by (auto simp: browser_offer_def browser_takes_def)
next
  case False
  show ?thesis
  proof (cases "delete_first (\<lambda>f. \<not> snd f) (bq_queue q)")
    case None
    then have "\<forall>g\<in>set (bq_queue q). snd g" by (simp add: delete_first_None)
    then show ?thesis
      using False None by (intro saturated) (auto simp: browser_offer_def evict_unprotected_def browser_takes_def)
  next
    case (Some rest)
    then have "\<exists>g\<in>set (bq_queue q). \<not> snd g"
      using delete_first_None [of "\<lambda>f. \<not> snd f" "bq_queue q"] by auto
    then show ?thesis
      using False Some by (intro evicted) (auto simp: browser_offer_def evict_unprotected_def browser_takes_def)
  qed
qed

interpretation browser: frame_queue bq_queue browser_offer browser_takes "\<lambda>q. snd" QUEUE_LIMIT
proof
  fix q :: browser_queue and f
  show "\<exists>rest. bq_queue (browser_offer f q) = rest @ [f] \<and> subseq rest (bq_queue q)
      \<and> filter snd rest = filter snd (bq_queue q)" if "browser_takes q f"
    using that by (cases q f rule: browser_offer_cases) (auto dest!: delete_first_SomeD)
  show "(snd :: string \<times> bool \<Rightarrow> bool) = snd" ..
  show "bq_queue (browser_offer f q) = bq_queue q" if "\<not> browser_takes q f"
    using that by (cases q f rule: browser_offer_cases) auto
  show "length (bq_queue (browser_offer f q)) \<le> QUEUE_LIMIT" if "length (bq_queue q) \<le> QUEUE_LIMIT"
    using that by (cases q f rule: browser_offer_cases) (auto dest!: delete_first_SomeD)
qed

text \<open>
  What holds between a client and the frames \<open>os\<close> offered to it so far.
\<close>

definition browser_inv :: "(string \<times> bool) list \<Rightarrow> browser_queue \<Rightarrow> bool" where
  "browser_inv os q \<longleftrightarrow>
     length (bq_queue q) \<le> QUEUE_LIMIT
     \<and> subseq (bq_sent q @ bq_queue q) os
     \<and> prefix (filter snd (bq_sent q)) (filter snd os)
     \<and> (\<not> bq_overloaded q \<and> \<not> bq_ended q \<longrightarrow> filter snd os = filter snd (bq_sent q @ bq_queue q)
          \<and> length os = length (bq_sent q) + length (bq_queue q) + bq_dropped q)
     \<and> (bq_overloaded q \<longrightarrow> length (bq_queue q) = QUEUE_LIMIT \<and> (\<forall>f\<in>set (bq_queue q). snd f))
     \<and> (bq_closed q \<longrightarrow> bq_overloaded q \<and> bq_ended q)"

lemma new_browser_inv: "browser_inv [] new_browser"
  by (simp add: browser_inv_def new_browser_def)

lemma sender_pass_inv: "browser_inv os q \<Longrightarrow> browser_inv os (sender_pass ok q)"
  by (auto simp: browser_inv_def sender_pass_def prefix_def split: list.splits
      intro: subseq_order.trans [OF list_emb_append_mono [OF subseq_order.refl list_emb_Cons [OF subseq_order.refl]]])

lemma browser_offer_inv:
  assumes "browser_inv os q"
  shows "browser_inv (os @ [f]) (browser_offer f q)"
proof (cases q f rule: browser_offer_cases)
  case condemned
  then show ?thesis using assms by (auto simp: browser_inv_def prefix_def)
next
  case room
  then show ?thesis
    using assms list_emb_append_mono [of "(=)" "bq_sent q @ bq_queue q" os "[f]" "[f]"]
    by (auto simp: browser_inv_def prefix_def)
next
  case (evicted rest)
  from delete_first_SomeD [OF evicted(4)] have rest: "subseq rest (bq_queue q)"
      "Suc (length rest) = length (bq_queue q)" "filter snd rest = filter snd (bq_queue q)" by auto
  have "subseq (bq_sent q @ rest) (bq_sent q @ bq_queue q)"
    using rest(1) by (simp add: list_emb_append_mono)
  then have "subseq (bq_sent q @ rest) os"
    using assms by (auto simp: browser_inv_def intro: subseq_order.trans)
  then have "subseq ((bq_sent q @ rest) @ [f]) (os @ [f])" by (intro list_emb_append_mono) auto
  then show ?thesis using assms evicted rest by (auto simp: browser_inv_def prefix_def)
next
  case saturated
  then show ?thesis using assms by (auto simp: browser_inv_def prefix_def)
qed

lemma browser_run_inv: "browser_inv os q \<Longrightarrow> browser_inv (os @ offered ops) (fold browser_step ops q)"
proof (induction ops arbitrary: os q)
  case (Cons op ops)
  then show ?case
  proof (cases op)
    case (Offer f)
    then show ?thesis using Cons.IH [OF browser_offer_inv [OF Cons.prems, of f]] by simp
  next
    case (Sender ok)
    then show ?thesis using Cons.IH [OF sender_pass_inv [OF Cons.prems]] by simp
  qed
qed simp

text \<open>A condemned client stays condemned, takes no frame and hands out none.\<close>

lemma overloaded_final:
  "bq_overloaded q \<Longrightarrow> bq_overloaded (fold browser_step ops q) \<and> bq_sent (fold browser_step ops q) = bq_sent q
     \<and> bq_queue (fold browser_step ops q) = bq_queue q"
proof (induction ops arbitrary: q)
  case (Cons op ops)
  then show ?case
    using Cons.IH [of "browser_step op q"]
    by (cases op) (auto simp: browser_offer_def sender_pass_def)
qed simp

text \<open>A client that is not condemned hands out its backlog in order, one frame per pass.\<close>

lemma sender_drains:
  "\<not> bq_overloaded q \<Longrightarrow> \<not> bq_ended q \<Longrightarrow> n \<le> length (bq_queue q) \<Longrightarrow>
     bq_sent ((sender_pass True ^^ n) q) = bq_sent q @ take n (bq_queue q)"
proof (induction n arbitrary: q)
  case (Suc n)
  then obtain f fs where q: "bq_queue q = f # fs" by (cases "bq_queue q") auto
  let ?q = "q\<lparr>bq_queue := fs, bq_sent := bq_sent q @ [f]\<rparr>"
  have "sender_pass True q = ?q" using Suc.prems q by (simp add: sender_pass_def)
  then have "(sender_pass True ^^ Suc n) q = (sender_pass True ^^ n) ?q"
    by (simp only: funpow_Suc_right o_apply)
  then show ?case using Suc.IH [of ?q] Suc.prems q by simp
qed simp

definition browser_after :: "browser_op list \<Rightarrow> browser_queue" where
  "browser_after ops = fold browser_step ops new_browser"

lemma browser_after_inv: "browser_inv (offered ops) (browser_after ops)"
  using browser_run_inv [OF new_browser_inv, of ops] by (simp add: browser_after_def)

text \<open>
  C25. A browser is never shown a picture with a hole in it. Whatever is offered and however often
  its sender runs, at most 64 frames wait, frames keep their order, and the protected frames handed
  to the socket are a prefix of the protected frames offered: none is skipped. While the client is
  neither condemned nor disconnected every protected frame is sent or waiting and the passes of the
  sender hand out the whole backlog; a client is condemned only with 64 protected frames waiting,
  takes and sends nothing from then on, and the next pass of its sender closes the socket.
\<close>

theorem browser_picture_has_no_gaps:
  "length (bq_queue (browser_after ops)) \<le> 64
   \<and> subseq (bq_sent (browser_after ops) @ bq_queue (browser_after ops)) (offered ops)
   \<and> prefix (filter snd (bq_sent (browser_after ops))) (filter snd (offered ops))
   \<and> (if bq_overloaded (browser_after ops)
      then length (bq_queue (browser_after ops)) = 64 \<and> list_all snd (bq_queue (browser_after ops))
         \<and> bq_sent (browser_after (ops @ later)) = bq_sent (browser_after ops)
         \<and> (bq_ended (browser_after ops) \<or> bq_closed (browser_after (ops @ [Sender ok])))
      else bq_ended (browser_after ops)
         \<or> filter snd (bq_sent (browser_after ops) @ bq_queue (browser_after ops)) = filter snd (offered ops)
           \<and> bq_sent (browser_after (ops @ replicate (length (bq_queue (browser_after ops))) (Sender True)))
              = bq_sent (browser_after ops) @ bq_queue (browser_after ops))"
proof -
  let ?q = "browser_after ops"
  have inv: "browser_inv (offered ops) ?q" by (rule browser_after_inv)
  have app: "browser_after (ops @ more) = fold browser_step more ?q" for more
    by (simp add: browser_after_def)
  have rep: "fold browser_step (replicate n (Sender True)) q = (sender_pass True ^^ n) q" for n q
    by (induction n arbitrary: q) (simp_all add: funpow_swap1)
  have closes: "bq_overloaded ?q \<Longrightarrow> bq_ended ?q \<or> bq_closed (browser_after (ops @ [Sender ok]))"
    by (simp add: app sender_pass_def)
  have drains: "\<not> bq_overloaded ?q \<Longrightarrow> \<not> bq_ended ?q \<Longrightarrow>
      bq_sent (browser_after (ops @ replicate (length (bq_queue ?q)) (Sender True))) = bq_sent ?q @ bq_queue ?q"
    using sender_drains [of ?q "length (bq_queue ?q)"] by (simp add: app rep)
  show ?thesis
    using inv closes drains overloaded_final [of ?q later]
    by (auto simp: browser_inv_def QUEUE_LIMIT_def list_all_iff app)
qed

text \<open>Sixty-five protected frames and a stalled socket: the client is condemned.\<close>

lemma saturated_browser:
  "bq_overloaded (browser_after (replicate 65 (Offer (''command.result'', True))))"
  by code_simp

theorem browser_picture_has_no_gaps_witness:
  "bq_overloaded (browser_after (replicate 65 (Offer (''command.result'', True))))
   \<and> bq_sent (browser_after (replicate 65 (Offer (''command.result'', True)) @ [Sender True])) = []"
proof -
  have "bq_sent (browser_after (replicate 65 (Offer (''command.result'', True)))) = []" by code_simp
  then show ?thesis
    using browser_picture_has_no_gaps [of "replicate 65 (Offer (''command.result'', True))" "[Sender True]" True]
      saturated_browser by simp
qed

subsection \<open>The robot's end: \<open>WsClient\<close>\<close>

text \<open>
  A frame is its sequence number, its type and its data. The queue looks at the text of a frame only
  by asking whether a quoted message type occurs in it, so data is the list of the strings (keys and
  values) of its JSON text, next to the capabilities a hello carries. \<open>utc_now\<close> never yields such a
  string and is left out.
\<close>

datatype frame_data = Hello_data "string list" int | Strings "string list"

record ws_frame =
  wf_sequence :: nat
  wf_type :: string
  wf_data :: frame_data

definition WS_QUEUE_LIMIT :: nat where "WS_QUEUE_LIMIT = 256"
definition WS_PROTECTED :: "string list" where
  "WS_PROTECTED = [''robot.hello'', ''telemetry.map'', ''tuning.response'']"
definition BASE_CAPABILITIES :: "string list" where
  "BASE_CAPABILITIES = [''pose'', ''lidar'', ''path'', ''battery'', ''base_state'',
     ''diagnostics'', ''resources'', ''map'']"

text \<open>
  The client. \<open>wc_wire\<close> is what was written to the socket that is open now, \<open>wc_dialled\<close> that such
  a socket exists and \<open>wc_connected\<close> that its hello was answered; the counters are \<open>stats\<close>.
\<close>

record ws_client =
  wc_robot_id :: string
  wc_generation :: nat
  wc_sequence :: nat
  wc_map_version :: int
  wc_dock_capabilities :: "string list"
  wc_dirty :: bool
  wc_dialled :: bool
  wc_connected :: bool
  wc_queue :: "ws_frame list"
  wc_wire :: "ws_frame list"
  wc_sent :: nat
  wc_dropped :: nat

definition new_ws :: "string \<Rightarrow> ws_client" where
  "new_ws robot = \<lparr> wc_robot_id = robot, wc_generation = 0, wc_sequence = 0, wc_map_version = 0,
     wc_dock_capabilities = [], wc_dirty = False, wc_dialled = False, wc_connected = False,
     wc_queue = [], wc_wire = [], wc_sent = 0, wc_dropped = 0 \<rparr>"

definition frame_strings :: "ws_client \<Rightarrow> ws_frame \<Rightarrow> string list" where
  "frame_strings c f = wf_type f # wc_robot_id c
     # (case wf_data f of Hello_data caps v \<Rightarrow> caps | Strings ss \<Rightarrow> ss)"

text \<open>\<open>any(marker in queued for marker in _PROTECTED_MARKERS)\<close>, and the test that empties the queue of a lost connection.\<close>

definition marked :: "string list \<Rightarrow> ws_client \<Rightarrow> ws_frame \<Rightarrow> bool" where
  "marked types c f = list_ex (\<lambda>t. t \<in> set (frame_strings c f)) types"

definition transient :: "ws_client \<Rightarrow> ws_frame \<Rightarrow> bool" where
  "transient c f = marked [''tuning.response'', ''telemetry.motion''] c f"

definition capabilities :: "ws_client \<Rightarrow> string list" where
  "capabilities c = BASE_CAPABILITIES @ wc_dock_capabilities c"

text \<open>\<open>send\<close>: the test of the connection, and the part under the lock.\<close>

definition send_allowed :: "string \<Rightarrow> ws_client \<Rightarrow> bool" where
  "send_allowed t c \<longleftrightarrow> t \<notin> {''tuning.response'', ''telemetry.motion''} \<or> wc_connected c"

definition enqueue :: "ws_frame \<Rightarrow> ws_client \<Rightarrow> ws_client" where
  "enqueue f c =
     (if length (wc_queue c) < WS_QUEUE_LIMIT then c\<lparr>wc_queue := wc_queue c @ [f]\<rparr>
      else case delete_first (\<lambda>g. \<not> marked WS_PROTECTED c g) (wc_queue c) of
          None \<Rightarrow> c\<lparr>wc_dropped := Suc (wc_dropped c)\<rparr>
        | Some rest \<Rightarrow> c\<lparr>wc_queue := rest @ [f], wc_dropped := Suc (wc_dropped c)\<rparr>)"

definition send_locked :: "string \<Rightarrow> frame_data \<Rightarrow> ws_client \<Rightarrow> ws_client" where
  "send_locked t data c =
     (let n = Suc (wc_sequence c)
      in enqueue \<lparr>wf_sequence = n, wf_type = t, wf_data = data\<rparr> (c\<lparr>wc_sequence := n\<rparr>))"

definition ws_send :: "string \<Rightarrow> frame_data \<Rightarrow> ws_client \<Rightarrow> ws_client" where
  "ws_send t data c = (if send_allowed t c then send_locked t data c else c)"

definition set_dock_capabilities :: "string list \<Rightarrow> ws_client \<Rightarrow> ws_client" where
  "set_dock_capabilities caps c =
     (let c1 = (if caps \<noteq> wc_dock_capabilities c
                then c\<lparr>wc_dock_capabilities := caps, wc_dirty := True\<rparr> else c)
      in if \<not> wc_dirty c1 \<or> \<not> wc_connected c1 then c1
         else (ws_send ''robot.hello'' (Hello_data (capabilities c1) (wc_map_version c1)) c1)\<lparr>wc_dirty := False\<rparr>)"

text \<open>
  \<open>_session\<close>, in the steps between which other threads run: dial and write the hello, take the
  server's answer, write the oldest queued frame, and the \<open>finally\<close> block. A dial that fails before
  the answer leaves through \<open>Refused\<close>, without that block.
\<close>

definition dial :: "ws_client \<Rightarrow> ws_client" where
  "dial c = c\<lparr>wc_generation := Suc (wc_generation c), wc_dialled := True,
     wc_wire := [\<lparr>wf_sequence = 0, wf_type = ''robot.hello'',
       wf_data = Hello_data (capabilities c) (wc_map_version c)\<rparr>]\<rparr>"

definition accepted :: "ws_client \<Rightarrow> ws_client" where
  "accepted c = c\<lparr>wc_dirty := False, wc_connected := True\<rparr>"

definition dial_refused :: "ws_client \<Rightarrow> ws_client" where
  "dial_refused c = c\<lparr>wc_connected := False, wc_dialled := False, wc_wire := []\<rparr>"

definition pump :: "ws_client \<Rightarrow> ws_client" where
  "pump c = (case wc_queue c of [] \<Rightarrow> c
     | f # fs \<Rightarrow> c\<lparr>wc_queue := fs, wc_wire := wc_wire c @ [f], wc_sent := Suc (wc_sent c)\<rparr>)"

definition lost :: "ws_client \<Rightarrow> ws_client" where
  "lost c = c\<lparr>wc_connected := False, wc_dialled := False, wc_wire := [],
     wc_queue := filter (\<lambda>f. \<not> transient c f) (wc_queue c), wc_generation := Suc (wc_generation c)\<rparr>"

datatype ws_op = Send string frame_data | Set_dock "string list" | Set_map int
  | Dial | Accepted | Refused_dial | Pump | Lost

definition ws_step :: "ws_op \<Rightarrow> ws_client \<Rightarrow> ws_client" where
  "ws_step op c =
     (case op of
        Send t data \<Rightarrow> ws_send t data c
      | Set_dock caps \<Rightarrow> set_dock_capabilities caps c
      | Set_map v \<Rightarrow> c\<lparr>wc_map_version := v\<rparr>
      | Dial \<Rightarrow> if wc_dialled c then c else dial c
      | Accepted \<Rightarrow> if wc_dialled c \<and> \<not> wc_connected c then accepted c else c
      | Refused_dial \<Rightarrow> if wc_dialled c \<and> \<not> wc_connected c then dial_refused c else c
      | Pump \<Rightarrow> if wc_connected c then pump c else c
      | Lost \<Rightarrow> if wc_connected c then lost c else c)"

definition ws_after :: "string \<Rightarrow> ws_op list \<Rightarrow> ws_client" where
  "ws_after robot ops = fold ws_step ops (new_ws robot)"

subsection \<open>Lemmas on the client\<close>

lemma enqueue_simps [simp]:
  "wc_robot_id (enqueue f c) = wc_robot_id c" "wc_sequence (enqueue f c) = wc_sequence c"
  "wc_connected (enqueue f c) = wc_connected c" "wc_dialled (enqueue f c) = wc_dialled c"
  "wc_wire (enqueue f c) = wc_wire c" "wc_dirty (enqueue f c) = wc_dirty c"
  "wc_generation (enqueue f c) = wc_generation c"
  "wc_dock_capabilities (enqueue f c) = wc_dock_capabilities c"
  by (simp_all add: enqueue_def split: option.split)

definition ws_takes :: "ws_client \<Rightarrow> ws_frame \<Rightarrow> bool" where
  "ws_takes c f \<longleftrightarrow>
     length (wc_queue c) < WS_QUEUE_LIMIT \<or> (\<exists>g\<in>set (wc_queue c). \<not> marked WS_PROTECTED c g)"

lemma enqueue_cases:
  obtains (room) "length (wc_queue c) < WS_QUEUE_LIMIT" "wc_queue (enqueue f c) = wc_queue c @ [f]" "ws_takes c f"
  | (evicted) rest where "WS_QUEUE_LIMIT \<le> length (wc_queue c)" "ws_takes c f"
      "delete_first (\<lambda>g. \<not> marked WS_PROTECTED c g) (wc_queue c) = Some rest"
      "wc_queue (enqueue f c) = rest @ [f]"
  | (full) "WS_QUEUE_LIMIT \<le> length (wc_queue c)" "\<not> ws_takes c f" "wc_queue (enqueue f c) = wc_queue c"
proof (cases "length (wc_queue c) < WS_QUEUE_LIMIT")
  case True
  then show ?thesis by (intro room) (auto simp: enqueue_def ws_takes_def)
next
  case False
  show ?thesis
  proof (cases "delete_first (\<lambda>g. \<not> marked WS_PROTECTED c g) (wc_queue c)")
    case None
    then show ?thesis
      using False delete_first_None [of "\<lambda>g. \<not> marked WS_PROTECTED c g" "wc_queue c"]
      by (intro full) (auto simp: enqueue_def ws_takes_def)
  next
    case (Some rest)
    then show ?thesis
      using False delete_first_None [of "\<lambda>g. \<not> marked WS_PROTECTED c g" "wc_queue c"]
      by (intro evicted) (auto simp: enqueue_def ws_takes_def)
  qed
qed

interpretation ws: frame_queue wc_queue enqueue ws_takes "marked WS_PROTECTED" WS_QUEUE_LIMIT
proof
  fix c :: ws_client and f
  show "\<exists>rest. wc_queue (enqueue f c) = rest @ [f] \<and> subseq rest (wc_queue c)
      \<and> filter (marked WS_PROTECTED c) rest = filter (marked WS_PROTECTED c) (wc_queue c)" if "ws_takes c f"
    using that by (cases c f rule: enqueue_cases) (auto dest!: delete_first_SomeD)
  show "marked WS_PROTECTED (enqueue f c) = marked WS_PROTECTED c"
    by (simp add: fun_eq_iff marked_def frame_strings_def)
  show "wc_queue (enqueue f c) = wc_queue c" if "\<not> ws_takes c f"
    using that by (cases c f rule: enqueue_cases) auto
  show "length (wc_queue (enqueue f c)) \<le> WS_QUEUE_LIMIT" if "length (wc_queue c) \<le> WS_QUEUE_LIMIT"
    using that by (cases c f rule: enqueue_cases) (auto dest!: delete_first_SomeD)
qed

text \<open>Measurements and remote-call results, by their type; their own marker is always in their text.\<close>

definition volatile :: "ws_frame \<Rightarrow> bool" where
  "volatile f \<longleftrightarrow> wf_type f \<in> {''tuning.response'', ''telemetry.motion''}"

lemma volatile_transient: "volatile f \<Longrightarrow> transient c f"
  by (auto simp: volatile_def transient_def marked_def frame_strings_def)

definition hello_frame :: "ws_frame \<Rightarrow> bool" where
  "hello_frame f \<longleftrightarrow> wf_type f = ''robot.hello'' \<and> wf_sequence f = 0"

definition ws_inv :: "ws_client \<Rightarrow> bool" where
  "ws_inv c \<longleftrightarrow>
     length (wc_queue c) \<le> WS_QUEUE_LIMIT
     \<and> sorted_wrt (\<lambda>f g. wf_sequence f < wf_sequence g) (wc_wire c @ wc_queue c)
     \<and> (\<forall>f\<in>set (wc_queue c). 0 < wf_sequence f \<and> wf_sequence f \<le> wc_sequence c)
     \<and> (\<forall>f\<in>set (wc_wire c). wf_sequence f \<le> wc_sequence c)
     \<and> (wc_connected c \<longrightarrow> wc_dialled c)
     \<and> (wc_dialled c \<longleftrightarrow> wc_wire c \<noteq> []) \<and> (wc_wire c \<noteq> [] \<longrightarrow> hello_frame (hd (wc_wire c)))
     \<and> (\<not> wc_connected c \<longrightarrow> (\<forall>f\<in>set (wc_queue c). \<not> volatile f) \<and> length (wc_wire c) \<le> 1)"

lemma new_ws_inv: "ws_inv (new_ws robot)"
  by (simp add: ws_inv_def new_ws_def)

lemma send_locked_inv:
  assumes "ws_inv c" "volatile f \<longrightarrow> wc_connected c" "f = \<lparr>wf_sequence = Suc (wc_sequence c), wf_type = t, wf_data = d\<rparr>"
  shows "ws_inv (enqueue f (c\<lparr>wc_sequence := Suc (wc_sequence c)\<rparr>))"
proof -
  let ?c = "c\<lparr>wc_sequence := Suc (wc_sequence c)\<rparr>"
  have seq: "wf_sequence f = Suc (wc_sequence c)" using assms(3) by simp
  have len: "length (wc_queue (enqueue f ?c)) \<le> WS_QUEUE_LIMIT"
    using ws.offer_bounded [of ?c f] assms(1) by (simp add: ws_inv_def)
  have elems: "set (wc_queue (enqueue f ?c)) \<subseteq> insert f (set (wc_queue c))"
    using ws.offer_set [of f ?c] by simp
  have srt: "sorted_wrt (\<lambda>f g. wf_sequence f < wf_sequence g) (wc_queue (enqueue f ?c))"
    using assms(1) seq by (intro ws.offer_sorted) (auto simp: ws_inv_def sorted_wrt_append less_Suc_eq_le)
  have cross: "\<forall>x\<in>set (wc_wire c). \<forall>y\<in>set (wc_queue (enqueue f ?c)). wf_sequence x < wf_sequence y"
    using assms(1) seq elems by (fastforce simp: ws_inv_def sorted_wrt_append less_Suc_eq_le)
  show ?thesis
    using assms(1,2) len elems srt cross seq
    unfolding ws_inv_def by (auto simp: sorted_wrt_append le_Suc_eq)
qed

lemma ws_send_inv: "ws_inv c \<Longrightarrow> ws_inv (ws_send t d c)"
  by (auto simp: ws_send_def send_locked_def Let_def send_allowed_def volatile_def
      intro!: send_locked_inv [OF _ _ refl])

lemma ws_inv_idle:
  "ws_inv (c\<lparr>wc_dirty := b\<rparr>) = ws_inv c" "ws_inv (c\<lparr>wc_dock_capabilities := caps\<rparr>) = ws_inv c"
  "ws_inv (c\<lparr>wc_map_version := v\<rparr>) = ws_inv c"
  by (simp_all add: ws_inv_def volatile_def)

lemma set_dock_inv: "ws_inv c \<Longrightarrow> ws_inv (set_dock_capabilities caps c)"
  by (simp add: set_dock_capabilities_def Let_def ws_inv_idle ws_send_inv)

lemma pump_inv: "ws_inv c \<Longrightarrow> wc_connected c \<Longrightarrow> ws_inv (pump c)"
  by (auto simp: pump_def ws_inv_def split: list.split)

lemma lost_inv: "ws_inv c \<Longrightarrow> ws_inv (lost c)"
  using length_filter_le [of "\<lambda>f. \<not> transient c f" "wc_queue c"]
  by (auto simp: lost_def ws_inv_def sorted_wrt_filter volatile_transient sorted_wrt_append
      simp del: length_filter_le)

lemma ws_step_inv: "ws_inv c \<Longrightarrow> ws_inv (ws_step op c)"
  by (cases op)
    (auto simp: ws_step_def ws_send_inv set_dock_inv ws_inv_idle pump_inv lost_inv,
     auto simp: ws_inv_def dial_def accepted_def dial_refused_def hello_frame_def sorted_wrt_append)

lemma ws_after_inv: "ws_inv (ws_after robot ops)"
proof -
  have "ws_inv c \<Longrightarrow> ws_inv (fold ws_step ops c)" for c
    by (induction ops arbitrary: c) (simp_all add: ws_step_inv)
  then show ?thesis by (simp add: ws_after_def new_ws_inv)
qed

text \<open>The measurements and results still to be sent, or sent on this socket, are newer than \<open>n\<close>.\<close>

definition newer :: "nat \<Rightarrow> ws_client \<Rightarrow> bool" where
  "newer n c \<longleftrightarrow> n \<le> wc_sequence c
     \<and> (\<forall>f\<in>set (wc_queue c) \<union> set (wc_wire c). volatile f \<longrightarrow> n < wf_sequence f)"

lemma enqueue_newer:
  "newer n c \<Longrightarrow> newer n (enqueue \<lparr>wf_sequence = Suc (wc_sequence c), wf_type = t, wf_data = d\<rparr>
      (c\<lparr>wc_sequence := Suc (wc_sequence c)\<rparr>))"
  using ws.offer_set [of "\<lparr>wf_sequence = Suc (wc_sequence c), wf_type = t, wf_data = d\<rparr>"
      "c\<lparr>wc_sequence := Suc (wc_sequence c)\<rparr>"]
  by (auto simp: newer_def)

lemma ws_send_newer: "newer n c \<Longrightarrow> newer n (ws_send t d c)"
  by (simp add: ws_send_def send_locked_def Let_def enqueue_newer)

lemma newer_idle:
  "newer n (c\<lparr>wc_dirty := b\<rparr>) = newer n c" "newer n (c\<lparr>wc_dock_capabilities := caps\<rparr>) = newer n c"
  "newer n (c\<lparr>wc_map_version := v\<rparr>) = newer n c"
  by (simp_all add: newer_def)

lemma ws_step_newer: "newer n c \<Longrightarrow> newer n (ws_step op c)"
  by (cases op)
    (auto simp: ws_step_def ws_send_newer set_dock_capabilities_def Let_def newer_idle,
     auto simp: newer_def dial_def accepted_def dial_refused_def pump_def lost_def volatile_def split: list.splits)

lemma ws_run_newer: "newer n c \<Longrightarrow> newer n (fold ws_step ops c)"
  by (induction ops arbitrary: c) (simp_all add: ws_step_newer)

lemma lost_newer: "ws_inv c \<Longrightarrow> newer (wc_sequence c) (ws_step Lost c)"
proof (cases "wc_connected c")
  case True
  then show ?thesis by (auto simp: ws_step_def lost_def newer_def volatile_transient)
next
  case False
  assume "ws_inv c"
  then have "\<forall>f\<in>set (wc_wire c). hello_frame f" "\<forall>f\<in>set (wc_queue c). \<not> volatile f"
    using False by (cases "wc_wire c"; auto simp: ws_inv_def)+
  then show ?thesis using False by (auto simp: ws_step_def newer_def hello_frame_def volatile_def)
qed

text \<open>
  A measurement or a remote-call result is never replayed on a new connection. Over every run of
  the client (sends, capability changes, dials, answers, losses) the queue holds at most 256 frames;
  what was written to the open socket and what waits for it have strictly increasing sequence
  numbers, starting with the hello at 0; without an answered hello nothing but that hello was
  written and no measurement or result waits; and after a connection is lost every measurement or
  result that is queued or written at any later time was built after the loss.
\<close>

theorem measurements_never_replayed:
  "length (wc_queue (ws_after robot ops)) \<le> 256
   \<and> sorted_wrt (\<lambda>f g. wf_sequence f < wf_sequence g) (wc_wire (ws_after robot ops) @ wc_queue (ws_after robot ops))
   \<and> (wc_connected (ws_after robot ops)
      \<or> list_all (\<lambda>f. \<not> volatile f) (wc_queue (ws_after robot ops)) \<and> length (wc_wire (ws_after robot ops)) \<le> 1)
   \<and> list_all (\<lambda>f. volatile f \<longrightarrow> wc_sequence (ws_after robot ops) < wf_sequence f)
       (wc_wire (ws_after robot (ops @ Lost # later)) @ wc_queue (ws_after robot (ops @ Lost # later)))"
proof -
  have "newer (wc_sequence (ws_after robot ops)) (ws_after robot (ops @ Lost # later))"
    using ws_run_newer [OF lost_newer [OF ws_after_inv [of robot ops]]] by (simp add: ws_after_def)
  then show ?thesis
    using ws_after_inv [of robot ops]
    by (auto simp: ws_inv_def newer_def WS_QUEUE_LIMIT_def list_all_iff)
qed

text \<open>
  A run with a measurement caught by a lost connection: it is not sent on the next socket, the
  measurement built there is.
\<close>

definition reconnect_run :: "ws_op list" where
  "reconnect_run = [Dial, Accepted, Send ''telemetry.motion'' (Strings [])]"

theorem measurements_never_replayed_witness:
  "list_all (\<lambda>f. volatile f \<longrightarrow> 1 < wf_sequence f)
     (wc_wire (ws_after ''pb'' (reconnect_run @ Lost # reconnect_run @ [Pump])))
   \<and> map wf_sequence (wc_wire (ws_after ''pb'' (reconnect_run @ Lost # reconnect_run @ [Pump]))) = [0, 2]"
proof -
  have "wc_sequence (ws_after ''pb'' reconnect_run) = 1"
    "map wf_sequence (wc_wire (ws_after ''pb'' (reconnect_run @ Lost # reconnect_run @ [Pump]))) = [0, 2]"
    by code_simp+
  then show ?thesis
    using measurements_never_replayed [of "''pb''" reconnect_run "reconnect_run @ [Pump]"] by simp
qed

text \<open>
  The test of \<open>send\<close> stands outside the lock. A sender that passed it and reaches the lock after the
  connection was lost leaves its measurement for the next socket.
\<close>

lemma late_sender_replays:
  "send_allowed ''telemetry.motion'' (ws_after ''pb'' [Dial, Accepted])
   \<and> map wf_type (wc_wire (fold ws_step [Dial, Accepted, Pump]
       (send_locked ''telemetry.motion'' (Strings []) (ws_after ''pb'' [Dial, Accepted, Lost]))))
     = [''robot.hello'', ''telemetry.motion'']"
  by code_simp

text \<open>
  Capability changes that are never announced. A change between the hello and its answer is marked
  as announced by the answer; repeating the call does not send it. A hello queued on a lost
  connection is sent after the newer hello of the next one.
\<close>

lemma handshake_loses_capabilities:
  "(let c = ws_after ''pb'' [Dial, Set_dock [''dock''], Accepted, Set_dock [''dock''], Pump]
    in (wc_dock_capabilities c, wc_dirty c, wc_queue c, map wf_data (wc_wire c)))
   = ([''dock''], False, [], [Hello_data BASE_CAPABILITIES 0])"
  by code_simp

lemma stale_hello_overtakes:
  "(let c = ws_after ''pb'' [Dial, Accepted, Set_dock [''dock''], Lost, Set_dock [], Dial, Accepted, Pump]
    in (wc_dock_capabilities c, wc_dirty c, wc_queue c, map wf_data (wc_wire c)))
   = ([], False, [], [Hello_data BASE_CAPABILITIES 0, Hello_data (BASE_CAPABILITIES @ [''dock'']) 0])"
  by code_simp

subsection \<open>Reconnecting\<close>

text \<open>
  The delay after the failure that \<open>retry\<close> earlier ones preceded; \<open>r\<close> is \<open>random.random()\<close>. The
  power is a Python integer that \<open>0.5 *\<close> converts to a float: \<open>None\<close> is the \<open>OverflowError\<close> this
  raises. \<open>retry\<close> starts over only when \<open>_session\<close> returns, which it does only on a stop.
\<close>

definition reconnect_delay :: "nat \<Rightarrow> rat \<Rightarrow> rat option" where
  "reconnect_delay retry r =
     (if float_of_int (2 ^ retry) = None then None
      else Some (min 8 (1/2 * 2 ^ retry) * (1 + r * (3/10))))"

fun reconnects :: "nat \<Rightarrow> (bool \<times> rat) list \<Rightarrow> rat option list" where
  "reconnects retry [] = []"
| "reconnects retry ((returned, r) # sessions) =
     (if returned then reconnects 0 sessions
      else case reconnect_delay retry r of
          None \<Rightarrow> [None]
        | Some d \<Rightarrow> Some d # reconnects (Suc retry) sessions)"

lemma reconnect_delay_bounds:
  assumes "0 \<le> r" "r < 1" "reconnect_delay retry r = Some d"
  shows "1/2 \<le> d \<and> d < 52/5"
proof -
  let ?b = "min 8 (1/2 * 2 ^ retry) :: rat" and ?f = "1 + r * (3/10)"
  have d: "d = ?b * ?f" using assms(3) by (simp add: reconnect_delay_def split: if_splits)
  have b: "1/2 \<le> ?b" "?b \<le> 8" using one_le_power [of "2::rat" retry] by auto
  have f: "1 \<le> ?f" "?f < 13/10" using assms(1,2) by auto
  have "1/2 * 1 \<le> ?b * ?f" by (rule mult_mono) (use b f in auto)
  moreover have "?b * ?f \<le> 8 * ?f" by (rule mult_right_mono) (use b f in auto)
  ultimately show ?thesis using d f by auto
qed

lemma reconnect_delay_None: "reconnect_delay retry r = None \<longleftrightarrow> 1024 \<le> retry"
proof
  assume "reconnect_delay retry r = None"
  then have big: "2 ^ 1024 - 2 ^ 970 \<le> (2::int) ^ retry"
    by (simp add: reconnect_delay_def float_of_int_def split: if_splits)
  show "1024 \<le> retry"
  proof (rule ccontr)
    assume "\<not> 1024 \<le> retry"
    then have "(2::int) ^ retry \<le> 2 ^ 1023" by (intro power_increasing) auto
    then show False using big by simp
  qed
next
  assume "1024 \<le> retry"
  then have "(2::int) ^ 1024 \<le> 2 ^ retry" by (intro power_increasing) auto
  moreover have "2 ^ 1024 - 2 ^ 970 \<le> (2::int) ^ 1024" by simp
  ultimately have "2 ^ 1024 - 2 ^ 970 \<le> (2::int) ^ retry" by (rule order_trans [rotated])
  then show "reconnect_delay retry r = None" by (simp add: reconnect_delay_def float_of_int_def)
qed

text \<open>The 1025th failure since the start of the bridge raises: the client thread is gone.\<close>

lemma reconnects_end:
  "1024 \<le> retry + n \<Longrightarrow> retry \<le> 1024 \<Longrightarrow> last (reconnects retry (replicate (Suc n) (False, r))) = None"
proof (induction n arbitrary: retry)
  case 0
  then show ?case by (simp add: reconnect_delay_None split: option.split)
next
  case (Suc n)
  show ?case
  proof (cases "reconnect_delay retry r")
    case (Some d)
    then have "retry < 1024" using reconnect_delay_None [of retry r] by auto
    moreover have "reconnects (Suc retry) (replicate (Suc n) (False, r)) \<noteq> []"
      by (simp split: option.split)
    ultimately show ?thesis using Suc Some by simp
  qed simp
qed


end
