(* ===== verification/System_Reset.thy ===== *)
theory System_Reset
  imports Tuning_Validation
begin

text \<open>
  The robot's client of the host supervisor (\<open>patrolbot_web_bridge/system_reset.py\<close>): it accepts one
  software reset at a time, hands it to the supervisor over a Unix socket and blocks every other
  command until the host says how it ended.

  Two threads share the state. The ROS thread runs \<open>request\<close>; the worker takes the queued request,
  exchanges a message with the supervisor and applies the reply, then polls. What another thread can
  come between is a step of its own: taking the request, applying the reply of its submission,
  applying the reply of a poll. A message exchange is its result: \<open>None\<close> is an exception the code
  catches (\<open>OSError\<close>, \<open>ValueError\<close>, \<open>TypeError\<close>).
\<close>

subsection \<open>What \<open>UUID(s)\<close> accepts\<close>

text \<open>
  \<open>s.replace("urn:", "").replace("uuid:", "").strip("{}").replace("-", "")\<close> must have 32
  characters, and \<open>int(\<dots>, 16)\<close> must read them as a number that is not negative: surrounding space,
  a sign, a prefix \<open>0x\<close> and single underscores between digits are allowed.
\<close>

function py_remove :: "string \<Rightarrow> string \<Rightarrow> string" where
  "py_remove sub [] = []"
| "py_remove sub (c # s) =
     (if sub \<noteq> [] \<and> take (length sub) (c # s) = sub then py_remove sub (drop (length sub - 1) s)
      else c # py_remove sub s)"
  by pat_completeness auto
termination by (relation "measure (length \<circ> snd)") auto

definition strip_braces :: "string \<Rightarrow> string" where
  "strip_braces s = (let brace = (\<lambda>c. c = CHR 0x7B \<or> c = CHR 0x7D)
     in rev (dropWhile brace (rev (dropWhile brace s))))"

definition hex16_digit :: "char \<Rightarrow> bool" where
  "hex16_digit c = (c \<in> set ''0123456789abcdefABCDEF'')"

fun hex_run :: "bool \<Rightarrow> string \<Rightarrow> bool" where
  "hex_run after [] = after"
| "hex_run after (c # s) = (if hex16_digit c then hex_run True s
     else c = CHR ''_'' \<and> after \<and> hex_run False s)"

definition hex_number :: "string \<Rightarrow> bool" where
  "hex_number s =
     (if take 2 s \<in> {''0x'', ''0X''} then (let t = drop 2 s
        in hex_run False (if take 1 t = ''_'' then drop 1 t else t))
      else hex_run False s)"

definition py_int16 :: "string \<Rightarrow> bool" where
  "py_int16 s =
     (let t = py_strip s
      in if take 1 t = ''-'' then hex_number (drop 1 t) \<and> list_all (\<lambda>c. c \<in> set ''0xX_'') (drop 1 t)
         else if take 1 t = ''+'' then hex_number (drop 1 t)
         else hex_number t)"

definition uuid_text :: "string \<Rightarrow> bool" where
  "uuid_text s =
     (let t = py_remove ''-'' (strip_braces (py_remove ''uuid:'' (py_remove ''urn:'' s)))
      in length t = 32 \<and> py_int16 t)"

subsection \<open>State\<close>

definition TERMINAL :: "string list" where "TERMINAL = [''succeeded'', ''failed'', ''uncertain'']"
definition MAX_REPLY :: nat where "MAX_REPLY = 8192"

datatype reset_refusal = Bad_reset_id | Not_authorized | Not_commissioned | Reset_running

text \<open>The reason of an answer is a sentence of the client or what the supervisor wrote.\<close>

datatype reset_reason = Refused_because reset_refusal | Host_message pyval
datatype reset_detail = Default_detail | Host_text string | Host_value pyval

text \<open>
  What the client sends, and its messages to the supervisor. \<open>Reset_unknown\<close> is the progress message
  with the stage \<open>reset_outcome_unknown\<close>, \<open>Reset_progress\<close> the one with the stage \<open>restarting\<close>.
\<close>

datatype reset_out =
    Reset_ack string bool reset_reason
  | Reset_unknown string
  | Reset_progress string reset_detail
  | Reset_result string string reset_detail
  | Host_request string

text \<open>
  \<open>rs_in_hand\<close> is the request the worker took from the queue and is submitting. \<open>rs_last\<close> is
  \<open>_last_status\<close>; messages are compared as values.
\<close>

record reset_client =
  rs_path :: string
  rs_available :: bool
  rs_busy :: bool
  rs_uncertain :: bool
  rs_pending :: "string option"
  rs_queue :: "string list"
  rs_in_hand :: "string option"
  rs_last :: "(string \<times> string \<times> pyval \<times> rat) option"
  rs_out :: "reset_out list"

definition new_reset :: "string \<Rightarrow> reset_client" where
  "new_reset path = \<lparr> rs_path = path, rs_available = False, rs_busy = True, rs_uncertain = False,
     rs_pending = None, rs_queue = [], rs_in_hand = None, rs_last = None, rs_out = [] \<rparr>"

definition commands_blocked :: "reset_client \<Rightarrow> bool" where
  "commands_blocked s = (rs_busy s \<or> rs_uncertain s)"

definition reset_emit :: "reset_out \<Rightarrow> reset_client \<Rightarrow> reset_client" where
  "reset_emit out s = s\<lparr>rs_out := rs_out s @ [out]\<rparr>"

subsection \<open>Operations\<close>

text \<open>
  \<open>request\<close>, with the command id as \<open>str\<close> makes it a text. The queue holds one entry and putting a
  second one raises: \<open>None\<close>.
\<close>

definition reset_refusal_of :: "pyval \<Rightarrow> reset_client \<Rightarrow> reset_refusal option" where
  "reset_refusal_of authorized s =
     (if authorized \<noteq> VBool True then Some Not_authorized
      else if \<not> rs_available s \<or> rs_path s = [] then Some Not_commissioned
      else if rs_busy s \<and> \<not> rs_uncertain s then Some Reset_running
      else None)"

definition reset_request :: "string \<Rightarrow> pyval \<Rightarrow> reset_client \<Rightarrow> reset_client option" where
  "reset_request cid authorized s =
     (if \<not> uuid_text cid then Some (reset_emit (Reset_ack cid False (Refused_because Bad_reset_id)) s)
      else case reset_refusal_of authorized s of
          Some r \<Rightarrow> Some (reset_emit (Reset_ack cid False (Refused_because r)) s)
        | None \<Rightarrow>
          if rs_queue s \<noteq> [] then None
          else Some (s\<lparr>rs_busy := True, rs_uncertain := False, rs_pending := Some cid, rs_queue := [cid]\<rparr>))"

text \<open>The check \<open>exchange\<close> makes of a decoded reply, and of its length.\<close>

definition checked_reply :: "nat \<Rightarrow> pyval \<Rightarrow> (string \<times> pyval) list option" where
  "checked_reply bytes v =
     (if MAX_REPLY < bytes then None
      else case v of VDict d \<Rightarrow> (case dget d ''ok'' of Some (VBool b) \<Rightarrow> Some d | _ \<Rightarrow> None) | _ \<Rightarrow> None)"

definition detail_of :: "pyval \<Rightarrow> reset_detail" where
  "detail_of m = (if \<not> py_truth m then Default_detail
     else case m of VStr t \<Rightarrow> Host_text (take 1024 t) | _ \<Rightarrow> Host_value m)"

text \<open>
  \<open>_report\<close>. The link is whether the socket to the server is up and when it was opened. An
  exception is \<open>None\<close>.
\<close>

definition report_status ::
  "bool \<times> rat \<Rightarrow> string \<Rightarrow> string \<Rightarrow> pyval \<Rightarrow> reset_client \<Rightarrow> reset_client" where
  "report_status link cid state message s =
     (if rs_pending s \<noteq> None \<and> rs_pending s \<noteq> Some cid then s
      else
        let busy = state \<notin> set TERMINAL;
            s1 = s\<lparr>rs_busy := busy, rs_uncertain := state = ''uncertain'',
                   rs_pending := if busy then rs_pending s else None\<rparr>;
            key = (cid, state, message, snd link)
        in if rs_last s1 = Some key \<or> \<not> fst link then s1
           else
             let s2 = s1\<lparr>rs_last := Some key\<rparr>
             in if busy then reset_emit (Reset_progress cid (detail_of message)) s2
                else reset_emit (Reset_result cid (if state = ''uncertain'' then ''timeout'' else state)
                       (detail_of message)) s2)"

definition report_reply ::
  "bool \<times> rat \<Rightarrow> (string \<times> pyval) list \<Rightarrow> reset_client \<Rightarrow> reset_client option" where
  "report_reply link d s =
     (if get d ''state'' = VStr ''idle'' then
        Some (if \<not> rs_uncertain s \<and> rs_pending s = None \<and> rs_queue s = [] then s\<lparr>rs_busy := False\<rparr> else s)
      else case (get d ''request_id'', get d ''state'') of
          (VStr cid, VStr state) \<Rightarrow>
            if \<not> uuid_text cid \<or> state \<notin> set (''accepted'' # ''running'' # TERMINAL) then None
            else Some (report_status link cid state (get d ''message'') s)
        | _ \<Rightarrow> None)"

text \<open>\<open>_run\<close>: take the queued request and send it to the supervisor.\<close>

definition reset_take :: "reset_client \<Rightarrow> reset_client" where
  "reset_take s = (case rs_queue s of [] \<Rightarrow> s
     | cid # rest \<Rightarrow> reset_emit (Host_request cid) (s\<lparr>rs_queue := rest, rs_in_hand := Some cid\<rparr>))"

text \<open>\<open>_submit\<close> from the reply on; \<open>outcome_unknown\<close> is its exception handler.\<close>

definition outcome_unknown :: "string \<Rightarrow> reset_client \<Rightarrow> reset_client" where
  "outcome_unknown cid s =
     reset_emit (Reset_unknown cid) (s\<lparr>rs_available := False, rs_uncertain := True, rs_in_hand := None\<rparr>)"

definition reset_submitted ::
  "bool \<times> rat \<Rightarrow> string \<Rightarrow> (string \<times> pyval) list option \<Rightarrow> reset_client \<Rightarrow> reset_client" where
  "reset_submitted link cid reply s =
     (case reply of None \<Rightarrow> outcome_unknown cid s | Some d \<Rightarrow>
      if get d ''ok'' = VBool True \<and> get d ''request_id'' \<noteq> VStr cid then outcome_unknown cid s
      else
        let s1 = reset_emit (Reset_ack cid (get d ''ok'' = VBool True) (Host_message (get d ''message''))) s
        in if get d ''ok'' \<noteq> VBool True then s1\<lparr>rs_pending := None, rs_in_hand := None\<rparr>
           else case report_reply link d s1 of
               None \<Rightarrow> outcome_unknown cid s1
             | Some s2 \<Rightarrow> s2\<lparr>rs_in_hand := None\<rparr>)"

definition reset_polled ::
  "bool \<times> rat \<Rightarrow> (string \<times> pyval) list option \<Rightarrow> reset_client \<Rightarrow> reset_client" where
  "reset_polled link reply s =
     (case reply of None \<Rightarrow> s\<lparr>rs_available := False\<rparr> | Some d \<Rightarrow>
      let s1 = s\<lparr>rs_available := get d ''ok'' = VBool True\<rparr>
      in if get d ''ok'' \<noteq> VBool True then s1
         else case report_reply link d s1 of None \<Rightarrow> s1\<lparr>rs_available := False\<rparr> | Some s2 \<Rightarrow> s2)"

subsection \<open>Runs\<close>

text \<open>
  The reachable states, with the ids requested so far: request ids are not reused, and the
  supervisor does not report on a request it was not sent.
\<close>

definition names :: "(string \<times> pyval) list option \<Rightarrow> string \<Rightarrow> bool" where
  "names reply cid = (case reply of None \<Rightarrow> False | Some d \<Rightarrow> get d ''request_id'' = VStr cid)"

inductive reset_run :: "string list \<Rightarrow> reset_client \<Rightarrow> bool" where
  start: "reset_run [] (new_reset path)"
| requested: "reset_run ids s \<Longrightarrow> cid \<notin> set ids \<Longrightarrow> reset_request cid authorized s = Some s'
    \<Longrightarrow> reset_run (ids @ [cid]) s'"
| taken: "reset_run ids s \<Longrightarrow> rs_in_hand s = None \<Longrightarrow> reset_run ids (reset_take s)"
| submitted: "reset_run ids s \<Longrightarrow> rs_in_hand s = Some cid \<Longrightarrow> reset_run ids (reset_submitted link cid reply s)"
| polled: "reset_run ids s \<Longrightarrow> rs_in_hand s = None \<Longrightarrow> list_all (\<lambda>cid. \<not> names reply cid) (rs_queue s)
    \<Longrightarrow> reset_run ids (reset_polled link reply s)"

lemma reset_emit_simps [simp]:
  "rs_path (reset_emit out s) = rs_path s" "rs_available (reset_emit out s) = rs_available s"
  "rs_busy (reset_emit out s) = rs_busy s" "rs_uncertain (reset_emit out s) = rs_uncertain s"
  "rs_pending (reset_emit out s) = rs_pending s" "rs_queue (reset_emit out s) = rs_queue s"
  "rs_in_hand (reset_emit out s) = rs_in_hand s" "rs_last (reset_emit out s) = rs_last s"
  "rs_out (reset_emit out s) = rs_out s @ [out]"
  by (simp_all add: reset_emit_def)

text \<open>What a report changes: the hold and the pending request, and at most one message.\<close>

lemma report_status_simps [simp]:
  "rs_path (report_status link cid st m s) = rs_path s"
  "rs_available (report_status link cid st m s) = rs_available s"
  "rs_queue (report_status link cid st m s) = rs_queue s"
  "rs_in_hand (report_status link cid st m s) = rs_in_hand s"
  by (simp_all add: report_status_def Let_def)

lemma report_status_hold:
  "rs_pending s \<noteq> None \<and> rs_pending s \<noteq> Some cid \<and> report_status link cid st m s = s
   \<or> (rs_pending s = None \<or> rs_pending s = Some cid)
     \<and> rs_busy (report_status link cid st m s) = (st \<notin> set TERMINAL)
     \<and> rs_uncertain (report_status link cid st m s) = (st = ''uncertain'')
     \<and> rs_pending (report_status link cid st m s) = (if st \<in> set TERMINAL then None else rs_pending s)"
  by (auto simp: report_status_def Let_def)

definition result_for :: "string \<Rightarrow> reset_out \<Rightarrow> bool" where
  "result_for cid out = (case out of Reset_progress c d \<Rightarrow> c = cid | Reset_result c oc d \<Rightarrow> c = cid | _ \<Rightarrow> False)"

lemma report_status_out:
  "\<exists>new. rs_out (report_status link cid st m s) = rs_out s @ new \<and> list_all (result_for cid) new"
  by (auto simp: report_status_def Let_def result_for_def)

lemma report_reply_cases:
  assumes "report_reply link d s = Some s'"
  obtains (idle) "get d ''state'' = VStr ''idle''"
      "s' = (if \<not> rs_uncertain s \<and> rs_pending s = None \<and> rs_queue s = [] then s\<lparr>rs_busy := False\<rparr> else s)"
  | (state) cid st where "get d ''request_id'' = VStr cid" "get d ''state'' = VStr st" "uuid_text cid"
      "st \<in> set (''accepted'' # ''running'' # TERMINAL)" "s' = report_status link cid st (get d ''message'') s"
  using assms unfolding report_reply_def by (auto split: if_splits pyval.splits)

subsection \<open>The invariant\<close>

text \<open>How often an id was handed to the supervisor, and how often it was answered.\<close>

definition submissions :: "string \<Rightarrow> reset_out list \<Rightarrow> nat" where
  "submissions cid outs = length (filter (\<lambda>out. out = Host_request cid) outs)"

fun answer_of :: "reset_out \<Rightarrow> string option" where
  "answer_of (Reset_ack cid ok r) = Some cid"
| "answer_of _ = None"

definition answers :: "string \<Rightarrow> reset_out list \<Rightarrow> nat" where
  "answers cid outs = length (filter (\<lambda>out. answer_of out = Some cid) outs)"

lemma counts_append [simp]:
  "submissions cid (xs @ ys) = submissions cid xs + submissions cid ys"
  "answers cid (xs @ ys) = answers cid xs + answers cid ys"
  by (simp_all add: submissions_def answers_def)

lemma counts_result: "list_all (result_for c) new \<Longrightarrow> submissions cid new = 0 \<and> answers cid new = 0"
  by (induction new)
    (auto simp: submissions_def answers_def result_for_def split: reset_out.splits)

text \<open>
  A request is queued, in hand, or neither; as long as it is queued or in hand it is the pending one
  and holds the commands. it is then not answered yet.
\<close>

definition outstanding :: "string \<Rightarrow> reset_client \<Rightarrow> bool" where
  "outstanding cid s \<longleftrightarrow> cid \<in> set (rs_queue s) \<or> rs_in_hand s = Some cid"

definition reset_inv :: "string list \<Rightarrow> reset_client \<Rightarrow> bool" where
  "reset_inv ids s \<longleftrightarrow>
     (rs_queue s = [] \<or> (\<exists>cid. rs_queue s = [cid] \<and> cid \<in> set ids \<and> rs_pending s = Some cid
        \<and> rs_busy s \<and> \<not> rs_uncertain s \<and> rs_in_hand s = None \<and> submissions cid (rs_out s) = 0))
     \<and> (rs_in_hand s = None \<or> (\<exists>cid. rs_in_hand s = Some cid \<and> cid \<in> set ids \<and> rs_pending s = Some cid
        \<and> rs_busy s \<and> \<not> rs_uncertain s \<and> rs_queue s = []))
     \<and> (rs_pending s \<noteq> None \<longrightarrow> rs_busy s)
     \<and> (\<forall>cid. answers cid (rs_out s) \<le> 1 \<and> (outstanding cid s \<longrightarrow> answers cid (rs_out s) = 0)
          \<and> submissions cid (rs_out s) \<le> 1
          \<and> (cid \<notin> set ids \<longrightarrow> answers cid (rs_out s) = 0 \<and> submissions cid (rs_out s) = 0))"

lemma new_reset_inv: "reset_inv [] (new_reset path)"
  by (simp add: reset_inv_def new_reset_def answers_def submissions_def outstanding_def)


lemma count_simps [simp]:
  "submissions cid [Host_request c] = (if c = cid then 1 else 0)"
  "submissions cid [Reset_ack c ok r] = 0" "submissions cid [Reset_unknown c] = 0"
  "answers cid [Host_request c] = 0" "answers cid [Reset_unknown c] = 0"
  "answers cid [Reset_ack c ok r] = (if c = cid then 1 else 0)"
  "submissions cid [] = 0" "answers cid [] = 0"
  by (simp_all add: submissions_def answers_def)

lemma request_ack_inv:
  assumes "reset_inv ids s" "cid \<notin> set ids"
  shows "reset_inv (ids @ [cid]) (reset_emit (Reset_ack cid ok r) s)"
proof -
  have "\<not> outstanding cid s" using assms by (auto simp: reset_inv_def outstanding_def)
  then show ?thesis using assms by (auto simp: reset_inv_def outstanding_def)
qed

lemma reset_request_inv:
  assumes "reset_inv ids s" "cid \<notin> set ids" "reset_request cid authorized s = Some s'"
  shows "reset_inv (ids @ [cid]) s'"
proof (cases "uuid_text cid \<and> reset_refusal_of authorized s = None")
  case False
  then show ?thesis
    using assms request_ack_inv by (auto simp: reset_request_def split: if_splits option.splits)
next
  case True
  then have s': "s' = s\<lparr>rs_busy := True, rs_uncertain := False, rs_pending := Some cid, rs_queue := [cid]\<rparr>"
    and q: "rs_queue s = []" using assms(3) by (auto simp: reset_request_def split: if_splits)
  have "\<not> rs_busy s \<or> rs_uncertain s"
    using True by (auto simp: reset_refusal_of_def split: if_splits)
  then have "rs_in_hand s = None" using assms(1) by (auto simp: reset_inv_def)
  then show ?thesis using assms(1,2) s' q by (auto simp: reset_inv_def outstanding_def)
qed

text \<open>The queue is never full when a request is put there.\<close>

lemma reset_request_total: "reset_inv ids s \<Longrightarrow> reset_request cid authorized s \<noteq> None"
  by (auto simp: reset_request_def reset_refusal_of_def reset_inv_def)

lemma reset_take_inv: "reset_inv ids s \<Longrightarrow> rs_in_hand s = None \<Longrightarrow> reset_inv ids (reset_take s)"
  by (auto simp: reset_inv_def reset_take_def outstanding_def split: list.splits)

lemma outcome_unknown_inv:
  assumes "reset_inv ids s" "rs_in_hand s = Some cid"
  shows "reset_inv ids (outcome_unknown c s)"
  using assms by (auto simp: reset_inv_def outcome_unknown_def outstanding_def)

lemma report_reply_frame:
  assumes "report_reply link d s = Some s'"
  shows "rs_queue s' = rs_queue s" "rs_in_hand s' = rs_in_hand s"
    "submissions cid (rs_out s') = submissions cid (rs_out s)" "answers cid (rs_out s') = answers cid (rs_out s)"
proof -
  show "rs_queue s' = rs_queue s" "rs_in_hand s' = rs_in_hand s"
    using assms by (auto elim!: report_reply_cases)
  have "\<exists>new. rs_out s' = rs_out s @ new \<and> (submissions cid new = 0 \<and> answers cid new = 0)"
    using assms
  proof (cases rule: report_reply_cases)
    case idle
    then show ?thesis by (intro exI [of _ "[]"]) auto
  next
    case (state c st)
    then show ?thesis using report_status_out [of link c st "get d ''message''" s] counts_result by blast
  qed
  then show "submissions cid (rs_out s') = submissions cid (rs_out s)"
    "answers cid (rs_out s') = answers cid (rs_out s)" by auto
qed

lemma report_reply_hold:
  assumes "report_reply link d s = Some s'"
  shows "rs_busy s' = rs_busy s \<and> rs_uncertain s' = rs_uncertain s \<and> rs_pending s' = rs_pending s
    \<or> get d ''state'' = VStr ''idle'' \<and> \<not> rs_uncertain s \<and> rs_pending s = None \<and> rs_queue s = []
      \<and> \<not> rs_busy s' \<and> \<not> rs_uncertain s' \<and> rs_pending s' = None
    \<or> (\<exists>cid st. get d ''request_id'' = VStr cid \<and> get d ''state'' = VStr st
      \<and> (rs_pending s = None \<or> rs_pending s = Some cid)
      \<and> rs_busy s' = (st \<notin> set TERMINAL) \<and> rs_uncertain s' = (st = ''uncertain'')
      \<and> rs_pending s' = (if st \<in> set TERMINAL then None else rs_pending s))"
  using assms
proof (cases rule: report_reply_cases)
  case idle
  then show ?thesis by (cases "rs_pending s") auto
next
  case (state cid st)
  then consider "s' = s" | "rs_pending s = None \<or> rs_pending s = Some cid"
      "rs_busy s' = (st \<notin> set TERMINAL)" "rs_uncertain s' = (st = ''uncertain'')"
      "rs_pending s' = (if st \<in> set TERMINAL then None else rs_pending s)"
    using report_status_hold [of s cid link st "get d ''message''"] by blast
  then show ?thesis
  proof cases
    case 1
    then show ?thesis by simp
  next
    case 2
    then show ?thesis using state(1,2) by blast
  qed
qed

lemma counts_pair:
  "submissions cid [x, Reset_unknown c] = submissions cid [x]" "answers cid [x, Reset_unknown c] = answers cid [x]"
  by (simp_all add: submissions_def answers_def)

lemma reset_submitted_inv:
  assumes inv: "reset_inv ids s" and hand: "rs_in_hand s = Some cid"
  shows "reset_inv ids (reset_submitted link cid reply s)"
proof -
  define ack where "ack d = Reset_ack cid (get d ''ok'' = VBool True) (Host_message (get d ''message''))" for d
  have pend: "rs_pending s = Some cid" "rs_queue s = []" "cid \<in> set ids" "rs_busy s"
    using inv hand by (auto simp: reset_inv_def)
  have counts: "answers c (rs_out s @ [ack d]) \<le> 1 \<and> submissions c (rs_out s @ [ack d]) \<le> 1
      \<and> (c \<notin> set ids \<longrightarrow> answers c (rs_out s @ [ack d]) = 0 \<and> submissions c (rs_out s @ [ack d]) = 0)" for c d
    using inv hand pend(3) by (auto simp: reset_inv_def outstanding_def ack_def)
  have unknown: "reset_inv ids (outcome_unknown cid s)" by (rule outcome_unknown_inv [OF inv hand])
  have unknown_ack: "reset_inv ids (outcome_unknown cid (reset_emit (ack d) s))" for d
    using inv pend counts [of _ d]
    by (auto simp: reset_inv_def outcome_unknown_def outstanding_def counts_pair)
  have no: "reset_inv ids (reset_emit (ack d) s\<lparr>rs_pending := None, rs_in_hand := None\<rparr>)" for d
    using pend counts [of _ d] by (auto simp: reset_inv_def outstanding_def)
  have yes: "reset_inv ids (s2\<lparr>rs_in_hand := None\<rparr>)" if "report_reply link d (reset_emit (ack d) s) = Some s2" for d s2
    using pend counts [of _ d] report_reply_frame [OF that] report_reply_hold [OF that]
    by (auto simp: reset_inv_def outstanding_def)
  show ?thesis
    unfolding reset_submitted_def Let_def ack_def [symmetric]
    using unknown unknown_ack no yes by (auto split: option.split)
qed

lemma reset_polled_inv:
  assumes inv: "reset_inv ids s" and hand: "rs_in_hand s = None"
    and other: "list_all (\<lambda>cid. \<not> names reply cid) (rs_queue s)"
  shows "reset_inv ids (reset_polled link reply s)"
proof -
  have av: "reset_inv ids (s\<lparr>rs_available := b\<rparr>)" for b
    using inv by (auto simp: reset_inv_def outstanding_def)
  have "reset_inv ids s2"
    if "reply = Some d" "report_reply link d (s\<lparr>rs_available := b\<rparr>) = Some s2" for d b s2
  proof -
    have q: "rs_queue s = [] \<or> (\<exists>cid. rs_queue s = [cid] \<and> rs_pending s = Some cid \<and> get d ''request_id'' \<noteq> VStr cid)"
      using inv other that(1) by (auto simp: reset_inv_def names_def)
    have counts: "answers c (rs_out s) \<le> 1 \<and> submissions c (rs_out s) \<le> 1
        \<and> (c \<notin> set ids \<longrightarrow> answers c (rs_out s) = 0 \<and> submissions c (rs_out s) = 0)
        \<and> (c \<in> set (rs_queue s) \<longrightarrow> answers c (rs_out s) = 0 \<and> submissions c (rs_out s) = 0 \<and> c \<in> set ids)" for c
      using inv by (auto simp: reset_inv_def outstanding_def)
    have "rs_pending s \<noteq> None \<longrightarrow> rs_busy s" "rs_queue s \<noteq> [] \<longrightarrow> rs_busy s \<and> \<not> rs_uncertain s"
      using inv by (auto simp: reset_inv_def)
    then show ?thesis
      using report_reply_frame [OF that(2)] report_reply_hold [OF that(2)] q counts hand
      by (auto simp: reset_inv_def outstanding_def)
  qed
  then show ?thesis using av by (auto simp: reset_polled_def Let_def split: option.split)
qed

lemma reset_run_inv: "reset_run ids s \<Longrightarrow> reset_inv ids s"
  by (induction rule: reset_run.induct)
    (auto intro: new_reset_inv reset_request_inv reset_take_inv reset_submitted_inv reset_polled_inv)

subsection \<open>Who ends the hold\<close>

text \<open>
  A reply of the supervisor that may end the hold: it is idle and nothing is pending or uncertain, or
  it reports success or failure of the pending request (of any, when none is pending).
\<close>

definition releases :: "(string \<times> pyval) list option \<Rightarrow> reset_client \<Rightarrow> bool" where
  "releases reply s \<longleftrightarrow>
     (case reply of None \<Rightarrow> False | Some d \<Rightarrow>
        get d ''ok'' = VBool True
        \<and> (get d ''state'' = VStr ''idle'' \<and> rs_pending s = None \<and> \<not> rs_uncertain s
           \<or> get d ''state'' \<in> {VStr ''succeeded'', VStr ''failed''}
             \<and> (rs_pending s = None \<or> names reply (default [] (rs_pending s)))))"

lemma report_releases:
  assumes "report_reply link d s = Some s'" "get d ''ok'' = VBool True" "commands_blocked s" "\<not> commands_blocked s'"
  shows "releases (Some d) s"
  using report_reply_hold [OF assms(1)] assms(2-4)
  by (auto simp: releases_def commands_blocked_def TERMINAL_def names_def)

lemma releases_cong:
  "rs_pending s = rs_pending s' \<Longrightarrow> rs_uncertain s = rs_uncertain s' \<Longrightarrow> releases reply s = releases reply s'"
  by (simp add: releases_def split: option.split)

lemma submitted_releases:
  assumes "commands_blocked s" "\<not> commands_blocked (reset_submitted link cid reply s)" "rs_busy s"
  shows "releases reply s"
proof -
  have blocked: "commands_blocked (outcome_unknown cid t)" for t
    by (simp add: commands_blocked_def outcome_unknown_def)
  obtain d s2 where d: "reply = Some d" "get d ''ok'' = VBool True"
    and rep: "report_reply link d (reset_emit (Reset_ack cid True (Host_message (get d ''message''))) s) = Some s2"
    and s2: "reset_submitted link cid reply s = s2\<lparr>rs_in_hand := None\<rparr>"
    using assms blocked unfolding reset_submitted_def Let_def
    by (auto simp: commands_blocked_def split: option.splits if_splits)
  have "releases (Some d) (reset_emit (Reset_ack cid True (Host_message (get d ''message''))) s)"
    by (rule report_releases [OF rep d(2)]) (use assms(1,2) s2 in \<open>simp_all add: commands_blocked_def\<close>)
  then show ?thesis using d(1) releases_cong [of s "reset_emit (Reset_ack cid True (Host_message (get d ''message''))) s"] by simp
qed

lemma polled_releases:
  assumes "commands_blocked s" "\<not> commands_blocked (reset_polled link reply s)"
  shows "releases reply s"
proof -
  obtain d s2 where d: "reply = Some d" "get d ''ok'' = VBool True"
    and rep: "report_reply link d (s\<lparr>rs_available := True\<rparr>) = Some s2" "\<not> commands_blocked s2"
    using assms unfolding reset_polled_def Let_def
    by (auto simp: commands_blocked_def split: option.splits if_splits)
  have "releases (Some d) (s\<lparr>rs_available := True\<rparr>)"
    by (rule report_releases [OF rep(1) d(2) _ rep(2)]) (use assms(1) in \<open>simp add: commands_blocked_def\<close>)
  then show ?thesis using d(1) releases_cong [of s "s\<lparr>rs_available := True\<rparr>"] by simp
qed


text \<open>A reset from the start of the bridge to the host's report of success.\<close>

definition reset_id :: string where "reset_id = ''0a0b0c0d-1111-2222-3333-444455556666''"

definition host_reply :: "string \<Rightarrow> (string \<times> pyval) list option" where
  "host_reply state = Some [(''ok'', VBool True), (''request_id'', VStr reset_id), (''state'', VStr state)]"

definition idle_reset :: reset_client where
  "idle_reset = reset_polled (True, 1) (host_reply ''idle'') (new_reset ''/run/supervisor.sock'')"

definition running_reset :: reset_client where
  "running_reset = reset_submitted (True, 1) reset_id (host_reply ''running'')
     (reset_take (the (reset_request reset_id (VBool True) idle_reset)))"

lemma reset_id_ok: "uuid_text reset_id"
  by code_simp

lemma running_reset_reachable: "reset_run [reset_id] running_reset"
proof -
  let ?a = "reset_request reset_id (VBool True) idle_reset"
  have "reset_run [] idle_reset"
    unfolding idle_reset_def by (rule polled [OF start]) (simp_all add: new_reset_def)
  moreover have a: "?a = Some (the ?a)" by code_simp
  ultimately have "reset_run [reset_id] (the ?a)" using requested [of "[]" idle_reset reset_id] by simp
  moreover have "rs_in_hand (the ?a) = None" by code_simp
  ultimately have "reset_run [reset_id] (reset_take (the ?a))" by (rule taken)
  moreover have "rs_in_hand (reset_take (the ?a)) = Some reset_id" by code_simp
  ultimately show ?thesis unfolding running_reset_def by (rule submitted)
qed


text \<open>
  A request the supervisor forgot (it reports idle after having accepted it) is never released: only
  a report on that request is.
\<close>

lemma forgotten_request_blocks:
  "commands_blocked ((reset_polled (True, 1) (host_reply ''idle'') ^^ n) running_reset)"
proof -
  have pend: "rs_pending running_reset = Some reset_id" "rs_busy running_reset" by code_simp+
  have step: "rs_pending s = Some reset_id \<Longrightarrow> rs_busy s \<Longrightarrow>
      rs_pending (reset_polled (True, 1) (host_reply ''idle'') s) = Some reset_id
      \<and> rs_busy (reset_polled (True, 1) (host_reply ''idle'') s)" for s
    by (simp add: reset_polled_def host_reply_def report_reply_def get_def Let_def)
  have "rs_pending ((reset_polled (True, 1) (host_reply ''idle'') ^^ n) running_reset) = Some reset_id
      \<and> rs_busy ((reset_polled (True, 1) (host_reply ''idle'') ^^ n) running_reset)"
    by (induction n) (use pend step in auto)
  then show ?thesis by (simp add: commands_blocked_def)
qed

end
