(* ===== verification/Bridge_Tuning.thy ===== *)
theory Bridge_Tuning
  imports Bridge_Teleop Tuning_Broker "HOL-Library.Multiset" "HOL-Library.Sublist"
begin

text \<open>
  The robot's end of the tuning transport (\<open>patrolbot_web_bridge/tuning.py\<close>): the shape checks of an
  envelope, the bounded queue, the one service call in flight, and the snapshot from which the speed
  policy of manual drive and the advertised capabilities are read.

  The service is a parameter: each tick is given what the clock, the ROS client, the socket and the
  pending future report. \<open>repr\<close> is the text of a finite float, as in \<open>Tuning_Authorization\<close>.
\<close>

subsection \<open>Envelope checks\<close>

definition BRIDGE_MAX_REQUEST :: nat where "BRIDGE_MAX_REQUEST = 18 * 1024"
definition BRIDGE_MAX_RESPONSE :: nat where "BRIDGE_MAX_RESPONSE = 256 * 1024"
definition MAX_QUEUE :: nat where "MAX_QUEUE = 8"
definition MAX_ROBOT_ID :: nat where "MAX_ROBOT_ID = 128"
definition MAX_AUTHORIZATION_LIFETIME_MS :: int where "MAX_AUTHORIZATION_LIFETIME_MS = 30000"
definition DEFAULT_DEADLINE_S :: rat where "DEFAULT_DEADLINE_S = 30"
definition ZERO_UUID :: string where "ZERO_UUID = ''00000000-0000-0000-0000-000000000000''"

datatype wrapper_refusal = Envelope_malformed | Actor_invalid | Request_malformed | Contract_unsupported
  | Operation_unsupported | Needs_administrator | Authorization_malformed | Authorization_robot
  | Authorization_lifetime | Needs_authorization | Unexpected_request_fields | Revision_invalid
  | Target_invalid | Job_id_invalid | Batch_invalid | Change_shape | Change_id | Change_value
  | Request_id_invalid | Generation_invalid | Not_serializable | Envelope_too_large

definition demand :: "bool \<Rightarrow> wrapper_refusal \<Rightarrow> wrapper_refusal option" where
  "demand ok r = (if ok then None else Some r)"

fun first_refusal :: "wrapper_refusal option list \<Rightarrow> wrapper_refusal option" where
  "first_refusal [] = None"
| "first_refusal (None # rs) = first_refusal rs"
| "first_refusal (Some r # rs) = Some r"

lemma first_refusal_None [simp]: "first_refusal rs = None \<longleftrightarrow> (\<forall>r\<in>set rs. r = None)"
  by (induction rs rule: first_refusal.induct) auto

lemma demand_None [simp]: "demand ok r = None \<longleftrightarrow> ok"
  by (simp add: demand_def)

definition lifetime_ok :: "pyval \<Rightarrow> pyval \<Rightarrow> bool" where
  "lifetime_ok issued expires =
     (case (issued, expires) of
        (VInt i, VInt e) \<Rightarrow> 0 \<le> i \<and> 0 \<le> e \<and> i \<le> JS_SAFE_INT \<and> e \<le> JS_SAFE_INT
          \<and> 0 < e - i \<and> e - i \<le> MAX_AUTHORIZATION_LIFETIME_MS
      | _ \<Rightarrow> False)"

definition authorization_reason :: "pyval \<Rightarrow> wrapper_refusal option" where
  "authorization_reason authorization =
     (case authorization of
        VDict a \<Rightarrow> first_refusal
          [demand (same_names (dkeys a) CLAIM_FIELDS) Authorization_malformed,
           demand (get a ''version'' = VInt 1) Authorization_malformed,
           demand (case get a ''robot_id'' of VStr r \<Rightarrow> 1 \<le> length r \<and> length r \<le> MAX_ROBOT_ID | _ \<Rightarrow> False)
             Authorization_robot,
           demand (lifetime_ok (get a ''issued_at_ms'') (get a ''expires_at_ms'')) Authorization_lifetime,
           demand (case get a ''signature'' of VStr t \<Rightarrow> sha256_hex t | _ \<Rightarrow> False) Authorization_malformed]
      | _ \<Rightarrow> Some Authorization_malformed)"

definition actor_reason :: "pyval \<Rightarrow> wrapper_refusal option" where
  "actor_reason actor =
     (case actor of
        VDict a \<Rightarrow> demand
          (same_names (dkeys a) [''id'', ''username'', ''role''] \<and> is_strict_int (get a ''id'')
           \<and> (case get a ''username'' of VStr u \<Rightarrow> 1 \<le> length u \<and> length u \<le> MAX_USERNAME | _ \<Rightarrow> False)
           \<and> in_names (get a ''role'') ROLES) Actor_invalid
      | _ \<Rightarrow> Some Actor_invalid)"

text \<open>The fields an operation has beyond the common ones.\<close>

definition extra_fields :: "string \<Rightarrow> string list" where
  "extra_fields operation =
     (if operation = ''status'' then [''job_id'']
      else if operation = ''save'' then [''base_revision'', ''changes'']
      else if operation \<in> set [''apply'', ''redeploy''] then [''expected_revision'']
      else if operation = ''restore'' then [''expected_revision'', ''restore_revision'', ''target'']
      else [])"

definition fields_reason :: "string \<Rightarrow> entry \<Rightarrow> wrapper_refusal option" where
  "fields_reason operation request = first_refusal
     [demand (list_all (\<lambda>k. k \<in> set (COMMON_KEYS @ extra_fields operation)) (dkeys request)
              \<and> list_all (\<lambda>k. k \<in> set (dkeys request)) COMMON_KEYS) Unexpected_request_fields,
      demand (list_all (\<lambda>k. k \<in> set (extra_fields operation) \<longrightarrow> safe_revision (get request k))
              [''base_revision'', ''expected_revision'', ''restore_revision'']) Revision_invalid,
      demand (operation = ''restore'' \<longrightarrow> get request ''target'' = VStr ''last_known_good'') Target_invalid,
      demand (operation = ''status'' \<longrightarrow> (case dget request ''job_id'' of None \<Rightarrow> True
                 | Some j \<Rightarrow> canonical_uuid j \<noteq> None)) Job_id_invalid]"

definition plain_number :: "pyval \<Rightarrow> bool" where
  "plain_number v = (case v of VInt i \<Rightarrow> True | VBool b \<Rightarrow> True | VFloat x \<Rightarrow> is_finite x | _ \<Rightarrow> False)"

fun changes_reason :: "string list \<Rightarrow> pyval list \<Rightarrow> wrapper_refusal option" where
  "changes_reason ids [] = None"
| "changes_reason ids (c # cs) =
     (case c of
        VDict d \<Rightarrow>
          if \<not> same_names (dkeys d) [''id'', ''value''] then Some Change_shape
          else (case get d ''id'' of
             VStr pid \<Rightarrow>
               if \<not> is_logical_id (VStr pid) \<or> pid \<in> set ids then Some Change_id
               else if \<not> plain_number (get d ''value'') then Some Change_value
               else changes_reason (pid # ids) cs
           | _ \<Rightarrow> Some Change_id)
      | _ \<Rightarrow> Some Change_shape)"

definition save_reason :: "string \<Rightarrow> entry \<Rightarrow> wrapper_refusal option" where
  "save_reason operation request =
     (if operation \<noteq> ''save'' then None
      else case get request ''changes'' of
        VList cs \<Rightarrow> if 1 \<le> length cs \<and> length cs \<le> 32 then changes_reason [] cs else Some Batch_invalid
      | _ \<Rightarrow> Some Batch_invalid)"

definition generation_ok :: "entry \<Rightarrow> bool" where
  "generation_ok request =
     (case get request ''generation'' of
        VDict g \<Rightarrow> same_names (dkeys g) [''capability'', ''session_id'']
          \<and> get g ''capability'' = VStr TUNING_CAPABILITY \<and> canonical_uuid (get g ''session_id'') \<noteq> None
      | _ \<Rightarrow> False)"

definition request_reason :: "entry \<Rightarrow> entry \<Rightarrow> entry \<Rightarrow> string \<Rightarrow> wrapper_refusal option" where
  "request_reason w actor request operation = first_refusal
     [demand (operation \<in> {''read'', ''status''} \<or> get actor ''role'' = VStr ''administrator'') Needs_administrator,
      (if get w ''authorization'' = VNone then None else authorization_reason (get w ''authorization'')),
      demand (operation \<notin> set MUTATION_OPERATIONS \<or> get w ''authorization'' \<noteq> VNone) Needs_authorization,
      fields_reason operation request,
      save_reason operation request,
      demand (canonical_uuid (get request ''request_id'') \<noteq> None) Request_id_invalid,
      demand (generation_ok request) Generation_invalid]"

definition size_reason :: "(rat \<Rightarrow> string) \<Rightarrow> entry \<Rightarrow> wrapper_refusal option" where
  "size_reason repr w = first_refusal
     [demand (json_ok (VDict w)) Not_serializable,
      demand (length (json_text repr (VDict w)) \<le> BRIDGE_MAX_REQUEST) Envelope_too_large]"

definition wrapper_reason :: "(rat \<Rightarrow> string) \<Rightarrow> pyval \<Rightarrow> wrapper_refusal option" where
  "wrapper_reason repr wrapper =
     (case wrapper of
        VDict w \<Rightarrow>
          if \<not> list_all (\<lambda>k. k \<in> set (dkeys w)) [''request'', ''actor'']
             \<or> \<not> list_all (\<lambda>k. k \<in> set [''request'', ''actor'', ''authorization'']) (dkeys w)
          then Some Envelope_malformed
          else (case actor_reason (get w ''actor'') of
             Some r \<Rightarrow> Some r
           | None \<Rightarrow>
             (case get w ''request'' of
                VDict request \<Rightarrow>
                  if get request ''contract'' \<noteq> VStr TUNING_CONTRACT \<or> get request ''version'' \<noteq> VInt 1
                  then Some Contract_unsupported
                  else (case get request ''operation'' of
                     VStr operation \<Rightarrow>
                       if operation \<notin> set OPERATIONS then Some Operation_unsupported
                       else first_refusal [request_reason w (dict_of (get w ''actor'')) request operation,
                              size_reason repr w]
                   | _ \<Rightarrow> Some Operation_unsupported)
              | _ \<Rightarrow> Some Request_malformed))
      | _ \<Rightarrow> Some Envelope_malformed)"

subsection \<open>What the server sends passes\<close>

lemma check_revision_safe: "check_revision payload key = Inr i \<Longrightarrow> safe_revision (get payload key)"
  by (auto simp: check_revision_def safe_revision_def get_def split: option.splits pyval.splits if_splits)

lemma fields_accepted:
  assumes shape: "check_shape operation payload = None" and opn: "check_operation operation payload ix = None"
    and known: "operation \<in> set OPERATIONS"
  shows "fields_reason operation payload = None"
proof -
  have keys: "set (dkeys payload) \<subseteq> set (ALLOWED_KEYS operation)" "set COMMON_KEYS \<subseteq> set (dkeys payload)"
    using shape by (auto simp: check_shape_def list_all_iff REQUIRED_KEYS_def)
  have "set (ALLOWED_KEYS operation) \<subseteq> set (COMMON_KEYS @ extra_fields operation)"
    by (auto simp: ALLOWED_KEYS_def REQUIRED_KEYS_def extra_fields_def)
  with keys have names: "list_all (\<lambda>k. k \<in> set (COMMON_KEYS @ extra_fields operation)) (dkeys payload)"
      "list_all (\<lambda>k. k \<in> set (dkeys payload)) COMMON_KEYS" by (auto simp: list_all_iff)
  have "list_all (\<lambda>k. k \<in> set (extra_fields operation) \<longrightarrow> safe_revision (get payload k))
          [''base_revision'', ''expected_revision'', ''restore_revision'']
      \<and> (operation = ''restore'' \<longrightarrow> get payload ''target'' = VStr ''last_known_good'')
      \<and> (operation = ''status'' \<longrightarrow> (case dget payload ''job_id'' of None \<Rightarrow> True
                 | Some j \<Rightarrow> canonical_uuid j \<noteq> None))"
    using opn
    by (auto simp: check_operation_def check_save_def check_restore_def failed_def extra_fields_def
        split: if_splits sum.splits option.splits dest: check_revision_safe)
  then show ?thesis using names by (simp add: fields_reason_def)
qed

lemma change_plain:
  assumes "check_change c ix = Inr (pid, v)" "list_all (\<lambda>k. is_logical_id (VStr k)) (dkeys ix)"
  shows "\<exists>d. c = VDict d \<and> same_names (dkeys d) [''id'', ''value''] \<and> get d ''id'' = VStr pid
    \<and> is_logical_id (VStr pid) \<and> plain_number (get d ''value'')"
proof -
  obtain d entry where c: "c = VDict d" "list_all (\<lambda>k. k \<in> set [''id'', ''value'']) (dkeys d)"
      "get d ''id'' = VStr pid" "dget ix pid = Some entry" "change_value entry d = Inr v"
    using assms(1) by (auto simp: check_change_def split: pyval.splits if_splits option.splits sum.splits)
  from c(5) have val: "dget d ''value'' = Some v" "\<not> is_text v" "check_value entry v True = None"
    by (auto simp: change_value_def split: option.splits if_splits)
  then have "plain_number v"
    by (auto simp: check_value_def check_number_def plain_number_def number_of_def rat_of_def is_finite_def
        split: pyval.splits if_splits option.splits pyfloat.splits)
  moreover have "''id'' \<in> set (dkeys d)" "''value'' \<in> set (dkeys d)"
    using c(3) val(1) dget_None_iff [of d "''id''"] dget_None_iff [of d "''value''"]
    by (auto simp: get_def default_def split: option.splits)
  moreover have "pid \<in> set (dkeys ix)" using c(4) dget_None_iff [of ix pid] by auto
  ultimately show ?thesis
    using c val assms(2) by (auto simp: same_names_def list_all_iff get_def)
qed

lemma changes_accepted:
  assumes "check_changes cs ix ids resolved = Inr r" "list_all (\<lambda>k. is_logical_id (VStr k)) (dkeys ix)"
    "set ids' = set ids"
  shows "changes_reason ids' cs = None"
  using assms
proof (induction cs arbitrary: ids ids' resolved)
  case (Cons c cs)
  then obtain pid v where c: "check_change c ix = Inr (pid, v)" "pid \<notin> set ids"
      "check_changes cs ix (ids @ [pid]) (dset resolved pid v) = Inr r"
    by (auto split: sum.splits prod.splits if_splits)
  have "changes_reason (pid # ids') cs = None"
    by (rule Cons.IH [OF c(3) Cons.prems(2)]) (use Cons.prems(3) in auto)
  then show ?case using change_plain [OF c(1) Cons.prems(2)] c(2) Cons.prems(3) by auto
qed simp

lemma save_accepted:
  assumes "check_operation operation payload ix = None" "list_all (\<lambda>k. is_logical_id (VStr k)) (dkeys ix)"
  shows "save_reason operation payload = None"
proof (cases "operation = ''save''")
  case True
  then have "\<exists>r. saved_changes payload ix = Inr r"
    using assms(1) by (auto simp: check_operation_def check_save_def split: sum.splits)
  then show ?thesis
    using changes_accepted [OF _ assms(2)] True
    by (auto simp: saved_changes_def save_reason_def MAX_CHANGES_def split: pyval.splits if_splits)
qed (simp add: save_reason_def)

lemma generation_accepted: "check_shape operation payload = None \<Longrightarrow> generation_ok payload"
  by (auto simp: check_shape_def check_generation_def generation_ok_def split: pyval.splits)

text \<open>Signing sorts the keys of the request and the actor; no check depends on their order.\<close>

definition sorted_dict :: "entry \<Rightarrow> entry" where
  "sorted_dict d = sort_key fst (map (\<lambda>p. (fst p, sort_keys (snd p))) d)"

lemma sorted_dict_simps [simp]:
  "dget (sorted_dict d) k = map_option sort_keys (dget d k)"
  "get (sorted_dict d) k = sort_keys (get d k)"
  "set (dkeys (sorted_dict d)) = set (dkeys d)"
proof -
  show "dget (sorted_dict d) k = map_option sort_keys (dget d k)"
    unfolding sorted_dict_def dget_sort_key by (rule dget_map_snd)
  show "get (sorted_dict d) k = sort_keys (get d k)"
    unfolding sorted_dict_def by (rule get_sort_keys)
  show "set (dkeys (sorted_dict d)) = set (dkeys d)" by (simp add: sorted_dict_def dkeys_def image_image)
qed

lemma sort_keys_dict: "sort_keys (VDict d) = VDict (sorted_dict d)"
  by (simp add: sorted_dict_def)

lemma sorted_checks [simp]:
  "safe_revision (sort_keys v) = safe_revision v" "canonical_uuid (sort_keys v) = canonical_uuid v"
  "is_strict_int (sort_keys v) = is_strict_int v" "plain_number (sort_keys v) = plain_number v"
  "is_logical_id (sort_keys v) = is_logical_id v"
  by (cases v; simp add: safe_revision_def canonical_uuid_def is_strict_int_def plain_number_def is_logical_id_def)+

lemma same_names_set: "same_names xs ys \<longleftrightarrow> set xs = set ys"
  by (auto simp: same_names_def list_all_iff)

lemma fields_sorted [simp]: "fields_reason operation (sorted_dict d) = fields_reason operation d"
  by (cases "dget d ''job_id''") (simp_all add: fields_reason_def list_all_iff)

lemma changes_sorted: "changes_reason ids (map sort_keys cs) = changes_reason ids cs"
proof (induction cs arbitrary: ids)
  case (Cons c cs)
  show ?case
  proof (cases c)
    case (VDict d)
    have ids: "(case sort_keys (get d ''id'') of VStr pid \<Rightarrow> P pid | _ \<Rightarrow> Some Change_id)
        = (case get d ''id'' of VStr pid \<Rightarrow> P pid | _ \<Rightarrow> Some Change_id)" for P
      by (cases "get d ''id''") simp_all
    then show ?thesis
      by (cases "get d ''id''") (simp_all add: sort_keys_dict VDict same_names_set Cons.IH del: sort_keys.simps)
  qed (simp_all add: Cons.IH)
qed simp

lemma save_sorted [simp]: "save_reason operation (sorted_dict d) = save_reason operation d"
  by (cases "get d ''changes''") (simp_all add: save_reason_def changes_sorted)

lemma generation_sorted [simp]: "generation_ok (sorted_dict d) = generation_ok d"
proof (cases "get d ''generation''")
  case (VDict g)
  then show ?thesis
    by (simp add: generation_ok_def sort_keys_dict same_names_set del: sort_keys.simps)
qed (simp_all add: generation_ok_def)

lemma actor_sorted [simp]: "actor_reason (sort_keys a) = actor_reason a"
proof (cases a)
  case (VDict d)
  have "(case sort_keys (get d ''username'') of VStr u \<Rightarrow> P u | _ \<Rightarrow> False) = (case get d ''username'' of VStr u \<Rightarrow> P u | _ \<Rightarrow> False)" for P
    by (cases "get d ''username''") simp_all
  then show ?thesis using VDict
    by (simp add: actor_reason_def sort_keys_dict same_names_set del: sort_keys.simps)
qed (simp_all add: actor_reason_def)

text \<open>\<open>read\<close> and \<open>status\<close> carry no signature; a change carries the claims of \<open>sign\<close>.\<close>

lemma claims_accepted:
  assumes "0 \<le> issued" "issued + MAX_LIFETIME_MS \<le> JS_SAFE_INT" "robot_subject robot" "sha256_hex signature"
  shows "authorization_reason (VDict (issued_claims robot issued @ [(''signature'', VStr signature)])) = None"
  using assms
  by (simp add: authorization_reason_def issued_claims_def get_def same_names_set dkeys_def CLAIM_FIELDS_def
      lifetime_ok_def MAX_LIFETIME_MS_def MAX_AUTHORIZATION_LIFETIME_MS_def MAX_ROBOT_ID_def robot_subject_def
      JS_SAFE_INT_def insert_commute)

lemma actor_accepted: "validate_actor actor = None \<Longrightarrow> actor_reason actor = None"
  by (auto simp: validate_actor_def actor_reason_def split: pyval.splits)

lemma plain_json_ok: "plain_value v \<Longrightarrow> json_ok v"
  by (induction v rule: plain_value.induct) (auto simp: list_all_iff)

lemma canonical_json_ok: "canonical repr v = Inr text \<Longrightarrow> json_ok v"
  by (simp add: canonical_def split: if_splits)

lemma wrapper_reason_None:
  assumes "set (dkeys w) = {''request'', ''actor''} \<or> set (dkeys w) = {''request'', ''actor'', ''authorization''}"
    and "actor_reason (get w ''actor'') = None" "get w ''request'' = VDict request"
    and "get request ''contract'' = VStr TUNING_CONTRACT" "get request ''version'' = VInt 1"
    and "get request ''operation'' = VStr operation" "operation \<in> set OPERATIONS"
    and "request_reason w (dict_of (get w ''actor'')) request operation = None" "size_reason repr w = None"
  shows "wrapper_reason repr (VDict w) = None"
proof -
  have "list_all (\<lambda>k. k \<in> set (dkeys w)) [''request'', ''actor'']"
      "list_all (\<lambda>k. k \<in> set [''request'', ''actor'', ''authorization'']) (dkeys w)"
    using assms(1) by (auto simp: list_all_iff)
  then show ?thesis using assms(2-) unfolding wrapper_reason_def by simp
qed

lemma request_accepted:
  assumes "check_request payload registry = None" "get payload ''operation'' = VStr operation"
    and "list_all (\<lambda>k. is_logical_id (VStr k)) (dkeys (registry_index registry))"
  shows "operation \<in> set OPERATIONS \<and> get payload ''contract'' = VStr TUNING_CONTRACT
    \<and> get payload ''version'' = VInt 1 \<and> canonical_uuid (get payload ''request_id'') \<noteq> None
    \<and> fields_reason operation payload = None \<and> save_reason operation payload = None \<and> generation_ok payload"
proof -
  have parts: "operation \<in> set OPERATIONS" "check_shape operation payload = None"
      "check_operation operation payload (registry_index registry) = None"
    using assms(1,2) by (auto simp: check_request_def)
  then show ?thesis
    using fields_accepted [OF parts(2,3,1)] save_accepted [OF parts(3) assms(3)] generation_accepted [OF parts(2)]
    by (auto simp: check_shape_def)
qed

lemma wrapper_for_cases:
  assumes "wrapper_for env u robot payload mutation = Inr w"
  obtains actor where "validate_actor actor = None" "actor_from_user u = Inr actor"
    "mutation \<and> te_sign env [(''request'', VDict payload), (''actor'', actor)] robot = Inr w
     \<or> \<not> mutation \<and> w = [(''request'', VDict payload), (''actor'', actor)]"
  using assms by (auto simp: wrapper_for_def Let_def split: sum.splits option.splits if_splits)

text \<open>
  C22. An envelope the server sends is never refused by the robot's own checks. When the server's
  pre-filter accepts a request against a registry of well-formed ids and wraps it for the robot
  (signing it when it changes something), the adapter of the robot accepts the envelope, provided the
  text fits its 18 KiB: the two sets of checks, written twice, agree on everything the server lets
  through.
\<close>

theorem server_envelope_accepted_by_bridge:
  assumes valid: "validate_request (VDict payload) registry = None"
    and ids: "list_all (\<lambda>k. is_logical_id (VStr k)) (dkeys (registry_index registry))"
    and operation: "get payload ''operation'' = VStr operation"
    and sent: "wrapper_for env u robot payload (is_mutation operation) = Inr w"
    and signer: "te_sign env = (\<lambda>w r. sign repr mac w key r now)"
    and mac: "\<forall>k m. sha256_hex (mac k m)"
    and clock: "clock_ms now = Inr issued" "issued + MAX_LIFETIME_MS \<le> JS_SAFE_INT"
    and size: "length (json_text repr (VDict w)) \<le> BRIDGE_MAX_REQUEST"
  shows "wrapper_reason repr (VDict w) = None"
proof -
  from valid have scanned: "scan (VDict payload) REQUEST_MAX_BYTES = None"
    and checked: "check_request payload registry = None" by (auto simp: validate_request_def)
  have json: "json_ok (VDict payload)"
    using plain_json_ok [of "VDict payload"] scanned by (simp add: scan_None bounded_value_def)
  note req = request_accepted [OF checked operation ids]
  obtain actor where actor: "validate_actor actor = None" "actor_from_user u = Inr actor"
    and w: "is_mutation operation \<and> te_sign env [(''request'', VDict payload), (''actor'', actor)] robot = Inr w
      \<or> \<not> is_mutation operation \<and> w = [(''request'', VDict payload), (''actor'', actor)]"
    using wrapper_for_cases [OF sent] .
  obtain a where a: "actor = VDict a" using actor(1) by (cases actor) (auto simp: validate_actor_def)
  have actor_ok: "actor_reason actor = None" by (rule actor_accepted [OF actor(1)])
  have actor_json: "json_ok actor"
    using actor(2) by (auto simp: actor_from_user_def split: if_splits)
  show ?thesis
  proof (cases "is_mutation operation")
    case False
    then have w: "w = [(''request'', VDict payload), (''actor'', VDict a)]" using w a by simp
    have nm: "operation \<notin> set MUTATION_OPERATIONS" "operation \<in> {''read'', ''status''}"
      using False req by (auto simp: is_mutation_def MUTATION_OPERATIONS_def OPERATIONS_def)
    have "request_reason w a payload operation = None"
      using req nm by (simp add: request_reason_def w get_def)
    moreover have "size_reason repr w = None"
      using size json actor_json a by (simp add: size_reason_def w)
    ultimately show ?thesis
      using req operation actor_ok a
      by (intro wrapper_reason_None [of w payload operation]) (auto simp: w get_def dict_of_def dkeys_def)
  next
    case True
    then have "sign repr mac [(''request'', VDict payload), (''actor'', actor)] key robot now = Inr w"
      using w signer by simp
    from sign_Inr [OF this clock(1)] obtain k tx where
      signed: "canonical repr (VDict (unsigned_frame (VDict payload) actor robot issued)) = Inr tx"
        "administrator_mutation actor (VDict payload) = None" "robot_subject robot"
        "w = signed_frame (VDict payload) actor robot issued (mac k (DOMAIN @ tx))"
      by blast
    define c where "c = VDict (issued_claims robot issued @ [(''signature'', VStr (mac k (DOMAIN @ tx)))])"
    have w: "w = [(''actor'', VDict (sorted_dict a)), (''authorization'', c), (''request'', VDict (sorted_dict payload))]"
      using signed(4) by (simp add: signed_frame_def c_def a sort_keys_dict del: sort_keys.simps)
    have gets: "get w ''actor'' = VDict (sorted_dict a)" "get w ''authorization'' = c"
        "get w ''request'' = VDict (sorted_dict payload)" by (simp_all add: w get_def)
    have admin: "get a ''role'' = VStr ''administrator''"
      using signed(2) a by (auto simp: administrator_mutation_def split: if_splits)
    have "authorization_reason c = None"
      unfolding c_def
      by (rule claims_accepted) (use clock clock_ms_nonneg [OF clock(1)] signed(3) mac in auto)
    moreover have "c \<noteq> VNone" by (simp add: c_def)
    ultimately have reason: "request_reason w (sorted_dict a) (sorted_dict payload) operation = None"
      using req admin gets by (simp add: request_reason_def)
    have "json_ok c" by (auto simp: c_def issued_claims_def)
    moreover have "json_ok (VDict (sorted_dict a))" "json_ok (VDict (sorted_dict payload))"
      using json actor_json a json_ok_sort_keys [of "VDict a"] json_ok_sort_keys [of "VDict payload"]
      by (simp_all add: sort_keys_dict del: sort_keys.simps json_ok.simps)
    ultimately have size_ok: "size_reason repr w = None"
      using size by (simp add: size_reason_def w)
    have "actor_reason (VDict (sorted_dict a)) = None"
      using actor_ok actor_sorted [of actor] a by (simp add: sort_keys_dict del: sort_keys.simps actor_sorted)
    then show ?thesis
      using req operation reason size_ok gets
      by (intro wrapper_reason_None [of w "sorted_dict payload" operation]) (auto simp: w dict_of_def dkeys_def)
  qed
qed

text \<open>Sorting keys does not change the length of the text.\<close>

lemma length_joined: "length (joined xs) = sum_list (map length xs) + (length xs - 1)"
  by (induction xs rule: joined.induct) auto

lemma sum_list_sort_key: "sum_list (map g (sort_key f xs)) = (sum_list (map g xs) :: nat)"
  by (metis mset_map mset_sort sum_mset_sum_list)

lemma length_json_sorted [simp]: "length (json_text repr (sort_keys v)) = length (json_text repr v)"
proof (induction v rule: sort_keys.induct)
  case (1 d)
  have "sum_list (map (\<lambda>p. length (quoted (fst p) @ '':'' @ json_text repr (sort_keys (snd p)))) d)
      = sum_list (map (\<lambda>p. length (quoted (fst p) @ '':'' @ json_text repr (snd p))) d)"
    using 1 by (intro arg_cong [where f = sum_list] map_cong) auto
  then show ?case by (simp add: length_joined sum_list_sort_key o_def)
next
  case (2 vs)
  have "sum_list (map (\<lambda>v. length (json_text repr (sort_keys v))) vs)
      = sum_list (map (\<lambda>v. length (json_text repr v)) vs)"
    using 2 by (intro arg_cong [where f = sum_list] map_cong) auto
  then show ?case by (simp add: length_joined o_def)
qed simp_all

text \<open>The example change of the pre-filter, signed for robot \<open>r1\<close> and sent by an administrator.\<close>

definition example_user :: user where
  "example_user = \<lparr>us_id = 1, us_username = ''local'', us_role = ''administrator''\<rparr>"

definition example_payload :: entry where
  "example_payload = dict_of (example_save [(''nav_linear'', VFloat (Fin (1 / 5)))])"

definition example_env :: tuning_env where
  "example_env = \<lparr>te_catalog = Inr example_registry,
     te_sign = (\<lambda>w r. sign (\<lambda>q. ''0.2'') example_mac w (Some (replicate 32 (CHR ''k''))) r (VInt 1000))\<rparr>"

lemma example_payload_simp:
  "example_payload = [(''contract'', VStr TUNING_CONTRACT), (''version'', VInt 1), (''operation'', VStr ''save''),
      (''request_id'', VStr ''0a1b2c3d-0000-4000-8000-000000000009''),
      (''generation'', VDict [(''capability'', VStr TUNING_CAPABILITY), (''session_id'', VStr example_session)]),
      (''base_revision'', VInt 4),
      (''changes'', VList [VDict [(''id'', VStr ''nav_linear''), (''value'', VFloat (Fin (1 / 5)))]])]"
  by (simp add: example_payload_def example_save_def dict_of_def)

lemma example_lengths:
  "length (json_text (\<lambda>q. ''0.2'') (VDict example_payload)) \<le> 1000"
  "length (json_text (\<lambda>q. ''0.2'') example_actor) \<le> 100"
  "length (json_text (\<lambda>q. ''0.2'') (VDict (issued_claims ''r1'' 1000000))) \<le> 200"
proof -
  have short: "length (string_of_int 1000000) \<le> 7" "length (string_of_int 1030000) \<le> 7"
    using digits_length [of 1000000 6] digits_length [of 1030000 6] by (simp_all add: string_of_int_def)
  have small: "length (string_of_int 1) = 1" "length (string_of_int 4) = 1"
    by (simp_all add: string_of_int_def digits_of.simps)
  show "length (json_text (\<lambda>q. ''0.2'') (VDict example_payload)) \<le> 1000"
    "length (json_text (\<lambda>q. ''0.2'') example_actor) \<le> 100"
    using small by (simp_all add: example_payload_simp example_actor_def length_quoted escape_char_def
        TUNING_CONTRACT_def TUNING_CAPABILITY_def example_session_def)
  show "length (json_text (\<lambda>q. ''0.2'') (VDict (issued_claims ''r1'' 1000000))) \<le> 200"
    using short small by (simp add: issued_claims_def length_quoted escape_char_def MAX_LIFETIME_MS_def)
qed

lemma wrapper_length:
  "length (json_text repr (VDict [(''request'', r), (''actor'', a), (''authorization'', c)]))
     \<le> length (json_text repr r) + length (json_text repr a) + length (json_text repr c) + 50"
  "length (json_text repr (VDict [(''actor'', a), (''authorization'', c), (''request'', r)]))
     \<le> length (json_text repr r) + length (json_text repr a) + length (json_text repr c) + 50"
  by (simp_all add: length_quoted escape_char_def)

lemma example_claims_length:
  "length (json_text repr (VDict (issued_claims ''r1'' 1000000 @ [(''signature'', VStr (example_mac k m))]))) \<le> 300"
proof -
  have "length (string_of_int 1000000) \<le> 7" "length (string_of_int 1030000) \<le> 7" "length (string_of_int 1) = 1"
    using digits_length [of 1000000 6] digits_length [of 1030000 6]
    by (simp_all add: string_of_int_def digits_of.simps)
  moreover have "length (quoted (example_mac k m)) = 66"
    by (subst length_quoted) (auto simp: example_mac_def escape_char_def list_all_iff)
  ultimately show ?thesis by (simp add: issued_claims_def length_quoted escape_char_def MAX_LIFETIME_MS_def)
qed

lemma example_wrapper:
  "\<exists>w. wrapper_for example_env example_user ''r1'' example_payload True = Inr w
     \<and> length (json_text (\<lambda>q. ''0.2'') (VDict w)) \<le> BRIDGE_MAX_REQUEST"
proof -
  let ?repr = "\<lambda>q :: rat. ''0.2''" and ?key = "Some (replicate 32 (CHR ''k''))"
  let ?w = "[(''request'', VDict example_payload), (''actor'', example_actor)]"
  let ?body = "VDict [(''request'', VDict example_payload), (''actor'', example_actor),
     (''authorization'', VDict [(''version'', VInt 1), (''robot_id'', VStr ''r1''), (''issued_at_ms'', VInt 1000000),
       (''expires_at_ms'', VInt (1000000 + MAX_LIFETIME_MS))])]"
  have actor: "actor_from_user example_user = Inr example_actor" "validate_actor example_actor = None"
    by code_simp+
  have subject: "subject_error ?w ''r1'' = None" by code_simp
  have claims: "length (json_text ?repr (VDict [(''version'', VInt 1), (''robot_id'', VStr ''r1''),
      (''issued_at_ms'', VInt 1000000), (''expires_at_ms'', VInt (1000000 + MAX_LIFETIME_MS))])) \<le> 200"
    using example_lengths(3) sorted_claims [of "''r1''" 1000000]
      length_json_sorted [of ?repr "VDict [(''version'', VInt 1), (''robot_id'', VStr ''r1''),
      (''issued_at_ms'', VInt 1000000), (''expires_at_ms'', VInt (1000000 + MAX_LIFETIME_MS))]"]
    by (simp del: sort_keys.simps json_text.simps length_json_sorted)
  have "length (json_text ?repr ?body) \<le> 1400"
    by (rule order_trans [OF wrapper_length(1)]) (use claims example_lengths(1,2) in linarith)
  then have "length (json_text ?repr (sort_keys ?body)) \<le> MAX_BYTES"
    unfolding length_json_sorted by (simp add: MAX_BYTES_def)
  moreover have "json_ok ?body" by code_simp
  ultimately obtain tx where "canonical ?repr ?body = Inr tx"
    by (simp add: canonical_def del: sort_keys.simps json_text.simps length_json_sorted json_ok.simps)
  moreover have clock: "clock_ms (VInt 1000) = Inr 1000000" by code_simp
  ultimately obtain w where w: "sign ?repr example_mac ?w ?key ''r1'' (VInt 1000) = Inr w"
    by (simp add: sign_def subject same_names_def dkeys_def signature_of_def usable_key_def KEY_MIN_def KEY_MAX_def Let_def
        del: sort_keys.simps)
  have "wrapper_for example_env example_user ''r1'' example_payload True = Inr w"
    using actor w by (simp add: wrapper_for_def example_env_def)
  moreover obtain k tx' where frame: "w = signed_frame (VDict example_payload) example_actor ''r1'' 1000000 (example_mac k tx')"
    using sign_Inr [OF w clock] by blast
  have "length (json_text ?repr (VDict w)) \<le> 2000"
    unfolding frame signed_frame_def
    by (rule order_trans [OF wrapper_length(2)], unfold length_json_sorted)
      (use example_claims_length [of ?repr k tx'] example_lengths(1,2) in linarith)
  ultimately show ?thesis by (auto simp: BRIDGE_MAX_REQUEST_def)
qed

theorem server_envelope_accepted_by_bridge_witness:
  "\<exists>w. wrapper_for example_env example_user ''r1'' example_payload (is_mutation ''save'') = Inr w
     \<and> wrapper_reason (\<lambda>q. ''0.2'') (VDict w) = None"
proof -
  have save: "is_mutation ''save'' = True" by code_simp
  obtain w where w: "wrapper_for example_env example_user ''r1'' example_payload (is_mutation ''save'') = Inr w"
      "length (json_text (\<lambda>q. ''0.2'') (VDict w)) \<le> BRIDGE_MAX_REQUEST"
    using example_wrapper unfolding save by blast
  have valid: "validate_request (VDict example_payload) example_registry = None"
    using example_save_accepted by (simp add: example_payload_def example_save_def dict_of_def)
  have ids: "list_all (\<lambda>k. is_logical_id (VStr k)) (dkeys (registry_index example_registry))"
    "get example_payload ''operation'' = VStr ''save''" by code_simp+
  have mac: "\<forall>k m. sha256_hex (example_mac k m)"
    by (auto simp: example_mac_def sha256_hex_def lower_hex_def list_all_iff)
  have clock: "clock_ms (VInt 1000) = Inr 1000000" by code_simp
  have "wrapper_reason (\<lambda>q. ''0.2'') (VDict w) = None"
    by (rule server_envelope_accepted_by_bridge [OF valid ids w(1) _ mac clock _ w(2)])
      (simp_all add: example_env_def MAX_LIFETIME_MS_def JS_SAFE_INT_def)
  then show ?thesis using w(1) by blast
qed

subsection \<open>The adapter\<close>

text \<open>
  One service call in flight; the queue in front of it; the last snapshot and when it came.
  \<open>rt_last_probe\<close> is \<open>None\<close> for minus infinity. \<open>rt_calls\<close> lists the envelopes handed to the core and
  \<open>rt_out\<close> the frames sent to the server: a relayed result or an answer of the adapter itself.
\<close>

datatype answer_detail = Refused_for wrapper_refusal | Adapter_busy | Core_unreachable | Not_encoded
  | No_answer_in_time | Call_not_started | Call_failed | No_result | Result_too_large | Result_not_json
  | Result_mismatch

datatype answer_outcome = Was_refused | Was_failed | Was_unknown

datatype tuning_out = Relay string entry | Answer string answer_outcome answer_detail

record inflight_call =
  fl_request_id :: string
  fl_generation :: nat
  fl_sent_at :: rat
  fl_deadline :: rat

record ros_tuning =
  rt_queue :: "pyval list"
  rt_inflight :: "inflight_call option"
  rt_dropped :: nat
  rt_unknown :: nat
  rt_snapshot :: "entry option"
  rt_snapshot_at :: rat
  rt_last_probe :: "rat option"
  rt_policy_required :: bool
  rt_calls :: "pyval list"
  rt_out :: "tuning_out list"

definition new_ros_tuning :: ros_tuning where
  "new_ros_tuning = \<lparr> rt_queue = [], rt_inflight = None, rt_dropped = 0, rt_unknown = 0, rt_snapshot = None,
     rt_snapshot_at = 0, rt_last_probe = None, rt_policy_required = False, rt_calls = [], rt_out = [] \<rparr>"

text \<open>
  What a tick is given: the readings of the clock and of \<open>ready\<close> in the order the code takes them,
  the socket and its generation, whether building the request and starting the call succeed, whether
  the pending future is done, and its result. A result is its size in bytes and what the strict JSON
  decoder makes of it.
\<close>

datatype core_reply = Reply_raised | Reply_empty | Reply_text nat "pyval option"

record tick_env =
  ti_clock :: "nat \<Rightarrow> rat"
  ti_ready :: "nat \<Rightarrow> bool"
  ti_connected :: bool
  ti_generation :: nat
  ti_encodes :: bool
  ti_starts :: bool
  ti_done :: bool
  ti_reply :: core_reply
  ti_uuid :: string

definition tuning_emit :: "tuning_out \<Rightarrow> ros_tuning \<Rightarrow> ros_tuning" where
  "tuning_emit sent s = s\<lparr>rt_out := rt_out s @ [sent]\<rparr>"

definition send_unknown :: "string \<Rightarrow> answer_detail \<Rightarrow> ros_tuning \<Rightarrow> ros_tuning" where
  "send_unknown rid d s = tuning_emit (Answer rid Was_unknown d) (s\<lparr>rt_unknown := Suc (rt_unknown s)\<rparr>)"

definition unwrap :: "pyval \<Rightarrow> pyval" where
  "unwrap payload =
     (case payload of
        VDict d \<Rightarrow> if ''request'' \<notin> set (dkeys d) \<and> is_dict (get d ''data'') then get d ''data'' else payload
      | _ \<Rightarrow> payload)"

definition envelope_id :: "pyval \<Rightarrow> string" where
  "envelope_id wrapper =
     (case wrapper of
        VDict w \<Rightarrow> (case get w ''request'' of
            VDict r \<Rightarrow> default ZERO_UUID (canonical_uuid (get r ''request_id''))
          | _ \<Rightarrow> ZERO_UUID)
      | _ \<Rightarrow> ZERO_UUID)"

definition tuning_enqueue :: "pyval \<Rightarrow> ros_tuning \<Rightarrow> ros_tuning" where
  "tuning_enqueue payload s =
     (let wrapper = unwrap payload
      in if MAX_QUEUE \<le> length (rt_queue s)
         then send_unknown (envelope_id wrapper) Adapter_busy (s\<lparr>rt_dropped := Suc (rt_dropped s)\<rparr>)
         else s\<lparr>rt_queue := rt_queue s @ [wrapper]\<rparr>)"

text \<open>\<open>_dispatch\<close>\<close>

definition tuning_dispatch :: "(rat \<Rightarrow> string) \<Rightarrow> tick_env \<Rightarrow> pyval \<Rightarrow> ros_tuning \<Rightarrow> ros_tuning" where
  "tuning_dispatch repr e wrapper s =
     (let rid = envelope_id wrapper
      in case wrapper_reason repr wrapper of
           Some r \<Rightarrow> tuning_emit (Answer rid Was_refused (Refused_for r)) s
         | None \<Rightarrow>
           if \<not> ti_ready e 1 then tuning_emit (Answer rid Was_refused Core_unreachable) s
           else if \<not> ti_encodes e then tuning_emit (Answer rid Was_failed Not_encoded) s
           else if \<not> ti_starts e then send_unknown rid Call_not_started s
           else s\<lparr>rt_calls := rt_calls s @ [wrapper],
                  rt_inflight := Some \<lparr>fl_request_id = rid, fl_generation = ti_generation e,
                    fl_sent_at = ti_clock e 1, fl_deadline = DEFAULT_DEADLINE_S\<rparr>\<rparr>)"

text \<open>\<open>_finish\<close>: the result of the call in flight, relayed when it can be trusted.\<close>

definition accepted_result :: "string \<Rightarrow> core_reply \<Rightarrow> answer_detail + entry" where
  "accepted_result rid reply =
     (case reply of
        Reply_raised \<Rightarrow> Inl Call_failed
      | Reply_empty \<Rightarrow> Inl No_result
      | Reply_text bytes decoded \<Rightarrow>
          if BRIDGE_MAX_RESPONSE < bytes then Inl Result_too_large
          else (case decoded of
             None \<Rightarrow> Inl Result_not_json
           | Some data \<Rightarrow>
               if \<not> json_ok data then Inl Result_not_json
               else (case data of
                  VDict d \<Rightarrow> if canonical_uuid (get d ''request_id'') = Some rid then Inr d else Inl Result_mismatch
                | _ \<Rightarrow> Inl Result_mismatch)))"

definition tuning_finish :: "tick_env \<Rightarrow> inflight_call \<Rightarrow> ros_tuning \<Rightarrow> ros_tuning" where
  "tuning_finish e call s =
     (let s1 = s\<lparr>rt_inflight := None\<rparr>
      in if fl_generation call \<noteq> ti_generation e then s1\<lparr>rt_unknown := Suc (rt_unknown s1)\<rparr>
         else case accepted_result (fl_request_id call) (ti_reply e) of
             Inl d \<Rightarrow> send_unknown (fl_request_id call) d s1
           | Inr data \<Rightarrow>
               let s2 = (case get data ''snapshot'' of
                    VDict snap \<Rightarrow>
                      if get data ''outcome'' = VStr ''ok''
                      then s1\<lparr>rt_snapshot := Some snap, rt_snapshot_at := ti_clock e 1,
                              rt_policy_required := rt_policy_required s1
                                \<or> get snap ''policy_required'' = VBool True\<rparr>
                      else s1
                  | _ \<Rightarrow> s1)
               in tuning_emit (Relay (fl_request_id call) data) s2)"

text \<open>The adapter's own read of the state, once a second while nothing else is to be done.\<close>

definition probe_wrapper :: "string \<Rightarrow> pyval" where
  "probe_wrapper rid = VDict
     [(''actor'', VDict [(''id'', VInt 0), (''username'', VStr ''web-bridge-policy-reader''), (''role'', VStr ''observer'')]),
      (''request'', VDict
        [(''contract'', VStr TUNING_CONTRACT), (''version'', VInt 1), (''operation'', VStr ''read''),
         (''request_id'', VStr rid),
         (''generation'', VDict [(''capability'', VStr TUNING_CAPABILITY), (''session_id'', VStr ZERO_UUID)])])]"

definition probe_due :: "tick_env \<Rightarrow> ros_tuning \<Rightarrow> bool" where
  "probe_due e s \<longleftrightarrow> ti_connected e \<and> ti_ready e 0
     \<and> (case rt_last_probe s of None \<Rightarrow> True | Some t \<Rightarrow> 1 \<le> ti_clock e 0 - t)"

definition tuning_tick :: "(rat \<Rightarrow> string) \<Rightarrow> tick_env \<Rightarrow> ros_tuning \<Rightarrow> ros_tuning" where
  "tuning_tick repr e s =
     (case rt_inflight s of
        Some call \<Rightarrow>
          if ti_done e then tuning_finish e call s
          else if fl_deadline call < ti_clock e 0 - fl_sent_at call
          then send_unknown (fl_request_id call) No_answer_in_time (s\<lparr>rt_inflight := None\<rparr>)
          else s
      | None \<Rightarrow>
          (case rt_queue s of
             [] \<Rightarrow> if probe_due e s
                  then tuning_dispatch repr e (probe_wrapper (ti_uuid e)) (s\<lparr>rt_last_probe := Some (ti_clock e 0)\<rparr>)
                  else s
           | wrapper # rest \<Rightarrow> tuning_dispatch repr e wrapper (s\<lparr>rt_queue := rest\<rparr>)))"

definition adapter_disconnected :: "ros_tuning \<Rightarrow> ros_tuning" where
  "adapter_disconnected s =
     (let s1 = s\<lparr>rt_queue := [], rt_snapshot := None\<rparr>
      in if rt_inflight s1 = None then s1
         else s1\<lparr>rt_inflight := None, rt_unknown := Suc (rt_unknown s1)\<rparr>)"


subsection \<open>What the snapshot decides\<close>

text \<open>
  \<open>capabilities\<close>; \<open>ready\<close> is evaluated twice. The time of the snapshot is read only while there is one:
  the code clears both together.
\<close>

definition tuning_capabilities :: "(nat \<Rightarrow> bool) \<Rightarrow> rat \<Rightarrow> ros_tuning \<Rightarrow> string list" where
  "tuning_capabilities ready now s =
     (let fresh = (rt_snapshot s \<noteq> None \<and> 0 \<le> now - rt_snapshot_at s \<and> now - rt_snapshot_at s \<le> 3);
          snap = default [] (rt_snapshot s)
      in (if ready 0 then [''robot_tuning_read_v1''] else [])
         @ (if ready 1 \<and> fresh \<and> get snap ''save_supported'' = VBool True
            then ''robot_tuning_write_v1''
                 # (if get snap ''activation_supported'' = VBool True then [''robot_tuning_v1''] else [])
            else [])
         @ (if rt_policy_required s then [''robot_tuning_policy_v1''] else []))"

text \<open>
  \<open>teleop_policy\<close>. The base state is its hardware session, if one was received; \<open>fmt\<close> is the text a
  formatted string makes of a value. \<open>None\<close> is the \<open>KeyError\<close> of a snapshot without session or revision,
  or of a missing base state that matches a snapshot without hardware session.
\<close>

definition adapter_policy :: "(pyval \<Rightarrow> string) \<Rightarrow> int option \<Rightarrow> ros_tuning \<Rightarrow> raw_value option" where
  "adapter_policy fmt base s =
     (case rt_snapshot s of
        None \<Rightarrow> Some Raw_none
      | Some snap \<Rightarrow>
          if \<not> py_truth (get snap ''active_known'') then Some Raw_none
          else if (case base of None \<Rightarrow> get snap ''hardware_session_generation'' \<noteq> VNone
                   | Some g \<Rightarrow> numeric (get snap ''hardware_session_generation'') \<noteq> Some (Fin (of_int g)))
          then Some Raw_none
          else (case (get snap ''effective_limits'', get snap ''digest'') of
             (VDict limits, VStr digest) \<Rightarrow>
               (case (dget snap ''session_id'', dget snap ''active_revision'', base) of
                  (Some token, Some rev_no, Some g) \<Rightarrow>
                    Some (policy_mapping limits
                      (fmt token @ '':'' @ fmt rev_no @ '':'' @ remove_prefix ''sha256:'' digest)
                      (rt_snapshot_at s) g)
                | _ \<Rightarrow> None)
           | _ \<Rightarrow> Some Raw_none))"

text \<open>
  The module promises never to advertise \<open>robot_tuning_v1\<close>; a snapshot that claims activation makes
  the adapter do so.
\<close>

lemma mutation_capability_advertised:
  "''robot_tuning_v1'' \<in> set (tuning_capabilities (\<lambda>_. True) 1
     (new_ros_tuning\<lparr>rt_snapshot := Some [(''save_supported'', VBool True), (''activation_supported'', VBool True)]\<rparr>))"
  by code_simp

subsection \<open>Runs\<close>

datatype tuning_op = Enqueue pyval | Tick tick_env | Disconnected

fun tuning_step :: "(rat \<Rightarrow> string) \<Rightarrow> tuning_op \<Rightarrow> ros_tuning \<Rightarrow> ros_tuning" where
  "tuning_step repr (Enqueue payload) = tuning_enqueue payload"
| "tuning_step repr (Tick e) = tuning_tick repr e"
| "tuning_step repr Disconnected = adapter_disconnected"

definition tuning_after :: "(rat \<Rightarrow> string) \<Rightarrow> tuning_op list \<Rightarrow> ros_tuning" where
  "tuning_after repr ops = fold (tuning_step repr) ops new_ros_tuning"

text \<open>The envelopes that arrive in a run, the calls that are not the adapter's own, the ids of the results relayed.\<close>

fun arrivals :: "tuning_op list \<Rightarrow> pyval list" where
  "arrivals [] = []"
| "arrivals (Enqueue payload # ops) = unwrap payload # arrivals ops"
| "arrivals (_ # ops) = arrivals ops"

definition own_probe :: "pyval \<Rightarrow> bool" where
  "own_probe wrapper =
     (case wrapper of
        VDict w \<Rightarrow> (case get w ''actor'' of VDict a \<Rightarrow> get a ''username'' = VStr ''web-bridge-policy-reader'' | _ \<Rightarrow> False)
      | _ \<Rightarrow> False)"

fun relayed_ids :: "tuning_out list \<Rightarrow> string list" where
  "relayed_ids [] = []"
| "relayed_ids (Relay rid d # fs) = rid # relayed_ids fs"
| "relayed_ids (Answer rid oc d # fs) = relayed_ids fs"

lemma relayed_ids_append [simp]: "relayed_ids (xs @ ys) = relayed_ids xs @ relayed_ids ys"
  by (induction xs rule: relayed_ids.induct) auto

lemma arrivals_append [simp]: "arrivals (xs @ ys) = arrivals xs @ arrivals ys"
  by (induction xs rule: arrivals.induct) auto

lemma probe_is_own [simp]: "own_probe (probe_wrapper rid)"
  by (simp add: own_probe_def probe_wrapper_def get_def)

subsection \<open>The invariant\<close>

fun relay_matches :: "tuning_out \<Rightarrow> bool" where
  "relay_matches (Relay rid d) = (canonical_uuid (get d ''request_id'') = Some rid)"
| "relay_matches (Answer rid oc d) = True"

definition awaited :: "ros_tuning \<Rightarrow> string list" where
  "awaited s = (case rt_inflight s of None \<Rightarrow> [] | Some c \<Rightarrow> [fl_request_id c])"

text \<open>
  What a run from a state with the calls \<open>cs0\<close> and the frames \<open>fs0\<close> keeps, when \<open>enq\<close> arrived in it: the
  calls and the queue come from the arrivals, in order, and the results relayed (and awaited) belong
  to the calls, in order.
\<close>

definition tuning_inv :: "pyval list \<Rightarrow> tuning_out list \<Rightarrow> pyval list \<Rightarrow> ros_tuning \<Rightarrow> bool" where
  "tuning_inv cs0 fs0 enq s \<longleftrightarrow> length (rt_queue s) \<le> MAX_QUEUE
     \<and> (\<exists>cs fs. rt_calls s = cs0 @ cs \<and> rt_out s = fs0 @ fs
          \<and> subseq (filter (\<lambda>w. \<not> own_probe w) cs @ rt_queue s) enq
          \<and> subseq (relayed_ids fs @ awaited s) (map envelope_id cs)
          \<and> list_all relay_matches fs)"

lemma subseq_butlast: "subseq (xs @ ys) zs \<Longrightarrow> subseq xs zs"
  by (meson list_emb_append2 list_emb_prefix subseq_order.order_refl subseq_order.trans)

lemma answer_inv: "tuning_inv cs0 fs0 enq s \<Longrightarrow> tuning_inv cs0 fs0 enq (tuning_emit (Answer rid oc d) s)"
  by (fastforce simp: tuning_inv_def tuning_emit_def awaited_def)

lemma counters_inv:
  "tuning_inv cs0 fs0 enq (s\<lparr>rt_unknown := n\<rparr>) = tuning_inv cs0 fs0 enq s"
  "tuning_inv cs0 fs0 enq (s\<lparr>rt_dropped := n\<rparr>) = tuning_inv cs0 fs0 enq s"
  "tuning_inv cs0 fs0 enq (s\<lparr>rt_last_probe := p\<rparr>) = tuning_inv cs0 fs0 enq s"
  "tuning_inv cs0 fs0 enq (s\<lparr>rt_snapshot := sn, rt_snapshot_at := t, rt_policy_required := b\<rparr>) = tuning_inv cs0 fs0 enq s"
  "tuning_inv cs0 fs0 enq (s\<lparr>rt_snapshot := sn\<rparr>) = tuning_inv cs0 fs0 enq s"
  by (simp_all add: tuning_inv_def awaited_def)

lemma unknown_inv: "tuning_inv cs0 fs0 enq s \<Longrightarrow> tuning_inv cs0 fs0 enq (send_unknown rid d s)"
  by (simp add: send_unknown_def answer_inv counters_inv)

lemma settled_inv: "tuning_inv cs0 fs0 enq s \<Longrightarrow> tuning_inv cs0 fs0 enq (s\<lparr>rt_inflight := None\<rparr>)"
  using subseq_butlast by (fastforce simp: tuning_inv_def awaited_def)

lemma enqueue_inv: "tuning_inv cs0 fs0 enq s \<Longrightarrow> tuning_inv cs0 fs0 (enq @ [unwrap payload]) (tuning_enqueue payload s)"
proof -
  assume inv: "tuning_inv cs0 fs0 enq s"
  then have late: "tuning_inv cs0 fs0 (enq @ [unwrap payload]) s"
    by (auto simp: tuning_inv_def intro: list_emb_prefix)
  show ?thesis
  proof (cases "MAX_QUEUE \<le> length (rt_queue s)")
    case True
    then show ?thesis using late by (simp add: tuning_enqueue_def Let_def unknown_inv counters_inv)
  next
    case False
    obtain cs fs where w: "rt_calls s = cs0 @ cs" "rt_out s = fs0 @ fs"
        "subseq (filter (\<lambda>w. \<not> own_probe w) cs @ rt_queue s) enq"
        "subseq (relayed_ids fs @ awaited s) (map envelope_id cs)" "list_all relay_matches fs"
      using inv by (auto simp: tuning_inv_def)
    have "subseq ((filter (\<lambda>w. \<not> own_probe w) cs @ rt_queue s) @ [unwrap payload]) (enq @ [unwrap payload])"
      using w(3) by (intro list_emb_append_mono) auto
    then show ?thesis
      using w False by (auto simp: tuning_enqueue_def Let_def tuning_inv_def awaited_def)
  qed
qed

text \<open>A dispatch answers the envelope itself or starts one call.\<close>

lemma dispatch_cases:
  obtains (answered) oc d where "tuning_dispatch repr e w s = tuning_emit (Answer (envelope_id w) oc d) s"
  | (unstarted) d where "tuning_dispatch repr e w s = send_unknown (envelope_id w) d s"
  | (called) c where "tuning_dispatch repr e w s = s\<lparr>rt_calls := rt_calls s @ [w], rt_inflight := Some c\<rparr>"
      "fl_request_id c = envelope_id w" "fl_generation c = ti_generation e" "wrapper_reason repr w = None"
proof (cases "wrapper_reason repr w")
  case None
  show ?thesis
  proof (cases "ti_ready e 1 \<and> ti_encodes e \<and> ti_starts e")
    case True
    then show ?thesis using None by (intro called) (auto simp: tuning_dispatch_def Let_def)
  next
    case False
    then consider "\<not> ti_ready e 1" | "ti_ready e 1" "\<not> ti_encodes e" | "ti_ready e 1" "ti_encodes e" "\<not> ti_starts e"
      by blast
    then show ?thesis
    proof cases
      case 3
      then show ?thesis using None by (intro unstarted) (simp add: tuning_dispatch_def Let_def)
    qed (use None in \<open>intro answered, simp add: tuning_dispatch_def Let_def\<close>)+
  qed
next
  case (Some r)
  then show ?thesis by (intro answered) (auto simp: tuning_dispatch_def Let_def)
qed

lemma called_inv:
  assumes inv: "tuning_inv cs0 fs0 enq s" and idle: "rt_inflight s = None"
    and src: "rt_queue s = w # rest \<or> own_probe w \<and> rest = rt_queue s" and c: "fl_request_id c = envelope_id w"
  shows "tuning_inv cs0 fs0 enq (s\<lparr>rt_queue := rest, rt_calls := rt_calls s @ [w], rt_inflight := Some c\<rparr>)"
proof -
  obtain cs fs where w: "rt_calls s = cs0 @ cs" "rt_out s = fs0 @ fs"
      "subseq (filter (\<lambda>w. \<not> own_probe w) cs @ rt_queue s) enq"
      "subseq (relayed_ids fs) (map envelope_id cs)" "list_all relay_matches fs"
    using inv idle by (auto simp: tuning_inv_def awaited_def)
  have len: "length rest \<le> MAX_QUEUE" using inv src by (auto simp: tuning_inv_def)
  have "subseq (filter (\<lambda>w. \<not> own_probe w) (cs @ [w]) @ rest) (filter (\<lambda>w. \<not> own_probe w) cs @ rt_queue s)"
    using src by (auto intro!: list_emb_append_mono)
  then have q: "subseq (filter (\<lambda>w. \<not> own_probe w) (cs @ [w]) @ rest) enq"
    using w(3) by (blast intro: subseq_order.trans)
  have "subseq (relayed_ids fs @ [envelope_id w]) (map envelope_id (cs @ [w]))"
    using w(4) by (simp add: list_emb_append_mono)
  then show ?thesis using w len q c by (auto simp: tuning_inv_def awaited_def)
qed

lemma dispatch_inv:
  assumes inv: "tuning_inv cs0 fs0 enq s" and idle: "rt_inflight s = None"
    and src: "rt_queue s = w # rest \<or> own_probe w \<and> rest = rt_queue s"
  shows "tuning_inv cs0 fs0 enq (tuning_dispatch repr e w (s\<lparr>rt_queue := rest\<rparr>))"
proof -
  obtain cs fs where w: "rt_calls s = cs0 @ cs" "rt_out s = fs0 @ fs"
      "subseq (filter (\<lambda>w. \<not> own_probe w) cs @ rt_queue s) enq"
      "subseq (relayed_ids fs) (map envelope_id cs)" "list_all relay_matches fs"
    using inv idle by (auto simp: tuning_inv_def awaited_def)
  have "subseq (filter (\<lambda>w. \<not> own_probe w) cs @ rest) (filter (\<lambda>w. \<not> own_probe w) cs @ rt_queue s)"
    using src by (auto intro!: list_emb_append_mono)
  then have "subseq (filter (\<lambda>w. \<not> own_probe w) cs @ rest) enq"
    using w(3) by (blast intro: subseq_order.trans)
  then have popped: "tuning_inv cs0 fs0 enq (s\<lparr>rt_queue := rest\<rparr>)"
    using inv src w idle by (auto simp: tuning_inv_def awaited_def)
  show ?thesis
  proof (cases rule: dispatch_cases [of repr e w "s\<lparr>rt_queue := rest\<rparr>"])
    case (answered oc d)
    then show ?thesis using answer_inv [OF popped] by simp
  next
    case (unstarted d)
    then show ?thesis using unknown_inv [OF popped] by simp
  next
    case (called c)
    then show ?thesis using called_inv [OF inv idle src called(2)] by simp
  qed
qed

lemma relay_inv:
  assumes inv: "tuning_inv cs0 fs0 enq s" and call: "rt_inflight s = Some c"
    and data: "canonical_uuid (get d ''request_id'') = Some (fl_request_id c)"
  shows "tuning_inv cs0 fs0 enq (tuning_emit (Relay (fl_request_id c) d)
     (s\<lparr>rt_inflight := None, rt_snapshot := sn, rt_snapshot_at := t, rt_policy_required := b\<rparr>))"
  using inv call data by (auto simp: tuning_inv_def tuning_emit_def awaited_def)

lemma accepted_result_id: "accepted_result rid reply = Inr d \<Longrightarrow> canonical_uuid (get d ''request_id'') = Some rid"
  by (auto simp: accepted_result_def split: core_reply.splits if_splits option.splits pyval.splits)

lemma finish_cases:
  obtains (stale) "fl_generation c \<noteq> ti_generation e"
      "tuning_finish e c s = (s\<lparr>rt_inflight := None\<rparr>)\<lparr>rt_unknown := Suc (rt_unknown s)\<rparr>"
  | (unknown) d where "tuning_finish e c s = send_unknown (fl_request_id c) d (s\<lparr>rt_inflight := None\<rparr>)"
  | (relayed) d sn t b where "fl_generation c = ti_generation e"
      "accepted_result (fl_request_id c) (ti_reply e) = Inr d" "rt_policy_required s \<longrightarrow> b"
      "tuning_finish e c s = tuning_emit (Relay (fl_request_id c) d)
         (s\<lparr>rt_inflight := None, rt_snapshot := sn, rt_snapshot_at := t, rt_policy_required := b\<rparr>)"
proof (cases "fl_generation c = ti_generation e")
  case True
  show ?thesis
  proof (cases "accepted_result (fl_request_id c) (ti_reply e)")
    case (Inl d)
    then show ?thesis using True by (intro unknown [of d]) (simp add: tuning_finish_def Let_def)
  next
    case (Inr d)
    have same: "t\<lparr>rt_inflight := None\<rparr> = t\<lparr>rt_inflight := None, rt_snapshot := rt_snapshot t,
        rt_snapshot_at := rt_snapshot_at t, rt_policy_required := rt_policy_required t\<rparr>" for t :: ros_tuning
      by simp
    show ?thesis
    proof (cases "\<exists>snap. get d ''snapshot'' = VDict snap \<and> get d ''outcome'' = VStr ''ok''")
      case True
      then obtain snap where "get d ''snapshot'' = VDict snap" "get d ''outcome'' = VStr ''ok''" by blast
      then show ?thesis
        using \<open>fl_generation c = ti_generation e\<close> Inr
        by (intro relayed [where b = "rt_policy_required s \<or> get snap ''policy_required'' = VBool True"])
          (simp_all add: tuning_finish_def Let_def)
    next
      case False
      then have "tuning_finish e c s = tuning_emit (Relay (fl_request_id c) d) (s\<lparr>rt_inflight := None\<rparr>)"
        using \<open>fl_generation c = ti_generation e\<close> Inr
        by (auto simp: tuning_finish_def Let_def split: pyval.split)
      then show ?thesis
        using \<open>fl_generation c = ti_generation e\<close> Inr same [of s]
        by (intro relayed [where b = "rt_policy_required s" and sn = "rt_snapshot s" and t = "rt_snapshot_at s"]) simp_all
    qed
  qed
next
  case False
  then show ?thesis by (intro stale) (simp_all add: tuning_finish_def Let_def)
qed

lemma finish_inv:
  assumes inv: "tuning_inv cs0 fs0 enq s" and call: "rt_inflight s = Some c"
  shows "tuning_inv cs0 fs0 enq (tuning_finish e c s)"
proof (cases rule: finish_cases [of c e s])
  case stale
  then show ?thesis using settled_inv [OF inv] by (simp add: counters_inv)
next
  case (unknown d)
  then show ?thesis using unknown_inv [OF settled_inv [OF inv]] by simp
next
  case (relayed d sn t b)
  then show ?thesis using relay_inv [OF inv call accepted_result_id [OF relayed(2)]] by simp
qed

lemma tick_inv: "tuning_inv cs0 fs0 enq s \<Longrightarrow> tuning_inv cs0 fs0 enq (tuning_tick repr e s)"
proof (cases "rt_inflight s")
  case None
  assume inv: "tuning_inv cs0 fs0 enq s"
  show ?thesis
  proof (cases "rt_queue s")
    case Nil
    have "tuning_inv cs0 fs0 enq (tuning_dispatch repr e (probe_wrapper (ti_uuid e))
        ((s\<lparr>rt_last_probe := Some (ti_clock e 0)\<rparr>)\<lparr>rt_queue := []\<rparr>))"
      by (rule dispatch_inv) (use inv None Nil in \<open>simp_all add: counters_inv\<close>)
    moreover have "(s\<lparr>rt_last_probe := p\<rparr>)\<lparr>rt_queue := []\<rparr> = s\<lparr>rt_last_probe := p\<rparr>" for p
      using Nil by (cases s) simp
    ultimately show ?thesis using None Nil inv by (simp add: tuning_tick_def)
  next
    case (Cons w rest)
    then show ?thesis using dispatch_inv [OF inv None, of w rest] None by (simp add: tuning_tick_def)
  qed
next
  case (Some c)
  assume "tuning_inv cs0 fs0 enq s"
  then show ?thesis
    using Some finish_inv [of cs0 fs0 enq s c e] unknown_inv [OF settled_inv]
    by (auto simp: tuning_tick_def)
qed

lemma disconnected_inv: "tuning_inv cs0 fs0 enq s \<Longrightarrow> tuning_inv cs0 fs0 enq (adapter_disconnected s)"
proof -
  assume inv: "tuning_inv cs0 fs0 enq s"
  obtain cs fs where w: "rt_calls s = cs0 @ cs" "rt_out s = fs0 @ fs"
      "subseq (filter (\<lambda>w. \<not> own_probe w) cs @ rt_queue s) enq"
      "subseq (relayed_ids fs @ awaited s) (map envelope_id cs)" "list_all relay_matches fs"
    using inv by (auto simp: tuning_inv_def)
  note less = subseq_butlast [OF w(3)] subseq_butlast [OF w(4)]
  have "rt_calls (adapter_disconnected s) = rt_calls s" "rt_out (adapter_disconnected s) = rt_out s"
    "rt_queue (adapter_disconnected s) = []" "awaited (adapter_disconnected s) = []"
    by (simp_all add: adapter_disconnected_def Let_def awaited_def)
  then show ?thesis using w less by (auto simp: tuning_inv_def)
qed

lemma run_inv: "tuning_inv cs0 fs0 enq s \<Longrightarrow> tuning_inv cs0 fs0 (enq @ arrivals ops) (fold (tuning_step repr) ops s)"
proof (induction ops arbitrary: enq s)
  case (Cons op ops)
  then show ?case
  proof (cases op)
    case (Enqueue payload)
    then show ?thesis using Cons.IH [OF enqueue_inv [OF Cons.prems, of payload]] by simp
  next
    case (Tick e)
    then show ?thesis using Cons.IH [OF tick_inv [OF Cons.prems]] by simp
  next
    case Disconnected
    then show ?thesis using Cons.IH [OF disconnected_inv [OF Cons.prems]] by simp
  qed
qed simp

lemma fresh_inv: "tuning_inv (rt_calls (adapter_disconnected s)) (rt_out (adapter_disconnected s)) [] (adapter_disconnected s)"
  by (simp add: tuning_inv_def adapter_disconnected_def Let_def awaited_def)

text \<open>
  The adapter of the robot hands over each envelope at most once and never replays one. In every
  run at most eight envelopes wait. After the connection is lost, whatever happens later: the calls
  made to the core (besides the adapter's own reads) are, in order, among the envelopes that arrived
  after the loss; the results relayed belong, in order and each at most once, to calls made after the
  loss; and every result relayed names the id of its call. So neither a change queued on the old
  connection nor the result of a call started there survives it.
\<close>

theorem tuning_calls_never_replayed:
  "length (rt_queue (tuning_after repr ops)) \<le> 8
   \<and> (\<exists>calls frames. rt_calls (tuning_after repr (ops @ Disconnected # later)) = rt_calls (tuning_after repr ops) @ calls
        \<and> rt_out (tuning_after repr (ops @ Disconnected # later)) = rt_out (tuning_after repr ops) @ frames
        \<and> subseq (filter (\<lambda>w. \<not> own_probe w) calls) (arrivals later)
        \<and> subseq (relayed_ids frames) (map envelope_id calls)
        \<and> list_all relay_matches frames)"
proof -
  let ?s = "tuning_after repr ops"
  have "tuning_inv [] [] [] new_ros_tuning" by (simp add: tuning_inv_def new_ros_tuning_def awaited_def)
  from run_inv [OF this, of ops repr] have len: "length (rt_queue ?s) \<le> 8"
    by (auto simp: tuning_inv_def tuning_after_def MAX_QUEUE_def)
  have same: "rt_calls (adapter_disconnected ?s) = rt_calls ?s" "rt_out (adapter_disconnected ?s) = rt_out ?s"
    by (simp_all add: adapter_disconnected_def Let_def)
  have "tuning_inv (rt_calls ?s) (rt_out ?s) (arrivals later) (tuning_after repr (ops @ Disconnected # later))"
    using run_inv [OF fresh_inv [of ?s], of later repr] same by (simp add: tuning_after_def)
  then obtain calls frames where "rt_calls (tuning_after repr (ops @ Disconnected # later)) = rt_calls ?s @ calls"
      "rt_out (tuning_after repr (ops @ Disconnected # later)) = rt_out ?s @ frames"
      "subseq (filter (\<lambda>w. \<not> own_probe w) calls) (arrivals later)"
      "subseq (relayed_ids frames) (map envelope_id calls)" "list_all relay_matches frames"
    by (auto simp: tuning_inv_def dest: subseq_butlast)
  then show ?thesis using len by blast
qed

text \<open>A policy that was required once is required for good.\<close>

lemma required_dispatch: "rt_policy_required (tuning_dispatch repr e w s) = rt_policy_required s"
  by (cases rule: dispatch_cases [of repr e w s]) (simp_all add: tuning_emit_def send_unknown_def)

lemma required_step: "rt_policy_required s \<Longrightarrow> rt_policy_required (tuning_step repr op s)"
proof (cases op)
  case (Enqueue payload)
  assume "rt_policy_required s"
  then show ?thesis using Enqueue
    by (simp add: tuning_enqueue_def Let_def send_unknown_def tuning_emit_def)
next
  case (Tick e)
  assume req: "rt_policy_required s"
  have fin: "rt_policy_required (tuning_finish e c s)" for c
    by (cases rule: finish_cases [of c e s]) (use req in \<open>simp_all add: send_unknown_def tuning_emit_def\<close>)
  show ?thesis
    unfolding Tick using req fin
    by (auto simp: tuning_tick_def required_dispatch send_unknown_def tuning_emit_def
        split: option.split list.split)
next
  case Disconnected
  assume "rt_policy_required s"
  then show ?thesis using Disconnected by (simp add: adapter_disconnected_def Let_def)
qed

lemma required_run: "rt_policy_required s \<Longrightarrow> rt_policy_required (fold (tuning_step repr) ops s)"
  by (induction ops arbitrary: s) (simp_all add: required_step)

lemma adapter_policy_evidence:
  assumes "adapter_policy fmt base s = Some raw" "raw \<noteq> Raw_none"
  shows "\<exists>snap g limits. rt_snapshot s = Some snap \<and> base = Some g \<and> py_truth (get snap ''active_known'')
    \<and> numeric (get snap ''hardware_session_generation'') = Some (Fin (of_int g))
    \<and> get snap ''effective_limits'' = VDict limits
    \<and> (\<exists>generation. raw = policy_mapping limits generation (rt_snapshot_at s) g)"
  using assms
  by (auto simp: adapter_policy_def split: option.splits if_splits pyval.splits)


text \<open>A bridge whose own read brings a snapshot that requires the policy, then loses its connection.\<close>

definition example_tick :: tick_env where
  "example_tick = \<lparr>ti_clock = (\<lambda>_. 10), ti_ready = (\<lambda>_. True), ti_connected = True, ti_generation = 1,
     ti_encodes = True, ti_starts = True, ti_done = True,
     ti_reply = Reply_text 400 (Some (VDict [(''request_id'', VStr example_session), (''outcome'', VStr ''ok''),
       (''snapshot'', VDict [(''session_id'', VStr example_session), (''active_known'', VBool True),
         (''policy_required'', VBool True), (''active_revision'', VInt 4), (''digest'', VStr ''ab''),
         (''hardware_session_generation'', VInt 7),
         (''effective_limits'', VDict [(''max_linear_m_s'', VFloat (Fin (1/5))), (''max_angular_rad_s'', VInt 0)])])])),
     ti_uuid = example_session\<rparr>"

lemma example_probe: "wrapper_reason (\<lambda>q. []) (probe_wrapper example_session) = None"
proof -
  let ?w = "dict_of (probe_wrapper example_session)"
  have "length (string_of_int 0) = 1" "length (string_of_int 1) = 1"
    by (simp_all add: string_of_int_def digits_of.simps)
  then have "size_reason (\<lambda>q. []) ?w = None"
    by (simp add: size_reason_def probe_wrapper_def dict_of_def length_quoted escape_char_def example_session_def
        ZERO_UUID_def TUNING_CONTRACT_def TUNING_CAPABILITY_def BRIDGE_MAX_REQUEST_def)
  moreover obtain r where r: "get ?w ''request'' = VDict r" by (simp add: probe_wrapper_def dict_of_def get_def)
  moreover have "request_reason ?w (dict_of (get ?w ''actor'')) (dict_of (get ?w ''request'')) ''read'' = None"
    "actor_reason (get ?w ''actor'') = None" by code_simp+
  moreover have "get (dict_of (get ?w ''request'')) ''contract'' = VStr TUNING_CONTRACT"
    "get (dict_of (get ?w ''request'')) ''version'' = VInt 1"
    "get (dict_of (get ?w ''request'')) ''operation'' = VStr ''read''" by code_simp+
  moreover have "set (dkeys ?w) = {''request'', ''actor''}"
    by (auto simp: probe_wrapper_def dict_of_def dkeys_def)
  moreover have "probe_wrapper example_session = VDict ?w" by (simp add: probe_wrapper_def dict_of_def)
  ultimately show ?thesis
    using wrapper_reason_None [of ?w r "''read''" "\<lambda>q. []"] by (auto simp: dict_of_def OPERATIONS_def)
qed

definition example_adapter :: ros_tuning where
  "example_adapter = tuning_after (\<lambda>q. []) [Tick example_tick, Tick example_tick]"

lemma example_adapter_snapshot:
  "rt_policy_required example_adapter \<and> rt_snapshot_at example_adapter = 10
   \<and> (\<exists>snap. rt_snapshot example_adapter = Some snap
        \<and> adapter_policy (\<lambda>v. ''s'') (Some 7) example_adapter =
            Some (policy_mapping [(''max_linear_m_s'', VFloat (Fin (1/5))), (''max_angular_rad_s'', VInt 0)]
              ''s:s:ab'' 10 7))"
proof -
  let ?c = "\<lparr>fl_request_id = example_session, fl_generation = 1, fl_sent_at = 10, fl_deadline = DEFAULT_DEADLINE_S\<rparr>"
  let ?s = "new_ros_tuning\<lparr>rt_last_probe := Some 10, rt_calls := [probe_wrapper example_session], rt_inflight := Some ?c\<rparr>"
  have id: "envelope_id (probe_wrapper example_session) = example_session" by code_simp
  have "tuning_tick (\<lambda>q. []) example_tick new_ros_tuning = ?s"
    using example_probe id
    by (simp add: tuning_tick_def new_ros_tuning_def probe_due_def tuning_dispatch_def example_tick_def Let_def)
  then have ad: "example_adapter = tuning_finish example_tick ?c ?s"
    by (simp add: example_adapter_def tuning_after_def tuning_tick_def example_tick_def)
  have "accepted_result example_session (ti_reply example_tick) =
      Inr (case ti_reply example_tick of Reply_text n (Some (VDict d)) \<Rightarrow> d | _ \<Rightarrow> [])"
    by (simp add: example_tick_def accepted_result_def BRIDGE_MAX_RESPONSE_def get_def canonical_uuid_def)
      code_simp
  then show ?thesis
    unfolding ad
    by (simp add: tuning_finish_def example_tick_def Let_def tuning_emit_def get_def new_ros_tuning_def
        adapter_policy_def numeric_def remove_prefix_def)
qed

definition example_policy_env :: session_env where
  "example_policy_env = (calm (\<lambda>_. 11))
     \<lparr>en_policy := Some (adapter_policy (\<lambda>v. ''s'') (Some 7) example_adapter), en_policy_required := True\<rparr>"

lemma example_session_policy:
  "\<exists>p. session_policy web_teleop_contract example_policy_env 0 = Inr p"
proof -
  have "bridge_valid_generation (VStr ''s:s:ab'')" by code_simp
  then show ?thesis
    using example_adapter_snapshot
    by (auto simp: session_policy_def example_policy_env_def calm_def policy_mapping_def parse_runtime_policy_def
        field_of_def bridge_finite_number_def float_of_int_def web_teleop_contract_def binding_invalid_def
        bridge_POLICY_MAX_AGE_S_def bridge_POLICY_FUTURE_TOLERANCE_S_def Let_def)
qed


end
