(* ===== verification/Gateways.thy ===== *)
theory Gateways
  imports Messages Frame_Queues Tuning_Validation
begin

text \<open>
  The three ends of the two sockets that decide what becomes of a frame: \<open>robot_ws\<close>
  (\<open>server/app/websocket/robot_gateway.py\<close>), \<open>ui_ws\<close> (\<open>server/app/websocket/ui_gateway.py\<close>) and
  \<open>_drain_incoming\<close> of the robot (\<open>ws_client.py\<close>). The robot's outbound client
  (\<open>Frame_Queues\<close>) is composed with the gateway that reads its frames.

  Decoding a text into an envelope and a typed payload is the work of the protocol module: a gateway
  is given its result. What a frame leads to is a value (\<open>route\<close>); the brokers it goes to are
  modelled elsewhere.
\<close>

subsection \<open>The robot socket of the server\<close>

record robot_envelope =
  re_type :: string
  re_robot :: string
  re_sequence :: int

datatype robot_route = Dropped | To_tuning_broker robot_envelope | To_command_broker robot_envelope
  | To_hub robot_envelope

text \<open>\<open>_extract_token\<close>, from the header (empty when missing) and the query parameter.\<close>

definition extract_token :: "string \<Rightarrow> string \<Rightarrow> string" where
  "extract_token auth query =
     (if auth \<noteq> [] then (if take 7 (py_lower auth) = ''bearer '' then py_strip (drop 7 auth) else py_strip auth)
      else query)"

text \<open>
  Up to the accepted hello: the close code, no code when the robot left first, or the envelope of the
  hello. \<open>None\<close> in place of the first frame is a socket that closed, \<open>Some None\<close> one that does not decode.
\<close>

definition admit_robot :: "string \<Rightarrow> string \<Rightarrow> string \<Rightarrow> robot_envelope option option \<Rightarrow> nat option + robot_envelope" where
  "admit_robot robot_token auth query first =
     (let token = extract_token auth query
      in if token = [] \<or> token \<noteq> robot_token then Inl (Some 4401)
         else case first of
             None \<Rightarrow> Inl None
           | Some None \<Rightarrow> Inl (Some 4400)
           | Some (Some e) \<Rightarrow> if re_type e \<noteq> ''robot.hello'' then Inl (Some 4400) else Inr e)"

definition want_map :: "int option \<Rightarrow> int \<Rightarrow> bool" where
  "want_map stored announced = (stored \<noteq> Some announced)"

definition COMMAND_PREFIX :: string where "COMMAND_PREFIX = ''command.''"

text \<open>Where an accepted frame goes, and one turn of the loop with the last sequence number.\<close>

definition frame_route :: "robot_envelope \<Rightarrow> robot_route" where
  "frame_route e =
     (if re_type e = ''tuning.response'' then To_tuning_broker e
      else if take (length COMMAND_PREFIX) (re_type e) = COMMAND_PREFIX then To_command_broker e
      else To_hub e)"

definition route_robot_frame :: "string \<Rightarrow> int \<Rightarrow> robot_envelope option \<Rightarrow> int \<times> robot_route" where
  "route_robot_frame robot last_seq decoded =
     (case decoded of
        None \<Rightarrow> (last_seq, Dropped)
      | Some e \<Rightarrow>
          if re_robot e \<noteq> robot then (last_seq, Dropped)
          else if re_sequence e \<le> last_seq then (last_seq, Dropped)
          else (re_sequence e, frame_route e))"

fun robot_loop :: "string \<Rightarrow> int \<Rightarrow> robot_envelope option list \<Rightarrow> robot_route list" where
  "robot_loop robot last_seq [] = []"
| "robot_loop robot last_seq (f # fs) =
     (case route_robot_frame robot last_seq f of (last', r) \<Rightarrow> r # robot_loop robot last' fs)"

subsection \<open>The browser socket of the server\<close>

text \<open>\<open>s.split(sep)\<close> for a single character, and the non-empty stripped parts the settings use.\<close>

fun py_split :: "char \<Rightarrow> string \<Rightarrow> string list" where
  "py_split sep [] = [[]]"
| "py_split sep (c # s) =
     (if c = sep then [] # py_split sep s
      else case py_split sep s of [] \<Rightarrow> [[c]] | w # ws \<Rightarrow> (c # w) # ws)"

definition name_list :: "string \<Rightarrow> string list" where
  "name_list s = filter (\<lambda>w. w \<noteq> []) (map py_strip (py_split (CHR '','') s))"

definition ui_origin_allowed :: "string \<Rightarrow> string option \<Rightarrow> bool" where
  "ui_origin_allowed allowed_origins origin =
     (name_list allowed_origins = []
      \<or> (case origin of None \<Rightarrow> False | Some w \<Rightarrow> w \<in> set (name_list allowed_origins)))"

text \<open>\<open>_raw_tuning_type\<close>, from the text and what \<open>json.loads\<close> makes of it.\<close>

definition raw_tuning_type :: "string \<Rightarrow> pyval option \<Rightarrow> string option" where
  "raw_tuning_type raw decoded =
     (if \<not> substring (CHR 0x22 # ''tuning.'') raw then None
      else case decoded of
          Some (VDict d) \<Rightarrow>
            (case get d ''type'' of VStr t \<Rightarrow> if take 7 t = ''tuning.'' then Some t else None | _ \<Rightarrow> None)
        | _ \<Rightarrow> None)"

text \<open>
  A browser frame as the loop sees it: a tuning frame, one that does not decode (with the type and
  data of its envelope, if it has one), a velocity sample, a command, or anything else.
\<close>

datatype ui_frame = Tuning_frame string | Undecodable "(string \<times> string \<times> entry) option"
  | Velocity_frame teleop_velocity | Command_frame command_request | Other_frame

datatype reject_reason = Unsupported_command | Invalid_fields

datatype ui_route = Close_expired | Ignored | Reject_audited string string string reject_reason
  | To_teleop teleop_velocity | To_broker command_request

record ui_window =
  uw_start :: rat
  uw_frames :: nat

definition EMERGENCY :: "command list" where
  "EMERGENCY = [Stop, Motor_disable, Teleop_stop, Software_reset]"

definition COMMAND_NAMES :: "string list" where
  "COMMAND_NAMES = [''navigate_to_pose'', ''set_initial_pose'', ''stop'', ''teleop_start'', ''teleop_stop'',
     ''charge_release'', ''motor_enable'', ''motor_disable'', ''undock'', ''software_reset'',
     ''set_lidar_power'', ''dock_reset'']"

text \<open>The answer to a frame that does not decode: a request with a usable id is rejected and audited.\<close>

definition undecodable_route :: "(string \<times> string \<times> entry) option \<Rightarrow> ui_route" where
  "undecodable_route invalid =
     (case invalid of
        None \<Rightarrow> Ignored
      | Some (t, robot, data) \<Rightarrow>
          (case get data ''command_id'' of
             VStr cid \<Rightarrow>
               if t \<noteq> ''command.request'' \<or> py_strip cid = [] \<or> 128 < length cid then Ignored
               else let name = (case get data ''command'' of VStr c \<Rightarrow> if 64 < length c then ''invalid'' else c
                                 | _ \<Rightarrow> ''invalid'')
                    in Reject_audited robot cid name
                         (if name \<in> set COMMAND_NAMES then Invalid_fields else Unsupported_command)
           | _ \<Rightarrow> Ignored))"

text \<open>The frame counter of the flood guard: a new window starts once the old one is a second old.\<close>

definition count_frame :: "rat \<Rightarrow> ui_window \<Rightarrow> ui_window" where
  "count_frame now w =
     (let w1 = (if 1 \<le> now - uw_start w then \<lparr>uw_start = now, uw_frames = 0\<rparr> else w)
      in w1\<lparr>uw_frames := Suc (uw_frames w1)\<rparr>)"

definition ui_turn :: "nat \<Rightarrow> bool \<Rightarrow> rat \<Rightarrow> ui_frame \<Rightarrow> ui_window \<Rightarrow> ui_window \<times> ui_route" where
  "ui_turn cap signed_in now f w =
     (case f of
        Tuning_frame t \<Rightarrow> (w, if signed_in then Ignored else Close_expired)
      | _ \<Rightarrow>
        let w1 = count_frame now w; over = (cap < uw_frames w1)
        in (w1, case f of
              Undecodable invalid \<Rightarrow> if over then Ignored else undecodable_route invalid
            | Velocity_frame v \<Rightarrow> To_teleop v
            | Command_frame c \<Rightarrow> if over \<and> cr_command c \<notin> set EMERGENCY then Ignored else To_broker c
            | _ \<Rightarrow> Ignored))"

definition frame_cap :: "nat \<Rightarrow> nat" where "frame_cap setting = max 1 setting"

fun ui_loop :: "nat \<Rightarrow> (rat \<times> bool \<times> ui_frame) list \<Rightarrow> ui_window \<Rightarrow> ui_route list" where
  "ui_loop cap [] w = []"
| "ui_loop cap ((now, signed_in, f) # fs) w =
     (case ui_turn cap signed_in now f w of
        (w', Close_expired) \<Rightarrow> [Close_expired]
      | (w', r) \<Rightarrow> r # ui_loop cap fs w')"

subsection \<open>Incoming frames of the robot\<close>

text \<open>
  \<open>_drain_incoming\<close> for one message: the callbacks it leads to. \<open>None\<close> in place of the decoded message
  is one that is not JSON. A result \<open>None\<close> is the exception a cancel with data that is no object raises;
  it ends the reader and with it the connection. \<open>version == 1\<close> holds for 1.0 and true as well.
\<close>

datatype delivery = Teleop_delivery entry | Tuning_delivery pyval | Command_delivery pyval | Cancel_delivery pyval

record ws_callbacks =
  cb_teleop :: bool
  cb_tuning :: bool
  cb_command :: bool

definition addressed :: "string \<Rightarrow> entry \<Rightarrow> bool" where
  "addressed robot d = (numeric (get d ''version'') = Some (Fin 1) \<and> get d ''robot_id'' = VStr robot)"

definition frame_payload :: "entry \<Rightarrow> pyval" where
  "frame_payload d = default (VDict []) (dget d ''data'')"

definition drain_message :: "ws_callbacks \<Rightarrow> string \<Rightarrow> pyval option \<Rightarrow> delivery list option" where
  "drain_message cb robot decoded =
     (case decoded of
        Some (VDict d) \<Rightarrow>
          if get d ''robot_id'' \<noteq> VNone \<and> get d ''robot_id'' \<noteq> VStr robot then Some []
          else if get d ''type'' = VStr ''teleop.velocity'' \<and> cb_teleop cb
          then Some (if addressed robot d then [Teleop_delivery d] else [])
          else if get d ''type'' = VStr ''tuning.request'' \<and> cb_tuning cb
          then Some (if addressed robot d then [Tuning_delivery (frame_payload d)] else [])
          else if get d ''type'' = VStr ''command.cancel'' \<and> cb_command cb
          then (case frame_payload d of VDict x \<Rightarrow> Some [Cancel_delivery (get x ''command_id'')] | _ \<Rightarrow> None)
          else if get d ''type'' = VStr ''command.request'' \<and> cb_command cb
          then Some [Command_delivery (frame_payload d)]
          else Some []
      | _ \<Rightarrow> Some [])"

subsection \<open>A flood of browser frames\<close>

text \<open>
  What counts against the budget: requests and rejections that reach the command broker, except the
  four commands that end motion.
\<close>

fun budgeted :: "ui_route \<Rightarrow> bool" where
  "budgeted (To_broker c) = (cr_command c \<notin> set EMERGENCY)"
| "budgeted (Reject_audited robot cid name r) = True"
| "budgeted _ = False"

definition spent :: "ui_route list \<Rightarrow> nat" where
  "spent rs = length (filter budgeted rs)"

lemma spent_simps [simp]:
  "spent [] = 0" "spent (r # rs) = (if budgeted r then Suc (spent rs) else spent rs)"
  by (simp_all add: spent_def)

lemma undecodable_not_close [simp]: "undecodable_route i \<noteq> Close_expired"
  by (simp add: undecodable_route_def Let_def split: option.split prod.split pyval.split)

lemma turn_budget:
  assumes "ui_turn cap signed_in now f w = (w', r)"
  shows "r = Close_expired \<or> w' = w \<and> \<not> budgeted r
    \<or> w' = count_frame now w \<and> (budgeted r \<longrightarrow> uw_frames w' \<le> cap)"
  using assms
  by (cases f) (auto simp: ui_turn_def Let_def undecodable_route_def split: if_splits option.splits prod.splits pyval.splits)

lemma loop_spent_window:
  assumes "\<forall>x\<in>set fs. fst x - uw_start w < 1"
  shows "spent (ui_loop cap fs w) \<le> cap - uw_frames w"
  using assms
proof (induction fs arbitrary: w)
  case (Cons x fs)
  obtain now signed_in f where x: "x = (now, signed_in, f)" by (cases x)
  obtain w' r where turn: "ui_turn cap signed_in now f w = (w', r)" by (cases "ui_turn cap signed_in now f w")
  have young: "now - uw_start w < 1" using Cons.prems x by simp
  then have count: "count_frame now w = w\<lparr>uw_frames := Suc (uw_frames w)\<rparr>" by (simp add: count_frame_def)
  consider (close) "r = Close_expired" | (free) "w' = w" "\<not> budgeted r" "r \<noteq> Close_expired"
    | (counted) "w' = w\<lparr>uw_frames := Suc (uw_frames w)\<rparr>" "budgeted r \<longrightarrow> Suc (uw_frames w) \<le> cap" "r \<noteq> Close_expired"
    using turn_budget [OF turn] count by (cases "r = Close_expired") auto
  then show ?case
  proof cases
    case close
    then show ?thesis using x turn by simp
  next
    case free
    then show ?thesis using x turn Cons.IH [of w] Cons.prems by (cases r) auto
  next
    case counted
    have "spent (ui_loop cap fs w') \<le> cap - uw_frames w'"
      by (rule Cons.IH) (use Cons.prems counted(1) in auto)
    then show ?thesis using x turn counted by (cases r) auto
  qed
qed simp

lemma turn_old_window:
  "1 \<le> now - uw_start w \<Longrightarrow> ui_loop cap ((now, si, f) # fs) w = ui_loop cap ((now, si, f) # fs) \<lparr>uw_start = now, uw_frames = 0\<rparr>
     \<or> (\<exists>t. f = Tuning_frame t)"
  by (cases f) (auto simp: ui_turn_def count_frame_def Let_def)

lemma loop_spent_second:
  assumes "\<forall>x\<in>set fs. t \<le> fst x \<and> fst x < t + 1"
  shows "spent (ui_loop cap fs w) \<le> 2 * cap"
proof -
  have "spent (ui_loop cap fs w) \<le> (cap - uw_frames w) + cap"
    using assms
  proof (induction fs arbitrary: w)
    case (Cons x fs)
    obtain now signed_in f where x: "x = (now, signed_in, f)" by (cases x)
    show ?case
    proof (cases "\<exists>s. f = Tuning_frame s")
      case True
      then show ?thesis using x Cons.IH [of w] Cons.prems by (auto simp: ui_turn_def)
    next
      case False
      show ?thesis
      proof (cases "1 \<le> now - uw_start w")
        case True
        then have "ui_loop cap (x # fs) w = ui_loop cap (x # fs) \<lparr>uw_start = now, uw_frames = 0\<rparr>"
          using turn_old_window [of now w cap signed_in f fs] False x by auto
        moreover have "spent (ui_loop cap (x # fs) \<lparr>uw_start = now, uw_frames = 0\<rparr>) \<le> cap"
          using loop_spent_window [of "x # fs" "\<lparr>uw_start = now, uw_frames = 0\<rparr>" cap] Cons.prems x by force
        ultimately show ?thesis by simp
      next
        case young: False
        obtain w' r where turn: "ui_turn cap signed_in now f w = (w', r)" by (cases "ui_turn cap signed_in now f w")
        have count: "count_frame now w = w\<lparr>uw_frames := Suc (uw_frames w)\<rparr>" using young by (simp add: count_frame_def)
        have ih: "spent (ui_loop cap fs v) \<le> (cap - uw_frames v) + cap" for v
          using Cons.IH [of v] Cons.prems by simp
        consider (close) "r = Close_expired" | (free) "w' = w" "\<not> budgeted r" "r \<noteq> Close_expired"
          | (counted) "w' = w\<lparr>uw_frames := Suc (uw_frames w)\<rparr>" "budgeted r \<longrightarrow> Suc (uw_frames w) \<le> cap" "r \<noteq> Close_expired"
          using turn_budget [OF turn] count by (cases "r = Close_expired") auto
        then show ?thesis
        proof cases
          case close
          then show ?thesis using x turn by simp
        next
          case free
          then show ?thesis using x turn ih [of w] by (cases r) auto
        next
          case counted
          then show ?thesis using x turn ih [of w'] by (cases r) auto
        qed
      qed
    qed
  qed simp
  then show ?thesis by simp
qed

text \<open>
  C26. A browser cannot flood the command path, and no flood delays a stop. In any second of one
  browser socket at most twice the frame cap of requests and audited rejections reach the command
  broker, whatever is sent; a decoded stop, motor disable, manual stop or software reset reaches it
  however many frames came before; and a tuning frame never reaches a broker: it is ignored, and it
  closes the socket once the sign-in has expired.
\<close>

theorem browser_flood_guard:
  assumes "\<forall>x\<in>set fs. t \<le> fst x \<and> fst x < t + 1"
  shows "spent (ui_loop (frame_cap setting) fs w) \<le> 2 * max 1 setting
    \<and> (cr_command c \<in> {Stop, Motor_disable, Teleop_stop, Software_reset} \<longrightarrow>
         snd (ui_turn cap signed_in now (Command_frame c) w) = To_broker c)
    \<and> snd (ui_turn cap signed_in now (Tuning_frame ty) w) = (if signed_in then Ignored else Close_expired)"
proof -
  have "cr_command c \<in> {Stop, Motor_disable, Teleop_stop, Software_reset} \<Longrightarrow> cr_command c \<in> set EMERGENCY"
    by (auto simp: EMERGENCY_def)
  then show ?thesis
    using loop_spent_second [OF assms, of "frame_cap setting" w]
    by (simp add: ui_turn_def Let_def frame_cap_def)
qed

definition plain_stop :: command_request where
  "plain_stop = \<lparr>cr_command_id = ''c1'', cr_command = Stop, cr_seed_profile = None, cr_enabled = None,
     cr_goal = None, cr_takeover = False, cr_allow_unlocalized = False, cr_operator_authorized = True\<rparr>"

theorem browser_flood_guard_witness:
  "spent (ui_loop (frame_cap 1) (replicate 9 (5, True, Undecodable (Some (''command.request'', ''r1'', [(''command_id'', VStr ''x'')]))))
       \<lparr>uw_start = 0, uw_frames = 0\<rparr>) \<le> 2
   \<and> snd (ui_turn 1 True 5 (Command_frame plain_stop) \<lparr>uw_start = 5, uw_frames = 99\<rparr>) = To_broker plain_stop"
proof -
  have "\<forall>x\<in>set (replicate 9 (5 :: rat, True, Undecodable (Some (''command.request'', ''r1'', [(''command_id'', VStr ''x'')])))).
      5 \<le> fst x \<and> fst x < 5 + 1" by simp
  from browser_flood_guard [OF this, of 1] show ?thesis
    by (simp add: plain_stop_def)
qed

subsection \<open>The robot's frames at the server\<close>

definition envelope_of :: "string \<Rightarrow> ws_frame \<Rightarrow> robot_envelope" where
  "envelope_of robot f = \<lparr>re_type = wf_type f, re_robot = robot, re_sequence = int (wf_sequence f)\<rparr>"

lemma robot_loop_increasing:
  assumes "sorted_wrt (\<lambda>f g. wf_sequence f < wf_sequence g) fs" "\<forall>f\<in>set fs. last_seq < int (wf_sequence f)"
  shows "robot_loop robot last_seq (map (Some \<circ> envelope_of robot) fs) = map (frame_route \<circ> envelope_of robot) fs"
  using assms
proof (induction fs arbitrary: last_seq)
  case (Cons f fs)
  have "route_robot_frame robot last_seq (Some (envelope_of robot f)) = (int (wf_sequence f), frame_route (envelope_of robot f))"
    using Cons.prems by (simp add: route_robot_frame_def envelope_of_def)
  moreover have "robot_loop robot (int (wf_sequence f)) (map (Some \<circ> envelope_of robot) fs)
      = map (frame_route \<circ> envelope_of robot) fs"
    by (rule Cons.IH) (use Cons.prems in auto)
  ultimately show ?case by (simp add: comp_def)
qed simp

text \<open>Frames the loop processes are strictly newer than those before, and of the robot of the session.\<close>

fun processed :: "robot_route list \<Rightarrow> robot_envelope list" where
  "processed [] = []"
| "processed (Dropped # rs) = processed rs"
| "processed (To_tuning_broker e # rs) = e # processed rs"
| "processed (To_command_broker e # rs) = e # processed rs"
| "processed (To_hub e # rs) = e # processed rs"

lemma processed_frame_route [simp]: "processed [frame_route e] = [e]"
  by (simp add: frame_route_def)

lemma route_cases:
  assumes "route_robot_frame robot n decoded = (n', r)"
  obtains (dropped) "r = Dropped" "n' = n"
  | (processed) e where "r = frame_route e" "processed [r] = [e]" "n' = re_sequence e" "n < re_sequence e" "re_robot e = robot"
proof (cases "r = Dropped \<and> n' = n")
  case False
  then obtain e where "decoded = Some e" "n' = re_sequence e" "r = frame_route e" "n < re_sequence e" "re_robot e = robot"
    using assms by (auto simp: route_robot_frame_def split: option.splits if_splits)
  then show ?thesis using processed by simp
qed (use dropped in simp)

lemma processed_Cons: "processed (r # rs) = processed [r] @ processed rs"
  by (cases r) auto

lemma robot_loop_processed:
  "sorted_wrt (\<lambda>d e. re_sequence d < re_sequence e) (processed (robot_loop robot n fs))
   \<and> (\<forall>e\<in>set (processed (robot_loop robot n fs)). n < re_sequence e \<and> re_robot e = robot)"
proof (induction fs arbitrary: n)
  case (Cons f fs)
  obtain n' r where turn: "route_robot_frame robot n f = (n', r)" by (cases "route_robot_frame robot n f")
  then have loop: "processed (robot_loop robot n (f # fs)) = processed [r] @ processed (robot_loop robot n' fs)"
    using processed_Cons [of r "robot_loop robot n' fs"] by simp
  from turn show ?case
  proof (cases rule: route_cases)
    case dropped
    then show ?thesis using Cons.IH [of n'] loop by simp
  next
    case (processed e)
    then show ?thesis using Cons.IH [of n'] loop by force
  qed
qed simp

text \<open>
  Nothing the robot writes to an answered connection is lost to the server's replay check, and a
  replay never passes it. In every run of the robot's client, the socket starts with a hello the
  gateway admits, and the loop of the gateway routes every frame written after it, in order, given
  that they decode. For arbitrary frames the loop processes only those of the robot of the session,
  with strictly increasing sequence numbers.
\<close>

theorem robot_frames_reach_server:
  assumes "wc_wire (ws_after robot ops) = h # fs" "robot_token \<noteq> []" "extract_token auth query = robot_token"
  shows "admit_robot robot_token auth query (Some (Some (envelope_of robot h))) = Inr (envelope_of robot h)
    \<and> robot_loop robot (-1) (map (Some \<circ> envelope_of robot) fs) = map (frame_route \<circ> envelope_of robot) fs
    \<and> sorted_wrt (\<lambda>d e. re_sequence d < re_sequence e) (processed (robot_loop robot (-1) any))
    \<and> list_all (\<lambda>e. re_robot e = robot) (processed (robot_loop robot (-1) any))"
proof -
  have inv: "ws_inv (ws_after robot ops)" by (rule ws_after_inv)
  then have "hello_frame h" "sorted_wrt (\<lambda>f g. wf_sequence f < wf_sequence g) fs"
    using assms(1) by (auto simp: ws_inv_def sorted_wrt_append)
  then show ?thesis
    using robot_loop_increasing [of fs "-1" robot] robot_loop_processed [of robot "-1" any] assms(2,3)
    by (auto simp: admit_robot_def envelope_of_def hello_frame_def list_all_iff Let_def)
qed

theorem robot_frames_reach_server_witness:
  "\<exists>h fs. wc_wire (ws_after ''pb'' [Dial, Accepted, Send ''telemetry.pose'' (Strings []), Pump]) = h # fs
     \<and> length fs = 1
     \<and> robot_loop ''pb'' (-1) (map (Some \<circ> envelope_of ''pb'') fs) = map (frame_route \<circ> envelope_of ''pb'') fs"
proof -
  let ?w = "wc_wire (ws_after ''pb'' [Dial, Accepted, Send ''telemetry.pose'' (Strings []), Pump])"
  have "length ?w = 2" by code_simp
  then obtain h fs where w: "?w = h # fs" "length fs = 1" by (cases ?w) auto
  have tok: "extract_token ''Bearer t1'' [] = ''t1''" by code_simp
  from robot_frames_reach_server [OF w(1) _ tok] w show ?thesis by auto
qed

end
