(* ===== verification/Ros_Teleop.thy ===== *)
theory Ros_Teleop
  imports Bridge_Teleop
begin

text \<open>
  The ROS side of manual drive on the robot (\<open>RosTeleop\<close> in \<open>patrolbot_web_bridge/teleop.py\<close>): what
  ends a session from outside (joystick, configuration hold, other actions, a changed producer), the
  observation that the output buffers have drained before a start is accepted, the navigation-idle
  service, and the commands and ticks. The session itself is \<open>Bridge_Teleop\<close>.

  Inputs of a callback are the values it reads: the ROS graph as the publishers of a topic (\<open>None\<close>
  where asking raises), the message, the clocks, and for the session its \<open>session_env\<close>, whose safety
  verdict is replaced by \<open>safety\<close> of the present state. The two evidence topics, which only repeat
  whether a session is active, are left out.
\<close>

subsection \<open>State\<close>

definition TWIST :: string where "TWIST = ''geometry_msgs/msg/Twist''"

definition ACTION_NAMES :: "string list" where
  "ACTION_NAMES = [''navigate_to_pose'', ''navigate_through_poses'', ''follow_path'', ''follow_waypoints'',
     ''spin'', ''backup'', ''wait'', ''drive_on_heading'', ''assisted_teleop'',
     ''patrolbot/undock'', ''patrolbot/hardware_undock'', ''patrolbot/undock_turn'',
     ''patrolbot/localize_on_map'']"

text \<open>The two topics a drain is observed on, and the three of the path, each with its publisher.\<close>

definition BUFFERS :: "(string \<times> string) list" where
  "BUFFERS = [(''/cmd_vel_out'', ''cmd_vel_mux''), (''/cmd_vel'', ''teleop_velocity_smoother'')]"

definition PATH :: "(string \<times> string) list" where
  "PATH = (''/input/teleop'', ''patrolbot_web_bridge'') # BUFFERS"

record endpoint =
  ep_node :: string
  ep_namespace :: string
  ep_type :: string
  ep_gid :: "nat list"

type_synonym graph = "string \<Rightarrow> endpoint list option"

text \<open>\<open>rt_drain\<close>: since when a buffer has been zero, and its last observation.\<close>

record 'c ros_teleop =
  rt_session :: "'c teleop_session"
  rt_drain :: "string \<Rightarrow> (rat option \<times> rat) option"
  rt_drain_source :: "string \<Rightarrow> int"
  rt_writers :: path_identity
  rt_tuning_hold :: bool
  rt_manual_at :: "rat option"
  rt_action_active :: "(string \<times> bool) list"
  rt_idle_at :: "rat option"
  rt_idle_waiting :: bool
  rt_idle_request_at :: rat
  rt_last_idle_request :: "rat option"

text \<open>Construction publishes a zero.\<close>

definition ros_teleop_new :: "'c ros_teleop" where
  "ros_teleop_new = \<lparr>rt_session = emit [Publish 0 0 False] session_new, rt_drain = (\<lambda>_. None),
     rt_drain_source = (\<lambda>_. 0), rt_writers = None, rt_tuning_hold = False, rt_manual_at = None,
     rt_action_active = map (\<lambda>n. (n, False)) ACTION_NAMES, rt_idle_at = None, rt_idle_waiting = False,
     rt_idle_request_at = 0, rt_last_idle_request = None\<rparr>"

abbreviation manual_active :: "'c ros_teleop \<Rightarrow> bool" where
  "manual_active t \<equiv> session_active (rt_session t)"

abbreviation end_manual :: "session_env \<Rightarrow> end_reason \<Rightarrow> outcome \<Rightarrow> 'c ros_teleop \<Rightarrow> 'c ros_teleop" where
  "end_manual e reason oc t \<equiv> t\<lparr>rt_session := session_end e reason oc (rt_session t)\<rparr>"

subsection \<open>The safety verdict\<close>

definition sole_publisher :: "string \<Rightarrow> endpoint list \<Rightarrow> endpoint option" where
  "sole_publisher publisher es =
     (case es of
        [e] \<Rightarrow> if ep_node e = publisher \<and> ep_namespace e = ''/'' \<and> ep_type e = TWIST then Some e else None
      | _ \<Rightarrow> None)"

definition path_identity_of :: "graph \<Rightarrow> path_identity" where
  "path_identity_of g =
     those (map (\<lambda>(topic, publisher). case g topic of None \<Rightarrow> None
                   | Some es \<Rightarrow> map_option ep_gid (sole_publisher publisher es)) PATH)"

text \<open>What the verdict reads around the session: clocks, link, hardware, the node's other commands.\<close>

record robot_view =
  rv_now :: rat
  rv_ros_now_ns :: int
  rv_connected :: bool
  rv_base :: "bridge_base option"
  rv_base_at :: "rat option"
  rv_odom :: "odom_msg option"
  rv_odom_at :: "rat option"
  rv_command_slots :: "bool list"
  rv_reset_blocked :: bool
  rv_graph :: graph

definition teleop_state :: "robot_view \<Rightarrow> 'c ros_teleop \<Rightarrow> ros_state" where
  "teleop_state v t =
     \<lparr>sf_tuning_hold = rt_tuning_hold t, sf_now = rv_now v, sf_ros_now_ns = rv_ros_now_ns v,
      sf_connected = rv_connected v, sf_base = rv_base v, sf_base_at = rv_base_at v,
      sf_odom = rv_odom v, sf_odom_at = rv_odom_at v, sf_action_active = map snd (rt_action_active t),
      sf_command_slots = rv_command_slots v, sf_reset_blocked = rv_reset_blocked v,
      sf_manual_at = rt_manual_at t, sf_idle_at = rt_idle_at t, sf_session_active = manual_active t,
      sf_path = path_identity_of (rv_graph v), sf_writers = rt_writers t\<rparr>"

definition guarded :: "robot_view \<Rightarrow> session_env \<Rightarrow> 'c ros_teleop \<Rightarrow> session_env" where
  "guarded v e t = e\<lparr>en_safety := safety (teleop_state v t)\<rparr>"

subsection \<open>Who takes motion away\<close>

definition on_joystick :: "session_env \<Rightarrow> bool \<Rightarrow> 'c ros_teleop \<Rightarrow> 'c ros_teleop" where
  "on_joystick e data t =
     (if data then
        let t1 = t\<lparr>rt_manual_at := Some (en_clock e 0)\<rparr>
        in if manual_active t1 then end_manual e Joystick_took_control Ok_canceled t1 else t1
      else t\<lparr>rt_manual_at := None\<rparr>)"

definition on_tuning_hold :: "session_env \<Rightarrow> bool \<Rightarrow> 'c ros_teleop \<Rightarrow> 'c ros_teleop" where
  "on_tuning_hold e data t =
     (let t1 = t\<lparr>rt_tuning_hold := data\<rparr>
      in if data \<and> manual_active t1 then end_manual e Maintenance_took_motion Ok_canceled t1 else t1)"

text \<open>The answer of \<open>_tuning_idle\<close>.\<close>

definition tuning_idle :: "'c ros_teleop \<Rightarrow> bool" where
  "tuning_idle t = (rt_tuning_hold t \<and> \<not> manual_active t)"

definition on_action :: "session_env \<Rightarrow> string \<Rightarrow> int list \<Rightarrow> 'c ros_teleop \<Rightarrow> 'c ros_teleop" where
  "on_action e name statuses t =
     (let busy = list_ex (\<lambda>s. s \<in> {1, 2, 3}) statuses;
          t1 = t\<lparr>rt_action_active := map (\<lambda>(n, b). if n = name then (n, busy) else (n, b)) (rt_action_active t)\<rparr>
      in if busy \<and> manual_active t1 then end_manual e Other_action_took_motion Ok_failed t1 else t1)"

subsection \<open>Observing the buffers\<close>

text \<open>A message on a buffer with its source stamp and six components; \<open>None\<close> where reading raises.\<close>

record buffer_sample =
  bs_endpoints :: "endpoint list option"
  bs_stamp :: "int option"
  bs_values :: "pyfloat list option"

definition producer_valid :: "int \<Rightarrow> string \<Rightarrow> string \<Rightarrow> buffer_sample \<Rightarrow> 'c ros_teleop \<Rightarrow> bool" where
  "producer_valid ros_now topic publisher m t =
     (case (bs_endpoints m, bs_stamp m) of
        (Some es, Some stamp) \<Rightarrow>
          let age = of_int (ros_now - stamp) / 10 ^ 9 :: rat
          in sole_publisher publisher es \<noteq> None \<and> rt_drain_source t topic < stamp
             \<and> 0 \<le> age \<and> age \<le> HARDWARE_TIMEOUT_S
      | _ \<Rightarrow> False)"

definition velocity_readable :: "buffer_sample \<Rightarrow> bool" where
  "velocity_readable m = (case bs_values m of None \<Rightarrow> False | Some vs \<Rightarrow> list_all is_finite vs)"

definition velocity_zero :: "buffer_sample \<Rightarrow> bool" where
  "velocity_zero m = (case bs_values m of None \<Rightarrow> False | Some vs \<Rightarrow> list_all (\<lambda>x. x = Fin 0) vs)"

definition observe :: "string \<Rightarrow> rat \<Rightarrow> bool \<Rightarrow> 'c ros_teleop \<Rightarrow> 'c ros_teleop" where
  "observe topic now zero t =
     (let since = (case rt_drain t topic of None \<Rightarrow> None | Some (s, seen) \<Rightarrow> s)
      in if zero then t\<lparr>rt_drain := (rt_drain t)(topic \<mapsto> (Some (case since of None \<Rightarrow> now | Some s \<Rightarrow> s), now))\<rparr>
         else if \<not> ss_acknowledged (rt_session t) then t\<lparr>rt_drain := (rt_drain t)(topic \<mapsto> (None, now))\<rparr>
         else t)"

definition on_buffer ::
  "session_env \<Rightarrow> int \<Rightarrow> string \<Rightarrow> string \<Rightarrow> buffer_sample \<Rightarrow> 'c ros_teleop \<Rightarrow> 'c ros_teleop" where
  "on_buffer e ros_now topic publisher m t =
     (if \<not> manual_active t then t
      else if \<not> producer_valid ros_now topic publisher m t then end_manual e Producer_changed Ok_failed t
      else let t1 = t\<lparr>rt_drain_source := (rt_drain_source t)(topic := the (bs_stamp m))\<rparr>
        in if \<not> velocity_readable m then end_manual e Producer_changed Ok_failed t1
           else observe topic (en_clock e 0) (velocity_zero m) t1)"

subsection \<open>Commands and ticks\<close>

definition start_manual ::
  "teleop_contract \<Rightarrow> robot_view \<Rightarrow> session_env \<Rightarrow> (string \<times> pyval) list \<Rightarrow> 'c \<Rightarrow> rat option
   \<Rightarrow> 'c ros_teleop \<Rightarrow> 'c ros_teleop" where
  "start_manual c v e data context received_at t =
     (let e' = guarded v e t
      in t\<lparr>rt_session := fst (session_start c e' e' data context received_at True (rt_session t))\<rparr>)"

definition teleop_start ::
  "teleop_contract \<Rightarrow> robot_view \<Rightarrow> session_env \<Rightarrow> (string \<times> pyval) list \<Rightarrow> 'c \<Rightarrow> rat option
   \<Rightarrow> 'c ros_teleop \<Rightarrow> 'c ros_teleop" where
  "teleop_start c v e data context received_at t =
     (if manual_active t then start_manual c v e data context received_at t
      else let path = path_identity_of (rv_graph v); t1 = t\<lparr>rt_writers := path\<rparr>
        in case path of
            None \<Rightarrow> t1\<lparr>rt_session := emit [Ack_out (default (VStr []) (dget data ''command_id'')) False
                                          (Some No_sole_path)] (rt_session t1)\<rparr>
          | Some p \<Rightarrow> start_manual c v e data context received_at
                        (t1\<lparr>rt_drain := (\<lambda>_. None), rt_drain_source := (\<lambda>_. 0)\<rparr>))"

definition teleop_stop :: "session_env \<Rightarrow> (string \<times> pyval) list \<Rightarrow> 'c ros_teleop \<Rightarrow> 'c ros_teleop" where
  "teleop_stop e data t =
     (let v = default (VStr []) (dget data ''command_id'')
      in if dget data ''operator_authorized'' \<noteq> Some (VBool True) \<or> \<not> valid_id v
         then t\<lparr>rt_session := emit [Ack_out v False (Some Stop_not_authorized)] (rt_session t)\<rparr>
         else let cid = (case v of VStr s \<Rightarrow> s | _ \<Rightarrow> [])
           in t\<lparr>rt_session := emit [Ack_out v True None, Result_out cid Ok_succeeded Input_ended]
                  (session_end e Input_ended Ok_canceled (rt_session t))\<rparr>)"

definition teleop_handle ::
  "teleop_contract \<Rightarrow> robot_view \<Rightarrow> session_env \<Rightarrow> (string \<times> pyval) list \<Rightarrow> 'c \<Rightarrow> rat option
   \<Rightarrow> 'c ros_teleop \<Rightarrow> 'c ros_teleop" where
  "teleop_handle c v e data context received_at t =
     (if dget data ''command'' = Some (VStr ''teleop_start'') then teleop_start c v e data context received_at t
      else if dget data ''command'' = Some (VStr ''teleop_stop'') then teleop_stop e data t
      else t)"

text \<open>The outstanding request of the navigation-idle service, as \<open>tick\<close> finds it.\<close>

datatype idle_reply = Idle_pending | Idle_raised | Idle_answer bool

definition idle_poll :: "rat \<Rightarrow> idle_reply \<Rightarrow> bool \<Rightarrow> 'c ros_teleop \<Rightarrow> 'c ros_teleop" where
  "idle_poll now reply ready t =
     (let t1 = (if \<not> rt_idle_waiting t then t
                else case reply of
                    Idle_answer ok \<Rightarrow> t\<lparr>rt_idle_at := (if ok then Some (rt_idle_request_at t) else None), rt_idle_waiting := False\<rparr>
                  | Idle_raised \<Rightarrow> t\<lparr>rt_idle_at := None, rt_idle_waiting := False\<rparr>
                  | Idle_pending \<Rightarrow> if HARDWARE_TIMEOUT_S < now - rt_idle_request_at t
                      then t\<lparr>rt_idle_waiting := False, rt_idle_at := None\<rparr> else t)
      in if \<not> rt_idle_waiting t1 \<and> ready
            \<and> (case rt_last_idle_request t1 of None \<Rightarrow> True | Some l \<Rightarrow> 1 / 10 \<le> now - l)
         then t1\<lparr>rt_last_idle_request := Some now, rt_idle_request_at := now, rt_idle_waiting := True\<rparr>
         else t1)"

definition drained :: "rat \<Rightarrow> 'c ros_teleop \<Rightarrow> bool" where
  "drained now t =
     list_all (\<lambda>(topic, publisher). case rt_drain t topic of
         Some (Some since, seen) \<Rightarrow> HARDWARE_TIMEOUT_S \<le> now - since
           \<and> 0 \<le> now - seen \<and> now - seen \<le> HARDWARE_TIMEOUT_S
       | _ \<Rightarrow> False) BUFFERS"

text \<open>The clock is read first (\<open>now\<close>); view and environment are those of the tick and of the confirmation.\<close>

definition teleop_tick ::
  "teleop_contract \<Rightarrow> rat \<Rightarrow> idle_reply \<Rightarrow> bool \<Rightarrow> robot_view \<times> session_env \<times> 'c
   \<Rightarrow> robot_view \<times> session_env \<times> 'c \<Rightarrow> 'c ros_teleop \<Rightarrow> 'c ros_teleop" where
  "teleop_tick c now reply ready first second t =
     (case first of (v, e, context) \<Rightarrow>
      let t1 = idle_poll now reply ready t;
          t2 = t1\<lparr>rt_session := session_tick c (guarded v e t1) context (rt_session t1)\<rparr>
      in if manual_active t2 \<and> \<not> ss_acknowledged (rt_session t2)
         then let (s, ok) = do_publish e 0 0 False (rt_session t2); t3 = t2\<lparr>rt_session := s\<rparr>
              in if ok \<and> drained now t3
                 then (case second of (v', e', context') \<Rightarrow>
                        t3\<lparr>rt_session := fst (confirm_start c (guarded v' e' t3) context' (rt_session t3))\<rparr>)
                 else t3
         else t2)"

definition teleop_frame ::
  "teleop_contract \<Rightarrow> robot_view \<Rightarrow> session_env \<Rightarrow> pyval \<Rightarrow> 'c \<Rightarrow> rat \<Rightarrow> 'c ros_teleop \<Rightarrow> 'c ros_teleop" where
  "teleop_frame c v e data context received_at t =
     t\<lparr>rt_session := fst (frame c (guarded v e t) data context received_at (rt_session t))\<rparr>"

definition teleop_shutdown :: "session_env \<Rightarrow> 'c ros_teleop \<Rightarrow> 'c ros_teleop" where
  "teleop_shutdown e t = end_manual e Bridge_closing Ok_canceled t"

subsection \<open>Activity and acknowledgment of a session\<close>

text \<open>
  How one operation of the session may change whether it is open and acknowledged: it stays as it
  was, or it is closed.
\<close>

definition stays_or_ends :: "'c teleop_session \<Rightarrow> 'c teleop_session \<Rightarrow> bool" where
  "stays_or_ends s s' \<longleftrightarrow>
     session_active s' \<longrightarrow> session_active s \<and> ss_acknowledged s' = ss_acknowledged s"

lemma stays_refl [simp]: "stays_or_ends s s"
  by (simp add: stays_or_ends_def)

lemma stays_end [simp]: "stays_or_ends s (session_end e r oc s')"
  by (simp add: stays_or_ends_def)

lemma active_fields [simp]:
  "session_active (emit os s) = session_active s"
  "session_active (fst (do_publish e l a b s)) = session_active s"
  by (simp_all add: session_active_def)

lemma stays_emit [simp]: "stays_or_ends s (emit os s)"
  by (simp add: stays_or_ends_def)

lemma stays_accept: "session_active s \<Longrightarrow> stays_or_ends s (fst (accept_input c e rec seq l a dm s))"
  by (auto simp: accept_input_def Let_def case_prod_beta stays_or_ends_def session_active_def
      split: option.splits sum.splits)

lemma stays_frame: "stays_or_ends s (fst (frame c e data ctx rec s))"
  by (auto simp: frame_def intro: stays_accept split: pyval.splits input_verdict.splits)

lemma stays_tick: "stays_or_ends s (session_tick c e ctx s)"
  by (auto simp: session_tick_def Let_def split: option.splits sum.splits)

lemma confirm_keeps:
  "session_active (fst (confirm_start c e ctx s)) \<Longrightarrow>
   session_active s \<and> (ss_acknowledged s \<longrightarrow> ss_acknowledged (fst (confirm_start c e ctx s)))"
  by (auto simp: confirm_start_def session_active_def split: option.splits sum.splits if_splits)

lemma confirm_safe:
  "ss_acknowledged (fst (confirm_start c e ctx s)) \<Longrightarrow> \<not> ss_acknowledged s \<Longrightarrow>
   en_safety e = None \<and> session_active s \<and> ss_context s = Some ctx"
  by (auto simp: confirm_start_def session_active_def split: option.splits sum.splits if_splits)

lemma start_active: "session_active s \<Longrightarrow> stays_or_ends s (fst (session_start c e e2 data ctx rec True s))"
  by (auto simp: session_start_def Let_def start_reason_def split: sum.splits)

lemma start_deferred:
  "\<not> session_active s \<Longrightarrow> session_active (fst (session_start c e e2 data ctx rec True s)) \<Longrightarrow>
   \<not> ss_acknowledged (fst (session_start c e e2 data ctx rec True s)) \<and> en_safety e = None"
  by (auto simp: session_start_def Let_def case_prod_beta session_active_def dest!: start_reason_Inr
      split: sum.splits if_splits)

subsection \<open>Runs of the glue\<close>

datatype 'c manual_op =
    Op_joystick session_env bool | Op_hold session_env bool | Op_action session_env string "int list"
  | Op_buffer session_env int string string buffer_sample
  | Op_start robot_view session_env "(string \<times> pyval) list" 'c "rat option"
  | Op_stop session_env "(string \<times> pyval) list"
  | Op_tick rat idle_reply bool "robot_view \<times> session_env \<times> 'c" "robot_view \<times> session_env \<times> 'c"
  | Op_frame robot_view session_env pyval 'c rat
  | Op_end session_env end_reason outcome

fun manual_step :: "teleop_contract \<Rightarrow> 'c manual_op \<Rightarrow> 'c ros_teleop \<Rightarrow> 'c ros_teleop" where
  "manual_step c (Op_joystick e data) t = on_joystick e data t"
| "manual_step c (Op_hold e data) t = on_tuning_hold e data t"
| "manual_step c (Op_action e name statuses) t = on_action e name statuses t"
| "manual_step c (Op_buffer e ros_now topic publisher m) t = on_buffer e ros_now topic publisher m t"
| "manual_step c (Op_start v e data ctx rec) t = teleop_start c v e data ctx rec t"
| "manual_step c (Op_stop e data) t = teleop_stop e data t"
| "manual_step c (Op_tick now reply ready first second) t = teleop_tick c now reply ready first second t"
| "manual_step c (Op_frame v e data ctx rec) t = teleop_frame c v e data ctx rec t"
| "manual_step c (Op_end e reason oc) t = end_manual e reason oc t"

text \<open>The observation a step takes of a buffer: topic, time, and whether the output was zero.\<close>

fun buffer_seen :: "'c manual_op \<Rightarrow> 'c ros_teleop \<Rightarrow> (string \<times> rat \<times> bool) list" where
  "buffer_seen (Op_buffer e ros_now topic publisher m) t =
     (if manual_active t \<and> producer_valid ros_now topic publisher m t \<and> velocity_readable m
      then [(topic, en_clock e 0, velocity_zero m)] else [])"
| "buffer_seen _ t = []"

text \<open>A run with the observations since the present session was opened.\<close>

inductive manual_run :: "teleop_contract \<Rightarrow> (string \<times> rat \<times> bool) list \<Rightarrow> 'c ros_teleop \<Rightarrow> bool"
  for c :: teleop_contract where
  mr_new: "manual_run c [] ros_teleop_new"
| mr_step: "manual_run c h t \<Longrightarrow> t' = manual_step c op t
    \<Longrightarrow> h' = (if \<not> manual_active t \<and> manual_active t' then [] else h @ buffer_seen op t)
    \<Longrightarrow> manual_run c h' t'"

definition seen_on :: "string \<Rightarrow> (string \<times> rat \<times> bool) list \<Rightarrow> (rat \<times> bool) list" where
  "seen_on topic h = map snd (filter (\<lambda>x. fst x = topic) h)"

definition drain_of :: "(rat \<times> bool) list \<Rightarrow> (rat option \<times> rat) option" where
  "drain_of xs = foldl (\<lambda>d (now, zero).
       Some (if zero then Some (case d of Some (Some s, seen) \<Rightarrow> s | _ \<Rightarrow> now) else None, now)) None xs"

lemma drain_of_simps [simp]:
  "drain_of [] = None"
  "drain_of (xs @ [(now, zero)]) =
     Some (if zero then Some (case drain_of xs of Some (Some s, seen) \<Rightarrow> s | _ \<Rightarrow> now) else None, now)"
  by (simp_all add: drain_of_def)

lemma seen_on_simps [simp]:
  "seen_on topic [] = []"
  "seen_on topic (h @ [(n, x)]) = seen_on topic h @ (if n = topic then [x] else [])"
  by (simp_all add: seen_on_def)

text \<open>A zero date marks an unbroken run of zeros up to the last observation.\<close>

lemma drain_of_zeros:
  "drain_of xs = Some (Some since, seen) \<Longrightarrow>
   \<exists>before run. xs = before @ run \<and> run \<noteq> [] \<and> (\<forall>x\<in>set run. snd x) \<and> fst (hd run) = since \<and> fst (last run) = seen"
proof (induction xs arbitrary: since seen rule: rev_induct)
  case (snoc x xs)
  obtain now zero where x: "x = (now, zero)" by (cases x)
  have zero: "zero" "seen = now" using snoc.prems x by (auto split: if_splits)
  show ?case
  proof (cases "\<exists>s l. drain_of xs = Some (Some s, l)")
    case True
    then obtain s l where d: "drain_of xs = Some (Some s, l)" by blast
    obtain before run where r: "xs = before @ run" "run \<noteq> []" "\<forall>x\<in>set run. snd x" "fst (hd run) = s"
      using snoc.IH [OF d] by blast
    have since: "since = s" using snoc.prems x zero d by simp
    have "xs @ [x] = before @ (run @ [x]) \<and> run @ [x] \<noteq> [] \<and> (\<forall>y\<in>set (run @ [x]). snd y)
        \<and> fst (hd (run @ [x])) = since \<and> fst (last (run @ [x])) = seen"
      using r since x zero by simp
    then show ?thesis by blast
  next
    case False
    then have "since = now" using snoc.prems x zero by (auto split: option.splits)
    then have "xs @ [x] = xs @ [x] \<and> [x] \<noteq> [] \<and> (\<forall>y\<in>set [x]. snd y) \<and> fst (hd [x]) = since \<and> fst (last [x]) = seen"
      using x zero by simp
    then show ?thesis by blast
  qed
qed simp


subsection \<open>What a step changes\<close>

text \<open>
  A step is one of four kinds: the session stays as it was or ends with the drain untouched; a buffer
  is observed; a start opens it with nothing observed yet; a tick confirms it.
\<close>

lemma step_cases:
  obtains (stays) "stays_or_ends (rt_session t) (rt_session (manual_step c op t))"
      "rt_drain (manual_step c op t) = rt_drain t" "buffer_seen op t = []"
  | (buffer) topic now zero where "buffer_seen op t = [(topic, now, zero)]" "manual_active t"
      "rt_session (manual_step c op t) = rt_session t"
      "rt_drain (manual_step c op t) = rt_drain (observe topic now zero t)"
  | (ended) "\<not> manual_active (manual_step c op t)"
  | (opened) "\<not> manual_active t" "rt_drain (manual_step c op t) = (\<lambda>_. None)"
      "\<not> ss_acknowledged (rt_session (manual_step c op t))"
  | (tick) now reply ready first second where "op = Op_tick now reply ready first second"
proof (cases op)
  case (Op_buffer e ros_now topic publisher m)
  consider "\<not> manual_active t" | "manual_active t" "\<not> (producer_valid ros_now topic publisher m t \<and> velocity_readable m)"
    | "manual_active t" "producer_valid ros_now topic publisher m t" "velocity_readable m" by blast
  then show ?thesis
  proof cases
    case 1
    then show ?thesis using Op_buffer by (intro stays) (simp_all add: on_buffer_def)
  next
    case 2
    then show ?thesis using Op_buffer by (intro ended) (auto simp: on_buffer_def Let_def)
  next
    case 3
    then show ?thesis using Op_buffer
      by (intro buffer [of topic "en_clock e 0" "velocity_zero m"]) (simp_all add: on_buffer_def Let_def observe_def)
  qed
next
  case (Op_start v e data ctx rec)
  have active: ?thesis if "manual_active t"
    using that Op_start
    by (intro stays) (simp_all add: teleop_start_def start_manual_def Let_def start_active)
  have idle: ?thesis if idle: "\<not> manual_active t"
  proof (cases "manual_active (manual_step c op t)")
    case True
    then obtain p where p: "path_identity_of (rv_graph v) = Some p"
      using idle Op_start by (cases "path_identity_of (rv_graph v)") (auto simp: teleop_start_def Let_def)
    then show ?thesis
      using idle Op_start True start_deferred [of "rt_session t"]
      by (intro opened) (auto simp: teleop_start_def start_manual_def Let_def)
  qed (rule ended)
  show ?thesis using active idle by blast
next
  case (Op_frame v e data ctx rec)
  then show ?thesis by (intro stays) (simp_all add: teleop_frame_def stays_frame)
next
  case (Op_tick now reply ready first second)
  then show ?thesis by (rule tick)
next
  case (Op_joystick e data)
  then show ?thesis by (intro stays) (simp_all add: on_joystick_def Let_def)
next
  case (Op_hold e data)
  then show ?thesis by (intro stays) (simp_all add: on_tuning_hold_def Let_def)
next
  case (Op_action e name statuses)
  then show ?thesis by (intro stays) (simp_all add: on_action_def Let_def)
next
  case (Op_stop e data)
  then show ?thesis by (cases "manual_active (manual_step c op t)")
      (auto intro: ended stays simp: teleop_stop_def Let_def split: if_splits)
next
  case (Op_end e reason oc)
  then show ?thesis by (intro ended) simp
qed

lemma idle_poll_keeps [simp]:
  "rt_session (idle_poll now reply ready t) = rt_session t" "rt_drain (idle_poll now reply ready t) = rt_drain t"
  "rt_writers (idle_poll now reply ready t) = rt_writers t"
  "rt_tuning_hold (idle_poll now reply ready t) = rt_tuning_hold t"
  "rt_manual_at (idle_poll now reply ready t) = rt_manual_at t"
  "rt_action_active (idle_poll now reply ready t) = rt_action_active t"
  by (auto simp: idle_poll_def Let_def split: idle_reply.split)

lemma tick_drain [simp]: "rt_drain (teleop_tick c now reply ready first second t) = rt_drain t"
  by (auto simp: teleop_tick_def Let_def split: prod.split)

lemma tick_keeps:
  assumes "manual_active (teleop_tick c now reply ready first second t)"
  shows "manual_active t
    \<and> (ss_acknowledged (rt_session t) \<longrightarrow> ss_acknowledged (rt_session (teleop_tick c now reply ready first second t)))"
proof -
  obtain v e ctx v' e' ctx' where a: "first = (v, e, ctx)" "second = (v', e', ctx')" by (metis prod_cases3)
  show ?thesis
    using assms stays_tick [of "rt_session t" c "guarded v e (idle_poll now reply ready t)" ctx]
    by (auto simp: teleop_tick_def a Let_def stays_or_ends_def case_prod_beta dest!: confirm_keeps split: if_splits)
qed

text \<open>While a start waits for the drain, the table holds what was observed since it was requested.\<close>

definition drain_inv :: "(string \<times> rat \<times> bool) list \<Rightarrow> 'c ros_teleop \<Rightarrow> bool" where
  "drain_inv h t \<longleftrightarrow> (manual_active t \<and> \<not> ss_acknowledged (rt_session t)
     \<longrightarrow> (\<forall>topic. rt_drain t topic = drain_of (seen_on topic h)))"

lemma drain_step:
  assumes inv: "drain_inv h t" and t': "t' = manual_step c op t"
    and h': "h' = (if \<not> manual_active t \<and> manual_active t' then [] else h @ buffer_seen op t)"
  shows "drain_inv h' t'"
proof (cases rule: step_cases [of t c op])
  case stays
  then show ?thesis using inv unfolding t' h' by (auto simp: drain_inv_def stays_or_ends_def)
next
  case (buffer topic now zero)
  show ?thesis unfolding drain_inv_def
  proof (intro impI allI)
    fix n
    assume "manual_active t' \<and> \<not> ss_acknowledged (rt_session t')"
    then have waiting: "\<not> ss_acknowledged (rt_session t)" using buffer t' by simp
    then have old: "rt_drain t m = drain_of (seen_on m h)" for m using inv buffer(2) by (simp add: drain_inv_def)
    have h: "h' = h @ [(topic, now, zero)]" using buffer h' t' by simp
    show "rt_drain t' n = drain_of (seen_on n h')"
      unfolding t' buffer(4) h using waiting old [of topic] old [of n]
      by (auto simp: observe_def Let_def split: option.splits)
  qed
next
  case ended
  then show ?thesis by (simp add: drain_inv_def t')
next
  case opened
  then show ?thesis unfolding t' h' by (auto simp: drain_inv_def)
next
  case (tick now reply ready first second)
  have "buffer_seen op t = []" using tick by simp
  then show ?thesis
    using inv tick_keeps [of c now reply ready first second t] unfolding t' h' tick by (auto simp: drain_inv_def)
qed

lemma run_drain: "manual_run c h t \<Longrightarrow> drain_inv h t"
proof (induction rule: manual_run.induct)
  case mr_new
  then show ?case by (simp add: drain_inv_def ros_teleop_new_def session_active_def session_new_def)
next
  case (mr_step h t t' op h')
  show ?case by (rule drain_step [OF mr_step.IH mr_step.hyps(2,3)])
qed

text \<open>Nobody else owns the robot, its readings are recent and the path is the one checked at the start.\<close>

definition sole_owner :: "robot_view \<Rightarrow> 'c ros_teleop \<Rightarrow> bool" where
  "sole_owner v t \<longleftrightarrow>
     rv_connected v \<and> \<not> rv_reset_blocked v \<and> list_all Not (rv_command_slots v)
     \<and> \<not> rt_tuning_hold t \<and> list_all Not (map snd (rt_action_active t))
     \<and> \<not> recent (rv_now v) (rt_manual_at t) \<and> recent (rv_now v) (rt_idle_at t)
     \<and> recent (rv_now v) (rv_base_at v) \<and> recent (rv_now v) (rv_odom_at v)
     \<and> path_identity_of (rv_graph v) = rt_writers t"

lemma safety_owners:
  assumes "safety (teleop_state v t) = None" "manual_active t"
  shows "sole_owner v t"
proof -
  obtain b where b: "rv_base v = Some b" "owner_reason (teleop_state v t) b = None"
    using assms by (auto simp: safety_def teleop_state_def split: if_splits option.splits)
  have "rv_connected v" "\<not> rt_tuning_hold t" "recent (rv_now v) (rv_base_at v)" "recent (rv_now v) (rv_odom_at v)"
    using assms by (auto simp: safety_def teleop_state_def split: if_splits option.splits)
  moreover have "\<not> rv_reset_blocked v" "list_all Not (rv_command_slots v)" "list_all Not (map snd (rt_action_active t))"
    "\<not> recent (rv_now v) (rt_manual_at t)" "recent (rv_now v) (rt_idle_at t)"
    "path_identity_of (rv_graph v) = rt_writers t"
    using b(2) assms(2) by (auto simp: owner_reason_def teleop_state_def list_ex_iff list_all_iff split: if_splits)
  ultimately show ?thesis unfolding sole_owner_def by blast
qed

text \<open>What a buffer has shown when the tick finds it drained.\<close>

definition zero_for :: "rat \<Rightarrow> (rat \<times> bool) list \<Rightarrow> bool" where
  "zero_for now xs \<longleftrightarrow> (\<exists>before run. xs = before @ run \<and> run \<noteq> [] \<and> (\<forall>x\<in>set run. snd x)
     \<and> HARDWARE_TIMEOUT_S \<le> now - fst (hd run)
     \<and> 0 \<le> now - fst (last run) \<and> now - fst (last run) \<le> HARDWARE_TIMEOUT_S)"

lemma drained_zero_for:
  assumes "drained now t" "\<forall>topic. rt_drain t topic = drain_of (seen_on topic h)" "(topic, publisher) \<in> set BUFFERS"
  shows "zero_for now (seen_on topic h)"
proof -
  obtain since seen where d: "rt_drain t topic = Some (Some since, seen)"
    "HARDWARE_TIMEOUT_S \<le> now - since" "0 \<le> now - seen" "now - seen \<le> HARDWARE_TIMEOUT_S"
    using assms(1,3) by (fastforce simp: drained_def list_all_iff split: option.splits prod.splits)
  have "drain_of (seen_on topic h) = Some (Some since, seen)" using assms(2) d(1) by simp
  from drain_of_zeros [OF this] show ?thesis using d(2-4) unfolding zero_for_def by blast
qed

lemma stays_not_acknowledged:
  "stays_or_ends s s' \<Longrightarrow> ss_acknowledged s' \<Longrightarrow> session_active s' \<Longrightarrow> ss_acknowledged s"
  by (simp add: stays_or_ends_def)

text \<open>A tick that confirms has passed the drain, the safety verdict and the context check.\<close>

lemma tick_confirms:
  fixes t :: "'c ros_teleop"
  assumes ack: "ss_acknowledged (rt_session (teleop_tick c now reply ready (v, e, ctx) (v', e', ctx') t))"
    and active: "manual_active (teleop_tick c now reply ready (v, e, ctx) (v', e', ctx') t)"
    and before: "\<not> ss_acknowledged (rt_session t)"
  shows "drained now t \<and> sole_owner v' (idle_poll now reply ready t) \<and> manual_active t"
proof -
  let ?t1 = "idle_poll now reply ready t"
  let ?s = "session_tick c (guarded v e ?t1) ctx (rt_session t)"
  let ?t3 = "?t1\<lparr>rt_session := fst (do_publish e 0 0 False ?s)\<rparr>"
  have stays: "stays_or_ends (rt_session t) ?s" by (rule stays_tick)
  show ?thesis
  proof (cases "session_active ?s \<and> \<not> ss_acknowledged ?s \<and> en_publish_ok e (ss_attempts ?s) \<and> drained now ?t3")
    case True
    then have end_state: "rt_session (teleop_tick c now reply ready (v, e, ctx) (v', e', ctx') t)
        = fst (confirm_start c (guarded v' e' ?t3) ctx' (rt_session ?t3))"
      by (simp add: teleop_tick_def Let_def case_prod_beta)
    have "en_safety (guarded v' e' ?t3) = None"
      using confirm_safe [OF ack [unfolded end_state]] True by simp
    then have "sole_owner v' ?t3"
      using True by (intro safety_owners) (simp_all add: guarded_def)
    then show ?thesis using True stays by (simp add: sole_owner_def stays_or_ends_def drained_def)
  next
    case False
    have "ss_acknowledged ?s \<and> session_active ?s"
      using False ack active by (auto simp: teleop_tick_def Let_def case_prod_beta split: if_splits)
    then show ?thesis using stays before by (simp add: stays_or_ends_def)
  qed
qed


text \<open>The state and the observations after a list of operations.\<close>

definition manual_after ::
  "teleop_contract \<Rightarrow> 'c manual_op list \<Rightarrow> (string \<times> rat \<times> bool) list \<times> 'c ros_teleop" where
  "manual_after c ops = foldl (\<lambda>(h, t) op. let t' = manual_step c op t
     in (if \<not> manual_active t \<and> manual_active t' then [] else h @ buffer_seen op t, t')) ([], ros_teleop_new) ops"

lemma manual_run_after: "manual_run c (fst (manual_after c ops)) (snd (manual_after c ops))"
proof (induction ops rule: rev_induct)
  case Nil
  show ?case by (simp add: manual_after_def mr_new)
next
  case (snoc op ops)
  obtain h t where ht: "manual_after c ops = (h, t)" by (cases "manual_after c ops")
  have "manual_run c h t" using snoc ht by simp
  from mr_step [OF this refl refl, of op] show ?case using ht by (simp add: manual_after_def Let_def)
qed

definition example_graph :: graph where
  "example_graph topic = (case map_of PATH topic of None \<Rightarrow> None
     | Some n \<Rightarrow> Some [\<lparr>ep_node = n, ep_namespace = ''/'', ep_type = TWIST, ep_gid = [1]\<rparr>])"

definition example_view :: "rat \<Rightarrow> robot_view" where
  "example_view now = \<lparr>rv_now = now, rv_ros_now_ns = 7000000000, rv_connected = True,
     rv_base = Some (normalize_base_state example_base_msg), rv_base_at = Some now,
     rv_odom = Some \<lparr>om_values = Some [Fin 0, Fin 0], om_stamp_ns = 6900000000\<rparr>, rv_odom_at = Some now,
     rv_command_slots = [False], rv_reset_blocked = False, rv_graph = example_graph\<rparr>"

definition example_buffer :: "rat \<Rightarrow> int \<Rightarrow> string \<times> string \<Rightarrow> nat manual_op" where
  "example_buffer now stamp b = (case b of (topic, publisher) \<Rightarrow>
     Op_buffer (calm (\<lambda>_. now)) stamp topic publisher
       \<lparr>bs_endpoints = example_graph topic, bs_stamp = Some stamp, bs_values = Some (replicate 6 (Fin 0))\<rparr>)"

definition example_tick_op :: "rat \<Rightarrow> nat manual_op" where
  "example_tick_op now = Op_tick now (Idle_answer True) True (example_view now, calm (\<lambda>_. now), 1)
     (example_view now, calm (\<lambda>_. now), 1)"

definition example_drive :: "nat manual_op list" where
  "example_drive = [example_tick_op (99 / 10), example_tick_op 10,
     Op_start (example_view 10) (calm (\<lambda>_. 10))
       [(''command'', VStr ''teleop_start''), (''command_id'', VStr example_id), (''operator_authorized'', VBool True)] 1 (Some 10),
     example_buffer 10 1 (BUFFERS ! 0), example_buffer 10 1 (BUFFERS ! 1), example_tick_op (104 / 10),
     example_buffer (106 / 10) 2 (BUFFERS ! 0), example_buffer (106 / 10) 2 (BUFFERS ! 1)]"

lemma example_drive_waits:
  "\<not> ss_acknowledged (rt_session (snd (manual_after web_teleop_contract example_drive)))"
  by code_simp

lemma example_drive_starts:
  "manual_active (manual_step web_teleop_contract (example_tick_op (106 / 10)) (snd (manual_after web_teleop_contract example_drive)))"
  "ss_acknowledged (rt_session (manual_step web_teleop_contract (example_tick_op (106 / 10))
     (snd (manual_after web_teleop_contract example_drive))))"
  by code_simp+


subsection \<open>Motion under the glue\<close>

lemma step_motions:
  assumes "\<And>v e data ctx rec. op \<noteq> Op_frame v e data ctx rec"
  shows "motions (ss_out (rt_session (manual_step c op t))) = motions (ss_out (rt_session t))"
proof (cases op)
  case (Op_joystick e data)
  then show ?thesis by (simp add: on_joystick_def Let_def)
next
  case (Op_hold e data)
  then show ?thesis by (simp add: on_tuning_hold_def Let_def)
next
  case (Op_action e name statuses)
  then show ?thesis by (simp add: on_action_def Let_def)
next
  case (Op_buffer e ros_now topic publisher m)
  then show ?thesis by (simp add: on_buffer_def observe_def Let_def)
next
  case (Op_start v e data ctx rec)
  then show ?thesis
    by (simp add: teleop_start_def start_manual_def Let_def start_motions split: option.split)
next
  case (Op_stop e data)
  then show ?thesis by (simp add: teleop_stop_def Let_def split: pyval.split)
next
  case (Op_tick now reply ready first second)
  obtain v e ctx v' e' ctx' where p: "first = (v, e, ctx)" "second = (v', e', ctx')" by (metis prod_cases3)
  show ?thesis unfolding Op_tick p
    by (simp add: teleop_tick_def Let_def case_prod_beta tick_motions confirm_motions)
next
  case (Op_end e reason oc)
  then show ?thesis by simp
qed (use assms in blast)

text \<open>What takes manual drive away at once.\<close>

fun takes_over :: "'c manual_op \<Rightarrow> 'c ros_teleop \<Rightarrow> bool" where
  "takes_over (Op_joystick e data) t = data"
| "takes_over (Op_hold e data) t = data"
| "takes_over (Op_action e name statuses) t = list_ex (\<lambda>s. s \<in> {1, 2, 3}) statuses"
| "takes_over (Op_buffer e ros_now topic publisher m) t =
     (\<not> producer_valid ros_now topic publisher m t \<or> \<not> velocity_readable m)"
| "takes_over (Op_end e reason oc) t = True"
| "takes_over _ t = False"

text \<open>
  C13. Under manual drive the robot moves only while nobody else may move it. A step of the robot's
  manual-drive glue publishes at most one motion command, and only for a velocity frame that passes
  every guard of the session, while no command, action, reset or configuration hold owns the robot,
  the joystick has not spoken in the last half second, navigation, drive base and odometry have, and
  the publishers of the velocity path are those checked at the start. Joystick, configuration hold, a
  running action and a changed or unreadable producer each close the session in the step that sees
  them.
\<close>

theorem manual_motion_yields:
  "(motions (ss_out (rt_session (manual_step c op t))) = motions (ss_out (rt_session t))
    \<or> (\<exists>v e data ctx rec l a. op = Op_frame v e data ctx rec
         \<and> motions (ss_out (rt_session (manual_step c op t))) = motions (ss_out (rt_session t)) @ [(l, a)]
         \<and> motion_guard c (guarded v e t) ctx rec l a (rt_session t) (rt_session (manual_step c op t))
         \<and> sole_owner v t))
   \<and> \<not> (takes_over op t \<and> manual_active (manual_step c op t))"
proof
  show "motions (ss_out (rt_session (manual_step c op t))) = motions (ss_out (rt_session t))
    \<or> (\<exists>v e data ctx rec l a. op = Op_frame v e data ctx rec
         \<and> motions (ss_out (rt_session (manual_step c op t))) = motions (ss_out (rt_session t)) @ [(l, a)]
         \<and> motion_guard c (guarded v e t) ctx rec l a (rt_session t) (rt_session (manual_step c op t))
         \<and> sole_owner v t)"
  proof (cases "\<exists>v e data ctx rec. op = Op_frame v e data ctx rec")
    case True
    then obtain v e data ctx rec where op: "op = Op_frame v e data ctx rec" by blast
    have owner: "sole_owner v t" if "motion_guard c (guarded v e t) ctx rec l a (rt_session t) s'" for l a s'
      by (rule safety_owners) (use that in \<open>simp_all add: motion_guard_def guarded_def\<close>)
    show ?thesis
      using frame_motions [of c "guarded v e t" data ctx rec "rt_session t"] owner
      unfolding op by (simp add: teleop_frame_def) blast
  next
    case False
    then show ?thesis by (intro disjI1 step_motions) blast
  qed
  show "\<not> (takes_over op t \<and> manual_active (manual_step c op t))"
    by (cases op) (auto simp: on_joystick_def on_tuning_hold_def on_action_def on_buffer_def Let_def split: if_splits)
qed

end
