(* ===== verification/Throttle.thy ===== *)
theory Throttle
  imports Prelude
begin

text \<open>
  The two time gates of the robot's topic callbacks (\<open>patrolbot_web_bridge/throttle.py\<close>): \<open>Debounce\<close>
  holds a flapping reading at its last stable value, \<open>Throttle\<close> lets one message through per interval.
  The clock is an argument of each call.
\<close>

subsection \<open>Debounce\<close>

text \<open>The stable value, the candidate and when it was first seen; \<open>None\<close> before the first reading.\<close>

record 'a debounce =
  db_settle_s :: rat
  db_held :: "('a \<times> 'a \<times> rat) option"

definition debounce_new :: "rat \<Rightarrow> 'a debounce" where
  "debounce_new settle_s = \<lparr>db_settle_s = settle_s, db_held = None\<rparr>"

definition debounce_update :: "rat \<Rightarrow> 'a \<Rightarrow> 'a debounce \<Rightarrow> 'a \<times> 'a debounce" where
  "debounce_update now value d =
     (case db_held d of
        None \<Rightarrow> (value, d\<lparr>db_held := Some (value, value, now)\<rparr>)
      | Some (held, candidate, since) \<Rightarrow>
          if value = held then (held, d\<lparr>db_held := Some (held, value, now)\<rparr>)
          else if value \<noteq> candidate then (held, d\<lparr>db_held := Some (held, value, now)\<rparr>)
          else if db_settle_s d \<le> now - since then (value, d\<lparr>db_held := Some (value, candidate, since)\<rparr>)
          else (held, d))"

text \<open>The gate after a series of timed readings, oldest first, and the value it last returned.\<close>

definition debounced :: "rat \<Rightarrow> (rat \<times> 'a) list \<Rightarrow> 'a debounce" where
  "debounced settle_s readings = foldl (\<lambda>d (now, v). snd (debounce_update now v d)) (debounce_new settle_s) readings"

definition published :: "rat \<Rightarrow> (rat \<times> 'a) list \<Rightarrow> 'a option" where
  "published settle_s readings = map_option fst (db_held (debounced settle_s readings))"

lemma debounced_simps [simp]:
  "debounced s [] = debounce_new s"
  "debounced s (xs @ [(t, v)]) = snd (debounce_update t v (debounced s xs))"
  "debounced s [(t, v)] = snd (debounce_update t v (debounce_new s))"
  by (simp_all add: debounced_def)

lemma debounce_new_held [simp]: "db_held (debounce_new s) = None"
  by (simp add: debounce_new_def)

lemma settle_kept [simp]: "db_settle_s (debounced s xs) = s"
proof (induction xs rule: rev_induct)
  case (snoc x xs)
  then show ?case by (cases x) (auto simp: debounce_update_def split: option.split)
qed (simp add: debounce_new_def)

lemma update_publishes: "published s (xs @ [(t, v)]) = Some (fst (debounce_update t v (debounced s xs)))"
  by (auto simp: published_def debounce_update_def split: option.split)

lemma held_none [simp]: "db_held (debounced s xs) = None \<longleftrightarrow> xs = []"
proof (cases xs rule: rev_cases)
  case (snoc ys y)
  then show ?thesis by (cases y) (auto simp: debounce_update_def split: option.split)
qed (simp add: debounce_new_def)

text \<open>The candidate has been the reading without a break since its date.\<close>

definition unbroken :: "(rat \<times> 'a) list \<Rightarrow> 'a \<Rightarrow> rat \<Rightarrow> bool" where
  "unbroken readings v since \<longleftrightarrow>
     (\<exists>before run. readings = before @ run \<and> run \<noteq> [] \<and> fst (hd run) = since \<and> (\<forall>r\<in>set run. snd r = v))"

lemma unbroken_new: "unbroken (xs @ [(t, v)]) v t"
  unfolding unbroken_def by (intro exI [of _ xs] exI [of _ "[(t, v)]"]) simp

lemma unbroken_more:
  assumes "unbroken xs v since"
  shows "unbroken (xs @ [(t, v)]) v since"
proof -
  obtain before run where "xs = before @ run" "run \<noteq> []" "fst (hd run) = since" "\<forall>r\<in>set run. snd r = v"
    using assms by (auto simp: unbroken_def)
  then show ?thesis unfolding unbroken_def by (intro exI [of _ before] exI [of _ "run @ [(t, v)]"]) auto
qed

lemma candidate_unbroken:
  "db_held (debounced s xs) = Some (held, candidate, since) \<Longrightarrow> unbroken xs candidate since"
proof (induction xs arbitrary: held candidate since rule: rev_induct)
  case (snoc x xs)
  obtain t v where x: "x = (t, v)" by (cases x)
  show ?case
  proof (cases "db_held (debounced s xs)")
    case None
    then show ?thesis using snoc.prems x unbroken_new [of xs t v] by (auto simp: debounce_update_def)
  next
    case (Some h)
    obtain a c b where h: "h = (a, c, b)" by (cases h)
    have "unbroken xs c b" using snoc.IH Some h by simp
    then show ?thesis
      using snoc.prems x Some h unbroken_new [of xs t v] unbroken_more [of xs c b t]
      by (auto simp: debounce_update_def split: if_splits)
  qed
qed (simp add: debounce_new_def)

lemma published_change:
  assumes "published s (xs @ [(t, v)]) \<noteq> published s xs" "xs \<noteq> []"
  shows "\<exists>since. unbroken (xs @ [(t, v)]) v since \<and> s \<le> t - since \<and> published s (xs @ [(t, v)]) = Some v"
proof -
  obtain a c b where h: "db_held (debounced s xs) = Some (a, c, b)"
    using assms(2) held_none [of s xs] by (metis not_None_eq prod_cases3)
  have old: "published s xs = Some a" using h by (simp add: published_def)
  have "published s (xs @ [(t, v)]) = Some v \<and> v = c \<and> s \<le> t - b"
    using assms(1) h unfolding old update_publishes by (auto simp: debounce_update_def split: if_splits)
  then show ?thesis using unbroken_more [OF candidate_unbroken [OF h], of t] by auto
qed

text \<open>The other direction: a reading that stays is published once the settling time is over.\<close>

lemma candidate_dated:
  assumes "sorted (map fst xs)" "db_held (debounced s xs) = Some (a, c, b)"
  shows "b \<le> fst (last xs)"
proof -
  obtain before run where r: "xs = before @ run" "run \<noteq> []" "fst (hd run) = b"
    using candidate_unbroken [OF assms(2)] by (auto simp: unbroken_def)
  obtain y ys where ys: "run = y # ys" using r(2) by (cases run) auto
  have "sorted (map fst run)" using assms(1) r(1) by (simp add: sorted_append)
  then have "fst y \<le> fst (last run)" using ys by (cases "ys = []") auto
  then show ?thesis using r ys by simp
qed

lemma steady_held:
  assumes "sorted (map fst (ys @ (u, v) # zs))" "\<forall>r\<in>set zs. snd r = v"
  shows "\<exists>a c b. db_held (debounced s (ys @ (u, v) # zs)) = Some (a, c, b) \<and> (a = v \<or> c = v \<and> b \<le> u)"
  using assms
proof (induction zs rule: rev_induct)
  case Nil
  have keep: "b \<le> u" if "db_held (debounced s ys) = Some (a, v, b)" for a b
  proof -
    have "ys \<noteq> []" using that by (auto simp: debounce_new_def)
    then have "fst (last ys) \<le> u" using Nil.prems(1) by (auto simp: sorted_append)
    then show ?thesis using candidate_dated [OF _ that] Nil.prems(1) by (force simp: sorted_append)
  qed
  show ?case
  proof (cases "db_held (debounced s ys)")
    case None
    then show ?thesis by (simp add: debounce_update_def)
  next
    case (Some h)
    then show ?thesis using keep by (cases h) (auto simp: debounce_update_def)
  qed
next
  case (snoc x zs)
  obtain t where x: "x = (t, v)" using snoc.prems(2) by (cases x) auto
  have split: "ys @ (u, v) # zs @ [x] = (ys @ (u, v) # zs) @ [(t, v)]" using x by simp
  have "sorted (map fst (ys @ (u, v) # zs))" using snoc.prems(1) by (simp add: sorted_append)
  then obtain a c b where h: "db_held (debounced s (ys @ (u, v) # zs)) = Some (a, c, b)" "a = v \<or> c = v \<and> b \<le> u"
    using snoc.IH snoc.prems(2) by auto
  show ?case unfolding split debounced_simps using h by (auto simp: debounce_update_def)
qed

lemma steady_published:
  assumes "sorted (map fst (ys @ (u, v) # zs @ [(t, v)]))" "\<forall>r\<in>set zs. snd r = v" "s \<le> t - u"
  shows "published s (ys @ (u, v) # zs @ [(t, v)]) = Some v"
proof -
  have split: "ys @ (u, v) # zs @ [(t, v)] = (ys @ (u, v) # zs) @ [(t, v)]" by simp
  have "sorted (map fst (ys @ (u, v) # zs))" using assms(1) by (simp add: sorted_append)
  then obtain a c b where h: "db_held (debounced s (ys @ (u, v) # zs)) = Some (a, c, b)" "a = v \<or> c = v \<and> b \<le> u"
    using steady_held [OF _ assms(2), of ys u s] by auto
  show ?thesis unfolding split update_publishes using h assms(3) by (auto simp: debounce_update_def)
qed

text \<open>
  A flapping reading never gets through, a real change always does. The published value of a
  debounced reading changes only to the present reading, and only when that reading has come without
  a break for the settling time; and with a clock that does not go back, a reading that is repeated
  without a break for the settling time is published at the latest with the repetition after it.
\<close>

theorem debounce_settles:
  "(xs \<noteq> [] \<and> published s (xs @ [(t, v)]) \<noteq> published s xs \<longrightarrow>
     published s (xs @ [(t, v)]) = Some v
     \<and> (\<exists>before run. xs @ [(t, v)] = before @ run \<and> run \<noteq> [] \<and> s \<le> t - fst (hd run) \<and> (\<forall>r\<in>set run. snd r = v)))
   \<and> (sorted (map fst (ys @ (u, v) # zs @ [(t, v)])) \<and> (\<forall>r\<in>set zs. snd r = v) \<and> s \<le> t - u \<longrightarrow>
     published s (ys @ (u, v) # zs @ [(t, v)]) = Some v)"
  using published_change [of s xs t v] steady_published [of ys u v zs t s] unfolding unbroken_def by blast

theorem debounce_settles_witness:
  "published 4 [(0, True), (1, False), (2, True), (3, False), (6, False)] = Some True
   \<and> published 4 ([(0, True), (1, False), (2, True)] @ (3, False) # [(6, False)] @ [(7, False)]) = Some False"
proof
  show "published 4 [(0, True), (1, False), (2, True), (3, False), (6, False)] = Some True"
    by (simp add: published_def debounced_def debounce_update_def debounce_new_def)
  show "published 4 ([(0, True), (1, False), (2, True)] @ (3, False) # [(6, False)] @ [(7, False)]) = Some False"
    by (rule debounce_settles [THEN conjunct2, THEN mp]) simp
qed

subsection \<open>Throttle\<close>

record throttle =
  th_min_interval :: rat
  th_last :: rat

definition throttle_new :: "rat \<Rightarrow> throttle" where
  "throttle_new min_interval_s = \<lparr>th_min_interval = min_interval_s, th_last = 0\<rparr>"

definition throttle_ready :: "rat \<Rightarrow> throttle \<Rightarrow> bool \<times> throttle" where
  "throttle_ready now t =
     (if th_min_interval t \<le> now - th_last t then (True, t\<lparr>th_last := now\<rparr>) else (False, t))"

text \<open>The times at which a series of calls was let through.\<close>

fun grants :: "rat list \<Rightarrow> throttle \<Rightarrow> rat list" where
  "grants [] t = []"
| "grants (now # rest) t =
     (case throttle_ready now t of (ok, t') \<Rightarrow> (if ok then now # grants rest t' else grants rest t'))"

lemma grants_spaced:
  assumes "0 \<le> th_min_interval t"
  shows "sorted_wrt (\<lambda>x y. x + th_min_interval t \<le> y) (grants calls t)
    \<and> (\<forall>x\<in>set (grants calls t). th_last t + th_min_interval t \<le> x)"
  using assms
proof (induction calls arbitrary: t)
  case (Cons now calls)
  show ?case
  proof (cases "th_min_interval t \<le> now - th_last t")
    case True
    have "grants (now # calls) t = now # grants calls (t\<lparr>th_last := now\<rparr>)" using True by (simp add: throttle_ready_def)
    then show ?thesis using Cons.IH [of "t\<lparr>th_last := now\<rparr>"] Cons.prems True by fastforce
  next
    case False
    then show ?thesis using Cons.IH [of t] Cons.prems by (simp add: throttle_ready_def)
  qed
qed simp

text \<open>A throttled topic: over any series of calls two messages are an interval apart.\<close>

lemma throttle_spacing:
  assumes "0 \<le> interval" "grants calls (throttle_new interval) = xs @ x # ys @ y # zs"
  shows "x + interval \<le> y"
  using grants_spaced [of "throttle_new interval" calls] assms by (auto simp: throttle_new_def sorted_wrt_append)

end
