(* ===== verification/Node_Sensors.thy ===== *)
theory Node_Sensors
  imports Bridge_Commands Bridge_Teleop Messages Throttle
begin

text \<open>
  The telemetry half of the robot's node (\<open>bridge_node.py\<close>): the topic callbacks with the readings they
  keep, the throttles and debounces in front of the socket, and what is sent. The normalizers are
  those of \<open>Bridge_Normalizers\<close>; the two the node alone uses, poses and maps, are here.

  A message holds the fields the code reads. The yaw of an orientation (\<open>quaternion_to_yaw\<close>, an
  arc tangent) is a field of the message. A callback reads its two clocks, monotonic and ROS, once.
\<close>

subsection \<open>Messages, configuration, state\<close>

record clocks =
  ck_mono :: rat
  ck_ros_ns :: int

definition ros_seconds :: "clocks \<Rightarrow> rat" where
  "ros_seconds k = of_int (ck_ros_ns k) / 10 ^ 9"

text \<open>An odometry message: what the safety verdict reads of it, its pose and its twist.\<close>

record odom_reading =
  or_msg :: odom_msg
  or_x :: pyfloat
  or_y :: pyfloat
  or_yaw :: pyfloat
  or_linear :: pyfloat
  or_angular :: pyfloat

text \<open>An AMCL pose with its seven geometry values and the three planar entries of its covariance.\<close>

record amcl_msg =
  am_stamp_ns :: int
  am_x :: pyfloat
  am_y :: pyfloat
  am_yaw :: pyfloat
  am_geometry :: "pyfloat list"
  am_covariance :: "pyfloat \<times> pyfloat \<times> pyfloat"

text \<open>The drive-base message: the part \<open>normalize_base_state\<close> reads, and the rest.\<close>

record node_base_msg =
  nm_base :: base_msg
  nm_odom_epoch :: "string option"
  nm_odom_epoch_generation :: "int option"
  nm_map_id :: "string option"
  nm_map_revision :: "string option"
  nm_map_activated_stamp_ns :: "int option"

type_synonym origin = "int \<times> string option \<times> int option \<times> bool"

record node_config =
  cf_covariance_warn :: rat
  cf_localization_max_age_s :: rat
  cf_motion_max_age_s :: rat
  cf_scan_max_points :: nat
  cf_path_max_points :: nat
  cf_scan_angle_offset :: rat
  cf_scan_mirror :: bool
  cf_charge_voltage_min :: rat
  cf_map_name :: string
  cf_commands_enabled :: bool

record plan_msg =
  pl_stamp_ns :: int
  pl_poses :: "(pyfloat \<times> pyfloat \<times> pyfloat) list"

record grid_msg =
  gr_width :: int
  gr_height :: int
  gr_resolution :: pyfloat
  gr_origin :: "pyfloat \<times> pyfloat \<times> pyfloat"
  gr_data :: "int list"

datatype sensor_out = Base_sent node_base | Pose_sent pose_data | Motion_sent motion_data
  | Scan_sent lidar_data | Path_sent_plain path_data | Battery_sent battery_payload
  | Diagnostics_sent "diagnostic_item list" | Map_sent map_data | Sensor_raised

record sensors =
  se_odom :: "odom_reading option"
  se_odom_mono :: "rat option"
  se_odom_at :: rat
  se_amcl :: "amcl_msg option"
  se_amcl_at :: rat
  se_base :: "node_base option"
  se_base_at :: rat
  se_base_mono :: "rat option"
  se_origin :: "origin option"
  se_map_context :: "(string option \<times> string option \<times> int) option"
  se_charge_state :: "string debounce"
  se_charging :: "bool debounce"
  se_pose_throttle :: throttle
  se_scan_throttle :: throttle
  se_path_throttle :: throttle
  se_motion_throttle :: throttle
  se_last_path :: "(pyfloat \<times> pyfloat) list option"
  se_map :: "grid_msg option"
  se_map_signature :: "(int \<times> int \<times> nat \<times> int) option"
  se_map_version :: nat
  se_sent :: "sensor_out list"

text \<open>The node after construction, with the intervals and the settling time of its parameters.\<close>

definition sensors_new :: "rat \<Rightarrow> rat \<Rightarrow> rat \<Rightarrow> rat \<Rightarrow> rat \<Rightarrow> sensors" where
  "sensors_new pose_interval scan_interval path_interval motion_interval charge_settle_s =
     \<lparr>se_odom = None, se_odom_mono = None, se_odom_at = 0, se_amcl = None, se_amcl_at = 0,
      se_base = None, se_base_at = 0, se_base_mono = None, se_origin = None, se_map_context = None,
      se_charge_state = debounce_new charge_settle_s, se_charging = debounce_new charge_settle_s,
      se_pose_throttle = throttle_new pose_interval, se_scan_throttle = throttle_new scan_interval,
      se_path_throttle = throttle_new path_interval, se_motion_throttle = throttle_new motion_interval,
      se_last_path = None, se_map = None, se_map_signature = None, se_map_version = 0, se_sent = []\<rparr>"

definition sense :: "sensor_out \<Rightarrow> sensors \<Rightarrow> sensors" where
  "sense x s = s\<lparr>se_sent := se_sent s @ [x]\<rparr>"

subsection \<open>The active map\<close>

definition map_context_of :: "sensors \<Rightarrow> string option \<times> string option" where
  "map_context_of s = (case se_base s of None \<Rightarrow> (None, None) | Some b \<Rightarrow> (nb_map_id b, nb_map_revision b))"

definition on_active_map :: "int option \<Rightarrow> sensors \<Rightarrow> bool" where
  "on_active_map stamp s =
     (case (stamp, se_base s) of
        (Some t, Some b) \<Rightarrow>
          or_empty (nb_map_id b) \<noteq> [] \<and> or_empty (nb_map_revision b) \<noteq> []
          \<and> nb_map_activated_stamp_ns b \<le> t \<and> 0 < nb_map_activated_stamp_ns b
      | _ \<Rightarrow> False)"

subsection \<open>Localization and pose\<close>

definition amcl_values :: "amcl_msg \<Rightarrow> pyfloat list \<times> pyfloat list" where
  "amcl_values m = (case am_covariance m of (a, b, c) \<Rightarrow> (am_geometry m, [a, b, c]))"

definition localization_is_usable :: "node_config \<Rightarrow> clocks \<Rightarrow> sensors \<Rightarrow> bool" where
  "localization_is_usable cf k s =
     (case (se_amcl s, se_base s) of
        (Some m, Some b) \<Rightarrow>
          localization_epoch_ready (Some b) (am_stamp_ns m) (Some (ros_seconds k - se_base_at s))
          \<and> \<not> cf_localization_max_age_s cf < ros_seconds k - se_amcl_at s
          \<and> amcl_localization_usable (Some (amcl_values m)) (Fin (cf_covariance_warn cf))
      | _ \<Rightarrow> False)"

definition normalize_pose ::
  "amcl_msg option \<Rightarrow> odom_reading option \<Rightarrow> rat \<Rightarrow> rat option \<Rightarrow> rat \<Rightarrow> pose_data option" where
  "normalize_pose amcl odom covariance_warn age max_age =
     (let lin = (case odom of None \<Rightarrow> Fin 0 | Some m \<Rightarrow> py_round 3 (or_linear m));
          ang = (case odom of None \<Rightarrow> Fin 0 | Some m \<Rightarrow> py_round 3 (or_angular m))
      in case (amcl, odom) of
        (Some m, _) \<Rightarrow> (case am_covariance m of (a, b, c) \<Rightarrow>
          Some \<lparr>map_id = None, map_revision = None, ps_frame_id = ''map'',
             ps_x = py_round 3 (am_x m), ps_y = py_round 3 (am_y m), ps_yaw = py_round 4 (am_yaw m),
             ps_linear_velocity = lin, ps_angular_velocity = ang,
             ps_covariance_trace = finite_round (Some (pf_add (pf_add a b) c)) (Some 4),
             ps_planar_covariance = Some (finite_round (Some a) None, finite_round (Some b) None, finite_round (Some c) None),
             ps_covariance_limit = Some (Fin covariance_warn),
             ps_localization_age_s = map_option Fin age, ps_localization_max_age_s = Some (Fin max_age),
             ps_localized = amcl_localization_usable (Some (amcl_values m)) (Fin covariance_warn)\<rparr>)
      | (None, Some m) \<Rightarrow>
          Some \<lparr>map_id = None, map_revision = None, ps_frame_id = ''odom'',
             ps_x = py_round 3 (or_x m), ps_y = py_round 3 (or_y m), ps_yaw = py_round 4 (or_yaw m),
             ps_linear_velocity = lin, ps_angular_velocity = ang,
             ps_covariance_trace = None, ps_planar_covariance = None,
             ps_covariance_limit = Some (Fin covariance_warn),
             ps_localization_age_s = map_option Fin age, ps_localization_max_age_s = Some (Fin max_age),
             ps_localized = False\<rparr>
      | (None, None) \<Rightarrow> None)"

definition maybe_send_pose :: "node_config \<Rightarrow> clocks \<Rightarrow> sensors \<Rightarrow> sensors" where
  "maybe_send_pose cf k s0 =
     (case throttle_ready (ck_mono k) (se_pose_throttle s0) of (ready, th) \<Rightarrow>
      let s = s0\<lparr>se_pose_throttle := th\<rparr>
      in if \<not> ready then s
         else case normalize_pose (se_amcl s) (se_odom s) (cf_covariance_warn cf)
                     (map_option (\<lambda>m. ros_seconds k - se_amcl_at s) (se_amcl s)) (cf_localization_max_age_s cf) of
             None \<Rightarrow> s
           | Some p \<Rightarrow>
               if on_active_map (map_option am_stamp_ns (se_amcl s)) s
               then sense (Pose_sent (p\<lparr>map_id := fst (map_context_of s), map_revision := snd (map_context_of s),
                                        ps_localized := localization_is_usable cf k s\<rparr>)) s
               else s)"

subsection \<open>Motion\<close>

definition maybe_send_motion :: "node_config \<Rightarrow> clocks \<Rightarrow> sensors \<Rightarrow> sensors" where
  "maybe_send_motion cf k s0 =
     (case throttle_ready (ck_mono k) (se_motion_throttle s0) of (ready, th) \<Rightarrow>
      let s = s0\<lparr>se_motion_throttle := th\<rparr>
      in if \<not> ready then s
         else case (se_origin s, se_base_mono s, se_odom s, se_odom_mono s) of
             (Some (generation, epoch, epoch_generation, True), Some base_at, Some m, Some odom_at) \<Rightarrow>
               let sample_age = of_int (ck_ros_ns k - om_stamp_ns (or_msg m)) / 10 ^ 9 :: rat
               in if \<not> (0 \<le> ck_mono k - base_at \<and> ck_mono k - base_at \<le> 1 / 2) then s
                  else if \<not> (0 \<le> sample_age \<and> sample_age \<le> cf_motion_max_age_s cf) then s
                  else (case normalize_motion (Some (or_linear m)) (Some (or_angular m)) (Some generation) epoch
                          epoch_generation (Some (Fin sample_age)) (Some (Fin (ck_mono k - odom_at))) of
                      None \<Rightarrow> s | Some d \<Rightarrow> sense (Motion_sent d) s)
           | _ \<Rightarrow> s)"

definition on_odom :: "node_config \<Rightarrow> clocks \<Rightarrow> odom_reading \<Rightarrow> sensors \<Rightarrow> sensors" where
  "on_odom cf k m s =
     maybe_send_motion cf k (maybe_send_pose cf k
       (s\<lparr>se_odom := Some m, se_odom_mono := Some (ck_mono k), se_odom_at := ros_seconds k\<rparr>))"

definition on_amcl :: "node_config \<Rightarrow> clocks \<Rightarrow> amcl_msg \<Rightarrow> sensors \<Rightarrow> sensors" where
  "on_amcl cf k m s = maybe_send_pose cf k (s\<lparr>se_amcl := Some m, se_amcl_at := ros_seconds k\<rparr>)"

subsection \<open>Scan, path, battery, diagnostics\<close>

text \<open>A parameter of zero points makes the normalizer divide by zero: \<open>Sensor_raised\<close>.\<close>

definition on_scan :: "node_config \<Rightarrow> clocks \<Rightarrow> int \<Rightarrow> scan_msg \<Rightarrow> sensors \<Rightarrow> sensors" where
  "on_scan cf k stamp m s0 =
     (case throttle_ready (ck_mono k) (se_scan_throttle s0) of (ready, th) \<Rightarrow>
      let s = s0\<lparr>se_scan_throttle := th\<rparr>
      in if \<not> ready \<or> \<not> on_active_map (Some stamp) s then s
         else case normalize_scan m (cf_scan_max_points cf) (cf_scan_angle_offset cf) (cf_scan_mirror cf) of
             None \<Rightarrow> sense Sensor_raised s
           | Some (amin, inc, ranges) \<Rightarrow>
               sense (Scan_sent \<lparr>map_id = fst (map_context_of s), map_revision = snd (map_context_of s),
                        ld_angle_min = Fin amin, ld_angle_increment = Fin inc, ld_ranges = ranges\<rparr>) s)"

definition on_plan :: "node_config \<Rightarrow> clocks \<Rightarrow> plan_msg \<Rightarrow> sensors \<Rightarrow> sensors" where
  "on_plan cf k m s0 =
     (if cf_commands_enabled cf then s0
      else case throttle_ready (ck_mono k) (se_path_throttle s0) of (ready, th) \<Rightarrow>
        let s = s0\<lparr>se_path_throttle := th\<rparr>; ctx = map_context_of s
        in if \<not> ready \<or> \<not> on_active_map (Some (pl_stamp_ns m)) s then s
           else case normalize_path_points (map (\<lambda>(x, y, yaw). (x, y)) (pl_poses m)) (cf_path_max_points cf) of
               None \<Rightarrow> sense Sensor_raised s
             | Some points \<Rightarrow>
                 if se_last_path s = Some points then s
                 else sense (Path_sent_plain \<lparr>map_id = fst ctx, map_revision = snd ctx, pt_frame_id = ''map'',
                        pt_points = points,
                        pt_goal = (if pl_poses m = [] then None
                          else case last (pl_poses m) of (x, y, yaw) \<Rightarrow>
                            Some \<lparr>map_id = fst ctx, map_revision = snd ctx, gl_x = py_round 3 x,
                                  gl_y = py_round 3 y, gl_yaw = Some (py_round 4 yaw)\<rparr>)\<rparr>)
                      (s\<lparr>se_last_path := Some points\<rparr>))"

definition on_battery :: "node_config \<Rightarrow> clocks \<Rightarrow> battery_msg \<Rightarrow> sensors \<Rightarrow> sensors" where
  "on_battery cf k m s =
     (case normalize_battery m (Some (Fin (cf_charge_voltage_min cf))) of
        None \<Rightarrow> s
      | Some p \<Rightarrow> (case debounce_update (ck_mono k) (bp_charging p) (se_charging s) of (charging, d) \<Rightarrow>
          sense (Battery_sent (p\<lparr>bp_charging := charging\<rparr>)) (s\<lparr>se_charging := d\<rparr>)))"

definition on_diagnostics :: "(string \<times> raw_level \<times> string) list \<Rightarrow> sensors \<Rightarrow> sensors" where
  "on_diagnostics statuses s = sense (Diagnostics_sent (normalize_diagnostics statuses)) s"

subsection \<open>Drive base\<close>

definition origin_of :: "node_base_msg \<Rightarrow> origin" where
  "origin_of m = (bm_session_generation (nm_base m), nm_odom_epoch m, nm_odom_epoch_generation m,
     default False (bm_odom_epoch_valid (nm_base m)))"

definition raw_odom_age :: "clocks \<Rightarrow> sensors \<Rightarrow> pyfloat option" where
  "raw_odom_age k s =
     (case (se_odom s, se_odom_mono s) of
        (Some m, Some odom_at) \<Rightarrow>
          (case om_values (or_msg m) of None \<Rightarrow> None | Some vs \<Rightarrow>
             let receipt_age = ck_mono k - odom_at;
                 stamp_age = of_int (ck_ros_ns k - om_stamp_ns (or_msg m)) / 10 ^ 9 :: rat
             in if \<not> list_all is_finite vs \<or> receipt_age < 0 \<or> stamp_age < 0 then None
                else Some (Fin (max receipt_age stamp_age)))
      | _ \<Rightarrow> None)"

text \<open>An empty map name counts as none (\<open>or None\<close>).\<close>

definition named :: "string option \<Rightarrow> string option" where
  "named x = (if or_empty x = [] then None else x)"

definition take_origin :: "node_base_msg \<Rightarrow> sensors \<Rightarrow> sensors" where
  "take_origin m s =
     (let s1 = s\<lparr>se_origin := Some (origin_of m)\<rparr>
      in if se_origin s \<noteq> Some (origin_of m) then s1\<lparr>se_odom := None, se_odom_mono := None\<rparr> else s1)"

definition take_map :: "node_base_msg \<Rightarrow> sensors \<Rightarrow> sensors" where
  "take_map m s =
     (if (named (nm_map_id m), named (nm_map_revision m)) \<noteq> map_context_of s
      then s\<lparr>se_amcl := None, se_last_path := None\<rparr> else s)"

text \<open>
  \<open>_on_base_state\<close> up to its payload. The navigation context of the executor and the seeding of the
  dock pose, which follow, belong to the node.
\<close>

definition on_base_state :: "clocks \<Rightarrow> node_base_msg \<Rightarrow> sensors \<Rightarrow> node_base \<times> sensors" where
  "on_base_state k m s0 =
     (let s1 = take_origin m s0;
          b = normalize_base_state (nm_base m);
          s2 = take_map m s1
      in case debounce_update (ck_mono k) (bb_charge_state b) (se_charge_state s2) of (charge, d) \<Rightarrow>
         let n = \<lparr>nb_payload = b\<lparr>bb_charge_state := charge\<rparr>, nb_raw_odom_age_s = raw_odom_age k s1,
                  nb_map_id = named (nm_map_id m), nb_map_revision = named (nm_map_revision m),
                  nb_map_activated_stamp_ns = default 0 (nm_map_activated_stamp_ns m)\<rparr>
         in (n, sense (Base_sent n)
                  (s2\<lparr>se_charge_state := d, se_base := Some n, se_base_at := ros_seconds k,
                      se_base_mono := Some (ck_mono k),
                      se_map_context := Some (nb_map_id n, nb_map_revision n, nb_map_activated_stamp_ns n)\<rparr>)))"

subsection \<open>Map\<close>

definition normalize_map :: "grid_msg \<Rightarrow> nat \<Rightarrow> string \<Rightarrow> map_data" where
  "normalize_map g version name =
     (case gr_origin g of (x, y, yaw) \<Rightarrow>
      \<lparr>map_id = None, map_revision = None, mp_map_version = int version, mp_name = name,
       mp_resolution = py_round 4 (gr_resolution g), mp_width = gr_width g, mp_height = gr_height g,
       mp_origin = \<lparr>og_x = py_round 3 x, og_y = py_round 3 y, og_yaw = py_round 4 yaw\<rparr>,
       mp_rle = bridge_encode_rle (gr_data g)\<rparr>)"

definition send_map :: "node_config \<Rightarrow> sensors \<Rightarrow> sensors" where
  "send_map cf s =
     (case se_map s of None \<Rightarrow> s
      | Some g \<Rightarrow> sense (Map_sent (normalize_map g (se_map_version s) (cf_map_name cf))) s)"

definition on_map :: "node_config \<Rightarrow> grid_msg \<Rightarrow> sensors \<Rightarrow> sensors" where
  "on_map cf g s =
     (let signature = map_signature (gr_width g) (gr_height g) (gr_data g)
      in if se_map_signature s = Some signature then s
         else send_map cf (s\<lparr>se_map_signature := Some signature, se_map_version := Suc (se_map_version s),
                             se_map := Some g\<rparr>))"

subsection \<open>Runs of the telemetry callbacks\<close>

datatype sensor_op = Got_odom clocks odom_reading | Got_amcl clocks amcl_msg | Got_scan clocks int scan_msg
  | Got_plan clocks plan_msg | Got_battery clocks battery_msg | Got_diagnostics "(string \<times> raw_level \<times> string) list"
  | Got_base clocks node_base_msg | Got_map grid_msg | Map_wanted

fun sensor_step :: "node_config \<Rightarrow> sensor_op \<Rightarrow> sensors \<Rightarrow> sensors" where
  "sensor_step cf (Got_odom k m) s = on_odom cf k m s"
| "sensor_step cf (Got_amcl k m) s = on_amcl cf k m s"
| "sensor_step cf (Got_scan k stamp m) s = on_scan cf k stamp m s"
| "sensor_step cf (Got_plan k m) s = on_plan cf k m s"
| "sensor_step cf (Got_battery k m) s = on_battery cf k m s"
| "sensor_step cf (Got_diagnostics d) s = on_diagnostics d s"
| "sensor_step cf (Got_base k m) s = snd (on_base_state k m s)"
| "sensor_step cf (Got_map g) s = on_map cf g s"
| "sensor_step cf Map_wanted s = send_map cf s"

text \<open>A run, with the odometry messages received and the origin the drive base reported at that time.\<close>

inductive sensor_run :: "node_config \<Rightarrow> (odom_reading \<times> origin option) list \<Rightarrow> sensors \<Rightarrow> bool"
  for cf :: node_config where
  sr_new: "sensor_run cf [] (sensors_new pose_i scan_i path_i motion_i settle)"
| sr_step: "sensor_run cf h s \<Longrightarrow> s' = sensor_step cf op s
    \<Longrightarrow> h' = h @ (case op of Got_odom k m \<Rightarrow> [(m, se_origin s)] | _ \<Rightarrow> [])
    \<Longrightarrow> sensor_run cf h' s'"

subsection \<open>Properties\<close>

text \<open>A motion sample tells the twist of an odometry message received under the origin it names.\<close>

definition sample_of :: "(odom_reading \<times> origin option) list \<Rightarrow> motion_data \<Rightarrow> bool" where
  "sample_of h d \<longleftrightarrow>
     (\<exists>m e. (m, Some (mo_session_generation d, e, Some (mo_odom_epoch_generation d), True)) \<in> set h
        \<and> mo_odom_epoch d = default [] e
        \<and> mo_linear_velocity d = py_round 3 (or_linear m) \<and> mo_angular_velocity d = py_round 3 (or_angular m))"

definition sensor_inv :: "(odom_reading \<times> origin option) list \<Rightarrow> sensors \<Rightarrow> bool" where
  "sensor_inv h s \<longleftrightarrow>
     (\<forall>m. se_odom s = Some m \<longrightarrow> (m, se_origin s) \<in> set h)
     \<and> (\<forall>d. Motion_sent d \<in> set (se_sent s) \<longrightarrow> valid_motion d \<and> sample_of h d)"

lemma motion_sample_fields:
  assumes "normalize_motion (Some lin) (Some ang) (Some g) e eg sa ra = Some d"
  shows "mo_session_generation d = g \<and> mo_odom_epoch d = default [] e \<and> eg = Some (mo_odom_epoch_generation d)
    \<and> mo_linear_velocity d = py_round 3 lin \<and> mo_angular_velocity d = py_round 3 ang"
  using assms by (auto simp: normalize_motion_def Let_def split: option.splits if_splits)

lemma inv_motion:
  assumes "sensor_inv h s" shows "sensor_inv h (maybe_send_motion cf k s)"
proof -
  have sent: "sensor_inv h (sense (Motion_sent d) (s\<lparr>se_motion_throttle := th\<rparr>))"
    if "se_origin s = Some (g, e, eg, True)" "se_odom s = Some m"
      "normalize_motion (Some (or_linear m)) (Some (or_angular m)) (Some g) e eg sa ra = Some d" for g e eg m sa ra d th
  proof -
    have "sample_of h d" using assms motion_sample_fields [OF that(3)] that(1,2) by (auto simp: sensor_inv_def sample_of_def)
    moreover have "valid_motion d" using motion_sample_accepted_by_server [OF that(3)] by simp
    ultimately show ?thesis using assms by (auto simp: sensor_inv_def sense_def)
  qed
  have kept: "sensor_inv h (s\<lparr>se_motion_throttle := th\<rparr>)" for th using assms by (simp add: sensor_inv_def)
  show ?thesis using sent kept
    by (auto simp: maybe_send_motion_def Let_def split: prod.split option.split bool.split)
qed

lemma inv_pose: "sensor_inv h s \<Longrightarrow> sensor_inv h (maybe_send_pose cf k s)"
  by (auto simp: maybe_send_pose_def Let_def sensor_inv_def sense_def split: prod.split option.split)

lemma inv_more: "sensor_inv h s \<Longrightarrow> sensor_inv (h @ x) s"
  by (fastforce simp: sensor_inv_def sample_of_def)

text \<open>A callback that sends anything but motion and does not touch odometry keeps the invariant.\<close>

lemma inv_other:
  assumes "sensor_inv h s" "se_odom s' = se_odom s" "se_origin s' = se_origin s"
    "\<And>d. Motion_sent d \<in> set (se_sent s') \<Longrightarrow> Motion_sent d \<in> set (se_sent s)"
  shows "sensor_inv h s'"
  using assms by (auto simp: sensor_inv_def)

lemma sensor_inv_step:
  assumes inv: "sensor_inv h s"
  shows "sensor_inv (h @ (case op of Got_odom k m \<Rightarrow> [(m, se_origin s)] | _ \<Rightarrow> [])) (sensor_step cf op s)"
proof (cases op)
  case (Got_odom k m)
  have "sensor_inv (h @ [(m, se_origin s)]) (s\<lparr>se_odom := Some m, se_odom_mono := x, se_odom_at := y\<rparr>)" for x y
    using inv_more [OF inv, of "[(m, se_origin s)]"] by (auto simp: sensor_inv_def)
  then show ?thesis unfolding Got_odom by (simp add: on_odom_def inv_motion inv_pose)
next
  case (Got_amcl k m)
  have "sensor_inv h (s\<lparr>se_amcl := x, se_amcl_at := y\<rparr>)" for x y using inv by (simp add: sensor_inv_def)
  then show ?thesis unfolding Got_amcl by (simp add: on_amcl_def inv_pose)
next
  case (Got_base k m)
  have "sensor_inv h (take_origin m s)" using inv by (auto simp: take_origin_def Let_def sensor_inv_def)
  then have "sensor_inv h (take_map m (take_origin m s))" by (auto simp: take_map_def sensor_inv_def)
  then show ?thesis unfolding Got_base
    by (auto simp: on_base_state_def Let_def sense_def elim!: inv_other split: prod.split)
qed (auto intro!: inv_other [OF inv] simp: on_scan_def on_plan_def on_battery_def on_diagnostics_def on_map_def send_map_def
      sense_def Let_def split: prod.splits option.splits if_splits)

lemma sensor_run_inv: "sensor_run cf h s \<Longrightarrow> sensor_inv h s"
proof (induction rule: sensor_run.induct)
  case (sr_new pose_i scan_i path_i motion_i settle)
  show ?case by (simp add: sensor_inv_def sensors_new_def)
next
  case (sr_step h s s' op h')
  show ?case unfolding sr_step.hyps(2,3) by (rule sensor_inv_step [OF sr_step.IH])
qed



subsection \<open>Examples\<close>

definition sensor_after :: "node_config \<Rightarrow> sensor_op list \<Rightarrow> (odom_reading \<times> origin option) list \<times> sensors" where
  "sensor_after cf ops = foldl (\<lambda>(h, s) op.
     (h @ (case op of Got_odom k m \<Rightarrow> [(m, se_origin s)] | _ \<Rightarrow> []), sensor_step cf op s))
     ([], sensors_new (1 / 10) (1 / 5) (1 / 2) (1 / 10) 4) ops"

lemma sensor_run_after: "sensor_run cf (fst (sensor_after cf ops)) (snd (sensor_after cf ops))"
proof (induction ops rule: rev_induct)
  case Nil
  show ?case by (simp add: sensor_after_def sr_new)
next
  case (snoc op ops)
  obtain h s where hs: "sensor_after cf ops = (h, s)" by (cases "sensor_after cf ops")
  have "sensor_run cf h s" using snoc hs by simp
  from sr_step [OF this refl refl, of op] show ?case using hs by (simp add: sensor_after_def)
qed

definition example_config :: node_config where
  "example_config = \<lparr>cf_covariance_warn = 1 / 4, cf_localization_max_age_s = 30, cf_motion_max_age_s = 1,
     cf_scan_max_points = 360, cf_path_max_points = 200, cf_scan_angle_offset = 0, cf_scan_mirror = True,
     cf_charge_voltage_min = 55 / 2, cf_map_name = ''PatrolBot map'', cf_commands_enabled = True\<rparr>"

definition example_node_msg :: node_base_msg where
  "example_node_msg = \<lparr>nm_base = example_base_msg\<lparr>bm_localization_recovery_required := Some False,
       bm_localization_seed_stamp_ns := Some 5\<rparr>, nm_odom_epoch = Some ''e1'', nm_odom_epoch_generation = Some 2,
     nm_map_id = Some ''lab'', nm_map_revision = Some ''r1'', nm_map_activated_stamp_ns = Some 3\<rparr>"

definition example_odom_reading :: odom_reading where
  "example_odom_reading = \<lparr>or_msg = \<lparr>om_values = Some [Fin 0, Fin 0], om_stamp_ns = 10000000000\<rparr>,
     or_x = Fin 0, or_y = Fin 0, or_yaw = Fin 0, or_linear = Fin (1 / 4), or_angular = Fin 0\<rparr>"

definition example_amcl :: amcl_msg where
  "example_amcl = \<lparr>am_stamp_ns = 9, am_x = Fin 1, am_y = Fin 2, am_yaw = Fin 0,
     am_geometry = replicate 7 (Fin 0), am_covariance = (Fin (1 / 10), Fin (1 / 10), Fin (1 / 10))\<rparr>"

definition example_clocks :: "rat \<Rightarrow> clocks" where
  "example_clocks t = \<lparr>ck_mono = t, ck_ros_ns = \<lfloor>t * 10 ^ 9\<rfloor>\<rparr>"

definition example_sensed :: sensors where
  "example_sensed = snd (sensor_after example_config
     [Got_base (example_clocks 10) example_node_msg, Got_odom (example_clocks (41 / 4)) example_odom_reading])"

definition example_located :: sensors where
  "example_located = example_sensed\<lparr>se_amcl := Some example_amcl, se_amcl_at := 41 / 4\<rparr>"

lemma example_motion: "list_ex (\<lambda>x. case x of Motion_sent d \<Rightarrow> True | _ \<Rightarrow> False) (se_sent example_sensed)"
  by code_simp


definition example_pose :: "sensor_out list" where
  "example_pose = drop (length (se_sent example_located))
     (se_sent (maybe_send_pose example_config (example_clocks 11) example_located))"

lemma example_pose_sent:
  "se_sent (maybe_send_pose example_config (example_clocks 11) example_located) = se_sent example_located @ example_pose"
  "list_all (\<lambda>x. case x of Pose_sent p \<Rightarrow> ps_localized p \<and> map_id p = Some ''lab'' | _ \<Rightarrow> False) example_pose"
  "length example_pose = 1"
  by code_simp+


end
