(* ===== verification/Robot_Node.thy ===== *)
theory Robot_Node
  imports Executor_Motion System_Reset Ros_Teleop Node_Sensors
begin

text \<open>
  The robot's node as a whole (\<open>bridge_node.py\<close>): the mailboxes between the socket thread and the ROS
  callbacks, the timer that drains them into manual drive, the software reset client and the command
  executor, and the callbacks around them. Sensors, manual drive, reset and executor are the models of
  \<open>Node_Sensors\<close>, \<open>Ros_Teleop\<close>, \<open>System_Reset\<close> and \<open>Executor_Run\<close>, composed here over one state.

  Steps are as fine as the threads can interleave: what the socket thread appends may arrive between
  any two commands of a drain. An exception that leaves a callback ends the node (\<open>nd_crashed\<close>, or
  \<open>Raised\<close> in the executor).
\<close>

subsection \<open>State\<close>

type_synonym node_context = "nat \<times> origin option \<times> (string option \<times> string option \<times> int) option"

text \<open>A queued command; the two manual ones carry the connection and the time of their receipt.\<close>

record queued =
  qd_data :: entry
  qd_stamp :: "(nat \<times> rat) option"

type_synonym mail = "entry \<times> rat \<times> nat"

text \<open>
  Where \<open>_drain_commands\<close> is: outside, in its loop with the release and the sample it took, or past
  the release with the sample still to deliver.
\<close>

datatype drain_phase = Resting | Draining "mail option" "mail option" | Delivering "mail option"

datatype node_refusal = Manual_not_enabled | Connection_changed_before | Manual_first | Commands_disabled
  | Reset_not_commissioned | Reset_in_progress

record robot_node =
  nd_queue :: "queued list"
  nd_sample :: "mail option"
  nd_release :: "mail option"
  nd_invalidated :: bool
  nd_phase :: drain_phase
  nd_teleop :: "node_context ros_teleop option"
  nd_commands :: "executor option"
  nd_reset :: "reset_client option"
  nd_sensors :: sensors
  nd_generation :: nat
  nd_connected :: bool
  nd_last_seed :: rat
  nd_refused :: "(pyval \<times> node_refusal) list"
  nd_crashed :: bool

record node_params =
  np_config :: node_config
  np_contract :: teleop_contract
  np_auto_dock_pose :: bool
  np_dock_pose_retry_s :: rat
  np_dock_id :: string
  np_str :: "pyval \<Rightarrow> string"

text \<open>
  What a callback finds around the node: its clocks, the ROS graph, the executor's view of ROS, and
  for the manual session the clock, policy and publisher.
\<close>

record node_env =
  ne_clocks :: clocks
  ne_graph :: graph
  ne_ros :: ros
  ne_session :: session_env

text \<open>A node with commands has an executor; manual drive and the reset client may be missing.\<close>

definition node_new :: "sensors \<Rightarrow> bool \<Rightarrow> bool \<Rightarrow> string \<Rightarrow> robot_node" where
  "node_new sensors commands_enabled teleop_available reset_socket =
     \<lparr>nd_queue = [], nd_sample = None, nd_release = None, nd_invalidated = False, nd_phase = Resting,
      nd_teleop = (if commands_enabled \<and> teleop_available then Some ros_teleop_new else None),
      nd_commands = (if commands_enabled then Some executor_new else None),
      nd_reset = (if commands_enabled \<and> reset_socket \<noteq> [] then Some (new_reset reset_socket) else None),
      nd_sensors = sensors, nd_generation = 0, nd_connected = False, nd_last_seed = 0,
      nd_refused = [], nd_crashed = False\<rparr>"

definition drive_open :: "robot_node \<Rightarrow> bool" where
  "drive_open n = (case nd_teleop n of None \<Rightarrow> False | Some t \<Rightarrow> manual_active t)"

definition alive :: "robot_node \<Rightarrow> bool" where
  "alive n = (\<not> nd_crashed n \<and> (case nd_commands n of None \<Rightarrow> True | Some x \<Rightarrow> Raised \<notin> set (ex_out x)))"

subsection \<open>What the manual session sees of the node\<close>

definition teleop_context :: "robot_node \<Rightarrow> node_context" where
  "teleop_context n = (nd_generation n, se_origin (nd_sensors n), se_map_context (nd_sensors n))"

text \<open>Is a command, an undock, a map localization or a LiDAR power cycle under way.\<close>

definition command_slots :: "executor option \<Rightarrow> bool list" where
  "command_slots c =
     (case c of None \<Rightarrow> []
      | Some x \<Rightarrow> [ex_active x \<noteq> None, ex_nav_pending x \<noteq> None, ex_map x \<noteq> None, ex_undock x \<noteq> None,
                   ex_lidar_pending x \<noteq> None])"

definition node_view :: "node_env \<Rightarrow> robot_node \<Rightarrow> robot_view" where
  "node_view e n =
     (let s = nd_sensors n
      in \<lparr>rv_now = ck_mono (ne_clocks e), rv_ros_now_ns = ck_ros_ns (ne_clocks e), rv_connected = nd_connected n,
          rv_base = map_option nb_payload (se_base s), rv_base_at = se_base_mono s,
          rv_odom = map_option or_msg (se_odom s), rv_odom_at = se_odom_mono s,
          rv_command_slots = command_slots (nd_commands n),
          rv_reset_blocked = (case nd_reset n of None \<Rightarrow> False | Some r \<Rightarrow> commands_blocked r),
          rv_graph = ne_graph e\<rparr>)"

definition with_teleop :: "(node_context ros_teleop \<Rightarrow> node_context ros_teleop) \<Rightarrow> robot_node \<Rightarrow> robot_node" where
  "with_teleop f n = n\<lparr>nd_teleop := map_option f (nd_teleop n)\<rparr>"

definition end_drive :: "node_env \<Rightarrow> end_reason \<Rightarrow> outcome \<Rightarrow> robot_node \<Rightarrow> robot_node" where
  "end_drive e reason oc n = with_teleop (end_manual (ne_session e) reason oc) n"

subsection \<open>The mailboxes of the socket thread\<close>

definition QUEUE_MAXLEN :: nat where "QUEUE_MAXLEN = 16"

text \<open>\<open>append\<close> to a \<open>deque(maxlen=16)\<close>: a full one drops its oldest element.\<close>

definition push :: "'a \<Rightarrow> 'a list \<Rightarrow> 'a list" where
  "push x q = drop (Suc (length q) - QUEUE_MAXLEN) (q @ [x])"

definition is_manual :: "entry \<Rightarrow> bool" where
  "is_manual d = (get d ''command'' \<in> {VStr ''teleop_start'', VStr ''teleop_stop''})"

text \<open>A list or an object is not hashable, so asking for it in a set raises: \<open>None\<close>.\<close>

definition is_hashable :: "pyval \<Rightarrow> bool" where
  "is_hashable v = (case v of VList xs \<Rightarrow> False | VDict d \<Rightarrow> False | _ \<Rightarrow> True)"

definition enqueue_command :: "rat \<Rightarrow> pyval \<Rightarrow> robot_node \<Rightarrow> robot_node option" where
  "enqueue_command now data n =
     (case data of
        VDict d \<Rightarrow>
          if \<not> is_hashable (get d ''command'') then None
          else Some (n\<lparr>nd_queue := push \<lparr>qd_data = d,
                 qd_stamp = (if is_manual d then Some (nd_generation n, now) else None)\<rparr> (nd_queue n)\<rparr>)
      | _ \<Rightarrow> Some n)"

text \<open>
  \<open>_enqueue_teleop\<close>. The age of the frame by its timestamp is an argument, \<open>None\<close> where the timestamp
  is missing, unreadable or without a zone.
\<close>

definition newer_sample :: "mail option \<Rightarrow> entry \<Rightarrow> bool" where
  "newer_sample previous d =
     (case previous of None \<Rightarrow> True
      | Some (p, received, gen) \<Rightarrow> \<not> (get p ''command_id'' = get d ''command_id''
          \<and> (case (get p ''seq'', get d ''seq'') of (VInt i, VInt j) \<Rightarrow> j \<le> i | _ \<Rightarrow> False)))"

definition enqueue_teleop :: "rat \<Rightarrow> rat option \<Rightarrow> pyval \<Rightarrow> robot_node \<Rightarrow> robot_node" where
  "enqueue_teleop now age data n =
     (case (age, data) of
        (Some a, VDict d) \<Rightarrow>
          let m = (d, now - a, nd_generation n)
          in if \<not> (0 \<le> a \<and> a \<le> 3 / 10) then n
             else if get d ''deadman'' = VBool False then n\<lparr>nd_release := Some m, nd_sample := None\<rparr>
             else if (case nd_release n of None \<Rightarrow> False | Some (p, received, gen) \<Rightarrow> get p ''command_id'' = get d ''command_id'')
             then n
             else if newer_sample (nd_sample n) d then n\<lparr>nd_sample := Some m\<rparr>
             else n
      | _ \<Rightarrow> n)"

definition teleop_disconnected :: "robot_node \<Rightarrow> robot_node" where
  "teleop_disconnected n = n\<lparr>nd_sample := None, nd_release := None, nd_invalidated := True\<rparr>"

subsection \<open>Draining\<close>

definition drain_begin :: "node_env \<Rightarrow> robot_node \<Rightarrow> robot_node" where
  "drain_begin e n =
     (let n1 = n\<lparr>nd_invalidated := False, nd_sample := None, nd_release := None,
                 nd_phase := Draining (nd_release n) (nd_sample n)\<rparr>
      in if nd_invalidated n then end_drive e Transport_changed Ok_failed n1 else n1)"

definition refuse_command :: "entry \<Rightarrow> node_refusal \<Rightarrow> robot_node \<Rightarrow> robot_node" where
  "refuse_command d why n = n\<lparr>nd_refused := nd_refused n @ [(default (VStr []) (dget d ''command_id''), why)]\<rparr>"

text \<open>The frame as the executor reads it; a number or name of another type counts as missing.\<close>

definition text_value :: "pyval \<Rightarrow> string option" where
  "text_value v = (case v of VStr s \<Rightarrow> Some s | _ \<Rightarrow> None)"

definition number_value :: "pyval \<Rightarrow> pyfloat" where
  "number_value v = (case v of VInt i \<Rightarrow> Fin (of_int i) | VFloat x \<Rightarrow> x | _ \<Rightarrow> NaN)"

definition goal_of :: "pyval \<Rightarrow> robot_goal option" where
  "goal_of v =
     (case v of
        VDict g \<Rightarrow> if g = [] then None
          else Some \<lparr>rg_x = number_value (get g ''x''), rg_y = number_value (get g ''y''),
                 rg_yaw = (if get g ''yaw'' = VNone then None else Some (number_value (get g ''yaw''))),
                 rg_map_id = text_value (get g ''map_id''), rg_map_revision = text_value (get g ''map_revision'')\<rparr>
      | _ \<Rightarrow> None)"

definition command_id_of :: "(pyval \<Rightarrow> string) \<Rightarrow> entry \<Rightarrow> string" where
  "command_id_of py_str d =
     (case dget d ''command_id'' of None \<Rightarrow> [] | Some v \<Rightarrow> (case v of VStr s \<Rightarrow> s | _ \<Rightarrow> py_str v))"

definition frame_of :: "(pyval \<Rightarrow> string) \<Rightarrow> entry \<Rightarrow> robot_frame" where
  "frame_of py_str d =
     \<lparr>rf_command_id = command_id_of py_str d, rf_command = default [] (text_value (get d ''command'')),
      rf_goal = goal_of (get d ''goal''),
      rf_seed_profile = (case get d ''seed_profile'' of VNone \<Rightarrow> None | VStr s \<Rightarrow> Some s | _ \<Rightarrow> Some []),
      rf_allow_unlocalized = get d ''allow_unlocalized'', rf_operator_authorized = get d ''operator_authorized'',
      rf_enabled = get d ''enabled''\<rparr>"

definition context_of :: "node_params \<Rightarrow> node_env \<Rightarrow> robot_node \<Rightarrow> frame_context" where
  "context_of p e n =
     (let s = nd_sensors n; now = ros_seconds (ne_clocks e)
      in \<lparr>fc_base = se_base s, fc_yaw = map_option am_yaw (se_amcl s),
          fc_localized = localization_is_usable (np_config p) (ne_clocks e) s,
          fc_base_age = map_option (\<lambda>b. now - se_base_at s) (se_base s),
          fc_odom_age = map_option (\<lambda>m. now - se_odom_at s) (se_odom s)\<rparr>)"

text \<open>One of the two manual commands.\<close>

definition drain_manual :: "node_params \<Rightarrow> node_env \<Rightarrow> queued \<Rightarrow> robot_node \<Rightarrow> robot_node" where
  "drain_manual p e q n =
     (if nd_teleop n = None then refuse_command (qd_data q) Manual_not_enabled n
      else if map_option fst (qd_stamp q) \<noteq> Some (nd_generation n) \<or> \<not> nd_connected n
      then refuse_command (qd_data q) Connection_changed_before n
      else with_teleop (teleop_handle (np_contract p) (node_view e n) (ne_session e) (qd_data q)
                          (teleop_context n) (map_option snd (qd_stamp q))) n)"

text \<open>Any other command once no manual session stands in its way.\<close>

definition drain_other :: "node_params \<Rightarrow> node_env \<Rightarrow> entry \<Rightarrow> robot_node \<Rightarrow> robot_node" where
  "drain_other p e d n =
     (case nd_commands n of
        None \<Rightarrow> refuse_command d Commands_disabled n
      | Some x \<Rightarrow>
          if get d ''command'' = VStr ''software_reset''
          then (case nd_reset n of
              None \<Rightarrow> refuse_command d Reset_not_commissioned n
            | Some r \<Rightarrow> (case reset_request (command_id_of (np_str p) d) (get d ''operator_authorized'') r of
                  None \<Rightarrow> n\<lparr>nd_crashed := True\<rparr> | Some r' \<Rightarrow> n\<lparr>nd_reset := Some r'\<rparr>))
          else if (case nd_reset n of None \<Rightarrow> False | Some r \<Rightarrow> commands_blocked r)
                  \<and> get d ''command'' \<noteq> VStr ''stop''
          then refuse_command d Reset_in_progress n
          else n\<lparr>nd_commands := Some (handle (ne_ros e) (context_of p e n) (frame_of (np_str p) d) x)\<rparr>)"

definition ends_manual :: "entry \<Rightarrow> bool" where
  "ends_manual d = (get d ''command'' \<in> {VStr ''stop'', VStr ''motor_disable'', VStr ''software_reset''})"

definition drain_command :: "node_params \<Rightarrow> node_env \<Rightarrow> robot_node \<Rightarrow> robot_node" where
  "drain_command p e n =
     (case nd_queue n of
        [] \<Rightarrow> n
      | q # rest \<Rightarrow>
          let n1 = n\<lparr>nd_queue := rest\<rparr>; d = qd_data q
          in if is_manual d then drain_manual p e q n1
             else if drive_open n1
             then (if ends_manual d then drain_other p e d (end_drive e Ended_by_command Ok_canceled n1)
                   else refuse_command d Manual_first n1)
             else drain_other p e d n1)"

text \<open>Delivery of a frame that was received on the present connection.\<close>

definition deliver :: "node_params \<Rightarrow> node_env \<Rightarrow> mail option \<Rightarrow> robot_node \<Rightarrow> robot_node" where
  "deliver p e m n =
     (case (m, nd_teleop n) of
        (Some (d, received_at, generation), Some t) \<Rightarrow>
          if generation \<noteq> nd_generation n then n
          else let raised = snd (frame (np_contract p) (guarded (node_view e n) (ne_session e) t) (VDict d)
                                   (teleop_context n) received_at (rt_session t)) = Overflow_raised
               in n\<lparr>nd_teleop := Some (teleop_frame (np_contract p) (node_view e n) (ne_session e) (VDict d)
                                         (teleop_context n) received_at t),
                    nd_crashed := raised\<rparr>
      | _ \<Rightarrow> n)"

definition drain_release :: "node_params \<Rightarrow> node_env \<Rightarrow> robot_node \<Rightarrow> robot_node" where
  "drain_release p e n =
     (case nd_phase n of
        Draining release sample \<Rightarrow> deliver p e release (n\<lparr>nd_phase := Delivering sample\<rparr>)
      | _ \<Rightarrow> n)"

definition drain_sample :: "node_params \<Rightarrow> node_env \<Rightarrow> robot_node \<Rightarrow> robot_node" where
  "drain_sample p e n =
     (case nd_phase n of
        Delivering sample \<Rightarrow> deliver p e sample (n\<lparr>nd_phase := Resting\<rparr>)
      | _ \<Rightarrow> n)"

subsection \<open>Callbacks of the node\<close>

definition maybe_seed_dock_pose :: "node_params \<Rightarrow> node_env \<Rightarrow> node_base \<Rightarrow> robot_node \<Rightarrow> robot_node" where
  "maybe_seed_dock_pose p e b n =
     (case nd_commands n of None \<Rightarrow> n | Some x \<Rightarrow>
      let now = ros_seconds (ne_clocks e)
      in if \<not> np_auto_dock_pose p then n
         else if bb_charge_state (nb_payload b) \<notin> set bridge_CHARGING_STATES then n
         else if localization_is_usable (np_config p) (ne_clocks e) (nd_sensors n) then n
         else if now - nd_last_seed n < np_dock_pose_retry_s p then n
         else n\<lparr>nd_last_seed := now, nd_commands := Some (snd (initialize_dock_pose (ne_ros e) (np_dock_id p) x))\<rparr>)"

definition node_base_state :: "node_params \<Rightarrow> node_env \<Rightarrow> node_base_msg \<Rightarrow> robot_node \<Rightarrow> robot_node" where
  "node_base_state p e m n =
     (case on_base_state (ne_clocks e) m (nd_sensors n) of (b, s) \<Rightarrow>
        maybe_seed_dock_pose p e b
          (n\<lparr>nd_commands := map_option (update_navigation_context b) (nd_commands n), nd_sensors := s\<rparr>))"

text \<open>The capabilities to announce, those of the tuning adapter last.\<close>

definition refresh_capabilities :: "node_env \<Rightarrow> string list \<Rightarrow> robot_node \<Rightarrow> string list \<times> robot_node" where
  "refresh_capabilities e tuning n =
     (case nd_commands n of
        None \<Rightarrow> (tuning, n)
      | Some x \<Rightarrow>
          (available_capabilities (ne_ros e)
             @ (if nd_teleop n \<noteq> None then [''web_teleop_v1''] else [])
             @ (case nd_reset n of None \<Rightarrow> [] | Some r \<Rightarrow> if rs_available r then [''software_reset''] else [])
             @ tuning,
           n\<lparr>nd_commands := Some (check_undock_health (ne_ros e) x)\<rparr>))"

definition node_tick :: "node_params \<Rightarrow> rat \<Rightarrow> idle_reply \<Rightarrow> bool \<Rightarrow> node_env \<Rightarrow> node_env \<Rightarrow> robot_node \<Rightarrow> robot_node" where
  "node_tick p now reply ready e e' n =
     with_teleop (teleop_tick (np_contract p) now reply ready (node_view e n, ne_session e, teleop_context n)
                    (node_view e' n, ne_session e', teleop_context n)) n"

subsection \<open>Steps and runs\<close>

text \<open>The frame the executor handles when the head of the queue is drained.\<close>

definition executor_frames :: "node_params \<Rightarrow> robot_node \<Rightarrow> robot_frame list" where
  "executor_frames p n =
     (case nd_queue n of [] \<Rightarrow> [] | q # rest \<Rightarrow>
        let d = qd_data q
        in if is_manual d \<or> drive_open n \<and> \<not> ends_manual d \<or> nd_commands n = None
              \<or> get d ''command'' = VStr ''software_reset''
              \<or> (case nd_reset n of None \<Rightarrow> False | Some r \<Rightarrow> commands_blocked r) \<and> get d ''command'' \<noteq> VStr ''stop''
           then [] else [frame_of (np_str p) d])"

fun glue_op :: "'c manual_op \<Rightarrow> bool" where
  "glue_op (Op_joystick e data) = True"
| "glue_op (Op_hold e data) = True"
| "glue_op (Op_action e name statuses) = True"
| "glue_op (Op_buffer e ros_now topic publisher m) = ((topic, publisher) \<in> set BUFFERS)"
| "glue_op _ = False"

text \<open>What the worker thread of the reset client does.\<close>

inductive reset_worker :: "reset_client \<Rightarrow> reset_client \<Rightarrow> bool" where
  rw_take: "reset_worker r (reset_take r)"
| rw_submitted: "rs_in_hand r = Some cid \<Longrightarrow> reset_worker r (reset_submitted link cid reply r)"
| rw_polled: "reset_worker r (reset_polled link reply r)"

text \<open>
  A step with the frames it hands to the executor. The ROS executor runs one callback at a time; the
  relation allows more.
\<close>

inductive node_step :: "node_params \<Rightarrow> robot_node \<Rightarrow> robot_frame list \<Rightarrow> robot_node \<Rightarrow> bool"
  for p :: node_params where
  ns_command: "enqueue_command now data n = Some n' \<Longrightarrow> node_step p n [] n'"
| ns_teleop: "node_step p n [] (enqueue_teleop now age data n)"
| ns_lost: "node_step p n [] (teleop_disconnected n)"
| ns_link: "node_step p n [] (n\<lparr>nd_connected := c, nd_generation := g\<rparr>)"
| ns_begin: "nd_phase n = Resting \<Longrightarrow> node_step p n [] (drain_begin e n)"
| ns_drain: "nd_phase n = Draining r s \<Longrightarrow> node_step p n (executor_frames p n) (drain_command p e n)"
| ns_release: "nd_phase n = Draining r s \<Longrightarrow> nd_queue n = [] \<Longrightarrow> node_step p n [] (drain_release p e n)"
| ns_sample: "nd_phase n = Delivering s \<Longrightarrow> node_step p n [] (drain_sample p e n)"
| ns_sensor: "(\<And>k m. op \<noteq> Got_base k m) \<Longrightarrow>
    node_step p n [] (n\<lparr>nd_sensors := sensor_step (np_config p) op (nd_sensors n)\<rparr>)"
| ns_base: "node_step p n [] (node_base_state p e m n)"
| ns_glue: "glue_op op \<Longrightarrow> node_step p n [] (with_teleop (manual_step (np_contract p) op) n)"
| ns_tick: "node_step p n [] (node_tick p now reply ready e e' n)"
| ns_executor: "nd_commands n = Some x \<Longrightarrow> internal_step x x' \<Longrightarrow> node_step p n [] (n\<lparr>nd_commands := Some x'\<rparr>)"
| ns_reset: "nd_reset n = Some r \<Longrightarrow> reset_worker r r' \<Longrightarrow> node_step p n [] (n\<lparr>nd_reset := Some r'\<rparr>)"
| ns_capabilities: "node_step p n [] (snd (refresh_capabilities e tuning n))"

inductive node_run :: "node_params \<Rightarrow> robot_frame list \<Rightarrow> robot_node \<Rightarrow> bool" for p :: node_params where
  nr_new: "node_run p [] (node_new (sensors_new pose_i scan_i path_i motion_i settle) commands teleop reset_socket)"
| nr_step: "node_run p fs n \<Longrightarrow> alive n \<Longrightarrow> node_step p n gs n' \<Longrightarrow> node_run p (fs @ gs) n'"

end
