(* ===== verification/Node_Run.thy ===== *)
theory Node_Run
  imports Robot_Node
begin

text \<open>
  What holds along every run of the robot's node: manual drive and the other commands exclude each
  other, a stop is served whatever is pending, and motion follows only from a frame of the present
  connection.
\<close>

subsection \<open>An idle executor stays idle\<close>

text \<open>Outside \<open>handle\<close> nothing but the two handlers of their own touches the map and LiDAR slots.\<close>

lemma slots_basic [simp]:
  "ex_map (say os s) = ex_map s" "ex_lidar_pending (say os s) = ex_lidar_pending s"
  "ex_map (await k s) = ex_map s" "ex_lidar_pending (await k s) = ex_lidar_pending s"
  "ex_map (refuse cid w s) = ex_map s" "ex_lidar_pending (refuse cid w s) = ex_lidar_pending s"
  "ex_map (snd (cancel_goal r h s)) = ex_map s" "ex_lidar_pending (snd (cancel_goal r h s)) = ex_lidar_pending s"
  "ex_map (fired k s) = ex_map s" "ex_lidar_pending (fired k s) = ex_lidar_pending s"
  by (simp_all add: say_def await_def refuse_def cancel_goal_def fired_def)

lemma slots_clear [simp]:
  "ex_map (clear_path s) = ex_map s" "ex_lidar_pending (clear_path s) = ex_lidar_pending s"
  "ex_map (clear_pending cid s) = ex_map s" "ex_lidar_pending (clear_pending cid s) = ex_lidar_pending s"
  "ex_map (mark_pending_cancel cid s) = ex_map s" "ex_lidar_pending (mark_pending_cancel cid s) = ex_lidar_pending s"
  "ex_map (snd (claim_stop cid s)) = ex_map s" "ex_lidar_pending (snd (claim_stop cid s)) = ex_lidar_pending s"
  by (simp_all add: clear_path_def clear_pending_def mark_pending_cancel_def claim_stop_def claim_undock_stop_def
      split: option.split prod.split)

lemma claim_slots: "claim_stop cid s = (b, t) \<Longrightarrow> ex_map t = ex_map s \<and> ex_lidar_pending t = ex_lidar_pending s"
  by (auto simp: claim_stop_def claim_undock_stop_def split: option.splits if_splits)

lemma slots_fail [simp]:
  "ex_map (fail_stop cid w s) = ex_map s" "ex_lidar_pending (fail_stop cid w s) = ex_lidar_pending s"
  "ex_map (on_navigation_cancel_response uid cr s) = ex_map s"
  "ex_lidar_pending (on_navigation_cancel_response uid cr s) = ex_lidar_pending s"
  by (auto simp: fail_stop_def on_navigation_cancel_response_def dest: claim_slots split: prod.split bool.split option.split)

lemma slots_fails [simp]:
  "ex_map (foldl (\<lambda>v c. fail_stop c w v) s cs) = ex_map s"
  "ex_lidar_pending (foldl (\<lambda>v c. fail_stop c w v) s cs) = ex_lidar_pending s"
  by (induction cs arbitrary: s) simp_all

lemma slots_cancel [simp]:
  "ex_map (cancel_undock r u s) = ex_map s" "ex_lidar_pending (cancel_undock r u s) = ex_lidar_pending s"
  "ex_map (cancel_active r cid s) = ex_map s" "ex_lidar_pending (cancel_active r cid s) = ex_lidar_pending s"
  by (simp_all add: cancel_undock_def cancel_active_def cancel_goal_def Let_def split: option.split)

lemma slots_navigation [simp]:
  "ex_map (cancel_navigation r cid s) = ex_map s" "ex_lidar_pending (cancel_navigation r cid s) = ex_lidar_pending s"
  "ex_map (install_goal cid h s) = ex_map s" "ex_lidar_pending (install_goal cid h s) = ex_lidar_pending s"
  by (simp_all add: cancel_navigation_def install_goal_def Let_def split: option.split)

lemma slots_undock [simp]:
  "ex_map (fail_undock r s) = ex_map s" "ex_lidar_pending (fail_undock r s) = ex_lidar_pending s"
  by (simp_all add: fail_undock_def split: option.split)

lemma slots_path [simp]:
  "ex_map (ask_path r s) = ex_map s" "ex_lidar_pending (ask_path r s) = ex_lidar_pending s"
  "ex_map (snd (navigation_path r gid m s)) = ex_map s"
  "ex_lidar_pending (snd (navigation_path r gid m s)) = ex_lidar_pending s"
  by (auto simp: ask_path_def navigation_path_def Let_def split: option.split)

definition keeps_slots :: "executor \<Rightarrow> executor \<Rightarrow> bool" where
  "keeps_slots s t \<longleftrightarrow> (ex_map s = None \<longrightarrow> ex_map t = None) \<and> (ex_lidar_pending s = None \<longrightarrow> ex_lidar_pending t = None)"

lemma keeps_goal: "keeps_slots s (on_goal_response r cid g c n h s)"
  by (auto simp: keeps_slots_def on_goal_response_def cancel_then_def cancel_goal_def Let_def split: option.split)

lemma keeps_undock_response: "keeps_slots s (on_undock_response r cid g h s)"
  by (auto simp: keeps_slots_def on_undock_response_def cancel_then_def cancel_goal_def Let_def
      split: option.split list.split)

lemma keeps_map_response: "keeps_slots s (map_response r uid h s)"
  by (auto simp: keeps_slots_def map_response_def cancel_goal_def Let_def split: option.split)

lemma keeps_path: "keeps_slots s (on_navigation_path r f uid pr s)"
proof -
  have "keeps_slots s t" if "navigation_path r gid m s = (x, t)" for x t gid m
  proof -
    have "t = snd (navigation_path r gid m s)" using that by simp
    then show ?thesis by (simp add: keeps_slots_def)
  qed
  then show ?thesis
    by (auto simp: on_navigation_path_def keeps_slots_def split: option.split prod.split)
qed

lemma internal_slots:
  assumes "internal_step s s'" shows "keeps_slots s s'"
  using assms
proof (cases rule: internal_step.cases)
  case (is_nav_goal cid g c n r h)
  then show ?thesis using keeps_goal [of "fired (On_nav_goal cid g c n) s" r cid g c n h] by (simp add: keeps_slots_def)
next
  case (is_undock_goal cid g r h)
  then show ?thesis using keeps_undock_response [of "fired (On_undock_goal cid g) s" r cid g h] by (simp add: keeps_slots_def)
next
  case (is_map_goal uid r h)
  then show ?thesis using keeps_map_response [of "fired (On_map_goal uid) s" r uid h] by (simp add: keeps_slots_def)
next
  case (is_path f uid r pr)
  then show ?thesis using keeps_path [of "fired (On_path f uid) s" r f uid pr] by (simp add: keeps_slots_def)
next
  case (is_stop_cancel cid cr)
  then show ?thesis
    by (auto simp: keeps_slots_def on_cancel_response_def dest!: claim_slots split: option.split verdict.split prod.split bool.split)
qed (auto simp: keeps_slots_def on_nav_result_def on_undock_result_def on_dock_service_result_def on_lidar_result_def
      map_response_def map_result_def on_feedback_def on_undock_feedback_def map_feedback_def check_undock_health_def
      check_map_connection_def poll_navigation_path_def update_navigation_context_def initialize_dock_pose_def Let_def
      split: option.split prod.split)

definition idle :: "executor \<Rightarrow> bool" where
  "idle x \<longleftrightarrow> list_all Not (command_slots (Some x))"

lemma idle_fields:
  "idle x \<longleftrightarrow> ex_active x = None \<and> ex_nav_pending x = None \<and> ex_map x = None \<and> ex_undock x = None
     \<and> ex_lidar_pending x = None"
  by (cases "ex_nav_pending x") (simp_all add: idle_def command_slots_def)

lemma idle_settles:
  assumes "settles s t" "keeps_slots s t" "idle s" shows "idle t"
proof -
  have "ex_active t = None" "ex_undock t = None" "ex_nav_pending t = None"
    using assms(1,3) by (auto simp: settles_def idle_fields)
  then show ?thesis using assms(2,3) by (simp add: idle_fields keeps_slots_def)
qed

text \<open>An accepted goal is installed only while it is pending, so an idle executor declines or cancels it.\<close>

lemma idle_internal:
  assumes step: "internal_step s s'" and inv: "motion_inv s" and idle: "idle s" shows "idle s'"
  using step
proof (cases rule: internal_cases)
  case quiet
  then show ?thesis using internal_slots [OF step] idle by (rule idle_settles)
next
  case (goal cid g c n r h)
  let ?s = "fired (On_nav_goal cid g c n) s"
  have fired: "idle ?s" using idle by (simp add: idle_fields fired_def)
  have slots: "keeps_slots ?s (on_goal_response r cid g c n h ?s)" by (rule keeps_goal)
  have late: "n \<noteq> ex_nav_generation s" using inv goal(1) idle by (auto simp: motion_inv_def idle_fields)
  show ?thesis unfolding goal(2)
  proof (cases rule: goal_response_cases [of ?s r cid g c n h])
    case quiet
    then show "idle (on_goal_response r cid g c n h ?s)" using slots fired by (rule idle_settles)
  next
    case declined
    then show "idle (on_goal_response r cid g c n h ?s)"
      using fired by (auto simp: idle_fields refuse_def say_def clear_pending_def)
  next
    case (installed h')
    then show "idle (on_goal_response r cid g c n h ?s)" using late by (simp add: fired_def)
  qed
qed

subsection \<open>The executor inside the node\<close>

lemma drain_other_fields [simp]:
  "nd_teleop (drain_other p e d n) = nd_teleop n" "nd_queue (drain_other p e d n) = nd_queue n"
  "nd_sensors (drain_other p e d n) = nd_sensors n"
  by (auto simp: drain_other_def refuse_command_def split: option.split)

lemma drain_manual_commands [simp]: "nd_commands (drain_manual p e q n) = nd_commands n"
  by (simp add: drain_manual_def refuse_command_def with_teleop_def)

text \<open>Draining a command hands the executor exactly the frames \<open>executor_frames\<close> names.\<close>

lemma drain_executor:
  "nd_commands (drain_command p e n) =
     map_option (\<lambda>x. foldl (\<lambda>y f. handle (ne_ros e) (context_of p e n) f y) x (executor_frames p n)) (nd_commands n)"
proof (cases "nd_queue n")
  case Nil
  then show ?thesis by (simp add: drain_command_def executor_frames_def option.map_ident)
next
  case (Cons q rest)
  have other: "nd_commands (drain_other p e d m) = (case nd_commands m of None \<Rightarrow> None | Some x \<Rightarrow>
      if get d ''command'' = VStr ''software_reset''
         \<or> (case nd_reset m of None \<Rightarrow> False | Some r \<Rightarrow> commands_blocked r) \<and> get d ''command'' \<noteq> VStr ''stop''
      then Some x else Some (handle (ne_ros e) (context_of p e m) (frame_of (np_str p) d) x))" for d m
    by (auto simp: drain_other_def refuse_command_def split: option.split)
  show ?thesis
    unfolding drain_command_def executor_frames_def Cons
    by (cases "nd_commands n") (auto simp: Let_def other end_drive_def drive_open_def with_teleop_def refuse_command_def context_of_def)
qed

subsection \<open>Who opens manual drive\<close>

lemma safety_slots: "safety (teleop_state v t) = None \<Longrightarrow> list_all Not (rv_command_slots v)"
  by (auto simp: safety_def teleop_state_def owner_reason_def list_ex_iff list_all_iff split: if_splits option.splits)

lemma handle_opens:
  assumes "manual_active (teleop_handle c v e data ctx received t)"
  shows "manual_active t \<or> list_all Not (rv_command_slots v)"
proof (cases "manual_active t")
  case False
  have opened: "list_all Not (rv_command_slots v)"
    if "\<not> manual_active u" "manual_active (start_manual c v e data ctx received u)" for u :: "'a ros_teleop"
    using start_deferred [OF that(1), of c "guarded v e u" "guarded v e u" data ctx received] that(2)
    by (auto simp: start_manual_def Let_def guarded_def intro: safety_slots)
  show ?thesis
    using assms False opened
    by (fastforce simp: teleop_handle_def teleop_start_def teleop_stop_def Let_def split: if_splits option.splits)
qed simp

lemma glue_keeps: "glue_op op \<Longrightarrow> manual_active (manual_step c op t) \<Longrightarrow> manual_active t"
  by (cases op) (auto simp: on_joystick_def on_tuning_hold_def on_action_def on_buffer_def observe_def Let_def split: if_splits)

lemma frame_keeps: "manual_active (teleop_frame c v e data ctx received t) \<Longrightarrow> manual_active t"
  using stays_frame [of "rt_session t" c "guarded v e t" data ctx received] by (simp add: teleop_frame_def stays_or_ends_def)

lemma deliver_keeps:
  "drive_open (deliver p e m n) \<Longrightarrow> drive_open n" "nd_commands (deliver p e m n) = nd_commands n"
  by (auto simp: deliver_def drive_open_def Let_def dest: frame_keeps split: option.splits if_splits)

lemma end_drive_closes [simp]: "\<not> drive_open (end_drive e reason oc n)"
  by (simp add: drive_open_def end_drive_def with_teleop_def option.case_eq_if option.map_sel)

lemma drive_open_fields [simp]:
  "drive_open (refuse_command d w n) = drive_open n" "drive_open (drain_other p e d n) = drive_open n"
  by (simp_all add: drive_open_def refuse_command_def)

lemma drain_opens:
  assumes "drive_open (drain_command p e n)"
  shows "executor_frames p n = [] \<and> (drive_open n \<or> (\<forall>x. nd_commands n = Some x \<longrightarrow> idle x))"
proof (cases "nd_queue n")
  case Nil
  then show ?thesis using assms by (simp add: drain_command_def executor_frames_def)
next
  case (Cons q rest)
  let ?n = "n\<lparr>nd_queue := rest\<rparr>"
  have same: "drive_open ?n = drive_open n" by (simp add: drive_open_def)
  show ?thesis
  proof (cases "is_manual (qd_data q)")
    case True
    then have "drive_open (drain_manual p e q ?n)" using assms Cons by (simp add: drain_command_def Let_def)
    then have "drive_open n \<or> list_all Not (command_slots (nd_commands n))"
      by (auto simp: drain_manual_def drive_open_def with_teleop_def node_view_def Let_def
          refuse_command_def dest!: handle_opens split: option.splits if_splits)
    then show ?thesis using True Cons by (auto simp: executor_frames_def idle_def)
  next
    case False
    then have "drive_open n \<and> \<not> ends_manual (qd_data q)"
      using assms Cons same by (auto simp: drain_command_def Let_def split: if_splits)
    then show ?thesis using False Cons by (simp add: executor_frames_def Let_def)
  qed
qed

subsection \<open>Runs of the node\<close>

lemma context_raises: "Raised \<in> set (ex_out (update_navigation_context b s)) \<longleftrightarrow> Raised \<in> set (ex_out s)"
  by (auto simp: update_navigation_context_def clear_path_def say_def Let_def split: option.split)

lemma seeding:
  "nd_teleop (maybe_seed_dock_pose p e b n) = nd_teleop n"
  "nd_commands (maybe_seed_dock_pose p e b n) = nd_commands n
   \<or> nd_commands (maybe_seed_dock_pose p e b n) =
       map_option (\<lambda>x. snd (initialize_dock_pose (ne_ros e) (np_dock_id p) x)) (nd_commands n)"
  by (auto simp: maybe_seed_dock_pose_def Let_def split: option.split)

lemma executor_frames_cases: "executor_frames p n = [] \<or> (\<exists>f. executor_frames p n = [f])"
  by (simp add: executor_frames_def Let_def split: list.split)

text \<open>How a step of the node moves its executor: it hands it the frame, or makes internal steps.\<close>

lemma node_executor:
  assumes "node_step p n gs n'" "nd_commands n = Some x"
  obtains (quiet) "gs = []" "nd_commands n' = Some x"
  | (handled) e f where "gs = [f]" "nd_commands n' = Some (handle (ne_ros e) (context_of p e n) f x)"
  | (internal) x' where "gs = []" "internal_step x x'" "nd_commands n' = Some x'"
  | (seeded) b r d where "gs = []"
      "nd_commands n' = Some (snd (initialize_dock_pose r d (update_navigation_context b x)))"
  using assms
proof (cases rule: node_step.cases)
  case (ns_drain r s e)
  then show ?thesis using drain_executor [of p e n] executor_frames_cases [of p n] assms(2) quiet handled by auto
next
  case (ns_base e m)
  obtain b s where bs: "on_base_state (ne_clocks e) m (nd_sensors n) = (b, s)" by (cases "on_base_state (ne_clocks e) m (nd_sensors n)")
  let ?n = "n\<lparr>nd_commands := map_option (update_navigation_context b) (nd_commands n), nd_sensors := s\<rparr>"
  have n': "n' = maybe_seed_dock_pose p e b ?n" using ns_base bs by (simp add: node_base_state_def)
  have commands: "nd_commands ?n = Some (update_navigation_context b x)" using assms(2) by simp
  have "internal_step x (update_navigation_context b x)" by (rule is_context)
  then show ?thesis
    using seeding(2) [of p e b ?n] internal seeded ns_base(1) unfolding n' commands by auto
next
  case (ns_executor y x')
  then show ?thesis using internal assms(2) by simp
next
  case (ns_capabilities e tuning)
  then show ?thesis using internal [OF ns_capabilities(1) is_health [of x "ne_ros e"]] assms(2)
    by (simp add: refresh_capabilities_def)
next
  case (ns_command now data)
  then show ?thesis using quiet assms(2) by (auto simp: enqueue_command_def split: pyval.splits if_splits)
next
  case (ns_teleop now age data)
  then show ?thesis using quiet assms(2)
    by (auto simp: enqueue_teleop_def Let_def split: pyval.splits if_splits option.splits)
qed (use quiet assms(2) in \<open>auto simp: teleop_disconnected_def drain_begin_def Let_def end_drive_def with_teleop_def
      drain_release_def drain_sample_def deliver_keeps node_tick_def split: drain_phase.split\<close>)

lemma node_no_executor: "node_step p n gs n' \<Longrightarrow> nd_commands n = None \<Longrightarrow> nd_commands n' = None"
  by (erule node_step.cases)
    (auto simp: enqueue_command_def enqueue_teleop_def teleop_disconnected_def drain_begin_def end_drive_def with_teleop_def
      drain_executor drain_release_def drain_sample_def deliver_keeps node_base_state_def maybe_seed_dock_pose_def
      node_tick_def refresh_capabilities_def Let_def split: pyval.splits if_splits option.splits drain_phase.split prod.split)

lemma drive_open_with:
  "drive_open (with_teleop f n) \<longleftrightarrow> (\<exists>t. nd_teleop n = Some t \<and> manual_active (f t))"
  by (auto simp: drive_open_def with_teleop_def split: option.split)

lemma drive_open_Some: "nd_teleop n = Some t \<Longrightarrow> drive_open n \<longleftrightarrow> manual_active t"
  by (simp add: drive_open_def)

lemma node_opens:
  assumes "node_step p n gs n'" "drive_open n'"
  shows "gs = [] \<and> (drive_open n \<or> (\<forall>x. nd_commands n = Some x \<longrightarrow> idle x))"
  using assms(1)
proof (cases rule: node_step.cases)
  case (ns_drain r s e)
  then show ?thesis using drain_opens assms(2) by simp
next
  case (ns_release r s e)
  then show ?thesis using assms(2) deliver_keeps(1) [of p e r "n\<lparr>nd_phase := Delivering s\<rparr>"]
    by (simp add: drain_release_def drive_open_def)
next
  case (ns_sample s e)
  then show ?thesis using assms(2) deliver_keeps(1) [of p e s "n\<lparr>nd_phase := Resting\<rparr>"]
    by (simp add: drain_sample_def drive_open_def)
next
  case (ns_glue op)
  then show ?thesis using assms(2) glue_keeps [OF ns_glue(3)] by (auto simp: drive_open_with drive_open_Some)
next
  case (ns_tick now reply ready e e')
  then show ?thesis using assms(2) by (auto simp: node_tick_def drive_open_with drive_open_Some dest!: tick_keeps)
next
  case (ns_begin e)
  then have "\<not> nd_invalidated n" using assms(2) by (auto simp: drain_begin_def Let_def)
  then show ?thesis using ns_begin assms(2) by (simp add: drain_begin_def Let_def drive_open_def)
next
  case (ns_base e m)
  then show ?thesis using assms(2) by (simp add: node_base_state_def drive_open_def seeding case_prod_beta)
next
  case (ns_command now data)
  then show ?thesis using assms(2) by (auto simp: enqueue_command_def drive_open_def split: pyval.splits if_splits)
next
  case (ns_teleop now age data)
  then show ?thesis using assms(2)
    by (auto simp: enqueue_teleop_def Let_def drive_open_def split: pyval.splits if_splits option.splits)
qed (use assms(2) in \<open>simp_all add: drive_open_def teleop_disconnected_def refresh_capabilities_def split: option.splits\<close>)

text \<open>The executor of a node is always one its own model reaches, and idle under an open manual session.\<close>

lemma run_executor:
  "node_run p fs n \<Longrightarrow> nd_commands n = Some x \<Longrightarrow> bridge_reachable fs x"
proof (induction arbitrary: x rule: node_run.induct)
  case (nr_new pose_i scan_i path_i motion_i settle commands teleop reset_socket)
  then show ?case by (auto simp: node_new_def intro: br_init split: if_splits)
next
  case (nr_step fs n gs n')
  obtain y where y: "nd_commands n = Some y"
    using nr_step.prems node_no_executor [OF nr_step.hyps(3)] by (cases "nd_commands n") auto
  have reach: "bridge_reachable fs y" and alive: "Raised \<notin> set (ex_out y)"
    using nr_step.IH [OF y] nr_step.hyps(2) y by (auto simp: alive_def)
  from nr_step.hyps(3) y show ?case
  proof (cases rule: node_executor)
    case quiet
    then show ?thesis using reach nr_step.prems by simp
  next
    case (handled e f)
    then show ?thesis using br_frame [OF reach alive] nr_step.prems by simp
  next
    case (internal x')
    then show ?thesis using br_internal [OF reach alive] nr_step.prems by simp
  next
    case (seeded b r d)
    have "bridge_reachable fs (update_navigation_context b y)" by (rule br_internal [OF reach alive is_context])
    moreover have "Raised \<notin> set (ex_out (update_navigation_context b y))" using alive by (simp add: context_raises)
    ultimately show ?thesis using br_internal [OF _ _ is_dock_pose] seeded nr_step.prems by simp
  qed
qed

lemma run_idle:
  "node_run p fs n \<Longrightarrow> distinct (request_ids fs) \<Longrightarrow> drive_open n \<Longrightarrow> nd_commands n = Some x \<Longrightarrow> idle x"
proof (induction arbitrary: x rule: node_run.induct)
  case (nr_new pose_i scan_i path_i motion_i settle commands teleop reset_socket)
  then show ?case by (auto simp: node_new_def idle_fields executor_new_def split: if_splits)
next
  case (nr_step fs n gs n')
  obtain y where y: "nd_commands n = Some y"
    using nr_step.prems(3) node_no_executor [OF nr_step.hyps(3)] by (cases "nd_commands n") auto
  have opened: "gs = []" "drive_open n \<or> (\<forall>x. nd_commands n = Some x \<longrightarrow> idle x)"
    using node_opens [OF nr_step.hyps(3) nr_step.prems(2)] by auto
  have ids: "distinct (request_ids fs)" using nr_step.prems(1) opened(1) by simp
  have idle: "idle y" using opened(2) nr_step.IH [OF ids _ y] y by blast
  have inv: "motion_inv y" by (rule reachable_motion [OF run_executor [OF nr_step.hyps(1) y] ids])
  from nr_step.hyps(3) y show ?case
  proof (cases rule: node_executor)
    case quiet
    then show ?thesis using idle nr_step.prems(3) by simp
  next
    case (handled e f)
    then show ?thesis using opened(1) by simp
  next
    case (internal x')
    then show ?thesis using idle_internal inv idle nr_step.prems(3) by simp
  next
    case (seeded b r d)
    have "idle (update_navigation_context b y)" by (rule idle_internal [OF is_context inv idle])
    moreover have "motion_inv (update_navigation_context b y)" by (rule motion_settles [OF inv settles_context])
    ultimately show ?thesis using idle_internal [OF is_dock_pose] seeded nr_step.prems(3) by simp
  qed
qed

subsection \<open>Properties\<close>

text \<open>
  C9. On the robot manual drive and every other command exclude each other. In every run of the node,
  with distinct command ids, whatever arrives between the commands of a drain and whatever the ROS
  callbacks answer: while a manual session is open the executor has no active or pending navigation,
  no undock, no map localization and no LiDAR power cycle, and none comes into being.
\<close>

theorem manual_drive_excludes_commands:
  assumes "node_run p fs n" "distinct (request_ids fs)" "drive_open n" "nd_commands n = Some x"
  shows "ex_active x = None \<and> ex_nav_pending x = None \<and> ex_undock x = None \<and> ex_map x = None
    \<and> ex_lidar_pending x = None"
  using run_idle [OF assms] by (simp add: idle_fields)

text \<open>Draining the commands in front of another leaves it in the queue and the executor in place.\<close>

lemma drain_queue: "nd_queue (drain_command p e n) = tl (nd_queue n)"
  by (cases "nd_queue n")
    (auto simp: drain_command_def drain_manual_def end_drive_def with_teleop_def refuse_command_def Let_def)

lemma drains_queue: "nd_queue (foldl (\<lambda>m e. drain_command p e m) n es) = drop (length es) (nd_queue n)"
  by (induction es arbitrary: n) (simp_all add: drain_queue drop_Suc)

lemma drains_executor:
  "nd_commands n \<noteq> None \<Longrightarrow> nd_commands (foldl (\<lambda>m e. drain_command p e m) n es) \<noteq> None"
proof (induction es arbitrary: n)
  case (Cons e es)
  then have "nd_commands (drain_command p e n) \<noteq> None" by (simp add: drain_executor)
  then show ?case using Cons.IH by simp
qed simp

lemma drain_stop:
  assumes "nd_queue n = q # rest" "get (qd_data q) ''command'' = VStr ''stop''" "nd_commands n = Some x"
  shows "nd_commands (drain_command p e n) = Some (handle (ne_ros e) (context_of p e n) (frame_of (np_str p) (qd_data q)) x)
    \<and> \<not> drive_open (drain_command p e n) \<and> nd_refused (drain_command p e n) = nd_refused n
    \<and> nd_reset (drain_command p e n) = nd_reset n"
proof -
  have kinds: "\<not> is_manual (qd_data q)" "ends_manual (qd_data q)"
    using assms(2) by (simp_all add: is_manual_def ends_manual_def)
  then have frames: "executor_frames p n = [frame_of (np_str p) (qd_data q)]"
    using assms by (simp add: executor_frames_def Let_def)
  have other: "nd_refused (drain_other p e (qd_data q) m) = nd_refused m \<and> nd_reset (drain_other p e (qd_data q) m) = nd_reset m"
    if "nd_commands m = Some x" for m
    using assms(2) that by (simp add: drain_other_def)
  have "nd_refused (drain_command p e n) = nd_refused n \<and> nd_reset (drain_command p e n) = nd_reset n"
    using kinds other assms(1,3) by (auto simp: drain_command_def Let_def end_drive_def with_teleop_def)
  moreover have "\<not> drive_open (drain_command p e n)"
    using kinds assms(1) by (auto simp: drain_command_def Let_def)
  ultimately show ?thesis using drain_executor [of p e n] frames assms(3) by simp
qed


text \<open>Where a delivered frame comes from: the release or the sample this drain has taken.\<close>

definition in_hand :: "robot_node \<Rightarrow> mail \<Rightarrow> bool" where
  "in_hand n m \<longleftrightarrow> (\<exists>s. nd_phase n = Draining (Some m) s) \<and> nd_queue n = [] \<or> nd_phase n = Delivering (Some m)"

text \<open>Every step moves the manual session by one operation of its glue, or not at all.\<close>

lemma handle_operation:
  "teleop_handle c v e data ctx received t = t
   \<or> (\<exists>op. teleop_handle c v e data ctx received t = manual_step c op t \<and> (\<forall>w f d x r. op \<noteq> Op_frame w f d x r))"
proof (cases "dget data ''command'' = Some (VStr ''teleop_start'')")
  case True
  then have "teleop_handle c v e data ctx received t = manual_step c (Op_start v e data ctx received) t"
    by (simp add: teleop_handle_def)
  then show ?thesis by blast
next
  case False
  then have "teleop_handle c v e data ctx received t = manual_step c (Op_stop e data) t
      \<or> teleop_handle c v e data ctx received t = t"
    by (simp add: teleop_handle_def)
  then show ?thesis by blast
qed

lemma handle_motions:
  "motions (ss_out (rt_session (teleop_handle c v e data ctx received t))) = motions (ss_out (rt_session t))"
  using handle_operation [of c v e data ctx received t] step_motions by metis

lemma manual_end_motions: "motions (ss_out (rt_session (end_manual e reason oc t))) = motions (ss_out (rt_session t))"
  using step_motions [of "Op_end e reason oc" undefined t] by simp

text \<open>The motions a node has published so far.\<close>

definition moved :: "robot_node \<Rightarrow> (rat \<times> rat) list" where
  "moved n = (case nd_teleop n of None \<Rightarrow> [] | Some t \<Rightarrow> motions (ss_out (rt_session t)))"

lemma moved_same: "nd_teleop n' = nd_teleop n \<Longrightarrow> moved n' = moved n"
  by (simp add: moved_def)

lemma moved_with:
  assumes "\<And>t. motions (ss_out (rt_session (f t))) = motions (ss_out (rt_session t))"
  shows "moved (with_teleop f n) = moved n"
  using assms by (simp add: moved_def with_teleop_def split: option.split)

lemma moved_end [simp]: "moved (end_drive e reason oc n) = moved n"
  unfolding end_drive_def by (rule moved_with) (rule manual_end_motions)

lemma moved_drain: "moved (drain_command p e n) = moved n"
proof (cases "nd_queue n")
  case (Cons q rest)
  have "moved (drain_manual p e q m) = moved m" for m
    by (auto simp: drain_manual_def refuse_command_def moved_with handle_motions intro: moved_same)
  moreover have "moved (drain_other p e (qd_data q) m) = moved m" "moved (refuse_command d w m) = moved m" for m d w
    by (auto simp: refuse_command_def intro: moved_same)
  moreover have "moved (n\<lparr>nd_queue := rest\<rparr>) = moved n" by (rule moved_same) simp
  ultimately show ?thesis using Cons by (simp add: drain_command_def Let_def)
qed (simp add: drain_command_def)

lemma moved_glue:
  assumes "glue_op op" shows "moved (with_teleop (manual_step c op) n) = moved n"
proof (rule moved_with)
  show "motions (ss_out (rt_session (manual_step c op t))) = motions (ss_out (rt_session t))" for t :: "node_context ros_teleop"
    by (rule step_motions) (use assms in auto)
qed

lemma moved_tick: "moved (node_tick p now reply ready e e' n) = moved n"
  unfolding node_tick_def
proof (rule moved_with)
  show "motions (ss_out (rt_session (teleop_tick c now reply ready first second t))) = motions (ss_out (rt_session t))"
    for c first second and t :: "node_context ros_teleop"
    using step_motions [of "Op_tick now reply ready first second" c t] by simp
qed

text \<open>What a delivery may add: one motion, under every guard, for a frame of the present connection.\<close>

definition moves_by :: "node_params \<Rightarrow> node_env \<Rightarrow> mail \<Rightarrow> robot_node \<Rightarrow> robot_node \<Rightarrow> bool" where
  "moves_by p e m n n' \<longleftrightarrow> (\<exists>d received t t' l a. m = (d, received, nd_generation n)
     \<and> nd_teleop n = Some t \<and> nd_teleop n' = Some t' \<and> moved n' = moved n @ [(l, a)]
     \<and> motion_guard (np_contract p) (guarded (node_view e n) (ne_session e) t) (teleop_context n) received l a
         (rt_session t) (rt_session t')
     \<and> sole_owner (node_view e n) t)"

lemma deliver_moves: "moved (deliver p e m n) = moved n \<or> (\<exists>x. m = Some x \<and> moves_by p e x n (deliver p e m n))"
proof (cases "\<exists>d received t. m = Some (d, received, nd_generation n) \<and> nd_teleop n = Some t")
  case True
  then obtain d received t where m: "m = Some (d, received, nd_generation n)" "nd_teleop n = Some t" by blast
  let ?t = "teleop_frame (np_contract p) (node_view e n) (ne_session e) (VDict d) (teleop_context n) received t"
  have t': "nd_teleop (deliver p e m n) = Some ?t" using m by (simp add: deliver_def Let_def)
  have owner: "sole_owner (node_view e n) t"
    if "motion_guard (np_contract p) (guarded (node_view e n) (ne_session e) t) (teleop_context n) received l a
          (rt_session t) s'" for l a s'
    by (rule safety_owners) (use that in \<open>simp_all add: motion_guard_def guarded_def\<close>)
  show ?thesis
    using frame_motions [of "np_contract p" "guarded (node_view e n) (ne_session e) t" "VDict d" "teleop_context n" received
        "rt_session t"] owner m t'
    unfolding moves_by_def moved_def by (auto simp: teleop_frame_def)
next
  case False
  then have "nd_teleop (deliver p e m n) = nd_teleop n" by (auto simp: deliver_def split: option.split)
  then show ?thesis using moved_same by blast
qed

lemma moves_phase: "moves_by p e m (n\<lparr>nd_phase := ph\<rparr>) n' \<longleftrightarrow> moves_by p e m n n'"
  by (simp add: moves_by_def moved_def node_view_def teleop_context_def)

lemma moved_phase [simp]: "moved (n\<lparr>nd_phase := ph\<rparr>) = moved n"
  by (rule moved_same) simp


subsection \<open>The mailboxes\<close>

text \<open>A full queue silently drops its oldest command, whatever it is: nothing is refused or handed on.\<close>

lemma full_queue_drops_oldest:
  assumes "length (nd_queue n) = QUEUE_MAXLEN" "enqueue_command now (VDict d) n = Some n'"
  shows "map qd_data (nd_queue n') = tl (map qd_data (nd_queue n)) @ [d] \<and> nd_refused n' = nd_refused n
    \<and> nd_commands n' = nd_commands n"
  using assms by (cases "nd_queue n") (auto simp: enqueue_command_def push_def QUEUE_MAXLEN_def split: if_splits)

text \<open>The mailbox of manual drive: a release replaces the sample, and the newer sample wins until then.\<close>

lemma release_wins:
  assumes "0 \<le> age" "age \<le> 3 / 10" "get d ''deadman'' = VBool False"
  shows "nd_release (enqueue_teleop now (Some age) (VDict d) n) = Some (d, now - age, nd_generation n)
    \<and> nd_sample (enqueue_teleop now (Some age) (VDict d) n) = None"
  using assms by (simp add: enqueue_teleop_def Let_def)

lemma released_takes_no_sample:
  assumes "nd_release n = Some (r, received, g)" "get r ''command_id'' = get d ''command_id''" "get d ''deadman'' \<noteq> VBool False"
  shows "enqueue_teleop now age (VDict d) n = n"
  using assms by (simp add: enqueue_teleop_def Let_def split: option.split)

lemma older_sample_ignored:
  assumes "nd_sample n = Some (s, received, g)" "get s ''command_id'' = get d ''command_id''"
    "get s ''seq'' = VInt i" "get d ''seq'' = VInt j" "j \<le> i" "get d ''deadman'' \<noteq> VBool False"
  shows "enqueue_teleop now age (VDict d) n = n"
  using assms by (simp add: enqueue_teleop_def newer_sample_def Let_def split: option.split)

subsection \<open>An executable run\<close>

text \<open>The steps as operations with their inputs; \<open>None\<close> where one is not possible.\<close>

datatype node_op = Do_command rat pyval | Do_teleop rat rat pyval | Do_lost | Do_link bool nat | Do_begin node_env
  | Do_drain node_env | Do_release node_env | Do_sample node_env | Do_sensor sensor_op | Do_base node_env node_base_msg
  | Do_glue "node_context manual_op" | Do_tick rat idle_reply node_env

fun node_do :: "node_params \<Rightarrow> node_op \<Rightarrow> robot_node \<Rightarrow> (robot_frame list \<times> robot_node) option" where
  "node_do p (Do_command now data) n = map_option (Pair []) (enqueue_command now data n)"
| "node_do p (Do_teleop now age data) n = Some ([], enqueue_teleop now (Some age) data n)"
| "node_do p Do_lost n = Some ([], teleop_disconnected n)"
| "node_do p (Do_link c g) n = Some ([], n\<lparr>nd_connected := c, nd_generation := g\<rparr>)"
| "node_do p (Do_begin e) n = (if nd_phase n = Resting then Some ([], drain_begin e n) else None)"
| "node_do p (Do_drain e) n =
     (case nd_phase n of Draining r s \<Rightarrow> Some (executor_frames p n, drain_command p e n) | _ \<Rightarrow> None)"
| "node_do p (Do_release e) n =
     (case nd_phase n of Draining r s \<Rightarrow> if nd_queue n = [] then Some ([], drain_release p e n) else None | _ \<Rightarrow> None)"
| "node_do p (Do_sample e) n = (case nd_phase n of Delivering s \<Rightarrow> Some ([], drain_sample p e n) | _ \<Rightarrow> None)"
| "node_do p (Do_sensor op) n =
     (case op of Got_base k m \<Rightarrow> None
      | _ \<Rightarrow> Some ([], n\<lparr>nd_sensors := sensor_step (np_config p) op (nd_sensors n)\<rparr>))"
| "node_do p (Do_base e m) n = Some ([], node_base_state p e m n)"
| "node_do p (Do_glue op) n = (if glue_op op then Some ([], with_teleop (manual_step (np_contract p) op) n) else None)"
| "node_do p (Do_tick now reply e) n = Some ([], node_tick p now reply True e e n)"

lemma node_do_step:
  assumes "node_do p op n = Some (gs, n')" shows "node_step p n gs n'"
proof (cases op)
  case (Do_sensor x)
  then have "\<And>k m. x \<noteq> Got_base k m" "gs = []" "n' = n\<lparr>nd_sensors := sensor_step (np_config p) x (nd_sensors n)\<rparr>"
    using assms by (auto split: sensor_op.splits)
  then show ?thesis by (simp add: ns_sensor)
qed (use assms in \<open>auto intro: node_step.intros split: drain_phase.splits if_splits\<close>)

fun node_after :: "node_params \<Rightarrow> node_op list \<Rightarrow> robot_frame list \<times> robot_node \<Rightarrow> (robot_frame list \<times> robot_node) option" where
  "node_after p [] s = Some s"
| "node_after p (op # ops) (fs, n) =
     (if alive n then case node_do p op n of None \<Rightarrow> None | Some (gs, n') \<Rightarrow> node_after p ops (fs @ gs, n') else None)"

lemma node_after_run:
  "node_run p fs n \<Longrightarrow> node_after p ops (fs, n) = Some (fs', n') \<Longrightarrow> node_run p fs' n'"
proof (induction ops arbitrary: fs n)
  case (Cons op ops)
  then obtain gs m where m: "alive n" "node_do p op n = Some (gs, m)" "node_after p ops (fs @ gs, m) = Some (fs', n')"
    by (auto split: if_splits option.splits)
  show ?case using Cons.IH [OF nr_step [OF Cons.prems(1) m(1) node_do_step [OF m(2)]] m(3)] .
qed simp

subsection \<open>Examples\<close>

definition example_params :: node_params where
  "example_params = \<lparr>np_config = example_config, np_contract = web_teleop_contract, np_auto_dock_pose = False,
     np_dock_pose_retry_s = 20, np_dock_id = ''main_charger'', np_str = (\<lambda>_. [])\<rparr>"

definition example_at :: "rat \<Rightarrow> node_env" where
  "example_at t = \<lparr>ne_clocks = example_clocks t, ne_graph = example_graph, ne_ros = example_ros, ne_session = calm (\<lambda>_. t)\<rparr>"

definition example_odom_at :: "rat \<Rightarrow> odom_reading" where
  "example_odom_at t = example_odom_reading\<lparr>or_msg := \<lparr>om_values = Some [Fin 0, Fin 0], om_stamp_ns = \<lfloor>t * 10 ^ 9\<rfloor>\<rparr>\<rparr>"

definition example_zero :: "rat \<Rightarrow> int \<Rightarrow> string \<times> string \<Rightarrow> node_op" where
  "example_zero now stamp b = (case b of (topic, publisher) \<Rightarrow>
     Do_glue (Op_buffer (calm (\<lambda>_. now)) stamp topic publisher
       \<lparr>bs_endpoints = example_graph topic, bs_stamp = Some stamp, bs_values = Some (replicate 6 (Fin 0))\<rparr>))"

definition example_readings :: "rat \<Rightarrow> node_op list" where
  "example_readings t = [Do_base (example_at t) example_node_msg, Do_sensor (Got_odom (example_clocks t) (example_odom_at t))]"

definition example_start_command :: pyval where
  "example_start_command = VDict [(''command'', VStr ''teleop_start''), (''command_id'', VStr example_id),
     (''operator_authorized'', VBool True)]"

text \<open>From start-up to an acknowledged manual session, and a stop that arrives then.\<close>

definition example_opening :: "node_op list" where
  "example_opening = [Do_link True 1] @ example_readings 10
     @ [Do_tick (99 / 10) (Idle_answer True) (example_at 10), Do_tick 10 (Idle_answer True) (example_at 10),
        Do_command 10 example_start_command, Do_begin (example_at 10), Do_drain (example_at 10),
        Do_release (example_at 10), Do_sample (example_at 10)]
     @ map (example_zero 10 1) BUFFERS
     @ example_readings (52 / 5) @ [Do_tick (52 / 5) (Idle_answer True) (example_at (52 / 5))]
     @ map (example_zero (53 / 5) 2) BUFFERS @ [Do_tick (53 / 5) (Idle_answer True) (example_at (53 / 5))]"

definition example_node :: "node_op list \<Rightarrow> (robot_frame list \<times> robot_node) option" where
  "example_node ops = node_after example_params ops
     ([], node_new (sensors_new (1 / 10) (1 / 5) (1 / 2) (1 / 10) 4) True True [])"

lemma example_node_run: "example_node ops = Some (fs, n) \<Longrightarrow> node_run example_params fs n"
  unfolding example_node_def by (rule node_after_run [OF nr_new])

definition example_open :: robot_node where "example_open = snd (the (example_node example_opening))"

lemma example_opening_ok:
  "case example_node example_opening of None \<Rightarrow> False | Some (fs, n) \<Rightarrow> fs = [] \<and> drive_open n \<and> nd_commands n \<noteq> None"
  by code_simp

lemma example_open_facts:
  "node_run example_params [] example_open" "drive_open example_open" "nd_commands example_open \<noteq> None"
proof -
  obtain fs n where n: "example_node example_opening = Some (fs, n)" "fs = []" "drive_open n" "nd_commands n \<noteq> None"
    using example_opening_ok by (auto split: option.splits)
  then have "example_open = n" by (simp add: example_open_def)
  then show "node_run example_params [] example_open" "drive_open example_open" "nd_commands example_open \<noteq> None"
    using n example_node_run [OF n(1)] by simp_all
qed

theorem manual_drive_excludes_commands_witness:
  "\<exists>x. nd_commands example_open = Some x \<and> drive_open example_open \<and> ex_active x = None \<and> ex_undock x = None"
proof -
  obtain x where x: "nd_commands example_open = Some x" using example_open_facts(3) by blast
  have "distinct (request_ids [])" by (simp add: request_ids_def)
  from manual_drive_excludes_commands [OF example_open_facts(1) this example_open_facts(2) x] show ?thesis
    using x example_open_facts(2) by blast
qed

text \<open>A destination and a stop arrive under manual drive.\<close>

definition example_waiting :: "queued list" where
  "example_waiting = [\<lparr>qd_data = [(''command'', VStr ''navigate_to_pose''), (''command_id'', VStr ''n'')], qd_stamp = None\<rparr>,
     \<lparr>qd_data = [(''command'', VStr ''stop''), (''command_id'', VStr ''s'')], qd_stamp = None\<rparr>]"


text \<open>A velocity frame is received, taken by a drain and delivered.\<close>

definition example_velocity_frame :: pyval where
  "example_velocity_frame = VDict [(''command_id'', VStr example_id), (''seq'', VInt 4), (''linear'', VFloat (Fin (1 / 5))),
     (''angular'', VInt 0), (''deadman'', VBool True)]"

definition example_taken :: "node_op list" where
  "example_taken = [Do_teleop (53 / 5) 0 example_velocity_frame, Do_begin (example_at (53 / 5)), Do_release (example_at (53 / 5))]"

lemma example_taken_ok:
  "case example_node (example_opening @ example_taken) of None \<Rightarrow> False
   | Some (fs, n) \<Rightarrow> (case nd_phase n of Delivering s \<Rightarrow> True | _ \<Rightarrow> False)
       \<and> moved (drain_sample example_params (example_at (53 / 5)) n) = moved n @ [(1 / 5, 0)]"
  by code_simp


end
