(* ===== verification/Login.thy ===== *)
theory Login
  imports Gateways Tuning_Run
begin

text \<open>
  Who is signed in (\<open>authentication/sessions.py\<close>, \<open>local.py\<close>, \<open>oidc.py\<close>, \<open>settings.py\<close>, the session
  check of \<open>main.py\<close>), and the HTTP surface of robot tuning on top of it (\<open>api/tuning.py\<close> with
  \<open>fresh_user\<close> of \<open>tuning/authz.py\<close>).

  A session cookie is URL-safe base64 of a JSON object, a dot and a keyed hash of the text. Base64 is
  modelled here as the library codes it; the keyed hash, \<open>json.loads\<close>, \<open>int\<close> of a text and the text of a
  float are the fields of \<open>login_lib\<close>. A raise that no handler catches is an answer of its own. Names in
  a session are strings: no other is ever issued.
\<close>

subsection \<open>Base64\<close>

definition B64 :: string where
  "B64 = ''ABCDEFGHIJKLMNOPQRSTUVWXYZabcdefghijklmnopqrstuvwxyz0123456789-_''"

definition b64_char :: "nat \<Rightarrow> char" where
  "b64_char n = B64 ! n"

fun b64encode :: "string \<Rightarrow> string" where
  "b64encode (a # b # c # s) =
     (let i = of_char a; j = of_char b; k = of_char c :: nat
      in [b64_char (i div 4), b64_char (i mod 4 * 16 + j div 16), b64_char (j mod 16 * 4 + k div 64),
          b64_char (k mod 64)] @ b64encode s)"
| "b64encode [a, b] =
     (let i = of_char a; j = of_char b :: nat
      in [b64_char (i div 4), b64_char (i mod 4 * 16 + j div 16), b64_char (j mod 16 * 4), CHR ''=''])"
| "b64encode [a] = (let i = of_char a :: nat in [b64_char (i div 4), b64_char (i mod 4 * 16), CHR ''='', CHR ''=''])"
| "b64encode [] = []"

text \<open>The value of a digit; the decoder takes both alphabets.\<close>

definition b64_value :: "char \<Rightarrow> nat option" where
  "b64_value c =
     (if c = CHR ''+'' then Some 62 else if c = CHR ''/'' then Some 63
      else map_option fst (find (\<lambda>p. snd p = c) (zip [0..<64] B64)))"

text \<open>
  The decoder, with the place in its group of four, the pads seen there and the bits left over. Other
  characters are skipped, enough pads end the text, and an incomplete group raises.
\<close>

fun b64_read :: "nat \<Rightarrow> nat \<Rightarrow> nat \<Rightarrow> string \<Rightarrow> string option" where
  "b64_read quad pads left [] = (if quad = 0 then Some [] else None)"
| "b64_read quad pads left (c # s) =
     (if c = CHR ''='' then
        (if 2 \<le> quad \<and> 4 \<le> quad + pads + 1 then Some []
         else b64_read quad (if 2 \<le> quad then pads + 1 else pads) left s)
      else case b64_value c of
        None \<Rightarrow> b64_read quad pads left s
      | Some v \<Rightarrow>
          if quad = 0 then b64_read 1 0 v s
          else if quad = 1 then map_option ((#) (char_of (left * 4 + v div 16))) (b64_read 2 0 (v mod 16) s)
          else if quad = 2 then map_option ((#) (char_of (left * 16 + v div 4))) (b64_read 3 0 (v mod 4) s)
          else map_option ((#) (char_of (left * 64 + v))) (b64_read 0 0 0 s))"

definition b64decode :: "string \<Rightarrow> string option" where
  "b64decode s = b64_read 0 0 0 s"

subsection \<open>Session cookies\<close>

record login_lib =
  ll_mac :: "string \<Rightarrow> string \<Rightarrow> string"
  ll_repr :: "rat \<Rightarrow> string"
  ll_loads :: "string \<Rightarrow> pyval option"
  ll_int :: "string \<Rightarrow> int option"

definition issue :: "login_lib \<Rightarrow> string \<Rightarrow> entry \<Rightarrow> int \<Rightarrow> rat \<Rightarrow> string" where
  "issue lib secret user ttl_s now =
     (let payload = dset user ''exp'' (VInt (\<lfloor>now\<rfloor> + ttl_s));
          raw = b64encode (json_text (ll_repr lib) (VDict payload))
      in raw @ ''.'' @ ll_mac lib secret raw)"

datatype session_check = Not_signed_in | Session_raised | Session entry

definition rsplit_dot :: "string \<Rightarrow> string \<times> string" where
  "rsplit_dot t = (rev (tl (dropWhile (\<lambda>c. c \<noteq> CHR ''.'') (rev t))), rev (takeWhile (\<lambda>c. c \<noteq> CHR ''.'') (rev t)))"

text \<open>\<open>v < now\<close>, which raises for what is not a number.\<close>

definition number_before :: "pyval \<Rightarrow> rat \<Rightarrow> bool option" where
  "number_before v now =
     (case v of VInt i \<Rightarrow> Some (of_int i < now) | VBool b \<Rightarrow> Some ((if b then 1 else 0) < now)
      | VFloat x \<Rightarrow> Some (pf_lt x (Fin now)) | _ \<Rightarrow> None)"

definition verify_session :: "login_lib \<Rightarrow> string \<Rightarrow> string option \<Rightarrow> rat \<Rightarrow> session_check" where
  "verify_session lib secret token now =
     (case token of None \<Rightarrow> Not_signed_in | Some t \<Rightarrow>
      if CHR ''.'' \<notin> set t then Not_signed_in
      else case rsplit_dot t of (raw, signature) \<Rightarrow>
        if ll_mac lib secret raw \<noteq> signature then Not_signed_in
        else case Option.bind (b64decode raw) (ll_loads lib) of
            None \<Rightarrow> Not_signed_in
          | Some (VDict d) \<Rightarrow> (case number_before (default (VInt 0) (dget d ''exp'')) now of
                None \<Rightarrow> Session_raised
              | Some over \<Rightarrow> if over then Not_signed_in else Session d)
          | Some v \<Rightarrow> Session_raised)"

subsection \<open>Settings\<close>

record login_settings =
  ls_environment :: string
  ls_auth_mode :: string
  ls_session_secret :: string
  ls_session_ttl_s :: int
  ls_robot_token :: string
  ls_oidc_issuer :: string
  ls_oidc_client_id :: string
  ls_oidc_client_secret :: string
  ls_oidc_redirect_url :: string
  ls_oidc_email_domain :: string
  ls_admin_usernames :: string
  ls_operator_usernames :: string
  ls_allowed_usernames :: string
  ls_allowed_origins :: string

datatype startup_problem = Local_login | Default_secret | Default_token | Missing_issuer | Missing_client_id
  | Missing_client_secret | Missing_redirect | Anyone_may_sign_in | No_origins | Redirect_without_tls

definition is_production :: "login_settings \<Rightarrow> bool" where
  "is_production st = (py_lower (py_strip (ls_environment st)) = ''production'')"

definition https_url :: "string \<Rightarrow> bool" where
  "https_url u = (take 8 (py_lower u) = ''https://'')"

definition cookie_secure :: "login_settings \<Rightarrow> bool" where
  "cookie_secure st = (is_production st \<or> https_url (ls_oidc_redirect_url st))"

text \<open>The problems \<open>validate_startup\<close> raises with; the server starts when there is none.\<close>

definition startup_problems :: "login_settings \<Rightarrow> startup_problem list" where
  "startup_problems st =
     (if \<not> is_production st then []
      else (if ls_auth_mode st \<noteq> ''oidc'' then [Local_login] else [])
        @ (if ls_session_secret st = ''dev-session-secret'' \<or> ls_session_secret st = [] then [Default_secret] else [])
        @ (if ls_robot_token st = ''dev-token'' \<or> ls_robot_token st = [] then [Default_token] else [])
        @ (if ls_oidc_issuer st = [] then [Missing_issuer] else [])
        @ (if ls_oidc_client_id st = [] then [Missing_client_id] else [])
        @ (if ls_oidc_client_secret st = [] then [Missing_client_secret] else [])
        @ (if ls_oidc_redirect_url st = [] then [Missing_redirect] else [])
        @ (if ls_oidc_email_domain st = [] \<and> ls_allowed_usernames st = [] then [Anyone_may_sign_in] else [])
        @ (if ls_allowed_origins st = [] then [No_origins] else [])
        @ (if ls_oidc_redirect_url st \<noteq> [] \<and> \<not> https_url (ls_oidc_redirect_url st) then [Redirect_without_tls] else []))"

subsection \<open>Users\<close>

text \<open>The display name, which decides nothing, is left out of the user.\<close>

definition LOCAL_USER :: user where
  "LOCAL_USER = \<lparr>us_id = 1, us_username = ''local'', us_role = ''administrator''\<rparr>"

text \<open>\<open>int(v)\<close>; \<open>None\<close> raises.\<close>

definition int_of :: "login_lib \<Rightarrow> pyval \<Rightarrow> int option" where
  "int_of lib v =
     (case v of VInt i \<Rightarrow> Some i | VBool b \<Rightarrow> Some (if b then 1 else 0) | VStr s \<Rightarrow> ll_int lib s
      | VFloat (Fin q) \<Rightarrow> Some (if 0 \<le> q then \<lfloor>q\<rfloor> else \<lceil>q\<rceil>) | _ \<Rightarrow> None)"

definition session_user :: "login_lib \<Rightarrow> entry \<Rightarrow> user option" where
  "session_user lib d =
     (case (Option.bind (dget d ''id'') (int_of lib), dget d ''username'', dget d ''display_name'', dget d ''role'') of
        (Some i, Some (VStr n), Some x, Some (VStr r)) \<Rightarrow> Some \<lparr>us_id = i, us_username = n, us_role = r\<rparr>
      | _ \<Rightarrow> None)"

text \<open>What an HTTP dependency answers: a value, a status, or an exception (500).\<close>

datatype http_refusal = Status nat | Server_error

definition get_current_user :: "login_lib \<Rightarrow> login_settings \<Rightarrow> string option \<Rightarrow> rat \<Rightarrow> http_refusal + user" where
  "get_current_user lib st cookie now =
     (if ls_auth_mode st \<noteq> ''oidc'' then Inr LOCAL_USER
      else case verify_session lib (ls_session_secret st) cookie now of
          Not_signed_in \<Rightarrow> Inl (Status 401)
        | Session_raised \<Rightarrow> Inl Server_error
        | Session d \<Rightarrow> (case session_user lib d of None \<Rightarrow> Inl Server_error | Some u \<Rightarrow> Inr u))"

definition require_operator :: "user \<Rightarrow> http_refusal + user" where
  "require_operator u = (if can_command u then Inr u else Inl (Status 403))"

definition require_admin :: "user \<Rightarrow> http_refusal + user" where
  "require_admin u = (if is_administrator u then Inr u else Inl (Status 403))"

text \<open>The user of a browser socket: \<open>Inr None\<close> where nobody is signed in.\<close>

definition resolve_ws_user :: "login_lib \<Rightarrow> login_settings \<Rightarrow> string option \<Rightarrow> rat \<Rightarrow> http_refusal + user option" where
  "resolve_ws_user lib st cookie now =
     (case get_current_user lib st cookie now of
        Inl (Status n) \<Rightarrow> Inr None | Inl Server_error \<Rightarrow> Inl Server_error | Inr u \<Rightarrow> Inr (Some u))"

text \<open>The middleware of \<open>main.py\<close>: may the request for a path go on.\<close>

definition require_session :: "login_lib \<Rightarrow> login_settings \<Rightarrow> string \<Rightarrow> string option \<Rightarrow> rat \<Rightarrow> http_refusal option" where
  "require_session lib st path cookie now =
     (if ls_auth_mode st \<noteq> ''oidc'' \<or> take 5 path \<noteq> ''/api/'' \<or> path = ''/api/health'' then None
      else case verify_session lib (ls_session_secret st) cookie now of
          Not_signed_in \<Rightarrow> Some (Status 401) | Session_raised \<Rightarrow> Some Server_error | Session d \<Rightarrow> None)"

subsection \<open>Signing in\<close>

definition STATE_TTL_S :: int where "STATE_TTL_S = 600"

definition role_for :: "login_settings \<Rightarrow> string \<Rightarrow> string" where
  "role_for st username =
     (if username \<in> set (name_list (ls_admin_usernames st)) then ''administrator''
      else if username \<in> set (name_list (ls_operator_usernames st)) then ''operator''
      else ''observer'')"

definition is_allowed :: "login_settings \<Rightarrow> string \<Rightarrow> bool" where
  "is_allowed st username =
     (let allowed = name_list (ls_allowed_usernames st) in allowed = [] \<or> username \<in> set allowed)"

definition ends_with :: "string \<Rightarrow> string \<Rightarrow> bool" where
  "ends_with s e = (length e \<le> length s \<and> drop (length s - length e) s = e)"

definition email_is_verified :: "pyval \<Rightarrow> bool" where
  "email_is_verified v =
     (case v of VBool b \<Rightarrow> b | VStr s \<Rightarrow> py_lower s = ''true'' | _ \<Rightarrow> False)"

definition domain_ok :: "login_settings \<Rightarrow> string option \<Rightarrow> pyval \<Rightarrow> bool" where
  "domain_ok st email verified =
     (let domain = py_lower (py_strip (ls_oidc_email_domain st))
      in if domain = [] then True
         else if or_empty email = [] then False
         else email_is_verified verified \<and> ends_with (py_lower (py_strip (or_empty email))) (''@'' @ domain))"

text \<open>The stash cookie of \<open>login\<close>; state and verifier are fresh random text.\<close>

definition login_stash :: "login_lib \<Rightarrow> login_settings \<Rightarrow> string \<Rightarrow> string \<Rightarrow> rat \<Rightarrow> string" where
  "login_stash lib st state verifier now =
     issue lib (ls_session_secret st) [(''state'', VStr state), (''verifier'', VStr verifier)] STATE_TTL_S now"

text \<open>What the identity provider says of the user.\<close>

record userinfo =
  ui_email :: "string option"
  ui_email_verified :: pyval
  ui_preferred_username :: "string option"
  ui_sub :: "string option"
  ui_name :: "string option"

datatype login_result = Login_expired | Login_raised | Login_denied string | Signed_in string user

definition account_name :: "userinfo \<Rightarrow> string option" where
  "account_name info =
     map_option (\<lambda>n. py_lower (takeWhile (\<lambda>c. c \<noteq> CHR ''@'') n))
       (if or_empty (ui_preferred_username info) \<noteq> [] then ui_preferred_username info
        else if or_empty (ui_email info) \<noteq> [] then ui_email info else ui_sub info)"

definition session_fields :: "user \<Rightarrow> string \<Rightarrow> entry" where
  "session_fields u display =
     [(''id'', VInt (us_id u)), (''username'', VStr (us_username u)), (''display_name'', VStr display),
      (''role'', VStr (us_role u))]"

text \<open>
  \<open>callback\<close>. The exchange of code and verifier for the user's information is an argument, \<open>None\<close> where
  it raises; so is the id the database gives a user name. The time is read for the stash and for the
  new cookie.
\<close>

definition callback_user :: "login_lib \<Rightarrow> login_settings \<Rightarrow> (string \<Rightarrow> int) \<Rightarrow> userinfo \<Rightarrow> rat \<Rightarrow> login_result" where
  "callback_user lib st ids info now =
     (if \<not> domain_ok st (ui_email info) (ui_email_verified info)
      then Login_denied (if or_empty (ui_email info) \<noteq> [] then or_empty (ui_email info)
                         else if or_empty (ui_preferred_username info) \<noteq> [] then or_empty (ui_preferred_username info)
                         else default ''unknown'' (ui_sub info))
      else case account_name info of
          None \<Rightarrow> Login_raised
        | Some username \<Rightarrow>
            if \<not> is_allowed st username then Login_denied username
            else let u = \<lparr>us_id = ids username, us_username = username, us_role = role_for st username\<rparr>;
                     display = (if or_empty (ui_name info) \<noteq> [] then or_empty (ui_name info) else username)
              in Signed_in (issue lib (ls_session_secret st) (session_fields u display) (ls_session_ttl_s st) now) u)"

definition login_callback ::
  "login_lib \<Rightarrow> login_settings \<Rightarrow> (string \<Rightarrow> pyval \<Rightarrow> userinfo option) \<Rightarrow> (string \<Rightarrow> int) \<Rightarrow> string option
   \<Rightarrow> string \<Rightarrow> string \<Rightarrow> rat \<Rightarrow> rat \<Rightarrow> login_result" where
  "login_callback lib st exchange ids stash code state now later =
     (case verify_session lib (ls_session_secret st) stash now of
        Session_raised \<Rightarrow> Login_raised
      | Not_signed_in \<Rightarrow> Login_expired
      | Session d \<Rightarrow>
          if code = [] \<or> get d ''state'' \<noteq> VStr state then Login_expired
          else case dget d ''verifier'' of None \<Rightarrow> Login_raised
            | Some verifier \<Rightarrow> (case exchange code verifier of None \<Rightarrow> Login_raised
                | Some info \<Rightarrow> callback_user lib st ids info later))"

subsection \<open>The HTTP surface of robot tuning\<close>

text \<open>
  \<open>fresh_user\<close>: the cookie is checked again, and role and permission come from the present lists, not
  from the cookie. Its handler turns a missing or unreadable field into nobody.
\<close>

definition fresh_from_session :: "login_lib \<Rightarrow> login_settings \<Rightarrow> entry \<Rightarrow> user option" where
  "fresh_from_session lib st d =
     (case (dget d ''username'', Option.bind (dget d ''id'') (int_of lib)) of
        (Some (VStr n), Some i) \<Rightarrow>
          if is_allowed st n then Some \<lparr>us_id = i, us_username = n, us_role = role_for st n\<rparr> else None
      | _ \<Rightarrow> None)"

definition fresh_user :: "login_lib \<Rightarrow> login_settings \<Rightarrow> string option \<Rightarrow> rat \<Rightarrow> http_refusal + user option" where
  "fresh_user lib st cookie now =
     (if ls_auth_mode st \<noteq> ''oidc'' then Inr (Some LOCAL_USER)
      else case verify_session lib (ls_session_secret st) cookie now of
          Session_raised \<Rightarrow> Inl Server_error
        | Not_signed_in \<Rightarrow> Inr None
        | Session d \<Rightarrow> Inr (fresh_from_session lib st d))"

definition current_tuning_user :: "login_lib \<Rightarrow> login_settings \<Rightarrow> string option \<Rightarrow> rat \<Rightarrow> user \<Rightarrow> http_refusal + user" where
  "current_tuning_user lib st cookie now u =
     (if ls_auth_mode st \<noteq> ''oidc'' then Inr u
      else case fresh_user lib st cookie now of
          Inl e \<Rightarrow> Inl e | Inr None \<Rightarrow> Inl (Status 401) | Inr (Some v) \<Rightarrow> Inr v)"

definition tuning_administrator :: "login_lib \<Rightarrow> login_settings \<Rightarrow> string option \<Rightarrow> rat \<Rightarrow> user \<Rightarrow> http_refusal + user" where
  "tuning_administrator lib st cookie now u =
     (case current_tuning_user lib st cookie now u of Inl e \<Rightarrow> Inl e | Inr v \<Rightarrow> require_admin v)"

text \<open>\<open>re.match\<close> with a final \<open>$\<close>, which also accepts one newline at the end.\<close>

definition robot_id_char :: "char \<Rightarrow> bool" where
  "robot_id_char c = (c \<in> set ''ABCDEFGHIJKLMNOPQRSTUVWXYZabcdefghijklmnopqrstuvwxyz0123456789_.-'')"

definition robot_id_ok :: "string \<Rightarrow> bool" where
  "robot_id_ok s =
     (let core = (if s \<noteq> [] \<and> last s = CHR 0x0A then butlast s else s)
      in 1 \<le> length core \<and> length core \<le> 64 \<and> list_all robot_id_char core)"

text \<open>The body, from the declared length and the chunks that arrive.\<close>

fun take_chunks :: "nat \<Rightarrow> string \<Rightarrow> string list \<Rightarrow> http_refusal + string" where
  "take_chunks limit body [] = Inr body"
| "take_chunks limit body (c # cs) =
     (if limit < length body + length c then Inl (Status 413) else take_chunks limit (body @ c) cs)"

definition bounded_body :: "login_lib \<Rightarrow> string option \<Rightarrow> string list \<Rightarrow> http_refusal + string" where
  "bounded_body lib declared chunks =
     (case declared of
        None \<Rightarrow> take_chunks REQUEST_MAX_BYTES [] chunks
      | Some t \<Rightarrow> (case ll_int lib t of
            None \<Rightarrow> Inl (Status 400)
          | Some n \<Rightarrow> if int REQUEST_MAX_BYTES < n then Inl (Status 413)
                      else take_chunks REQUEST_MAX_BYTES [] chunks))"

record tuning_post =
  tp_cookie :: "string option"
  tp_origin :: "string option"
  tp_robot :: string
  tp_declared :: "string option"
  tp_chunks :: "string list"

text \<open>
  \<open>post_tuning\<close> up to the broker: the user the request reaches it with, and the request. Strict JSON
  (\<open>parse\<close>, \<open>None\<close> where it raises) rejects constants and duplicate keys. The session is checked when
  the request is routed (\<open>now\<close>) and again when its body has arrived (\<open>later\<close>).
\<close>

definition post_tuning ::
  "login_lib \<Rightarrow> login_settings \<Rightarrow> (string \<Rightarrow> pyval option) \<Rightarrow> tuning_post \<Rightarrow> rat \<Rightarrow> rat
   \<Rightarrow> http_refusal + (user \<times> pyval)" where
  "post_tuning lib st parse r now later =
     (case get_current_user lib st (tp_cookie r) now of Inl e \<Rightarrow> Inl e | Inr u0 \<Rightarrow>
      case tuning_administrator lib st (tp_cookie r) now u0 of Inl e \<Rightarrow> Inl e | Inr u \<Rightarrow>
      if \<not> robot_id_ok (tp_robot r) then Inl (Status 400)
      else if \<not> ui_origin_allowed (ls_allowed_origins st) (tp_origin r) then Inl (Status 403)
      else case bounded_body lib (tp_declared r) (tp_chunks r) of Inl e \<Rightarrow> Inl e | Inr body \<Rightarrow>
      case parse body of
        None \<Rightarrow> Inl (Status 400)
      | Some (VDict d) \<Rightarrow>
          if \<not> hashable (get d ''operation'') then Inl Server_error
          else if \<not> in_names (get d ''operation'') MUTATION_OPERATIONS then Inl (Status 400)
          else (case tuning_administrator lib st (tp_cookie r) later u of
              Inl e \<Rightarrow> Inl e | Inr v \<Rightarrow> Inr (v, VDict d))
      | Some v \<Rightarrow> Inl (Status 400))"

text \<open>The request as the broker takes it, and the status a refusal becomes.\<close>

definition http_change ::
  "login_lib \<Rightarrow> login_settings \<Rightarrow> (string \<Rightarrow> pyval option) \<Rightarrow> tuning_post \<Rightarrow> rat \<Rightarrow> rat
   \<Rightarrow> tuning_env \<Rightarrow> world \<Rightarrow> rat \<Rightarrow> tuning_broker \<Rightarrow> tuning_broker \<times> (http_refusal + nat)" where
  "http_change lib st parse r now later env w clock b =
     (case post_tuning lib st parse r now later of
        Inl e \<Rightarrow> (b, Inl e)
      | Inr (u, request) \<Rightarrow> (case tuning_request env w u (tp_robot r) request clock b of
            (b', Inl refusal) \<Rightarrow> (b', Inl (case http_status refusal of None \<Rightarrow> Server_error | Some n \<Rightarrow> Status n))
          | (b', Inr ref) \<Rightarrow> (b', Inr ref)))"

subsection \<open>Base64 reads what it writes\<close>

lemma b64_value_char: "n < 64 \<Longrightarrow> b64_value (b64_char n) = Some n \<and> b64_char n \<noteq> CHR ''='' \<and> b64_char n \<noteq> CHR ''.''"
proof -
  have "list_all (\<lambda>n. b64_value (b64_char n) = Some n \<and> b64_char n \<noteq> CHR ''='' \<and> b64_char n \<noteq> CHR ''.'') [0..<64]"
    by code_simp
  then show "n < 64 \<Longrightarrow> ?thesis" by (simp add: list_all_iff)
qed

lemmas b64_chars [simp] = b64_value_char [THEN conjunct1] b64_value_char [THEN conjunct2, THEN conjunct1]
  b64_value_char [THEN conjunct2, THEN conjunct2]

lemma of_char_less [simp]: "(of_char c :: nat) < 256"
  by (rule nat_of_char_less_256)

lemma group_bits:
  fixes i j k :: nat
  assumes "i < 256" "j < 256" "k < 256"
  shows "i div 4 < 64" "i mod 4 * 16 + j div 16 < 64" "j mod 16 * 4 + k div 64 < 64" "k mod 64 < 64"
    "i mod 4 * 16 < 64" "j mod 16 * 4 < 64"
    "i div 4 * 4 + (i mod 4 * 16 + j div 16) div 16 = i"
    "(i mod 4 * 16 + j div 16) mod 16 * 16 + (j mod 16 * 4 + k div 64) div 4 = j"
    "(j mod 16 * 4 + k div 64) mod 4 * 64 + k mod 64 = k"
    "i div 4 * 4 + (i mod 4 * 16) div 16 = i"
    "(i mod 4 * 16 + j div 16) mod 16 * 16 + (j mod 16 * 4) div 4 = j"
proof -
  have bounds: "j div 16 < 16" "k div 64 < 4" using assms by (simp_all add: less_mult_imp_div_less)
  have m: "(x * 16 + y) mod 16 = y" "(x * 16 + y) div 16 = x" if "y < 16" for x y :: nat using that by simp_all
  have m4: "(x * 4 + y) mod 4 = y" "(x * 4 + y) div 4 = x" if "y < 4" for x y :: nat using that by simp_all
  show "i div 4 < 64" using assms by (simp add: less_mult_imp_div_less)
  have "i mod 4 \<le> 3" "j mod 16 \<le> 15" "k mod 64 \<le> 63" by (simp_all add: less_Suc_eq_le [symmetric])
  then show "i mod 4 * 16 + j div 16 < 64" "j mod 16 * 4 + k div 64 < 64" "k mod 64 < 64" "i mod 4 * 16 < 64" "j mod 16 * 4 < 64"
    using bounds by linarith+
  show "i div 4 * 4 + (i mod 4 * 16 + j div 16) div 16 = i" "i div 4 * 4 + (i mod 4 * 16) div 16 = i"
    using m(2) [OF bounds(1)] by simp_all
  show "(i mod 4 * 16 + j div 16) mod 16 * 16 + (j mod 16 * 4 + k div 64) div 4 = j"
    "(i mod 4 * 16 + j div 16) mod 16 * 16 + (j mod 16 * 4) div 4 = j"
    using m(1) [OF bounds(1)] m4(2) [OF bounds(2)] by simp_all
  show "(j mod 16 * 4 + k div 64) mod 4 * 64 + k mod 64 = k" using m4(1) [OF bounds(2)] by simp
qed

lemma read_digit:
  assumes "v < 64"
  shows "b64_read 0 p l (b64_char v # s) = b64_read 1 0 v s"
    "b64_read 1 p l (b64_char v # s) = map_option ((#) (char_of (l * 4 + v div 16))) (b64_read 2 0 (v mod 16) s)"
    "b64_read 2 p l (b64_char v # s) = map_option ((#) (char_of (l * 16 + v div 4))) (b64_read 3 0 (v mod 4) s)"
    "b64_read 3 p l (b64_char v # s) = map_option ((#) (char_of (l * 64 + v))) (b64_read 0 0 0 s)"
  using assms by simp_all

lemma b64_roundtrip [simp]: "b64decode (b64encode s) = Some s"
proof -
  have "b64_read 0 0 0 (b64encode s) = Some s"
  proof (induction s rule: b64encode.induct)
    case (1 a b c s)
    let ?i = "of_char a :: nat" and ?j = "of_char b :: nat" and ?k = "of_char c :: nat"
    note g = group_bits [of ?i ?j ?k, OF of_char_less of_char_less of_char_less]
    show ?case using 1 by (simp only: b64encode.simps Let_def append.simps read_digit g) simp
  next
    case (2 a b)
    let ?i = "of_char a :: nat" and ?j = "of_char b :: nat"
    note g = group_bits [of ?i ?j ?j, OF of_char_less of_char_less of_char_less]
    show ?case by (simp only: b64encode.simps Let_def read_digit g) simp
  next
    case (3 a)
    let ?i = "of_char a :: nat"
    note g = group_bits [of ?i ?i ?i, OF of_char_less of_char_less of_char_less]
    show ?case by (simp only: b64encode.simps Let_def read_digit g) simp
  qed simp
  then show ?thesis by (simp add: b64decode_def)
qed

lemma no_dot: "n < 64 \<Longrightarrow> CHR ''.'' \<noteq> b64_char n"
  using b64_value_char [of n] by metis

lemma b64_no_dot: "CHR ''.'' \<notin> set (b64encode s)"
proof (induction s rule: b64encode.induct)
  case (1 a b c s)
  note g = group_bits [of "of_char a" "of_char b" "of_char c", OF of_char_less of_char_less of_char_less]
  show ?case using 1 g(1-4) [THEN no_dot] by (simp only: b64encode.simps Let_def append.simps list.set insert_iff) simp
next
  case (2 a b)
  note g = group_bits [of "of_char a" "of_char b" "of_char b", OF of_char_less of_char_less of_char_less]
  show ?case using g(1,2,6) [THEN no_dot] by (simp only: b64encode.simps Let_def list.set insert_iff) simp
next
  case (3 a)
  note g = group_bits [of "of_char a" "of_char a" "of_char a", OF of_char_less of_char_less of_char_less]
  show ?case using g(1,5) [THEN no_dot] by (simp only: b64encode.simps Let_def list.set insert_iff) simp
qed simp

subsection \<open>What a valid cookie is\<close>

lemma split_at_first:
  "\<forall>c\<in>set xs. P c \<Longrightarrow> \<not> P a \<Longrightarrow> takeWhile P (xs @ a # ys) = xs \<and> dropWhile P (xs @ a # ys) = a # ys"
  by (induction xs) auto

lemma rsplit_dot_join:
  assumes "CHR ''.'' \<notin> set sig" shows "rsplit_dot (raw @ CHR ''.'' # sig) = (raw, sig)"
proof -
  have "\<forall>c\<in>set (rev sig). c \<noteq> CHR ''.''" using assms by auto
  from split_at_first [OF this, of "CHR ''.''" "rev raw"] show ?thesis by (simp add: rsplit_dot_def)
qed

lemma rsplit_dot_split:
  assumes "CHR ''.'' \<in> set t" "rsplit_dot t = (raw, sig)" shows "t = raw @ CHR ''.'' # sig"
proof -
  obtain ys zs where t: "t = ys @ CHR ''.'' # zs" "CHR ''.'' \<notin> set zs" using split_list_last [OF assms(1)] by blast
  then show ?thesis using rsplit_dot_join [OF t(2), of ys] assms(2) by simp
qed

text \<open>The server signed it, it holds an object, and that object has not expired.\<close>

definition vouched :: "login_lib \<Rightarrow> string \<Rightarrow> string option \<Rightarrow> rat \<Rightarrow> entry \<Rightarrow> bool" where
  "vouched lib secret cookie now d \<longleftrightarrow>
     (\<exists>raw. cookie = Some (raw @ ''.'' @ ll_mac lib secret raw)
        \<and> Option.bind (b64decode raw) (ll_loads lib) = Some (VDict d)
        \<and> number_before (default (VInt 0) (dget d ''exp'')) now = Some False)"

lemma verify_vouched: "verify_session lib secret cookie now = Session d \<Longrightarrow> vouched lib secret cookie now d"
proof -
  assume v: "verify_session lib secret cookie now = Session d"
  then obtain t where t: "cookie = Some t" "CHR ''.'' \<in> set t" by (auto simp: verify_session_def split: option.splits if_splits)
  obtain raw sig where rs: "rsplit_dot t = (raw, sig)" by (cases "rsplit_dot t")
  have "ll_mac lib secret raw = sig" "Option.bind (b64decode raw) (ll_loads lib) = Some (VDict d)"
    "number_before (default (VInt 0) (dget d ''exp'')) now = Some False"
    using v t rs by (auto simp: verify_session_def split: option.splits if_splits pyval.splits)
  then show ?thesis unfolding vouched_def using rsplit_dot_split [OF t(2) rs] t(1) by auto
qed

text \<open>The object a new cookie carries.\<close>

definition issued :: "entry \<Rightarrow> int \<Rightarrow> rat \<Rightarrow> entry" where
  "issued user ttl_s now = dset user ''exp'' (VInt (\<lfloor>now\<rfloor> + ttl_s))"

lemma hex_no_dot: "sha256_hex s \<Longrightarrow> CHR ''.'' \<notin> set s"
proof -
  have "\<not> lower_hex (CHR ''.'')" by (simp add: lower_hex_def)
  then show "sha256_hex s \<Longrightarrow> ?thesis" by (metis list_all_iff sha256_hex_def)
qed

lemma verify_issued:
  assumes "\<And>k m. sha256_hex (ll_mac lib k m)"
    and "ll_loads lib (json_text (ll_repr lib) (VDict (issued user ttl_s now))) = Some (VDict (issued user ttl_s now))"
  shows "verify_session lib secret (Some (issue lib secret user ttl_s now)) later =
    (if of_int (\<lfloor>now\<rfloor> + ttl_s) < later then Not_signed_in else Session (issued user ttl_s now))"
proof -
  let ?raw = "b64encode (json_text (ll_repr lib) (VDict (issued user ttl_s now)))"
  have token: "issue lib secret user ttl_s now = ?raw @ CHR ''.'' # ll_mac lib secret ?raw"
    by (simp only: issue_def issued_def Let_def append.simps)
  have "rsplit_dot (issue lib secret user ttl_s now) = (?raw, ll_mac lib secret ?raw)"
    unfolding token by (rule rsplit_dot_join [OF hex_no_dot [OF assms(1)]])
  moreover have "CHR ''.'' \<in> set (issue lib secret user ttl_s now)" unfolding token by simp
  moreover have "Option.bind (b64decode ?raw) (ll_loads lib) = Some (VDict (issued user ttl_s now))" using assms(2) by simp
  moreover have "number_before (default (VInt 0) (dget (issued user ttl_s now) ''exp'')) later
      = Some (of_int (\<lfloor>now\<rfloor> + ttl_s) < later)"
    by (simp add: issued_def number_before_def)
  ultimately show ?thesis by (simp add: verify_session_def)
qed

text \<open>
  C20. A session cookie is worth exactly what the server put into it, for as long as it said. A cookie
  issued for a user verifies, until the whole second its lifetime ends in has passed, to that user's
  data with the end added, and not at all afterwards; and any cookie that verifies at any time is a
  text with this server's keyed hash of it that decodes to the data given, which has not expired.
\<close>

theorem session_cookie_roundtrip:
  assumes "\<And>k m. sha256_hex (ll_mac lib k m)"
    and "ll_loads lib (json_text (ll_repr lib) (VDict (issued user ttl_s now))) = Some (VDict (issued user ttl_s now))"
  shows "verify_session lib secret (Some (issue lib secret user ttl_s now)) later =
      (if of_int (\<lfloor>now\<rfloor> + ttl_s) < later then Not_signed_in else Session (issued user ttl_s now))
    \<and> (verify_session lib secret cookie time = Session d \<longrightarrow> vouched lib secret cookie time d)"
  using verify_issued [OF assms] verify_vouched by blast

subsection \<open>Who signs in as what\<close>


subsection \<open>Who changes the tuning of a robot over HTTP\<close>

lemma take_chunks_Inr:
  "take_chunks limit body cs = Inr x \<Longrightarrow> x = body @ concat cs \<and> (length body \<le> limit \<longrightarrow> length x \<le> limit)"
proof (induction cs arbitrary: body)
  case (Cons c cs)
  then have "take_chunks limit (body @ c) cs = Inr x" "length body + length c \<le> limit" by (auto split: if_splits)
  then show ?case using Cons.IH by fastforce
qed simp

lemma bounded_body_Inr: "bounded_body lib declared cs = Inr x \<Longrightarrow> x = concat cs \<and> length x \<le> REQUEST_MAX_BYTES"
  by (auto simp: bounded_body_def dest!: take_chunks_Inr split: option.splits if_splits)

lemma tuning_administrator_Inr:
  assumes "tuning_administrator lib st cookie now u = Inr v" "ls_auth_mode st = ''oidc''"
  shows "is_administrator v \<and> us_username v \<in> set (name_list (ls_admin_usernames st)) \<and> is_allowed st (us_username v)
    \<and> (\<exists>d. vouched lib (ls_session_secret st) cookie now d \<and> dget d ''username'' = Some (VStr (us_username v)))"
proof -
  obtain d where d: "verify_session lib (ls_session_secret st) cookie now = Session d" "fresh_from_session lib st d = Some v"
    "is_administrator v"
    using assms by (auto simp: tuning_administrator_def current_tuning_user_def fresh_user_def require_admin_def
        split: sum.splits option.splits session_check.splits if_splits)
  then have "dget d ''username'' = Some (VStr (us_username v))" "is_allowed st (us_username v)"
    "us_role v = role_for st (us_username v)"
    by (auto simp: fresh_from_session_def split: option.splits pyval.splits if_splits)
  then show ?thesis using verify_vouched [OF d(1)] d(3) by (auto simp: is_administrator_def role_for_def split: if_splits)
qed

lemma post_tuning_Inr:
  assumes "post_tuning lib st parse r now later = Inr (v, q)" "ls_auth_mode st = ''oidc''"
  shows "is_administrator v \<and> us_username v \<in> set (name_list (ls_admin_usernames st)) \<and> is_allowed st (us_username v)
    \<and> (\<exists>sd. vouched lib (ls_session_secret st) (tp_cookie r) later sd \<and> dget sd ''username'' = Some (VStr (us_username v)))
    \<and> ui_origin_allowed (ls_allowed_origins st) (tp_origin r) \<and> length (concat (tp_chunks r)) \<le> REQUEST_MAX_BYTES
    \<and> (\<exists>d. q = VDict d \<and> parse (concat (tp_chunks r)) = Some q \<and> in_names (get d ''operation'') MUTATION_OPERATIONS)"
proof -
  obtain u body d where p: "ui_origin_allowed (ls_allowed_origins st) (tp_origin r)"
    "bounded_body lib (tp_declared r) (tp_chunks r) = Inr body" "parse body = Some (VDict d)" "q = VDict d"
    "in_names (get d ''operation'') MUTATION_OPERATIONS" "tuning_administrator lib st (tp_cookie r) later u = Inr v"
    using assms(1) by (auto simp: post_tuning_def split: sum.splits option.splits pyval.splits if_splits)
  show ?thesis using tuning_administrator_Inr [OF p(6) assms(2)] bounded_body_Inr [OF p(2)] p by auto
qed

text \<open>
  C18. Over HTTP only a present administrator changes the tuning of a robot. Where a login is required, a
  request that reaches the tuning broker, by an answer that is not a refusal or by any trace in the
  broker's state, carries a cookie this server signed that has not expired when its body has arrived;
  its user is on the administrator list and on the allow list as they are then, whatever role the
  cookie was issued with; its origin is allowed; its body is at most the size limit and an object that
  asks for a change; and the broker is asked in the name of exactly that user.
\<close>

theorem http_change_needs_present_administrator:
  assumes "fst (http_change lib st parse r now later env w clock b) \<noteq> b
      \<or> (\<exists>ref. snd (http_change lib st parse r now later env w clock b) = Inr ref)"
    and "ls_auth_mode st = ''oidc''"
  shows "\<exists>u sd d. vouched lib (ls_session_secret st) (tp_cookie r) later sd
    \<and> dget sd ''username'' = Some (VStr (us_username u))
    \<and> is_administrator u \<and> us_username u \<in> set (name_list (ls_admin_usernames st)) \<and> is_allowed st (us_username u)
    \<and> ui_origin_allowed (ls_allowed_origins st) (tp_origin r)
    \<and> length (concat (tp_chunks r)) \<le> REQUEST_MAX_BYTES \<and> parse (concat (tp_chunks r)) = Some (VDict d)
    \<and> in_names (get d ''operation'') MUTATION_OPERATIONS
    \<and> fst (http_change lib st parse r now later env w clock b) = fst (tuning_request env w u (tp_robot r) (VDict d) clock b)"
proof (cases "post_tuning lib st parse r now later")
  case (Inl e)
  then show ?thesis using assms(1) by (simp add: http_change_def)
next
  case (Inr uq)
  obtain u q where uq: "uq = (u, q)" by (cases uq)
  have "fst (http_change lib st parse r now later env w clock b) = fst (tuning_request env w u (tp_robot r) q clock b)"
    using Inr uq by (simp add: http_change_def split: prod.split sum.split)
  then show ?thesis using post_tuning_Inr [OF Inr [unfolded uq] assms(2)] by blast
qed

subsection \<open>Three observations\<close>

text \<open>The role follows the name the provider prefers, not the address whose domain was checked.\<close>

lemma role_follows_preferred_name:
  assumes "ls_oidc_email_domain st = ''andrew.cmu.edu''" "ls_admin_usernames st = ''alice''" "ls_allowed_usernames st = []"
  shows "\<exists>cookie u. callback_user lib st ids \<lparr>ui_email = Some ''bob@andrew.cmu.edu'', ui_email_verified = VBool True,
      ui_preferred_username = Some ''alice'', ui_sub = Some ''1'', ui_name = None\<rparr> now = Signed_in cookie u
    \<and> is_administrator u"
proof -
  have "domain_ok st (Some ''bob@andrew.cmu.edu'') (VBool True)"
    using assms(1) by (simp add: domain_ok_def ends_with_def email_is_verified_def py_string_defs)
  moreover have "role_for st ''alice'' = ''administrator''" "is_allowed st ''alice''"
    using assms(2,3) by (simp_all add: role_for_def is_allowed_def name_list_def py_string_defs)
  ultimately show ?thesis by (simp add: callback_user_def account_name_def py_string_defs is_administrator_def)
qed

text \<open>
  A required domain of blanks passes the start-up check, which tests the text as it is, and disables
  the domain check, which strips it first.
\<close>

lemma blank_domain_admits_everyone:
  "startup_problems (st\<lparr>ls_oidc_email_domain := '' ''\<rparr>)
     = filter (\<lambda>x. x \<noteq> Anyone_may_sign_in) (startup_problems st)
   \<and> domain_ok (st\<lparr>ls_oidc_email_domain := '' ''\<rparr>) email verified"
  by (simp add: startup_problems_def is_production_def domain_ok_def py_string_defs)

text \<open>The pattern for a robot id also takes one with a newline at its end.\<close>

lemma robot_id_newline: "robot_id_ok (''patrolbot-01'' @ [CHR 0x0A])"
  by (simp add: robot_id_ok_def robot_id_char_def)

subsection \<open>Examples\<close>

text \<open>A library whose reader knows the objects of a login and of the session it ends in.\<close>

definition login_example :: login_settings where
  "login_example = \<lparr>ls_environment = ''production'', ls_auth_mode = ''oidc'', ls_session_secret = ''s'',
     ls_session_ttl_s = 100, ls_robot_token = ''t'', ls_oidc_issuer = ''i'', ls_oidc_client_id = ''c'',
     ls_oidc_client_secret = ''x'', ls_oidc_redirect_url = ''https://d'', ls_oidc_email_domain = ''andrew.cmu.edu'',
     ls_admin_usernames = ''alice, local'', ls_operator_usernames = ''bob'', ls_allowed_usernames = [],
     ls_allowed_origins = ''https://d''\<rparr>"

lemma example_starts: "startup_problems login_example = []"
  by code_simp

definition example_stash :: entry where
  "example_stash = [(''state'', VStr ''q''), (''verifier'', VStr ''v'')]"

definition example_fields :: entry where
  "example_fields = session_fields tuning_user ''Local''"

definition example_objects :: "pyval list" where
  "example_objects = [VDict (issued example_stash STATE_TTL_S 10), VDict (issued example_fields 100 20)]"

definition example_lib :: login_lib where
  "example_lib = \<lparr>ll_mac = (\<lambda>k m. replicate 64 (CHR ''0'')), ll_repr = (\<lambda>q. []),
     ll_loads = (\<lambda>t. find (\<lambda>v. json_text (\<lambda>q. []) v = t) example_objects), ll_int = (\<lambda>t. None)\<rparr>"

lemma example_mac: "sha256_hex (ll_mac example_lib k m)"
  by (simp add: example_lib_def sha256_hex_def lower_hex_def list_all_iff)

lemma example_reads:
  "ll_loads example_lib (json_text (ll_repr example_lib) (VDict (issued example_fields 100 20)))
     = Some (VDict (issued example_fields 100 20))"
  by code_simp

definition example_cookie :: string where
  "example_cookie = issue example_lib ''s'' example_fields 100 20"

lemma example_cookie_verifies:
  "verify_session example_lib ''s'' (Some example_cookie) t = (if 120 < t then Not_signed_in else Session (issued example_fields 100 20))"
  using verify_issued [OF example_mac example_reads, of "''s''" t] by (simp add: example_cookie_def)

theorem session_cookie_roundtrip_witness:
  "verify_session example_lib ''s'' (Some (issue example_lib ''s'' example_fields 100 20)) 120 = Session (issued example_fields 100 20)
   \<and> verify_session example_lib ''s'' (Some (issue example_lib ''s'' example_fields 100 20)) 121 = Not_signed_in"
  using session_cookie_roundtrip [OF example_mac example_reads, where secret = "''s''" and later = 120]
    session_cookie_roundtrip [OF example_mac example_reads, where secret = "''s''" and later = 121]
  by simp

definition example_info :: userinfo where
  "example_info = \<lparr>ui_email = Some ''local@andrew.cmu.edu'', ui_email_verified = VBool True,
     ui_preferred_username = None, ui_sub = Some ''1'', ui_name = Some ''Local''\<rparr>"

definition example_callback :: login_result where
  "example_callback = login_callback example_lib login_example (\<lambda>code v. Some example_info) (\<lambda>n. 1)
     (Some (login_stash example_lib login_example ''q'' ''v'' 10)) ''code'' ''q'' 15 20"

lemma example_signed_in: "example_callback = Signed_in example_cookie tuning_user"
  by code_simp


definition example_post :: tuning_post where
  "example_post = \<lparr>tp_cookie = Some example_cookie, tp_origin = Some ''https://d'', tp_robot = ''r'',
     tp_declared = None, tp_chunks = [''a'', ''b'']\<rparr>"

definition example_parse :: "string \<Rightarrow> pyval option" where
  "example_parse t = (if t = ''ab'' then Some example_change else None)"

lemma example_posted:
  assumes "later \<le> 120" "now \<le> 120"
  shows "post_tuning example_lib login_example example_parse example_post now later = Inr (tuning_user, example_change)"
proof -
  have mode: "ls_auth_mode login_example = ''oidc''" "ls_session_secret login_example = ''s''"
    "tp_cookie example_post = Some example_cookie"
    by (simp_all add: login_example_def example_post_def)
  have user: "session_user example_lib (issued example_fields 100 20) = Some tuning_user"
    "fresh_from_session example_lib login_example (issued example_fields 100 20) = Some tuning_user" "is_administrator tuning_user"
    by code_simp+
  have admin: "tuning_administrator example_lib login_example (tp_cookie example_post) t u = Inr tuning_user" if "t \<le> 120" for t u
    using that user by (simp add: tuning_administrator_def current_tuning_user_def fresh_user_def mode example_cookie_verifies
        require_admin_def)
  have first: "get_current_user example_lib login_example (tp_cookie example_post) now = Inr tuning_user"
    using assms user by (simp add: get_current_user_def mode example_cookie_verifies)
  have rest: "robot_id_ok (tp_robot example_post)"
    "ui_origin_allowed (ls_allowed_origins login_example) (tp_origin example_post)"
    by code_simp+
  have body: "bounded_body example_lib (tp_declared example_post) (tp_chunks example_post) = Inr ''ab''"
    by (simp add: bounded_body_def example_post_def REQUEST_MAX_BYTES_def)
  obtain d where d: "example_change = VDict d" "get d ''operation'' = VStr ''save''"
    by (simp add: example_change_def example_save_def get_def)
  have "in_names (get d ''operation'') MUTATION_OPERATIONS" "hashable (get d ''operation'')"
    using d by (simp_all add: in_names_def MUTATION_OPERATIONS_def hashable_def)
  moreover have "example_parse ''ab'' = Some (VDict d)" unfolding example_parse_def d(1) by simp
  ultimately show ?thesis
    using first admin [OF assms(1)] admin [OF assms(2)] rest body unfolding d(1) by (simp add: post_tuning_def)
qed

theorem http_change_needs_present_administrator_witness:
  "\<exists>u :: user. us_username u \<in> set (name_list (ls_admin_usernames login_example))
     \<and> length (tb_frames (fst (http_change example_lib login_example example_parse example_post 30 40
         tuning_example_env tuning_world 10 (tuning_new\<lparr>tb_clock := 10\<rparr>)))) = 1"
proof -
  let ?b = "tuning_new\<lparr>tb_clock := 10\<rparr>"
  let ?h = "http_change example_lib login_example example_parse example_post 30 40 tuning_example_env tuning_world 10 ?b"
  have robot: "tp_robot example_post = ''r''" by (simp add: example_post_def)
  have asked: "fst ?h = asked"
    by (simp add: http_change_def example_posted robot asked_def split: prod.split sum.split)
  have frames: "length (tb_frames (fst ?h)) = 1"
    using asked_frames unfolding asked by (metis length_map list.size(3,4) One_nat_def add.right_neutral add_Suc_right)
  have "tb_frames ?b = []" by (simp add: tuning_new_def)
  then have changed: "fst ?h \<noteq> ?b" using frames by auto
  have mode: "ls_auth_mode login_example = ''oidc''" by (simp add: login_example_def)
  from http_change_needs_present_administrator [OF disjI1 [OF changed] mode] frames show ?thesis by blast
qed

end
