(* ===== verification/Database.thy ===== *)
theory Database
  imports Prelude
begin

text \<open>
  The database of the server (\<open>database/repo.py\<close>, \<open>presets.py\<close>), and the two reads of it that
  \<open>api/help_guide.py\<close> and \<open>api/history.py\<close> bound. A table is the list of its rows, oldest first; a method
  is one function, its SQL statements in order. \<open>datetime('now')\<close> and its shifts are arguments. An id
  that no query returns is the place of the row. Where a query orders by a column that may repeat, the
  order of equal rows is SQLite's: \<open>order\<close> is any function that sorts. JSON columns hold text, written and
  read by the parameters \<open>dumps\<close> and \<open>loads\<close>.
\<close>

subsection \<open>SQL\<close>

text \<open>Text compares byte by byte; a negative \<open>LIMIT\<close> is none; \<open>MAX\<close> of no rows is null.\<close>

fun text_le :: "string \<Rightarrow> string \<Rightarrow> bool" where
  "text_le [] t = True"
| "text_le (c # s) [] = False"
| "text_le (c # s) (d # t) = ((of_char c :: nat) < of_char d \<or> c = d \<and> text_le s t)"

definition sql_limit :: "int \<Rightarrow> 'a list \<Rightarrow> 'a list" where
  "sql_limit n xs = (if n < 0 then xs else take (nat n) xs)"

fun sql_max :: "int list \<Rightarrow> int option" where
  "sql_max [] = None"
| "sql_max (i # is) = Some (foldr max is i)"

fun insert_by :: "('a \<Rightarrow> 'a \<Rightarrow> bool) \<Rightarrow> 'a \<Rightarrow> 'a list \<Rightarrow> 'a list" where
  "insert_by le x [] = [x]"
| "insert_by le x (y # ys) = (if le x y then x # y # ys else y # insert_by le x ys)"

definition order_by :: "('a \<Rightarrow> 'a \<Rightarrow> bool) \<Rightarrow> 'a list \<Rightarrow> 'a list" where
  "order_by le xs = foldr (insert_by le) xs []"

definition update_where :: "('a \<Rightarrow> bool) \<Rightarrow> ('a \<Rightarrow> 'a) \<Rightarrow> 'a list \<Rightarrow> 'a list" where
  "update_where p f rows = map (\<lambda>r. if p r then f r else r) rows"

subsection \<open>Tables\<close>

record db_user =
  du_id :: int
  du_username :: string
  du_display_name :: string
  du_help_seen :: int

record db_layout =
  dl_user :: int
  dl_name :: string
  dl_preset :: bool
  dl_json :: string
  dl_updated :: string

record db_event =
  de_id :: int
  de_robot :: string
  de_ts :: string
  de_severity :: string
  de_title :: string
  de_message :: string

record db_battery =
  db_robot :: string
  db_ts :: string
  db_voltage :: pyfloat
  db_percentage :: "pyfloat option"
  db_current :: "pyfloat option"
  db_charging :: bool

record db_command =
  dc_robot :: string
  dc_command_id :: string
  dc_command :: string
  dc_goal :: "string option"
  dc_requested_at :: string
  dc_outcome :: "string option"
  dc_detail :: "string option"
  dc_completed_at :: "string option"
  dc_user_id :: "int option"
  dc_username :: "string option"
  dc_source_ip :: "string option"
  dc_generation :: "int option"
  dc_rejection :: "string option"

record db_recording =
  dr_id :: int
  dr_robot :: string
  dr_name :: string
  dr_channels :: "string list"
  dr_started_at :: string
  dr_ended_at :: "string option"
  dr_status :: string
  dr_sample_count :: int

record db_sample =
  ds_id :: int
  ds_recording :: int
  ds_ts :: string
  ds_kind :: string
  ds_data :: string

text \<open>The tables, and the two \<open>AUTOINCREMENT\<close> counters whose ids are read: the largest id ever given.\<close>

record database =
  t_users :: "db_user list"
  t_layouts :: "db_layout list"
  t_events :: "db_event list"
  t_battery :: "db_battery list"
  t_commands :: "db_command list"
  t_recordings :: "db_recording list"
  t_recording_seq :: int
  t_samples :: "db_sample list"
  t_sample_seq :: int
  t_poses :: "(string \<times> string) list"

definition empty_database :: database where
  "empty_database = \<lparr>t_users = [], t_layouts = [], t_events = [], t_battery = [], t_commands = [],
     t_recordings = [], t_recording_seq = 0, t_samples = [], t_sample_seq = 0, t_poses = []\<rparr>"

subsection \<open>Users\<close>

definition next_user_id :: "database \<Rightarrow> int" where
  "next_user_id d = default 0 (sql_max (map du_id (t_users d))) + 1"

definition get_or_create_user :: "string \<Rightarrow> string \<Rightarrow> database \<Rightarrow> database \<times> int" where
  "get_or_create_user username display d =
     (case find (\<lambda>r. du_username r = username) (t_users d) of
        Some r \<Rightarrow> (d\<lparr>t_users := update_where (\<lambda>r. du_username r = username) (\<lambda>r. r\<lparr>du_display_name := display\<rparr>)
                     (t_users d)\<rparr>, du_id r)
      | None \<Rightarrow> (d\<lparr>t_users := t_users d @ [\<lparr>du_id = next_user_id d, du_username = username,
                     du_display_name = display, du_help_seen = 0\<rparr>]\<rparr>, next_user_id d))"

definition get_help_guide_version_seen :: "database \<Rightarrow> int \<Rightarrow> int" where
  "get_help_guide_version_seen d user_id =
     (case find (\<lambda>r. du_id r = user_id) (t_users d) of None \<Rightarrow> 0 | Some r \<Rightarrow> du_help_seen r)"

definition mark_help_guide_seen :: "int \<Rightarrow> int \<Rightarrow> database \<Rightarrow> database \<times> int" where
  "mark_help_guide_seen user_id version d =
     (let d' = d\<lparr>t_users := update_where (\<lambda>r. du_id r = user_id)
                  (\<lambda>r. r\<lparr>du_help_seen := max (du_help_seen r) version\<rparr>) (t_users d)\<rparr>
      in (d', get_help_guide_version_seen d' user_id))"

definition HELP_GUIDE_VERSION :: int where "HELP_GUIDE_VERSION = 1"

text \<open>\<open>_status\<close> of the help guide: the seen version and whether to offer the guide.\<close>

definition help_guide_status :: "int \<Rightarrow> int \<times> bool" where
  "help_guide_status seen = (seen, seen < HELP_GUIDE_VERSION)"

definition acknowledge_help_guide :: "int \<Rightarrow> database \<Rightarrow> database \<times> int \<times> bool" where
  "acknowledge_help_guide user_id d =
     (case mark_help_guide_seen user_id HELP_GUIDE_VERSION d of (d', seen) \<Rightarrow> (d', help_guide_status seen))"

subsection \<open>Events\<close>

definition next_event_id :: "database \<Rightarrow> int" where
  "next_event_id d = default 0 (sql_max (map de_id (t_events d))) + 1"

definition EVENTS_KEPT :: nat where "EVENTS_KEPT = 5000"

definition db_add_event :: "(db_event list \<Rightarrow> db_event list) \<Rightarrow> db_event \<Rightarrow> database \<Rightarrow> database" where
  "db_add_event order e d =
     (let rows = filter (\<lambda>r. \<not> (de_robot r = de_robot e \<and> de_id r = de_id e)) (t_events d) @ [e];
          newest = set (take EVENTS_KEPT (order rows))
      in d\<lparr>t_events := filter (\<lambda>r. r \<in> newest) rows\<rparr>)"

definition get_events :: "(db_event list \<Rightarrow> db_event list) \<Rightarrow> int \<Rightarrow> database \<Rightarrow> db_event list" where
  "get_events order n d = sql_limit n (order (t_events d))"

subsection \<open>Battery history\<close>

definition add_battery_sample :: "string \<Rightarrow> db_battery \<Rightarrow> database \<Rightarrow> database" where
  "add_battery_sample week_ago r d =
     d\<lparr>t_battery := filter (\<lambda>r. text_le week_ago (db_ts r)) (t_battery d @ [r])\<rparr>"

definition get_battery_history ::
  "(db_battery list \<Rightarrow> db_battery list) \<Rightarrow> string \<Rightarrow> int \<Rightarrow> database \<Rightarrow> db_battery list" where
  "get_battery_history order since n d =
     rev (sql_limit n (order (filter (\<lambda>r. text_le since (db_ts r)) (t_battery d))))"

subsection \<open>Recordings\<close>

definition get_recording :: "database \<Rightarrow> int \<Rightarrow> db_recording option" where
  "get_recording d i = find (\<lambda>r. dr_id r = i) (t_recordings d)"

text \<open>The two statements of \<open>start_recording\<close>: another method may run at the await between them.\<close>

definition recording_open :: "database \<Rightarrow> bool" where
  "recording_open d = list_ex (\<lambda>r. dr_status r = ''recording'') (t_recordings d)"

definition insert_recording :: "string \<Rightarrow> string \<Rightarrow> string list \<Rightarrow> string \<Rightarrow> database \<Rightarrow> database \<times> int" where
  "insert_recording robot name channels now d =
     (let i = t_recording_seq d + 1
      in (d\<lparr>t_recordings := t_recordings d @ [\<lparr>dr_id = i, dr_robot = robot, dr_name = name,
              dr_channels = channels, dr_started_at = now, dr_ended_at = None, dr_status = ''recording'',
              dr_sample_count = 0\<rparr>], t_recording_seq := i\<rparr>, i))"

definition start_recording ::
  "string \<Rightarrow> string \<Rightarrow> string list \<Rightarrow> string \<Rightarrow> database \<Rightarrow> database \<times> db_recording option" where
  "start_recording robot name channels now d =
     (if recording_open d then (d, None)
      else case insert_recording robot name channels now d of (d', i) \<Rightarrow> (d', get_recording d' i))"

definition stop_recording :: "int \<Rightarrow> string \<Rightarrow> database \<Rightarrow> database \<times> bool" where
  "stop_recording i now d =
     (let p = \<lambda>r. dr_id r = i \<and> dr_status r = ''recording''
      in (d\<lparr>t_recordings := update_where p (\<lambda>r. r\<lparr>dr_status := ''done'', dr_ended_at := Some now\<rparr>)
             (t_recordings d)\<rparr>, list_ex p (t_recordings d)))"

definition add_recording_sample :: "int \<Rightarrow> string \<Rightarrow> string \<Rightarrow> string \<Rightarrow> database \<Rightarrow> database" where
  "add_recording_sample i ts kind data d =
     d\<lparr>t_samples := t_samples d @ [\<lparr>ds_id = t_sample_seq d + 1, ds_recording = i, ds_ts = ts, ds_kind = kind,
          ds_data = data\<rparr>],
       t_sample_seq := t_sample_seq d + 1,
       t_recordings := update_where (\<lambda>r. dr_id r = i) (\<lambda>r. r\<lparr>dr_sample_count := dr_sample_count r + 1\<rparr>)
         (t_recordings d)\<rparr>"

definition list_recordings :: "int \<Rightarrow> database \<Rightarrow> db_recording list" where
  "list_recordings n d = sql_limit n (rev (t_recordings d))"

text \<open>An absent or empty list of kinds is no filter.\<close>

definition of_recording :: "int \<Rightarrow> string list option \<Rightarrow> db_sample \<Rightarrow> bool" where
  "of_recording i kinds s = (ds_recording s = i \<and> (case kinds of None \<Rightarrow> True | Some ks \<Rightarrow> ks = [] \<or> ds_kind s \<in> set ks))"

definition get_recording_samples :: "database \<Rightarrow> int \<Rightarrow> string list option \<Rightarrow> int \<Rightarrow> int \<Rightarrow> db_sample list" where
  "get_recording_samples d i kinds after n =
     sql_limit n (filter (\<lambda>s. of_recording i kinds s \<and> after < ds_id s) (t_samples d))"

lemma set_sql_limit: "set (sql_limit n xs) \<subseteq> set xs"
  by (auto simp: sql_limit_def dest: in_set_takeD)

function iter_pages :: "database \<Rightarrow> int \<Rightarrow> string list option \<Rightarrow> int \<Rightarrow> int \<Rightarrow> db_sample list" where
  "iter_pages d i kinds page after =
     (let rows = get_recording_samples d i kinds after page
      in if rows = [] then []
         else rows @ (if int (length rows) < page then [] else iter_pages d i kinds page (ds_id (last rows))))"
  by pat_completeness auto

termination
proof (relation "measure (\<lambda>(d, i, kinds, page, after). length (filter (\<lambda>s. after < ds_id s) (t_samples d)))", simp)
  fix d i kinds page after rows
  assume rows: "rows = get_recording_samples d i kinds after page" and "rows \<noteq> []"
  then have "last rows \<in> set (get_recording_samples d i kinds after page)" by simp
  then have "last rows \<in> set (filter (\<lambda>s. of_recording i kinds s \<and> after < ds_id s) (t_samples d))"
    unfolding get_recording_samples_def by (rule subsetD [OF set_sql_limit])
  then have l: "last rows \<in> set (t_samples d)" "after < ds_id (last rows)" by simp_all
  have "length (filter (\<lambda>s. ds_id (last rows) < ds_id s) (t_samples d))
      < length (filter (\<lambda>s. after < ds_id s) (t_samples d))"
  proof -
    have "filter (\<lambda>s. ds_id (last rows) < ds_id s) (t_samples d)
        = filter (\<lambda>s. ds_id (last rows) < ds_id s) (filter (\<lambda>s. after < ds_id s) (t_samples d))"
      unfolding filter_filter by (rule filter_cong [OF refl]) (use l(2) in linarith)
    also have "length \<dots> < length (filter (\<lambda>s. after < ds_id s) (t_samples d))"
      by (rule length_filter_less [of "last rows"]) (use l in simp_all)
    finally show ?thesis .
  qed
  then show "((d, i, kinds, page, ds_id (last rows)), d, i, kinds, page, after)
      \<in> measure (\<lambda>(d, i, kinds, page, after). length (filter (\<lambda>s. after < ds_id s) (t_samples d)))" by simp
qed

declare iter_pages.simps [simp del]

definition SAMPLE_PAGE :: int where "SAMPLE_PAGE = 2000"

definition iter_recording_samples :: "database \<Rightarrow> int \<Rightarrow> string list option \<Rightarrow> int \<Rightarrow> db_sample list" where
  "iter_recording_samples d i kinds page = iter_pages d i kinds page 0"

definition count_recording_samples :: "database \<Rightarrow> int \<Rightarrow> string list option \<Rightarrow> int" where
  "count_recording_samples d i kinds = int (length (filter (of_recording i kinds) (t_samples d)))"

definition recording_sample_kinds :: "database \<Rightarrow> int \<Rightarrow> string list" where
  "recording_sample_kinds d i =
     order_by text_le (remdups (map ds_kind (filter (of_recording i None) (t_samples d))))"

definition first_sample_ts :: "database \<Rightarrow> int \<Rightarrow> string option" where
  "first_sample_ts d i =
     (case order_by text_le (map ds_ts (filter (of_recording i None) (t_samples d))) of
        [] \<Rightarrow> None | t # ts \<Rightarrow> Some t)"

definition delete_recording :: "int \<Rightarrow> database \<Rightarrow> database \<times> bool" where
  "delete_recording i d =
     (d\<lparr>t_samples := filter (\<lambda>s. ds_recording s \<noteq> i) (t_samples d),
        t_recordings := filter (\<lambda>r. dr_id r \<noteq> i) (t_recordings d)\<rparr>,
      list_ex (\<lambda>r. dr_id r = i) (t_recordings d))"

subsection \<open>Command audit\<close>

text \<open>Who sent a command, from where and in which session of the robot.\<close>

record db_sender =
  sn_user_id :: "int option"
  sn_username :: "string option"
  sn_source_ip :: "string option"
  sn_generation :: "int option"

definition command_known :: "database \<Rightarrow> string \<Rightarrow> bool" where
  "command_known d cid = list_ex (\<lambda>r. dc_command_id r = cid) (t_commands d)"

text \<open>\<open>INSERT OR IGNORE\<close>: a command id that has a row keeps it.\<close>

definition insert_command :: "db_command \<Rightarrow> database \<Rightarrow> database" where
  "insert_command r d = (if command_known d (dc_command_id r) then d else d\<lparr>t_commands := t_commands d @ [r]\<rparr>)"

definition add_command_audit ::
  "(pyval \<Rightarrow> string) \<Rightarrow> string \<Rightarrow> string \<Rightarrow> string \<Rightarrow> pyval \<Rightarrow> db_sender \<Rightarrow> string \<Rightarrow> database \<Rightarrow> database" where
  "add_command_audit dumps robot cid command goal who now =
     insert_command \<lparr>dc_robot = robot, dc_command_id = cid, dc_command = command,
       dc_goal = (if py_truth goal then Some (dumps goal) else None), dc_requested_at = now, dc_outcome = None,
       dc_detail = None, dc_completed_at = None, dc_user_id = sn_user_id who, dc_username = sn_username who,
       dc_source_ip = sn_source_ip who, dc_generation = sn_generation who, dc_rejection = None\<rparr>"

definition add_command_rejection ::
  "string \<Rightarrow> string \<Rightarrow> string \<Rightarrow> string \<Rightarrow> db_sender \<Rightarrow> string \<Rightarrow> database \<Rightarrow> database" where
  "add_command_rejection robot cid command reason who now =
     insert_command \<lparr>dc_robot = robot, dc_command_id = cid, dc_command = command, dc_goal = None,
       dc_requested_at = now, dc_outcome = Some ''rejected'', dc_detail = Some reason,
       dc_completed_at = Some now, dc_user_id = sn_user_id who, dc_username = sn_username who,
       dc_source_ip = sn_source_ip who, dc_generation = sn_generation who, dc_rejection = Some reason\<rparr>"

definition complete_command_audit :: "string \<Rightarrow> string \<Rightarrow> string \<Rightarrow> string \<Rightarrow> database \<Rightarrow> database" where
  "complete_command_audit cid outcome detail now d =
     d\<lparr>t_commands := update_where (\<lambda>r. dc_command_id r = cid)
         (\<lambda>r. r\<lparr>dc_outcome := Some outcome, dc_detail := Some detail, dc_completed_at := Some now\<rparr>) (t_commands d)\<rparr>"

definition get_command_audit :: "int \<Rightarrow> database \<Rightarrow> db_command list" where
  "get_command_audit n d = sql_limit n (rev (t_commands d))"

subsection \<open>Layouts\<close>

text \<open>Presets belong to user 0, whom nobody signs in as. A user's own layout comes before a preset.\<close>

definition layout_before :: "db_layout \<Rightarrow> db_layout \<Rightarrow> bool" where
  "layout_before a b =
     (if dl_preset a \<noteq> dl_preset b then dl_preset a else text_le (dl_name a) (dl_name b))"

definition get_layouts :: "int \<Rightarrow> database \<Rightarrow> db_layout list" where
  "get_layouts user d = order_by layout_before (filter (\<lambda>r. dl_user r = user \<or> dl_user r = 0) (t_layouts d))"

definition own_before_preset :: "db_layout \<Rightarrow> db_layout \<Rightarrow> bool" where
  "own_before_preset a b = (dl_user a = 0 \<longrightarrow> dl_user b = 0)"

definition get_layout :: "int \<Rightarrow> string \<Rightarrow> database \<Rightarrow> db_layout option" where
  "get_layout user name d =
     (case sql_limit 1 (order_by own_before_preset
             (filter (\<lambda>r. dl_name r = name \<and> (dl_user r = user \<or> dl_user r = 0)) (t_layouts d))) of
        [] \<Rightarrow> None | r # rs \<Rightarrow> Some r)"

text \<open>The row as the browser gets it: its name, whether it is a preset, the decoded layout and its age.\<close>

definition layout_view :: "(string \<Rightarrow> pyval option) \<Rightarrow> db_layout \<Rightarrow> pyval option" where
  "layout_view loads r =
     (case loads (dl_json r) of None \<Rightarrow> None
      | Some v \<Rightarrow> Some (VDict [(''name'', VStr (dl_name r)), (''is_preset'', VBool (dl_preset r)),
                              (''layout'', v), (''updated_at'', VStr (dl_updated r))]))"

definition save_layout :: "(pyval \<Rightarrow> string) \<Rightarrow> int \<Rightarrow> string \<Rightarrow> pyval \<Rightarrow> string \<Rightarrow> database \<Rightarrow> database" where
  "save_layout dumps user name layout now d =
     (let p = \<lambda>r. dl_user r = user \<and> dl_name r = name
      in if list_ex p (t_layouts d)
         then d\<lparr>t_layouts := update_where p (\<lambda>r. r\<lparr>dl_json := dumps layout, dl_updated := now\<rparr>) (t_layouts d)\<rparr>
         else d\<lparr>t_layouts := t_layouts d @ [\<lparr>dl_user = user, dl_name = name, dl_preset = False,
                  dl_json = dumps layout, dl_updated = now\<rparr>]\<rparr>)"

definition delete_layout :: "int \<Rightarrow> string \<Rightarrow> database \<Rightarrow> database \<times> bool" where
  "delete_layout user name d =
     (let p = \<lambda>r. dl_user r = user \<and> dl_name r = name \<and> \<not> dl_preset r
      in (d\<lparr>t_layouts := filter (\<lambda>r. \<not> p r) (t_layouts d)\<rparr>, list_ex p (t_layouts d)))"

subsection \<open>Last known pose\<close>

definition save_last_pose :: "(pyval \<Rightarrow> string) \<Rightarrow> string \<Rightarrow> pyval \<Rightarrow> database \<Rightarrow> database" where
  "save_last_pose dumps robot pose d = d\<lparr>t_poses := dset (t_poses d) robot (dumps pose)\<rparr>"

text \<open>\<open>None\<close> for a robot without a row; \<open>Some None\<close> where \<open>json.loads\<close> raises.\<close>

definition get_last_pose :: "(string \<Rightarrow> pyval option) \<Rightarrow> string \<Rightarrow> database \<Rightarrow> pyval option option" where
  "get_last_pose loads robot d =
     (case dget (t_poses d) robot of None \<Rightarrow> None | Some t \<Rightarrow> Some (loads t))"

subsection \<open>Presets and start\<close>

definition tile :: "string \<Rightarrow> int \<Rightarrow> int \<Rightarrow> int \<Rightarrow> int \<Rightarrow> pyval" where
  "tile i x y w h = VDict [(''i'', VStr i), (''x'', VInt x), (''y'', VInt y), (''w'', VInt w), (''h'', VInt h)]"

definition preset :: "string list \<Rightarrow> pyval list \<Rightarrow> pyval" where
  "preset widgets tiles = VDict [(''widgets'', VList (map VStr widgets)), (''layouts'', VDict [(''lg'', VList tiles)])]"

definition PRESET_LAYOUTS :: "(string \<times> pyval) list" where
  "PRESET_LAYOUTS =
     [(''Operator'', preset [''robotStatus'', ''navControls'', ''liveMap'', ''battery'', ''alerts'']
        [tile ''robotStatus'' 0 0 3 9, tile ''navControls'' 0 9 3 10, tile ''liveMap'' 3 0 6 22,
         tile ''battery'' 9 0 3 12, tile ''alerts'' 9 12 3 10]),
      (''Research'', preset [''liveMap'', ''robotStatus'', ''battery'', ''piStats'', ''alerts'', ''recordings'']
        [tile ''liveMap'' 0 0 7 21, tile ''robotStatus'' 7 0 5 9, tile ''battery'' 7 9 5 12,
         tile ''piStats'' 0 21 4 12, tile ''recordings'' 4 21 4 12, tile ''alerts'' 8 21 4 12]),
      (''Diagnostics'', preset [''systemHealth'', ''alerts'', ''piStats'', ''robotStatus'', ''battery'', ''liveMap'', ''bumpers'']
        [tile ''systemHealth'' 0 0 4 13, tile ''alerts'' 4 0 4 13, tile ''piStats'' 8 0 4 10,
         tile ''robotStatus'' 8 10 4 9, tile ''battery'' 0 13 3 13, tile ''bumpers'' 3 13 3 13,
         tile ''liveMap'' 6 19 6 12])]"

definition put_preset :: "(pyval \<Rightarrow> string) \<Rightarrow> string \<Rightarrow> string \<times> pyval \<Rightarrow> database \<Rightarrow> database" where
  "put_preset dumps now nl d =
     (let p = \<lambda>r. dl_user r = 0 \<and> dl_name r = fst nl
      in if list_ex p (t_layouts d)
         then d\<lparr>t_layouts := update_where p (\<lambda>r. r\<lparr>dl_json := dumps (snd nl)\<rparr>) (t_layouts d)\<rparr>
         else d\<lparr>t_layouts := t_layouts d @ [\<lparr>dl_user = 0, dl_name = fst nl, dl_preset = True,
                  dl_json = dumps (snd nl), dl_updated = now\<rparr>]\<rparr>)"

text \<open>\<open>init\<close> on tables of the present schema.\<close>

definition init_database :: "(pyval \<Rightarrow> string) \<Rightarrow> string \<Rightarrow> database \<Rightarrow> database" where
  "init_database dumps now d =
     (let d1 = (if list_ex (\<lambda>r. du_id r = 1 \<or> du_username r = ''local'') (t_users d) then d
                else d\<lparr>t_users := t_users d @ [\<lparr>du_id = 1, du_username = ''local'',
                         du_display_name = ''Local Operator'', du_help_seen = 0\<rparr>]\<rparr>)
      in fold (put_preset dumps now) PRESET_LAYOUTS d1)"

text \<open>
  The migration of the events table: its rows are copied into a table keyed by robot and id, whose
  insert raises on a repeated key, and the copy replaces the original only when nothing raised and the
  counts agree. The insert stops at the first repeated key; the rollback leaves the original rows.
\<close>

fun insert_keyed :: "db_event list \<Rightarrow> db_event list \<Rightarrow> db_event list option" where
  "insert_keyed done_rows [] = Some done_rows"
| "insert_keyed done_rows (r # rs) =
     (if list_ex (\<lambda>q. de_robot q = de_robot r \<and> de_id q = de_id r) done_rows then None
      else insert_keyed (done_rows @ [r]) rs)"

definition migrate_events_primary_key :: "database \<Rightarrow> database" where
  "migrate_events_primary_key d =
     (case insert_keyed [] (t_events d) of
        None \<Rightarrow> d
      | Some rows \<Rightarrow> if length rows \<noteq> length (t_events d) then d else d\<lparr>t_events := rows\<rparr>)"

subsection \<open>Runs\<close>

datatype db_op =
    Get_or_create_user string string
  | Mark_help_guide_seen int int
  | Add_event db_event
  | Add_battery db_battery
  | Start_recording string string "string list"
  | Stop_recording int
  | Add_sample int string string string
  | Delete_recording int
  | Add_audit string string string pyval db_sender
  | Add_rejection string string string string db_sender
  | Complete_audit string string string
  | Save_layout int string pyval
  | Delete_layout int string
  | Save_pose string pyval
  | Init_again

text \<open>What SQLite and the JSON library supply: the time, the time a week ago, the order of events, the text.\<close>

record db_env =
  dx_now :: string
  dx_week_ago :: string
  dx_order :: "db_event list \<Rightarrow> db_event list"
  dx_dumps :: "pyval \<Rightarrow> string"

fun db_apply :: "db_env \<Rightarrow> db_op \<Rightarrow> database \<Rightarrow> database" where
  "db_apply e (Get_or_create_user u n) d = fst (get_or_create_user u n d)"
| "db_apply e (Mark_help_guide_seen u v) d = fst (mark_help_guide_seen u v d)"
| "db_apply e (Add_event ev) d = db_add_event (dx_order e) ev d"
| "db_apply e (Add_battery r) d = add_battery_sample (dx_week_ago e) r d"
| "db_apply e (Start_recording r n c) d = fst (start_recording r n c (dx_now e) d)"
| "db_apply e (Stop_recording i) d = fst (stop_recording i (dx_now e) d)"
| "db_apply e (Add_sample i ts k x) d = add_recording_sample i ts k x d"
| "db_apply e (Delete_recording i) d = fst (delete_recording i d)"
| "db_apply e (Add_audit r c x g w) d = add_command_audit (dx_dumps e) r c x g w (dx_now e) d"
| "db_apply e (Add_rejection r c x y w) d = add_command_rejection r c x y w (dx_now e) d"
| "db_apply e (Complete_audit c x y) d = complete_command_audit c x y (dx_now e) d"
| "db_apply e (Save_layout u n l) d = save_layout (dx_dumps e) u n l (dx_now e) d"
| "db_apply e (Delete_layout u n) d = fst (delete_layout u n d)"
| "db_apply e (Save_pose r p) d = save_last_pose (dx_dumps e) r p d"
| "db_apply e Init_again d = migrate_events_primary_key (init_database (dx_dumps e) (dx_now e) d)"

text \<open>A run: each operation with what the outside supplied at the time.\<close>

definition db_run :: "(db_env \<times> db_op) list \<Rightarrow> database \<Rightarrow> database" where
  "db_run ops d = fold (\<lambda>(e, p). db_apply e p) ops d"

end
