(* ===== verification/Database_Run.thy ===== *)
theory Database_Run
  imports Database "HOL-Library.Multiset" "HOL-Library.Sublist"
begin

text \<open>
  What the tables hold after any sequence of calls: their keys, the exact sample counts, an audit log
  that only grows, a walk over a recording that returns each of its samples once, layouts nobody else
  can change, and the retention of events. At the end, three things the statements do not do.
\<close>

subsection \<open>Lists of rows\<close>

lemma set_update_where: "set (update_where p f rows) = (\<lambda>r. if p r then f r else r) ` set rows"
  by (simp add: update_where_def)

lemma in_update_where: "x \<in> set rows \<Longrightarrow> p x \<Longrightarrow> f x \<in> set (update_where p f rows)"
  by (force simp: update_where_def)

lemma ball_update_where [simp]:
  "(\<And>r. p r \<Longrightarrow> q (f r) = q r) \<Longrightarrow> (\<forall>r\<in>set (update_where p f rows). q r) = (\<forall>r\<in>set rows. q r)"
  by (induction rows) (auto simp: update_where_def)

lemma length_update_where [simp]: "length (update_where p f rows) = length rows"
  by (simp add: update_where_def)

lemma map_update_where [simp]: "(\<And>r. k (f r) = k r) \<Longrightarrow> map k (update_where p f rows) = map k rows"
  by (simp add: update_where_def)

lemma filter_update_where:
  assumes "\<And>r. q (f r) = q r" shows "filter q (update_where p f rows) = update_where p f (filter q rows)"
  using assms by (induction rows) (simp_all add: update_where_def)

lemma update_where_none: "(\<And>r. r \<in> set rows \<Longrightarrow> \<not> p r) \<Longrightarrow> update_where p f rows = rows"
  by (induction rows) (simp_all add: update_where_def)

lemma sql_max_le: "i \<in> set is \<Longrightarrow> i \<le> default 0 (sql_max is)"
proof -
  have "i \<in> insert m (set js) \<Longrightarrow> i \<le> foldr max js m" for m js
    by (induction js) (auto simp: le_max_iff_disj)
  then show "i \<in> set is \<Longrightarrow> ?thesis" by (cases "is") (auto simp: default_def)
qed

lemma sorted_map_filter: "sorted_wrt (<) (map k rows) \<Longrightarrow> sorted_wrt (<) (map k (filter p rows))"
  for k :: "'a \<Rightarrow> int"
  by (induction rows) auto

lemma filter_swap: "filter p (filter q xs) = filter q (filter p xs)"
  by (induction xs) auto

lemma distinct_map_filter_snoc:
  "distinct (map k rows) \<Longrightarrow> distinct (map k (filter (\<lambda>r. k r \<noteq> k x) rows @ [x]))"
  by (auto simp: distinct_map_filter)

lemma length_filter_in_take:
  assumes "distinct rows" "mset (order rows) = mset rows"
  shows "length (filter (\<lambda>r. r \<in> set (take n (order rows))) rows) \<le> n"
proof -
  have "set (filter (\<lambda>r. r \<in> set (take n (order rows))) rows) \<subseteq> set (take n (order rows))" by auto
  then have "card (set (filter (\<lambda>r. r \<in> set (take n (order rows))) rows)) \<le> card (set (take n (order rows)))"
    by (intro card_mono) simp_all
  also have "\<dots> \<le> n" using card_length [of "take n (order rows)"] by simp
  finally show ?thesis using distinct_card [of "filter (\<lambda>r. r \<in> set (take n (order rows))) rows"] assms(1) by simp
qed

subsection \<open>The calls the server makes\<close>

text \<open>
  A layout belongs to a signed-in user, whose id is positive; a sample to a recording that was once
  started; the order of events is an order by descending id.
\<close>

definition newest_first :: "(db_event list \<Rightarrow> db_event list) \<Rightarrow> bool" where
  "newest_first order = (\<forall>rows. mset (order rows) = mset rows \<and> sorted_wrt (\<lambda>a b. de_id b \<le> de_id a) (order rows))"

fun db_call :: "db_op \<Rightarrow> database \<Rightarrow> bool" where
  "db_call (Save_layout u n l) d = (1 \<le> u)"
| "db_call (Delete_layout u n) d = (1 \<le> u)"
| "db_call (Add_sample i ts k x) d = (i \<le> t_recording_seq d)"
| "db_call p d = True"

inductive db_reach :: "database \<Rightarrow> bool" where
  db_start: "db_reach (init_database dumps now empty_database)"
| db_next: "db_reach d \<Longrightarrow> newest_first (dx_order e) \<Longrightarrow> db_call p d \<Longrightarrow> db_reach (db_apply e p d)"

subsection \<open>Keys and counts\<close>

definition keys_ok :: "database \<Rightarrow> bool" where
  "keys_ok d =
     (distinct (map du_username (t_users d)) \<and> distinct (map du_id (t_users d)) \<and> (\<forall>r\<in>set (t_users d). 1 \<le> du_id r)
      \<and> distinct (map (\<lambda>r. (dl_user r, dl_name r)) (t_layouts d))
      \<and> (\<forall>r\<in>set (t_layouts d). 0 \<le> dl_user r \<and> (dl_user r = 0) = dl_preset r)
      \<and> distinct (map (\<lambda>r. (de_robot r, de_id r)) (t_events d)) \<and> length (t_events d) \<le> EVENTS_KEPT
      \<and> distinct (map dc_command_id (t_commands d)))"

definition open_recordings :: "database \<Rightarrow> db_recording list" where
  "open_recordings d = filter (\<lambda>r. dr_status r = ''recording'') (t_recordings d)"

definition recordings_ok :: "database \<Rightarrow> bool" where
  "recordings_ok d =
     (sorted_wrt (<) (map dr_id (t_recordings d)) \<and> (\<forall>r\<in>set (t_recordings d). dr_id r \<le> t_recording_seq d)
      \<and> sorted_wrt (<) (map ds_id (t_samples d)) \<and> 0 \<le> t_sample_seq d
      \<and> (\<forall>s\<in>set (t_samples d). 1 \<le> ds_id s \<and> ds_id s \<le> t_sample_seq d \<and> ds_recording s \<le> t_recording_seq d)
      \<and> length (open_recordings d) \<le> 1
      \<and> (\<forall>r\<in>set (t_recordings d). dr_sample_count r
            = int (length (filter (\<lambda>s. ds_recording s = dr_id r) (t_samples d)))))"

lemma keys_ok_presets:
  assumes "keys_ok d" shows "keys_ok (put_preset dumps now nl d)"
proof (cases "list_ex (\<lambda>r. dl_user r = 0 \<and> dl_name r = fst nl) (t_layouts d)")
  case True
  with assms show ?thesis by (simp add: put_preset_def Let_def keys_ok_def)
next
  case False
  with assms show ?thesis by (auto simp: put_preset_def Let_def keys_ok_def list_ex_iff)
qed

lemma recordings_ok_other:
  "t_recordings d' = t_recordings d \<Longrightarrow> t_recording_seq d' = t_recording_seq d \<Longrightarrow> t_samples d' = t_samples d
   \<Longrightarrow> t_sample_seq d' = t_sample_seq d \<Longrightarrow> recordings_ok d' = recordings_ok d"
  by (simp add: recordings_ok_def open_recordings_def)

lemma put_preset_frame [simp]:
  "t_recordings (put_preset dumps now nl d) = t_recordings d" "t_recording_seq (put_preset dumps now nl d) = t_recording_seq d"
  "t_samples (put_preset dumps now nl d) = t_samples d" "t_sample_seq (put_preset dumps now nl d) = t_sample_seq d"
  "t_commands (put_preset dumps now nl d) = t_commands d" "t_events (put_preset dumps now nl d) = t_events d"
  by (simp_all add: put_preset_def Let_def)

lemma fold_preset_frame [simp]:
  "t_recordings (fold (put_preset dumps now) ps d) = t_recordings d"
  "t_recording_seq (fold (put_preset dumps now) ps d) = t_recording_seq d"
  "t_samples (fold (put_preset dumps now) ps d) = t_samples d"
  "t_sample_seq (fold (put_preset dumps now) ps d) = t_sample_seq d"
  "t_commands (fold (put_preset dumps now) ps d) = t_commands d"
  "t_events (fold (put_preset dumps now) ps d) = t_events d"
  by (induction ps arbitrary: d) simp_all

lemma init_frame [simp]:
  "t_recordings (init_database dumps now d) = t_recordings d"
  "t_recording_seq (init_database dumps now d) = t_recording_seq d"
  "t_samples (init_database dumps now d) = t_samples d"
  "t_sample_seq (init_database dumps now d) = t_sample_seq d"
  "t_commands (init_database dumps now d) = t_commands d" "t_events (init_database dumps now d) = t_events d"
  by (simp_all add: init_database_def Let_def)

lemma keys_ok_init: assumes "keys_ok d" shows "keys_ok (init_database dumps now d)"
proof -
  have presets: "keys_ok (fold (put_preset dumps now) ps d')" if "keys_ok d'" for ps d'
    using that by (induction ps arbitrary: d') (simp_all add: keys_ok_presets)
  have user: "keys_ok (d\<lparr>t_users := t_users d @ [\<lparr>du_id = 1, du_username = u, du_display_name = n, du_help_seen = 0\<rparr>]\<rparr>)"
    if "\<forall>r\<in>set (t_users d). du_id r \<noteq> 1 \<and> du_username r \<noteq> u" for u n
  proof -
    from that have "u \<notin> du_username ` set (t_users d)" "1 \<notin> du_id ` set (t_users d)" by auto
    with assms show ?thesis by (simp add: keys_ok_def)
  qed
  show ?thesis unfolding init_database_def Let_def
    by (rule presets) (use assms user in \<open>simp add: list_ex_iff\<close>)
qed

text \<open>Rows with distinct keys copy as they are, so a second migration changes nothing.\<close>

lemma insert_keyed_Some: "insert_keyed acc rows = Some rows' \<Longrightarrow> rows' = acc @ rows"
  by (induction acc rows rule: insert_keyed.induct) (auto split: if_splits)

lemma migrate_id [simp]: "migrate_events_primary_key d = d"
  by (auto simp: migrate_events_primary_key_def split: option.split dest: insert_keyed_Some)

lemma keys_ok_frame [simp]:
  "keys_ok (t_battery_update f1 d) = keys_ok d" "keys_ok (t_recordings_update f2 d) = keys_ok d"
  "keys_ok (t_recording_seq_update f3 d) = keys_ok d" "keys_ok (t_samples_update f4 d) = keys_ok d"
  "keys_ok (t_sample_seq_update f3 d) = keys_ok d" "keys_ok (t_poses_update f5 d) = keys_ok d"
  by (simp_all add: keys_ok_def)

lemma user_id_fresh:
  assumes "keys_ok d" shows "1 \<le> next_user_id d" "next_user_id d \<notin> du_id ` set (t_users d)"
proof -
  have le: "du_id r \<le> default 0 (sql_max (map du_id (t_users d)))" if "r \<in> set (t_users d)" for r
    using that by (intro sql_max_le) simp
  then show "next_user_id d \<notin> du_id ` set (t_users d)" by (fastforce simp: next_user_id_def)
  show "1 \<le> next_user_id d"
  proof (cases "t_users d")
    case Nil then show ?thesis by (simp add: next_user_id_def default_def)
  next
    case (Cons r rs)
    then have "1 \<le> du_id r" using assms by (simp add: keys_ok_def)
    with le [of r] Cons show ?thesis by (simp add: next_user_id_def)
  qed
qed

lemma keys_ok_user:
  assumes "keys_ok d" shows "keys_ok (fst (get_or_create_user u n d))"
proof (cases "find (\<lambda>r. du_username r = u) (t_users d)")
  case None
  then have "u \<notin> du_username ` set (t_users d)" by (auto simp: find_None_iff)
  with None assms user_id_fresh [OF assms] show ?thesis
    unfolding get_or_create_user_def keys_ok_def by simp
next
  case (Some r)
  with assms show ?thesis by (simp add: get_or_create_user_def keys_ok_def)
qed

lemma keys_ok_event:
  assumes "keys_ok d" "newest_first order" shows "keys_ok (db_add_event order e d)"
proof -
  let ?rows = "filter (\<lambda>r. \<not> (de_robot r = de_robot e \<and> de_id r = de_id e)) (t_events d) @ [e]"
  have keys: "distinct (map (\<lambda>r. (de_robot r, de_id r)) ?rows)"
    using assms(1) distinct_map_filter_snoc [of "\<lambda>r. (de_robot r, de_id r)" "t_events d" e] by (simp add: keys_ok_def)
  then have rows: "distinct ?rows" by (simp only: distinct_map)
  have "length (filter (\<lambda>r. r \<in> set (take EVENTS_KEPT (order ?rows))) ?rows) \<le> EVENTS_KEPT"
    by (rule length_filter_in_take [OF rows]) (use assms(2) in \<open>simp add: newest_first_def\<close>)
  moreover have "distinct (map (\<lambda>r. (de_robot r, de_id r)) (filter p ?rows))" for p
    using keys by (rule distinct_map_filter)
  ultimately obtain E where "db_add_event order e d = d\<lparr>t_events := E\<rparr>" "length E \<le> EVENTS_KEPT"
    "distinct (map (\<lambda>r. (de_robot r, de_id r)) E)"
    unfolding db_add_event_def Let_def by blast
  then show ?thesis using assms(1) by (simp add: keys_ok_def)
qed

lemma keys_ok_command:
  assumes "keys_ok d" shows "keys_ok (insert_command r d)"
  using assms by (auto simp: insert_command_def command_known_def keys_ok_def list_ex_iff)

lemma keys_ok_layout:
  assumes "keys_ok d" "1 \<le> u" shows "keys_ok (save_layout dumps u n l now d)"
proof (cases "list_ex (\<lambda>r. dl_user r = u \<and> dl_name r = n) (t_layouts d)")
  case True
  with assms show ?thesis by (simp add: save_layout_def Let_def keys_ok_def)
next
  case False
  with assms show ?thesis by (auto simp: save_layout_def Let_def keys_ok_def list_ex_iff)
qed

lemma keys_ok_apply:
  assumes "keys_ok d" "newest_first (dx_order e)" "db_call p d" shows "keys_ok (db_apply e p d)"
proof (cases p)
  case (Mark_help_guide_seen u v)
  then show ?thesis using assms(1)
    by (simp add: mark_help_guide_seen_def Let_def keys_ok_def)
next
  case (Start_recording r n c)
  then show ?thesis using assms(1)
    by (simp add: start_recording_def insert_recording_def Let_def)
next
  case (Complete_audit c x y)
  then show ?thesis using assms(1) by (simp add: complete_command_audit_def keys_ok_def)
next
  case (Delete_layout u n)
  then show ?thesis using assms(1) by (simp add: delete_layout_def Let_def keys_ok_def distinct_map_filter)
qed (use assms in \<open>simp_all add: keys_ok_user keys_ok_event keys_ok_command keys_ok_layout keys_ok_init
      add_command_audit_def add_command_rejection_def add_battery_sample_def stop_recording_def Let_def
      add_recording_sample_def delete_recording_def save_last_pose_def\<close>)

lemma recordings_ok_start:
  assumes "recordings_ok d" shows "recordings_ok (fst (start_recording r n c now d))"
proof (cases "recording_open d")
  case False
  then have closed: "open_recordings d = []" by (simp add: recording_open_def open_recordings_def list_ex_iff filter_empty_conv)
  let ?i = "t_recording_seq d + 1"
  have none: "filter (\<lambda>s. ds_recording s = ?i) (t_samples d) = []"
    using assms by (fastforce simp: recordings_ok_def filter_empty_conv)
  have "sorted_wrt (<) (map dr_id (t_recordings d) @ [?i])" "\<forall>r\<in>set (t_recordings d). dr_id r \<le> ?i"
    "\<forall>s\<in>set (t_samples d). ds_recording s \<le> ?i"
    using assms by (fastforce simp: recordings_ok_def sorted_wrt_append)+
  with False closed none assms show ?thesis
    by (simp add: start_recording_def insert_recording_def Let_def recordings_ok_def open_recordings_def)
qed (use assms in \<open>simp add: start_recording_def\<close>)

lemma length_filter_update_where:
  assumes "\<And>r. \<not> q (f r)" shows "length (filter q (update_where p f rows)) \<le> length (filter q rows)"
  using assms by (induction rows) (auto simp: update_where_def)

lemma recordings_ok_stop:
  assumes "recordings_ok d" shows "recordings_ok (fst (stop_recording i now d))"
proof -
  have "length (open_recordings (fst (stop_recording i now d))) \<le> length (open_recordings d)"
    unfolding open_recordings_def stop_recording_def Let_def by (simp add: length_filter_update_where)
  with assms show ?thesis by (simp add: recordings_ok_def stop_recording_def Let_def)
qed

lemma recordings_ok_sample:
  assumes "recordings_ok d" "i \<le> t_recording_seq d" shows "recordings_ok (add_recording_sample i ts k x d)"
proof -
  let ?d = "add_recording_sample i ts k x d"
  have "sorted_wrt (<) (map ds_id (t_samples d) @ [t_sample_seq d + 1])"
    "\<forall>s\<in>set (t_samples d). ds_id s \<le> t_sample_seq d + 1"
    using assms by (fastforce simp: recordings_ok_def sorted_wrt_append)+
  moreover have "length (open_recordings ?d) \<le> 1"
    using assms by (simp add: open_recordings_def add_recording_sample_def filter_update_where recordings_ok_def)
  moreover have "dr_sample_count r = int (length (filter (\<lambda>s. ds_recording s = dr_id r) (t_samples ?d)))"
    if "r \<in> set (t_recordings ?d)" for r
  proof -
    obtain r0 where "r0 \<in> set (t_recordings d)"
      "r = (if dr_id r0 = i then r0\<lparr>dr_sample_count := dr_sample_count r0 + 1\<rparr> else r0)"
      using \<open>r \<in> _\<close> by (auto simp: add_recording_sample_def set_update_where)
    then show ?thesis using assms(1) by (auto simp: recordings_ok_def add_recording_sample_def)
  qed
  ultimately show ?thesis using assms by (simp add: recordings_ok_def add_recording_sample_def)
qed

lemma recordings_ok_delete:
  assumes "recordings_ok d" shows "recordings_ok (fst (delete_recording i d))"
proof -
  have "open_recordings (fst (delete_recording i d)) = filter (\<lambda>r. dr_id r \<noteq> i) (open_recordings d)"
    by (auto simp: open_recordings_def delete_recording_def intro!: filter_cong)
  then have "length (open_recordings (fst (delete_recording i d))) \<le> length (open_recordings d)" by simp
  moreover have "filter (\<lambda>s. ds_recording s = j) (t_samples (fst (delete_recording i d))) = filter (\<lambda>s. ds_recording s = j) (t_samples d)"
    if "j \<noteq> i" for j using that by (auto simp: delete_recording_def intro!: filter_cong)
  moreover have "sorted_wrt (<) (map ds_id (t_samples (fst (delete_recording i d))))"
    "set (t_samples (fst (delete_recording i d))) \<subseteq> set (t_samples d)"
    "sorted_wrt (<) (map dr_id (t_recordings (fst (delete_recording i d))))"
    using assms by (auto simp: delete_recording_def recordings_ok_def sorted_map_filter)
  moreover have "t_recordings (fst (delete_recording i d)) = filter (\<lambda>r. dr_id r \<noteq> i) (t_recordings d)"
    "t_recording_seq (fst (delete_recording i d)) = t_recording_seq d"
    "t_sample_seq (fst (delete_recording i d)) = t_sample_seq d" by (simp_all add: delete_recording_def)
  ultimately show ?thesis using assms unfolding recordings_ok_def by (simp add: subset_iff)
qed

lemma recordings_ok_apply:
  assumes "recordings_ok d" "db_call p d" shows "recordings_ok (db_apply e p d)"
proof (cases p)
  case (Get_or_create_user u n)
  with assms show ?thesis
    by (auto simp: get_or_create_user_def recordings_ok_def open_recordings_def split: option.split)
next
  case (Add_audit r c x g w)
  with assms show ?thesis by (simp add: add_command_audit_def insert_command_def recordings_ok_def open_recordings_def)
next
  case (Add_rejection r c x y w)
  with assms show ?thesis by (simp add: add_command_rejection_def insert_command_def recordings_ok_def open_recordings_def)
qed (use assms in \<open>simp_all add: recordings_ok_start recordings_ok_stop recordings_ok_sample recordings_ok_delete\<close>,
     use assms in \<open>simp_all add: recordings_ok_def open_recordings_def mark_help_guide_seen_def db_add_event_def
       add_battery_sample_def complete_command_audit_def save_layout_def delete_layout_def save_last_pose_def Let_def\<close>)

theorem db_reach_ok: "db_reach d \<Longrightarrow> keys_ok d \<and> recordings_ok d"
proof (induction rule: db_reach.induct)
  case (db_start dumps now)
  have "keys_ok empty_database" by (simp add: keys_ok_def empty_database_def)
  moreover have "recordings_ok (init_database dumps now empty_database)"
    by (simp add: recordings_ok_def open_recordings_def) (simp add: empty_database_def)
  ultimately show ?case by (simp add: keys_ok_init)
qed (simp add: keys_ok_apply recordings_ok_apply)

subsection \<open>A walk over a recording\<close>

lemma filter_past_last:
  fixes k :: "'a \<Rightarrow> int"
  assumes "sorted_wrt (<) (map k xs)" "take n xs \<noteq> []"
  shows "filter (\<lambda>s. k (last (take n xs)) < k s) xs = drop n xs"
proof -
  let ?m = "k (last (take n xs))"
  have split: "xs = take n xs @ drop n xs" by simp
  have sorted: "sorted_wrt (<) (map k (take n xs) @ map k (drop n xs))"
    using assms(1) by (metis map_append split)
  have front: "\<not> ?m < k s" if s: "s \<in> set (take n xs)" for s
  proof -
    obtain ys where ys: "take n xs = ys @ [last (take n xs)]"
      using append_butlast_last_id [OF assms(2)] by metis
    have "sorted_wrt (<) (map k (ys @ [last (take n xs)]))" using sorted ys by (simp add: sorted_wrt_append)
    moreover have "s \<in> set ys \<or> s = last (take n xs)" using s by (subst (asm) ys) auto
    ultimately show ?thesis by (auto simp: sorted_wrt_append)
  qed
  have behind: "?m < k s" if "s \<in> set (drop n xs)" for s
  proof -
    have "last (take n xs) \<in> set (take n xs)" using assms(2) by simp
    then show ?thesis using sorted that by (auto simp: sorted_wrt_append)
  qed
  have "filter (\<lambda>s. ?m < k s) (take n xs @ drop n xs) = drop n xs"
    unfolding filter_append using front behind by (simp add: filter_empty_conv filter_id_conv)
  then show ?thesis by simp
qed

lemma iter_pages_all:
  assumes "sorted_wrt (<) (map ds_id (t_samples d))" "page \<noteq> 0"
  shows "iter_pages d i kinds page after = filter (\<lambda>s. of_recording i kinds s \<and> after < ds_id s) (t_samples d)"
  using assms
proof (induction d i kinds page after rule: iter_pages.induct)
  case (1 d i kinds page after)
  define F where "F = filter (\<lambda>s. of_recording i kinds s \<and> after < ds_id s) (t_samples d)"
  define rows where "rows = sql_limit page F"
  have rows: "get_recording_samples d i kinds after page = rows"
    by (simp add: get_recording_samples_def F_def rows_def)
  define n where "n = (if page < 0 then length F else nat page)"
  have take: "rows = take n F" by (simp add: rows_def sql_limit_def n_def)
  show ?case
  proof (cases "rows = []")
    case True
    with take have "F = []" using 1(3) by (auto simp: n_def split: if_splits)
    with True show ?thesis by (subst iter_pages.simps) (simp add: rows F_def)
  next
    case False
    have sorted: "sorted_wrt (<) (map ds_id F)" unfolding F_def by (rule sorted_map_filter) (rule 1(2))
    have rest: "filter (\<lambda>s. of_recording i kinds s \<and> ds_id (last rows) < ds_id s) (t_samples d) = drop n F"
    proof -
      have "last rows \<in> set F" using False take by (metis in_set_takeD last_in_set)
      then have "after < ds_id (last rows)" by (simp add: F_def)
      then have "filter (\<lambda>s. of_recording i kinds s \<and> ds_id (last rows) < ds_id s) (t_samples d)
          = filter (\<lambda>s. ds_id (last rows) < ds_id s) F"
        by (auto simp: F_def filter_filter intro!: filter_cong)
      also have "\<dots> = drop n F" using filter_past_last [OF sorted, of n] False by (simp add: take)
      finally show ?thesis .
    qed
    have short: "drop n F = []" if "int (length rows) < page" using that take by (auto simp: n_def split: if_splits)
    have next_page: "iter_pages d i kinds page (ds_id (last rows)) = drop n F" if "\<not> int (length rows) < page"
      using 1(1) [OF rows [symmetric]] False that 1(2,3) rest rows by simp
    have "iter_pages d i kinds page after = rows @ drop n F"
      by (subst iter_pages.simps) (use False short next_page in \<open>simp add: rows\<close>)
    then show ?thesis by (simp add: take F_def)
  qed
qed

subsection \<open>The audit log\<close>

text \<open>What an audit row says of a command, without its outcome, detail and completion.\<close>

definition audit_core :: "db_command \<Rightarrow> string \<times> string \<times> string \<times> string option \<times> string \<times> db_sender \<times> string option" where
  "audit_core r = (dc_command_id r, dc_robot r, dc_command r, dc_goal r, dc_requested_at r,
     \<lparr>sn_user_id = dc_user_id r, sn_username = dc_username r, sn_source_ip = dc_source_ip r, sn_generation = dc_generation r\<rparr>,
     dc_rejection r)"

lemma command_known_core: "command_known d c \<longleftrightarrow> c \<in> fst ` set (map audit_core (t_commands d))"
  by (auto simp: command_known_def list_ex_iff audit_core_def image_iff)

lemma command_known_insert [simp]: "command_known (insert_command r d) (dc_command_id r)"
  by (simp add: insert_command_def command_known_def)

lemma audit_apply: "prefix (map audit_core (t_commands d)) (map audit_core (t_commands (db_apply e p d)))"
proof -
  have insert: "prefix (map audit_core (t_commands d)) (map audit_core (t_commands (insert_command r d)))" for r
    by (simp add: insert_command_def)
  show ?thesis
  proof (cases p)
    case (Get_or_create_user u n)
    then show ?thesis by (simp add: get_or_create_user_def split: option.split)
  next
    case (Complete_audit c x y)
    then show ?thesis by (simp add: complete_command_audit_def audit_core_def)
  qed (simp_all add: insert add_command_audit_def add_command_rejection_def mark_help_guide_seen_def db_add_event_def
      add_battery_sample_def start_recording_def insert_recording_def stop_recording_def add_recording_sample_def
      delete_recording_def save_layout_def delete_layout_def save_last_pose_def Let_def)
qed

lemma db_run_Cons [simp]: "db_run ((e, p) # ops) d = db_run ops (db_apply e p d)"
  by (simp add: db_run_def)

lemma audit_run: "prefix (map audit_core (t_commands d)) (map audit_core (t_commands (db_run ops d)))"
proof (induction ops arbitrary: d)
  case (Cons a ops)
  obtain e p where "a = (e, p)" by (cases a)
  with Cons [of "db_apply e p d"] audit_apply [of d e p] show ?case by (auto intro: prefix_order.trans)
qed (simp add: db_run_def)

lemma known_run: "command_known d c \<Longrightarrow> command_known (db_run ops d) c"
  using audit_run [of d ops] unfolding command_known_core by (meson image_mono set_mono_prefix subset_iff)

subsection \<open>Layouts\<close>

lemma set_insert_by [simp]: "set (insert_by le x ys) = insert x (set ys)"
  by (induction ys) auto

lemma order_by_simps: "order_by le [] = []" "order_by le (x # xs) = insert_by le x (order_by le xs)"
  by (simp_all add: order_by_def)

lemma set_order_by [simp]: "set (order_by le xs) = set xs"
  by (induction xs) (simp_all add: order_by_simps)

lemma own_comes_first:
  "\<exists>x\<in>set xs. dl_user x \<noteq> 0 \<Longrightarrow> dl_user (hd (order_by own_before_preset xs)) \<noteq> 0"
proof (induction xs)
  case (Cons x xs)
  show ?case
  proof (cases "order_by own_before_preset xs")
    case Nil
    then have "xs = []" by (metis set_empty set_order_by)
    with Cons.prems show ?thesis by (simp add: order_by_simps)
  next
    case (Cons y ys)
    then have "dl_user x = 0 \<Longrightarrow> dl_user y \<noteq> 0" using Cons.IH Cons.prems by auto
    with Cons own_before_preset_def [of x y] show ?thesis by (auto simp: order_by_simps)
  qed
qed simp

lemma get_layout_own:
  assumes "\<exists>x\<in>set (t_layouts d). dl_name x = n \<and> dl_user x = u" "u \<noteq> 0"
  shows "\<exists>r\<in>set (t_layouts d). get_layout u n d = Some r \<and> dl_name r = n \<and> dl_user r = u"
proof -
  let ?xs = "filter (\<lambda>r. dl_name r = n \<and> (dl_user r = u \<or> dl_user r = 0)) (t_layouts d)"
  have some: "\<exists>x\<in>set ?xs. dl_user x \<noteq> 0" using assms by auto
  then obtain r rs where o: "order_by own_before_preset ?xs = r # rs"
    by (cases "order_by own_before_preset ?xs") (use set_order_by [of own_before_preset ?xs] in auto)
  then have "r \<in> set ?xs" "dl_user r \<noteq> 0"
    using set_order_by [of own_before_preset ?xs] own_comes_first [OF some] by auto
  then show ?thesis using o by (auto simp: get_layout_def sql_limit_def)
qed

lemma filter_key_unique: "distinct (map k rows) \<Longrightarrow> length (filter (\<lambda>r. k r = a) rows) \<le> 1"
proof (induction rows)
  case (Cons x rows)
  show ?case
  proof (cases "k x = a")
    case True
    with Cons.prems have "filter (\<lambda>r. k r = a) rows = []" by (simp add: filter_empty_conv) (metis image_eqI)
    then show ?thesis by simp
  qed (use Cons in simp)
qed simp

lemma find_eq_filter: "find p xs = (case filter p xs of [] \<Rightarrow> None | x # ys \<Rightarrow> Some x)"
  by (induction xs) auto

lemma layout_key_unique:
  assumes "keys_ok d" shows "length (filter (\<lambda>r. dl_user r = u \<and> dl_name r = n) (t_layouts d)) \<le> 1"
  using filter_key_unique [of "\<lambda>r. (dl_user r, dl_name r)" "t_layouts d" "(u, n)"] assms by (simp add: keys_ok_def)

lemma saved_row:
  assumes "r \<in> set (t_layouts (save_layout dumps u n l now d))" "dl_user r = u" "dl_name r = n"
  shows "dl_json r = dumps l \<and> dl_updated r = now"
proof (cases "list_ex (\<lambda>r. dl_user r = u \<and> dl_name r = n) (t_layouts d)")
  case True
  then have "t_layouts (save_layout dumps u n l now d)
      = update_where (\<lambda>r. dl_user r = u \<and> dl_name r = n) (\<lambda>r. r\<lparr>dl_json := dumps l, dl_updated := now\<rparr>) (t_layouts d)"
    by (simp add: save_layout_def Let_def)
  with assms(1) have "r \<in> (\<lambda>r. if dl_user r = u \<and> dl_name r = n then r\<lparr>dl_json := dumps l, dl_updated := now\<rparr> else r) ` set (t_layouts d)"
    by (simp only: set_update_where)
  then obtain x where x: "r = (if dl_user x = u \<and> dl_name x = n then x\<lparr>dl_json := dumps l, dl_updated := now\<rparr> else x)"
    by (rule imageE)
  show ?thesis
  proof (cases "dl_user x = u \<and> dl_name x = n")
    case False with x assms(2,3) show ?thesis by simp
  qed (simp add: x)
next
  case False
  then have "r \<notin> set (t_layouts d)" using assms(2,3) by (auto simp: list_ex_iff)
  with False assms(1) show ?thesis by (simp add: save_layout_def Let_def)
qed

lemma saved_present: "\<exists>x\<in>set (t_layouts (save_layout dumps u n l now d)). dl_name x = n \<and> dl_user x = u"
proof (cases "list_ex (\<lambda>r. dl_user r = u \<and> dl_name r = n) (t_layouts d)")
  case True
  then obtain x where "x \<in> set (t_layouts d)" "dl_user x = u" "dl_name x = n" by (auto simp: list_ex_iff)
  then have "x\<lparr>dl_json := dumps l, dl_updated := now\<rparr> \<in> set (t_layouts (save_layout dumps u n l now d))"
    using True in_update_where [of x "t_layouts d" "\<lambda>r. dl_user r = u \<and> dl_name r = n" "\<lambda>r. r\<lparr>dl_json := dumps l, dl_updated := now\<rparr>"]
    by (simp add: save_layout_def Let_def)
  with \<open>dl_user x = u\<close> \<open>dl_name x = n\<close> show ?thesis by (intro bexI) simp_all
qed (simp add: save_layout_def Let_def)

lemma get_layout_preset:
  assumes "keys_ok d" "\<And>r. r \<in> set (t_layouts d) \<Longrightarrow> dl_name r = n \<Longrightarrow> dl_user r \<noteq> u \<or> u = 0"
  shows "get_layout u n d = find (\<lambda>r. dl_user r = 0 \<and> dl_name r = n) (t_layouts d)"
proof -
  have f: "filter (\<lambda>r. dl_name r = n \<and> (dl_user r = u \<or> dl_user r = 0)) (t_layouts d)
      = filter (\<lambda>r. dl_user r = 0 \<and> dl_name r = n) (t_layouts d)"
    using assms(2) by (auto intro!: filter_cong)
  consider "filter (\<lambda>r. dl_user r = 0 \<and> dl_name r = n) (t_layouts d) = []"
    | r where "filter (\<lambda>r. dl_user r = 0 \<and> dl_name r = n) (t_layouts d) = [r]"
    using layout_key_unique [OF assms(1), of 0 n] by (cases "filter (\<lambda>r. dl_user r = 0 \<and> dl_name r = n) (t_layouts d)") auto
  then show ?thesis unfolding get_layout_def f find_eq_filter
    by cases (simp_all add: order_by_simps sql_limit_def)
qed

lemma layouts_of_others:
  assumes "1 \<le> u" "v \<noteq> u"
  shows "get_layouts v (save_layout dumps u n l now d) = get_layouts v d"
    "get_layouts v (fst (delete_layout u n d)) = get_layouts v d"
proof -
  let ?q = "\<lambda>r. dl_user r = v \<or> dl_user r = 0"
  have "filter ?q (update_where (\<lambda>r. dl_user r = u \<and> dl_name r = n) f (t_layouts d)) = filter ?q (t_layouts d)"
    if "\<And>r. dl_user (f r) = dl_user r" for f
    by (subst filter_update_where) (use assms that in \<open>auto intro!: update_where_none\<close>)
  then show "get_layouts v (save_layout dumps u n l now d) = get_layouts v d"
    using assms by (simp add: get_layouts_def save_layout_def Let_def)
  show "get_layouts v (fst (delete_layout u n d)) = get_layouts v d"
    using assms by (auto simp: get_layouts_def delete_layout_def Let_def intro!: arg_cong [of _ _ "order_by layout_before"] filter_cong)
qed

subsection \<open>Retention of events\<close>

lemma db_add_event_rows:
  fixes d order and e r k :: db_event
  assumes "keys_ok d" "newest_first order"
  defines "rows \<equiv> filter (\<lambda>r. \<not> (de_robot r = de_robot e \<and> de_id r = de_id e)) (t_events d) @ [e]"
  shows "set (t_events (db_add_event order e d)) = set (take EVENTS_KEPT (order rows))"
    and "length (t_events (db_add_event order e d)) = min EVENTS_KEPT (length rows)"
    and "r \<in> set rows \<Longrightarrow> r \<notin> set (t_events (db_add_event order e d)) \<Longrightarrow> k \<in> set (t_events (db_add_event order e d))
       \<Longrightarrow> de_id r \<le> de_id k \<and> length (t_events (db_add_event order e d)) = EVENTS_KEPT"
proof -
  have "distinct (map (\<lambda>r. (de_robot r, de_id r)) rows)"
    using assms(1) distinct_map_filter_snoc [of "\<lambda>r. (de_robot r, de_id r)" "t_events d" e] by (simp add: keys_ok_def rows_def)
  then have rows: "distinct rows" by (simp only: distinct_map)
  have perm: "mset (order rows) = mset rows" and desc: "sorted_wrt (\<lambda>a b. de_id b \<le> de_id a) (order rows)"
    using assms(2) by (simp_all add: newest_first_def)
  have set: "set (order rows) = set rows" using perm by (rule mset_eq_setD)
  have ev: "t_events (db_add_event order e d) = filter (\<lambda>r. r \<in> set (take EVENTS_KEPT (order rows))) rows"
    by (simp add: db_add_event_def Let_def rows_def)
  show kept: "set (t_events (db_add_event order e d)) = set (take EVENTS_KEPT (order rows))"
    unfolding ev using set in_set_takeD by fastforce
  have "distinct (order rows)" using perm rows by (metis mset_eq_imp_distinct_iff)
  then have "card (set (take EVENTS_KEPT (order rows))) = length (take EVENTS_KEPT (order rows))"
    by (simp add: distinct_card)
  moreover have "length (t_events (db_add_event order e d)) = card (set (t_events (db_add_event order e d)))"
    unfolding ev by (rule distinct_card [OF distinct_filter [OF rows], symmetric])
  moreover have "length (order rows) = length rows" using perm by (metis size_mset)
  ultimately show len: "length (t_events (db_add_event order e d)) = min EVENTS_KEPT (length rows)"
    unfolding kept by simp
  assume r: "r \<in> set rows" "r \<notin> set (t_events (db_add_event order e d))" "k \<in> set (t_events (db_add_event order e d))"
  have "r \<in> set (take EVENTS_KEPT (order rows)) \<union> set (drop EVENTS_KEPT (order rows))"
    using r(1) set by (metis append_take_drop_id set_append)
  then have behind: "r \<in> set (drop EVENTS_KEPT (order rows))" using r(2) kept by simp
  have "sorted_wrt (\<lambda>a b. de_id b \<le> de_id a) (take EVENTS_KEPT (order rows) @ drop EVENTS_KEPT (order rows))"
    using desc by simp
  then have "de_id b \<le> de_id a" if "a \<in> set (take EVENTS_KEPT (order rows))" "b \<in> set (drop EVENTS_KEPT (order rows))" for a b
    using that unfolding sorted_wrt_append by blast
  then have "de_id r \<le> de_id k" using behind r(3) unfolding kept by blast
  moreover have "EVENTS_KEPT < length rows"
    using behind \<open>length (order rows) = length rows\<close> by (cases "EVENTS_KEPT < length rows") simp_all
  ultimately show "de_id r \<le> de_id k \<and> length (t_events (db_add_event order e d)) = EVENTS_KEPT" using len by simp
qed

lemma iter_all:
  assumes "db_reach d" "page \<noteq> 0"
  shows "iter_recording_samples d i kinds page = filter (of_recording i kinds) (t_samples d)"
proof -
  have ok: "sorted_wrt (<) (map ds_id (t_samples d))" "\<forall>s\<in>set (t_samples d). 1 \<le> ds_id s"
    using db_reach_ok [OF assms(1)] by (simp_all add: recordings_ok_def)
  show ?thesis
    unfolding iter_recording_samples_def iter_pages_all [OF ok(1) assms(2)]
    by (rule filter_cong) (use ok(2) in auto)
qed

subsection \<open>What the server can rely on\<close>


text \<open>
  C28. Reading a recording page by page ends and gives, for every page size and every choice of
  channels, exactly the stored samples of that recording and those channels, each once and in the
  order in which they were stored; their number is the one the count query gives.
\<close>

theorem recording_read_back_whole:
  assumes "db_reach d" "page \<noteq> 0"
  shows "iter_recording_samples d i kinds page = filter (of_recording i kinds) (t_samples d)
    \<and> int (length (iter_recording_samples d i kinds page)) = count_recording_samples d i kinds
    \<and> sorted_wrt (<) (map ds_id (iter_recording_samples d i kinds page))"
proof -
  have "sorted_wrt (<) (map ds_id (t_samples d))" using db_reach_ok [OF assms(1)] by (simp add: recordings_ok_def)
  then show ?thesis by (simp add: iter_all [OF assms] count_recording_samples_def sorted_map_filter)
qed

text \<open>
  C30. The audit log only grows: whatever calls follow, every row stays in its place with its command,
  robot, goal, sender, time and rejection, and a command id once admitted or refused is known for ever,
  so a replay is recognised after any restart; a second row for it is never written.
\<close>

theorem audit_log_only_grows:
  "prefix (map audit_core (t_commands d)) (map audit_core (t_commands (db_run ops d)))
   \<and> command_known (db_run ops (add_command_audit dumps robot c command goal who now d)) c
   \<and> command_known (db_run ops (add_command_rejection robot c command reason who now d)) c
   \<and> (command_known d c \<longrightarrow> add_command_audit dumps robot c command goal who now (db_run ops d) = db_run ops d
        \<and> add_command_rejection robot c command reason who now (db_run ops d) = db_run ops d)"
proof -
  have "command_known (add_command_audit dumps robot c command goal who now d) c"
    "command_known (add_command_rejection robot c command reason who now d) c"
    by (simp_all add: add_command_audit_def add_command_rejection_def insert_command_def command_known_def)
  then show ?thesis using audit_run [of d ops] known_run [of d c ops]
    by (auto simp: known_run add_command_audit_def add_command_rejection_def insert_command_def)
qed

text \<open>
  C31. A layout a user saves is the one that user gets back, also where a preset has its name; deleting it
  brings the preset back, and says whether there was one of the user's own to delete. Neither changes
  what any other user sees, so a preset cannot be changed or deleted.
\<close>

theorem layouts_are_private:
  assumes "db_reach d" "1 \<le> u"
  shows "(\<exists>r. get_layout u n (save_layout dumps u n l now d) = Some r \<and> dl_user r = u \<and> dl_name r = n
        \<and> dl_json r = dumps l \<and> dl_updated r = now \<and> \<not> dl_preset r)
    \<and> get_layout u n (fst (delete_layout u n d)) = find (\<lambda>r. dl_user r = 0 \<and> dl_name r = n) (t_layouts d)
    \<and> (snd (delete_layout u n d) \<longleftrightarrow> (\<exists>r\<in>set (t_layouts d). dl_user r = u \<and> dl_name r = n))
    \<and> (v \<noteq> u \<longrightarrow> get_layouts v (save_layout dumps u n l now d) = get_layouts v d
              \<and> get_layouts v (fst (delete_layout u n d)) = get_layouts v d)"
proof -
  have ok: "keys_ok d" using db_reach_ok [OF assms(1)] by simp
  have own: "\<not> dl_preset r" if "r \<in> set (t_layouts d)" "dl_user r = u" for r
    using ok that assms(2) by (auto simp: keys_ok_def)
  let ?s = "save_layout dumps u n l now d"
  have saved: "dl_json r = dumps l \<and> dl_updated r = now" if "r \<in> set (t_layouts ?s)" "dl_user r = u" "dl_name r = n" for r
    by (rule saved_row [OF that])
  have "u \<noteq> 0" using assms(2) by simp
  from get_layout_own [OF saved_present [of dumps u n l now d] this]
  obtain r where r: "r \<in> set (t_layouts ?s)" "get_layout u n ?s = Some r" "dl_name r = n" "dl_user r = u" by blast
  moreover have "\<not> dl_preset r"
    using keys_ok_layout [OF ok assms(2)] r(1,4) assms(2) unfolding keys_ok_def by fastforce
  moreover have "get_layout u n (fst (delete_layout u n d)) = find (\<lambda>r. dl_user r = 0 \<and> dl_name r = n) (t_layouts d)"
  proof -
    let ?t = "fst (delete_layout u n d)"
    have t: "t_layouts ?t = filter (\<lambda>r. \<not> (dl_user r = u \<and> dl_name r = n \<and> \<not> dl_preset r)) (t_layouts d)"
      by (simp add: delete_layout_def Let_def)
    have "keys_ok ?t" using ok by (simp add: delete_layout_def Let_def keys_ok_def distinct_map_filter)
    then have "get_layout u n ?t = find (\<lambda>r. dl_user r = 0 \<and> dl_name r = n) (t_layouts ?t)"
      by (rule get_layout_preset) (use own t in auto)
    also have "filter (\<lambda>r. dl_user r = 0 \<and> dl_name r = n) (t_layouts ?t) = filter (\<lambda>r. dl_user r = 0 \<and> dl_name r = n) (t_layouts d)"
      unfolding t filter_filter using assms(2) by (auto intro!: filter_cong)
    then have "find (\<lambda>r. dl_user r = 0 \<and> dl_name r = n) (t_layouts ?t) = find (\<lambda>r. dl_user r = 0 \<and> dl_name r = n) (t_layouts d)"
      by (simp add: find_eq_filter)
    finally show ?thesis .
  qed
  moreover have "snd (delete_layout u n d) \<longleftrightarrow> (\<exists>r\<in>set (t_layouts d). dl_user r = u \<and> dl_name r = n)"
    using own by (auto simp: delete_layout_def Let_def list_ex_iff)
  ultimately show ?thesis using saved [of r] layouts_of_others [OF assms(2)] by auto
qed

text \<open>
  Storing an event drops only the oldest: at most five thousand stay, a dropped event has an id no
  larger than every kept one and only goes when the table is full, one of the same robot and id is
  replaced, and an event stamped with the next id, or a later one, is always stored.
\<close>

theorem events_keep_the_newest:
  assumes "db_reach d" "newest_first order"
  shows "length (t_events (db_add_event order e d)) \<le> EVENTS_KEPT
    \<and> (\<forall>r\<in>set (t_events d) - set (t_events (db_add_event order e d)).
         (de_robot r = de_robot e \<and> de_id r = de_id e)
         \<or> length (t_events (db_add_event order e d)) = EVENTS_KEPT
           \<and> (\<forall>k\<in>set (t_events (db_add_event order e d)). de_id r \<le> de_id k))
    \<and> (next_event_id d \<le> de_id e \<longrightarrow> e \<in> set (t_events (db_add_event order e d)))"
proof -
  have ok: "keys_ok d" using db_reach_ok [OF assms(1)] by simp
  let ?rows = "filter (\<lambda>r. \<not> (de_robot r = de_robot e \<and> de_id r = de_id e)) (t_events d) @ [e]"
  note rows = db_add_event_rows [OF ok assms(2), where e = e]
  have len: "length (t_events (db_add_event order e d)) \<le> EVENTS_KEPT" using rows(2) by simp
  have nonempty: "t_events (db_add_event order e d) \<noteq> []"
    using rows(2) by (auto simp: EVENTS_KEPT_def)
  have dropped: "length (t_events (db_add_event order e d)) = EVENTS_KEPT
      \<and> (\<forall>k\<in>set (t_events (db_add_event order e d)). de_id r \<le> de_id k)"
    if "r \<in> set ?rows" "r \<notin> set (t_events (db_add_event order e d))" for r
  proof -
    obtain k where "k \<in> set (t_events (db_add_event order e d))" using nonempty by (meson last_in_set)
    with rows(3) [OF that] show ?thesis by blast
  qed
  have "e \<in> set (t_events (db_add_event order e d))" if "next_event_id d \<le> de_id e"
  proof (rule ccontr)
    assume gone: "e \<notin> set (t_events (db_add_event order e d))"
    with dropped [of e] nonempty obtain k where k: "k \<in> set (t_events (db_add_event order e d))" "de_id e \<le> de_id k"
      by (metis in_set_conv_decomp last_in_set)
    have "set (t_events (db_add_event order e d)) \<subseteq> insert e (set (t_events d))" by (simp add: db_add_event_def Let_def) blast
    then have "k \<in> set (t_events d)" using k(1) gone by blast
    then have "de_id k < next_event_id d" using sql_max_le [of "de_id k" "map de_id (t_events d)"] by (simp add: next_event_id_def)
    with k(2) that show False by simp
  qed
  with len dropped show ?thesis by auto
qed

subsection \<open>Three observations\<close>

lemma text_le_day: "text_le (day @ CHR '' '' # c) (day @ CHR ''T'' # t)"
  by (induction day) simp_all

text \<open>
  Samples carry the robot's ISO stamp, with a \<open>T\<close> between day and hour, while \<open>datetime('now', ...)\<close> has a
  blank there, which sorts before it. So of the samples of the day of the cutoff none is left out,
  however few minutes were asked for, and none of that day is deleted after its week.
\<close>

lemma battery_window_ignores_the_hour:
  assumes "\<forall>r\<in>set (t_battery d). \<exists>t. db_ts r = day @ CHR ''T'' # t"
  shows "get_battery_history order (day @ CHR '' '' # hour) n d = rev (sql_limit n (order (t_battery d)))"
    and "t_battery (add_battery_sample (day @ CHR '' '' # hour) r d) =
      t_battery d @ filter (\<lambda>r. text_le (day @ CHR '' '' # hour) (db_ts r)) [r]"
proof -
  have "filter (\<lambda>r. text_le (day @ CHR '' '' # hour) (db_ts r)) (t_battery d) = t_battery d"
    using assms by (metis (no_types, lifting) filter_True text_le_day)
  then show "get_battery_history order (day @ CHR '' '' # hour) n d = rev (sql_limit n (order (t_battery d)))"
    "t_battery (add_battery_sample (day @ CHR '' '' # hour) r d) =
      t_battery d @ filter (\<lambda>r. text_le (day @ CHR '' '' # hour) (db_ts r)) [r]"
    by (simp_all add: get_battery_history_def add_battery_sample_def)
qed

text \<open>
  \<open>start_recording\<close> looks for an open recording and inserts its row in two statements. Two starts that
  both look before either inserts leave two open rows; closing the later one leaves the other open, and
  every further start is refused.
\<close>

lemma concurrent_starts_block_recording:
  assumes "\<not> recording_open d"
    and d: "d' = fst (insert_recording r2 n2 c2 t2 (fst (insert_recording r1 n1 c1 t1 d)))"
  shows "length (open_recordings d') = 2"
    and "start_recording r n c t (fst (stop_recording (t_recording_seq d + 2) t3 d'))
      = (fst (stop_recording (t_recording_seq d + 2) t3 d'), None)"
proof -
  have "open_recordings d = []"
    using assms(1) by (simp add: recording_open_def open_recordings_def list_ex_iff filter_empty_conv)
  then show "length (open_recordings d') = 2"
    by (simp add: d open_recordings_def insert_recording_def Let_def)
  have "recording_open (fst (stop_recording (t_recording_seq d + 2) t3 d'))"
    by (simp add: d recording_open_def stop_recording_def insert_recording_def update_where_def Let_def list_ex_iff)
  then show "start_recording r n c t (fst (stop_recording (t_recording_seq d + 2) t3 d'))
      = (fst (stop_recording (t_recording_seq d + 2) t3 d'), None)" by (simp add: start_recording_def)
qed

text \<open>
  A sample written after its recording was deleted stays as a row no recording has: foreign keys are
  not switched on.
\<close>

lemma late_sample_is_orphaned:
  "\<exists>s\<in>set (t_samples (add_recording_sample i ts k x (fst (delete_recording i d)))).
     ds_recording s = i \<and> get_recording (add_recording_sample i ts k x (fst (delete_recording i d))) i = None"
  by (auto simp: add_recording_sample_def delete_recording_def get_recording_def find_None_iff set_update_where)

subsection \<open>An example\<close>

definition example_db_env :: db_env where
  "example_db_env = \<lparr>dx_now = ''n'', dx_week_ago = ''a'', dx_order = sort_key (\<lambda>r. - de_id r), dx_dumps = (\<lambda>v. ''{}'')\<rparr>"

lemma example_order: "newest_first (dx_order example_db_env)"
proof -
  have "sorted_wrt (\<lambda>a b. de_id b \<le> de_id a) (sort_key (\<lambda>r. - de_id r) rows)" for rows
    using sorted_sort_key [of "\<lambda>r. - de_id r" rows] unfolding sorted_map by simp
  then have "\<forall>rows. sorted_wrt (\<lambda>a b. de_id b \<le> de_id a) (sort_key (\<lambda>r. - de_id r) rows)" by blast
  then show ?thesis by (simp add: newest_first_def example_db_env_def)
qed

definition example_recorded :: database where
  "example_recorded = db_apply example_db_env (Add_sample 1 ''t'' ''pose'' ''{}'')
     (db_apply example_db_env (Start_recording ''r'' ''n'' [''pose''])
       (init_database (\<lambda>v. ''{}'') ''n'' empty_database))"

lemma example_reach: "db_reach example_recorded"
  unfolding example_recorded_def
  by (intro db_next db_start example_order)
     (simp_all add: start_recording_def recording_open_def insert_recording_def empty_database_def Let_def)

lemma example_recorded_tables:
  "t_samples example_recorded = [\<lparr>ds_id = 1, ds_recording = 1, ds_ts = ''t'', ds_kind = ''pose'', ds_data = ''{}''\<rparr>]"
  "map dr_id (t_recordings example_recorded) = [1]" "t_events example_recorded = []"
  by (simp_all add: example_recorded_def start_recording_def recording_open_def insert_recording_def
      add_recording_sample_def empty_database_def Let_def)


theorem recording_read_back_whole_witness:
  "map ds_kind (iter_recording_samples example_recorded 1 (Some [''pose'']) 1) = [''pose'']"
  using recording_read_back_whole [OF example_reach, of 1 1 "Some [''pose'']"]
  by (simp add: example_recorded_tables of_recording_def)

theorem audit_log_only_grows_witness:
  "command_known (db_run [(example_db_env, Delete_recording 1)]
     (add_command_audit (\<lambda>v. ''{}'') ''r'' ''c'' ''stop'' VNone \<lparr>sn_user_id = None, sn_username = None,
        sn_source_ip = None, sn_generation = None\<rparr> ''n'' example_recorded)) ''c''"
  using audit_log_only_grows by blast

theorem layouts_are_private_witness:
  "\<exists>r. get_layout 1 ''Operator'' (save_layout (\<lambda>v. ''[]'') 1 ''Operator'' VNone ''m'' example_recorded) = Some r \<and> dl_json r = ''[]''"
  using layouts_are_private [OF example_reach, of 1 "''Operator''" "\<lambda>v. ''[]''" VNone "''m''"] by auto

theorem events_keep_the_newest_witness:
  "\<lparr>de_id = 1, de_robot = ''r'', de_ts = ''t'', de_severity = ''info'', de_title = [], de_message = []\<rparr>
   \<in> set (t_events (db_add_event (dx_order example_db_env) \<lparr>de_id = 1, de_robot = ''r'', de_ts = ''t'',
        de_severity = ''info'', de_title = [], de_message = []\<rparr> example_recorded))"
proof -
  have "next_event_id example_recorded = 1" by (simp add: next_event_id_def example_recorded_tables default_def)
  then show ?thesis using events_keep_the_newest [OF example_reach example_order] by simp
qed

end
