(* ===== verification/Recording.thy ===== *)
theory Recording
  imports Database_Run Hub
begin

text \<open>
  The bounded writer (\<open>database/writer.py\<close>), the recorder (\<open>recordings/recorder.py\<close>), and the three routes
  of \<open>api/recordings.py\<close> that change a recording, over the tables of Database. A server without a
  database, whose recorder does nothing, is left out. Times are \<open>time.monotonic()\<close>.
\<close>

subsection \<open>The writer\<close>

text \<open>
  The queue holds writes not yet taken; the worker takes one, awaits it and only then marks it done, so
  the one in flight counts for \<open>join\<close>. \<open>bw_task\<close>: a worker was started and not given up.
\<close>

record 'w writer =
  bw_queue :: "'w list"
  bw_current :: "'w option"
  bw_task :: bool
  bw_dropped :: nat
  bw_failed :: nat

definition DEFAULT_MAXSIZE :: nat where "DEFAULT_MAXSIZE = 256"

definition new_writer :: "'w writer" where
  "new_writer = \<lparr>bw_queue = [], bw_current = None, bw_task = False, bw_dropped = 0, bw_failed = 0\<rparr>"

definition writer_start :: "'w writer \<Rightarrow> 'w writer" where
  "writer_start b = (if bw_task b then b else b\<lparr>bw_task := True\<rparr>)"

definition submit :: "'w \<Rightarrow> 'w writer \<Rightarrow> 'w writer \<times> bool" where
  "submit w b =
     (let b1 = (if bw_task b then b else writer_start b)
      in if DEFAULT_MAXSIZE \<le> length (bw_queue b1) then (b1\<lparr>bw_dropped := bw_dropped b1 + 1\<rparr>, False)
         else (b1\<lparr>bw_queue := bw_queue b1 @ [w]\<rparr>, True))"

definition healthy :: "'w writer \<Rightarrow> bool" where
  "healthy b = (bw_dropped b = 0 \<and> bw_failed b = 0)"

text \<open>\<open>_run\<close>: take a write; when it has been awaited, count a failure and mark it done.\<close>

definition worker_take :: "'w writer \<Rightarrow> 'w writer" where
  "worker_take b =
     (case bw_queue b of
        [] \<Rightarrow> b
      | w # ws \<Rightarrow> if bw_task b \<and> bw_current b = None then b\<lparr>bw_queue := ws, bw_current := Some w\<rparr> else b)"

definition worker_done :: "bool \<Rightarrow> 'w writer \<Rightarrow> 'w writer" where
  "worker_done raised b =
     (if raised then b\<lparr>bw_current := None, bw_failed := bw_failed b + 1\<rparr> else b\<lparr>bw_current := None\<rparr>)"

text \<open>\<open>flush\<close> has returned: there is no worker to wait for, or every write is done.\<close>

definition queue_joined :: "'w writer \<Rightarrow> bool" where
  "queue_joined b = (bw_queue b = [] \<and> bw_current b = None)"

definition flushed :: "'w writer \<Rightarrow> bool" where
  "flushed b = (\<not> bw_task b \<or> queue_joined b)"

text \<open>
  \<open>stop\<close> gives the worker up first; then it waits for the writes, unless told not to, ten seconds at
  most (\<open>timed_out\<close>), and cancels the worker, which marks the write in flight done.
\<close>

definition writer_stop_begin :: "'w writer \<Rightarrow> 'w writer" where
  "writer_stop_begin b = b\<lparr>bw_task := False\<rparr>"

definition writer_stop_may_cancel :: "bool \<Rightarrow> bool \<Rightarrow> 'w writer \<Rightarrow> bool" where
  "writer_stop_may_cancel drain timed_out b = (\<not> drain \<or> timed_out \<or> queue_joined b)"

definition writer_cancel :: "'w writer \<Rightarrow> 'w writer" where
  "writer_cancel b = b\<lparr>bw_current := None\<rparr>"

subsection \<open>The recorder\<close>

definition CHANNEL_INTERVALS :: "(string \<times> rat) list" where
  "CHANNEL_INTERVALS = [(''pose'', 1/2), (''lidar'', 1), (''path'', 1), (''base_state'', 1), (''diagnostics'', 5),
     (''battery'', 5), (''event'', 0)]"

definition KNOWN_CHANNELS :: "string list" where "KNOWN_CHANNELS = dkeys CHANNEL_INTERVALS"

definition DEFAULT_CHANNELS :: "string list" where "DEFAULT_CHANNELS = [''pose'', ''battery'', ''event'']"

definition MAX_SAMPLES :: nat where "MAX_SAMPLES = 100000"

text \<open>A queued write: the arguments of \<open>add_recording_sample\<close>, recording, stamp, kind and data.\<close>

type_synonym sample_write = "int \<times> string \<times> string \<times> string"

record recorder =
  rcd_active :: "db_recording option"
  rcd_channels :: "string list"
  rcd_last_mono :: "(string \<times> rat) list"
  rcd_samples :: nat
  rcd_writer :: "sample_write writer"

definition new_recorder :: recorder where
  "new_recorder = \<lparr>rcd_active = None, rcd_channels = [], rcd_last_mono = [], rcd_samples = 0, rcd_writer = new_writer\<rparr>"

definition wanted_channels :: "string list option \<Rightarrow> string list" where
  "wanted_channels channels =
     (let asked = (case channels of None \<Rightarrow> DEFAULT_CHANNELS | Some cs \<Rightarrow> if cs = [] then DEFAULT_CHANNELS else cs);
          wanted = filter (\<lambda>c. c \<in> set KNOWN_CHANNELS) asked
      in if wanted = [] then DEFAULT_CHANNELS else wanted)"

definition recorder_start ::
  "string \<Rightarrow> string \<Rightarrow> string list option \<Rightarrow> string \<Rightarrow> recorder \<Rightarrow> database
   \<Rightarrow> recorder \<times> database \<times> db_recording option" where
  "recorder_start robot name channels now rc d =
     (if rcd_active rc \<noteq> None then (rc, d, None)
      else let wanted = wanted_channels channels
           in case start_recording robot name wanted now d of
                (d', None) \<Rightarrow> (rc, d', None)
              | (d', Some row) \<Rightarrow> (rc\<lparr>rcd_active := Some row, rcd_channels := wanted, rcd_last_mono := [],
                                   rcd_samples := 0\<rparr>, d', Some row))"

definition offer_channel :: "string \<Rightarrow> string \<Rightarrow> string \<Rightarrow> rat \<Rightarrow> recorder \<Rightarrow> recorder" where
  "offer_channel kind ts data now rc =
     (case rcd_active rc of
        None \<Rightarrow> rc
      | Some row \<Rightarrow>
          if kind \<notin> set (rcd_channels rc) then rc
          else let interval = default 1 (dget CHANNEL_INTERVALS kind)
               in if 0 < interval \<and> now - default 0 (dget (rcd_last_mono rc) kind) < interval then rc
                  else let rc1 = rc\<lparr>rcd_last_mono := dset (rcd_last_mono rc) kind now\<rparr>
                       in if MAX_SAMPLES \<le> rcd_samples rc1 then rc1
                          else case submit (dr_id row, ts, kind, data) (rcd_writer rc1) of
                                 (b, True) \<Rightarrow> rc1\<lparr>rcd_writer := b, rcd_samples := rcd_samples rc1 + 1\<rparr>
                               | (b, False) \<Rightarrow> rc1\<lparr>rcd_writer := b\<rparr>)"

text \<open>
  \<open>stop\<close> up to its \<open>flush\<close>, with the id it goes on with, and after it: the row it answers with, which is
  none when the recording was deleted meanwhile.
\<close>

definition recorder_stop_begin :: "recorder \<Rightarrow> recorder \<times> int option" where
  "recorder_stop_begin rc =
     (case rcd_active rc of None \<Rightarrow> (rc, None) | Some row \<Rightarrow> (rc\<lparr>rcd_active := None\<rparr>, Some (dr_id row)))"

definition recorder_stop_end :: "int \<Rightarrow> string \<Rightarrow> database \<Rightarrow> database \<times> db_recording option" where
  "recorder_stop_end i now d = (case stop_recording i now d of (d', changed) \<Rightarrow> (d', get_recording d' i))"

text \<open>\<open>recover\<close> closes what a crash left open, among the fifty recordings the listing gives.\<close>

definition recover :: "string \<Rightarrow> database \<Rightarrow> database" where
  "recover now d =
     fold (\<lambda>row d. if dr_status row = ''recording'' then fst (stop_recording (dr_id row) now d) else d)
       (list_recordings 50 d) d"

subsection \<open>Routes\<close>

text \<open>The answers that are not a row: the status code.\<close>

definition api_start_recording ::
  "user \<Rightarrow> string option \<Rightarrow> string \<Rightarrow> string list option \<Rightarrow> string \<Rightarrow> recorder \<Rightarrow> database
   \<Rightarrow> recorder \<times> database \<times> (nat + db_recording)" where
  "api_start_recording u robot name channels now rc d =
     (if \<not> can_command u then (rc, d, Inl 403)
      else case robot of
        None \<Rightarrow> (rc, d, Inl 409)
      | Some r \<Rightarrow>
          (case recorder_start r (if py_strip name = [] then ''Untitled recording'' else py_strip name) channels now rc d of
             (rc', d', None) \<Rightarrow> (rc', d', Inl 409)
           | (rc', d', Some row) \<Rightarrow> (rc', d', Inr row)))"

definition api_stop_begin :: "user \<Rightarrow> recorder \<Rightarrow> recorder \<times> (nat + int)" where
  "api_stop_begin u rc =
     (if \<not> can_command u then (rc, Inl 403)
      else case recorder_stop_begin rc of (rc', None) \<Rightarrow> (rc', Inl 409) | (rc', Some i) \<Rightarrow> (rc', Inr i))"

definition api_stop_end :: "int \<Rightarrow> string \<Rightarrow> database \<Rightarrow> database \<times> (nat + db_recording)" where
  "api_stop_end i now d =
     (case recorder_stop_end i now d of (d', None) \<Rightarrow> (d', Inl 409) | (d', Some row) \<Rightarrow> (d', Inr row))"

definition api_delete_recording :: "user \<Rightarrow> int \<Rightarrow> recorder \<Rightarrow> database \<Rightarrow> database \<times> (nat + int)" where
  "api_delete_recording u i rc d =
     (if \<not> is_administrator u then (d, Inl 403)
      else if (case rcd_active rc of None \<Rightarrow> False | Some row \<Rightarrow> dr_id row = i) then (d, Inl 409)
      else case delete_recording i d of (d', deleted) \<Rightarrow> (d', if deleted then Inr i else Inl 404))"

subsection \<open>The recorder at work\<close>

text \<open>
  The steps of a server: a route, an offer of the telemetry path, the worker, the two halves of a stop,
  and any other call of the database. \<open>sy_stopping\<close> holds the stops that wait for their flush. Three
  fields only record what happened: the recordings that existed before (\<open>sy_base\<close> and below), the
  writes the queue accepted with their times, and the writes that were carried out. A write that raises
  leaves the tables as they were.
\<close>

record recording_system =
  sy_recorder :: recorder
  sy_db :: database
  sy_stopping :: "int list"
  sy_base :: int
  sy_accepted :: "(rat \<times> sample_write) list"
  sy_written :: "sample_write list"

definition write_sample :: "sample_write \<Rightarrow> database \<Rightarrow> database" where
  "write_sample w d = (case w of (i, ts, kind, data) \<Rightarrow> add_recording_sample i ts kind data d)"

fun other_call :: "db_op \<Rightarrow> bool" where
  "other_call (Start_recording r n c) = False"
| "other_call (Stop_recording i) = False"
| "other_call (Add_sample i ts k x) = False"
| "other_call (Delete_recording i) = False"
| "other_call Init_again = False"
| "other_call p = True"

inductive rec_step :: "recording_system \<Rightarrow> recording_system \<Rightarrow> bool" where
  route_start:
    "api_start_recording u robot name channels now (sy_recorder s) (sy_db s) = (rc, d, reply)
     \<Longrightarrow> rec_step s (s\<lparr>sy_recorder := rc, sy_db := d\<rparr>)"
| route_stop:
    "api_stop_begin u (sy_recorder s) = (rc, reply)
     \<Longrightarrow> rec_step s (s\<lparr>sy_recorder := rc, sy_stopping := (case reply of Inl c \<Rightarrow> [] | Inr i \<Rightarrow> [i]) @ sy_stopping s\<rparr>)"
| stop_finishes:
    "i \<in> set (sy_stopping s) \<Longrightarrow> flushed (rcd_writer (sy_recorder s)) \<Longrightarrow> api_stop_end i now (sy_db s) = (d, reply)
     \<Longrightarrow> rec_step s (s\<lparr>sy_db := d, sy_stopping := remove1 i (sy_stopping s)\<rparr>)"
| route_delete:
    "api_delete_recording u i (sy_recorder s) (sy_db s) = (d, reply) \<Longrightarrow> rec_step s (s\<lparr>sy_db := d\<rparr>)"
| telemetry:
    "rc = offer_channel kind ts data now (sy_recorder s)
     \<Longrightarrow> rec_step s (s\<lparr>sy_recorder := rc,
            sy_accepted := sy_accepted s @ map (Pair now) (drop (length (bw_queue (rcd_writer (sy_recorder s)))) (bw_queue (rcd_writer rc)))\<rparr>)"
| worker_takes:
    "rec_step s (s\<lparr>sy_recorder := (sy_recorder s)\<lparr>rcd_writer := worker_take (rcd_writer (sy_recorder s))\<rparr>\<rparr>)"
| worker_writes:
    "bw_current (rcd_writer (sy_recorder s)) = Some w
     \<Longrightarrow> rec_step s (s\<lparr>sy_recorder := (sy_recorder s)\<lparr>rcd_writer := worker_done False (rcd_writer (sy_recorder s))\<rparr>,
            sy_db := write_sample w (sy_db s), sy_written := sy_written s @ [w]\<rparr>)"
| worker_fails:
    "bw_current (rcd_writer (sy_recorder s)) = Some w
     \<Longrightarrow> rec_step s (s\<lparr>sy_recorder := (sy_recorder s)\<lparr>rcd_writer := worker_done True (rcd_writer (sy_recorder s))\<rparr>\<rparr>)"
| other_database_call:
    "other_call p \<Longrightarrow> db_call p (sy_db s) \<Longrightarrow> newest_first (dx_order e)
     \<Longrightarrow> rec_step s (s\<lparr>sy_db := db_apply e p (sy_db s)\<rparr>)"

text \<open>The server has just started on the tables an earlier life left.\<close>

definition recording_begin :: "string \<Rightarrow> database \<Rightarrow> recording_system" where
  "recording_begin now d =
     \<lparr>sy_recorder = new_recorder\<lparr>rcd_writer := writer_start new_writer\<rparr>, sy_db = recover now d, sy_stopping = [],
      sy_base = t_recording_seq d, sy_accepted = [], sy_written = []\<rparr>"

inductive rec_reach :: "recording_system \<Rightarrow> bool" where
  rec_begin: "db_reach d \<Longrightarrow> rec_reach (recording_begin now d)"
| rec_more: "rec_reach s \<Longrightarrow> rec_step s s' \<Longrightarrow> rec_reach s'"

end
