(* ===== verification/Recording_Run.thy ===== *)
theory Recording_Run
  imports Recording
begin

text \<open>
  What a recording holds when it has been stopped: the accepted samples of its channels, in order, as
  many as the row says, no closer together than the channel allows. And what a restart closes.
\<close>

subsection \<open>The writes under way\<close>

definition under_way :: "'w writer \<Rightarrow> 'w list" where
  "under_way b = (case bw_current b of None \<Rightarrow> [] | Some w \<Rightarrow> [w]) @ bw_queue b"

lemma under_way_take [simp]: "under_way (worker_take b) = under_way b"
  by (simp add: under_way_def worker_take_def split: list.split)

lemma worker_take_frame [simp]:
  "bw_task (worker_take b) = bw_task b" "bw_failed (worker_take b) = bw_failed b"
  by (simp_all add: worker_take_def split: list.split)

lemma under_way_done: "bw_current b = Some w \<Longrightarrow> under_way b = w # under_way (worker_done raised b)"
  by (simp add: under_way_def worker_done_def)

lemma worker_done_frame [simp]:
  "bw_task (worker_done r b) = bw_task b" "bw_failed (worker_done r b) = bw_failed b + (if r then 1 else 0)"
  by (simp_all add: worker_done_def)

text \<open>The one contract of the writer: no write is lost or reordered, each is done, failed or under_way.\<close>

definition writes_kept :: "'w list \<Rightarrow> 'w list \<Rightarrow> 'w writer \<Rightarrow> bool" where
  "writes_kept accepted written b =
     (subseq (written @ under_way b) accepted \<and> length accepted = length written + length (under_way b) + bw_failed b)"

lemma writes_kept_submit:
  assumes "writes_kept accepted written b" "under_way b' = under_way b @ ws" "bw_failed b' = bw_failed b"
  shows "writes_kept (accepted @ ws) written b'"
proof -
  have "subseq ((written @ under_way b) @ ws) (accepted @ ws)"
    using assms(1) by (intro list_emb_append_mono) (simp_all add: writes_kept_def)
  then show ?thesis using assms by (simp add: writes_kept_def)
qed

lemma writes_kept_write:
  "writes_kept accepted written b \<Longrightarrow> bw_current b = Some w
   \<Longrightarrow> writes_kept accepted (written @ [w]) (worker_done False b)"
  using under_way_done [of b w False] by (simp add: writes_kept_def)

lemma writes_kept_fail:
  assumes "writes_kept accepted written b" "bw_current b = Some w"
  shows "writes_kept accepted written (worker_done True b)"
proof -
  have "subseq (written @ under_way (worker_done True b)) (written @ under_way b)"
    using under_way_done [OF assms(2), of True] by (simp add: subseq_append' list_emb_Cons)
  then have "subseq (written @ under_way (worker_done True b)) accepted"
    using assms(1) unfolding writes_kept_def by (meson subseq_order.order_trans)
  then show ?thesis using assms under_way_done [OF assms(2), of True] by (simp add: writes_kept_def)
qed

lemma writes_kept_complete:
  "writes_kept accepted written b \<Longrightarrow> queue_joined b \<Longrightarrow> bw_failed b = 0 \<Longrightarrow> written = accepted"
  by (auto simp: writes_kept_def queue_joined_def under_way_def intro: subseq_same_length)

subsection \<open>One offer\<close>

definition channel_interval :: "string \<Rightarrow> rat" where
  "channel_interval kind = default 1 (dget CHANNEL_INTERVALS kind)"

lemma submit_cases:
  assumes "bw_task b"
  obtains (queued) "submit w b = (b\<lparr>bw_queue := bw_queue b @ [w]\<rparr>, True)"
  | (full) "submit w b = (b\<lparr>bw_dropped := bw_dropped b + 1\<rparr>, False)"
  using assms by (cases "DEFAULT_MAXSIZE \<le> length (bw_queue b)") (simp_all add: submit_def Let_def)

lemma offer_cases:
  assumes "bw_task (rcd_writer rc)"
  obtains (ignored) "offer_channel kind ts data now rc = rc"
  | (missed) row where "rcd_active rc = Some row" "kind \<in> set (rcd_channels rc)"
      "0 < channel_interval kind \<Longrightarrow> channel_interval kind \<le> now - default 0 (dget (rcd_last_mono rc) kind)"
      "\<exists>n. offer_channel kind ts data now rc = rc\<lparr>rcd_last_mono := dset (rcd_last_mono rc) kind now,
         rcd_writer := (rcd_writer rc)\<lparr>bw_dropped := n\<rparr>\<rparr>"
  | (taken) row where "rcd_active rc = Some row" "kind \<in> set (rcd_channels rc)"
      "0 < channel_interval kind \<Longrightarrow> channel_interval kind \<le> now - default 0 (dget (rcd_last_mono rc) kind)"
      "rcd_samples rc < MAX_SAMPLES"
      "offer_channel kind ts data now rc = rc\<lparr>rcd_last_mono := dset (rcd_last_mono rc) kind now,
         rcd_samples := rcd_samples rc + 1,
         rcd_writer := (rcd_writer rc)\<lparr>bw_queue := bw_queue (rcd_writer rc) @ [(dr_id row, ts, kind, data)]\<rparr>\<rparr>"
proof (cases "rcd_active rc")
  case None
  then show ?thesis by (intro ignored) (simp add: offer_channel_def)
next
  case (Some row)
  show ?thesis
  proof (cases "kind \<notin> set (rcd_channels rc)
      \<or> 0 < channel_interval kind \<and> now - default 0 (dget (rcd_last_mono rc) kind) < channel_interval kind")
    case True
    with Some show ?thesis by (intro ignored) (auto simp: offer_channel_def Let_def channel_interval_def)
  next
    case False
    then have kind: "kind \<in> set (rcd_channels rc)"
      and gap: "0 < channel_interval kind \<Longrightarrow> channel_interval kind \<le> now - default 0 (dget (rcd_last_mono rc) kind)"
      by auto
    let ?rc = "rc\<lparr>rcd_last_mono := dset (rcd_last_mono rc) kind now\<rparr>"
    have step: "offer_channel kind ts data now rc =
        (if MAX_SAMPLES \<le> rcd_samples rc then ?rc
         else case submit (dr_id row, ts, kind, data) (rcd_writer rc) of
                (b, True) \<Rightarrow> ?rc\<lparr>rcd_writer := b, rcd_samples := rcd_samples rc + 1\<rparr> | (b, False) \<Rightarrow> ?rc\<lparr>rcd_writer := b\<rparr>)"
      by (cases "0 < channel_interval kind")
         (use Some False in \<open>simp_all add: offer_channel_def Let_def channel_interval_def [symmetric]\<close>)
    show ?thesis
    proof (cases "MAX_SAMPLES \<le> rcd_samples rc")
      case True
      then have "offer_channel kind ts data now rc = rc\<lparr>rcd_last_mono := dset (rcd_last_mono rc) kind now,
          rcd_writer := (rcd_writer rc)\<lparr>bw_dropped := bw_dropped (rcd_writer rc)\<rparr>\<rparr>" using step by simp
      then show ?thesis using missed [OF Some kind gap] by blast
    next
      case room: False
      show ?thesis
      proof (cases rule: submit_cases [OF assms, of "(dr_id row, ts, kind, data)"])
        case 1
        then show ?thesis using step room by (intro taken [OF Some kind gap]) simp_all
      next
        case 2
        then show ?thesis using step room by (intro missed [OF Some kind gap]) auto
      qed
    qed
  qed
qed

subsection \<open>The tables under the recorder\<close>

definition rec_keys :: "database \<Rightarrow> (int \<times> string list) set" where
  "rec_keys d = set (map (\<lambda>r. (dr_id r, dr_channels r)) (t_recordings d))"

definition stored :: "database \<Rightarrow> int \<Rightarrow> sample_write list" where
  "stored d i = map (\<lambda>s. (ds_recording s, ds_ts s, ds_kind s, ds_data s)) (filter (\<lambda>s. ds_recording s = i) (t_samples d))"

lemma stored_write: "stored (write_sample w d) i = stored d i @ filter (\<lambda>w. fst w = i) [w]"
  by (simp add: stored_def write_sample_def add_recording_sample_def split: prod.split)

lemma rec_keys_update [simp]:
  "(\<And>r. dr_id (f r) = dr_id r \<and> dr_channels (f r) = dr_channels r) \<Longrightarrow>
   rec_keys (d\<lparr>t_recordings := update_where p f (t_recordings d)\<rparr>) = rec_keys d"
  unfolding rec_keys_def by (simp del: set_map)

lemma rec_keys_write [simp]: "rec_keys (write_sample w d) = rec_keys d"
  unfolding rec_keys_def by (simp del: set_map add: write_sample_def add_recording_sample_def split: prod.split)

lemma write_sample_seq [simp]: "t_recording_seq (write_sample w d) = t_recording_seq d"
  by (simp add: write_sample_def add_recording_sample_def split: prod.split)

lemma stop_recording_frame [simp]:
  "rec_keys (fst (stop_recording i now d)) = rec_keys d" "stored (fst (stop_recording i now d)) j = stored d j"
  "t_recording_seq (fst (stop_recording i now d)) = t_recording_seq d"
  by (simp_all add: stop_recording_def Let_def stored_def)

lemma delete_recording_frame:
  shows "rec_keys (fst (delete_recording i d)) = {k \<in> rec_keys d. fst k \<noteq> i}"
    and "j \<noteq> i \<Longrightarrow> stored (fst (delete_recording i d)) j = stored d j"
    and "t_recording_seq (fst (delete_recording i d)) = t_recording_seq d"
proof -
  show "rec_keys (fst (delete_recording i d)) = {k \<in> rec_keys d. fst k \<noteq> i}"
    by (fastforce simp: rec_keys_def delete_recording_def)
  have t: "t_samples (fst (delete_recording i d)) = filter (\<lambda>s. ds_recording s \<noteq> i) (t_samples d)"
    by (simp add: delete_recording_def)
  have keep: "filter (\<lambda>s. ds_recording s = j) (filter (\<lambda>s. ds_recording s \<noteq> i) ss) = filter (\<lambda>s. ds_recording s = j) ss"
    if "j \<noteq> i" for ss using that by (induction ss) simp_all
  show "stored (fst (delete_recording i d)) j = stored d j" if "j \<noteq> i"
    unfolding stored_def t keep [OF that] ..
  show "t_recording_seq (fst (delete_recording i d)) = t_recording_seq d" by (simp add: delete_recording_def)
qed

lemma other_call_tables:
  assumes "other_call p"
  shows "t_recordings (db_apply e p d) = t_recordings d \<and> t_samples (db_apply e p d) = t_samples d
      \<and> t_recording_seq (db_apply e p d) = t_recording_seq d"
proof (cases p)
  case (Get_or_create_user u n)
  then show ?thesis by (simp add: get_or_create_user_def split: option.split)
qed (use assms in \<open>simp_all add: add_command_audit_def add_command_rejection_def insert_command_def
      mark_help_guide_seen_def db_add_event_def add_battery_sample_def complete_command_audit_def save_layout_def
      delete_layout_def save_last_pose_def Let_def\<close>)

lemma other_call_frame:
  assumes "other_call p"
  shows "rec_keys (db_apply e p d) = rec_keys d" "stored (db_apply e p d) i = stored d i"
    "t_recording_seq (db_apply e p d) = t_recording_seq d"
  using other_call_tables [OF assms, of e d] by (simp_all add: rec_keys_def stored_def)

subsection \<open>The invariant\<close>

definition kind_of :: "sample_write \<Rightarrow> string" where "kind_of w = fst (snd (snd w))"

abbreviation s_writer :: "recording_system \<Rightarrow> sample_write writer" where
  "s_writer s \<equiv> rcd_writer (sy_recorder s)"

text \<open>The accepted samples of a recording, and the times of those of one channel.\<close>

definition accepted_of :: "recording_system \<Rightarrow> int \<Rightarrow> (rat \<times> sample_write) list" where
  "accepted_of s i = filter (\<lambda>a. fst (snd a) = i) (sy_accepted s)"

definition times_of :: "(rat \<times> sample_write) list \<Rightarrow> string \<Rightarrow> rat list" where
  "times_of as kind = map fst (filter (\<lambda>a. kind_of (snd a) = kind) as)"

definition spaced :: "rat \<Rightarrow> rat list \<Rightarrow> bool" where
  "spaced gap ts = sorted_wrt (\<lambda>a b. gap \<le> b - a) ts"

definition key_ok :: "recording_system \<Rightarrow> int \<Rightarrow> string list \<Rightarrow> bool" where
  "key_ok s i cs =
     (stored (sy_db s) i = filter (\<lambda>w. fst w = i) (sy_written s) \<and> (\<forall>a\<in>set (accepted_of s i). kind_of (snd a) \<in> set cs))"

definition store_ok :: "recording_system \<Rightarrow> bool" where
  "store_ok s =
     (db_reach (sy_db s) \<and> bw_task (s_writer s) \<and> sy_base s \<le> t_recording_seq (sy_db s)
      \<and> writes_kept (map snd (sy_accepted s)) (sy_written s) (s_writer s)
      \<and> (\<forall>a\<in>set (sy_accepted s). sy_base s < fst (snd a) \<and> fst (snd a) \<le> t_recording_seq (sy_db s))
      \<and> (\<forall>i cs. (i, cs) \<in> rec_keys (sy_db s) \<longrightarrow> sy_base s < i \<longrightarrow> key_ok s i cs))"

definition last_ok :: "recorder \<Rightarrow> (rat \<times> sample_write) list \<Rightarrow> bool" where
  "last_ok rc as =
     (\<forall>a\<in>set as. \<exists>l. dget (rcd_last_mono rc) (kind_of (snd a)) = Some l
        \<and> (0 < channel_interval (kind_of (snd a)) \<longrightarrow> fst a \<le> l))"

definition active_ok :: "recording_system \<Rightarrow> int \<Rightarrow> bool" where
  "active_ok s i =
     (sy_base s < i \<and> i \<le> t_recording_seq (sy_db s) \<and> rcd_samples (sy_recorder s) = length (accepted_of s i)
      \<and> (\<forall>cs. (i, cs) \<in> rec_keys (sy_db s) \<longrightarrow> cs = rcd_channels (sy_recorder s))
      \<and> last_ok (sy_recorder s) (accepted_of s i))"

definition offers_ok :: "recording_system \<Rightarrow> bool" where
  "offers_ok s =
     ((\<forall>i. length (accepted_of s i) \<le> MAX_SAMPLES)
      \<and> (\<forall>i kind. 0 < channel_interval kind \<longrightarrow> spaced (channel_interval kind) (times_of (accepted_of s i) kind))
      \<and> (\<forall>row. rcd_active (sy_recorder s) = Some row \<longrightarrow> active_ok s (dr_id row)))"

lemma kept_known:
  assumes "store_ok s" "w \<in> set (sy_written s @ under_way (s_writer s))"
  shows "fst w \<le> t_recording_seq (sy_db s)"
proof -
  have "subseq (sy_written s @ under_way (s_writer s)) (map snd (sy_accepted s))"
    using assms(1) by (simp add: store_ok_def writes_kept_def)
  from list_emb_set [OF this assms(2)] have "w \<in> snd ` set (sy_accepted s)" by auto
  then show ?thesis using assms(1) by (auto simp: store_ok_def)
qed

lemma reach_call: "db_reach d \<Longrightarrow> db_call p d \<Longrightarrow> db_reach (db_apply (example_db_env\<lparr>dx_now := now\<rparr>) p d)"
  by (rule db_next) (use example_order in simp_all)

lemma reach_start: "db_reach d \<Longrightarrow> db_reach (fst (start_recording r n c now d))"
  using reach_call [of d "Start_recording r n c" now] by simp

lemma reach_stop: "db_reach d \<Longrightarrow> db_reach (fst (stop_recording i now d))"
  using reach_call [of d "Stop_recording i" now] by simp

lemma reach_delete: "db_reach d \<Longrightarrow> db_reach (fst (delete_recording i d))"
  using reach_call [of d "Delete_recording i"] by simp

lemma reach_write: "db_reach d \<Longrightarrow> fst w \<le> t_recording_seq d \<Longrightarrow> db_reach (write_sample w d)"
  using reach_call [of d "Add_sample (fst w) (fst (snd w)) (fst (snd (snd w))) (snd (snd (snd w)))"]
  by (cases w) (simp add: write_sample_def)

subsection \<open>Steps that touch the tables only\<close>

lemma accepted_of_frame [simp]:
  "accepted_of (s\<lparr>sy_db := d\<rparr>) i = accepted_of s i" "accepted_of (s\<lparr>sy_recorder := rc\<rparr>) i = accepted_of s i"
  "accepted_of (s\<lparr>sy_stopping := st\<rparr>) i = accepted_of s i" "accepted_of (s\<lparr>sy_written := ws\<rparr>) i = accepted_of s i"
  by (simp_all add: accepted_of_def)

lemma stopping_irrelevant [simp]:
  "store_ok (s\<lparr>sy_stopping := st\<rparr>) = store_ok s" "offers_ok (s\<lparr>sy_stopping := st\<rparr>) = offers_ok s"
  by (simp_all add: store_ok_def offers_ok_def key_ok_def active_ok_def)

lemma tables_change:
  assumes "store_ok s" "offers_ok s" "db_reach d" "rec_keys d \<subseteq> rec_keys (sy_db s)"
    "\<And>i cs. (i, cs) \<in> rec_keys d \<Longrightarrow> stored d i = stored (sy_db s) i"
    "t_recording_seq d = t_recording_seq (sy_db s)"
  shows "store_ok (s\<lparr>sy_db := d\<rparr>) \<and> offers_ok (s\<lparr>sy_db := d\<rparr>)"
proof
  have "key_ok (s\<lparr>sy_db := d\<rparr>) i cs" if "(i, cs) \<in> rec_keys d" "sy_base s < i" for i cs
  proof -
    have "key_ok s i cs" using assms(1,4) that by (auto simp: store_ok_def)
    then show ?thesis using assms(5) [OF that(1)] by (simp add: key_ok_def)
  qed
  then show "store_ok (s\<lparr>sy_db := d\<rparr>)" using assms(1,3,6) by (simp add: store_ok_def)
  have "active_ok s i \<Longrightarrow> active_ok (s\<lparr>sy_db := d\<rparr>) i" for i
    using assms(4,6) by (auto simp: active_ok_def)
  then show "offers_ok (s\<lparr>sy_db := d\<rparr>)" using assms(2) by (simp add: offers_ok_def)
qed

subsection \<open>A start\<close>

lemma started:
  assumes "start_recording r n c now d = (d', Some row)" "db_reach d"
  shows "dr_id row = t_recording_seq d + 1" "t_recording_seq d' = t_recording_seq d + 1"
    "rec_keys d' = insert (t_recording_seq d + 1, c) (rec_keys d)" "stored d' i = stored d i"
    "stored d (t_recording_seq d + 1) = []" "\<And>cs. (t_recording_seq d + 1, cs) \<notin> rec_keys d"
proof -
  have ok: "recordings_ok d" using db_reach_ok [OF assms(2)] by simp
  have d': "d' = fst (insert_recording r n c now d)" "get_recording d' (t_recording_seq d + 1) = Some row"
    using assms(1) by (auto simp: start_recording_def insert_recording_def Let_def split: if_splits)
  show "dr_id row = t_recording_seq d + 1" using d'(2) by (auto simp: get_recording_def find_Some_iff)
  show "t_recording_seq d' = t_recording_seq d + 1" "rec_keys d' = insert (t_recording_seq d + 1, c) (rec_keys d)"
    "stored d' i = stored d i"
    by (simp_all add: d'(1) insert_recording_def Let_def rec_keys_def stored_def)
  show "stored d (t_recording_seq d + 1) = []"
    using ok by (fastforce simp: stored_def recordings_ok_def filter_empty_conv)
  show "(t_recording_seq d + 1, cs) \<notin> rec_keys d" for cs
    using ok by (fastforce simp: rec_keys_def recordings_ok_def)
qed

lemma start_refused: "start_recording r n c now d = (d', None) \<Longrightarrow> d' = d"
proof (cases "recording_open d")
  case False
  obtain d1 i where ins: "insert_recording r n c now d = (d1, i)" by (cases "insert_recording r n c now d")
  then have "\<exists>q\<in>set (t_recordings d1). dr_id q = i" by (auto simp: insert_recording_def Let_def)
  then have "get_recording d1 i \<noteq> None" by (auto simp: get_recording_def find_None_iff)
  then show "start_recording r n c now d = (d', None) \<Longrightarrow> d' = d" using False ins by (simp add: start_recording_def)
qed (simp add: start_recording_def)

lemma start_step:
  assumes "store_ok s" "offers_ok s" "recorder_start r n c now (sy_recorder s) (sy_db s) = (rc, d, reply)"
  shows "store_ok (s\<lparr>sy_recorder := rc, sy_db := d\<rparr>) \<and> offers_ok (s\<lparr>sy_recorder := rc, sy_db := d\<rparr>)"
proof -
  obtain d' reply' where st: "start_recording r n (wanted_channels c) now (sy_db s) = (d', reply')" by (cases "start_recording r n (wanted_channels c) now (sy_db s)")
  consider "rc = sy_recorder s" "d = sy_db s"
    | row where "d = d'" "reply' = Some row" "rc = (sy_recorder s)\<lparr>rcd_active := Some row,
        rcd_channels := wanted_channels c, rcd_last_mono := [], rcd_samples := 0\<rparr>"
  proof (cases "rcd_active (sy_recorder s) = None")
    case False
    then show ?thesis using assms(3) that(1) by (simp add: recorder_start_def)
  next
    case True
    then show ?thesis
    proof (cases reply')
      case None
      then show ?thesis using True assms(3) st start_refused [of r n "wanted_channels c" now "sy_db s" d'] that(1)
        by (simp add: recorder_start_def)
    next
      case (Some row)
      have "(sy_recorder s)\<lparr>rcd_active := Some row, rcd_channels := wanted_channels c, rcd_last_mono := [],
          rcd_samples := 0\<rparr> = rc" "d' = d"
        using True assms(3) st Some by (auto simp: recorder_start_def Let_def)
      then show ?thesis by (intro that(2) [of row]) (simp_all add: Some)
    qed
  qed
  then show ?thesis
  proof cases
    case 1
    then show ?thesis using assms(1,2) by simp
  next
    case (2 row)
    have reach: "db_reach (sy_db s)" using assms(1) by (simp add: store_ok_def)
    have st: "start_recording r n (wanted_channels c) now (sy_db s) = (d, Some row)" using st 2 by simp
    note new = started [OF st reach]
    let ?i = "t_recording_seq (sy_db s) + 1"
    have none: "accepted_of s ?i = []"
      using assms(1) by (fastforce simp: store_ok_def accepted_of_def filter_empty_conv)
    have "filter (\<lambda>w. fst w = ?i) (sy_written s) = []"
      using kept_known [OF assms(1)] by (fastforce simp: filter_empty_conv)
    then have fresh: "key_ok (s\<lparr>sy_recorder := rc, sy_db := d\<rparr>) ?i cs" for cs
      using new(4,5) none by (simp add: key_ok_def)
    have old: "key_ok (s\<lparr>sy_recorder := rc, sy_db := d\<rparr>) i cs" if "key_ok s i cs" for i cs
      using that new(4) by (simp add: key_ok_def)
    have "db_reach d" using reach_start [OF reach, of r n "wanted_channels c" now] st by simp
    then have "store_ok (s\<lparr>sy_recorder := rc, sy_db := d\<rparr>)"
      using assms(1) new(2,3) fresh old 2(3) unfolding store_ok_def by (simp add: order.strict_implies_order)
    moreover have "active_ok (s\<lparr>sy_recorder := rc, sy_db := d\<rparr>) (dr_id row)"
      using assms(1) new(1,2,3,6) none 2(3) by (simp add: active_ok_def last_ok_def store_ok_def)
    then have "offers_ok (s\<lparr>sy_recorder := rc, sy_db := d\<rparr>)"
      using assms(2) 2(3) by (simp add: offers_ok_def)
    ultimately show ?thesis by simp
  qed
qed

subsection \<open>Worker and telemetry\<close>

lemma write_step:
  assumes "store_ok s" "offers_ok s" "bw_current (s_writer s) = Some w"
  defines "s' \<equiv> s\<lparr>sy_recorder := (sy_recorder s)\<lparr>rcd_writer := worker_done False (s_writer s)\<rparr>,
    sy_db := write_sample w (sy_db s), sy_written := sy_written s @ [w]\<rparr>"
  shows "store_ok s' \<and> offers_ok s'"
proof
  have "w \<in> set (under_way (s_writer s))" using assms(3) by (simp add: under_way_def)
  then have "fst w \<le> t_recording_seq (sy_db s)" using kept_known [OF assms(1)] by simp
  then have "db_reach (write_sample w (sy_db s))" using assms(1) reach_write by (simp add: store_ok_def)
  moreover have "key_ok s i cs \<Longrightarrow> key_ok s' i cs" for i cs
    by (simp add: key_ok_def s'_def stored_write accepted_of_def)
  ultimately show "store_ok s'"
    using assms(1) writes_kept_write [OF _ assms(3)] by (simp add: store_ok_def s'_def)
  have "active_ok s i \<Longrightarrow> active_ok s' i" for i
    by (simp add: active_ok_def s'_def accepted_of_def last_ok_def)
  then show "offers_ok s'" using assms(2) by (simp add: offers_ok_def s'_def accepted_of_def)
qed

lemma writer_step:
  assumes "store_ok s" "offers_ok s" "bw_task b" "writes_kept (map snd (sy_accepted s)) (sy_written s) b"
  shows "store_ok (s\<lparr>sy_recorder := (sy_recorder s)\<lparr>rcd_writer := b\<rparr>\<rparr>)
    \<and> offers_ok (s\<lparr>sy_recorder := (sy_recorder s)\<lparr>rcd_writer := b\<rparr>\<rparr>)"
  using assms by (simp add: store_ok_def offers_ok_def key_ok_def active_ok_def last_ok_def)

lemma take_kept: "writes_kept as ws b \<Longrightarrow> writes_kept as ws (worker_take b)"
  by (simp add: writes_kept_def)

lemma spaced_snoc:
  assumes "spaced gap ts" "\<And>t. t \<in> set ts \<Longrightarrow> gap \<le> now - t" shows "spaced gap (ts @ [now])"
  using assms by (simp add: spaced_def sorted_wrt_append)

lemma times_snoc: "times_of (as @ [(t, w)]) k = times_of as k @ (if kind_of w = k then [t] else [])"
  by (simp add: times_of_def)

lemma default_Some [simp]: "default x (Some y) = y"
  by (simp add: default_def)

lemma last_ok_frame [simp]:
  "last_ok (rc\<lparr>rcd_writer := b\<rparr>) as = last_ok rc as" "last_ok (rc\<lparr>rcd_samples := k\<rparr>) as = last_ok rc as"
  by (simp_all add: last_ok_def)

lemma last_ok_dset:
  assumes "last_ok rc as" "0 < channel_interval kind \<Longrightarrow> channel_interval kind \<le> now - default 0 (dget (rcd_last_mono rc) kind)"
  shows "last_ok (rc\<lparr>rcd_last_mono := dset (rcd_last_mono rc) kind now\<rparr>) as"
    "a \<in> set as \<Longrightarrow> kind_of (snd a) = kind \<Longrightarrow> 0 < channel_interval kind \<Longrightarrow> channel_interval kind \<le> now - fst a"
proof -
  show gap: "channel_interval kind \<le> now - fst a"
    if a: "a \<in> set as" "kind_of (snd a) = kind" "0 < channel_interval kind" for a
  proof -
    obtain l where "dget (rcd_last_mono rc) kind = Some l" "fst a \<le> l"
      using assms(1) a unfolding last_ok_def by blast
    then show ?thesis using assms(2) [OF a(3)] by simp
  qed
  show "last_ok (rc\<lparr>rcd_last_mono := dset (rcd_last_mono rc) kind now\<rparr>) as"
    unfolding last_ok_def
  proof
    fix a assume a: "a \<in> set as"
    show "\<exists>l. dget (rcd_last_mono (rc\<lparr>rcd_last_mono := dset (rcd_last_mono rc) kind now\<rparr>)) (kind_of (snd a)) = Some l
        \<and> (0 < channel_interval (kind_of (snd a)) \<longrightarrow> fst a \<le> l)"
    proof (cases "kind_of (snd a) = kind")
      case True
      then have "0 < channel_interval kind \<longrightarrow> fst a \<le> now" using gap [OF a] by auto
      with True show ?thesis by simp
    next
      case False
      with assms(1) a show ?thesis by (simp add: last_ok_def)
    qed
  qed
qed

lemma telemetry_step:
  fixes s :: recording_system and kind ts data :: string and now :: rat
  assumes "store_ok s" "offers_ok s"
  defines "rc \<equiv> offer_channel kind ts data now (sy_recorder s)"
  defines "s' \<equiv> s\<lparr>sy_recorder := rc,
    sy_accepted := sy_accepted s @ map (Pair now) (drop (length (bw_queue (s_writer s))) (bw_queue (rcd_writer rc)))\<rparr>"
  shows "store_ok s' \<and> offers_ok s'"
proof -
  have task: "bw_task (s_writer s)" using assms(1) by (simp add: store_ok_def)
  show ?thesis
  proof (cases rule: offer_cases [OF task, of kind ts data now])
    case 1
    then have "s' = s" by (simp add: s'_def rc_def)
    with assms(1,2) show ?thesis by simp
  next
    case (2 row)
    then obtain n where n: "rc = (sy_recorder s)\<lparr>rcd_last_mono := dset (rcd_last_mono (sy_recorder s)) kind now,
         rcd_writer := (s_writer s)\<lparr>bw_dropped := n\<rparr>\<rparr>" by (auto simp: rc_def)
    have "writes_kept as ws ((s_writer s)\<lparr>bw_dropped := n\<rparr>) = writes_kept as ws (s_writer s)" for as ws
      by (simp add: writes_kept_def under_way_def)
    then have "store_ok s'" using assms(1) by (simp add: store_ok_def s'_def n key_ok_def accepted_of_def)
    moreover have "accepted_of s' i = accepted_of s i" for i by (simp add: accepted_of_def s'_def n)
    then have "active_ok s' (dr_id row)" if "active_ok s (dr_id row)"
      using that last_ok_dset(1) [OF _ 2(3)] by (simp add: active_ok_def s'_def n)
    then have "offers_ok s'" using assms(2) 2(1) by (simp add: offers_ok_def s'_def n accepted_of_def)
    ultimately show ?thesis by simp
  next
    case (3 row)
    let ?w = "(dr_id row, ts, kind, data)"
    have acc: "accepted_of s' i = accepted_of s i @ (if dr_id row = i then [(now, ?w)] else [])" for i
      using 3(5) by (simp add: accepted_of_def s'_def rc_def)
    have active: "active_ok s (dr_id row)" using assms(2) 3(1) by (simp add: offers_ok_def)
    then have bound: "sy_base s < dr_id row" "dr_id row \<le> t_recording_seq (sy_db s)"
      "rcd_samples (sy_recorder s) = length (accepted_of s (dr_id row))"
      "last_ok (sy_recorder s) (accepted_of s (dr_id row))"
      "\<And>cs. (dr_id row, cs) \<in> rec_keys (sy_db s) \<Longrightarrow> cs = rcd_channels (sy_recorder s)"
      by (simp_all add: active_ok_def)
    have kind: "kind_of ?w = kind" by (simp add: kind_of_def)
    note last = last_ok_dset [OF bound(4) 3(3)]
    have "writes_kept (map snd (sy_accepted s) @ [?w]) (sy_written s) ((s_writer s)\<lparr>bw_queue := bw_queue (s_writer s) @ [?w]\<rparr>)"
      by (rule writes_kept_submit) (use assms(1) in \<open>simp_all add: store_ok_def under_way_def\<close>)
    moreover have "key_ok s' i cs" if "key_ok s i cs" "(i, cs) \<in> rec_keys (sy_db s)" for i cs
      using that bound(5) 3(2) kind by (auto simp: key_ok_def acc) (simp_all add: s'_def)
    ultimately have "store_ok s'" using assms(1) bound(1,2) 3(5) by (simp add: store_ok_def s'_def rc_def)
    moreover have "length (accepted_of s' i) \<le> MAX_SAMPLES" for i
      using assms(2) 3(4) bound(3) by (auto simp: acc offers_ok_def)
    moreover have "spaced (channel_interval k) (times_of (accepted_of s' i) k)" if "0 < channel_interval k" for i k
    proof -
      have "spaced (channel_interval k) (times_of (accepted_of s i) k)" using assms(2) that by (simp add: offers_ok_def)
      moreover have "channel_interval k \<le> now - t" if "t \<in> set (times_of (accepted_of s (dr_id row)) k)" "kind = k" for t
        using that last(2) \<open>0 < channel_interval k\<close> by (auto simp: times_of_def)
      ultimately have "kind = k \<Longrightarrow> spaced (channel_interval k) (times_of (accepted_of s (dr_id row)) k @ [now])"
        if "i = dr_id row" using that by (intro spaced_snoc) simp_all
      with \<open>spaced (channel_interval k) (times_of (accepted_of s i) k)\<close> show ?thesis
        by (cases "i = dr_id row") (auto simp: acc times_snoc kind)
    qed
    moreover have "active_ok s' (dr_id row)"
    proof -
      have "last_ok rc (accepted_of s (dr_id row) @ [(now, ?w)])"
        using last(1) kind 3(5) by (simp add: last_ok_def rc_def)
      then show ?thesis using active 3(5) by (simp add: active_ok_def acc) (simp add: s'_def rc_def)
    qed
    then have "rcd_active (sy_recorder s') = Some r \<Longrightarrow> active_ok s' (dr_id r)" for r
      using 3(1,5) by (simp add: s'_def rc_def)
    ultimately show ?thesis by (simp add: offers_ok_def)
  qed
qed

subsection \<open>Every run\<close>

lemma recover_reach: "db_reach d \<Longrightarrow> db_reach (recover now d)"
proof -
  have "db_reach (fold (\<lambda>row d. if dr_status row = ''recording'' then fst (stop_recording (dr_id row) now d) else d) rows d)"
    if "db_reach d" for rows d
    using that by (induction rows arbitrary: d) (simp_all add: reach_stop)
  then show "db_reach d \<Longrightarrow> ?thesis" by (simp add: recover_def)
qed

lemma recover_seq [simp]: "t_recording_seq (recover now d) = t_recording_seq d"
proof -
  have "t_recording_seq (fold (\<lambda>row d. if dr_status row = ''recording'' then fst (stop_recording (dr_id row) now d) else d) rows d)
      = t_recording_seq d" for rows d
    by (induction rows arbitrary: d) simp_all
  then show ?thesis by (simp add: recover_def)
qed

lemma begin_ok:
  assumes "db_reach d" shows "store_ok (recording_begin now d) \<and> offers_ok (recording_begin now d)"
proof
  have "recordings_ok (recover now d)" using db_reach_ok recover_reach [OF assms] by blast
  then have "(i, cs) \<in> rec_keys (recover now d) \<Longrightarrow> i \<le> t_recording_seq d" for i cs
    by (auto simp: rec_keys_def recordings_ok_def)
  then show "store_ok (recording_begin now d)" using recover_reach [OF assms]
    by (fastforce simp: store_ok_def recording_begin_def writer_start_def new_recorder_def new_writer_def
        writes_kept_def under_way_def)
  show "offers_ok (recording_begin now d)"
    by (simp add: offers_ok_def recording_begin_def new_recorder_def accepted_of_def times_of_def spaced_def)
qed

lemma step_ok:
  assumes "rec_step s s'" "store_ok s" "offers_ok s" shows "store_ok s' \<and> offers_ok s'"
  using assms
proof (induction rule: rec_step.induct)
  case (route_start u robot name channels now s rc d reply)
  obtain rc' d' reply' where "recorder_start (the robot) (if py_strip name = [] then ''Untitled recording'' else py_strip name)
      channels now (sy_recorder s) (sy_db s) = (rc', d', reply')" by (metis prod_cases3)
  with route_start start_step [OF route_start(2,3) this] show ?case
    by (auto simp: api_start_recording_def split: if_splits option.splits)
next
  case (route_stop u s rc reply)
  then have "store_ok (s\<lparr>sy_recorder := rc\<rparr>) \<and> offers_ok (s\<lparr>sy_recorder := rc\<rparr>)"
    by (auto simp: api_stop_begin_def recorder_stop_begin_def store_ok_def offers_ok_def key_ok_def split: if_splits option.splits)
  then show ?case by simp
next
  case (stop_finishes i s now d reply)
  then have d: "d = fst (stop_recording i now (sy_db s))"
    by (auto simp: api_stop_end_def recorder_stop_end_def split: prod.splits option.splits)
  have "db_reach d" using stop_finishes(4) reach_stop by (simp add: d store_ok_def)
  then have "store_ok (s\<lparr>sy_db := d\<rparr>) \<and> offers_ok (s\<lparr>sy_db := d\<rparr>)"
    by (intro tables_change) (use stop_finishes(4,5) d in simp_all)
  then show ?case by simp
next
  case (route_delete u i s d reply)
  then consider "d = sy_db s" | "d = fst (delete_recording i (sy_db s))"
    by (auto simp: api_delete_recording_def split: if_splits prod.splits option.splits)
  then show ?case
  proof cases
    case 2
    have "db_reach d" using route_delete(2) reach_delete by (simp add: 2 store_ok_def)
    then show ?thesis
      by (intro tables_change) (use route_delete(2,3) in \<open>auto simp: 2 delete_recording_frame\<close>)
  qed (use route_delete in simp)
next
  case (telemetry rc kind ts data now s)
  then show ?case using telemetry_step by simp
next
  case (worker_takes s)
  then show ?case by (intro writer_step) (simp_all add: store_ok_def take_kept)
next
  case (worker_writes s w)
  then show ?case using write_step by simp
next
  case (worker_fails s w)
  then show ?case by (intro writer_step) (simp_all add: store_ok_def writes_kept_fail)
next
  case (other_database_call p s e)
  have "db_reach (db_apply e p (sy_db s))"
    using other_database_call by (intro db_next) (simp_all add: store_ok_def)
  then show ?case
    by (intro tables_change) (use other_database_call in \<open>simp_all add: other_call_frame\<close>)
qed

theorem rec_reach_ok: "rec_reach s \<Longrightarrow> store_ok s \<and> offers_ok s"
  by (induction rule: rec_reach.induct) (simp_all add: begin_ok step_ok)

text \<open>
  C27. When the flush of a stop has returned and the recording has not been deleted meanwhile, the row
  the stop answers with is closed, its count is the number of samples stored for it, and reading the
  recording back gives exactly the writes carried out, in the order in which the telemetry path offered
  them: all that the queue accepted, unless a write failed. They are at most the fixed maximum, of the
  channels of the recording only, and no two of one channel were taken closer together than its interval.
\<close>

theorem recording_saved_whole:
  assumes "rec_reach s" "flushed (s_writer s)" "sy_base s < i"
    and "recorder_stop_end i now (sy_db s) = (d, Some row)"
  defines "saved \<equiv> map (\<lambda>s. (ds_recording s, ds_ts s, ds_kind s, ds_data s)) (iter_recording_samples d i None SAMPLE_PAGE)"
  shows "dr_id row = i \<and> dr_status row \<noteq> ''recording'' \<and> dr_sample_count row = int (length saved)
    \<and> saved = filter (\<lambda>w. fst w = i) (sy_written s) \<and> subseq saved (map snd (accepted_of s i))
    \<and> (bw_failed (s_writer s) = 0 \<longrightarrow> saved = map snd (accepted_of s i))
    \<and> length saved \<le> MAX_SAMPLES \<and> (\<forall>w\<in>set saved. kind_of w \<in> set (dr_channels row))
    \<and> (\<forall>kind. 0 < channel_interval kind \<longrightarrow> spaced (channel_interval kind) (times_of (accepted_of s i) kind))"
proof -
  have ok: "store_ok s" "offers_ok s" using rec_reach_ok [OF assms(1)] by simp_all
  have d: "d = fst (stop_recording i now (sy_db s))" "get_recording d i = Some row"
    using assms(4) by (auto simp: recorder_stop_end_def split: prod.splits)
  have reach: "db_reach d" using ok(1) reach_stop by (simp add: d(1) store_ok_def)
  have row: "row \<in> set (t_recordings d)" "dr_id row = i"
    using d(2) by (auto simp: get_recording_def find_Some_iff)
  have keys: "(i, dr_channels row) \<in> rec_keys (sy_db s)"
  proof -
    have "(i, dr_channels row) \<in> rec_keys d" using row by (force simp: rec_keys_def)
    then show ?thesis by (simp add: d(1))
  qed
  then have key: "key_ok s i (dr_channels row)" using ok(1) assms(3) by (simp add: store_ok_def)
  have of_rec: "filter (of_recording i None) ss = filter (\<lambda>s. ds_recording s = i) ss" for ss
    by (rule filter_cong) (simp_all add: of_recording_def)
  have "iter_recording_samples d i None SAMPLE_PAGE = filter (\<lambda>s. ds_recording s = i) (t_samples d)"
    by (simp add: iter_all [OF reach] SAMPLE_PAGE_def of_rec)
  then have saved: "saved = stored d i" by (simp add: saved_def stored_def)
  have written: "saved = filter (\<lambda>w. fst w = i) (sy_written s)" using key by (simp add: saved d(1) key_ok_def)
  have count: "dr_sample_count row = int (length saved)"
    using db_reach_ok [OF reach] row by (simp add: recordings_ok_def saved stored_def)
  have kept: "writes_kept (map snd (sy_accepted s)) (sy_written s) (s_writer s)" using ok(1) by (simp add: store_ok_def)
  have queue_joined: "queue_joined (s_writer s)" using assms(2) ok(1) by (simp add: flushed_def store_ok_def)
  have accepted: "map snd (accepted_of s i) = filter (\<lambda>w. fst w = i) (map snd (sy_accepted s))"
    by (simp add: accepted_of_def filter_map comp_def)
  have sub: "subseq saved (map snd (accepted_of s i))"
  proof -
    have "subseq (sy_written s) (map snd (sy_accepted s))"
      using kept queue_joined by (simp add: writes_kept_def queue_joined_def under_way_def)
    then show ?thesis unfolding written accepted by (rule subseq_filter)
  qed
  have all: "saved = map snd (accepted_of s i)" if "bw_failed (s_writer s) = 0"
    using writes_kept_complete [OF kept queue_joined that] by (simp add: written accepted)
  have short: "length saved \<le> MAX_SAMPLES"
    using list_emb_length [OF sub] ok(2) by (auto simp: offers_ok_def intro: order.trans)
  have kinds: "kind_of w \<in> set (dr_channels row)" if "w \<in> set saved" for w
  proof -
    have "w \<in> snd ` set (accepted_of s i)" using list_emb_set [OF sub that] unfolding set_map by blast
    then obtain a where "a \<in> set (accepted_of s i)" "w = snd a" by (rule imageE) simp
    then show ?thesis using key unfolding key_ok_def by blast
  qed
  have closed: "dr_status row \<noteq> ''recording''"
  proof -
    have "row \<in> set (update_where (\<lambda>r. dr_id r = i \<and> dr_status r = ''recording'')
        (\<lambda>r. r\<lparr>dr_status := ''done'', dr_ended_at := Some now\<rparr>) (t_recordings (sy_db s)))"
      using row(1) by (simp add: d(1) stop_recording_def Let_def)
    then have "row \<in> (\<lambda>r. if dr_id r = i \<and> dr_status r = ''recording''
        then r\<lparr>dr_status := ''done'', dr_ended_at := Some now\<rparr> else r) ` set (t_recordings (sy_db s))"
      by (simp only: set_update_where)
    then obtain r where r: "row = (if dr_id r = i \<and> dr_status r = ''recording''
        then r\<lparr>dr_status := ''done'', dr_ended_at := Some now\<rparr> else r)" by (rule imageE)
    show ?thesis
    proof (cases "dr_id r = i \<and> dr_status r = ''recording''")
      case False with r row(2) show ?thesis by simp
    qed (simp add: r)
  qed
  show ?thesis using row(2) closed count written sub all short kinds ok(2) by (simp add: offers_ok_def)
qed

subsection \<open>A restart\<close>

definition newest_open :: "database \<Rightarrow> bool" where
  "newest_open d = (\<forall>r\<in>set (butlast (t_recordings d)). dr_status r \<noteq> ''recording'')"

lemma butlast_filter: "set (butlast (filter p xs)) \<subseteq> set (butlast xs)"
proof (cases xs rule: rev_cases)
  case (snoc ys y)
  have "set (butlast (filter p ys)) \<subseteq> set ys" by (meson filter_is_subset in_set_butlastD subset_iff)
  then show ?thesis using snoc by auto
qed simp

lemma newest_open_update:
  assumes "\<And>r. dr_status (f r) = ''recording'' \<Longrightarrow> dr_status r = ''recording''" "newest_open d"
  shows "newest_open (d\<lparr>t_recordings := update_where p f (t_recordings d)\<rparr>)"
  using assms by (auto simp: newest_open_def update_where_def map_butlast [symmetric])

lemma reach_newest_open: "db_reach d \<Longrightarrow> newest_open d"
proof (induction rule: db_reach.induct)
  case (db_start dumps now)
  show ?case by (simp add: newest_open_def) (simp add: empty_database_def)
next
  case (db_next d e p)
  show ?case
  proof (cases "other_call p")
    case True
    then show ?thesis using db_next(4) other_call_tables [OF True, of e d] by (simp add: newest_open_def)
  next
    case False
    then show ?thesis
    proof (cases p)
      case (Start_recording r n c)
      then show ?thesis using db_next(4)
        by (auto simp: start_recording_def insert_recording_def recording_open_def newest_open_def Let_def list_ex_iff)
    next
      case (Stop_recording i)
      have "newest_open (d\<lparr>t_recordings := update_where q (\<lambda>r. r\<lparr>dr_status := ''done'', dr_ended_at := t\<rparr>) (t_recordings d)\<rparr>)" for q t
        by (rule newest_open_update) (use db_next(4) in simp_all)
      then show ?thesis using Stop_recording by (simp add: stop_recording_def Let_def)
    next
      case (Add_sample i ts k x)
      have "newest_open (d\<lparr>t_recordings := update_where q (\<lambda>r. r\<lparr>dr_sample_count := dr_sample_count r + 1\<rparr>) (t_recordings d)\<rparr>)" for q
        by (rule newest_open_update) (use db_next(4) in simp_all)
      then show ?thesis using Add_sample by (simp add: add_recording_sample_def newest_open_def)
    next
      case (Delete_recording i)
      then show ?thesis using db_next(4) butlast_filter by (fastforce simp: delete_recording_def newest_open_def)
    next
      case Init_again
      then show ?thesis using db_next(4) by (simp add: newest_open_def)
    qed simp_all
  qed
qed

lemma restart_closes_recordings:
  assumes "db_reach d" shows "open_recordings (recover now d) = []"
proof (cases "t_recordings d" rule: rev_cases)
  case Nil
  then show ?thesis by (simp add: recover_def list_recordings_def sql_limit_def open_recordings_def)
next
  case (snoc xs r)
  let ?step = "\<lambda>row d. if dr_status row = ''recording'' then fst (stop_recording (dr_id row) now d) else d"
  have old: "dr_status x \<noteq> ''recording''" if "x \<in> set xs" for x
    using reach_newest_open [OF assms] that by (simp add: newest_open_def snoc)
  have skip: "fold ?step rows d = d" if "\<forall>x\<in>set rows. dr_status x \<noteq> ''recording''" for rows d
    using that by (induction rows) simp_all
  have "take 49 (rev xs) = rows \<Longrightarrow> \<forall>x\<in>set rows. dr_status x \<noteq> ''recording''" for rows
    using old by (auto dest: in_set_takeD)
  then have "recover now d = ?step r d"
    using skip [of "take 49 (rev xs)"] by (simp add: recover_def list_recordings_def sql_limit_def snoc take_Cons')
  then show ?thesis using old
    by (auto simp: open_recordings_def stop_recording_def Let_def snoc update_where_def filter_empty_conv)
qed

subsection \<open>An example\<close>

definition example_row :: db_recording where
  "example_row = \<lparr>dr_id = 1, dr_robot = ''r'', dr_name = ''n'', dr_channels = [''pose'', ''battery'', ''event''],
     dr_started_at = ''n'', dr_ended_at = None, dr_status = ''recording'', dr_sample_count = 0\<rparr>"

definition example_tables :: database where
  "example_tables = init_database (\<lambda>v. ''{}'') ''n'' empty_database"

definition example_started :: recording_system where
  "example_started = (recording_begin ''n'' example_tables)
     \<lparr>sy_recorder := new_recorder\<lparr>rcd_writer := writer_start new_writer, rcd_active := Some example_row,
        rcd_channels := DEFAULT_CHANNELS\<rparr>,
      sy_db := example_tables\<lparr>t_recordings := [example_row], t_recording_seq := 1\<rparr>\<rparr>"

definition example_write :: sample_write where "example_write = (1, ''t'', ''pose'', ''{}'')"

definition example_queued :: recording_system where
  "example_queued = example_started
     \<lparr>sy_recorder := new_recorder\<lparr>rcd_writer := (writer_start new_writer)\<lparr>bw_queue := [example_write]\<rparr>,
        rcd_active := Some example_row, rcd_channels := DEFAULT_CHANNELS, rcd_last_mono := [(''pose'', 1)], rcd_samples := 1\<rparr>,
      sy_accepted := [(1, example_write)]\<rparr>"

definition example_taken :: recording_system where
  "example_taken = example_queued\<lparr>sy_recorder := (sy_recorder example_queued)\<lparr>rcd_writer := worker_take (s_writer example_queued)\<rparr>\<rparr>"

definition example_saved :: recording_system where
  "example_saved = example_taken\<lparr>sy_recorder := (sy_recorder example_taken)\<lparr>rcd_writer := worker_done False (s_writer example_taken)\<rparr>,
     sy_db := write_sample example_write (sy_db example_taken), sy_written := sy_written example_taken @ [example_write]\<rparr>"

lemma example_tables_recordings [simp]:
  "t_recordings example_tables = []" "t_recording_seq example_tables = 0"
  by (simp_all add: example_tables_def) (simp_all add: empty_database_def)

lemma example_recover: "recover ''n'' example_tables = example_tables"
  by (simp add: recover_def list_recordings_def sql_limit_def)

lemma example_saved_reach: "rec_reach example_saved"
proof -
  let ?u = "\<lparr>us_id = 1, us_username = ''u'', us_role = ''operator''\<rparr>"
  have "rec_reach (recording_begin ''n'' example_tables)"
    by (rule rec_begin) (simp add: example_tables_def db_start)
  moreover have "rec_step (recording_begin ''n'' example_tables) example_started"
    unfolding example_started_def
    by (rule route_start [of ?u "Some ''r''" "''n''" None "''n''" _ _ _ "Inr example_row"])
       (simp add: api_start_recording_def can_command_def py_strip_def char_space_def recorder_start_def wanted_channels_def
         start_recording_def recording_open_def insert_recording_def get_recording_def recording_begin_def example_recover
         new_recorder_def example_row_def DEFAULT_CHANNELS_def KNOWN_CHANNELS_def CHANNEL_INTERVALS_def dkeys_def Let_def)
  moreover have "rec_step example_started example_queued"
  proof -
    have o: "offer_channel ''pose'' ''t'' ''{}'' 1 (sy_recorder example_started) = sy_recorder example_queued"
      by (simp add: example_started_def example_queued_def offer_channel_def DEFAULT_CHANNELS_def CHANNEL_INTERVALS_def
          new_recorder_def new_writer_def writer_start_def submit_def DEFAULT_MAXSIZE_def MAX_SAMPLES_def example_row_def
          example_write_def Let_def default_def)
    have "example_queued = example_started\<lparr>sy_recorder := sy_recorder example_queued,
        sy_accepted := sy_accepted example_started @ map (Pair 1) (drop (length (bw_queue (s_writer example_started))) (bw_queue (s_writer example_queued)))\<rparr>"
      by (simp add: example_queued_def example_started_def recording_begin_def new_recorder_def new_writer_def writer_start_def)
    then show ?thesis using telemetry [OF o [symmetric]] by simp
  qed
  moreover have "rec_step example_queued example_taken"
    unfolding example_taken_def by (rule worker_takes)
  moreover have "rec_step example_taken example_saved"
    unfolding example_saved_def
    by (rule worker_writes) (simp add: example_taken_def example_queued_def worker_take_def writer_start_def new_writer_def)
  ultimately show ?thesis by (meson rec_more)
qed

theorem recording_saved_whole_witness:
  "map (\<lambda>s. (ds_recording s, ds_ts s, ds_kind s, ds_data s))
     (iter_recording_samples (fst (recorder_stop_end 1 ''n'' (sy_db example_saved))) 1 None SAMPLE_PAGE) = [example_write]"
proof -
  have "flushed (s_writer example_saved)" "sy_base example_saved < 1" "sy_written example_saved = [example_write]"
    by (simp_all add: example_saved_def example_taken_def example_queued_def example_started_def flushed_def queue_joined_def
        worker_done_def worker_take_def writer_start_def new_writer_def recording_begin_def)
  moreover obtain d row where "recorder_stop_end 1 ''n'' (sy_db example_saved) = (d, Some row)"
  proof -
    have "\<exists>r\<in>set (t_recordings (fst (stop_recording 1 ''n'' (sy_db example_saved)))). dr_id r = 1"
      by (simp add: stop_recording_def example_saved_def example_taken_def example_queued_def example_started_def example_row_def
          write_sample_def example_write_def add_recording_sample_def update_where_def Let_def)
    then have "get_recording (fst (stop_recording 1 ''n'' (sy_db example_saved))) 1 \<noteq> None"
      by (auto simp: get_recording_def find_None_iff)
    then show ?thesis using that by (auto simp: recorder_stop_end_def split_def)
  qed
  ultimately show ?thesis
    using recording_saved_whole [OF example_saved_reach, of 1 "''n''" d row] by (simp add: example_write_def)
qed

end
