(* ===== verification/Spec2Isabelle.thy ===== *)
theory Spec2Isabelle
  imports Gates Lease Tuning_Policy Bridge_Normalizers Bridge_Teleop Server_Replies Executor_Motion Bridge_Barrier Tuning_Run Frame_Queues System_Reset Bridge_Tuning Gateways Node_Run Login Recording_Run
begin

text \<open>
  Verification of the PatrolBot dashboard.

  The system. A robot runs a ROS 2 node, the bridge (\<open>ros2_ws/src/patrolbot_web_bridge\<close>), that dials
  out to the dashboard server (\<open>server/app\<close>) over one WebSocket. The bridge normalizes topics into
  telemetry and carries out commands; the server keeps the state of every robot, shows it to browsers
  over a second WebSocket, and admits the commands operators send back. A command crosses two
  barriers that repeat each other: the gates of the server and the prechecks of the robot. Manual
  drive, robot tuning and the host's software reset each have a protocol of their own on top.

  Theories and code, from the bottom up.
  Prelude: Python floats with their non-finite values, strings, ordered dictionaries, truth of a
  value, decimal rounding; the rule collections.
  Messages: \<open>protocol/messages.py\<close>, payload classes as records, validators, map run lengths.
  Status, Battery_Estimator, Robot_State: \<open>telemetry/status.py\<close>, \<open>battery_estimator.py\<close>, \<open>store.py\<close>;
  one record per robot, one function per ingestion, with the event log and its id allocator.
  Gates: \<open>commands/gates.py\<close>, one function per gate. Lease: \<open>commands/lease.py\<close>.
  Tuning_Policy: \<open>commands/tuning_policy.py\<close>, reading and resolving a speed policy.
  Hub, Command_Broker, Robot_Link: \<open>telemetry/hub.py\<close>, \<open>commands/broker.py\<close>, \<open>commands/teleop.py\<close> over
  one record \<open>world\<close>. A request is cut where the code awaits its audit row (\<open>admit\<close>, then the rest), so
  other operations fall in between. Broker_Journal holds what is audited and sent (\<open>journal\<close>);
  Server_Run the step relation \<open>server_step\<close> with its reachable states; Admission, Manual_Drive,
  Server_Barriers and Server_Replies the properties of admission, ownership of manual drive, the
  reset and LiDAR barriers, and answers.
  Tuning_Validation, Tuning_Authorization, Tuning_Broker, Tuning_Run: \<open>tuning/validation.py\<close>,
  \<open>authorization.py\<close>, \<open>broker.py\<close> with \<open>authz.py\<close> and \<open>errors.py\<close>, and the runs of the broker.
  Gateways: \<open>websocket/robot_gateway.py\<close>, \<open>ui_gateway.py\<close> and the routing of incoming frames in
  \<open>ws_client.py\<close>. Frame_Queues: the two bounded queues, \<open>BrowserClient\<close> of the hub and \<open>WsClient\<close>.
  Login: \<open>authentication/\<close> with \<open>settings.py\<close>, the session check of \<open>main.py\<close> and \<open>api/tuning.py\<close>.
  Database and Database_Run: \<open>database/repo.py\<close> with \<open>presets.py\<close>, a table being the list of its rows, and
  what the tables hold after any calls. Recording and Recording_Run: \<open>database/writer.py\<close>,
  \<open>recordings/recorder.py\<close>, the routes of \<open>api/recordings.py\<close> that change a recording, and their runs.
  Bridge_Normalizers: \<open>normalizers.py\<close>. Bridge_Commands and Bridge_Executor: \<open>commands.py\<close>, the
  prechecks and every method of \<open>CommandExecutor\<close> over the record \<open>executor\<close>, whose field of callbacks
  stands for the futures and timers it has registered; Executor_Run its runs, Executor_Motion who
  moves the robot, Bridge_Barrier the comparison with Gates.
  Bridge_Teleop and Ros_Teleop: \<open>teleop.py\<close>, the session (\<open>TeleopSession\<close>) and its ROS side
  (\<open>RosTeleop\<close>). System_Reset: \<open>system_reset.py\<close>. Bridge_Tuning: \<open>tuning.py\<close>.
  Throttle: \<open>throttle.py\<close>. Node_Sensors and Robot_Node: \<open>bridge_node.py\<close>, the topic callbacks, and the
  node as a whole, with the mailboxes and the timer that connect socket, manual drive, reset client
  and executor; Node_Run its runs.

  What the lemmas show, by group.
  Gates and barriers: what a passed gate guarantees of the readings; no request reaches a robot past
  its gate, lease, session, rate limit and capability; the robot's own barrier is the server's gate on
  the same readings.
  Command path: a command is sent once and only after its audit row; every request is answered; a
  barrier or the ownership of manual drive ends by the robot or by a reset alone.
  Executor: at most one motion owner, nothing requested before a motor disable starts after it, each
  stop answered exactly once, each result reported once.
  Manual drive: the server forwards velocity only for the audited owner; the robot acknowledges a
  start only after its outputs have drained, publishes only for a guarded frame as sole owner, and
  closes on every loss of health; a release is always honoured.
  Node: a command other than the three that end it never runs beside manual drive, a stop is served
  whatever else is pending, and motion follows only from a frame of the present connection.
  Tuning: a request that passes is well typed; the bounded scan ends and decides exactly its limits; changes
  are serialized, their outcomes honest and their signatures verify exactly what was signed; the
  envelope the server builds passes the checks of the robot; nothing is replayed after a lost
  connection; a required policy is never downgraded.
  Telemetry: frames leave in order and reach the server; a browser's picture has no gaps; a speed or
  a localized pose is what was measured, under the origin and map it names.

  Login: a cookie is worth what the server put into it while it lasts, a login grants the listed roles
  only, and a tuning change over HTTP needs a present administrator.

  Storage: the tables keep their keys and exact counts, the audit log only grows, a recording read page
  by page is read whole, a stopped recording holds what its queue accepted, layouts stay private.

  Interfaces. \<open>command_gate\<close>, \<open>hardware_gate\<close> and \<open>stopped_gate\<close> are what the broker relies on in a gate,
  with every gate an interpretation; \<open>operator_lease\<close> is the exclusive lease; \<open>policy_reader\<close> is shared by
  the readers of the server and the robot; \<open>frame_queue\<close> by the two bounded queues. \<open>health_level\<close> is a
  \<open>linorder\<close>, as the card takes the worst level.

  Conventions. An operation is a function from its inputs and the state to the state; what it sends
  is appended to an output list of the state. A raise is a value: \<open>None\<close>, \<open>Inl\<close>, or an output that says
  so. Awaits, threads and timers are steps of a relation between which anything else may happen;
  inside a step the code runs undisturbed, which is what the event loop of the server and the locks
  of the robot give. The steps of the robot's node allow more interleaving than its ROS executor.
  Sentences shown to operators are constructors. Numbers are exact: a finite float is a rational, and
  rounding to decimals is exact; strings are ASCII.

  Parameters, for what is not in the repository: the keyed hash and the text of a float in
  Tuning_Authorization (of the hash only that its digest is 64 hexadecimal digits), the catalogue
  candidates, the policy provider, answers of ROS and of the host supervisor, JSON text and the order in
  which SQLite lists rows that compare equal (only that it sorts), the
  text of a value (\<open>str\<close>), clocks, and the yaw of an orientation.

  Bounds. The scan of a tuning request runs on fuel of one step more than it may visit items and one
  to report the excess, and its termination theorem says that this is enough for every value. All
  other loops are structural or, for the walk over a recording, end by a measure.
  Queue and table limits are those of the code.

  Not modelled, as none of it decides what a robot does: JSON and pydantic coercion below the
  validators; \<open>resources.py\<close> (psutil readings); the
  PostgreSQL backend, which nothing deploys; the export of recordings and the routes that only read
  (files and projections of modelled state); map catalogue and static maps (YAML and image decoding at start); the redirects
  and pages of the login and the wiring at start; the mock robot (a
  development simulator); the contract validator, lab and release scripts (offline tools); the
  frontend (TypeScript, without authority of its own). Of the modelled modules, the start and
  stop of hub and broker and the snapshot payloads are left out.
\<close>

end
